(* ===== verification/Earn_Prelude.thy ===== *)
theory Earn_Prelude
  imports Main "HOL-Library.Multiset"
begin

text \<open>
  Shared vocabulary of the development.  A TypeScript \<open>throw\<close> is the left injection of a sum,
  a Postgres transaction is a function from the database to \<open>error + result \<times> database\<close> (an
  \<open>Inl\<close> result is a rolled back transaction: there is no new database), and tables are lists of
  records in insertion order.  The lemmas here are the generic ones: sequencing of fallible
  steps, conditional updates of a table, and sums of one column over the rows of a table.
\<close>

section \<open>Types\<close>

text \<open>
  A UUID is the 128-bit number it denotes: Postgres compares \<open>uuid\<close> values as these numbers and
  the lower-case text form has the same order, so \<open>ORDER BY id\<close> and \<open>.sort()\<close> agree with the
  order of \<open>nat\<close>.  Times are milliseconds since the epoch (a JavaScript \<open>Date\<close>), money is
  \<open>bigint\<close> cents.
\<close>

type_synonym uuid = nat
type_synonym time = int
type_synonym cents = int

text \<open>JSON payloads of the outbox, of the audit log and of the jsonb columns.\<close>

datatype json =
    JNull
  | JBool bool
  | JNum int
  | JStr string
  | JId uuid
  | JArr "json list"
  | JObj "(string \<times> json) list"

text \<open>The counts, per-currency totals and fingerprint an operator reviews before a payout batch.\<close>

record payout_batch_review =
  eligibleCount :: nat
  excludedCount :: nat
  totals :: "(string \<times> cents) list"
  selectionFingerprint :: string

text \<open>
  Errors: the Nest HTTP exceptions the code raises, the JavaScript \<open>RangeError\<close> of the money
  helper, a Prisma error by its code, a failed raw query by the SQLSTATE in its \<open>meta.code\<close> (its own
  code is \<open>P2010\<close>), and the drift error that carries a fresh review.
\<close>

datatype error =
    BadRequest string
  | Unauthorized string
  | Conflict string
  | Forbidden string
  | NotFound string
  | InternalError string
  | RangeError string
  | DbError string
  | RawDbError string
  | ReviewDrift payout_batch_review

type_synonym 'a res = "error + 'a"

section \<open>Sequencing of fallible steps\<close>

named_theorems txn_simps \<open>inversion of successful transactions\<close>

fun andThen :: "'e + 'a \<Rightarrow> ('a \<Rightarrow> 'e + 'b) \<Rightarrow> 'e + 'b" where
  "andThen (Inl e) f = Inl e"
| "andThen (Inr x) f = f x"

definition require :: "bool \<Rightarrow> 'e \<Rightarrow> 'e + unit" where
  "require c e = (if c then Inr () else Inl e)"

definition from_option :: "'e \<Rightarrow> 'a option \<Rightarrow> 'e + 'a" where
  "from_option e x = (case x of None \<Rightarrow> Inl e | Some y \<Rightarrow> Inr y)"

lemma ex_unit: "(\<exists>x::unit. P x) \<longleftrightarrow> P ()"
  by auto

text \<open>A \<open>for\<close> loop whose body may throw and updates an accumulated state.\<close>

fun foldRes :: "('a \<Rightarrow> 's \<Rightarrow> 'e + 's) \<Rightarrow> 'a list \<Rightarrow> 's \<Rightarrow> 'e + 's" where
  "foldRes f [] s = Inr s"
| "foldRes f (x # xs) s = andThen (f x s) (foldRes f xs)"

fun mapRes :: "('a \<Rightarrow> 'e + 'b) \<Rightarrow> 'a list \<Rightarrow> 'e + 'b list" where
  "mapRes f [] = Inr []"
| "mapRes f (x # xs) = andThen (f x) (\<lambda>y. andThen (mapRes f xs) (\<lambda>ys. Inr (y # ys)))"

lemma andThen_Inr_iff [simp, txn_simps]:
  "andThen m f = Inr y \<longleftrightarrow> (\<exists>x. m = Inr x \<and> f x = Inr y)"
  by (cases m) auto

lemma andThen_Inl_iff:
  "andThen m f = Inl e \<longleftrightarrow> m = Inl e \<or> (\<exists>x. m = Inr x \<and> f x = Inl e)"
  by (cases m) auto

lemma require_Inr_iff [simp, txn_simps]: "require c e = Inr u \<longleftrightarrow> c"
  by (simp add: require_def)

lemma require_True [simp]: "require True e = Inr ()"
  by (simp add: require_def)

lemma require_False [simp]: "require False e = Inl e"
  by (simp add: require_def)

lemma from_option_Inr_iff [simp, txn_simps]: "from_option e x = Inr y \<longleftrightarrow> x = Some y"
  by (cases x) (auto simp: from_option_def)

lemma from_option_simps [simp]: "from_option e None = Inl e" "from_option e (Some y) = Inr y"
  by (simp_all add: from_option_def)

lemma foldRes_append:
  "foldRes f (xs @ ys) s = andThen (foldRes f xs s) (foldRes f ys)"
proof (induction xs arbitrary: s)
  case Nil
  then show ?case by simp
next
  case (Cons x xs)
  then show ?case by (cases "f x s") auto
qed

text \<open>Invariant rule of a loop: what one body keeps, the loop keeps.\<close>

lemma foldRes_invariant:
  assumes "foldRes f xs s = Inr t" and "P s"
    and "\<And>x s t. x \<in> set xs \<Longrightarrow> P s \<Longrightarrow> f x s = Inr t \<Longrightarrow> P t"
  shows "P t"
  using assms
proof (induction xs arbitrary: s)
  case Nil
  then show ?case by simp
next
  case (Cons x xs)
  from Cons.prems(1) obtain u where u: "f x s = Inr u" "foldRes f xs u = Inr t" by auto
  have "P u" using Cons.prems(3) [of x s u] Cons.prems(2) u(1) by simp
  then show ?case using Cons.IH [OF u(2)] Cons.prems(3) by (metis list.set_intros(2))
qed

text \<open>Additive rule of a loop: a measure each body shifts by \<open>d x\<close> is shifted by the sum.\<close>

lemma foldRes_sum:
  fixes m :: "'s \<Rightarrow> int"
  assumes "foldRes f xs s = Inr t"
    and "\<And>x s t. x \<in> set xs \<Longrightarrow> f x s = Inr t \<Longrightarrow> m t = m s + d x"
  shows "m t = m s + sum_list (map d xs)"
  using assms
proof (induction xs arbitrary: s)
  case Nil
  then show ?case by simp
next
  case (Cons x xs)
  from Cons.prems(1) obtain u where u: "f x s = Inr u" "foldRes f xs u = Inr t" by auto
  have "m u = m s + d x" using Cons.prems(2) [OF _ u(1)] by simp
  moreover have "m t = m u + sum_list (map d xs)"
    using Cons.IH [OF u(2)] Cons.prems(2) by (meson list.set_intros(2))
  ultimately show ?case by simp
qed

section \<open>Joined texts\<close>

text \<open>\<open>join\<close> of an array of texts, and of \<open>string_agg\<close>.\<close>

fun joinText :: "string \<Rightarrow> string list \<Rightarrow> string" where
  "joinText sep [] = []"
| "joinText sep [x] = x"
| "joinText sep (x # y # xs) = x @ sep @ joinText sep (y # xs)"

section \<open>Tables\<close>

text \<open>\<open>UPDATE \<dots> SET f WHERE P\<close>, the number of rows it reports, and \<open>SELECT \<dots> LIMIT 1\<close>.\<close>

definition updateWhere :: "('r \<Rightarrow> bool) \<Rightarrow> ('r \<Rightarrow> 'r) \<Rightarrow> 'r list \<Rightarrow> 'r list" where
  "updateWhere P f rows = map (\<lambda>r. if P r then f r else r) rows"

definition countWhere :: "('r \<Rightarrow> bool) \<Rightarrow> 'r list \<Rightarrow> nat" where
  "countWhere P rows = length (filter P rows)"

definition sumWhere :: "('r \<Rightarrow> bool) \<Rightarrow> ('r \<Rightarrow> int) \<Rightarrow> 'r list \<Rightarrow> int" where
  "sumWhere P f rows = sum_list (map f (filter P rows))"

lemma updateWhere_simps [simp]:
  "updateWhere P f [] = []"
  "updateWhere P f (r # rs) = (if P r then f r else r) # updateWhere P f rs"
  by (simp_all add: updateWhere_def)

lemma length_updateWhere [simp]: "length (updateWhere P f rows) = length rows"
  by (simp add: updateWhere_def)

lemma updateWhere_append [simp]:
  "updateWhere P f (xs @ ys) = updateWhere P f xs @ updateWhere P f ys"
  by (simp add: updateWhere_def)

lemma set_updateWhere: "set (updateWhere P f rows) = (\<lambda>r. if P r then f r else r) ` set rows"
  by (simp add: updateWhere_def)

lemma map_updateWhere_id:
  "(\<And>r. P r \<Longrightarrow> g (f r) = g r) \<Longrightarrow> map g (updateWhere P f rows) = map g rows"
  by (auto simp: updateWhere_def)

lemma updateWhere_none: "(\<And>r. r \<in> set rows \<Longrightarrow> \<not> P r) \<Longrightarrow> updateWhere P f rows = rows"
  by (induction rows) auto

lemma sumWhere_simps [simp]:
  "sumWhere P f [] = 0"
  "sumWhere P f (r # rs) = (if P r then f r else 0) + sumWhere P f rs"
  by (simp_all add: sumWhere_def)

lemma sumWhere_append [simp]: "sumWhere P f (xs @ ys) = sumWhere P f xs + sumWhere P f ys"
  by (simp add: sumWhere_def)

lemma sumWhere_cong:
  "(\<And>r. r \<in> set rows \<Longrightarrow> P r = Q r) \<Longrightarrow> (\<And>r. r \<in> set rows \<Longrightarrow> P r \<Longrightarrow> f r = g r) \<Longrightarrow>
   sumWhere P f rows = sumWhere Q g rows"
  by (induction rows) auto

lemma sumWhere_zero: "(\<And>r. r \<in> set rows \<Longrightarrow> P r \<Longrightarrow> f r = 0) \<Longrightarrow> sumWhere P f rows = 0"
  by (induction rows) auto

text \<open>
  A conditional update moves what it rewrites: the sum after the update is the sum before, minus
  what the rewritten rows contributed, plus what their new versions contribute.
\<close>

lemma sumWhere_updateWhere:
  "sumWhere P f (updateWhere Q g rows) =
   sumWhere P f rows - sumWhere (\<lambda>r. Q r \<and> P r) f rows + sumWhere (\<lambda>r. Q r \<and> P (g r)) (\<lambda>r. f (g r)) rows"
  by (induction rows) auto

lemma sumWhere_filter: "sumWhere P f (filter Q rows) = sumWhere (\<lambda>r. Q r \<and> P r) f rows"
  by (induction rows) auto

lemma sumWhere_map: "sumWhere P f (map g rows) = sumWhere (\<lambda>r. P (g r)) (\<lambda>r. f (g r)) rows"
  by (induction rows) auto

lemma sumWhere_True: "sumWhere (\<lambda>_. True) f rows = sum_list (map f rows)"
  by (induction rows) auto

lemma sumWhere_nonneg: "(\<And>r. r \<in> set rows \<Longrightarrow> P r \<Longrightarrow> 0 \<le> f r) \<Longrightarrow> 0 \<le> sumWhere P f rows"
  by (induction rows) auto

lemma countWhere_simps [simp]:
  "countWhere P [] = 0"
  "countWhere P (r # rs) = (if P r then 1 else 0) + countWhere P rs"
  by (simp_all add: countWhere_def)

lemma countWhere_0: "countWhere P rows = 0 \<longleftrightarrow> (\<forall>r \<in> set rows. \<not> P r)"
  by (induction rows) auto

lemma distinct_map_Cons_neq: "distinct (map f (x # xs)) \<Longrightarrow> y \<in> set xs \<Longrightarrow> f y \<noteq> f x"
  by (metis distinct.simps(2) image_eqI list.set_map list.simps(9))

lemma find_SomeD: "find P xs = Some x \<Longrightarrow> x \<in> set xs \<and> P x"
  by (induction xs) (auto split: if_splits)

lemma find_append: "find P (xs @ ys) = (case find P xs of None \<Rightarrow> find P ys | Some x \<Rightarrow> Some x)"
  by (induction xs) auto

lemma find_updateWhere_id:
  "(\<And>r. P (if Q r then f r else r) = P r) \<Longrightarrow>
   find P (updateWhere Q f rows) = map_option (\<lambda>r. if Q r then f r else r) (find P rows)"
  by (induction rows) auto

section \<open>Ordered queries\<close>

text \<open>\<open>findMany({ where, orderBy })\<close> and \<open>findFirst({ where, orderBy })\<close>; ties keep insertion order.\<close>

lemma find_filter_list: "find P xs = (case filter P xs of [] \<Rightarrow> None | x # _ \<Rightarrow> Some x)"
  by (induction xs) auto

definition findManyBy :: "('r \<Rightarrow> 'k::linorder) \<Rightarrow> ('r \<Rightarrow> bool) \<Rightarrow> 'r list \<Rightarrow> 'r list" where
  "findManyBy key P rows = sort_key key (filter P rows)"

definition findFirstBy :: "('r \<Rightarrow> 'k::linorder) \<Rightarrow> ('r \<Rightarrow> bool) \<Rightarrow> 'r list \<Rightarrow> 'r option" where
  "findFirstBy key P rows = (case findManyBy key P rows of [] \<Rightarrow> None | r # _ \<Rightarrow> Some r)"

lemma set_findManyBy [simp]: "set (findManyBy key P rows) = {r \<in> set rows. P r}"
  by (simp add: findManyBy_def)

lemma mset_findManyBy: "mset (findManyBy key P rows) = filter_mset P (mset rows)"
  by (simp add: findManyBy_def)

lemma findFirstBy_None [simp]: "findFirstBy key P rows = None \<longleftrightarrow> (\<forall>r \<in> set rows. \<not> P r)"
proof -
  have "findManyBy key P rows = [] \<longleftrightarrow> (\<forall>r \<in> set rows. \<not> P r)"
    unfolding set_empty [symmetric] set_findManyBy by auto
  then show ?thesis by (auto simp: findFirstBy_def split: list.split)
qed

lemma findFirstBy_SomeD:
  assumes "findFirstBy key P rows = Some r"
  shows "r \<in> set rows" "P r" "\<And>q. q \<in> set rows \<Longrightarrow> P q \<Longrightarrow> key r \<le> key q"
proof -
  obtain rest where rest: "findManyBy key P rows = r # rest"
    using assms by (auto simp: findFirstBy_def split: list.splits)
  then have "r \<in> set (findManyBy key P rows)" by simp
  then show "r \<in> set rows" "P r" by simp_all
  fix q assume "q \<in> set rows" "P q"
  then have "q \<in> set (findManyBy key P rows)" by simp
  then have "q \<in> set (r # rest)" unfolding rest .
  moreover have "sorted (map key (findManyBy key P rows))" by (simp add: findManyBy_def)
  then have "sorted (map key (r # rest))" unfolding rest .
  ultimately show "key r \<le> key q" by auto
qed

end
