(* ===== verification/Store.thy ===== *)
theory Store
  imports Earn_Prelude "HOL-Library.Product_Lexorder" "HOL-Library.List_Lexorder" "HOL-Library.Char_ord"
begin

text \<open>
  The database: one record per table row (the columns the modelled code reads or writes, with the
  names of the Prisma schema under a two-letter prefix), the database itself as a record of
  tables, and the primitive writes every service shares: fresh ids, outbox rows, audit rows and
  the \<open>monthly_summaries\<close> upsert.  Unique indexes that a write can violate are checked where the
  row is written, and a violation is the Postgres error \<open>P2002\<close>.
\<close>

section \<open>Enumerations\<close>

datatype membership_status = MemberActive | MemberInactive
datatype maturation_rule = OnApproval | OnDelivery | DaysAfterApproval | DaysAfterDelivery
datatype sale_status = SaleDraft | SaleApproved | SaleVoid
datatype ledger_type = Commission | Reversal | Adjustment
datatype ledger_status = LePending | LePayable | LeProcessing | LePaid | LeReversed
datatype payout_method = MethodManual | MethodCsv | MethodStripe | MethodCheck
datatype payout_status = PoRequested | PoProcessing | PoPaid | PoRejected | PoFailed
datatype batch_status = BaProcessing | BaDispatched | BaSettled | BaFailed
datatype notification_channel = ChPush | ChEmail | ChInApp
datatype fraud_status = FraudOpen | FraudCleared | FraudConfirmed
datatype profile_status = ProfileUnverified | ProfilePendingReview | ProfileVerified | ProfileRejected
datatype check_key = KeyAddress | KeyKyc | KeyFraud | KeySanctions | KeyPaymentMethod
datatype campaign_metric = MetricRevenue | MetricSalesCount | MetricNewRecruits | MetricInvites
datatype campaign_status = CampaignDraft | CampaignActive | CampaignEnded
datatype role = PlatformAdmin | TenantOwner | TenantAdmin | TenantStaff | PlainMember
datatype tenant_status = TenantActive | TenantSuspended
datatype invite_status = InviteActive | InviteUsed | InviteExpired | InviteRevoked
datatype decision_status = DecisionPending | DecisionReady | DecisionBlocked

section \<open>Rows\<close>

record tenant =
  tn_id :: uuid
  tn_currency :: string
  tn_timezone :: string
  tn_maturationRule :: maturation_rule
  tn_maturationDays :: "int option"
  tn_payoutMinCents :: cents
  tn_compressionEnabled :: bool
  tn_inactiveMembersEarn :: bool
  tn_requireSeparateApprover :: bool
  tn_requireKycForPayout :: bool
  tn_name :: string
  tn_lastCheckNumber :: int
  tn_autoRequestPayouts :: bool
  tn_status :: tenant_status
  tn_notifyNewMemberName :: bool
  tn_requirePayoutApproval :: bool

record user =
  us_id :: uuid
  us_fullName :: string
  us_email :: string
  us_emailVerifiedAt :: "time option"
  us_totpEnabledAt :: "time option"
  us_lastMembershipId :: "uuid option"
  us_isPlatformAdmin :: bool
  us_authGeneration :: int

text \<open>The mailing address of a member, the seven \<open>mailing_\<close> columns.\<close>

record mailing =
  ma_name :: "string option"
  ma_line1 :: "string option"
  ma_line2 :: "string option"
  ma_city :: "string option"
  ma_state :: "string option"
  ma_postal :: "string option"
  ma_country :: "string option"

text \<open>The materialized \<open>ltree\<close> path is the list of its labels; \<open>a <@ b\<close> is "b is a prefix of a".\<close>

record membership =
  mb_id :: uuid
  mb_tenantId :: uuid
  mb_userId :: uuid
  mb_sponsorMembershipId :: "uuid option"
  mb_referralCode :: string
  mb_path :: "uuid list"
  mb_status :: membership_status
  mb_signupIp :: "string option"
  mb_lastRankSortOrder :: "int option"
  mb_joinedAt :: time
  mb_mailing :: mailing
  mb_role :: role
  mb_depth :: int
  mb_isTeamLeader :: bool
  mb_inviteMessage :: "string option"
  mb_roleId :: "uuid option"
  mb_disclaimerAcceptedAt :: "time option"
  mb_disclaimerVersion :: "string option"

record tenant_role =
  ro_id :: uuid
  ro_tenantId :: uuid
  ro_key :: string
  ro_name :: string
  ro_description :: "string option"
  ro_color :: "string option"
  ro_isSystem :: bool
  ro_permissions :: "string list"

record api_key =
  ak_id :: uuid
  ak_tenantId :: uuid
  ak_membershipId :: uuid
  ak_createdByUserId :: uuid
  ak_role :: role
  ak_name :: string
  ak_prefix :: string
  ak_keyHash :: string
  ak_expiresAt :: "time option"
  ak_revokedAt :: "time option"

record plan_level =
  pv_id :: uuid
  pv_level :: nat
  pv_rateBps :: int

record commission_plan =
  pl_id :: uuid
  pl_tenantId :: uuid
  pl_version :: nat
  pl_finalized :: bool
  pl_name :: string
  pl_poolRateBps :: int
  pl_depth :: nat
  pl_fastStartBps :: int
  pl_fastStartDays :: int
  pl_matchingBps :: int
  pl_effectiveFrom :: time
  pl_createdBy :: "uuid option"
  pl_createdAt :: time
  pl_levels :: "plan_level list"

record sale =
  sa_id :: uuid
  sa_tenantId :: uuid
  sa_sellerMembershipId :: uuid
  sa_commissionPlanId :: "uuid option"
  sa_amountCents :: cents
  sa_currency :: string
  sa_customerRef :: "string option"
  sa_createdBy :: "uuid option"
  sa_saleDate :: time
  sa_summaryMonth :: "string option"
  sa_status :: sale_status
  sa_approvedBy :: "uuid option"
  sa_approvedAt :: "time option"
  sa_deliveredAt :: "time option"
  sa_externalRef :: "string option"
  sa_createdAt :: time

record ledger_entry =
  le_id :: uuid
  le_tenantId :: uuid
  le_saleId :: "uuid option"
  le_beneficiary :: uuid
  le_level :: nat
  le_rateBpsUsed :: int
  le_amountCents :: cents
  le_type :: ledger_type
  le_status :: ledger_status
  le_summaryMonth :: "string option"
  le_maturesAt :: "time option"
  le_payoutId :: "uuid option"
  le_payoutBatchId :: "uuid option"
  le_createdAt :: time

record summary_delta =
  d_pending :: cents
  d_payable :: cents
  d_processing :: cents
  d_paid :: cents

type_synonym summary_key = "uuid \<times> uuid \<times> string \<times> nat"

record monthly_summary =
  ms_key :: summary_key
  ms_cents :: summary_delta

record notification =
  nt_id :: uuid
  nt_tenantId :: uuid
  nt_recipientMembershipId :: uuid
  nt_channel :: notification_channel
  nt_template :: string
  nt_payload :: json

record audit_log =
  au_tenantId :: uuid
  au_actorUserId :: "uuid option"
  au_action :: string
  au_entity :: string
  au_entityId :: "uuid option"
  au_before :: "json option"
  au_after :: json

text \<open>\<open>active_key\<close> is the text \<open>tenant:membership:period\<close>; uuids hold no colon, so the text is the triple.\<close>

type_synonym active_key = "uuid \<times> uuid \<times> string"

record recipient =
  rc_referralCode :: string
  rc_fullName :: string
  rc_email :: string

text \<open>The address a check is mailed to, stored when its number is assigned.\<close>

record payee_snapshot =
  py_name :: string
  py_line1 :: string
  py_line2 :: "string option"
  py_city :: string
  py_state :: string
  py_postal :: string
  py_country :: string

record payout =
  po_id :: uuid
  po_tenantId :: uuid
  po_membershipId :: uuid
  po_batchId :: "uuid option"
  po_totalCents :: cents
  po_method :: payout_method
  po_status :: payout_status
  po_period :: string
  po_activeKey :: "active_key option"
  po_processingStartedAt :: "time option"
  po_processingByUserId :: "uuid option"
  po_paidAt :: "time option"
  po_settledAt :: "time option"
  po_settledByUserId :: "uuid option"
  po_settlementReference :: "string option"
  po_settlementEvidence :: "string option"
  po_recipient :: "recipient option"
  po_complianceSnapshot :: "json option"
  po_rejectedAt :: "time option"
  po_rejectedByUserId :: "uuid option"
  po_rejectionReason :: "string option"
  po_failedAt :: "time option"
  po_failedByUserId :: "uuid option"
  po_failureReason :: "string option"
  po_ref :: "string option"
  po_createdAt :: time
  po_clearedAt :: "time option"
  po_bankRef :: "string option"
  po_reconciledByUserId :: "uuid option"
  po_checkNumber :: "int option"
  po_mailedAt :: "time option"
  po_payeeSnapshot :: "payee_snapshot option"

record settlement_batch =
  ba_id :: uuid
  ba_tenantId :: uuid
  ba_period :: string
  ba_method :: payout_method
  ba_status :: batch_status
  ba_processingStartedAt :: time
  ba_processingByUserId :: "uuid option"
  ba_dispatchedAt :: "time option"
  ba_dispatchedByUserId :: "uuid option"
  ba_dispatchReference :: "string option"
  ba_dispatchEvidence :: "string option"
  ba_settledAt :: "time option"
  ba_settledByUserId :: "uuid option"
  ba_settlementReference :: "string option"
  ba_settlementEvidence :: "string option"
  ba_failedAt :: "time option"
  ba_failedByUserId :: "uuid option"
  ba_failureReason :: "string option"
  ba_csvChecksum :: "string option"

record batch_item =
  bi_batchId :: uuid
  bi_payoutId :: uuid
  bi_ledgerEntryId :: uuid
  bi_membershipId :: uuid
  bi_month :: string
  bi_level :: nat
  bi_amountCents :: cents
  bi_recipient :: recipient
  bi_recipientSnapshotAt :: time

record period_lock =
  lk_tenantId :: uuid
  lk_period :: string
  lk_lockedByUserId :: "uuid option"
  lk_note :: "string option"
  lk_createdAt :: time

record rank_tier =
  rt_id :: uuid
  rt_tenantId :: uuid
  rt_name :: string
  rt_sortOrder :: int
  rt_minTeam :: nat
  rt_minEarningsCents :: cents
  rt_overrideBps :: int

record fraud_flag =
  ff_tenantId :: uuid
  ff_membershipId :: uuid
  ff_score :: int
  ff_reasons :: "string list"
  ff_status :: fraud_status
  ff_note :: "string option"
  ff_reviewedByUserId :: "uuid option"
  ff_reviewedAt :: "time option"
  ff_createdAt :: time

record payout_profile =
  pp_id :: uuid
  pp_tenantId :: uuid
  pp_membershipId :: uuid
  pp_legalName :: string
  pp_country :: string
  pp_taxIdType :: string
  pp_bankName :: "string option"
  pp_accountType :: string
  pp_taxIdLast4 :: string
  pp_accountLast4 :: string
  pp_accountEnc :: "string option"
  pp_routingNumber :: string
  pp_status :: profile_status
  pp_rejectionReason :: "string option"
  pp_reviewedByUserId :: "uuid option"
  pp_reviewedAt :: "time option"
  pp_sanctionsHit :: bool
  pp_lastChangedAt :: time

record sanctions_entry =
  se_name :: string
  se_normalizedName :: string
  se_source :: string
  se_country :: "string option"

record readiness_check =
  ck_tenantId :: uuid
  ck_membershipId :: uuid
  ck_key :: check_key
  ck_status :: decision_status
  ck_reasonCode :: string
  ck_reviewedByUserId :: "uuid option"
  ck_reviewedAt :: "time option"
  ck_expiresAt :: "time option"
  ck_version :: int

record payout_destination =
  de_id :: uuid
  de_tenantId :: uuid
  de_membershipId :: uuid
  de_providerReference :: string
  de_maskedLabel :: string
  de_last4 :: "string option"
  de_country :: string
  de_currency :: string
  de_verifiedByUserId :: "uuid option"
  de_verifiedAt :: "time option"
  de_version :: int
  de_active :: bool

record invite =
  iv_id :: uuid
  iv_tenantId :: uuid
  iv_inviterMembershipId :: uuid
  iv_createdAt :: time
  iv_code :: string
  iv_email :: "string option"
  iv_expiresAt :: time
  iv_usedByMembershipId :: "uuid option"
  iv_keyHash :: "string option"
  iv_status :: invite_status

text \<open>What a member accepted when an invite was used.\<close>

record consent_snapshot =
  cs_disclaimerVersion :: string
  cs_locale :: string
  cs_disclaimerContentHash :: string
  cs_tenantDisplayName :: string
  cs_programSummary :: string
  cs_programSummaryHash :: string
  cs_acceptedAt :: time

record acceptance_consent =
  xc_inviteId :: uuid
  xc_tenantId :: uuid
  xc_userId :: uuid
  xc_membershipId :: uuid
  xc_snapshot :: consent_snapshot

record campaign_prize =
  pz_rank :: nat
  pz_bonusCents :: cents

record standing =
  st_rank :: nat
  st_membershipId :: uuid
  st_name :: string
  st_code :: string
  st_score :: int
  st_bonusCents :: cents
  st_inactive :: bool

record campaign =
  cp_id :: uuid
  cp_tenantId :: uuid
  cp_name :: string
  cp_description :: "string option"
  cp_metric :: campaign_metric
  cp_startsAt :: time
  cp_endsAt :: time
  cp_status :: campaign_status
  cp_prizes :: "campaign_prize list"
  cp_results :: "standing list option"
  cp_createdBy :: "uuid option"
  cp_finalizedAt :: "time option"
  cp_createdAt :: time

record bulk_execution =
  bx_id :: uuid
  bx_tenantId :: uuid
  bx_actorUserId :: uuid
  bx_keyHash :: string
  bx_requestHash :: string
  bx_status :: string
  bx_response :: "json option"

section \<open>The database and its environment\<close>

text \<open>
  \<open>uuidGen\<close> is the sequence of values \<open>gen_random_uuid()\<close> will return and \<open>uuidNext\<close> how many of
  them were drawn; what the code relies on (a drawn id is new) is a hypothesis where it matters.
\<close>

record db =
  uuidGen :: "nat \<Rightarrow> uuid"
  uuidNext :: nat
  tenants :: "tenant list"
  users :: "user list"
  memberships :: "membership list"
  plans :: "commission_plan list"
  sales :: "sale list"
  ledger :: "ledger_entry list"
  summaries :: "monthly_summary list"
  notifications :: "notification list"
  audits :: "audit_log list"
  payouts :: "payout list"
  batches :: "settlement_batch list"
  batchItems :: "batch_item list"
  periodLocks :: "period_lock list"
  rankTiers :: "rank_tier list"
  fraudFlags :: "fraud_flag list"
  payoutProfiles :: "payout_profile list"
  sanctions :: "sanctions_entry list"
  readinessChecks :: "readiness_check list"
  destinations :: "payout_destination list"
  invites :: "invite list"
  campaigns :: "campaign list"
  bulkExecutions :: "bulk_execution list"
  consents :: "acceptance_consent list"
  roles :: "tenant_role list"
  apiKeys :: "api_key list"

text \<open>
  What a call reads besides its arguments and the database: the clock (\<open>new Date()\<close>), the
  \<open>YYYY-MM\<close> month of an instant in a time zone (the ICU time zone data behind
  \<open>Intl.DateTimeFormat\<close> and Postgres \<open>AT TIME ZONE\<close>), SHA-256 of a value's \<open>JSON.stringify\<close> text and of a plain text,
  Postgres \<open>md5\<close> of an aggregated text, and which optional services Nest injected.
\<close>

record env =
  env_now :: time
  env_month :: "time \<Rightarrow> string \<Rightarrow> string"
  env_sha256 :: "json \<Rightarrow> string"
  env_sha256Text :: "string \<Rightarrow> string"
  env_md5 :: "json \<Rightarrow> string"
  env_hasRanks :: bool
  env_hasCompliance :: bool

section \<open>Text of a uuid\<close>

definition hexDigit :: "nat \<Rightarrow> char" where
  "hexDigit n = (if n < 10 then char_of (48 + n) else char_of (87 + n))"

fun hexW :: "nat \<Rightarrow> nat \<Rightarrow> string" where
  "hexW 0 n = []"
| "hexW (Suc w) n = hexW w (n div 16) @ [hexDigit (n mod 16)]"

definition uuidText :: "uuid \<Rightarrow> string" where
  "uuidText u = (let h = hexW 32 u in
     take 8 h @ ''-'' @ take 4 (drop 8 h) @ ''-'' @ take 4 (drop 12 h) @ ''-'' @ take 4 (drop 16 h) @ ''-'' @ drop 20 h)"

section \<open>Shared writes\<close>

definition freshId :: "db \<Rightarrow> uuid" where
  "freshId s = uuidGen s (uuidNext s)"

definition drawId :: "db \<Rightarrow> db" where
  "drawId s = s\<lparr>uuidNext := Suc (uuidNext s)\<rparr>"

text \<open>\<open>ledgerEntry.create\<close>, with the unique index over \<open>(sale_id, level, type)\<close> for non-null sales.\<close>

definition ledgerKeyTaken :: "ledger_entry \<Rightarrow> ledger_entry list \<Rightarrow> bool" where
  "ledgerKeyTaken e rows =
     (le_saleId e \<noteq> None \<and>
      list_ex (\<lambda>r. le_saleId r = le_saleId e \<and> le_level r = le_level e \<and> le_type r = le_type e) rows)"

definition createLedgerEntry :: "env \<Rightarrow> ledger_entry \<Rightarrow> db \<Rightarrow> (uuid \<times> db) res" where
  "createLedgerEntry E e s =
     (if ledgerKeyTaken e (ledger s) then Inl (DbError ''P2002'')
      else Inr (freshId s,
        (drawId s)\<lparr>ledger := ledger s @ [e\<lparr>le_id := freshId s, le_createdAt := env_now E\<rparr>]\<rparr>))"

definition createNotification ::
  "uuid \<Rightarrow> uuid \<Rightarrow> notification_channel \<Rightarrow> string \<Rightarrow> json \<Rightarrow> db \<Rightarrow> db" where
  "createNotification tenantId membershipId channel template payload s =
     (drawId s)\<lparr>notifications := notifications s @
        [\<lparr>nt_id = freshId s, nt_tenantId = tenantId, nt_recipientMembershipId = membershipId,
          nt_channel = channel, nt_template = template, nt_payload = payload\<rparr>]\<rparr>"

text \<open>\<open>audit\<close>: the entity is the action's text before the first dot.\<close>

definition audit ::
  "uuid \<Rightarrow> uuid option \<Rightarrow> string \<Rightarrow> uuid \<Rightarrow> json \<Rightarrow> json \<Rightarrow> db \<Rightarrow> db" where
  "audit tenantId actorUserId action entityId before after s =
     s\<lparr>audits := audits s @
        [\<lparr>au_tenantId = tenantId, au_actorUserId = actorUserId, au_action = action,
          au_entity = takeWhile (\<lambda>c. c \<noteq> CHR ''.'') action, au_entityId = Some entityId,
          au_before = Some before, au_after = after\<rparr>]\<rparr>"

definition addDelta :: "summary_delta \<Rightarrow> summary_delta \<Rightarrow> summary_delta" where
  "addDelta a b = \<lparr>d_pending = d_pending a + d_pending b, d_payable = d_payable a + d_payable b,
     d_processing = d_processing a + d_processing b, d_paid = d_paid a + d_paid b\<rparr>"

definition noDelta :: summary_delta where
  "noDelta = \<lparr>d_pending = 0, d_payable = 0, d_processing = 0, d_paid = 0\<rparr>"

text \<open>
  \<open>bumpSummary\<close>: \<open>INSERT \<dots> ON CONFLICT (tenant, membership, month, level) DO UPDATE\<close> adding the
  four columns.
\<close>

definition upsertSummary :: "summary_key \<Rightarrow> summary_delta \<Rightarrow> monthly_summary list \<Rightarrow> monthly_summary list" where
  "upsertSummary k d rows =
     (if list_ex (\<lambda>r. ms_key r = k) rows
      then updateWhere (\<lambda>r. ms_key r = k) (\<lambda>r. r\<lparr>ms_cents := addDelta (ms_cents r) d\<rparr>) rows
      else rows @ [\<lparr>ms_key = k, ms_cents = d\<rparr>])"

definition bumpSummary :: "summary_key \<Rightarrow> summary_delta \<Rightarrow> db \<Rightarrow> db" where
  "bumpSummary k d s = s\<lparr>summaries := upsertSummary k d (summaries s)\<rparr>"

section \<open>Lookups\<close>

definition findTenant :: "db \<Rightarrow> uuid \<Rightarrow> tenant option" where
  "findTenant s tid = find (\<lambda>t. tn_id t = tid) (tenants s)"

text \<open>\<open>findUniqueOrThrow\<close> reports a missing row as Prisma error \<open>P2025\<close>.\<close>

definition tenantOrThrow :: "db \<Rightarrow> uuid \<Rightarrow> tenant res" where
  "tenantOrThrow s tid = from_option (DbError ''P2025'') (findTenant s tid)"

definition findMembership :: "db \<Rightarrow> uuid \<Rightarrow> membership option" where
  "findMembership s mid = find (\<lambda>m. mb_id m = mid) (memberships s)"

definition findUser :: "db \<Rightarrow> uuid \<Rightarrow> user option" where
  "findUser s uid = find (\<lambda>u. us_id u = uid) (users s)"

definition findSale :: "db \<Rightarrow> uuid \<Rightarrow> sale option" where
  "findSale s sid = find (\<lambda>r. sa_id r = sid) (sales s)"

definition findBatch :: "db \<Rightarrow> uuid \<Rightarrow> settlement_batch option" where
  "findBatch s bid = find (\<lambda>b. ba_id b = bid) (batches s)"

definition updateSale :: "uuid \<Rightarrow> (sale \<Rightarrow> sale) \<Rightarrow> db \<Rightarrow> db" where
  "updateSale sid f s = s\<lparr>sales := updateWhere (\<lambda>r. sa_id r = sid) f (sales s)\<rparr>"

definition setLedgerStatus :: "uuid \<Rightarrow> ledger_status \<Rightarrow> db \<Rightarrow> db" where
  "setLedgerStatus eid st s =
     s\<lparr>ledger := updateWhere (\<lambda>r. le_id r = eid) (\<lambda>r. r\<lparr>le_status := st\<rparr>) (ledger s)\<rparr>"

end
