(* ===== verification/Summaries.thy ===== *)
theory Summaries
  imports Store
begin

text \<open>
  The accounting contract between \<open>ledger_entries\<close> and \<open>monthly_summaries\<close>: for every tenant,
  member, month and level, each cents column of the summary is the sum of the ledger rows of that
  status.  The locale states what a summary store promises its clients (a bump shifts one key by
  the delta); the engine's \<open>bumpSummary\<close> provides it.  Clients prove that they keep the books
  balanced with the two row lemmas: a new row with its bump, and a status change with its bump.
\<close>

section \<open>The interface of a summary store\<close>

locale summary_column =
  fixes bump :: "'k \<Rightarrow> 'd \<Rightarrow> 's \<Rightarrow> 's"
    and part :: "'d \<Rightarrow> int"
    and col :: "'s \<Rightarrow> 'k \<Rightarrow> int"
  assumes col_bump: "col (bump k d s) k' = col s k' + (if k' = k then part d else 0)"
begin

lemma col_bump_same [simp]: "col (bump k d s) k = col s k + part d"
  by (simp add: col_bump)

lemma col_fold:
  "col (fold (\<lambda>(k, d). bump k d) kds s) k' =
   col s k' + sum_list (map (\<lambda>(k, d). if k' = k then part d else 0) kds)"
  by (induction kds arbitrary: s) (auto simp: col_bump)

text \<open>The order in which a batch of bumps is applied does not matter.\<close>

lemma col_fold_perm:
  assumes "mset kds = mset kds'"
  shows "col (fold (\<lambda>(k, d). bump k d) kds s) k' = col (fold (\<lambda>(k, d). bump k d) kds' s) k'"
proof -
  have "sum_list (map f kds) = sum_list (map f kds')" for f :: "'k \<times> 'd \<Rightarrow> int"
    using assms by (metis mset_map sum_mset_sum_list)
  then show ?thesis by (simp add: col_fold)
qed

end

section \<open>Columns of the summary table\<close>

fun statusPart :: "ledger_status \<Rightarrow> summary_delta \<Rightarrow> int" where
  "statusPart LePending d = d_pending d"
| "statusPart LePayable d = d_payable d"
| "statusPart LeProcessing d = d_processing d"
| "statusPart LePaid d = d_paid d"
| "statusPart LeReversed d = 0"

text \<open>The row a unique key selects, and one column of it (a missing row reads as zero).\<close>

definition summaryRow :: "db \<Rightarrow> summary_key \<Rightarrow> monthly_summary option" where
  "summaryRow s k = find (\<lambda>r. ms_key r = k) (summaries s)"

definition colSum :: "ledger_status \<Rightarrow> db \<Rightarrow> summary_key \<Rightarrow> int" where
  "colSum st s k = (case summaryRow s k of None \<Rightarrow> 0 | Some r \<Rightarrow> statusPart st (ms_cents r))"

lemma statusPart_addDelta [simp]: "statusPart st (addDelta a b) = statusPart st a + statusPart st b"
  by (cases st) (auto simp: addDelta_def)

lemma statusPart_noDelta [simp]: "statusPart st noDelta = 0"
  by (cases st) (auto simp: noDelta_def)

lemma find_upsertSummary:
  "find (\<lambda>r. ms_key r = k') (upsertSummary k d rows) =
   (if k' = k then
      Some (case find (\<lambda>r. ms_key r = k) rows of
              None \<Rightarrow> \<lparr>ms_key = k, ms_cents = d\<rparr>
            | Some r \<Rightarrow> r\<lparr>ms_cents := addDelta (ms_cents r) d\<rparr>)
    else find (\<lambda>r. ms_key r = k') rows)"
proof (cases "list_ex (\<lambda>r. ms_key r = k) rows")
  case True
  then obtain r where r: "find (\<lambda>r. ms_key r = k) rows = Some r" "ms_key r = k"
    by (metis (mono_tags, lifting) find_None_iff find_SomeD list_ex_iff not_None_eq)
  have "find (\<lambda>r. ms_key r = k') (upsertSummary k d rows) =
    map_option (\<lambda>r. if ms_key r = k then r\<lparr>ms_cents := addDelta (ms_cents r) d\<rparr> else r)
      (find (\<lambda>r. ms_key r = k') rows)"
    using True by (simp add: upsertSummary_def find_updateWhere_id)
  moreover have "k' \<noteq> k \<Longrightarrow>
    map_option (\<lambda>r. if ms_key r = k then r\<lparr>ms_cents := addDelta (ms_cents r) d\<rparr> else r)
      (find (\<lambda>r. ms_key r = k') rows) = find (\<lambda>r. ms_key r = k') rows"
    by (cases "find (\<lambda>r. ms_key r = k') rows") (auto dest: find_SomeD)
  ultimately show ?thesis using r by auto
next
  case False
  then have "find (\<lambda>r. ms_key r = k) rows = None" by (auto simp: find_None_iff list_ex_iff)
  then show ?thesis using False by (auto simp: upsertSummary_def find_append split: option.splits)
qed

lemma colSum_bumpSummary:
  "colSum st (bumpSummary k d s) k' = colSum st s k' + (if k' = k then statusPart st d else 0)"
proof -
  have "summaryRow (bumpSummary k d s) k' =
     (if k' = k then
      Some (case summaryRow s k of
              None \<Rightarrow> \<lparr>ms_key = k, ms_cents = d\<rparr>
            | Some r \<Rightarrow> r\<lparr>ms_cents := addDelta (ms_cents r) d\<rparr>)
      else summaryRow s k')"
    by (simp add: summaryRow_def bumpSummary_def find_upsertSummary)
  then show ?thesis by (cases "summaryRow s k") (simp_all add: colSum_def)
qed

interpretation sc: summary_column bumpSummary "statusPart st" "colSum st" for st
  by unfold_locales (rule colSum_bumpSummary)

lemma colSum_frame: "summaries s' = summaries s \<Longrightarrow> colSum st s' k = colSum st s k"
  by (simp add: colSum_def summaryRow_def)

text \<open>The unique index of the table over its key: a write that respects it keeps it.\<close>

definition keysKept :: "db \<Rightarrow> db \<Rightarrow> bool" where
  "keysKept s s' \<longleftrightarrow> (distinct (map ms_key (summaries s)) \<longrightarrow> distinct (map ms_key (summaries s')))"

lemma keysKept_frame: "summaries s' = summaries s \<Longrightarrow> keysKept s s'"
  by (simp add: keysKept_def)

lemma keysKept_trans: "keysKept s t \<Longrightarrow> keysKept t u \<Longrightarrow> keysKept s u"
  by (simp add: keysKept_def)

lemma keysKept_bump: "keysKept s (bumpSummary k d s)"
proof (cases "k \<in> ms_key ` set (summaries s)")
  case True
  then have "list_ex (\<lambda>r. ms_key r = k) (summaries s)" by (auto simp: list_ex_iff)
  then have "map ms_key (summaries (bumpSummary k d s)) = map ms_key (summaries s)"
    by (simp add: bumpSummary_def upsertSummary_def map_updateWhere_id)
  then show ?thesis by (simp add: keysKept_def)
next
  case False
  then have "\<not> list_ex (\<lambda>r. ms_key r = k) (summaries s)" by (auto simp: list_ex_iff)
  then show ?thesis using False by (simp add: keysKept_def bumpSummary_def upsertSummary_def)
qed

section \<open>The ledger side\<close>

text \<open>
  The month bucket of a row: its own \<open>summary_month\<close>, else the month frozen on its sale.  (The
  engine's SQL has a further fallback to the sale date for legacy sales without a frozen month.)
\<close>

definition saleBooking :: "db \<Rightarrow> uuid \<Rightarrow> (uuid \<times> string) option" where
  "saleBooking s sid = Option.bind (findSale s sid) (\<lambda>r. map_option (\<lambda>m. (sa_tenantId r, m)) (sa_summaryMonth r))"

definition bucketMonth :: "db \<Rightarrow> ledger_entry \<Rightarrow> string option" where
  "bucketMonth s e = (case le_summaryMonth e of Some m \<Rightarrow> Some m
                      | None \<Rightarrow> Option.bind (le_saleId e) (\<lambda>sid. map_option snd (saleBooking s sid)))"

definition ledgerKey :: "db \<Rightarrow> ledger_entry \<Rightarrow> summary_key option" where
  "ledgerKey s e = map_option (\<lambda>m. (le_tenantId e, le_beneficiary e, m, le_level e)) (bucketMonth s e)"

definition ledgerSum :: "ledger_status \<Rightarrow> db \<Rightarrow> summary_key \<Rightarrow> int" where
  "ledgerSum st s k = sumWhere (\<lambda>e. le_status e = st \<and> ledgerKey s e = Some k) le_amountCents (ledger s)"

text \<open>The books balance.\<close>

definition reconciled :: "db \<Rightarrow> bool" where
  "reconciled s \<longleftrightarrow> (\<forall>st k. st \<noteq> LeReversed \<longrightarrow> colSum st s k = ledgerSum st s k)"

text \<open>
  Every row with a sale names an existing sale of its tenant whose month is frozen; other rows
  carry their month.
\<close>

definition rowLinked :: "(uuid \<Rightarrow> (uuid \<times> string) option) \<Rightarrow> ledger_entry \<Rightarrow> bool" where
  "rowLinked booking e = (case le_saleId e of
      None \<Rightarrow> le_summaryMonth e \<noteq> None
    | Some sid \<Rightarrow> le_summaryMonth e = None \<and> map_option fst (booking sid) = Some (le_tenantId e))"

definition linked :: "db \<Rightarrow> bool" where
  "linked s \<longleftrightarrow> (\<forall>e \<in> set (ledger s). rowLinked (saleBooking s) e)"

lemma linked_bucket: "linked s \<Longrightarrow> e \<in> set (ledger s) \<Longrightarrow> \<exists>m. bucketMonth s e = Some m"
  by (fastforce simp: linked_def rowLinked_def bucketMonth_def split: option.splits)

lemma reconciledD: "reconciled s \<Longrightarrow> st \<noteq> LeReversed \<Longrightarrow> colSum st s k = ledgerSum st s k"
  unfolding reconciled_def by blast

lemma reconciledI: "(\<And>st k. st \<noteq> LeReversed \<Longrightarrow> colSum st s k = ledgerSum st s k) \<Longrightarrow> reconciled s"
  unfolding reconciled_def by blast

lemma ledgerKey_frame: "saleBooking s' = saleBooking s \<Longrightarrow> ledgerKey s' = ledgerKey s"
  by (rule ext) (simp add: ledgerKey_def bucketMonth_def split: option.split)

lemma ledgerSum_frame:
  "ledger s' = ledger s \<Longrightarrow> saleBooking s' = saleBooking s \<Longrightarrow> ledgerSum st s' k = ledgerSum st s k"
  using ledgerKey_frame [of s' s] by (simp add: ledgerSum_def)

lemma saleBooking_frame: "sales s' = sales s \<Longrightarrow> saleBooking s' = saleBooking s"
  by (rule ext) (simp add: saleBooking_def findSale_def)

text \<open>Writes that touch neither ledger, summaries nor the sales' months keep the books balanced.\<close>

lemma reconciled_frame:
  "reconciled s \<Longrightarrow> ledger s' = ledger s \<Longrightarrow> summaries s' = summaries s \<Longrightarrow> saleBooking s' = saleBooking s \<Longrightarrow>
   reconciled s'"
  using colSum_frame [of s' s] ledgerSum_frame [of s' s] unfolding reconciled_def by metis

lemma linked_frame:
  "linked s \<Longrightarrow> ledger s' = ledger s \<Longrightarrow> saleBooking s' = saleBooking s \<Longrightarrow> linked s'"
  by (simp add: linked_def)

section \<open>Aggregation in a JavaScript Map\<close>

text \<open>
  \<open>const current = map.get(key) ?? zero; current.amount += x; map.set(key, current)\<close> over a list:
  keys stay in the order of their first occurrence.
\<close>

fun mapAdd :: "'k \<Rightarrow> int \<Rightarrow> ('k \<times> int) list \<Rightarrow> ('k \<times> int) list" where
  "mapAdd k x [] = [(k, x)]"
| "mapAdd k x ((k', y) # m) = (if k' = k then (k', y + x) # m else (k', y) # mapAdd k x m)"

definition aggregate :: "('a \<Rightarrow> 'k) \<Rightarrow> ('a \<Rightarrow> int) \<Rightarrow> 'a list \<Rightarrow> ('k \<times> int) list" where
  "aggregate key val xs = foldl (\<lambda>m x. mapAdd (key x) (val x) m) [] xs"

definition sumKey :: "'k \<Rightarrow> ('k \<times> int) list \<Rightarrow> int" where
  "sumKey k m = sum_list (map (\<lambda>(k', x). if k = k' then x else 0) m)"

lemma sumKey_mapAdd: "sumKey k (mapAdd k' x m) = sumKey k m + (if k = k' then x else 0)"
  by (induction k' x m rule: mapAdd.induct) (auto simp: sumKey_def)

lemma sumKey_aggregate: "sumKey k (aggregate key val xs) = sumWhere (\<lambda>x. key x = k) val xs"
proof -
  have "sumKey k (foldl (\<lambda>m x. mapAdd (key x) (val x) m) m xs) = sumKey k m + sumWhere (\<lambda>x. key x = k) val xs" for m
    by (induction xs arbitrary: m) (auto simp: sumKey_mapAdd)
  then show ?thesis by (simp add: aggregate_def sumKey_def)
qed

lemma sumKey_perm: "mset m = mset m' \<Longrightarrow> sumKey k m = sumKey k m'"
  unfolding sumKey_def sum_mset_sum_list [symmetric] mset_map by simp

section \<open>The discrepancy of the books\<close>

text \<open>
  What a column is off by.  Each primitive write shifts it by a fixed amount, so an operation keeps
  the books balanced when its shifts cancel.
\<close>

definition disc :: "ledger_status \<Rightarrow> db \<Rightarrow> summary_key \<Rightarrow> int" where
  "disc st s k = ledgerSum st s k - colSum st s k"

definition entryPart :: "ledger_status \<Rightarrow> db \<Rightarrow> summary_key \<Rightarrow> ledger_entry \<Rightarrow> int" where
  "entryPart st s k e = (if le_status e = st \<and> ledgerKey s e = Some k then le_amountCents e else 0)"

lemma reconciled_disc: "reconciled s \<longleftrightarrow> (\<forall>st k. st \<noteq> LeReversed \<longrightarrow> disc st s k = 0)"
  by (auto simp: reconciled_def disc_def)

lemma ledgerSum_entryPart: "ledgerSum st s k = sum_list (map (entryPart st s k) (ledger s))"
  unfolding ledgerSum_def entryPart_def by (induction "ledger s") (auto simp: sumWhere_def entryPart_def intro: sum_list_map_filter')

lemma disc_bump: "disc st (bumpSummary k' d s) k = disc st s k - (if k = k' then statusPart st d else 0)"
proof -
  have "ledgerSum st (bumpSummary k' d s) k = ledgerSum st s k"
    by (rule ledgerSum_frame) (auto simp: bumpSummary_def intro: saleBooking_frame)
  then show ?thesis by (auto simp: disc_def sc.col_bump)
qed

lemma disc_frame:
  "ledger s' = ledger s \<Longrightarrow> summaries s' = summaries s \<Longrightarrow> saleBooking s' = saleBooking s \<Longrightarrow> disc st s' k = disc st s k"
  using colSum_frame [of s' s] ledgerSum_frame [of s' s] by (simp add: disc_def)

section \<open>Row identity\<close>

text \<open>
  Primary keys are unique, and drawn ids are new, which is what \<open>gen_random_uuid()\<close> is relied on for.
\<close>

definition idsFresh :: "db \<Rightarrow> bool" where
  "idsFresh s \<longleftrightarrow> inj (uuidGen s) \<and> distinct (map sa_id (sales s)) \<and> distinct (map le_id (ledger s)) \<and>
     (\<forall>e \<in> set (ledger s). \<forall>n \<ge> uuidNext s. le_id e \<noteq> uuidGen s n) \<and>
     (\<forall>i \<in> set (map sa_id (sales s)). \<forall>n \<ge> uuidNext s. i \<noteq> uuidGen s n)"

section \<open>Settlement links\<close>

text \<open>
  What a batch's status promises of its ledger rows and of its payouts: the rows of a batch in flight
  are \<open>processing\<close> and name the batch, those of a settled batch are \<open>paid\<close>; a failed batch owns no row.
\<close>

fun batchEntryStatus :: "batch_status \<Rightarrow> ledger_status option" where
  "batchEntryStatus BaProcessing = Some LeProcessing"
| "batchEntryStatus BaDispatched = Some LeProcessing"
| "batchEntryStatus BaSettled = Some LePaid"
| "batchEntryStatus BaFailed = None"

fun batchPayoutStatus :: "batch_status \<Rightarrow> payout_status" where
  "batchPayoutStatus BaProcessing = PoProcessing"
| "batchPayoutStatus BaDispatched = PoProcessing"
| "batchPayoutStatus BaSettled = PoPaid"
| "batchPayoutStatus BaFailed = PoFailed"

definition ownedBy :: "settlement_batch \<Rightarrow> ledger_entry \<Rightarrow> bool" where
  "ownedBy b e = (case batchEntryStatus (ba_status b) of None \<Rightarrow> True
     | Some st \<Rightarrow> le_status e = st \<and> le_payoutBatchId e = Some (ba_id b))"

text \<open>An item names its batch, its payout and a ledger row of the same key and amount, owned by the batch.\<close>

definition itemOf :: "db \<Rightarrow> settlement_batch \<Rightarrow> batch_item \<Rightarrow> ledger_entry \<Rightarrow> bool" where
  "itemOf s b i e \<longleftrightarrow> ba_id b = bi_batchId i \<and> le_id e = bi_ledgerEntryId i \<and> le_amountCents e = bi_amountCents i \<and>
     ledgerKey s e = Some (ba_tenantId b, bi_membershipId i, bi_month i, bi_level i) \<and> ownedBy b e"

definition itemOk :: "db \<Rightarrow> batch_item \<Rightarrow> bool" where
  "itemOk s i \<longleftrightarrow> (\<exists>b \<in> set (batches s). \<exists>e \<in> set (ledger s). itemOf s b i e) \<and>
     (\<exists>p \<in> set (payouts s). po_id p = bi_payoutId i \<and> po_batchId p = Some (bi_batchId i) \<and> po_membershipId p = bi_membershipId i)"

text \<open>A payout of a batch carries the batch's status and the positive total of its items.\<close>

definition payoutOk :: "settlement_batch list \<Rightarrow> batch_item list \<Rightarrow> payout \<Rightarrow> bool" where
  "payoutOk bs items p = (case po_batchId p of
      None \<Rightarrow> po_status p = PoRequested \<or> po_status p = PoRejected
    | Some bid \<Rightarrow> (\<exists>b \<in> set bs. ba_id b = bid \<and> po_status p = batchPayoutStatus (ba_status b) \<and> po_tenantId p = ba_tenantId b) \<and>
        po_totalCents p = sumWhere (\<lambda>i. bi_batchId i = bid \<and> bi_payoutId i = po_id p) bi_amountCents items \<and>
        0 < po_totalCents p)"

definition settlementIds :: "db \<Rightarrow> bool" where
  "settlementIds s \<longleftrightarrow> distinct (map ba_id (batches s)) \<and> distinct (map po_id (payouts s)) \<and>
     distinct (map (\<lambda>i. (bi_batchId i, bi_ledgerEntryId i)) (batchItems s)) \<and>
     (\<forall>b \<in> set (batches s). \<forall>n \<ge> uuidNext s. ba_id b \<noteq> uuidGen s n) \<and>
     (\<forall>p \<in> set (payouts s). \<forall>n \<ge> uuidNext s. po_id p \<noteq> uuidGen s n)"

definition settlementLinks :: "db \<Rightarrow> bool" where
  "settlementLinks s \<longleftrightarrow> settlementIds s \<and> (\<forall>i \<in> set (batchItems s). itemOk s i) \<and>
     (\<forall>p \<in> set (payouts s). payoutOk (batches s) (batchItems s) p)"

definition settlementOk :: "db \<Rightarrow> bool" where
  "settlementOk s \<longleftrightarrow> settlementLinks s \<and> (\<forall>b \<in> set (batches s). \<exists>p \<in> set (payouts s). po_batchId p = Some (ba_id b))"

text \<open>How a write may touch a ledger row without touching the settlement: owned rows stay as they are.\<close>

definition keepsRow :: "db \<Rightarrow> db \<Rightarrow> ledger_entry \<Rightarrow> ledger_entry \<Rightarrow> bool" where
  "keepsRow s s' e e' \<longleftrightarrow> le_id e' = le_id e \<and> le_amountCents e' = le_amountCents e \<and> ledgerKey s' e' = ledgerKey s e \<and>
     (le_status e = LeProcessing \<or> le_status e = LePaid \<longrightarrow>
        le_status e' = le_status e \<and> le_payoutBatchId e' = le_payoutBatchId e)"

lemma itemOf_keepsRow: "itemOf s b i e \<Longrightarrow> keepsRow s s' e e' \<Longrightarrow> itemOf s' b i e'"
  by (cases "ba_status b") (auto simp: itemOf_def keepsRow_def ownedBy_def)

lemma settlementOk_keeps:
  assumes "settlementOk s" "batches s' = batches s" "payouts s' = payouts s" "batchItems s' = batchItems s"
    "uuidGen s' = uuidGen s" "uuidNext s \<le> uuidNext s'"
    "\<And>e. e \<in> set (ledger s) \<Longrightarrow> \<exists>e' \<in> set (ledger s'). keepsRow s s' e e'"
  shows "settlementOk s'"
proof -
  have "itemOk s' i" if "itemOk s i" for i
    using that assms(2,3,7) itemOf_keepsRow unfolding itemOk_def by metis
  then show ?thesis
    using assms(1-6) by (auto simp: settlementOk_def settlementLinks_def settlementIds_def)
qed

text \<open>The state every engine operation keeps: balanced books over well-linked, distinctly named rows.\<close>

definition books :: "db \<Rightarrow> bool" where
  "books s \<longleftrightarrow> reconciled s \<and> linked s \<and> idsFresh s \<and> settlementOk s"

lemma find_unique_key:
  assumes "distinct (map f xs)" "find (\<lambda>r. f r = k \<and> Q r) xs = Some r"
  shows "find (\<lambda>r. f r = k) xs = Some r"
  using assms
proof (induction xs)
  case (Cons x xs)
  show ?case
  proof (cases "f x = k \<and> Q x")
    case True
    then show ?thesis using Cons.prems by simp
  next
    case False
    then have r: "find (\<lambda>r. f r = k \<and> Q r) xs = Some r" using Cons.prems by (simp split: if_splits)
    then have "f x \<noteq> k" using Cons.prems(1) find_SomeD [OF r] by auto
    then show ?thesis using Cons r by simp
  qed
qed simp

lemma booksI: "reconciled s \<Longrightarrow> linked s \<Longrightarrow> idsFresh s \<Longrightarrow> settlementOk s \<Longrightarrow> books s"
  by (simp add: books_def)

lemma books_frame:
  assumes "books s" "ledger s' = ledger s" "summaries s' = summaries s" "saleBooking s' = saleBooking s"
    "uuidGen s' = uuidGen s" "uuidNext s \<le> uuidNext s'" "map sa_id (sales s') = map sa_id (sales s)"
    "batches s' = batches s" "payouts s' = payouts s" "batchItems s' = batchItems s"
  shows "books s'"
proof (rule booksI)
  show "reconciled s'" using assms reconciled_frame by (auto simp: books_def)
  show "linked s'" using assms linked_frame by (auto simp: books_def)
  show "idsFresh s'" using assms by (auto simp: books_def idsFresh_def)
  have "keepsRow s s' e e" for e using ledgerKey_frame [OF assms(4)] by (simp add: keepsRow_def)
  then show "settlementOk s'" using assms settlementOk_keeps [of s s'] by (auto simp: books_def)
qed

section \<open>Primitive writes\<close>

lemma createLedgerEntry_Inr:
  "createLedgerEntry E e s = Inr (i, s') \<longleftrightarrow>
     \<not> ledgerKeyTaken e (ledger s) \<and> i = freshId s \<and>
     s' = (drawId s)\<lparr>ledger := ledger s @ [e\<lparr>le_id := freshId s, le_createdAt := env_now E\<rparr>]\<rparr>"
  by (auto simp: createLedgerEntry_def)

lemma saleBooking_create: "createLedgerEntry E e s = Inr (i, s') \<Longrightarrow> saleBooking s' = saleBooking s"
  by (rule saleBooking_frame) (auto simp: createLedgerEntry_Inr drawId_def)

lemma ledgerKey_create: "createLedgerEntry E e s = Inr (i, s') \<Longrightarrow> ledgerKey s' x = ledgerKey s x"
  using ledgerKey_frame [OF saleBooking_create] by metis

lemma ledgerKey_id [simp]: "ledgerKey s (e\<lparr>le_id := i, le_createdAt := t\<rparr>) = ledgerKey s e"
  by (simp add: ledgerKey_def bucketMonth_def split: option.split)

lemma ledgerKey_status [simp]: "ledgerKey s (e\<lparr>le_status := st\<rparr>) = ledgerKey s e"
  by (simp add: ledgerKey_def bucketMonth_def split: option.split)

lemma entryPart_id [simp]: "entryPart st s k (e\<lparr>le_id := i, le_createdAt := t\<rparr>) = entryPart st s k e"
  by (simp add: entryPart_def)

lemma disc_create:
  assumes "createLedgerEntry E e s = Inr (i, s')"
  shows "disc st s' k = disc st s k + entryPart st s k e"
proof -
  have "colSum st s' k = colSum st s k"
    using assms by (intro colSum_frame) (auto simp: createLedgerEntry_Inr drawId_def)
  moreover have "entryPart st s' k = entryPart st s k"
    using ledgerKey_create [OF assms] by (intro ext) (simp add: entryPart_def)
  moreover have "ledger s' = ledger s @ [e\<lparr>le_id := freshId s, le_createdAt := env_now E\<rparr>]"
    using assms by (auto simp: createLedgerEntry_Inr)
  ultimately show ?thesis by (simp add: disc_def ledgerSum_entryPart)
qed

lemma linked_create:
  assumes "createLedgerEntry E e s = Inr (i, s')" "linked s" "rowLinked (saleBooking s) e"
  shows "linked s'"
proof -
  have "rowLinked (saleBooking s) (e\<lparr>le_id := freshId s, le_createdAt := env_now E\<rparr>)"
    using assms(3) by (simp add: rowLinked_def split: option.splits)
  moreover have "set (ledger s') = insert (e\<lparr>le_id := freshId s, le_createdAt := env_now E\<rparr>) (set (ledger s))"
    using assms(1) by (auto simp: createLedgerEntry_Inr)
  ultimately show ?thesis using assms(2) saleBooking_create [OF assms(1)] by (auto simp: linked_def)
qed

lemma idsFresh_create:
  assumes "createLedgerEntry E e s = Inr (i, s')" "idsFresh s"
  shows "idsFresh s'"
proof -
  have s': "ledger s' = ledger s @ [e\<lparr>le_id := freshId s, le_createdAt := env_now E\<rparr>]"
    "uuidGen s' = uuidGen s" "uuidNext s' = Suc (uuidNext s)" "sales s' = sales s"
    using assms(1) by (auto simp: createLedgerEntry_Inr drawId_def)
  have inj: "inj (uuidGen s)" and old: "\<And>x n. x \<in> set (ledger s) \<Longrightarrow> uuidNext s \<le> n \<Longrightarrow> le_id x \<noteq> uuidGen s n"
    using assms(2) by (auto simp: idsFresh_def)
  have "freshId s \<notin> le_id ` set (ledger s)" using old unfolding freshId_def by (metis imageE order_refl)
  moreover have "freshId s \<noteq> uuidGen s n" if "Suc (uuidNext s) \<le> n" for n
    using injD [OF inj, of "uuidNext s" n] that by (auto simp: freshId_def)
  ultimately show ?thesis using assms(2) s' by (auto simp: idsFresh_def)
qed

lemma settlementOk_create:
  assumes "createLedgerEntry E e s = Inr (i, s')" "settlementOk s"
  shows "settlementOk s'"
proof (rule settlementOk_keeps [OF assms(2)])
  show "\<exists>x' \<in> set (ledger s'). keepsRow s s' x x'" if "x \<in> set (ledger s)" for x
    using that assms(1) ledgerKey_create [OF assms(1)] by (auto simp: createLedgerEntry_Inr keepsRow_def)
qed (use assms(1) in \<open>auto simp: createLedgerEntry_Inr drawId_def\<close>)

lemma setLedgerStatus_frames [simp]:
  "summaries (setLedgerStatus i st s) = summaries s" "sales (setLedgerStatus i st s) = sales s"
  "uuidGen (setLedgerStatus i st s) = uuidGen s" "uuidNext (setLedgerStatus i st s) = uuidNext s"
  "batches (setLedgerStatus i st s) = batches s" "payouts (setLedgerStatus i st s) = payouts s"
  "batchItems (setLedgerStatus i st s) = batchItems s"
  by (simp_all add: setLedgerStatus_def)

lemma setLedgerStatus_saleBooking [simp]: "saleBooking (setLedgerStatus i st s) = saleBooking s"
  by (rule saleBooking_frame) simp

lemma sum_list_updateWhere_one:
  fixes f :: "'r \<Rightarrow> int"
  assumes "distinct (map i rows)" "r \<in> set rows"
  shows "sum_list (map f (updateWhere (\<lambda>x. i x = i r) g rows)) = sum_list (map f rows) - f r + f (g r)"
  using assms
proof (induction rows)
  case (Cons x xs)
  show ?case
  proof (cases "r = x")
    case True
    then have "updateWhere (\<lambda>y. i y = i r) g xs = xs" using Cons.prems(1) by (intro updateWhere_none) (blast dest: distinct_map_Cons_neq)
    then show ?thesis using True by simp
  next
    case False
    then have "i x \<noteq> i r" using Cons.prems by auto
    then show ?thesis using Cons False by simp
  qed
qed simp

lemma disc_setStatus:
  assumes "e \<in> set (ledger s)" "distinct (map le_id (ledger s))"
  shows "disc st (setLedgerStatus (le_id e) st' s) k =
     disc st s k - entryPart st s k e + entryPart st s k (e\<lparr>le_status := st'\<rparr>)"
proof -
  let ?s' = "setLedgerStatus (le_id e) st' s"
  have "colSum st ?s' k = colSum st s k" by (rule colSum_frame) simp
  moreover have "entryPart st ?s' k = entryPart st s k"
    using ledgerKey_frame [of ?s' s] by (intro ext) (simp add: entryPart_def)
  moreover have "ledger ?s' = updateWhere (\<lambda>r. le_id r = le_id e) (\<lambda>r. r\<lparr>le_status := st'\<rparr>) (ledger s)"
    by (simp add: setLedgerStatus_def)
  ultimately show ?thesis
    using sum_list_updateWhere_one [OF assms(2,1)] by (simp add: disc_def ledgerSum_entryPart)
qed

lemma linked_setStatus: "linked s \<Longrightarrow> linked (setLedgerStatus i st s)"
  unfolding linked_def setLedgerStatus_saleBooking
  by (auto simp: setLedgerStatus_def set_updateWhere rowLinked_def split: option.splits)

lemma idsFresh_setStatus: "idsFresh s \<Longrightarrow> idsFresh (setLedgerStatus i st s)"
  unfolding idsFresh_def by (auto simp: setLedgerStatus_def map_updateWhere_id set_updateWhere)

lemma settlementOk_setStatus:
  assumes "settlementOk s" "e \<in> set (ledger s)" "distinct (map le_id (ledger s))" "le_status e \<noteq> LeProcessing" "le_status e \<noteq> LePaid"
  shows "settlementOk (setLedgerStatus (le_id e) st s)"
proof (rule settlementOk_keeps [OF assms(1)])
  let ?s' = "setLedgerStatus (le_id e) st s"
  have key: "ledgerKey ?s' = ledgerKey s" by (rule ledgerKey_frame) simp
  fix x assume x: "x \<in> set (ledger s)"
  let ?x' = "if le_id x = le_id e then x\<lparr>le_status := st\<rparr> else x"
  have "?x' \<in> set (ledger ?s')" using x by (auto simp: setLedgerStatus_def set_updateWhere)
  moreover have "x = e" if "le_id x = le_id e" using inj_onD [of le_id "set (ledger s)" x e] that x assms(2,3) by (simp add: distinct_map)
  then have "keepsRow s ?s' x ?x'" using assms(4,5) by (auto simp: keepsRow_def key)
  ultimately show "\<exists>x' \<in> set (ledger ?s'). keepsRow s ?s' x x'" by blast
qed simp_all

lemma bump_frames [simp]:
  "ledger (bumpSummary k d s) = ledger s" "sales (bumpSummary k d s) = sales s"
  "batches (bumpSummary k d s) = batches s" "payouts (bumpSummary k d s) = payouts s"
  "batchItems (bumpSummary k d s) = batchItems s"
  "uuidGen (bumpSummary k d s) = uuidGen s" "uuidNext (bumpSummary k d s) = uuidNext s"
  by (simp_all add: bumpSummary_def)

lemma bump_saleBooking [simp]: "saleBooking (bumpSummary k d s) = saleBooking s"
  by (rule saleBooking_frame) simp

lemma linked_bump: "linked s \<Longrightarrow> linked (bumpSummary k d s)"
  by (erule linked_frame) simp_all

lemma idsFresh_bump: "idsFresh s \<Longrightarrow> idsFresh (bumpSummary k d s)"
  by (simp add: idsFresh_def)

lemma settlementOk_bump: "settlementOk s \<Longrightarrow> settlementOk (bumpSummary k d s)"
proof (erule settlementOk_keeps)
  have "ledgerKey (bumpSummary k d s) = ledgerKey s" by (rule ledgerKey_frame) simp
  then show "\<exists>e' \<in> set (ledger (bumpSummary k d s)). keepsRow s (bumpSummary k d s) e e'" if "e \<in> set (ledger s)" for e
    using that by (auto simp: keepsRow_def)
qed simp_all

text \<open>The row lemmas: a posted row with its bump, a silent reversed row, and a moved row with its bump.\<close>

lemma books_post:
  assumes "books s" "createLedgerEntry E e s = Inr (i, s')" "rowLinked (saleBooking s) e" "ledgerKey s e = Some k"
    and d: "\<And>st. st \<noteq> LeReversed \<Longrightarrow> statusPart st d = (if le_status e = st then le_amountCents e else 0)"
  shows "books (bumpSummary k d s')"
proof (rule booksI)
  show "reconciled (bumpSummary k d s')"
    unfolding reconciled_disc
    using assms(1,4) d disc_create [OF assms(2)] by (auto simp: disc_bump entryPart_def books_def reconciled_disc)
  show "linked (bumpSummary k d s')" using assms(1-3) linked_create linked_bump by (auto simp: books_def)
  show "idsFresh (bumpSummary k d s')" using assms(1,2) idsFresh_create idsFresh_bump by (auto simp: books_def)
  show "settlementOk (bumpSummary k d s')" using assms(1,2) settlementOk_create settlementOk_bump by (auto simp: books_def)
qed

lemma books_create_reversed:
  assumes "books s" "createLedgerEntry E e s = Inr (i, s')" "rowLinked (saleBooking s) e" "le_status e = LeReversed"
  shows "books s'"
proof (rule booksI)
  show "reconciled s'"
    unfolding reconciled_disc
    using assms(1,4) disc_create [OF assms(2)] by (auto simp: entryPart_def books_def reconciled_disc)
  show "linked s'" using assms(1-3) linked_create by (auto simp: books_def)
  show "idsFresh s'" using assms(1,2) idsFresh_create by (auto simp: books_def)
  show "settlementOk s'" using assms(1,2) settlementOk_create by (auto simp: books_def)
qed

lemma books_move:
  assumes "books s" "e \<in> set (ledger s)" "ledgerKey s e = Some k" "le_status e \<noteq> LeProcessing" "le_status e \<noteq> LePaid"
    and d: "\<And>st. st \<noteq> LeReversed \<Longrightarrow> statusPart st d =
      (if st = st' then le_amountCents e else 0) - (if st = le_status e then le_amountCents e else 0)"
  shows "books (bumpSummary k d (setLedgerStatus (le_id e) st' s))"
proof (rule booksI)
  have ids: "distinct (map le_id (ledger s))" using assms(1) by (simp add: books_def idsFresh_def)
  show "reconciled (bumpSummary k d (setLedgerStatus (le_id e) st' s))"
    unfolding reconciled_disc
    using assms(1,3) d disc_setStatus [OF assms(2) ids] by (auto simp: disc_bump entryPart_def books_def reconciled_disc)
  show "linked (bumpSummary k d (setLedgerStatus (le_id e) st' s))"
    using assms(1) linked_setStatus linked_bump by (auto simp: books_def)
  show "idsFresh (bumpSummary k d (setLedgerStatus (le_id e) st' s))"
    using assms(1) idsFresh_setStatus idsFresh_bump by (auto simp: books_def)
  show "settlementOk (bumpSummary k d (setLedgerStatus (le_id e) st' s))"
    using assms(1) settlementOk_setStatus [OF _ assms(2) ids assms(4,5)] settlementOk_bump by (auto simp: books_def)
qed

text \<open>Outbox and audit rows do not touch the books.\<close>

lemma notification_frames [simp]:
  "ledger (createNotification t m c tmpl p s) = ledger s" "sales (createNotification t m c tmpl p s) = sales s"
  "summaries (createNotification t m c tmpl p s) = summaries s"
  "uuidGen (createNotification t m c tmpl p s) = uuidGen s"
  "uuidNext (createNotification t m c tmpl p s) = Suc (uuidNext s)"
  "batches (createNotification t m c tmpl p s) = batches s" "payouts (createNotification t m c tmpl p s) = payouts s"
  "batchItems (createNotification t m c tmpl p s) = batchItems s"
  by (simp_all add: createNotification_def drawId_def)

lemma notification_saleBooking [simp]: "saleBooking (createNotification t m c tmpl p s) = saleBooking s"
  by (rule saleBooking_frame) simp

lemma audit_frames [simp]:
  "ledger (audit t u a i b c s) = ledger s" "sales (audit t u a i b c s) = sales s"
  "summaries (audit t u a i b c s) = summaries s"
  "uuidGen (audit t u a i b c s) = uuidGen s" "uuidNext (audit t u a i b c s) = uuidNext s"
  "batches (audit t u a i b c s) = batches s" "payouts (audit t u a i b c s) = payouts s"
  "batchItems (audit t u a i b c s) = batchItems s"
  by (simp_all add: audit_def)

lemma audit_saleBooking [simp]: "saleBooking (audit t u a i b c s) = saleBooking s"
  by (rule saleBooking_frame) simp

lemma books_notification: "books s \<Longrightarrow> books (createNotification t m c tmpl p s)"
  by (erule books_frame) simp_all

lemma books_audit: "books s \<Longrightarrow> books (audit t u a i b c s)"
  by (erule books_frame) simp_all

text \<open>A sale update keeps every frozen month.\<close>

lemma findSale_updateSale:
  assumes "\<And>r. sa_id (f r) = sa_id r"
  shows "findSale (updateSale sid f s) x = (if x = sid then map_option f (findSale s x) else findSale s x)"
proof -
  have "find (\<lambda>r. sa_id r = x) (updateWhere (\<lambda>r. sa_id r = sid) f (sales s)) =
     map_option (\<lambda>r. if sa_id r = sid then f r else r) (find (\<lambda>r. sa_id r = x) (sales s))"
    by (rule find_updateWhere_id) (simp add: assms)
  then show ?thesis
    by (cases "find (\<lambda>r. sa_id r = x) (sales s)") (auto simp: findSale_def updateSale_def dest: find_SomeD)
qed

lemma books_updateSale:
  assumes "books s" "\<And>r. sa_id (f r) = sa_id r" "\<And>r. sa_summaryMonth (f r) = sa_summaryMonth r"
    "\<And>r. sa_tenantId (f r) = sa_tenantId r"
  shows "books (updateSale sid f s)"
proof (rule books_frame [OF assms(1)])
  show "saleBooking (updateSale sid f s) = saleBooking s"
    by (rule ext) (simp add: saleBooking_def findSale_updateSale assms(2-4) bind_map_option comp_def cong: bind_option_cong)
qed (simp_all add: updateSale_def map_updateWhere_id assms(2))

text \<open>Freezing a month of a sale that had none: by linkage no row was booked under it yet.\<close>

lemma saleBooking_freeze:
  assumes "findSale s sid = Some r"
  shows "saleBooking (updateSale sid (\<lambda>r. r\<lparr>sa_summaryMonth := Some m\<rparr>) s) = (saleBooking s)(sid := Some (sa_tenantId r, m))"
  by (rule ext) (simp add: saleBooking_def findSale_updateSale assms)

lemma books_freeze:
  assumes "books s" "findSale s sid = Some r" "sa_summaryMonth r = None"
  shows "books (updateSale sid (\<lambda>r. r\<lparr>sa_summaryMonth := Some m\<rparr>) s)"
proof -
  let ?s' = "updateSale sid (\<lambda>r. r\<lparr>sa_summaryMonth := Some m\<rparr>) s"
  have m: "saleBooking ?s' = (saleBooking s)(sid := Some (sa_tenantId r, m))" by (rule saleBooking_freeze [OF assms(2)])
  have none: "saleBooking s sid = None" using assms(2,3) by (simp add: saleBooking_def)
  have l: "\<And>e. e \<in> set (ledger s) \<Longrightarrow> rowLinked (saleBooking s) e" using assms(1) by (simp add: books_def linked_def)
  have no: "le_saleId e \<noteq> Some sid" if "e \<in> set (ledger s)" for e
    using l [OF that] none by (auto simp: rowLinked_def)
  have key: "ledgerKey ?s' e = ledgerKey s e" if "e \<in> set (ledger s)" for e
    using no [OF that] by (cases "le_saleId e") (auto simp: ledgerKey_def bucketMonth_def m split: option.split)
  have led: "ledger ?s' = ledger s" "summaries ?s' = summaries s" by (simp_all add: updateSale_def)
  have "ledgerSum st ?s' k = ledgerSum st s k" for st k
    unfolding ledgerSum_def led by (rule sumWhere_cong) (auto simp: key)
  then have "reconciled ?s'"
    using assms(1) colSum_frame [OF led(2)] by (auto simp: books_def reconciled_def)
  moreover have "linked ?s'"
  proof -
    have "rowLinked ((saleBooking s)(sid := Some (sa_tenantId r, m))) e" if "e \<in> set (ledger s)" for e
      using l [OF that] none by (cases "le_saleId e") (auto simp: rowLinked_def)
    then show ?thesis unfolding linked_def led m by blast
  qed
  moreover have "idsFresh ?s'" using assms(1) by (simp add: books_def idsFresh_def updateSale_def map_updateWhere_id)
  moreover have "settlementOk ?s'"
  proof (rule settlementOk_keeps)
    show "settlementOk s" using assms(1) by (simp add: books_def)
    show "\<exists>e' \<in> set (ledger ?s'). keepsRow s ?s' e e'" if "e \<in> set (ledger s)" for e
      using that key [OF that] led by (auto simp: keepsRow_def)
  qed (simp_all add: updateSale_def)
  ultimately show ?thesis by (rule booksI)
qed

text \<open>An update of ledger columns the books do not read.\<close>

definition quiet_update :: "(ledger_entry \<Rightarrow> ledger_entry) \<Rightarrow> bool" where
  "quiet_update f \<longleftrightarrow> (\<forall>e. le_id (f e) = le_id e \<and> le_tenantId (f e) = le_tenantId e \<and> le_saleId (f e) = le_saleId e \<and>
     le_beneficiary (f e) = le_beneficiary e \<and> le_level (f e) = le_level e \<and> le_amountCents (f e) = le_amountCents e \<and>
     le_status (f e) = le_status e \<and> le_summaryMonth (f e) = le_summaryMonth e \<and> le_payoutBatchId (f e) = le_payoutBatchId e)"

lemma books_update_quiet:
  assumes "books s" "quiet_update f"
  shows "books (s\<lparr>ledger := updateWhere P f (ledger s)\<rparr>)"
proof -
  let ?s' = "s\<lparr>ledger := updateWhere P f (ledger s)\<rparr>"
  have m: "saleBooking ?s' = saleBooking s" by (rule saleBooking_frame) simp
  have f: "\<And>e. le_id (f e) = le_id e" "\<And>e. ledgerKey s (f e) = ledgerKey s e" "\<And>e. le_status (f e) = le_status e"
    "\<And>e. le_amountCents (f e) = le_amountCents e" "\<And>e. rowLinked (saleBooking s) (f e) = rowLinked (saleBooking s) e"
    using assms(2) by (auto simp: quiet_update_def ledgerKey_def bucketMonth_def rowLinked_def split: option.split)
  have "ledgerSum st ?s' k = ledgerSum st s k" for st k
    using ledgerKey_frame [OF m] by (simp add: ledgerSum_def sumWhere_updateWhere f)
  then have "reconciled ?s'" using assms(1) colSum_frame [of ?s' s] by (simp add: books_def reconciled_def)
  moreover have "linked ?s'" using assms(1) f(5) by (auto simp: books_def linked_def m set_updateWhere)
  moreover have "idsFresh ?s'" using assms(1) f(1) by (auto simp: books_def idsFresh_def set_updateWhere map_updateWhere_id)
  moreover have "settlementOk ?s'"
  proof (rule settlementOk_keeps)
    show "settlementOk s" using assms(1) by (simp add: books_def)
    show "\<exists>e' \<in> set (ledger ?s'). keepsRow s ?s' e e'" if "e \<in> set (ledger s)" for e
    proof -
      have "keepsRow s ?s' e (if P e then f e else e)"
        using assms(2) f ledgerKey_frame [OF m] by (simp add: keepsRow_def quiet_update_def)
      then show ?thesis using that by (auto simp: set_updateWhere split: if_splits)
    qed
  qed simp_all
  ultimately show ?thesis by (rule booksI)
qed

end
