(* ===== verification/Money.thy ===== *)
theory Money
  imports Earn_Prelude
begin

text \<open>
  \<open>packages/shared\<close>: the integer-cent money helpers, the pure distribution core
  \<open>computeCommissionLines\<close> that both the engine and the plan simulator call, and the zod schema
  a commission plan version must pass.  The lemmas bound what a sale distributes and show what
  a plan accepted by the schema looks like.
\<close>

section \<open>Constants (constants.ts)\<close>

definition DEFAULT_POOL_RATE_BPS :: int where
  "DEFAULT_POOL_RATE_BPS = 1000"

definition DEFAULT_LEVEL_RATES_BPS :: "int list" where
  "DEFAULT_LEVEL_RATES_BPS = [500, 200, 150, 100, 50]"

definition MIN_PLAN_DEPTH :: nat where
  "MIN_PLAN_DEPTH = 1"

definition MAX_PLAN_DEPTH :: nat where
  "MAX_PLAN_DEPTH = 8"

definition BPS_DENOMINATOR :: int where
  "BPS_DENOMINATOR = 10000"

section \<open>Money (money.ts)\<close>

text \<open>
  \<open>rateBps\<close> is a JavaScript number; it is an integer here, so the \<open>Number.isInteger\<close> test of the
  source is the type.  BigInt division truncates towards zero, which is \<open>div\<close> on the
  non-negative operands that pass the guards.
\<close>

definition bpsAmount :: "cents \<Rightarrow> int \<Rightarrow> cents res" where
  "bpsAmount amountCents rateBps =
     andThen (require (\<not> amountCents < 0) (RangeError ''amountCents cannot be negative''))
       (\<lambda>_. andThen (require (\<not> (rateBps < 0 \<or> rateBps > BPS_DENOMINATOR))
                    (RangeError ''rateBps must be an integer in 0..10000''))
         (\<lambda>_. Inr ((amountCents * rateBps) div BPS_DENOMINATOR)))"

text \<open>Decimal text of a number (\<open>toString\<close>).\<close>

fun digit_char :: "nat \<Rightarrow> char" where
  "digit_char n = char_of (48 + n)"

fun show_nat :: "nat \<Rightarrow> string" where
  "show_nat n = (if n < 10 then [digit_char n] else show_nat (n div 10) @ [digit_char (n mod 10)])"

declare show_nat.simps [simp del]

definition show_int :: "int \<Rightarrow> string" where
  "show_int i = (if i < 0 then ''-'' @ show_nat (nat (- i)) else show_nat (nat i))"

definition padStart :: "nat \<Rightarrow> char \<Rightarrow> string \<Rightarrow> string" where
  "padStart n c s = replicate (n - length s) c @ s"

definition centsToDecimalString :: "cents \<Rightarrow> string" where
  "centsToDecimalString cents =
     (let sign = (if cents < 0 then ''-'' else '''');
          abs = (if cents < 0 then - cents else cents);
          whole = abs div 100;
          frac = padStart 2 (CHR ''0'') (show_int (abs mod 100))
      in sign @ show_int whole @ ''.'' @ frac)"

section \<open>Distribution core (commission.ts)\<close>

record plan_level_rate =
  lv_level :: nat
  lv_rateBps :: int

record commission_line =
  cl_level :: nat
  cl_beneficiary :: uuid
  cl_rateBpsUsed :: int
  cl_amountCents :: cents

text \<open>
  \<open>uplineChain[level]\<close>: an index past the end is \<open>undefined\<close> and a hole left for an inactive
  upline is the empty string; both are falsy and both are \<open>None\<close> here.
\<close>

definition chainAt :: "uuid option list \<Rightarrow> nat \<Rightarrow> uuid option" where
  "chainAt chain i = (if i < length chain then chain ! i else None)"

fun linesOf :: "cents \<Rightarrow> plan_level_rate list \<Rightarrow> uuid option list \<Rightarrow> commission_line list res" where
  "linesOf amountCents [] chain = Inr []"
| "linesOf amountCents (l # ls) chain =
     (case chainAt chain (lv_level l) of
        None \<Rightarrow> linesOf amountCents ls chain
      | Some beneficiary \<Rightarrow>
          andThen (bpsAmount amountCents (lv_rateBps l)) (\<lambda>amount.
            if amount \<le> 0 then linesOf amountCents ls chain
            else andThen (linesOf amountCents ls chain) (\<lambda>rest.
              Inr (\<lparr>cl_level = lv_level l, cl_beneficiary = beneficiary,
                    cl_rateBpsUsed = lv_rateBps l, cl_amountCents = amount\<rparr> # rest))))"

definition computeCommissionLines ::
  "cents \<Rightarrow> plan_level_rate list \<Rightarrow> uuid option list \<Rightarrow> commission_line list res" where
  "computeCommissionLines amountCents levels uplineChain =
     linesOf amountCents (sort_key lv_level levels) uplineChain"

definition totalDistributed :: "commission_line list \<Rightarrow> cents" where
  "totalDistributed lines = foldl (\<lambda>acc l. acc + cl_amountCents l) 0 lines"

section \<open>Plan schema (plan.ts)\<close>

record commission_plan_input =
  in_name :: string
  in_poolRateBps :: int
  in_depth :: nat
  in_levels :: "plan_level_rate list"

text \<open>The issues zod collects, in the order it reports them (base object first, then superRefine).\<close>

datatype plan_issue =
    NameLength | PoolRange | DepthRange | NoLevels | LevelRange nat | RateRange int
  | LevelDuplicated nat | SellerLevelMissing | LevelGap | SumExceedsPool int

definition planLevelIssues :: "plan_level_rate \<Rightarrow> plan_issue list" where
  "planLevelIssues l =
     (if lv_level l > MAX_PLAN_DEPTH - 1 then [LevelRange (lv_level l)] else []) @
     (if lv_rateBps l < 0 \<or> lv_rateBps l > BPS_DENOMINATOR then [RateRange (lv_rateBps l)] else [])"

definition planBaseIssues :: "commission_plan_input \<Rightarrow> plan_issue list" where
  "planBaseIssues p =
     (if length (in_name p) < 1 \<or> length (in_name p) > 120 then [NameLength] else []) @
     (if in_poolRateBps p < 0 \<or> in_poolRateBps p > BPS_DENOMINATOR then [PoolRange] else []) @
     (if in_depth p < MIN_PLAN_DEPTH \<or> in_depth p > MAX_PLAN_DEPTH then [DepthRange] else []) @
     (if length (in_levels p) < 1 then [NoLevels] else []) @
     concat (map planLevelIssues (in_levels p))"

fun duplicateIssues :: "nat set \<Rightarrow> plan_level_rate list \<Rightarrow> plan_issue list" where
  "duplicateIssues seen [] = []"
| "duplicateIssues seen (l # ls) =
     (if lv_level l \<in> seen then [LevelDuplicated (lv_level l)] else []) @
     duplicateIssues (insert (lv_level l) seen) ls"

definition planRefineIssues :: "commission_plan_input \<Rightarrow> plan_issue list" where
  "planRefineIssues p =
     (let sorted = map lv_level (sort_key lv_level (in_levels p));
          sum = foldl (\<lambda>acc l. acc + lv_rateBps l) 0 (in_levels p)
      in duplicateIssues {} (in_levels p) @
         (if 0 \<notin> lv_level ` set (in_levels p) then [SellerLevelMissing] else []) @
         (if length sorted \<noteq> in_depth p \<or> sorted \<noteq> [0..<length sorted] then [LevelGap] else []) @
         (if sum > in_poolRateBps p then [SumExceedsPool sum] else []))"

definition commissionPlanSchema :: "commission_plan_input \<Rightarrow> plan_issue list + commission_plan_input" where
  "commissionPlanSchema p =
     (let issues = planBaseIssues p @ planRefineIssues p
      in if issues = [] then Inr p else Inl issues)"

section \<open>Lemmas: money\<close>

lemma bpsAmount_Inr:
  "bpsAmount a r = Inr x \<longleftrightarrow> 0 \<le> a \<and> 0 \<le> r \<and> r \<le> 10000 \<and> x = a * r div 10000"
  by (auto simp: bpsAmount_def BPS_DENOMINATOR_def)

lemma bpsAmount_nonneg: "bpsAmount a r = Inr x \<Longrightarrow> 0 \<le> x"
  by (auto simp: bpsAmount_Inr intro: pos_imp_zdiv_nonneg_iff [THEN iffD2])

lemma bpsAmount_le: "bpsAmount a r = Inr x \<Longrightarrow> x \<le> a"
proof -
  assume "bpsAmount a r = Inr x"
  then have a: "0 \<le> a" and r: "r \<le> 10000" and x: "x = a * r div 10000" by (auto simp: bpsAmount_Inr)
  have "a * r div 10000 \<le> a * 10000 div 10000"
    using a r by (intro zdiv_mono1) (auto intro: mult_left_mono)
  then show "x \<le> a" using x by simp
qed

text \<open>Flooring each share separately never exceeds flooring the sum of the shares.\<close>

lemma div_add_le: "(x::int) div 10000 + y div 10000 \<le> (x + y) div 10000"
proof -
  have "10000 * (x div 10000) \<le> x" and "10000 * (y div 10000) \<le> y"
    using mult_div_mod_eq [of 10000 x] mult_div_mod_eq [of 10000 y]
      pos_mod_sign [of 10000 x] pos_mod_sign [of 10000 y] by linarith+
  then have "10000 * (x div 10000 + y div 10000) div 10000 \<le> (x + y) div 10000"
    by (intro zdiv_mono1) auto
  then show ?thesis by simp
qed

lemma sum_div_le:
  "(\<Sum>x\<leftarrow>xs. (a * f x) div (10000::int)) \<le> (a * (\<Sum>x\<leftarrow>xs. f x)) div 10000"
proof (induction xs)
  case Nil
  then show ?case by simp
next
  case (Cons x xs)
  have "(a * f x) div 10000 + (a * (\<Sum>x\<leftarrow>xs. f x)) div 10000 \<le> (a * f x + a * (\<Sum>x\<leftarrow>xs. f x)) div 10000"
    by (rule div_add_le)
  then show ?case using Cons by (simp add: algebra_simps)
qed

lemma scaled_div_mono: "0 \<le> a \<Longrightarrow> r \<le> s \<Longrightarrow> (a * r) div 10000 \<le> (a * s) div (10000::int)"
  by (intro zdiv_mono1) (auto intro: mult_left_mono)

section \<open>Lemmas: the distribution core\<close>

lemma linesOf_Inr_Cons:
  "linesOf a (l # ls) chain = Inr ls' \<longleftrightarrow>
     (chainAt chain (lv_level l) = None \<and> linesOf a ls chain = Inr ls') \<or>
     (\<exists>b x. chainAt chain (lv_level l) = Some b \<and> bpsAmount a (lv_rateBps l) = Inr x \<and>
        (if x \<le> 0 then linesOf a ls chain = Inr ls'
         else \<exists>rest. linesOf a ls chain = Inr rest \<and>
           ls' = \<lparr>cl_level = lv_level l, cl_beneficiary = b, cl_rateBpsUsed = lv_rateBps l,
                  cl_amountCents = x\<rparr> # rest))"
  by (auto split: option.splits)

text \<open>Each line sits at a plan level, is positive, and is the floored share of its chain member.\<close>

lemma linesOf_sound:
  assumes "linesOf a ls chain = Inr lines" and "c \<in> set lines"
  shows "(\<exists>l \<in> set ls. cl_level c = lv_level l \<and> cl_rateBpsUsed c = lv_rateBps l) \<and>
    chainAt chain (cl_level c) = Some (cl_beneficiary c) \<and> 0 < cl_amountCents c \<and>
    cl_amountCents c = a * cl_rateBpsUsed c div 10000"
  using assms
proof (induction ls arbitrary: lines)
  case Nil
  then show ?case by simp
next
  case (Cons l ls)
  from Cons.prems(1) [unfolded linesOf_Inr_Cons] show ?case
  proof (elim disjE exE conjE)
    assume "linesOf a ls chain = Inr lines"
    then show ?thesis using Cons.IH Cons.prems(2) by auto
  next
    fix b x
    assume c: "chainAt chain (lv_level l) = Some b" and x: "bpsAmount a (lv_rateBps l) = Inr x"
      and r: "if x \<le> 0 then linesOf a ls chain = Inr lines
         else \<exists>rest. linesOf a ls chain = Inr rest \<and>
           lines = \<lparr>cl_level = lv_level l, cl_beneficiary = b, cl_rateBpsUsed = lv_rateBps l,
                  cl_amountCents = x\<rparr> # rest"
    show ?thesis
    proof (cases "x \<le> 0")
      case True
      then show ?thesis using r Cons.IH Cons.prems(2) by auto
    next
      case False
      then obtain rest where rest: "linesOf a ls chain = Inr rest"
        and lines: "lines = \<lparr>cl_level = lv_level l, cl_beneficiary = b, cl_rateBpsUsed = lv_rateBps l,
                  cl_amountCents = x\<rparr> # rest"
        using r by auto
      then show ?thesis using Cons.IH [OF rest] Cons.prems(2) c x False by (auto simp: bpsAmount_Inr)
    qed
  qed
qed

lemma linesOf_levels_subset: "linesOf a ls chain = Inr lines \<Longrightarrow> cl_level ` set lines \<subseteq> lv_level ` set ls"
  using linesOf_sound by fastforce

lemma linesOf_distinct:
  "linesOf a ls chain = Inr lines \<Longrightarrow> distinct (map lv_level ls) \<Longrightarrow> distinct (map cl_level lines)"
proof (induction ls arbitrary: lines)
  case Nil
  then show ?case by simp
next
  case (Cons l ls)
  have sub: "\<And>rest. linesOf a ls chain = Inr rest \<Longrightarrow> lv_level l \<notin> cl_level ` set rest"
    using linesOf_levels_subset [of a ls chain] Cons.prems(2) by (auto simp: image_iff)
  show ?case
    using Cons.prems(1) [unfolded linesOf_Inr_Cons] Cons.IH Cons.prems(2) sub
    by (auto split: if_splits simp: image_iff)
qed

lemma linesOf_total:
  "linesOf a ls chain = Inr lines \<Longrightarrow> \<forall>l \<in> set ls. 0 \<le> lv_rateBps l \<Longrightarrow> 0 \<le> a \<Longrightarrow>
   (\<Sum>c\<leftarrow>lines. cl_amountCents c) \<le> (\<Sum>l\<leftarrow>ls. (a * lv_rateBps l) div 10000)"
proof (induction ls arbitrary: lines)
  case Nil
  then show ?case by simp
next
  case (Cons l ls)
  have nn: "0 \<le> a * lv_rateBps l div 10000"
    using Cons.prems by (simp add: pos_imp_zdiv_nonneg_iff)
  show ?case
    using Cons.prems(1) [unfolded linesOf_Inr_Cons] Cons.IH Cons.prems(2,3) nn
    by (fastforce split: if_splits simp: bpsAmount_Inr)
qed

text \<open>With rates in range nothing is thrown.\<close>

lemma linesOf_total_fun:
  "0 \<le> a \<Longrightarrow> \<forall>l \<in> set ls. 0 \<le> lv_rateBps l \<and> lv_rateBps l \<le> 10000 \<Longrightarrow>
   \<exists>lines. linesOf a ls chain = Inr lines"
proof (induction ls)
  case Nil
  then show ?case by simp
next
  case (Cons l ls)
  then obtain rest where "linesOf a ls chain = Inr rest" by auto
  moreover have "bpsAmount a (lv_rateBps l) = Inr (a * lv_rateBps l div 10000)"
    using Cons.prems by (simp add: bpsAmount_Inr)
  ultimately show ?case by (auto split: option.splits)
qed

lemma totalDistributed_sum: "totalDistributed lines = (\<Sum>c\<leftarrow>lines. cl_amountCents c)"
proof -
  have "foldl (\<lambda>acc l. acc + cl_amountCents l) z lines = z + (\<Sum>c\<leftarrow>lines. cl_amountCents c)" for z
    by (induction lines arbitrary: z) auto
  then show ?thesis by (simp add: totalDistributed_def)
qed

lemma sum_list_sort_key: "(\<Sum>l\<leftarrow>sort_key k ls. f l) = (\<Sum>l\<leftarrow>ls. (f l :: int))"
  by (metis mset_map mset_sort sum_mset_sum_list)

lemma distinct_map_sort_key: "distinct (map f (sort_key k ls)) = distinct (map f ls)"
proof -
  have "mset (map f (sort_key k ls)) = mset (map f ls)" by simp
  then show ?thesis by (metis mset_eq_imp_distinct_iff)
qed

lemma computeCommissionLines_total:
  "\<forall>l \<in> set ls. 0 \<le> lv_rateBps l \<and> lv_rateBps l \<le> 10000 \<Longrightarrow> 0 \<le> a \<Longrightarrow>
   \<exists>lines. computeCommissionLines a ls chain = Inr lines"
  unfolding computeCommissionLines_def by (rule linesOf_total_fun) auto

lemma computeCommissionLines_sound:
  "computeCommissionLines a ls chain = Inr lines \<Longrightarrow> c \<in> set lines \<Longrightarrow>
   (\<exists>l \<in> set ls. cl_level c = lv_level l \<and> cl_rateBpsUsed c = lv_rateBps l) \<and>
    chainAt chain (cl_level c) = Some (cl_beneficiary c) \<and> 0 < cl_amountCents c \<and>
    cl_amountCents c = a * cl_rateBpsUsed c div 10000"
  unfolding computeCommissionLines_def by (drule linesOf_sound) auto

lemma computeCommissionLines_distinct:
  "computeCommissionLines a ls chain = Inr lines \<Longrightarrow> distinct (map lv_level ls) \<Longrightarrow>
   distinct (map cl_level lines)"
  unfolding computeCommissionLines_def by (drule linesOf_distinct) (auto simp: distinct_map_sort_key)

text \<open>The distributed total is at most the share of the summed level rates.\<close>

lemma computeCommissionLines_bound:
  assumes "computeCommissionLines a ls chain = Inr lines"
    and "\<forall>l \<in> set ls. 0 \<le> lv_rateBps l" and "0 \<le> a"
  shows "(\<Sum>c\<leftarrow>lines. cl_amountCents c) \<le> (a * (\<Sum>l\<leftarrow>ls. lv_rateBps l)) div 10000"
proof -
  have "(\<Sum>c\<leftarrow>lines. cl_amountCents c) \<le> (\<Sum>l\<leftarrow>sort_key lv_level ls. (a * lv_rateBps l) div 10000)"
    using assms unfolding computeCommissionLines_def by (intro linesOf_total) auto
  also have "\<dots> = (\<Sum>l\<leftarrow>ls. (a * lv_rateBps l) div 10000)" by (rule sum_list_sort_key)
  also have "\<dots> \<le> (a * (\<Sum>l\<leftarrow>ls. lv_rateBps l)) div 10000" by (rule sum_div_le)
  finally show ?thesis .
qed

section \<open>Lemmas: the plan schema\<close>

text \<open>What the schema promises of a plan it accepts.\<close>

definition validPlan :: "commission_plan_input \<Rightarrow> bool" where
  "validPlan p \<longleftrightarrow>
     1 \<le> length (in_name p) \<and> length (in_name p) \<le> 120 \<and>
     0 \<le> in_poolRateBps p \<and> in_poolRateBps p \<le> 10000 \<and>
     1 \<le> in_depth p \<and> in_depth p \<le> 8 \<and>
     (\<forall>l \<in> set (in_levels p). 0 \<le> lv_rateBps l \<and> lv_rateBps l \<le> 10000) \<and>
     sort (map lv_level (in_levels p)) = [0..<in_depth p] \<and>
     (\<Sum>l\<leftarrow>in_levels p. lv_rateBps l) \<le> in_poolRateBps p"

lemma duplicateIssues_Nil:
  "duplicateIssues seen ls = [] \<longleftrightarrow> distinct (map lv_level ls) \<and> lv_level ` set ls \<inter> seen = {}"
  by (induction ls arbitrary: seen) auto

lemma foldl_sum: "foldl (\<lambda>acc l. acc + f l) (z::int) ls = z + (\<Sum>l\<leftarrow>ls. f l)"
  by (induction ls arbitrary: z) auto

lemma map_sort_key_self: "map f (sort_key f xs) = sort (map f xs)"
  by (rule properties_for_sort [symmetric]) simp_all

lemma sorted_levels_iff:
  "map lv_level (sort_key lv_level ls) = [0..<length (map lv_level (sort_key lv_level ls))] \<and>
   length (map lv_level (sort_key lv_level ls)) = d \<longleftrightarrow> sort (map lv_level ls) = [0..<d]"
proof -
  have "sort (map lv_level ls) = [0..<d] \<Longrightarrow> length ls = d"
    by (metis diff_zero length_map length_sort length_upt)
  then show ?thesis by (auto simp: map_sort_key_self)
qed

lemma planRefineIssues_Nil:
  "planRefineIssues p = [] \<longleftrightarrow>
     distinct (map lv_level (in_levels p)) \<and> 0 \<in> lv_level ` set (in_levels p) \<and>
     sort (map lv_level (in_levels p)) = [0..<in_depth p] \<and>
     (\<Sum>l\<leftarrow>in_levels p. lv_rateBps l) \<le> in_poolRateBps p"
  unfolding planRefineIssues_def Let_def append_is_Nil_conv duplicateIssues_Nil
    sorted_levels_iff [symmetric] foldl_sum
  by (auto simp: not_less)

lemma planLevelIssues_Nil:
  "planLevelIssues l = [] \<longleftrightarrow> lv_level l \<le> 7 \<and> 0 \<le> lv_rateBps l \<and> lv_rateBps l \<le> 10000"
  by (auto simp: planLevelIssues_def MAX_PLAN_DEPTH_def BPS_DENOMINATOR_def)

lemma planBaseIssues_Nil:
  "planBaseIssues p = [] \<longleftrightarrow>
     1 \<le> length (in_name p) \<and> length (in_name p) \<le> 120 \<and>
     0 \<le> in_poolRateBps p \<and> in_poolRateBps p \<le> 10000 \<and>
     1 \<le> in_depth p \<and> in_depth p \<le> 8 \<and> in_levels p \<noteq> [] \<and>
     (\<forall>l \<in> set (in_levels p). lv_level l \<le> 7 \<and> 0 \<le> lv_rateBps l \<and> lv_rateBps l \<le> 10000)"
  unfolding planBaseIssues_def append_is_Nil_conv concat_eq_Nil_conv
  by (auto simp: planLevelIssues_Nil MIN_PLAN_DEPTH_def MAX_PLAN_DEPTH_def BPS_DENOMINATOR_def Suc_le_eq)

lemma validPlan_levels:
  assumes "validPlan p"
  shows "distinct (map lv_level (in_levels p))" and "lv_level ` set (in_levels p) = {..<in_depth p}"
proof -
  have s: "sort (map lv_level (in_levels p)) = [0..<in_depth p]" using assms by (simp add: validPlan_def)
  have "distinct (sort (map lv_level (in_levels p)))" unfolding s by simp
  then show "distinct (map lv_level (in_levels p))" by simp
  have "set (sort (map lv_level (in_levels p))) = {0..<in_depth p}" unfolding s by simp
  then show "lv_level ` set (in_levels p) = {..<in_depth p}" by (simp add: lessThan_atLeast0)
qed

lemma commissionPlanSchema_iff: "commissionPlanSchema p = Inr q \<longleftrightarrow> validPlan p \<and> q = p"
proof -
  have "planBaseIssues p @ planRefineIssues p = [] \<longleftrightarrow> validPlan p"
  proof
    assume "planBaseIssues p @ planRefineIssues p = []"
    then show "validPlan p"
      by (simp add: planBaseIssues_Nil planRefineIssues_Nil validPlan_def)
  next
    assume v: "validPlan p"
    have lv: "\<forall>l \<in> set (in_levels p). lv_level l \<le> 7"
    proof
      fix l assume "l \<in> set (in_levels p)"
      then have "lv_level l < in_depth p" using validPlan_levels(2) [OF v] by blast
      moreover have "in_depth p \<le> 8" using v by (simp add: validPlan_def)
      ultimately show "lv_level l \<le> 7" by simp
    qed
    have "0 \<in> lv_level ` set (in_levels p)"
      using validPlan_levels(2) [OF v] v by (simp add: validPlan_def)
    then show "planBaseIssues p @ planRefineIssues p = []"
      using v lv validPlan_levels(1) [OF v]
      by (auto simp: planBaseIssues_Nil planRefineIssues_Nil validPlan_def)
  qed
  then show ?thesis by (auto simp: commissionPlanSchema_def Let_def)
qed

end
