(* ===== verification/JsDate.thy ===== *)
theory JsDate
  imports Earn_Prelude
begin

text \<open>
  The part of JavaScript's \<open>Date\<close> the code uses beyond the instant itself: \<open>toISOString\<close> and the
  test that a stored string is the \<open>toISOString\<close> text of some date.  Calendar dates are computed
  with the proleptic Gregorian day count over 400-year eras, and the round trip text-instant-text
  is proved, so a compliance snapshot can be compared after it went through jsonb.
\<close>

section \<open>Digits of a fixed width\<close>

fun digitsW :: "nat \<Rightarrow> nat \<Rightarrow> string" where
  "digitsW 0 n = []"
| "digitsW (Suc w) n = digitsW w (n div 10) @ [char_of (48 + n mod 10)]"

definition digitVal :: "char \<Rightarrow> nat option" where
  "digitVal c = (let v = of_char c :: nat in if 48 \<le> v \<and> v \<le> 57 then Some (v - 48) else None)"

fun readDigits :: "nat \<Rightarrow> string \<Rightarrow> nat option" where
  "readDigits acc [] = Some acc"
| "readDigits acc (c # cs) = (case digitVal c of None \<Rightarrow> None | Some d \<Rightarrow> readDigits (10 * acc + d) cs)"

lemma length_digitsW [simp]: "length (digitsW w n) = w"
  by (induction w arbitrary: n) auto

lemma digitVal_digit [simp]: "d < 10 \<Longrightarrow> digitVal (char_of (48 + d)) = Some d"
  by (auto simp: digitVal_def Let_def)

lemma readDigits_append:
  "readDigits acc (xs @ ys) = (case readDigits acc xs of None \<Rightarrow> None | Some a \<Rightarrow> readDigits a ys)"
  by (induction xs arbitrary: acc) (auto split: option.split)

lemma readDigits_digitsW: "n < 10 ^ w \<Longrightarrow> readDigits 0 (digitsW w n) = Some n"
proof (induction w arbitrary: n)
  case 0
  then show ?case by simp
next
  case (Suc w)
  then have "n div 10 < 10 ^ w" by (simp add: less_mult_imp_div_less mult.commute)
  then show ?case using Suc.IH by (simp add: readDigits_append)
qed

section \<open>Calendar\<close>

text \<open>Days since 1970-01-01 of a civil date, and back; \<open>div\<close> and \<open>mod\<close> floor, as \<open>Day(t)\<close> does.\<close>

definition daysOfCivil :: "int \<Rightarrow> int \<Rightarrow> int \<Rightarrow> int" where
  "daysOfCivil y m d =
     (let y' = (if m \<le> 2 then y - 1 else y);
          era = y' div 400;
          yoe = y' mod 400;
          mp = (if m > 2 then m - 3 else m + 9);
          doy = (153 * mp + 2) div 5 + d - 1;
          doe = yoe * 365 + yoe div 4 - yoe div 100 + doy
      in era * 146097 + doe - 719468)"

definition civilOfDays :: "int \<Rightarrow> int \<times> int \<times> int" where
  "civilOfDays days =
     (let z = days + 719468;
          era = z div 146097;
          r = z mod 146097;
          n100 = min (r div 36524) 3;
          r2 = r - 36524 * n100;
          n4 = r2 div 1461;
          r3 = r2 mod 1461;
          n1 = min (r3 div 365) 3;
          yoe = 100 * n100 + 4 * n4 + n1;
          doy = r3 - 365 * n1;
          mp = (5 * doy + 2) div 153;
          d = doy - (153 * mp + 2) div 5 + 1;
          m = (if mp < 10 then mp + 3 else mp - 9);
          y = yoe + era * 400 + (if m \<le> 2 then 1 else 0)
      in (y, m, d))"

lemma n100_bounds:
  fixes r :: int
  assumes "0 \<le> r" "r < 146097"
  shows "0 \<le> min (r div 36524) 3" "min (r div 36524) 3 \<le> 3"
    "0 \<le> r - 36524 * min (r div 36524) 3" "r - 36524 * min (r div 36524) 3 < 36525"
    "min (r div 36524) 3 < 3 \<Longrightarrow> r - 36524 * min (r div 36524) 3 < 36524"
  using assms by (auto simp: min_def)

lemma n1_bounds:
  fixes r :: int
  assumes "0 \<le> r" "r < 1461"
  shows "0 \<le> min (r div 365) 3" "min (r div 365) 3 \<le> 3"
    "0 \<le> r - 365 * min (r div 365) 3" "r - 365 * min (r div 365) 3 \<le> 365"
  using assms by (auto simp: min_def)

lemma yoe_days:
  fixes a b c :: int
  assumes "0 \<le> a" "a \<le> 3" "0 \<le> b" "b \<le> 24" "0 \<le> c" "c \<le> 3"
  shows "(100 * a + 4 * b + c) * 365 + (100 * a + 4 * b + c) div 4 - (100 * a + 4 * b + c) div 100 =
         36524 * a + 1461 * b + 365 * c"
proof -
  have "(100 * a + 4 * b + c) div 4 = 25 * a + b"
    using assms by (intro int_div_pos_eq [where r = c]) auto
  moreover have "(100 * a + 4 * b + c) div 100 = a"
    using assms by (intro int_div_pos_eq [where r = "4 * b + c"]) auto
  ultimately show ?thesis by simp
qed

text \<open>A day of a March-based year, split into month and day of month.\<close>

lemma doy_month:
  fixes doy :: int
  assumes "0 \<le> doy" "doy \<le> 365"
  defines "mp \<equiv> (5 * doy + 2) div 153"
  shows "0 \<le> mp" "mp \<le> 11" "1 \<le> doy - (153 * mp + 2) div 5 + 1" "doy - (153 * mp + 2) div 5 + 1 \<le> 31"
proof -
  show "0 \<le> mp" "mp \<le> 11" using assms(1,2) by (auto simp: mp_def)
  define q u v where "q = (153 * mp + 2) div 5" and "u = (5 * doy + 2) mod 153" and "v = (153 * mp + 2) mod 5"
  have "153 * mp + u = 5 * doy + 2" "0 \<le> u" "u < 153"
    using mult_div_mod_eq [of 153 "5 * doy + 2"] by (simp_all add: mp_def u_def)
  moreover have "5 * q + v = 153 * mp + 2" "0 \<le> v" "v < 5"
    using mult_div_mod_eq [of 5 "153 * mp + 2"] by (simp_all add: q_def v_def)
  ultimately show "1 \<le> doy - (153 * mp + 2) div 5 + 1" "doy - (153 * mp + 2) div 5 + 1 \<le> 31"
    unfolding q_def [symmetric] by linarith+
qed

lemma civil_parts:
  assumes "civilOfDays days = (y, m, d)"
  shows "daysOfCivil y m d = days" "1 \<le> m" "m \<le> 12" "1 \<le> d" "d \<le> 31"
proof -
  define era r where "era = (days + 719468) div 146097" and "r = (days + 719468) mod 146097"
  define a where "a = min (r div 36524) 3"
  define b r3 where "b = (r - 36524 * a) div 1461" and "r3 = (r - 36524 * a) mod 1461"
  define c where "c = min (r3 div 365) 3"
  define doy where "doy = r3 - 365 * c"
  define mp where "mp = (5 * doy + 2) div 153"
  have r: "0 \<le> r" "r < 146097" by (simp_all add: r_def)
  note a = n100_bounds [OF r, folded a_def]
  have b: "0 \<le> b" "b \<le> 24" using a(3,4) by (auto simp: b_def)
  have r3: "0 \<le> r3" "r3 < 1461" by (simp_all add: r3_def)
  note c = n1_bounds [OF r3, folded c_def]
  note mp = doy_month [OF c(3,4), folded doy_def, folded mp_def]
  define yoe where "yoe = 100 * a + 4 * b + c"
  have yoe: "0 \<le> yoe" "yoe < 400" using a(1,2) b c(1,2) by (auto simp: yoe_def)
  have split_r: "36524 * a + 1461 * b + 365 * c + doy = r"
    using div_mult_mod_eq [of "r - 36524 * a" 1461] by (simp add: doy_def r3_def b_def)
  have parts: "d = doy - (153 * mp + 2) div 5 + 1" "m = (if mp < 10 then mp + 3 else mp - 9)"
    "y = yoe + era * 400 + (if m \<le> 2 then 1 else 0)"
    using assms [unfolded civilOfDays_def Let_def, folded era_def r_def, folded a_def,
      folded b_def r3_def, folded c_def, folded doy_def yoe_def, folded mp_def]
    unfolding prod.inject by blast+
  have m2: "m \<le> 2 \<longleftrightarrow> 10 \<le> mp" using parts(2) mp(1,2) by auto
  show "1 \<le> m" "m \<le> 12" "1 \<le> d" "d \<le> 31" using parts mp by auto
  have y': "(if m \<le> 2 then y - 1 else y) = yoe + era * 400" using parts(3) by auto
  have mp': "(if m > 2 then m - 3 else m + 9) = mp" using parts(2) m2 by auto
  have "daysOfCivil y m d = era * 146097 + (yoe * 365 + yoe div 4 - yoe div 100 + ((153 * mp + 2) div 5 + d - 1)) - 719468"
    unfolding daysOfCivil_def Let_def y' mp' using yoe by simp
  also have "yoe * 365 + yoe div 4 - yoe div 100 = 36524 * a + 1461 * b + 365 * c"
    unfolding yoe_def by (rule yoe_days) (use a b c in auto)
  also have "(153 * mp + 2) div 5 + d - 1 = doy" using parts(1) by simp
  finally have "daysOfCivil y m d = era * 146097 + r - 719468" using split_r by simp
  then show "daysOfCivil y m d = days"
    using div_mult_mod_eq [of "days + 719468" 146097] by (simp add: era_def r_def)
qed

section \<open>ISO 8601 text\<close>

text \<open>
  \<open>toISOString\<close>: four-digit years from 0 to 9999, otherwise a sign and six digits.  A \<open>Date\<close> holds
  at most \<open>8.64e15\<close> milliseconds on either side of the epoch, hence years up to 275760.
\<close>

definition maxTime :: int where
  "maxTime = 8640000000000000"

definition isoYear :: "int \<Rightarrow> string" where
  "isoYear y = (if 0 \<le> y \<and> y \<le> 9999 then digitsW 4 (nat y)
                else if y < 0 then CHR ''-'' # digitsW 6 (nat (- y)) else CHR ''+'' # digitsW 6 (nat y))"

definition isoString :: "time \<Rightarrow> string" where
  "isoString t =
     (let (y, m, d) = civilOfDays (t div 86400000);
          ms = nat (t mod 86400000)
      in isoYear y @ ''-'' @ digitsW 2 (nat m) @ ''-'' @ digitsW 2 (nat d) @ ''T'' @
         digitsW 2 (ms div 3600000) @ '':'' @ digitsW 2 (ms div 60000 mod 60) @ '':'' @
         digitsW 2 (ms div 1000 mod 60) @ ''.'' @ digitsW 3 (ms mod 1000) @ ''Z'')"

definition isoField :: "nat \<Rightarrow> nat \<Rightarrow> string \<Rightarrow> int option" where
  "isoField i w v = map_option int (readDigits 0 (take w (drop i v)))"

definition parseIsoYear :: "string \<Rightarrow> (int \<times> string) option" where
  "parseIsoYear v = (case v of [] \<Rightarrow> None
     | c # cs \<Rightarrow>
        if c = CHR ''-'' then map_option (\<lambda>y. (- y, drop 6 cs)) (isoField 0 6 cs)
        else if c = CHR ''+'' then map_option (\<lambda>y. (y, drop 6 cs)) (isoField 0 6 cs)
        else map_option (\<lambda>y. (y, drop 4 v)) (isoField 0 4 v))"

text \<open>The instant a text in that format denotes; separators are judged by \<open>isCanonicalIso\<close>.\<close>

definition parseIso :: "string \<Rightarrow> time option" where
  "parseIso v =
     Option.bind (parseIsoYear v) (\<lambda>(y, r).
     Option.bind (isoField 1 2 r) (\<lambda>m. Option.bind (isoField 4 2 r) (\<lambda>d.
     Option.bind (isoField 7 2 r) (\<lambda>h. Option.bind (isoField 10 2 r) (\<lambda>mi.
     Option.bind (isoField 13 2 r) (\<lambda>sec. Option.bind (isoField 16 3 r) (\<lambda>ms.
       Some (daysOfCivil y m d * 86400000 + h * 3600000 + mi * 60000 + sec * 1000 + ms))))))))"

definition isCanonicalIso :: "string \<Rightarrow> bool" where
  "isCanonicalIso v = (case parseIso v of None \<Rightarrow> False | Some t \<Rightarrow> \<bar>t\<bar> \<le> maxTime \<and> isoString t = v)"

section \<open>Round trip\<close>

lemma readDigits_prefix [simp]:
  "n < 10 ^ w \<Longrightarrow> readDigits 0 (take w (digitsW w n @ r)) = Some n"
  by (simp add: readDigits_digitsW)

lemma isoField_0: "n < 10 ^ w \<Longrightarrow> isoField 0 w (digitsW w n @ r) = Some (int n)"
  by (simp add: isoField_def readDigits_digitsW)

lemma isoField_at: "length p = i \<Longrightarrow> n < 10 ^ w \<Longrightarrow> isoField i w (p @ digitsW w n @ r) = Some (int n)"
  by (auto simp: isoField_def readDigits_digitsW)

lemma digitsW_Cons:
  "0 < w \<Longrightarrow> \<exists>c cs. digitsW w n = c # cs \<and> c \<noteq> CHR ''-'' \<and> c \<noteq> CHR ''+''"
proof (induction w arbitrary: n)
  case (Suc w)
  show ?case
  proof (cases "w = 0")
    case True
    have "n mod 10 < 10" by simp
    then have "digitVal (char_of (48 + n mod 10)) \<noteq> None" by simp
    moreover have "digitVal (CHR ''-'') = None" "digitVal (CHR ''+'') = None" by (simp_all add: digitVal_def)
    ultimately have "char_of (48 + n mod 10) \<noteq> CHR ''-''" "char_of (48 + n mod 10) \<noteq> CHR ''+''" by metis+
    then show ?thesis using True by simp
  next
    case False
    then obtain c cs where "digitsW w (n div 10) = c # cs" "c \<noteq> CHR ''-''" "c \<noteq> CHR ''+''"
      using Suc.IH by blast
    then show ?thesis by simp
  qed
qed simp

lemma parseIsoYear_isoYear:
  assumes "\<bar>y\<bar> < 1000000"
  shows "parseIsoYear (isoYear y @ r) = Some (y, r)"
proof -
  consider (four) "0 \<le> y \<and> y \<le> 9999" | (neg) "y < 0" | (big) "9999 < y" by linarith
  then show ?thesis
  proof cases
    case four
    obtain c cs where c: "digitsW 4 (nat y) = c # cs" "c \<noteq> CHR ''-''" "c \<noteq> CHR ''+''"
      using digitsW_Cons [of 4 "nat y"] by auto
    have "isoField 0 4 (digitsW 4 (nat y) @ r) = Some y" using isoField_0 [of "nat y" 4 r] four by (simp add: nat_less_iff)
    moreover have "drop 4 (digitsW 4 (nat y) @ r) = r" by simp
    ultimately show ?thesis using four c by (simp add: isoYear_def parseIsoYear_def)
  next
    case neg
    have "isoField 0 6 (digitsW 6 (nat (- y)) @ r) = Some (- y)"
      using isoField_0 [of "nat (- y)" 6 r] neg assms by (simp add: nat_less_iff)
    then show ?thesis using neg by (simp add: isoYear_def parseIsoYear_def)
  next
    case big
    have "isoField 0 6 (digitsW 6 (nat y) @ r) = Some y"
      using isoField_0 [of "nat y" 6 r] big assms by (simp add: nat_less_iff)
    then show ?thesis using big by (simp add: isoYear_def parseIsoYear_def)
  qed
qed

lemma civil_year_bound:
  assumes "civilOfDays days = (y, m, d)" "\<bar>days\<bar> \<le> 100000000"
  shows "\<bar>y\<bar> < 1000000"
proof -
  define y' where "y' = (if m \<le> 2 then y - 1 else y)"
  define mp where "mp = (if m > 2 then m - 3 else m + 9)"
  note p = civil_parts [OF assms(1)]
  have mp: "0 \<le> mp" "mp \<le> 11" using p(2,3) by (auto simp: mp_def)
  define e f where "e = y' div 400" and "f = y' mod 400"
  define q c g where "q = f div 4" and "c = f div 100" and "g = (153 * mp + 2) div 5"
  have eq: "days = e * 146097 + (f * 365 + q - c + (g + d - 1)) - 719468"
    using p(1) by (simp add: daysOfCivil_def Let_def y'_def mp_def e_def f_def q_def c_def g_def)
  have y': "y' = 400 * e + f" "0 \<le> f" "f < 400" by (simp_all add: e_def f_def)
  have "0 \<le> g" "g \<le> 400" using mp by (auto simp: g_def)
  moreover have "0 \<le> q" "q \<le> 100" "0 \<le> c" "c \<le> 4" using y'(2,3) by (auto simp: q_def c_def)
  ultimately have "\<bar>y'\<bar> < 999999" using assms(2) p(4,5) y' eq by linarith
  then show ?thesis by (auto simp: y'_def split: if_splits)
qed

lemma clock_split:
  fixes ms :: nat
  shows "ms div 3600000 * 3600000 + ms div 60000 mod 60 * 60000 + ms div 1000 mod 60 * 1000 + ms mod 1000 = ms"
proof -
  have "ms div 3600000 = ms div 60000 div 60" "ms div 60000 = ms div 1000 div 60"
    by (simp_all add: div_mult2_eq [symmetric])
  then show ?thesis
    using div_mult_mod_eq [of ms 1000] div_mult_mod_eq [of "ms div 1000" 60] div_mult_mod_eq [of "ms div 60000" 60]
    by linarith
qed

theorem parseIso_isoString:
  assumes "\<bar>t\<bar> \<le> maxTime"
  shows "parseIso (isoString t) = Some t"
proof -
  obtain y m d where civ: "civilOfDays (t div 86400000) = (y, m, d)" by (cases "civilOfDays (t div 86400000)")
  have days: "\<bar>t div 86400000\<bar> \<le> 100000000" using assms unfolding maxTime_def by linarith
  note p = civil_parts [OF civ] and y = civil_year_bound [OF civ days]
  define ms where "ms = nat (t mod 86400000)"
  have ms: "ms < 86400000" by (simp add: ms_def nat_less_iff)
  have b: "nat m < 10\<^sup>2" "nat d < 10\<^sup>2" "ms div 3600000 < 10\<^sup>2" "ms div 60000 mod 60 < 10\<^sup>2"
    "ms div 1000 mod 60 < 10\<^sup>2" "ms mod 1000 < 10 ^ 3"
  proof -
    show "nat m < 10\<^sup>2" "nat d < 10\<^sup>2" "ms div 3600000 < 10\<^sup>2" using p ms by auto
    have "ms div 60000 mod 60 < 60" "ms div 1000 mod 60 < 60" by simp_all
    then show "ms div 60000 mod 60 < 10\<^sup>2" "ms div 1000 mod 60 < 10\<^sup>2"
      by (simp_all add: order_less_trans)
  qed simp
  define r where "r = ''-'' @ digitsW 2 (nat m) @ ''-'' @ digitsW 2 (nat d) @ ''T'' @
         digitsW 2 (ms div 3600000) @ '':'' @ digitsW 2 (ms div 60000 mod 60) @ '':'' @
         digitsW 2 (ms div 1000 mod 60) @ ''.'' @ digitsW 3 (ms mod 1000) @ ''Z''"
  have iso: "isoString t = isoYear y @ r" by (simp add: isoString_def civ r_def ms_def Let_def)
  note rd = b [THEN readDigits_digitsW]
  have "isoField 1 2 r = Some (int (nat m))" "isoField 4 2 r = Some (int (nat d))"
    "isoField 7 2 r = Some (int (ms div 3600000))" "isoField 10 2 r = Some (int (ms div 60000 mod 60))"
    "isoField 13 2 r = Some (int (ms div 1000 mod 60))" "isoField 16 3 r = Some (int (ms mod 1000))"
    by (simp_all add: r_def isoField_def rd del: int_nat_eq)
  moreover have "int (nat m) = m" "int (nat d) = d" using p by simp_all
  moreover have "int (ms div 3600000) * 3600000 + int (ms div 60000 mod 60) * 60000 + int (ms div 1000 mod 60) * 1000
    + int (ms mod 1000) = t mod 86400000" (is "?clock = _")
    using arg_cong [OF clock_split [of ms], of int] by (simp add: ms_def)
  moreover have "daysOfCivil y m d * 86400000 + t mod 86400000 = t" using p(1) by simp
  ultimately show ?thesis
    by (simp add: iso parseIso_def parseIsoYear_isoYear [OF y] del: int_nat_eq)
qed

lemma isCanonicalIso_isoString [simp]: "\<bar>t\<bar> \<le> maxTime \<Longrightarrow> isCanonicalIso (isoString t)"
  by (simp add: isCanonicalIso_def parseIso_isoString)

text \<open>A canonical text is the text of exactly one date.\<close>

lemma isCanonicalIso_iff: "isCanonicalIso v \<longleftrightarrow> (\<exists>t. \<bar>t\<bar> \<le> maxTime \<and> v = isoString t)"
  by (auto simp: isCanonicalIso_def parseIso_isoString split: option.splits)

lemma isoString_inj: "\<bar>t\<bar> \<le> maxTime \<Longrightarrow> \<bar>u\<bar> \<le> maxTime \<Longrightarrow> isoString t = isoString u \<Longrightarrow> t = u"
  by (metis option.inject parseIso_isoString)

end
