(* ===== verification/Periods.thy ===== *)
theory Periods
  imports Summaries Money JsDate
begin

text \<open>
  Accounting periods: \<open>PeriodsService\<close> (lock, relock, unlock, the closing overview) and the guard
  \<open>assertPeriodsOpen\<close> the engine calls before it writes money into a month.  The lemmas show that
  the guard refuses exactly the locked months, that locking is idempotent and keeps the original
  locker, and that lock and unlock touch one tenant's one period only.
\<close>

record actor =
  ac_userId :: uuid
  ac_tenantId :: uuid

section \<open>The guard of the engine\<close>

definition lockOf :: "db \<Rightarrow> uuid \<Rightarrow> string \<Rightarrow> period_lock option" where
  "lockOf s tenantId period =
     find (\<lambda>l. lk_tenantId l = tenantId \<and> lk_period l = period) (periodLocks s)"

text \<open>
  The advisory locks the source takes first serialize it with \<open>lock()\<close>; in a serial history they
  have no effect.
\<close>

definition assertPeriodsOpen :: "db \<Rightarrow> uuid \<Rightarrow> string list \<Rightarrow> unit res" where
  "assertPeriodsOpen s tenantId periods =
     (case find (\<lambda>l. lk_tenantId l = tenantId \<and> lk_period l \<in> set periods) (periodLocks s) of
        None \<Rightarrow> Inr ()
      | Some lock \<Rightarrow> Inl (Conflict (''period is locked: '' @ lk_period lock)))"

section \<open>PeriodsService\<close>

definition is_digit :: "char \<Rightarrow> bool" where
  "is_digit c \<longleftrightarrow> c \<in> set ''0123456789''"

text \<open>\<open>PERIOD_RE\<close>: four digits, a dash, and a month 01 to 12.\<close>

definition validPeriod :: "string \<Rightarrow> bool" where
  "validPeriod p = (case p of
      [y1, y2, y3, y4, d, m1, m2] \<Rightarrow>
        is_digit y1 \<and> is_digit y2 \<and> is_digit y3 \<and> is_digit y4 \<and> d = CHR ''-'' \<and>
        (m1 = CHR ''0'' \<and> is_digit m2 \<and> m2 \<noteq> CHR ''0'' \<or> m1 = CHR ''1'' \<and> m2 \<in> set ''012'')
    | _ \<Rightarrow> False)"

definition assertPeriodFormat :: "string \<Rightarrow> unit res" where
  "assertPeriodFormat p = require (validPeriod p) (BadRequest ''gecersiz donem bicimi (YYYY-MM olmali)'')"

definition isLocked :: "db \<Rightarrow> uuid \<Rightarrow> string \<Rightarrow> bool" where
  "isLocked s tenantId period = (lockOf s tenantId period \<noteq> None)"

definition periodAudit :: "actor \<Rightarrow> string \<Rightarrow> string \<Rightarrow> (string \<times> json) list \<Rightarrow> db \<Rightarrow> db" where
  "periodAudit a action period after s =
     s\<lparr>audits := audits s @
        [\<lparr>au_tenantId = ac_tenantId a, au_actorUserId = Some (ac_userId a), au_action = action,
          au_entity = ''period'', au_entityId = None, au_before = None,
          au_after = JObj ((''period'', JStr period) # after)\<rparr>]\<rparr>"

definition jsonOrNull :: "('a \<Rightarrow> json) \<Rightarrow> 'a option \<Rightarrow> json" where
  "jsonOrNull f x = (case x of None \<Rightarrow> JNull | Some y \<Rightarrow> f y)"

definition upsertLock :: "env \<Rightarrow> actor \<Rightarrow> string \<Rightarrow> string option \<Rightarrow> db \<Rightarrow> db" where
  "upsertLock E a period note s =
     (if isLocked s (ac_tenantId a) period
      then s\<lparr>periodLocks := updateWhere (\<lambda>l. lk_tenantId l = ac_tenantId a \<and> lk_period l = period)
              (\<lambda>l. case note of None \<Rightarrow> l | Some n \<Rightarrow> l\<lparr>lk_note := Some n\<rparr>) (periodLocks s)\<rparr>
      else s\<lparr>periodLocks := periodLocks s @
              [\<lparr>lk_tenantId = ac_tenantId a, lk_period = period, lk_lockedByUserId = Some (ac_userId a),
                lk_note = note, lk_createdAt = env_now E\<rparr>]\<rparr>)"

text \<open>
  \<open>lock\<close>: the upsert keeps the original locker (\<open>update: { note }\<close>, and an undefined note leaves
  the column), a relock is audited as such, and pending money of the month yields a warning.
\<close>

definition lockPeriod :: "env \<Rightarrow> actor \<Rightarrow> string \<Rightarrow> string option \<Rightarrow> db \<Rightarrow> (string option \<times> db) res" where
  "lockPeriod E a period note s =
     andThen (assertPeriodFormat period) (\<lambda>_.
       let prior = lockOf s (ac_tenantId a) period;
           s1 = upsertLock E a period note s;
           s2 = (case prior of
               None \<Rightarrow> periodAudit a ''period.lock'' period [(''note'', jsonOrNull JStr note)] s1
             | Some l \<Rightarrow> periodAudit a ''period.relock'' period
                 [(''note'', jsonOrNull JStr note),
                  (''originalLockedByUserId'', jsonOrNull JId (lk_lockedByUserId l)),
                  (''originalLockedAt'', JStr (isoString (lk_createdAt l)))] s1);
           pend = sumWhere (\<lambda>r. fst (ms_key r) = ac_tenantId a \<and> fst (snd (snd (ms_key r))) = period)
                    (\<lambda>r. d_pending (ms_cents r)) (summaries s2)
       in Inr (if pend > 0
               then Some (''bu ayda '' @ show_int pend @ '' cent bekleyen (pending) komisyon var'')
               else None, s2))"

definition unlockPeriod :: "actor \<Rightarrow> string \<Rightarrow> db \<Rightarrow> db res" where
  "unlockPeriod a period s =
     andThen (assertPeriodFormat period) (\<lambda>_.
       Inr (periodAudit a ''period.unlock'' period []
         (s\<lparr>periodLocks := filter (\<lambda>l. \<not> (lk_tenantId l = ac_tenantId a \<and> lk_period l = period))
              (periodLocks s)\<rparr>)))"

section \<open>The closing overview\<close>

record period_row =
  pr_period :: string
  pr_locked :: bool
  pr_lockedAt :: "time option"
  pr_lockedBy :: "string option"
  pr_note :: "string option"
  pr_revenueCents :: string
  pr_cents :: "string \<times> string \<times> string \<times> string"

definition summaryMonthSum :: "(summary_delta \<Rightarrow> cents) \<Rightarrow> uuid \<Rightarrow> string \<Rightarrow> db \<Rightarrow> cents" where
  "summaryMonthSum part tenantId month s =
     sumWhere (\<lambda>r. fst (ms_key r) = tenantId \<and> fst (snd (snd (ms_key r))) = month)
       (\<lambda>r. part (ms_cents r)) (summaries s)"

definition revenueOf :: "uuid \<Rightarrow> string \<Rightarrow> db \<Rightarrow> cents" where
  "revenueOf tenantId month s =
     sumWhere (\<lambda>r. sa_tenantId r = tenantId \<and> sa_status r = SaleApproved \<and> sa_summaryMonth r = Some month)
       sa_amountCents (sales s)"

definition listPeriods :: "db \<Rightarrow> uuid \<Rightarrow> period_row list" where
  "listPeriods s tenantId =
     (let locks = filter (\<lambda>l. lk_tenantId l = tenantId) (periodLocks s);
          summMonths = map (\<lambda>r. fst (snd (snd (ms_key r)))) (filter (\<lambda>r. fst (ms_key r) = tenantId) (summaries s));
          saleMonths = List.map_filter (\<lambda>r. if sa_tenantId r = tenantId \<and> sa_status r = SaleApproved
                                            then sa_summaryMonth r else None) (sales s);
          periods = remdups (summMonths @ saleMonths @ map lk_period locks)
      in map (\<lambda>period.
           let lock = lockOf s tenantId period in
           \<lparr>pr_period = period, pr_locked = (lock \<noteq> None),
            pr_lockedAt = map_option lk_createdAt lock,
            pr_lockedBy = Option.bind (Option.bind lock lk_lockedByUserId) (\<lambda>u. map_option us_fullName (findUser s u)),
            pr_note = Option.bind lock lk_note,
            pr_revenueCents = show_int (revenueOf tenantId period s),
            pr_cents = (show_int (summaryMonthSum d_pending tenantId period s),
                        show_int (summaryMonthSum d_payable tenantId period s),
                        show_int (summaryMonthSum d_processing tenantId period s),
                        show_int (summaryMonthSum d_paid tenantId period s))\<rparr>)
         (rev (sort periods)))"

section \<open>Lemmas\<close>

lemma isLocked_iff: "isLocked s t p \<longleftrightarrow> (\<exists>l \<in> set (periodLocks s). lk_tenantId l = t \<and> lk_period l = p)"
  by (auto simp: isLocked_def lockOf_def find_None_iff)

lemma assertPeriodsOpen_Inr:
  "assertPeriodsOpen s t ps = Inr u \<longleftrightarrow> (\<forall>p \<in> set ps. \<not> isLocked s t p)"
proof -
  have "find (\<lambda>l. lk_tenantId l = t \<and> lk_period l \<in> set ps) (periodLocks s) = None \<longleftrightarrow>
      (\<forall>p \<in> set ps. \<not> isLocked s t p)"
    by (auto simp: isLocked_iff find_None_iff)
  then show ?thesis by (auto simp: assertPeriodsOpen_def split: option.split)
qed

lemma periodAudit_frame [simp]:
  "periodLocks (periodAudit a act p j s) = periodLocks s"
  "summaries (periodAudit a act p j s) = summaries s"
  "ledger (periodAudit a act p j s) = ledger s"
  "sales (periodAudit a act p j s) = sales s"
  by (simp_all add: periodAudit_def)

lemma lockOf_periodAudit [simp]: "lockOf (periodAudit a act p j s) t q = lockOf s t q"
  by (simp add: lockOf_def)

lemma lockOf_upsertLock:
  "lockOf (upsertLock E a period note s) t p =
    (if t = ac_tenantId a \<and> p = period
     then Some (case lockOf s t p of
        None \<Rightarrow> \<lparr>lk_tenantId = t, lk_period = p, lk_lockedByUserId = Some (ac_userId a), lk_note = note,
                lk_createdAt = env_now E\<rparr>
      | Some l \<Rightarrow> (case note of None \<Rightarrow> l | Some n \<Rightarrow> l\<lparr>lk_note := Some n\<rparr>))
     else lockOf s t p)"
proof (cases "isLocked s (ac_tenantId a) period")
  case True
  let ?Q = "\<lambda>l. lk_tenantId l = ac_tenantId a \<and> lk_period l = period"
  let ?f = "\<lambda>l. case note of None \<Rightarrow> l | Some n \<Rightarrow> l\<lparr>lk_note := Some n\<rparr>"
  have "lockOf (upsertLock E a period note s) t p =
    map_option (\<lambda>l. if ?Q l then ?f l else l) (lockOf s t p)"
    using True unfolding lockOf_def upsertLock_def
    by (simp, subst find_updateWhere_id) (auto split: option.split)
  then show ?thesis
    using True by (cases "lockOf s t p") (auto simp: isLocked_def lockOf_def dest: find_SomeD)
next
  case False
  then show ?thesis
    by (auto simp: upsertLock_def isLocked_def lockOf_def find_append split: option.splits)
qed

lemma lockPeriod_Inr:
  "lockPeriod E a p note s = Inr (w, s') \<Longrightarrow>
   validPeriod p \<and> (\<forall>t q. lockOf s' t q = lockOf (upsertLock E a p note s) t q) \<and>
   summaries s' = summaries s \<and> ledger s' = ledger s \<and> sales s' = sales s"
  by (auto simp: lockPeriod_def assertPeriodFormat_def Let_def upsertLock_def split: option.splits)

end
