(* ===== verification/Plans.thy ===== *)
theory Plans
  imports Periods
begin

text \<open>
  \<open>PlansService\<close>: which plan version is active at an instant, the simulator, and the creation of
  immutable versions under the tenant's advisory lock, with the unique indexes and the triggers of
  the migrations that guard \<open>commission_plans\<close>.  A Prisma error carries the violated target, as
  the conflict test of the source reads it.
\<close>

section \<open>Selecting a version\<close>

definition effectiveOrder :: "commission_plan \<Rightarrow> int \<times> int" where
  "effectiveOrder p = (- pl_effectiveFrom p, - int (pl_version p))"

definition activePlan :: "uuid \<Rightarrow> time \<Rightarrow> db \<Rightarrow> commission_plan option" where
  "activePlan tenantId at s =
     findFirstBy effectiveOrder (\<lambda>p. pl_tenantId p = tenantId \<and> pl_finalized p \<and> pl_effectiveFrom p \<le> at) (plans s)"

text \<open>\<open>include: { levels: { orderBy: { level: 'asc' } } }\<close>.\<close>

definition planLevels :: "commission_plan \<Rightarrow> plan_level_rate list" where
  "planLevels p = map (\<lambda>l. \<lparr>lv_level = pv_level l, lv_rateBps = pv_rateBps l\<rparr>) (sort_key pv_level (pl_levels p))"

record member_plan =
  mp_name :: string
  mp_poolRateBps :: int
  mp_depth :: nat
  mp_levels :: "plan_level_rate list"

definition memberPlan :: "env \<Rightarrow> uuid \<Rightarrow> db \<Rightarrow> member_plan option" where
  "memberPlan E tenantId s = (case activePlan tenantId (env_now E) s of
      None \<Rightarrow> None
    | Some p \<Rightarrow> Some \<lparr>mp_name = pl_name p, mp_poolRateBps = pl_poolRateBps p, mp_depth = pl_depth p,
        mp_levels = planLevels p\<rparr>)"

definition listOrder :: "commission_plan \<Rightarrow> int \<times> int" where
  "listOrder p = (- pl_effectiveFrom p, - pl_createdAt p)"

text \<open>\<open>list\<close>: the finalized versions, newest first, each with its \<open>active\<close> flag.\<close>

definition listPlans :: "env \<Rightarrow> uuid \<Rightarrow> db \<Rightarrow> uuid option \<times> (commission_plan \<times> bool) list" where
  "listPlans E tenantId s =
     (let active = map_option pl_id (activePlan tenantId (env_now E) s)
      in (active,
          map (\<lambda>p. (p, Some (pl_id p) = active))
            (findManyBy listOrder (\<lambda>p. pl_tenantId p = tenantId \<and> pl_finalized p) (plans s))))"

record plan_bonus =
  pb_planId :: "uuid option"
  pb_planName :: "string option"
  pb_version :: "nat option"
  pb_fastStartBps :: int
  pb_fastStartDays :: int
  pb_matchingBps :: int

definition getPlanBonus :: "env \<Rightarrow> uuid \<Rightarrow> db \<Rightarrow> plan_bonus" where
  "getPlanBonus E tenantId s = (case activePlan tenantId (env_now E) s of
      None \<Rightarrow> \<lparr>pb_planId = None, pb_planName = None, pb_version = None, pb_fastStartBps = 0,
               pb_fastStartDays = 0, pb_matchingBps = 0\<rparr>
    | Some p \<Rightarrow> \<lparr>pb_planId = Some (pl_id p), pb_planName = Some (pl_name p), pb_version = Some (pl_version p),
        pb_fastStartBps = pl_fastStartBps p, pb_fastStartDays = pl_fastStartDays p,
        pb_matchingBps = pl_matchingBps p\<rparr>)"

section \<open>Simulator\<close>

record simulate_input =
  si_amountCents :: cents
  si_sellerMembershipId :: "uuid option"

record simulated_level =
  sl_level :: nat
  sl_rateBps :: int
  sl_amountCents :: cents
  sl_beneficiary :: "(string \<times> string) option"
  sl_retainedByCompany :: bool

record simulation =
  sm_planName :: string
  sm_poolRateBps :: int
  sm_depth :: nat
  sm_amountCents :: cents
  sm_levels :: "simulated_level list"
  sm_distributedCents :: cents
  sm_companyKeepsCents :: cents

text \<open>
  \<open>while (cur && chain.length < depth && guard++ < 64)\<close>: \<open>slots\<close> is what is left of the depth and
  \<open>guard\<close> what is left of the 64 rounds.
\<close>

fun sponsorWalk :: "db \<Rightarrow> nat \<Rightarrow> nat \<Rightarrow> membership option \<Rightarrow> membership list" where
  "sponsorWalk s slots guard None = []"
| "sponsorWalk s 0 guard (Some cur) = []"
| "sponsorWalk s (Suc slots) 0 (Some cur) = []"
| "sponsorWalk s (Suc slots) (Suc guard) (Some cur) =
     cur # sponsorWalk s slots guard
       (case mb_sponsorMembershipId cur of None \<Rightarrow> None | Some sp \<Rightarrow> findMembership s sp)"

text \<open>The joined user of a membership exists by its foreign key; the name of a missing one is not read.\<close>

definition memberLabel :: "db \<Rightarrow> membership \<Rightarrow> string \<times> string" where
  "memberLabel s m = ((case findUser s (mb_userId m) of None \<Rightarrow> '''' | Some u \<Rightarrow> us_fullName u), mb_referralCode m)"

definition simulate :: "env \<Rightarrow> uuid \<Rightarrow> simulate_input \<Rightarrow> db \<Rightarrow> simulation res" where
  "simulate E tenantId input s =
     andThen (from_option (BadRequest ''aktif komisyon plani yok'') (activePlan tenantId (env_now E) s)) (\<lambda>plan.
       let levels = planLevels plan;
           amount = si_amountCents input;
           walk = (case si_sellerMembershipId input of
               None \<Rightarrow> []
             | Some mid \<Rightarrow> sponsorWalk s (pl_depth plan) 64
                 (find (\<lambda>m. mb_id m = mid \<and> mb_tenantId m = tenantId) (memberships s)));
           chain = map (Some \<circ> mb_id) walk;
           noSeller = (si_sellerMembershipId input = None)
       in andThen (computeCommissionLines amount levels chain) (\<lambda>lines.
         let rows = map (\<lambda>l.
               let line = find (\<lambda>c. cl_level c = lv_level l) lines;
                   filled = (if lv_level l < length walk then Some (walk ! lv_level l) else None)
               in \<lparr>sl_level = lv_level l, sl_rateBps = lv_rateBps l,
                   sl_amountCents = (if noSeller then (amount * lv_rateBps l) div 10000
                                     else case line of None \<Rightarrow> 0 | Some c \<Rightarrow> cl_amountCents c),
                   sl_beneficiary = map_option (memberLabel s) filled,
                   sl_retainedByCompany = (\<not> noSeller \<and> filled = None)\<rparr>) levels;
             distributed = (if noSeller then foldl (\<lambda>a r. a + sl_amountCents r) 0 rows
                            else foldl (\<lambda>a c. a + cl_amountCents c) 0 lines)
         in Inr \<lparr>sm_planName = pl_name plan, sm_poolRateBps = pl_poolRateBps plan, sm_depth = pl_depth plan,
              sm_amountCents = amount, sm_levels = rows, sm_distributedCents = distributed,
              sm_companyKeepsCents = amount - distributed\<rparr>))"

section \<open>Creating a version\<close>

text \<open>A Prisma error: its code and the \<open>meta.target\<close> of a unique violation (a constraint name or fields).\<close>

datatype error_target = TargetName string | TargetFields "string list"

datatype plan_error = Thrown error | Prisma string "error_target option"

definition EFFECTIVE_FROM_UNIQUE_CONSTRAINT :: string where
  "EFFECTIVE_FROM_UNIQUE_CONSTRAINT = ''commission_plans_tenant_id_effective_from_key''"

fun isEffectiveFromUniqueConflict :: "plan_error \<Rightarrow> bool" where
  "isEffectiveFromUniqueConflict (Thrown e) = False"
| "isEffectiveFromUniqueConflict (Prisma code target) =
     (if code \<noteq> ''P2002'' then False
      else (case target of
          None \<Rightarrow> False
        | Some (TargetName n) \<Rightarrow> n = EFFECTIVE_FROM_UNIQUE_CONSTRAINT
        | Some (TargetFields fs) \<Rightarrow>
            ''tenant_id'' \<in> set fs \<and> ''effective_from'' \<in> set fs \<or>
            ''tenantId'' \<in> set fs \<and> ''effectiveFrom'' \<in> set fs))"

record plan_snapshot_input =
  ps_name :: string
  ps_poolRateBps :: int
  ps_depth :: nat
  ps_levels :: "plan_level_rate list"
  ps_fastStartBps :: int
  ps_fastStartDays :: int
  ps_matchingBps :: int

text \<open>The \<open>while\<close> loop over milliseconds; it ends because finitely many plans lie at or after \<open>c\<close>.\<close>

definition plansFrom :: "uuid \<Rightarrow> time \<Rightarrow> commission_plan list \<Rightarrow> nat" where
  "plansFrom tenantId c rows = countWhere (\<lambda>p. pl_tenantId p = tenantId \<and> c \<le> pl_effectiveFrom p) rows"

lemma plansFrom_step:
  "list_ex (\<lambda>p. pl_tenantId p = tenantId \<and> pl_effectiveFrom p = c) rows \<Longrightarrow>
   plansFrom tenantId (c + 1) rows < plansFrom tenantId c rows"
proof (induction rows)
  case (Cons r rs)
  have "plansFrom tenantId (c + 1) rs \<le> plansFrom tenantId c rs"
    by (induction rs) (auto simp: plansFrom_def)
  then show ?case using Cons by (auto simp: plansFrom_def)
qed simp

function nextImmediateEffectiveFrom :: "commission_plan list \<Rightarrow> uuid \<Rightarrow> time \<Rightarrow> time" where
  "nextImmediateEffectiveFrom rows tenantId c =
     (if list_ex (\<lambda>p. pl_tenantId p = tenantId \<and> pl_effectiveFrom p = c) rows
      then nextImmediateEffectiveFrom rows tenantId (c + 1) else c)"
  by auto

termination
  by (relation "measure (\<lambda>(rows, tid, c). plansFrom tid c rows)") (auto intro: plansFrom_step)

declare nextImmediateEffectiveFrom.simps [simp del]

definition maxVersion :: "uuid \<Rightarrow> commission_plan list \<Rightarrow> nat" where
  "maxVersion tenantId rows = fold (\<lambda>p m. if pl_tenantId p = tenantId then max m (pl_version p) else m) rows 0"

text \<open>
  \<open>commissionPlan.create\<close> with its nested levels: the row \<open>CHECK\<close>s (SQLSTATE 23514), the unique
  indexes over \<open>(tenant_id, effective_from)\<close>, \<open>(tenant_id, version)\<close> and \<open>(plan_id, level)\<close>.
\<close>

definition insertPlan ::
  "env \<Rightarrow> uuid \<Rightarrow> uuid \<Rightarrow> nat \<Rightarrow> time \<Rightarrow> plan_snapshot_input \<Rightarrow> db \<Rightarrow> plan_error + commission_plan \<times> db" where
  "insertPlan E tenantId userId version effectiveFrom d s =
     (let n = length (ps_levels d);
          row = \<lparr>pl_id = freshId s, pl_tenantId = tenantId, pl_version = version, pl_finalized = False,
            pl_name = ps_name d, pl_poolRateBps = ps_poolRateBps d, pl_depth = ps_depth d,
            pl_fastStartBps = ps_fastStartBps d, pl_fastStartDays = ps_fastStartDays d,
            pl_matchingBps = ps_matchingBps d, pl_effectiveFrom = effectiveFrom,
            pl_createdBy = Some userId, pl_createdAt = env_now E,
            pl_levels = map2 (\<lambda>l i. \<lparr>pv_id = uuidGen s (uuidNext s + 1 + i), pv_level = lv_level l,
                                     pv_rateBps = lv_rateBps l\<rparr>) (ps_levels d) [0..<n]\<rparr>
      in andThen (require (0 \<le> ps_poolRateBps d \<and> ps_poolRateBps d \<le> 10000 \<and> 1 \<le> ps_depth d \<and> ps_depth d \<le> 8 \<and>
              list_all (\<lambda>l. 0 \<le> lv_rateBps l \<and> lv_rateBps l \<le> 10000 \<and> lv_level l \<le> 7) (ps_levels d))
            (Prisma ''23514'' None)) (\<lambda>_.
         andThen (require (\<not> list_ex (\<lambda>p. pl_tenantId p = tenantId \<and> pl_effectiveFrom p = effectiveFrom) (plans s))
            (Prisma ''P2002'' (Some (TargetFields [''tenant_id'', ''effective_from''])))) (\<lambda>_.
         andThen (require (\<not> list_ex (\<lambda>p. pl_tenantId p = tenantId \<and> pl_version p = version) (plans s))
            (Prisma ''P2002'' (Some (TargetFields [''tenant_id'', ''version''])))) (\<lambda>_.
         andThen (require (distinct (map lv_level (ps_levels d)))
            (Prisma ''P2002'' (Some (TargetFields [''plan_id'', ''level''])))) (\<lambda>_.
         Inr (row, s\<lparr>uuidNext := uuidNext s + 1 + n, plans := plans s @ [row]\<rparr>))))))"

text \<open>
  \<open>UPDATE \<dots> SET finalized = TRUE\<close> under the trigger \<open>forbid_commission_plan_mutation\<close>: only the
  seal of an unfinalized row whose levels are exactly \<open>0..depth-1\<close> passes.
\<close>

definition levelsComplete :: "commission_plan \<Rightarrow> bool" where
  "levelsComplete p \<longleftrightarrow> length (pl_levels p) = pl_depth p \<and>
     list_all (\<lambda>k. k \<in> set (map pv_level (pl_levels p))) [0..<pl_depth p]"

definition finalizePlan :: "uuid \<Rightarrow> db \<Rightarrow> plan_error + db" where
  "finalizePlan pid s = (case find (\<lambda>p. pl_id p = pid) (plans s) of
      None \<Rightarrow> Inl (Prisma ''P2025'' None)
    | Some p \<Rightarrow>
        if pl_finalized p then Inl (Prisma ''55000'' None)
        else if \<not> levelsComplete p then Inl (Prisma ''23514'' None)
        else Inr (s\<lparr>plans := updateWhere (\<lambda>q. pl_id q = pid) (\<lambda>q. q\<lparr>pl_finalized := True\<rparr>) (plans s)\<rparr>))"

text \<open>The deferred constraint trigger \<open>check_plan_level_rates\<close>, run at commit.\<close>

definition checkPlanLevelRates :: "commission_plan \<Rightarrow> plan_error + unit" where
  "checkPlanLevelRates p =
     require (\<not> (pl_levels p \<noteq> [] \<and> (\<Sum>l\<leftarrow>pl_levels p. pv_rateBps l) > pl_poolRateBps p)) (Prisma ''P0001'' None)"

definition planAudit :: "actor \<Rightarrow> string \<Rightarrow> commission_plan \<Rightarrow> db \<Rightarrow> db" where
  "planAudit a action p s =
     s\<lparr>audits := audits s @
        [\<lparr>au_tenantId = ac_tenantId a, au_actorUserId = Some (ac_userId a), au_action = action,
          au_entity = ''commission_plan'', au_entityId = Some (pl_id p), au_before = None,
          au_after = JObj [(''version'', JNum (int (pl_version p))), (''name'', JStr (pl_name p)),
            (''poolRateBps'', JNum (pl_poolRateBps p)), (''depth'', JNum (int (pl_depth p))),
            (''fastStartBps'', JNum (pl_fastStartBps p)), (''fastStartDays'', JNum (pl_fastStartDays p)),
            (''matchingBps'', JNum (pl_matchingBps p)), (''effectiveFrom'', JStr (isoString (pl_effectiveFrom p))),
            (''levels'', JArr (map (\<lambda>l. JObj [(''level'', JNum (int (lv_level l))), (''rateBps'', JNum (lv_rateBps l))])
               (planLevels p)))]\<rparr>]\<rparr>"

definition createImmutableTx ::
  "env \<Rightarrow> actor \<Rightarrow> time option \<Rightarrow> (db \<Rightarrow> plan_error + plan_snapshot_input) \<Rightarrow> string \<Rightarrow> db \<Rightarrow>
   plan_error + commission_plan \<times> db" where
  "createImmutableTx E a requested snapshot auditAction s =
     (let version = maxVersion (ac_tenantId a) (plans s) + 1;
          effectiveFrom = (case requested of Some t \<Rightarrow> t
             | None \<Rightarrow> nextImmediateEffectiveFrom (plans s) (ac_tenantId a) (env_now E))
      in andThen (snapshot s) (\<lambda>d.
         andThen (insertPlan E (ac_tenantId a) (ac_userId a) version effectiveFrom d s) (\<lambda>(plan, s1).
         andThen (finalizePlan (pl_id plan) s1) (\<lambda>s2.
         andThen (checkPlanLevelRates plan) (\<lambda>_.
         Inr (plan, planAudit a auditAction plan s2))))))"

fun planError :: "plan_error \<Rightarrow> error" where
  "planError (Thrown e) = e"
| "planError (Prisma code target) = DbError code"

definition createImmutableVersion ::
  "env \<Rightarrow> actor \<Rightarrow> time option \<Rightarrow> (db \<Rightarrow> plan_error + plan_snapshot_input) \<Rightarrow> string \<Rightarrow> db \<Rightarrow>
   (commission_plan \<times> db) res" where
  "createImmutableVersion E a requested snapshot auditAction s =
     (case createImmutableTx E a requested snapshot auditAction s of
        Inr r \<Rightarrow> Inr r
      | Inl e \<Rightarrow>
          if isEffectiveFromUniqueConflict e
          then Inl (Conflict ''bu effectiveFrom degeri icin bir plan zaten var'')
          else Inl (planError e))"

record create_plan_input =
  ci_plan :: commission_plan_input
  ci_fastStartBps :: "int option"
  ci_fastStartDays :: "int option"
  ci_matchingBps :: "int option"
  ci_effectiveFrom :: "time option"

text \<open>The messages of the refinement; those of zod's own checks come from zod (\<open>zodMessage\<close>).\<close>

fun planIssueMessage :: "(plan_issue \<Rightarrow> string) \<Rightarrow> commission_plan_input \<Rightarrow> plan_issue \<Rightarrow> string" where
  "planIssueMessage zodMessage p (LevelDuplicated n) = ''level '' @ show_nat n @ '' is duplicated''"
| "planIssueMessage zodMessage p SellerLevelMissing = ''level 0 (seller) is required''"
| "planIssueMessage zodMessage p LevelGap =
     ''levels must cover 0..'' @ show_int (int (in_depth p) - 1) @ '' without gaps''"
| "planIssueMessage zodMessage p (SumExceedsPool bps) =
     ''sum of level rates ('' @ show_int bps @ '' bps) cannot exceed pool rate ('' @
     show_int (in_poolRateBps p) @ '' bps)''"
| "planIssueMessage zodMessage p i = zodMessage i"

definition createVersion ::
  "(plan_issue \<Rightarrow> string) \<Rightarrow> env \<Rightarrow> actor \<Rightarrow> create_plan_input \<Rightarrow> db \<Rightarrow> ((uuid \<times> nat \<times> time) \<times> db) res" where
  "createVersion zodMessage E a input s =
     (case commissionPlanSchema (ci_plan input) of
        Inl issues \<Rightarrow> Inl (BadRequest (case issues of [] \<Rightarrow> ''gecersiz plan''
                                       | i # _ \<Rightarrow> planIssueMessage zodMessage (ci_plan input) i))
      | Inr p \<Rightarrow>
          andThen (createImmutableVersion E a (ci_effectiveFrom input)
            (\<lambda>_. Inr \<lparr>ps_name = in_name p, ps_poolRateBps = in_poolRateBps p, ps_depth = in_depth p,
               ps_levels = in_levels p, ps_fastStartBps = (case ci_fastStartBps input of None \<Rightarrow> 0 | Some x \<Rightarrow> x),
               ps_fastStartDays = (case ci_fastStartDays input of None \<Rightarrow> 0 | Some x \<Rightarrow> x),
               ps_matchingBps = (case ci_matchingBps input of None \<Rightarrow> 0 | Some x \<Rightarrow> x)\<rparr>)
            ''plan.create_version'' s)
          (\<lambda>(plan, s'). Inr ((pl_id plan, pl_version plan, pl_effectiveFrom plan), s')))"

record plan_bonus_input =
  bo_fastStartBps :: int
  bo_fastStartDays :: int
  bo_matchingBps :: int

definition createBonusVersion :: "env \<Rightarrow> actor \<Rightarrow> plan_bonus_input \<Rightarrow> db \<Rightarrow> (plan_bonus \<times> db) res" where
  "createBonusVersion E a input s =
     andThen (createImmutableVersion E a None
       (\<lambda>s. case activePlan (ac_tenantId a) (env_now E) s of
            None \<Rightarrow> Inl (Thrown (BadRequest ''aktif plan yok''))
          | Some p \<Rightarrow> Inr \<lparr>ps_name = pl_name p, ps_poolRateBps = pl_poolRateBps p, ps_depth = pl_depth p,
              ps_levels = planLevels p, ps_fastStartBps = bo_fastStartBps input,
              ps_fastStartDays = bo_fastStartDays input, ps_matchingBps = bo_matchingBps input\<rparr>)
       ''plan.update_bonus'' s)
     (\<lambda>(plan, s'). Inr (\<lparr>pb_planId = Some (pl_id plan), pb_planName = Some (pl_name plan),
        pb_version = Some (pl_version plan), pb_fastStartBps = pl_fastStartBps plan,
        pb_fastStartDays = pl_fastStartDays plan, pb_matchingBps = pl_matchingBps plan\<rparr>, s'))"

section \<open>Lemmas: versions\<close>

lemma activePlan_SomeD:
  assumes "activePlan t at s = Some p"
  shows "p \<in> set (plans s)" "pl_tenantId p = t" "pl_finalized p" "pl_effectiveFrom p \<le> at"
    "\<And>q. q \<in> set (plans s) \<Longrightarrow> pl_tenantId q = t \<Longrightarrow> pl_finalized q \<Longrightarrow> pl_effectiveFrom q \<le> at \<Longrightarrow>
       pl_effectiveFrom q \<le> pl_effectiveFrom p"
proof -
  note d = findFirstBy_SomeD [OF assms [unfolded activePlan_def]]
  show "p \<in> set (plans s)" "pl_tenantId p = t" "pl_finalized p" "pl_effectiveFrom p \<le> at"
    using d(1,2) by auto
  fix q assume "q \<in> set (plans s)" "pl_tenantId q = t" "pl_finalized q" "pl_effectiveFrom q \<le> at"
  then have "effectiveOrder p \<le> effectiveOrder q" using d(3) by blast
  then show "pl_effectiveFrom q \<le> pl_effectiveFrom p" by (auto simp: effectiveOrder_def less_eq_prod_def)
qed

lemma maxVersion_ge: "p \<in> set rows \<Longrightarrow> pl_tenantId p = t \<Longrightarrow> pl_version p \<le> maxVersion t rows"
proof -
  have mono: "m \<le> fold (\<lambda>p m. if pl_tenantId p = t then max m (pl_version p) else m) rows m" for m rows
  proof (induction rows arbitrary: m)
    case (Cons r rs)
    show ?case using Cons [of m] Cons [of "max m (pl_version r)"] by auto
  qed simp
  have "p \<in> set rows \<Longrightarrow> pl_tenantId p = t \<Longrightarrow>
     pl_version p \<le> fold (\<lambda>p m. if pl_tenantId p = t then max m (pl_version p) else m) rows m" for m
  proof (induction rows arbitrary: m)
    case (Cons r rs)
    then show ?case using mono [of "max m (pl_version r)" rs] by auto
  qed simp
  then show "p \<in> set rows \<Longrightarrow> pl_tenantId p = t \<Longrightarrow> pl_version p \<le> maxVersion t rows"
    by (simp add: maxVersion_def)
qed

text \<open>The first free millisecond: not before \<open>c\<close>, free, and every earlier one from \<open>c\<close> is taken.\<close>

lemma nextImmediate_spec:
  fixes rows :: "commission_plan list"
  defines "taken t c \<equiv> list_ex (\<lambda>p. pl_tenantId p = t \<and> pl_effectiveFrom p = c) rows"
  shows "c \<le> nextImmediateEffectiveFrom rows t c \<and> \<not> taken t (nextImmediateEffectiveFrom rows t c) \<and>
         (\<forall>x. c \<le> x \<and> x < nextImmediateEffectiveFrom rows t c \<longrightarrow> taken t x)"
proof (induction "plansFrom t c rows" arbitrary: c rule: less_induct)
  case less
  show ?case
  proof (cases "taken t c")
    case True
    then have n: "nextImmediateEffectiveFrom rows t c = nextImmediateEffectiveFrom rows t (c + 1)"
      by (subst nextImmediateEffectiveFrom.simps) (simp add: taken_def)
    have IH: "c + 1 \<le> nextImmediateEffectiveFrom rows t (c + 1) \<and>
        \<not> taken t (nextImmediateEffectiveFrom rows t (c + 1)) \<and>
        (\<forall>x. c + 1 \<le> x \<and> x < nextImmediateEffectiveFrom rows t (c + 1) \<longrightarrow> taken t x)"
      using less [OF plansFrom_step] True by (simp add: taken_def)
    have "c \<le> x \<Longrightarrow> x = c \<or> c + 1 \<le> x" for x by linarith
    then show ?thesis using IH True unfolding n by (auto simp del: not_le)
  next
    case False
    then have "nextImmediateEffectiveFrom rows t c = c"
      by (subst nextImmediateEffectiveFrom.simps) (simp add: taken_def)
    then show ?thesis using False by auto
  qed
qed

text \<open>What a finalized row looks like, whatever wrote it: the schema's promise, kept by the database.\<close>

definition planRowOk :: "commission_plan \<Rightarrow> bool" where
  "planRowOk p \<longleftrightarrow>
     0 \<le> pl_poolRateBps p \<and> pl_poolRateBps p \<le> 10000 \<and> 1 \<le> pl_depth p \<and> pl_depth p \<le> 8 \<and>
     (\<forall>l \<in> set (pl_levels p). 0 \<le> pv_rateBps l \<and> pv_rateBps l \<le> 10000) \<and>
     sort (map pv_level (pl_levels p)) = [0..<pl_depth p] \<and>
     (\<Sum>l\<leftarrow>pl_levels p. pv_rateBps l) \<le> pl_poolRateBps p"

lemma levelsComplete_sort:
  assumes "levelsComplete p"
  shows "sort (map pv_level (pl_levels p)) = [0..<pl_depth p]"
proof -
  let ?xs = "map pv_level (pl_levels p)"
  have len: "length ?xs = pl_depth p" and sub: "{0..<pl_depth p} \<subseteq> set ?xs"
    using assms by (auto simp: levelsComplete_def list_all_iff)
  have "card (set ?xs) \<le> pl_depth p" using card_length [of ?xs] len by simp
  then have eq: "{0..<pl_depth p} = set ?xs" using sub by (intro card_seteq) auto
  then have "card (set ?xs) = length ?xs" using len by (metis card_atLeastLessThan diff_zero)
  then have "distinct ?xs" by (rule card_distinct)
  then show ?thesis using eq by (intro sorted_distinct_set_unique) auto
qed

text \<open>Inversion of a successful creation: one sealed row is appended and nothing else of the table changes.\<close>

lemma createImmutableVersion_Inr:
  assumes r: "createImmutableVersion E a requested snapshot act s = Inr (p, s')"
    and fresh: "\<forall>q \<in> set (plans s). pl_id q \<noteq> freshId s"
  shows "plans s' = plans s @ [p\<lparr>pl_finalized := True\<rparr>]" "planRowOk p"
    "pl_tenantId p = ac_tenantId a" "pl_version p = maxVersion (ac_tenantId a) (plans s) + 1"
    "pl_effectiveFrom p = (case requested of Some t \<Rightarrow> t
       | None \<Rightarrow> nextImmediateEffectiveFrom (plans s) (ac_tenantId a) (env_now E))"
    "\<forall>q \<in> set (plans s). pl_tenantId q = ac_tenantId a \<longrightarrow> pl_effectiveFrom q \<noteq> pl_effectiveFrom p"
    "\<exists>d. snapshot s = Inr d \<and> pl_name p = ps_name d \<and> pl_depth p = ps_depth d \<and>
         pl_poolRateBps p = ps_poolRateBps d \<and>
         map (\<lambda>l. (pv_level l, pv_rateBps l)) (pl_levels p) = map (\<lambda>l. (lv_level l, lv_rateBps l)) (ps_levels d)"
proof -
  have "createImmutableTx E a requested snapshot act s = Inr (p, s')"
    using r by (auto simp: createImmutableVersion_def split: sum.splits if_splits)
  then obtain d s1 s2 where d: "snapshot s = Inr d"
    and ins: "insertPlan E (ac_tenantId a) (ac_userId a) (maxVersion (ac_tenantId a) (plans s) + 1)
       (case requested of Some t \<Rightarrow> t | None \<Rightarrow> nextImmediateEffectiveFrom (plans s) (ac_tenantId a) (env_now E)) d s = Inr (p, s1)"
    and fin: "finalizePlan (pl_id p) s1 = Inr s2" and chk: "checkPlanLevelRates p = Inr ()"
    and s': "s' = planAudit a act p s2"
    unfolding createImmutableTx_def Let_def by (fastforce split: prod.splits)
  note i = ins [unfolded insertPlan_def Let_def andThen_Inr_iff require_Inr_iff, simplified]
  have p: "pl_id p = freshId s" and s1: "plans s1 = plans s @ [p]" and unfin: "\<not> pl_finalized p"
    using i by auto
  have "find (\<lambda>q. pl_id q = freshId s) (plans s) = None" using fresh by (auto simp: find_None_iff)
  then have f: "find (\<lambda>q. pl_id q = freshId s) (plans s1) = Some p" using p by (simp add: s1 find_append)
  have complete: "levelsComplete p" and s2: "s2 = s1\<lparr>plans := updateWhere (\<lambda>q. pl_id q = freshId s)
      (\<lambda>q. q\<lparr>pl_finalized := True\<rparr>) (plans s1)\<rparr>"
    using fin f unfin by (auto simp: finalizePlan_def p split: if_splits)
  show "plans s' = plans s @ [p\<lparr>pl_finalized := True\<rparr>]"
    using fresh p by (simp add: s' s2 s1 planAudit_def updateWhere_none)
  have lv: "map (\<lambda>l. (pv_level l, pv_rateBps l)) (pl_levels p) = map (\<lambda>l. (lv_level l, lv_rateBps l)) (ps_levels d)"
    using i by (auto intro: nth_equalityI)
  have "pl_name p = ps_name d" "pl_depth p = ps_depth d" "pl_poolRateBps p = ps_poolRateBps d"
    using i by auto
  then show "\<exists>d. snapshot s = Inr d \<and> pl_name p = ps_name d \<and> pl_depth p = ps_depth d \<and>
         pl_poolRateBps p = ps_poolRateBps d \<and>
         map (\<lambda>l. (pv_level l, pv_rateBps l)) (pl_levels p) = map (\<lambda>l. (lv_level l, lv_rateBps l)) (ps_levels d)"
    using d lv by blast
  show "pl_tenantId p = ac_tenantId a" "pl_version p = maxVersion (ac_tenantId a) (plans s) + 1"
    "pl_effectiveFrom p = (case requested of Some t \<Rightarrow> t
       | None \<Rightarrow> nextImmediateEffectiveFrom (plans s) (ac_tenantId a) (env_now E))"
    using i by auto
  show "\<forall>q \<in> set (plans s). pl_tenantId q = ac_tenantId a \<longrightarrow> pl_effectiveFrom q \<noteq> pl_effectiveFrom p"
    using i by (auto simp: list_ex_iff)
  have "\<forall>x \<in> set (map (\<lambda>l. (lv_level l, lv_rateBps l)) (ps_levels d)). 0 \<le> snd x \<and> snd x \<le> 10000"
    using i by (auto simp: list_all_iff)
  then have rates: "\<forall>l \<in> set (pl_levels p). 0 \<le> pv_rateBps l \<and> pv_rateBps l \<le> 10000"
    unfolding lv [symmetric] by auto
  have "pl_levels p \<noteq> []"
    using complete i by (auto simp: levelsComplete_def)
  then have "(\<Sum>l\<leftarrow>pl_levels p. pv_rateBps l) \<le> pl_poolRateBps p"
    using chk by (simp add: checkPlanLevelRates_def)
  then show "planRowOk p"
    using rates levelsComplete_sort [OF complete] i by (auto simp: planRowOk_def)
qed

text \<open>Plan rows are appended and never rewritten; versions and start instants stay unique per tenant.\<close>

definition plansOk :: "db \<Rightarrow> bool" where
  "plansOk s \<longleftrightarrow>
     (\<forall>p \<in> set (plans s). pl_finalized p \<longrightarrow> planRowOk p) \<and>
     distinct (map (\<lambda>p. (pl_tenantId p, pl_version p)) (plans s)) \<and>
     distinct (map (\<lambda>p. (pl_tenantId p, pl_effectiveFrom p)) (plans s))"

lemma createImmutableVersion_plansOk:
  assumes "createImmutableVersion E a requested snapshot act s = Inr (p, s')"
    and "\<forall>q \<in> set (plans s). pl_id q \<noteq> freshId s" and "plansOk s"
  shows "plansOk s'"
proof -
  note c = createImmutableVersion_Inr [OF assms(1,2)]
  have "planRowOk (p\<lparr>pl_finalized := True\<rparr>)" using c(2) by (simp add: planRowOk_def)
  moreover have "(pl_tenantId p, pl_version p) \<notin> (\<lambda>p. (pl_tenantId p, pl_version p)) ` set (plans s)"
    using c(3,4) maxVersion_ge [of _ "plans s" "pl_tenantId p"] by fastforce
  moreover have "(pl_tenantId p, pl_effectiveFrom p) \<notin> (\<lambda>p. (pl_tenantId p, pl_effectiveFrom p)) ` set (plans s)"
    using c(3,6) by force
  ultimately show ?thesis using assms(3) by (auto simp: plansOk_def c(1))
qed

text \<open>The sorted level list the engine distributes over.\<close>

lemma planLevels_ok:
  assumes "planRowOk p"
  shows "\<forall>l \<in> set (planLevels p). 0 \<le> lv_rateBps l \<and> lv_rateBps l \<le> 10000"
    and "(\<Sum>l\<leftarrow>planLevels p. lv_rateBps l) \<le> pl_poolRateBps p"
    and "map lv_level (planLevels p) = [0..<pl_depth p]"
proof -
  show "\<forall>l \<in> set (planLevels p). 0 \<le> lv_rateBps l \<and> lv_rateBps l \<le> 10000"
    using assms by (auto simp: planLevels_def planRowOk_def)
  have "(\<Sum>l\<leftarrow>planLevels p. lv_rateBps l) = (\<Sum>l\<leftarrow>pl_levels p. pv_rateBps l)"
    by (simp add: planLevels_def comp_def sum_list_sort_key)
  then show "(\<Sum>l\<leftarrow>planLevels p. lv_rateBps l) \<le> pl_poolRateBps p" using assms by (simp add: planRowOk_def)
  have "map lv_level (planLevels p) = map pv_level (sort_key pv_level (pl_levels p))"
    by (simp add: planLevels_def comp_def)
  then show "map lv_level (planLevels p) = [0..<pl_depth p]"
    using assms by (simp add: map_sort_key_self planRowOk_def)
qed

end
