(* ===== verification/Ranks.thy ===== *)
theory Ranks
  imports Summaries Money
begin

text \<open>
  \<open>RanksService\<close>: the ladder of a tenant, the tier a member has reached, the override rate the
  engine pays on the member's own sales and its ceiling, the ladder's administration, and the
  nightly rank-up notifications.  The locale is what the engine relies on: the rate it asks for is
  never above the ceiling it asks for.  Display percentages of \<open>memberRank\<close> are floating point
  and are not modelled.
\<close>

section \<open>The interface the engine uses\<close>

locale override_policy =
  fixes rate :: "'s \<Rightarrow> 'm \<Rightarrow> int" and ceiling_rate :: "'s \<Rightarrow> int"
  assumes ceiling_nonneg: "0 \<le> ceiling_rate s"
    and rate_le_ceiling: "rate s m \<le> ceiling_rate s"
begin

lemma share_le_ceiling:
  "0 \<le> amount \<Longrightarrow> (amount * rate s m) div 10000 \<le> (amount * ceiling_rate s) div 10000"
  by (rule scaled_div_mono) (auto intro: rate_le_ceiling)

lemma paid_share_le_ceiling:
  "0 \<le> amount \<Longrightarrow> (if rate s m > 0 then (amount * rate s m) div 10000 else 0) \<le> (amount * ceiling_rate s) div 10000"
  using share_le_ceiling [of amount s m] ceiling_nonneg [of s] by (simp add: pos_imp_zdiv_nonneg_iff)

end

section \<open>Tiers\<close>

record tier =
  tr_name :: string
  tr_sortOrder :: int
  tr_minTeam :: nat
  tr_minEarningsCents :: cents
  tr_overrideBps :: int

definition DEFAULT_TIERS :: "tier list" where
  "DEFAULT_TIERS =
     [\<lparr>tr_name = ''Bronze'', tr_sortOrder = 0, tr_minTeam = 0, tr_minEarningsCents = 0, tr_overrideBps = 0\<rparr>,
      \<lparr>tr_name = ''Silver'', tr_sortOrder = 1, tr_minTeam = 3, tr_minEarningsCents = 100000, tr_overrideBps = 0\<rparr>,
      \<lparr>tr_name = ''Gold'', tr_sortOrder = 2, tr_minTeam = 10, tr_minEarningsCents = 1000000, tr_overrideBps = 0\<rparr>,
      \<lparr>tr_name = ''Platinum'', tr_sortOrder = 3, tr_minTeam = 25, tr_minEarningsCents = 5000000, tr_overrideBps = 0\<rparr>]"

definition customTiers :: "db \<Rightarrow> uuid \<Rightarrow> rank_tier list" where
  "customTiers s tenantId = findManyBy rt_sortOrder (\<lambda>t. rt_tenantId t = tenantId) (rankTiers s)"

definition tierOf :: "rank_tier \<Rightarrow> tier" where
  "tierOf t = \<lparr>tr_name = rt_name t, tr_sortOrder = rt_sortOrder t, tr_minTeam = rt_minTeam t,
     tr_minEarningsCents = rt_minEarningsCents t, tr_overrideBps = rt_overrideBps t\<rparr>"

definition effectiveTiers :: "db \<Rightarrow> uuid \<Rightarrow> tier list" where
  "effectiveTiers s tenantId =
     (let custom = customTiers s tenantId in if length custom = 0 then DEFAULT_TIERS else map tierOf custom)"

text \<open>\<open>path <@ me.path AND id <> me\<close>: the members strictly below.\<close>

definition pathBelow :: "uuid list \<Rightarrow> uuid list \<Rightarrow> bool" where
  "pathBelow p root = (take (length root) p = root)"

definition teamSize :: "db \<Rightarrow> uuid \<Rightarrow> membership \<Rightarrow> nat" where
  "teamSize s tenantId me =
     countWhere (\<lambda>m. mb_tenantId m = tenantId \<and> pathBelow (mb_path m) (mb_path me) \<and> mb_id m \<noteq> mb_id me) (memberships s)"

definition earnedCents :: "db \<Rightarrow> uuid \<Rightarrow> uuid \<Rightarrow> cents" where
  "earnedCents s tenantId membershipId =
     sumWhere (\<lambda>e. le_tenantId e = tenantId \<and> le_beneficiary e = membershipId \<and>
                   le_status e \<in> {LePayable, LeProcessing, LePaid}) le_amountCents (ledger s)"

definition reaches :: "nat \<Rightarrow> cents \<Rightarrow> tier \<Rightarrow> bool" where
  "reaches team earnings t \<longleftrightarrow> team \<ge> tr_minTeam t \<and> earnings \<ge> tr_minEarningsCents t"

text \<open>The \<open>for\<close> loop keeps the last tier of the ladder whose thresholds are met.\<close>

definition bestTier :: "nat \<Rightarrow> cents \<Rightarrow> tier list \<Rightarrow> tier option" where
  "bestTier team earnings tiers = foldl (\<lambda>current t. if reaches team earnings t then Some t else current) None tiers"

definition memberIn :: "db \<Rightarrow> uuid \<Rightarrow> uuid \<Rightarrow> membership option" where
  "memberIn s tenantId membershipId = find (\<lambda>m. mb_id m = membershipId \<and> mb_tenantId m = tenantId) (memberships s)"

definition resolveTier :: "db \<Rightarrow> uuid \<Rightarrow> uuid \<Rightarrow> tier option" where
  "resolveTier s tenantId membershipId =
     (case memberIn s tenantId membershipId of
        None \<Rightarrow> None
      | Some me \<Rightarrow> bestTier (teamSize s tenantId me) (earnedCents s tenantId membershipId) (effectiveTiers s tenantId))"

definition overrideBpsFor :: "db \<Rightarrow> uuid \<Rightarrow> uuid \<Rightarrow> int" where
  "overrideBpsFor s tenantId membershipId =
     (case resolveTier s tenantId membershipId of None \<Rightarrow> 0 | Some t \<Rightarrow> tr_overrideBps t)"

definition maxOverrideBps :: "db \<Rightarrow> uuid \<Rightarrow> int" where
  "maxOverrideBps s tenantId = foldl (\<lambda>m t. max m (tr_overrideBps t)) 0 (effectiveTiers s tenantId)"

section \<open>Administration of the ladder\<close>

text \<open>\<open>list\<close>: the tiers with their row id; the built-in ladder has none.\<close>

definition listTiers :: "db \<Rightarrow> uuid \<Rightarrow> bool \<times> (uuid option \<times> tier) list" where
  "listTiers s tenantId =
     (let custom = customTiers s tenantId
      in if length custom = 0 then (True, map (\<lambda>t. (None, t)) DEFAULT_TIERS)
         else (False, map (\<lambda>t. (Some (rt_id t), tierOf t)) custom))"

record tier_input =
  ti_name :: "string option"
  ti_sortOrder :: "int option"
  ti_minTeam :: "nat option"
  ti_minEarningsCents :: "cents option"
  ti_overrideBps :: "int option"

definition createTier :: "uuid \<Rightarrow> tier \<Rightarrow> int option \<Rightarrow> db \<Rightarrow> uuid \<times> db" where
  "createTier tenantId t overrideBps s =
     (freshId s, (drawId s)\<lparr>rankTiers := rankTiers s @
        [\<lparr>rt_id = freshId s, rt_tenantId = tenantId, rt_name = tr_name t, rt_sortOrder = tr_sortOrder t,
          rt_minTeam = tr_minTeam t, rt_minEarningsCents = tr_minEarningsCents t,
          rt_overrideBps = (case overrideBps of None \<Rightarrow> 0 | Some b \<Rightarrow> b)\<rparr>]\<rparr>)"

definition orKeep :: "'a option \<Rightarrow> 'a \<Rightarrow> 'a" where
  "orKeep x old = (case x of None \<Rightarrow> old | Some y \<Rightarrow> y)"

definition applyTierInput :: "tier_input \<Rightarrow> rank_tier \<Rightarrow> rank_tier" where
  "applyTierInput i t = t\<lparr>rt_name := orKeep (ti_name i) (rt_name t),
     rt_sortOrder := orKeep (ti_sortOrder i) (rt_sortOrder t), rt_minTeam := orKeep (ti_minTeam i) (rt_minTeam t),
     rt_minEarningsCents := orKeep (ti_minEarningsCents i) (rt_minEarningsCents t),
     rt_overrideBps := orKeep (ti_overrideBps i) (rt_overrideBps t)\<rparr>"

definition updateTier :: "uuid \<Rightarrow> uuid \<Rightarrow> tier_input \<Rightarrow> db \<Rightarrow> db res" where
  "updateTier tenantId tierId input s =
     (case find (\<lambda>t. rt_id t = tierId \<and> rt_tenantId t = tenantId) (rankTiers s) of
        None \<Rightarrow> Inl (NotFound ''rutbe bulunamadi'')
      | Some t \<Rightarrow> Inr (s\<lparr>rankTiers := updateWhere (\<lambda>t. rt_id t = tierId) (applyTierInput input) (rankTiers s)\<rparr>))"

definition removeTier :: "uuid \<Rightarrow> uuid \<Rightarrow> db \<Rightarrow> db res" where
  "removeTier tenantId tierId s =
     (case find (\<lambda>t. rt_id t = tierId \<and> rt_tenantId t = tenantId) (rankTiers s) of
        None \<Rightarrow> Inl (NotFound ''rutbe bulunamadi'')
      | Some t \<Rightarrow> Inr (s\<lparr>rankTiers := filter (\<lambda>t. rt_id t \<noteq> tierId) (rankTiers s)\<rparr>))"

section \<open>Rank-up notifications\<close>

definition setLastRank :: "uuid \<Rightarrow> int \<Rightarrow> db \<Rightarrow> db" where
  "setLastRank membershipId order s =
     s\<lparr>memberships := updateWhere (\<lambda>m. mb_id m = membershipId) (\<lambda>m. m\<lparr>mb_lastRankSortOrder := Some order\<rparr>) (memberships s)\<rparr>"

text \<open>One member of the scan: the order \<open>stored\<close> was read with the member list.\<close>

definition notifyMember :: "uuid \<Rightarrow> uuid \<Rightarrow> int option \<Rightarrow> nat \<times> db \<Rightarrow> nat \<times> db" where
  "notifyMember tenantId membershipId stored = (\<lambda>(notified, s).
     let tier = resolveTier s tenantId membershipId;
         currentSort = (case tier of None \<Rightarrow> - 1 | Some t \<Rightarrow> tr_sortOrder t)
     in case stored of
          None \<Rightarrow> (notified, setLastRank membershipId currentSort s)
        | Some l \<Rightarrow>
            let (notified', s') = (case tier of
                  None \<Rightarrow> (notified, s)
                | Some t \<Rightarrow>
                    if currentSort > l \<and> currentSort \<ge> 1
                    then (notified + 1,
                      createNotification tenantId membershipId ChInApp ''rank_up'' (JObj [(''rankName'', JStr (tr_name t))])
                        (createNotification tenantId membershipId ChEmail ''rank_up'' (JObj [(''rankName'', JStr (tr_name t))]) s))
                    else (notified, s))
            in (notified', if currentSort \<noteq> l then setLastRank membershipId currentSort s' else s'))"

definition notifyTenant :: "uuid \<Rightarrow> nat \<times> db \<Rightarrow> nat \<times> db" where
  "notifyTenant tenantId = (\<lambda>(notified, s).
     fold (\<lambda>m. notifyMember tenantId (mb_id m) (mb_lastRankSortOrder m))
       (filter (\<lambda>m. mb_tenantId m = tenantId \<and> mb_status m = MemberActive) (memberships s)) (notified, s))"

definition notifyRankUps :: "db \<Rightarrow> (nat \<times> nat) \<times> db" where
  "notifyRankUps s =
     (let ts = map tn_id (tenants s); (notified, s') = fold notifyTenant ts (0, s)
      in ((length ts, notified), s'))"

section \<open>A member's own rank\<close>

record member_rank =
  mr_current :: "string option"
  mr_next :: "string option"
  mr_overrideBps :: int
  mr_teamSize :: nat
  mr_earningsCents :: cents
  mr_badges :: "(string \<times> bool) list"

text \<open>\<open>forEach\<close> keeps the last index whose thresholds are met; \<open>None\<close> stands for \<open>-1\<close>.\<close>

definition currentIdx :: "nat \<Rightarrow> cents \<Rightarrow> tier list \<Rightarrow> nat option" where
  "currentIdx team earnings tiers =
     foldl (\<lambda>cur i. if reaches team earnings (tiers ! i) then Some i else cur) None [0..<length tiers]"

definition badgesOf :: "nat \<Rightarrow> nat \<Rightarrow> nat \<Rightarrow> cents \<Rightarrow> (string \<times> bool) list" where
  "badgesOf salesCount directs team earnings =
     [(''first_sale'', salesCount > 0), (''first_recruit'', directs > 0), (''team_5'', team \<ge> 5),
      (''earned_10k'', earnings \<ge> 1000000)]"

definition memberRank :: "uuid \<Rightarrow> uuid \<Rightarrow> db \<Rightarrow> member_rank res" where
  "memberRank membershipId tenantId s =
     andThen (from_option (NotFound ''uyelik bulunamadi'') (memberIn s tenantId membershipId)) (\<lambda>me.
       let team = teamSize s tenantId me;
           earnings = earnedCents s tenantId membershipId;
           directs = countWhere (\<lambda>m. mb_tenantId m = tenantId \<and> mb_sponsorMembershipId m = Some membershipId) (memberships s);
           salesCount = countWhere (\<lambda>x. sa_tenantId x = tenantId \<and> sa_sellerMembershipId x = membershipId) (sales s);
           tiers = effectiveTiers s tenantId;
           idx = currentIdx team earnings tiers;
           current = map_option ((!) tiers) idx;
           nextIdx = (case idx of None \<Rightarrow> 0 | Some i \<Rightarrow> i + 1);
           next = (if nextIdx < length tiers then Some (tiers ! nextIdx) else None)
       in Inr \<lparr>mr_current = map_option tr_name current, mr_next = map_option tr_name next,
            mr_overrideBps = (case current of None \<Rightarrow> 0 | Some t \<Rightarrow> tr_overrideBps t),
            mr_teamSize = team, mr_earningsCents = earnings,
            mr_badges = badgesOf salesCount directs team earnings\<rparr>)"

section \<open>Lemmas\<close>

lemma bestTier_snoc:
  "bestTier team e (ts @ [t]) = (if reaches team e t then Some t else bestTier team e ts)"
  by (simp add: bestTier_def)

text \<open>The tier found is on the ladder, its thresholds are met, and no later tier's are.\<close>

lemma bestTier_Some:
  "bestTier team e ts = Some t \<Longrightarrow>
   \<exists>xs ys. ts = xs @ t # ys \<and> reaches team e t \<and> (\<forall>y \<in> set ys. \<not> reaches team e y)"
proof (induction ts rule: rev_induct)
  case (snoc x xs)
  show ?case
  proof (cases "reaches team e x")
    case True
    then have "x = t" using snoc.prems by (simp add: bestTier_snoc)
    then have "xs @ [x] = xs @ t # []" by simp
    then show ?thesis using True \<open>x = t\<close> by fastforce
  next
    case False
    then have "bestTier team e xs = Some t" using snoc.prems by (simp add: bestTier_snoc)
    from snoc.IH [OF this] obtain as bs
      where s: "xs = as @ t # bs" "reaches team e t" "\<forall>y \<in> set bs. \<not> reaches team e y" by blast
    have "xs @ [x] = as @ t # (bs @ [x])" by (simp add: s(1))
    moreover have "\<forall>y \<in> set (bs @ [x]). \<not> reaches team e y" using s(3) False by simp
    ultimately show ?thesis using s(2) by blast
  qed
qed (simp add: bestTier_def)

lemma bestTier_None: "bestTier team e ts = None \<longleftrightarrow> (\<forall>t \<in> set ts. \<not> reaches team e t)"
  by (induction ts rule: rev_induct) (auto simp: bestTier_snoc, simp_all add: bestTier_def)

lemma currentIdx_bestTier:
  "map_option ((!) tiers) (currentIdx team e tiers) = bestTier team e tiers"
proof -
  have "map_option ((!) tiers) (foldl (\<lambda>cur i. if reaches team e (tiers ! i) then Some i else cur) None [0..<n]) =
        bestTier team e (take n tiers)" if "n \<le> length tiers" for n
    using that
  proof (induction n)
    case (Suc n)
    then show ?case by (simp add: take_Suc_conv_app_nth bestTier_snoc)
  qed (simp add: bestTier_def)
  from this [of "length tiers"] show ?thesis by (simp add: currentIdx_def)
qed

lemma foldl_max:
  fixes z :: int
  shows "z \<le> foldl (\<lambda>m t. max m (f t)) z ts" and "t \<in> set ts \<Longrightarrow> f t \<le> foldl (\<lambda>m t. max m (f t)) z ts"
proof -
  have mono: "z \<le> foldl (\<lambda>m t. max m (f t)) z ts" for z ts
  proof (induction ts arbitrary: z)
    case (Cons t ts)
    show ?case using Cons [of "max z (f t)"] by simp
  qed simp
  then show "z \<le> foldl (\<lambda>m t. max m (f t)) z ts" .
  show "t \<in> set ts \<Longrightarrow> f t \<le> foldl (\<lambda>m t. max m (f t)) z ts"
  proof (induction ts arbitrary: z)
    case (Cons x xs)
    then show ?case using mono [of "max z (f x)" xs] by auto
  qed simp
qed

text \<open>The member card and the engine agree on the override rate.\<close>

lemma memberRank_override:
  "memberRank membershipId tenantId s = Inr r \<Longrightarrow> mr_overrideBps r = overrideBpsFor s tenantId membershipId"
  by (cases "memberIn s tenantId membershipId")
    (auto simp: memberRank_def overrideBpsFor_def resolveTier_def Let_def currentIdx_bestTier [symmetric])

interpretation ov: override_policy "\<lambda>(s, t) m. overrideBpsFor s t m" "\<lambda>(s, t). maxOverrideBps s t"
proof (unfold_locales, goal_cases)
  case (1 st)
  show ?case by (cases st) (simp add: maxOverrideBps_def foldl_max(1))
next
  case (2 st m)
  obtain s t where st: "st = (s, t)" by (cases st)
  show ?case
  proof (cases "resolveTier s t m")
    case None
    then show ?thesis by (simp add: st overrideBpsFor_def maxOverrideBps_def foldl_max(1))
  next
    case (Some tr)
    then obtain team e where "bestTier team e (effectiveTiers s t) = Some tr"
      by (auto simp: resolveTier_def split: option.splits)
    then have "tr \<in> set (effectiveTiers s t)" by (auto dest: bestTier_Some)
    then show ?thesis using Some by (simp add: st overrideBpsFor_def maxOverrideBps_def foldl_max(2))
  qed
qed

text \<open>The override rate depends on the ladder, the members and the ledger alone.\<close>

lemma overrideBpsFor_frame:
  "memberships s' = memberships s \<Longrightarrow> ledger s' = ledger s \<Longrightarrow> rankTiers s' = rankTiers s \<Longrightarrow>
   overrideBpsFor s' t m = overrideBpsFor s t m"
  unfolding overrideBpsFor_def resolveTier_def memberIn_def teamSize_def earnedCents_def effectiveTiers_def customTiers_def
  by (simp cong: option.case_cong)

lemma maxOverrideBps_frame: "rankTiers s' = rankTiers s \<Longrightarrow> maxOverrideBps s' t = maxOverrideBps s t"
  by (simp add: maxOverrideBps_def effectiveTiers_def customTiers_def)

end
