(* ===== verification/Commission_Engine.thy ===== *)
theory Commission_Engine
  imports Plans Ranks
begin

text \<open>
  \<open>EngineService\<close>, the commission half: approval and distribution of a sale, voiding with
  equal-and-opposite reversals, delivery, maturation of pending rows, and bonus rows without a
  sale.  Every operation is one transaction: a function of the database that returns the error it
  threw or its result with the new database.  The lemmas show that each keeps the ledger and the
  monthly summaries balanced.
\<close>

section \<open>Transactions with retry\<close>

definition RETRYABLE_PG_CODES :: "string list" where
  "RETRYABLE_PG_CODES = [''40P01'', ''40001'', ''P2034'']"

definition MAX_TX_RETRIES :: nat where
  "MAX_TX_RETRIES = 5"

text \<open>\<open>code\<close> and \<open>meta.code\<close> of what was thrown; a Nest exception has neither.\<close>

fun errorCodes :: "error \<Rightarrow> string list" where
  "errorCodes (DbError code) = [code]"
| "errorCodes (RawDbError metaCode) = [''P2010'', metaCode]"
| "errorCodes e = []"

definition isRetryable :: "error \<Rightarrow> bool" where
  "isRetryable e = list_ex (\<lambda>code. code \<in> set RETRYABLE_PG_CODES) (errorCodes e)"

fun attempts :: "(nat \<Rightarrow> 'a res) \<Rightarrow> nat \<Rightarrow> nat \<Rightarrow> error \<Rightarrow> 'a res" where
  "attempts fn i 0 lastErr = Inl lastErr"
| "attempts fn i (Suc left) lastErr =
     (case fn i of
        Inr r \<Rightarrow> Inr r
      | Inl err \<Rightarrow> if \<not> isRetryable err then Inl err else attempts fn (Suc i) left err)"

definition withTxRetry :: "(nat \<Rightarrow> 'a res) \<Rightarrow> 'a res" where
  "withTxRetry fn = attempts fn 0 MAX_TX_RETRIES (InternalError '''')"

text \<open>
  \<open>this.tx(fn)\<close>: attempt \<open>i\<close> runs on the database \<open>dbAt i\<close> other transactions left, unless the
  server aborts it with \<open>fault i\<close>.
\<close>

definition engineTx :: "(nat \<Rightarrow> error option) \<Rightarrow> (nat \<Rightarrow> db) \<Rightarrow> (db \<Rightarrow> 'a res) \<Rightarrow> 'a res" where
  "engineTx fault dbAt fn = withTxRetry (\<lambda>i. case fault i of Some e \<Rightarrow> Inl e | None \<Rightarrow> fn (dbAt i))"

section \<open>Inputs of a distribution\<close>

definition lockSale :: "uuid \<Rightarrow> uuid option \<Rightarrow> db \<Rightarrow> sale res" where
  "lockSale saleId expectedTenantId s =
     from_option (NotFound (''sale not found: '' @ uuidText saleId))
       (find (\<lambda>r. sa_id r = saleId \<and> (expectedTenantId = None \<or> expectedTenantId = Some (sa_tenantId r))) (sales s))"

definition lockSalesForTenant :: "uuid \<Rightarrow> uuid list \<Rightarrow> db \<Rightarrow> uuid list" where
  "lockSalesForTenant tenantId saleIds s =
     (let normalizedIds = sort (remdups saleIds)
      in if length normalizedIds = 0 then []
         else map sa_id (findManyBy sa_id (\<lambda>r. sa_tenantId r = tenantId \<and> sa_id r \<in> set normalizedIds) (sales s)))"

definition fallbackMonth :: "env \<Rightarrow> sale \<Rightarrow> db \<Rightarrow> string res" where
  "fallbackMonth E sale s =
     andThen (tenantOrThrow s (sa_tenantId sale)) (\<lambda>t. Inr (env_month E (sa_saleDate sale) (tn_timezone t)))"

definition findPlan :: "uuid \<Rightarrow> time \<Rightarrow> db \<Rightarrow> commission_plan option" where
  "findPlan tenantId saleDate s =
     findFirstBy effectiveOrder (\<lambda>p. pl_tenantId p = tenantId \<and> pl_finalized p \<and> pl_effectiveFrom p \<le> saleDate) (plans s)"

definition resolvePlan :: "uuid \<Rightarrow> time \<Rightarrow> uuid option \<Rightarrow> db \<Rightarrow> commission_plan res" where
  "resolvePlan tenantId saleDate commissionPlanId s =
     from_option (Conflict ''no finalized commission plan is effective for this sale'')
       (case commissionPlanId of
          Some pid \<Rightarrow> find (\<lambda>p. pl_tenantId p = tenantId \<and> pl_id p = pid \<and> pl_finalized p) (plans s)
        | None \<Rightarrow> findFirstBy effectiveOrder
            (\<lambda>p. pl_tenantId p = tenantId \<and> pl_finalized p \<and> pl_effectiveFrom p \<le> saleDate) (plans s))"

type_synonym chain_member = "uuid \<times> membership_status"

text \<open>\<open>for (level = 0; level < depth && currentId; level++)\<close>: the recursion is on what is left of the depth.\<close>

fun uplineChain :: "db \<Rightarrow> uuid option \<Rightarrow> nat \<Rightarrow> chain_member list res" where
  "uplineChain s currentId 0 = Inr []"
| "uplineChain s None (Suc depth) = Inr []"
| "uplineChain s (Some currentId) (Suc depth) =
     (case findMembership s currentId of
        None \<Rightarrow> Inl (NotFound (''membership not found: '' @ uuidText currentId))
      | Some m \<Rightarrow> andThen (uplineChain s (mb_sponsorMembershipId m) depth)
                   (\<lambda>rest. Inr ((currentId, mb_status m) # rest)))"

fun effectiveBaseChain :: "chain_member list \<Rightarrow> tenant \<Rightarrow> uuid option list" where
  "effectiveBaseChain [] tenant = []"
| "effectiveBaseChain (seller # uplines) tenant =
     (if tn_compressionEnabled tenant
      then Some (fst seller) # map (\<lambda>u. Some (fst u)) (filter (\<lambda>u. snd u = MemberActive) uplines)
      else if \<not> tn_inactiveMembersEarn tenant
      then Some (fst seller) # map (\<lambda>u. if snd u = MemberActive then Some (fst u) else None) uplines
      else map (\<lambda>r. Some (fst r)) (seller # uplines))"

definition DAY_MS :: int where
  "DAY_MS = 86400000"

definition daysOf :: "tenant \<Rightarrow> int" where
  "daysOf t = (case tn_maturationDays t of None \<Rightarrow> 0 | Some d \<Rightarrow> d)"

definition maturation :: "env \<Rightarrow> tenant \<Rightarrow> sale \<Rightarrow> ledger_status \<times> time option" where
  "maturation E tenant sale = (case tn_maturationRule tenant of
      OnApproval \<Rightarrow> (LePayable, None)
    | OnDelivery \<Rightarrow> (LePending, sa_deliveredAt sale)
    | DaysAfterApproval \<Rightarrow>
        (LePending, Some ((case sa_approvedAt sale of None \<Rightarrow> env_now E | Some t \<Rightarrow> t) + daysOf tenant * DAY_MS))
    | DaysAfterDelivery \<Rightarrow>
        (LePending, map_option (\<lambda>t. t + daysOf tenant * DAY_MS) (sa_deliveredAt sale)))"

record commission_inputs =
  cx_tenant :: tenant
  cx_plan :: commission_plan
  cx_chain :: "uuid option list"
  cx_lines :: "commission_line list"

definition resolveCommissionInputsOrNull :: "sale \<Rightarrow> db \<Rightarrow> commission_inputs option res" where
  "resolveCommissionInputsOrNull sale s =
     andThen (tenantOrThrow s (sa_tenantId sale)) (\<lambda>tenant.
       case findPlan (sa_tenantId sale) (sa_saleDate sale) s of
         None \<Rightarrow> Inr None
       | Some plan \<Rightarrow>
           andThen (uplineChain s (Some (sa_sellerMembershipId sale)) (pl_depth plan)) (\<lambda>rawChain.
             let chain = effectiveBaseChain rawChain tenant
             in andThen (computeCommissionLines (sa_amountCents sale) (planLevels plan) chain) (\<lambda>lines.
                  Inr (Some \<lparr>cx_tenant = tenant, cx_plan = plan, cx_chain = chain, cx_lines = lines\<rparr>))))"

definition resolveCommissionInputs :: "sale \<Rightarrow> db \<Rightarrow> commission_inputs res" where
  "resolveCommissionInputs sale s =
     andThen (resolveCommissionInputsOrNull sale s) (\<lambda>inputs.
       from_option (Conflict (''no commission plan is effective on the sale date (tenant='' @
         uuidText (sa_tenantId sale) @ '')'')) inputs)"

text \<open>The material a bulk approval signs, as the JSON value it is hashed from.\<close>

definition ruleText :: "maturation_rule \<Rightarrow> string" where
  "ruleText r = (case r of OnApproval \<Rightarrow> ''on_approval'' | OnDelivery \<Rightarrow> ''on_delivery''
     | DaysAfterApproval \<Rightarrow> ''days_after_approval'' | DaysAfterDelivery \<Rightarrow> ''days_after_delivery'')"

definition reviewSaleApprovalInputs :: "sale \<Rightarrow> db \<Rightarrow> json option res" where
  "reviewSaleApprovalInputs sale s =
     andThen (resolveCommissionInputsOrNull sale s) (\<lambda>inputs. Inr (map_option (\<lambda>x.
       let t = cx_tenant x; p = cx_plan x in
       JObj
        [(''tenant'', JObj
           [(''requireSeparateApprover'', JBool (tn_requireSeparateApprover t)),
            (''compressionEnabled'', JBool (tn_compressionEnabled t)),
            (''inactiveMembersEarn'', JBool (tn_inactiveMembersEarn t)),
            (''maturationRule'', JStr (ruleText (tn_maturationRule t))),
            (''maturationDays'', jsonOrNull JNum (tn_maturationDays t)),
            (''timezone'', JStr (tn_timezone t))]),
         (''plan'', JObj
           [(''id'', JId (pl_id p)), (''poolRateBps'', JNum (pl_poolRateBps p)), (''depth'', JNum (int (pl_depth p))),
            (''effectiveFrom'', JStr (isoString (pl_effectiveFrom p))),
            (''levels'', JArr (map (\<lambda>l. JObj [(''id'', JId (pv_id l)), (''level'', JNum (int (pv_level l))),
                (''rateBps'', JNum (pv_rateBps l))]) (sort_key (\<lambda>l. (pv_level l, pv_id l)) (pl_levels p))))]),
         (''chain'', JArr (map (\<lambda>c. case c of None \<Rightarrow> JStr '''' | Some m \<Rightarrow> JId m) (cx_chain x))),
         (''commissionLines'', JArr (map (\<lambda>l. JObj
           [(''level'', JNum (int (cl_level l))), (''beneficiaryMembershipId'', JId (cl_beneficiary l)),
            (''rateBpsUsed'', JNum (cl_rateBpsUsed l)), (''amountCents'', JStr (show_int (cl_amountCents l)))])
           (cx_lines x)))]) inputs))"

section \<open>Distribution\<close>

definition newEntry ::
  "uuid \<Rightarrow> uuid option \<Rightarrow> uuid \<Rightarrow> nat \<Rightarrow> int \<Rightarrow> cents \<Rightarrow> ledger_type \<Rightarrow> ledger_status \<Rightarrow> time option \<Rightarrow>
   string option \<Rightarrow> ledger_entry" where
  "newEntry tenantId saleId beneficiary level rateBpsUsed amountCents type status maturesAt summaryMonth =
     \<lparr>le_id = 0, le_tenantId = tenantId, le_saleId = saleId, le_beneficiary = beneficiary, le_level = level,
      le_rateBpsUsed = rateBpsUsed, le_amountCents = amountCents, le_type = type, le_status = status,
      le_summaryMonth = summaryMonth, le_maturesAt = maturesAt, le_payoutId = None, le_payoutBatchId = None,
      le_createdAt = 0\<rparr>"

text \<open>\<open>status === payable ? { payable: amount } : { pending: amount }\<close>.\<close>

definition creditDelta :: "ledger_status \<Rightarrow> cents \<Rightarrow> summary_delta" where
  "creditDelta status amount =
     (if status = LePayable then noDelta\<lparr>d_payable := amount\<rparr> else noDelta\<lparr>d_pending := amount\<rparr>)"

text \<open>What the three posting sites share: the row, its summary bump, and the push to the beneficiary.\<close>

definition postCommission ::
  "env \<Rightarrow> sale \<Rightarrow> string \<Rightarrow> ledger_status \<times> time option \<Rightarrow> uuid \<Rightarrow> nat \<Rightarrow> int \<Rightarrow> cents \<Rightarrow> string \<Rightarrow> json \<Rightarrow> db \<Rightarrow> db res" where
  "postCommission E sale month st beneficiary level rateBps amount template payload s =
     andThen (createLedgerEntry E
        (newEntry (sa_tenantId sale) (Some (sa_id sale)) beneficiary level rateBps amount Commission (fst st) (snd st) None) s)
       (\<lambda>(_, s1). Inr
         (createNotification (sa_tenantId sale) beneficiary ChPush template payload
           (bumpSummary (sa_tenantId sale, beneficiary, month, level) (creditDelta (fst st) amount) s1)))"

definition postLine :: "env \<Rightarrow> sale \<Rightarrow> string \<Rightarrow> ledger_status \<times> time option \<Rightarrow> commission_line \<Rightarrow> db \<Rightarrow> db res" where
  "postLine E sale month st line =
     postCommission E sale month st (cl_beneficiary line) (cl_level line) (cl_rateBpsUsed line) (cl_amountCents line)
       ''commission_earned''
       (JObj [(''saleId'', JId (sa_id sale)), (''level'', JNum (int (cl_level line))),
              (''amountCents'', JStr (show_int (cl_amountCents line))), (''currency'', JStr (sa_currency sale))])"

text \<open>The running state of the bonus part: \<open>distributedCents\<close>, \<open>bonusCount\<close> and the database.\<close>

record bonus_acc =
  ac_distributed :: cents
  ac_bonusCount :: nat
  ac_db :: db

definition addBonus ::
  "env \<Rightarrow> sale \<Rightarrow> string \<Rightarrow> ledger_status \<times> time option \<Rightarrow> uuid \<Rightarrow> nat \<Rightarrow> int \<Rightarrow> cents \<Rightarrow> string \<Rightarrow> (string \<times> json) list \<Rightarrow>
   bonus_acc \<Rightarrow> bonus_acc res" where
  "addBonus E sale month st member level rateBps amount template extra a =
     (if amount \<le> 0 then Inr a
      else andThen (postCommission E sale month st member level rateBps amount template
            (JObj ([(''saleId'', JId (sa_id sale)), (''amountCents'', JStr (show_int amount))] @ extra)) (ac_db a))
          (\<lambda>s'. Inr \<lparr>ac_distributed = ac_distributed a + amount, ac_bonusCount = ac_bonusCount a + 1, ac_db = s'\<rparr>))"

text \<open>The direct sponsor, when the tenant's policy lets it earn.\<close>

definition earningSponsor :: "tenant \<Rightarrow> chain_member list \<Rightarrow> uuid option" where
  "earningSponsor tenant rawChain =
     (if 1 < length rawChain \<and> (tn_inactiveMembersEarn tenant \<or> snd (rawChain ! 1) = MemberActive)
      then Some (fst (rawChain ! 1)) else None)"

definition fastStartDue :: "commission_plan \<Rightarrow> sale \<Rightarrow> db \<Rightarrow> bool" where
  "fastStartDue plan sale s =
     (pl_fastStartBps plan > 0 \<and> pl_fastStartDays plan > 0 \<and>
      (case findMembership s (sa_sellerMembershipId sale) of
         None \<Rightarrow> False
       | Some seller \<Rightarrow> sa_saleDate sale - mb_joinedAt seller \<le> pl_fastStartDays plan * DAY_MS))"

definition sponsorBonuses ::
  "env \<Rightarrow> sale \<Rightarrow> string \<Rightarrow> ledger_status \<times> time option \<Rightarrow> commission_plan \<Rightarrow> uuid option \<Rightarrow> commission_line list \<Rightarrow>
   bonus_acc \<Rightarrow> bonus_acc res" where
  "sponsorBonuses E sale month st plan sponsor lines a =
     (case sponsor of
        None \<Rightarrow> Inr a
      | Some sponsorId \<Rightarrow>
          if \<not> (pl_fastStartBps plan > 0 \<or> pl_matchingBps plan > 0) then Inr a
          else andThen
            (if fastStartDue plan sale (ac_db a)
             then andThen (bpsAmount (sa_amountCents sale) (pl_fastStartBps plan)) (\<lambda>amount.
                    addBonus E sale month st sponsorId 1000 (pl_fastStartBps plan) amount ''commission_earned'' [] a)
             else Inr a) (\<lambda>a1.
            case lines of
              [] \<Rightarrow> Inr a1
            | line # _ \<Rightarrow>
                if pl_matchingBps plan > 0
                then andThen (bpsAmount (cl_amountCents line) (pl_matchingBps plan)) (\<lambda>amount.
                       addBonus E sale month st sponsorId 1001 (pl_matchingBps plan) amount ''commission_earned'' [] a1)
                else Inr a1))"

definition engineOverrideBps :: "env \<Rightarrow> uuid \<Rightarrow> uuid \<Rightarrow> db \<Rightarrow> int" where
  "engineOverrideBps E tenantId membershipId s = (if env_hasRanks E then overrideBpsFor s tenantId membershipId else 0)"

definition engineMaxOverrideBps :: "env \<Rightarrow> uuid \<Rightarrow> db \<Rightarrow> int" where
  "engineMaxOverrideBps E tenantId s = (if env_hasRanks E then maxOverrideBps s tenantId else 0)"

definition rankOverride ::
  "env \<Rightarrow> sale \<Rightarrow> string \<Rightarrow> ledger_status \<times> time option \<Rightarrow> bonus_acc \<Rightarrow> bonus_acc res" where
  "rankOverride E sale month st a =
     (let seller = sa_sellerMembershipId sale;
          overrideBps = engineOverrideBps E (sa_tenantId sale) seller (ac_db a)
      in if overrideBps > 0
         then andThen (bpsAmount (sa_amountCents sale) overrideBps) (\<lambda>amount.
                addBonus E sale month st seller 1002 overrideBps amount ''rank_override_earned''
                  [(''overrideBps'', JNum overrideBps)] a)
         else Inr a)"

definition ceilingBps :: "env \<Rightarrow> uuid \<Rightarrow> commission_plan \<Rightarrow> db \<Rightarrow> int" where
  "ceilingBps E tenantId plan s =
     pl_poolRateBps plan + pl_fastStartBps plan + pl_matchingBps plan + engineMaxOverrideBps E tenantId s"

definition ceilingMessage :: "uuid \<Rightarrow> cents \<Rightarrow> cents \<Rightarrow> int \<Rightarrow> string" where
  "ceilingMessage saleId distributed ceiling bps =
     ''komisyon dagitim tavani asildi (sale='' @ uuidText saleId @ ''): dagitilan '' @ show_int distributed @
     '' > tavan '' @ show_int ceiling @ '' ('' @ show_int bps @ '' bps)''"

datatype apply_reason = NotApproved | AlreadyApplied

record apply_result =
  ap_applied :: bool
  ap_reason :: "apply_reason option"
  ap_entryCount :: nat

definition pinPlan :: "sale \<Rightarrow> commission_plan \<Rightarrow> db \<Rightarrow> db" where
  "pinPlan sale plan s =
     (if sa_commissionPlanId sale = None
      then updateSale (sa_id sale) (\<lambda>r. r\<lparr>sa_commissionPlanId := Some (pl_id plan)\<rparr>) s else s)"

definition freezeMonth :: "sale \<Rightarrow> string \<Rightarrow> db \<Rightarrow> db" where
  "freezeMonth sale month s =
     (if sa_summaryMonth sale = None
      then updateSale (sa_id sale) (\<lambda>r. r\<lparr>sa_summaryMonth := Some month\<rparr>) s else s)"

text \<open>
  The posting half of \<open>applyCommissionsInTx\<close>: lines, sponsor bonuses, rank override, and the
  ceiling.  BigInt division truncates, which is \<open>div\<close> on the non-negative amounts of a sale.
\<close>

definition distribute ::
  "env \<Rightarrow> sale \<Rightarrow> tenant \<Rightarrow> commission_plan \<Rightarrow> chain_member list \<Rightarrow> commission_line list \<Rightarrow> string \<Rightarrow> db \<Rightarrow>
   (apply_result \<times> db) res" where
  "distribute E sale tenant plan rawChain lines month s =
     (let st = maturation E tenant sale
      in andThen (foldRes (postLine E sale month st) lines s) (\<lambda>s1.
         andThen (sponsorBonuses E sale month st plan (earningSponsor tenant rawChain) lines
             \<lparr>ac_distributed = totalDistributed lines, ac_bonusCount = 0, ac_db = s1\<rparr>) (\<lambda>a1.
         andThen (rankOverride E sale month st a1) (\<lambda>a.
         let bps = ceilingBps E (sa_tenantId sale) plan (ac_db a);
             ceiling = (sa_amountCents sale * bps) div 10000
         in if ac_distributed a > ceiling
            then Inl (Conflict (ceilingMessage (sa_id sale) (ac_distributed a) ceiling bps))
            else Inr (\<lparr>ap_applied = True, ap_reason = None, ap_entryCount = length lines + ac_bonusCount a\<rparr>, ac_db a)))))"

definition commissionRows :: "db \<Rightarrow> uuid \<Rightarrow> nat" where
  "commissionRows s saleId = countWhere (\<lambda>e. le_saleId e = Some saleId \<and> le_type e = Commission) (ledger s)"

definition applyCommissionsInTx :: "env \<Rightarrow> sale \<Rightarrow> db \<Rightarrow> (apply_result \<times> db) res" where
  "applyCommissionsInTx E sale s =
     (if sa_status sale \<noteq> SaleApproved
      then Inr (\<lparr>ap_applied = False, ap_reason = Some NotApproved, ap_entryCount = 0\<rparr>, s)
      else let existing = commissionRows s (sa_id sale) in
        if existing > 0
        then Inr (\<lparr>ap_applied = False, ap_reason = Some AlreadyApplied, ap_entryCount = existing\<rparr>, s)
        else
          andThen (tenantOrThrow s (sa_tenantId sale)) (\<lambda>tenant.
          andThen (resolvePlan (sa_tenantId sale) (sa_saleDate sale) (sa_commissionPlanId sale) s) (\<lambda>plan.
          let s1 = pinPlan sale plan s in
          andThen (uplineChain s1 (Some (sa_sellerMembershipId sale)) (pl_depth plan)) (\<lambda>rawChain.
          andThen (computeCommissionLines (sa_amountCents sale) (planLevels plan) (effectiveBaseChain rawChain tenant)) (\<lambda>lines.
          let month = (case sa_summaryMonth sale of Some m \<Rightarrow> m
                       | None \<Rightarrow> env_month E (sa_saleDate sale) (tn_timezone tenant)) in
          andThen (assertPeriodsOpen s1 (sa_tenantId sale) [month]) (\<lambda>_.
          distribute E sale tenant plan rawChain lines month (freezeMonth sale month s1)))))))"

definition applyCommissions :: "env \<Rightarrow> uuid \<Rightarrow> db \<Rightarrow> (apply_result \<times> db) res" where
  "applyCommissions E saleId s = andThen (lockSale saleId None s) (\<lambda>sale. applyCommissionsInTx E sale s)"

section \<open>Approval\<close>

text \<open>Truthiness of an optional id: \<open>undefined\<close> and \<open>null\<close> are \<open>None\<close>.\<close>

definition selfApproval :: "sale \<Rightarrow> uuid option \<Rightarrow> bool" where
  "selfApproval sale actorUserId = (actorUserId \<noteq> None \<and> sa_createdBy sale \<noteq> None \<and> sa_createdBy sale = actorUserId)"

definition separationOfDuties :: "sale \<Rightarrow> uuid option \<Rightarrow> db \<Rightarrow> db res" where
  "separationOfDuties sale actorUserId s =
     (if selfApproval sale actorUserId
      then andThen (tenantOrThrow s (sa_tenantId sale)) (\<lambda>tenant.
        if tn_requireSeparateApprover tenant
        then Inl (Forbidden ''the sale creator cannot approve the sale (separation of duties)'')
        else Inr (audit (sa_tenantId sale) actorUserId ''security.self_approved_sale'' (sa_id sale) (JObj [])
               (JObj [(''createdBy'', jsonOrNull JId (sa_createdBy sale))]) s))
      else Inr s)"

definition approveSaleInTx ::
  "env \<Rightarrow> uuid \<Rightarrow> uuid option \<Rightarrow> uuid option \<Rightarrow> db \<Rightarrow> (apply_result \<times> db) res" where
  "approveSaleInTx E saleId actorUserId expectedTenantId s =
     andThen (lockSale saleId expectedTenantId s) (\<lambda>sale.
       if sa_status sale = SaleVoid then Inl (Conflict ''voided sales cannot be approved'')
       else if sa_status sale = SaleDraft
       then andThen (separationOfDuties sale actorUserId s) (\<lambda>s1.
         let s2 = updateSale saleId (\<lambda>r. r\<lparr>sa_status := SaleApproved, sa_approvedAt := Some (env_now E),
                                        sa_approvedBy := actorUserId\<rparr>) s1;
             s3 = audit (sa_tenantId sale) actorUserId ''sale.approve'' saleId
                    (JObj [(''status'', JStr ''draft'')]) (JObj [(''status'', JStr ''approved'')]) s2
         in applyCommissionsInTx E (sale\<lparr>sa_status := SaleApproved, sa_approvedAt := Some (env_now E)\<rparr>) s3)
       else applyCommissionsInTx E sale s)"

definition approveSale ::
  "(nat \<Rightarrow> error option) \<Rightarrow> (nat \<Rightarrow> db) \<Rightarrow> env \<Rightarrow> uuid \<Rightarrow> uuid option \<Rightarrow> (apply_result \<times> db) res" where
  "approveSale fault dbAt E saleId actorUserId = engineTx fault dbAt (approveSaleInTx E saleId actorUserId None)"

section \<open>Voiding\<close>

definition statusText :: "sale_status \<Rightarrow> string" where
  "statusText st = (case st of SaleDraft \<Rightarrow> ''draft'' | SaleApproved \<Rightarrow> ''approved'' | SaleVoid \<Rightarrow> ''void'')"

definition voidableEntries :: "db \<Rightarrow> uuid \<Rightarrow> ledger_entry list" where
  "voidableEntries s saleId =
     findManyBy le_level (\<lambda>e. le_saleId e = Some saleId \<and> le_type e = Commission \<and>
        le_status e \<in> {LePending, LePayable, LeProcessing, LePaid}) (ledger s)"

definition reversalOf :: "sale \<Rightarrow> ledger_entry \<Rightarrow> ledger_entry" where
  "reversalOf sale e =
     newEntry (sa_tenantId sale) (Some (sa_id sale)) (le_beneficiary e) (le_level e) (le_rateBpsUsed e)
       (- le_amountCents e) Reversal (if le_status e = LePaid then LePayable else LeReversed) None None"

definition voidDelta :: "ledger_entry \<Rightarrow> summary_delta" where
  "voidDelta e = (if le_status e = LePending then noDelta\<lparr>d_pending := - le_amountCents e\<rparr>
                  else noDelta\<lparr>d_payable := - le_amountCents e\<rparr>)"

definition reverseEntry :: "env \<Rightarrow> sale \<Rightarrow> string \<Rightarrow> ledger_entry \<Rightarrow> db \<Rightarrow> db res" where
  "reverseEntry E sale month e s =
     andThen (createLedgerEntry E (reversalOf sale e) s) (\<lambda>(_, s1).
       let s2 = (if le_status e \<noteq> LePaid then setLedgerStatus (le_id e) LeReversed s1 else s1);
           s3 = bumpSummary (sa_tenantId sale, le_beneficiary e, month, le_level e) (voidDelta e) s2
       in Inr (createNotification (sa_tenantId sale) (le_beneficiary e) ChPush ''commission_reversed''
            (JObj [(''saleId'', JId (sa_id sale)), (''level'', JNum (int (le_level e))),
                   (''amountCents'', JStr (show_int (- le_amountCents e))), (''currency'', JStr (sa_currency sale))]) s3))"

record void_result =
  vo_voided :: bool
  vo_reversalCount :: nat

definition voidSaleInTx ::
  "env \<Rightarrow> uuid \<Rightarrow> uuid option \<Rightarrow> uuid option \<Rightarrow> db \<Rightarrow> (void_result \<times> db) res" where
  "voidSaleInTx E saleId actorUserId expectedTenantId s =
     andThen (lockSale saleId expectedTenantId s) (\<lambda>sale.
       if sa_status sale = SaleVoid then Inr (\<lparr>vo_voided = False, vo_reversalCount = 0\<rparr>, s)
       else let entries = voidableEntries s saleId in
         if list_ex (\<lambda>e. le_status e = LeProcessing) entries
         then Inl (Conflict ''a sale cannot be voided while a linked payout is processing'')
         else
           let s1 = updateSale saleId (\<lambda>r. r\<lparr>sa_status := SaleVoid\<rparr>) s;
               s2 = audit (sa_tenantId sale) actorUserId ''sale.void'' saleId
                      (JObj [(''status'', JStr (statusText (sa_status sale)))]) (JObj [(''status'', JStr ''void'')]) s1
           in if length entries = 0 then Inr (\<lparr>vo_voided = True, vo_reversalCount = 0\<rparr>, s2)
              else andThen (case sa_summaryMonth sale of Some m \<Rightarrow> Inr m | None \<Rightarrow> fallbackMonth E sale s2) (\<lambda>month.
                   andThen (foldRes (reverseEntry E sale month) entries s2) (\<lambda>s3.
                   Inr (\<lparr>vo_voided = True, vo_reversalCount = length entries\<rparr>, s3))))"

definition voidSale ::
  "(nat \<Rightarrow> error option) \<Rightarrow> (nat \<Rightarrow> db) \<Rightarrow> env \<Rightarrow> uuid \<Rightarrow> uuid option \<Rightarrow> (void_result \<times> db) res" where
  "voidSale fault dbAt E saleId actorUserId = engineTx fault dbAt (voidSaleInTx E saleId actorUserId None)"

section \<open>Delivery\<close>

definition deliveryMaturesAt :: "tenant \<Rightarrow> time \<Rightarrow> time" where
  "deliveryMaturesAt t deliveredAt =
     (if tn_maturationRule t = DaysAfterDelivery then deliveredAt + daysOf t * DAY_MS else deliveredAt)"

definition markDelivered :: "uuid \<Rightarrow> time \<Rightarrow> db \<Rightarrow> (bool \<times> db) res" where
  "markDelivered saleId deliveredAt s =
     andThen (lockSale saleId None s) (\<lambda>sale.
       if sa_status sale \<noteq> SaleApproved then Inl (Conflict ''only approved sales can be delivered'')
       else if sa_deliveredAt sale \<noteq> None then Inr (False, s)
       else let s1 = updateSale saleId (\<lambda>r. r\<lparr>sa_deliveredAt := Some deliveredAt\<rparr>) s
         in andThen (tenantOrThrow s1 (sa_tenantId sale)) (\<lambda>tenant.
            Inr (True, s1\<lparr>ledger := updateWhere
              (\<lambda>e. le_saleId e = Some saleId \<and> le_type e = Commission \<and> le_status e = LePending \<and> le_maturesAt e = None)
              (\<lambda>e. e\<lparr>le_maturesAt := Some (deliveryMaturesAt tenant deliveredAt)\<rparr>) (ledger s1)\<rparr>)))"

section \<open>Maturation\<close>

text \<open>
  The month a due row is booked under.  The inner joins drop a row without sale or tenant.
\<close>

definition dueMonth :: "env \<Rightarrow> db \<Rightarrow> ledger_entry \<Rightarrow> string option" where
  "dueMonth E s e =
     (case Option.bind (le_saleId e) (findSale s) of
        None \<Rightarrow> None
      | Some sale \<Rightarrow> (case findTenant s (le_tenantId e) of
            None \<Rightarrow> None
          | Some t \<Rightarrow> Some (case sa_summaryMonth sale of Some m \<Rightarrow> m
                           | None \<Rightarrow> env_month E (sa_saleDate sale) (tn_timezone t))))"

definition isDue :: "env \<Rightarrow> time \<Rightarrow> db \<Rightarrow> ledger_entry \<Rightarrow> bool" where
  "isDue E now s e \<longleftrightarrow>
     le_type e = Commission \<and> le_status e = LePending \<and>
     (case le_maturesAt e of None \<Rightarrow> False | Some t \<Rightarrow> t \<le> now) \<and> dueMonth E s e \<noteq> None"

text \<open>\<open>skipped\<close> are the rows another transaction holds locked (\<open>FOR UPDATE OF le SKIP LOCKED\<close>).\<close>

definition dueRows :: "env \<Rightarrow> time \<Rightarrow> (uuid \<Rightarrow> bool) \<Rightarrow> nat \<Rightarrow> db \<Rightarrow> ledger_entry list" where
  "dueRows E now skipped limit s =
     take (limit + 1) (findManyBy le_createdAt (\<lambda>e. isDue E now s e \<and> \<not> skipped (le_id e)) (ledger s))"

definition matureDelta :: "ledger_entry \<Rightarrow> summary_delta" where
  "matureDelta e = noDelta\<lparr>d_pending := - le_amountCents e, d_payable := le_amountCents e\<rparr>"

definition matureRow :: "ledger_entry \<times> string \<Rightarrow> db \<Rightarrow> db" where
  "matureRow = (\<lambda>(e, month) s.
     bumpSummary (le_tenantId e, le_beneficiary e, month, le_level e) (matureDelta e)
       (setLedgerStatus (le_id e) LePayable s))"

record mature_result =
  ma_matured :: nat
  ma_hasMore :: bool

definition matureCommissions ::
  "env \<Rightarrow> time \<Rightarrow> int \<Rightarrow> (uuid \<Rightarrow> bool) \<Rightarrow> db \<Rightarrow> (mature_result \<times> db) res" where
  "matureCommissions E now limit skipped s =
     (if limit \<le> 0 then Inl (BadRequest ''maturation batch limit must be a positive integer'')
      else let due = dueRows E now skipped (nat limit) s;
               batch = map (\<lambda>e. (e, the (dueMonth E s e))) (take (nat limit) due)
           in Inr (\<lparr>ma_matured = length batch, ma_hasMore = length due > nat limit\<rparr>, fold matureRow batch s))"

section \<open>Rows without a sale\<close>

record bonus_params =
  bp_tenantId :: uuid
  bp_membershipId :: uuid
  bp_amountCents :: cents
  bp_month :: string
  bp_reason :: string
  bp_actorUserId :: "uuid option"
  bp_meta :: "(string \<times> json) list"

definition awardBonusInTx :: "env \<Rightarrow> bonus_params \<Rightarrow> db \<Rightarrow> (uuid \<times> db) res" where
  "awardBonusInTx E p s =
     andThen (assertPeriodsOpen s (bp_tenantId p) [bp_month p]) (\<lambda>_.
     andThen (createLedgerEntry E
        (newEntry (bp_tenantId p) None (bp_membershipId p) 0 0 (bp_amountCents p) Adjustment LePayable None
           (Some (bp_month p))) s) (\<lambda>(entryId, s1).
       let s2 = bumpSummary (bp_tenantId p, bp_membershipId p, bp_month p, 0)
                  (noDelta\<lparr>d_payable := bp_amountCents p\<rparr>) s1;
           s3 = createNotification (bp_tenantId p) (bp_membershipId p) ChPush ''bonus_awarded''
                  (JObj [(''amountCents'', JStr (show_int (bp_amountCents p))), (''reason'', JStr (bp_reason p))]) s2;
           s4 = audit (bp_tenantId p) (bp_actorUserId p) ''campaign.bonus'' entryId (JObj [])
                  (JObj ([(''membershipId'', JId (bp_membershipId p)),
                          (''amountCents'', JStr (show_int (bp_amountCents p))), (''reason'', JStr (bp_reason p))] @
                         bp_meta p)) s3
       in Inr (entryId, s4)))"

section \<open>Lemmas: posting rows\<close>

text \<open>The tables a posting leaves alone.\<close>

definition baseOf :: "db \<Rightarrow> tenant list \<times> membership list \<times> commission_plan list \<times> sale list \<times> period_lock list \<times>
    rank_tier list \<times> payout list \<times> settlement_batch list \<times> batch_item list \<times> bulk_execution list \<times> campaign list" where
  "baseOf s = (tenants s, memberships s, plans s, sales s, periodLocks s, rankTiers s, payouts s, batches s, batchItems s,
     bulkExecutions s, campaigns s)"

text \<open>Rows up to the id and the timestamp the database fills in.\<close>

definition stripRow :: "ledger_entry \<Rightarrow> ledger_entry" where
  "stripRow e = e\<lparr>le_id := 0, le_createdAt := 0\<rparr>"

definition posted :: "db \<Rightarrow> db \<Rightarrow> ledger_entry list \<Rightarrow> bool" where
  "posted s s' es \<longleftrightarrow> (\<exists>xs. ledger s' = ledger s @ xs \<and> map stripRow xs = es) \<and> baseOf s' = baseOf s \<and> keysKept s s'"

definition amountSum :: "ledger_entry list \<Rightarrow> cents" where
  "amountSum es = sum_list (map le_amountCents es)"

lemma amountSum_simps [simp]:
  "amountSum [] = 0" "amountSum (e # es) = le_amountCents e + amountSum es"
  "amountSum (es @ fs) = amountSum es + amountSum fs"
  by (simp_all add: amountSum_def)

lemma posted_refl [simp]: "posted s s []"
  by (simp add: posted_def keysKept_def)

lemma posted_trans: "posted s t es \<Longrightarrow> posted t u fs \<Longrightarrow> posted s u (es @ fs)"
  unfolding posted_def by (metis append.assoc map_append keysKept_trans)

lemma posted_base: "posted s s' es \<Longrightarrow> baseOf s' = baseOf s"
  by (simp add: posted_def)

lemma baseOf_eqD:
  assumes "baseOf s' = baseOf s"
  shows "tenants s' = tenants s" "memberships s' = memberships s" "plans s' = plans s" "sales s' = sales s"
    "periodLocks s' = periodLocks s" "rankTiers s' = rankTiers s" "payouts s' = payouts s"
    "batches s' = batches s" "batchItems s' = batchItems s" "bulkExecutions s' = bulkExecutions s"
    "campaigns s' = campaigns s"
  using assms by (simp_all add: baseOf_def)

definition commissionLevels :: "db \<Rightarrow> uuid \<Rightarrow> nat set" where
  "commissionLevels s sid = le_level ` {e \<in> set (ledger s). le_saleId e = Some sid \<and> le_type e = Commission}"

lemma stripRow_fields [simp]:
  "le_level (stripRow e) = le_level e" "le_saleId (stripRow e) = le_saleId e" "le_type (stripRow e) = le_type e"
  "le_amountCents (stripRow e) = le_amountCents e" "le_status (stripRow e) = le_status e"
  "le_beneficiary (stripRow e) = le_beneficiary e" "le_tenantId (stripRow e) = le_tenantId e"
  by (simp_all add: stripRow_def)

lemma commissionLevels_posted:
  assumes "posted s s' es"
  shows "commissionLevels s' sid = commissionLevels s sid \<union>
    le_level ` {e \<in> set es. le_saleId e = Some sid \<and> le_type e = Commission}"
proof -
  obtain xs where xs: "ledger s' = ledger s @ xs" "map stripRow xs = es" using assms by (auto simp: posted_def)
  have "{e \<in> set es. le_saleId e = Some sid \<and> le_type e = Commission} =
      stripRow ` {e \<in> set xs. le_saleId e = Some sid \<and> le_type e = Commission}"
    unfolding xs(2) [symmetric] by auto
  then have "le_level ` {e \<in> set es. le_saleId e = Some sid \<and> le_type e = Commission} =
      le_level ` {e \<in> set xs. le_saleId e = Some sid \<and> le_type e = Commission}"
    by (simp add: image_image)
  moreover have "{e \<in> set (ledger s'). le_saleId e = Some sid \<and> le_type e = Commission} =
      {e \<in> set (ledger s). le_saleId e = Some sid \<and> le_type e = Commission} \<union>
      {e \<in> set xs. le_saleId e = Some sid \<and> le_type e = Commission}"
    by (auto simp: xs(1))
  ultimately show ?thesis by (simp add: commissionLevels_def image_Un)
qed

lemma commissionRows_0: "commissionRows s sid = 0 \<longleftrightarrow> commissionLevels s sid = {}"
  by (auto simp: commissionRows_def countWhere_0 commissionLevels_def)

text \<open>One posted row: when it succeeds, what it writes, and that it keeps the books.\<close>

definition commissionEntry ::
  "sale \<Rightarrow> ledger_status \<times> time option \<Rightarrow> uuid \<Rightarrow> nat \<Rightarrow> int \<Rightarrow> cents \<Rightarrow> ledger_entry" where
  "commissionEntry sale st b l r amount =
     newEntry (sa_tenantId sale) (Some (sa_id sale)) b l r amount Commission (fst st) (snd st) None"

lemma commissionEntry_fields [simp]:
  "le_level (commissionEntry sale st b l r amount) = l" "le_saleId (commissionEntry sale st b l r amount) = Some (sa_id sale)"
  "le_type (commissionEntry sale st b l r amount) = Commission" "le_amountCents (commissionEntry sale st b l r amount) = amount"
  "le_status (commissionEntry sale st b l r amount) = fst st" "le_beneficiary (commissionEntry sale st b l r amount) = b"
  "le_summaryMonth (commissionEntry sale st b l r amount) = None" "le_rateBpsUsed (commissionEntry sale st b l r amount) = r"
  "le_tenantId (commissionEntry sale st b l r amount) = sa_tenantId sale"
  "stripRow (commissionEntry sale st b l r amount) = commissionEntry sale st b l r amount"
  by (simp_all add: commissionEntry_def newEntry_def stripRow_def)

lemma ledgerKeyTaken_commission:
  "ledgerKeyTaken (commissionEntry sale st b l r amount) (ledger s) \<longleftrightarrow> l \<in> commissionLevels s (sa_id sale)"
  by (auto simp: ledgerKeyTaken_def commissionLevels_def list_ex_iff)

lemma createLedgerEntry_posted:
  assumes "createLedgerEntry E e s = Inr (i, s')"
  shows "posted s s' [stripRow e]"
proof -
  have "ledger s' = ledger s @ [e\<lparr>le_id := freshId s, le_createdAt := env_now E\<rparr>]" "baseOf s' = baseOf s" "keysKept s s'"
    using assms by (auto simp: createLedgerEntry_Inr drawId_def baseOf_def intro: keysKept_frame)
  then show ?thesis by (simp add: posted_def stripRow_def)
qed

lemma posted_quiet: "posted s t es \<Longrightarrow> ledger t' = ledger t \<Longrightarrow> baseOf t' = baseOf t \<Longrightarrow> keysKept t t' \<Longrightarrow> posted s t' es"
  by (auto simp: posted_def intro: keysKept_trans)

lemma postCommission_posted:
  assumes "postCommission E sale month st b l r amount tmpl payload s = Inr s'"
  shows "posted s s' [commissionEntry sale st b l r amount]"
proof -
  obtain i s1 where c: "createLedgerEntry E (commissionEntry sale st b l r amount) s = Inr (i, s1)"
    and s': "s' = createNotification (sa_tenantId sale) b ChPush tmpl payload
       (bumpSummary (sa_tenantId sale, b, month, l) (creditDelta (fst st) amount) s1)"
    using assms by (auto simp: postCommission_def commissionEntry_def)
  have "baseOf s' = baseOf s1" by (simp add: s' baseOf_def createNotification_def drawId_def bumpSummary_def)
  moreover have "keysKept s1 s'" unfolding s' by (rule keysKept_trans [OF keysKept_bump keysKept_frame]) (simp add: createNotification_def drawId_def)
  ultimately show ?thesis using posted_quiet [OF createLedgerEntry_posted [OF c]] s' by simp
qed

lemma awardBonusInTx_posted:
  assumes "awardBonusInTx E p s = Inr (i, s')"
  shows "posted s s' [stripRow (newEntry (bp_tenantId p) None (bp_membershipId p) 0 0 (bp_amountCents p) Adjustment LePayable None
     (Some (bp_month p)))]"
proof -
  obtain s1 where c: "createLedgerEntry E (newEntry (bp_tenantId p) None (bp_membershipId p) 0 0 (bp_amountCents p) Adjustment
      LePayable None (Some (bp_month p))) s = Inr (i, s1)"
    and b: "ledger s' = ledger s1" "baseOf s' = baseOf s1"
      "summaries s' = summaries (bumpSummary (bp_tenantId p, bp_membershipId p, bp_month p, 0) (noDelta\<lparr>d_payable := bp_amountCents p\<rparr>) s1)"
    using assms by (auto simp: awardBonusInTx_def Let_def baseOf_def createNotification_def drawId_def bumpSummary_def audit_def)
  have "keysKept s1 s'" by (rule keysKept_trans [OF keysKept_bump keysKept_frame [OF b(3)]])
  then show ?thesis using posted_quiet [OF createLedgerEntry_posted [OF c] b(1,2)] by blast
qed

lemma postCommission_total:
  "l \<notin> commissionLevels s (sa_id sale) \<Longrightarrow> \<exists>s'. postCommission E sale month st b l r amount tmpl payload s = Inr s'"
  using ledgerKeyTaken_commission [of sale st b l r amount s]
  by (simp add: postCommission_def createLedgerEntry_def commissionEntry_def)

lemma statusPart_creditDelta:
  "fst st \<in> {LePending, LePayable} \<Longrightarrow> st' \<noteq> LeReversed \<Longrightarrow>
   statusPart st' (creditDelta (fst st) amount) = (if fst st = st' then amount else 0)"
  by (cases st') (auto simp: creditDelta_def noDelta_def)

lemma postCommission_books:
  assumes "postCommission E sale month st b l r amount tmpl payload s = Inr s'"
    and "books s" "saleBooking s (sa_id sale) = Some (sa_tenantId sale, month)" "fst st \<in> {LePending, LePayable}"
  shows "books s'"
proof -
  obtain i s1 where c: "createLedgerEntry E (commissionEntry sale st b l r amount) s = Inr (i, s1)"
    and s': "s' = createNotification (sa_tenantId sale) b ChPush tmpl payload
       (bumpSummary (sa_tenantId sale, b, month, l) (creditDelta (fst st) amount) s1)"
    using assms(1) by (auto simp: postCommission_def commissionEntry_def)
  have "books (bumpSummary (sa_tenantId sale, b, month, l) (creditDelta (fst st) amount) s1)"
  proof (rule books_post [OF assms(2) c])
    show "rowLinked (saleBooking s) (commissionEntry sale st b l r amount)"
      using assms(3) by (simp add: rowLinked_def)
    show "ledgerKey s (commissionEntry sale st b l r amount) = Some (sa_tenantId sale, b, month, l)"
      using assms(3) by (simp add: ledgerKey_def bucketMonth_def)
    show "statusPart st' (creditDelta (fst st) amount) =
        (if le_status (commissionEntry sale st b l r amount) = st' then le_amountCents (commissionEntry sale st b l r amount) else 0)"
      if "st' \<noteq> LeReversed" for st'
      using statusPart_creditDelta [OF assms(4) that] by simp
  qed
  then show ?thesis unfolding s' by (rule books_notification)
qed

section \<open>The rows a distribution posts\<close>

text \<open>The abstract specification of a distribution: a pure list of rows, by inputs alone.\<close>

definition bps_share :: "cents \<Rightarrow> int \<Rightarrow> cents" where
  "bps_share amount rate = amount * rate div 10000"

definition lineEntry :: "sale \<Rightarrow> ledger_status \<times> time option \<Rightarrow> commission_line \<Rightarrow> ledger_entry" where
  "lineEntry sale st c = commissionEntry sale st (cl_beneficiary c) (cl_level c) (cl_rateBpsUsed c) (cl_amountCents c)"

definition bonusRow ::
  "sale \<Rightarrow> ledger_status \<times> time option \<Rightarrow> uuid \<Rightarrow> nat \<Rightarrow> int \<Rightarrow> cents \<Rightarrow> ledger_entry list" where
  "bonusRow sale st b l r amount = (if amount \<le> 0 then [] else [commissionEntry sale st b l r amount])"

definition sponsorRows ::
  "sale \<Rightarrow> ledger_status \<times> time option \<Rightarrow> commission_plan \<Rightarrow> uuid option \<Rightarrow> commission_line list \<Rightarrow> bool \<Rightarrow> ledger_entry list" where
  "sponsorRows sale st plan sponsor lines due =
     (case sponsor of
        None \<Rightarrow> []
      | Some sp \<Rightarrow>
          (if due then bonusRow sale st sp 1000 (pl_fastStartBps plan) (bps_share (sa_amountCents sale) (pl_fastStartBps plan)) else []) @
          (case lines of
             [] \<Rightarrow> []
           | c # _ \<Rightarrow> if pl_matchingBps plan > 0
               then bonusRow sale st sp 1001 (pl_matchingBps plan) (bps_share (cl_amountCents c) (pl_matchingBps plan)) else []))"

definition overrideRows :: "sale \<Rightarrow> ledger_status \<times> time option \<Rightarrow> int \<Rightarrow> ledger_entry list" where
  "overrideRows sale st ov =
     (if ov > 0 then bonusRow sale st (sa_sellerMembershipId sale) 1002 ov (bps_share (sa_amountCents sale) ov) else [])"

lemma length_posted_lines: "amountSum (map (lineEntry sale st) lines) = totalDistributed lines"
  by (simp add: amountSum_def totalDistributed_sum lineEntry_def comp_def)

lemma posted_saleBooking: "posted s s' es \<Longrightarrow> saleBooking s' = saleBooking s"
  by (rule saleBooking_frame) (auto dest: posted_base baseOf_eqD(4))

subsection \<open>Lines\<close>

lemma postLine_posted: "postLine E sale month st c s = Inr s' \<Longrightarrow> posted s s' [lineEntry sale st c]"
  unfolding postLine_def lineEntry_def by (rule postCommission_posted)

lemma postLines_posted:
  "foldRes (postLine E sale month st) lines s = Inr s' \<Longrightarrow> posted s s' (map (lineEntry sale st) lines)"
proof (induction lines arbitrary: s)
  case (Cons c cs)
  then obtain t where "postLine E sale month st c s = Inr t" "foldRes (postLine E sale month st) cs t = Inr s'" by auto
  then show ?case using Cons.IH postLine_posted posted_trans [of s t "[lineEntry sale st c]"] by fastforce
qed simp

lemma postLines_books:
  assumes "foldRes (postLine E sale month st) lines s = Inr s'"
    and "books s" "saleBooking s (sa_id sale) = Some (sa_tenantId sale, month)" "fst st \<in> {LePending, LePayable}"
  shows "books s'"
proof -
  have "books s' \<and> saleBooking s' (sa_id sale) = Some (sa_tenantId sale, month)"
  proof (rule foldRes_invariant [OF assms(1), where P = "\<lambda>s. books s \<and> saleBooking s (sa_id sale) = Some (sa_tenantId sale, month)"])
    fix c s t assume s: "books s \<and> saleBooking s (sa_id sale) = Some (sa_tenantId sale, month)" and t: "postLine E sale month st c s = Inr t"
    have "books t" by (rule postCommission_books [OF t [unfolded postLine_def]]) (use s assms(4) in auto)
    then show "books t \<and> saleBooking t (sa_id sale) = Some (sa_tenantId sale, month)"
      using s posted_saleBooking [OF postLine_posted [OF t]] by simp
  qed (use assms in simp)
  then show ?thesis by simp
qed

lemma postLines_total:
  "distinct (map cl_level lines) \<Longrightarrow> cl_level ` set lines \<inter> commissionLevels s (sa_id sale) = {} \<Longrightarrow>
   \<exists>s'. foldRes (postLine E sale month st) lines s = Inr s'"
proof (induction lines arbitrary: s)
  case (Cons c cs)
  have "cl_level c \<notin> commissionLevels s (sa_id sale)" using Cons.prems(2) by auto
  from postCommission_total [OF this] obtain t where t: "postLine E sale month st c s = Inr t"
    unfolding postLine_def by blast
  have "commissionLevels t (sa_id sale) = insert (cl_level c) (commissionLevels s (sa_id sale))"
    using commissionLevels_posted [OF postLine_posted [OF t]] by (auto simp: lineEntry_def)
  then have "cl_level ` set cs \<inter> commissionLevels t (sa_id sale) = {}" using Cons.prems by auto
  then show ?case using Cons.IH Cons.prems(1) t by fastforce
qed simp

subsection \<open>Bonuses\<close>

definition bonusStep :: "bonus_acc \<Rightarrow> bonus_acc \<Rightarrow> ledger_entry list \<Rightarrow> bool" where
  "bonusStep a a' es \<longleftrightarrow> posted (ac_db a) (ac_db a') es \<and>
     ac_distributed a' = ac_distributed a + amountSum es \<and> ac_bonusCount a' = ac_bonusCount a + length es"

lemma bonusStep_refl [simp]: "bonusStep a a []"
  by (simp add: bonusStep_def)

lemma bonusStep_trans: "bonusStep a b es \<Longrightarrow> bonusStep b c fs \<Longrightarrow> bonusStep a c (es @ fs)"
  by (auto simp: bonusStep_def intro: posted_trans)

lemma addBonus_step:
  "addBonus E sale month st m l r amount tmpl extra a = Inr a' \<Longrightarrow> bonusStep a a' (bonusRow sale st m l r amount)"
  by (auto simp: addBonus_def bonusRow_def bonusStep_def dest: postCommission_posted split: if_splits)

lemma addBonus_total:
  "l \<notin> commissionLevels (ac_db a) (sa_id sale) \<Longrightarrow> \<exists>a'. addBonus E sale month st m l r amount tmpl extra a = Inr a'"
  using postCommission_total [of l "ac_db a" sale] by (fastforce simp: addBonus_def)

lemma addBonus_books:
  "addBonus E sale month st m l r amount tmpl extra a = Inr a' \<Longrightarrow> books (ac_db a) \<Longrightarrow>
   saleBooking (ac_db a) (sa_id sale) = Some (sa_tenantId sale, month) \<Longrightarrow> fst st \<in> {LePending, LePayable} \<Longrightarrow> books (ac_db a')"
  by (auto simp: addBonus_def dest: postCommission_books split: if_splits)

lemma bonusStep_month: "bonusStep a a' es \<Longrightarrow> saleBooking (ac_db a') = saleBooking (ac_db a)"
  by (auto simp: bonusStep_def dest: posted_saleBooking)

lemma bpsAmount_share: "bpsAmount a r = Inr x \<Longrightarrow> x = bps_share a r"
  by (simp add: bpsAmount_Inr bps_share_def)

text \<open>The two sponsor bonuses, as two steps.\<close>

lemma sponsorBonuses_cases:
  assumes "sponsorBonuses E sale month st plan sponsor lines a = Inr a'"
  obtains a1 where "bonusStep a a1 (case sponsor of None \<Rightarrow> [] | Some sp \<Rightarrow>
        if fastStartDue plan sale (ac_db a)
        then bonusRow sale st sp 1000 (pl_fastStartBps plan) (bps_share (sa_amountCents sale) (pl_fastStartBps plan)) else [])"
    and "bonusStep a1 a' (case sponsor of None \<Rightarrow> [] | Some sp \<Rightarrow> (case lines of [] \<Rightarrow> [] | c # _ \<Rightarrow>
        if pl_matchingBps plan > 0
        then bonusRow sale st sp 1001 (pl_matchingBps plan) (bps_share (cl_amountCents c) (pl_matchingBps plan)) else []))"
    and "books (ac_db a) \<Longrightarrow> saleBooking (ac_db a) (sa_id sale) = Some (sa_tenantId sale, month) \<Longrightarrow> fst st \<in> {LePending, LePayable} \<Longrightarrow>
        books (ac_db a')"
proof (cases sponsor)
  case None
  then show ?thesis using assms that [of a] by (simp add: sponsorBonuses_def)
next
  case (Some sp)
  show ?thesis
  proof (cases "pl_fastStartBps plan > 0 \<or> pl_matchingBps plan > 0")
    case False
    then have "\<not> fastStartDue plan sale (ac_db a)" "a' = a"
      using assms Some by (auto simp: fastStartDue_def sponsorBonuses_def)
    then show ?thesis using that [of a] Some False by (simp split: list.split)
  next
    case True
    obtain a1 where a1: "(if fastStartDue plan sale (ac_db a)
             then andThen (bpsAmount (sa_amountCents sale) (pl_fastStartBps plan)) (\<lambda>amount.
                    addBonus E sale month st sp 1000 (pl_fastStartBps plan) amount ''commission_earned'' [] a)
             else Inr a) = Inr a1"
      and m: "(case lines of [] \<Rightarrow> Inr a1 | line # _ \<Rightarrow>
                if pl_matchingBps plan > 0
                then andThen (bpsAmount (cl_amountCents line) (pl_matchingBps plan)) (\<lambda>amount.
                       addBonus E sale month st sp 1001 (pl_matchingBps plan) amount ''commission_earned'' [] a1)
                else Inr a1) = Inr a'"
      using assms Some True by (auto simp: sponsorBonuses_def)
    have s1: "bonusStep a a1 (if fastStartDue plan sale (ac_db a)
        then bonusRow sale st sp 1000 (pl_fastStartBps plan) (bps_share (sa_amountCents sale) (pl_fastStartBps plan)) else [])"
      using a1 by (auto dest!: bpsAmount_share addBonus_step split: if_splits)
    have s2: "bonusStep a1 a' (case lines of [] \<Rightarrow> [] | c # _ \<Rightarrow>
        if pl_matchingBps plan > 0
        then bonusRow sale st sp 1001 (pl_matchingBps plan) (bps_share (cl_amountCents c) (pl_matchingBps plan)) else [])"
      using m by (auto dest!: bpsAmount_share addBonus_step split: if_splits list.splits)
    have b: "books (ac_db a')"
      if "books (ac_db a)" "saleBooking (ac_db a) (sa_id sale) = Some (sa_tenantId sale, month)" "fst st \<in> {LePending, LePayable}"
    proof -
      have "books (ac_db a1)" using a1 that by (auto dest: addBonus_books split: if_splits)
      moreover have "saleBooking (ac_db a1) (sa_id sale) = Some (sa_tenantId sale, month)" using bonusStep_month [OF s1] that(2) by simp
      ultimately show ?thesis using m that(3) by (auto dest: addBonus_books split: if_splits list.splits)
    qed
    show ?thesis using that [of a1] s1 s2 b Some by simp
  qed
qed

lemma sponsorBonuses_step:
  assumes "sponsorBonuses E sale month st plan sponsor lines a = Inr a'"
  shows "bonusStep a a' (sponsorRows sale st plan sponsor lines (fastStartDue plan sale (ac_db a)))"
  using assms by (rule sponsorBonuses_cases) (auto simp: sponsorRows_def dest: bonusStep_trans split: option.splits)

lemma sponsorBonuses_books:
  assumes "sponsorBonuses E sale month st plan sponsor lines a = Inr a'" "books (ac_db a)"
    "saleBooking (ac_db a) (sa_id sale) = Some (sa_tenantId sale, month)" "fst st \<in> {LePending, LePayable}"
  shows "books (ac_db a')"
  using assms(1) by (rule sponsorBonuses_cases) (use assms(2-4) in blast)

lemma rankOverride_step:
  assumes "rankOverride E sale month st a = Inr a'"
  shows "bonusStep a a' (overrideRows sale st (engineOverrideBps E (sa_tenantId sale) (sa_sellerMembershipId sale) (ac_db a)))"
  using assms by (auto simp: rankOverride_def overrideRows_def Let_def dest!: bpsAmount_share addBonus_step split: if_splits)

lemma rankOverride_books:
  "rankOverride E sale month st a = Inr a' \<Longrightarrow> books (ac_db a) \<Longrightarrow> saleBooking (ac_db a) (sa_id sale) = Some (sa_tenantId sale, month) \<Longrightarrow>
   fst st \<in> {LePending, LePayable} \<Longrightarrow> books (ac_db a')"
  by (auto simp: rankOverride_def Let_def dest: addBonus_books split: if_splits)

subsection \<open>The whole distribution\<close>

lemma maturation_open: "fst (maturation E tenant sale) \<in> {LePending, LePayable}"
  by (simp add: maturation_def split: maturation_rule.split)

lemma fastStartDue_frame: "baseOf s' = baseOf s \<Longrightarrow> fastStartDue plan sale s' = fastStartDue plan sale s"
  using baseOf_eqD(2) [of s' s] by (simp add: fastStartDue_def findMembership_def)

lemma ceilingBps_frame: "baseOf s' = baseOf s \<Longrightarrow> ceilingBps E t plan s' = ceilingBps E t plan s"
  using maxOverrideBps_frame [of s' s t] baseOf_eqD(6) [of s' s] by (simp add: ceilingBps_def engineMaxOverrideBps_def)

text \<open>
  The rows by their inputs: \<open>ov\<close> is the override rate of the seller once the lines and the sponsor
  bonuses are on the ledger.
\<close>

definition distributionRows ::
  "sale \<Rightarrow> ledger_status \<times> time option \<Rightarrow> commission_plan \<Rightarrow> uuid option \<Rightarrow> commission_line list \<Rightarrow> bool \<Rightarrow> int \<Rightarrow>
   ledger_entry list" where
  "distributionRows sale st plan sponsor lines due ov =
     map (lineEntry sale st) lines @ sponsorRows sale st plan sponsor lines due @ overrideRows sale st ov"

lemma distribute_spec:
  assumes "distribute E sale tenant plan rawChain lines month s = Inr (r, s')"
  obtains t where
    "posted s t (map (lineEntry sale (maturation E tenant sale)) lines @
       sponsorRows sale (maturation E tenant sale) plan (earningSponsor tenant rawChain) lines (fastStartDue plan sale s))"
    "posted s s' (distributionRows sale (maturation E tenant sale) plan (earningSponsor tenant rawChain) lines
       (fastStartDue plan sale s) (engineOverrideBps E (sa_tenantId sale) (sa_sellerMembershipId sale) t))"
    "ap_applied r" "ap_entryCount r = length (distributionRows sale (maturation E tenant sale) plan
       (earningSponsor tenant rawChain) lines (fastStartDue plan sale s)
       (engineOverrideBps E (sa_tenantId sale) (sa_sellerMembershipId sale) t))"
    "amountSum (distributionRows sale (maturation E tenant sale) plan (earningSponsor tenant rawChain) lines
       (fastStartDue plan sale s) (engineOverrideBps E (sa_tenantId sale) (sa_sellerMembershipId sale) t))
     \<le> bps_share (sa_amountCents sale) (ceilingBps E (sa_tenantId sale) plan s)"
    "books s \<Longrightarrow> saleBooking s (sa_id sale) = Some (sa_tenantId sale, month) \<Longrightarrow> books s'"
proof -
  let ?st = "maturation E tenant sale"
  let ?sp = "earningSponsor tenant rawChain"
  obtain s1 a1 a where l: "foldRes (postLine E sale month ?st) lines s = Inr s1"
    and b: "sponsorBonuses E sale month ?st plan ?sp lines
        \<lparr>ac_distributed = totalDistributed lines, ac_bonusCount = 0, ac_db = s1\<rparr> = Inr a1"
    and o1: "rankOverride E sale month ?st a1 = Inr a"
    and c: "\<not> ac_distributed a > (sa_amountCents sale * ceilingBps E (sa_tenantId sale) plan (ac_db a)) div 10000"
    and r: "r = \<lparr>ap_applied = True, ap_reason = None, ap_entryCount = length lines + ac_bonusCount a\<rparr>" "s' = ac_db a"
    using assms unfolding distribute_def Let_def by (auto split: if_splits)
  have p1: "posted s s1 (map (lineEntry sale ?st) lines)" by (rule postLines_posted [OF l])
  have due: "fastStartDue plan sale s1 = fastStartDue plan sale s" by (rule fastStartDue_frame [OF posted_base [OF p1]])
  have b2: "bonusStep \<lparr>ac_distributed = totalDistributed lines, ac_bonusCount = 0, ac_db = s1\<rparr> a1
      (sponsorRows sale ?st plan ?sp lines (fastStartDue plan sale s))"
    using sponsorBonuses_step [OF b] due by simp
  let ?ov = "engineOverrideBps E (sa_tenantId sale) (sa_sellerMembershipId sale) (ac_db a1)"
  have b3: "bonusStep a1 a (overrideRows sale ?st ?ov)" by (rule rankOverride_step [OF o1])
  have b4: "bonusStep \<lparr>ac_distributed = totalDistributed lines, ac_bonusCount = 0, ac_db = s1\<rparr> a
      (sponsorRows sale ?st plan ?sp lines (fastStartDue plan sale s) @ overrideRows sale ?st ?ov)"
    by (rule bonusStep_trans [OF b2 b3])
  have p2: "posted s (ac_db a1) (map (lineEntry sale ?st) lines @
      sponsorRows sale ?st plan ?sp lines (fastStartDue plan sale s))"
    using posted_trans [OF p1] b2 by (simp add: bonusStep_def)
  have p3: "posted s s' (distributionRows sale ?st plan ?sp lines (fastStartDue plan sale s) ?ov)"
    using posted_trans [OF p1] b4 r(2) by (simp add: bonusStep_def distributionRows_def)
  have sum: "ac_distributed a = amountSum (distributionRows sale ?st plan ?sp lines (fastStartDue plan sale s) ?ov)"
    using b4 by (simp add: bonusStep_def distributionRows_def length_posted_lines)
  have ceil: "ceilingBps E (sa_tenantId sale) plan (ac_db a) = ceilingBps E (sa_tenantId sale) plan s"
    using ceilingBps_frame [OF posted_base [OF p3]] r(2) by simp
  show ?thesis
  proof (rule that [OF p2 p3])
    show "ap_applied r" by (simp add: r)
    show "ap_entryCount r = length (distributionRows sale ?st plan ?sp lines (fastStartDue plan sale s) ?ov)"
      using b4 by (simp add: r bonusStep_def distributionRows_def)
    show "amountSum (distributionRows sale ?st plan ?sp lines (fastStartDue plan sale s) ?ov)
      \<le> bps_share (sa_amountCents sale) (ceilingBps E (sa_tenantId sale) plan s)"
      using c sum ceil by (simp add: bps_share_def)
    assume "books s" "saleBooking s (sa_id sale) = Some (sa_tenantId sale, month)"
    moreover have "saleBooking s1 = saleBooking s" "saleBooking (ac_db a1) = saleBooking s"
      using posted_saleBooking [OF p1] posted_saleBooking [OF p2] by simp_all
    ultimately show "books s'"
      using postLines_books [OF l] sponsorBonuses_books [OF b] rankOverride_books [OF o1] maturation_open r(2) by simp
  qed
qed

text \<open>Floored shares add up below the share of the summed rate.\<close>

lemma bps_share_add: "bps_share a r + bps_share a q \<le> bps_share a (r + q)"
  using div_add_le [of "a * r" "a * q"] by (simp add: bps_share_def distrib_left)

lemma bps_share_mono: "0 \<le> a \<Longrightarrow> r \<le> q \<Longrightarrow> bps_share a r \<le> bps_share a q"
  unfolding bps_share_def by (rule scaled_div_mono)

lemma bps_share_nonneg: "0 \<le> a \<Longrightarrow> 0 \<le> r \<Longrightarrow> 0 \<le> bps_share a r"
  by (simp add: bps_share_def pos_imp_zdiv_nonneg_iff)

lemma bps_share_mono_amount: "a \<le> b \<Longrightarrow> 0 \<le> r \<Longrightarrow> bps_share a r \<le> bps_share b r"
  unfolding bps_share_def by (intro zdiv_mono1 mult_right_mono) auto

lemma bps_share_le: "0 \<le> a \<Longrightarrow> r \<le> 10000 \<Longrightarrow> bps_share a r \<le> a"
  using bps_share_mono [of a r 10000] by (simp add: bps_share_def)

lemma amountSum_bonusRow: "amountSum (bonusRow sale st b l r x) = max 0 x"
  by (simp add: bonusRow_def)

lemma line_amount_le:
  assumes "computeCommissionLines a ls chain = Inr lines" "c \<in> set lines" "\<forall>l \<in> set ls. lv_rateBps l \<le> 10000" "0 \<le> a"
  shows "0 < cl_amountCents c" "cl_amountCents c \<le> a"
proof -
  note c = computeCommissionLines_sound [OF assms(1,2)]
  show "0 < cl_amountCents c" using c by blast
  have "cl_rateBpsUsed c \<le> 10000" using c assms(3) by auto
  then show "cl_amountCents c \<le> a" using c bps_share_le [of a "cl_rateBpsUsed c"] assms(4) by (simp add: bps_share_def)
qed

lemma override_le_max:
  "engineOverrideBps E t m s \<le> engineMaxOverrideBps E t s" "0 \<le> engineMaxOverrideBps E t s"
  using ov.rate_le_ceiling [of "(s, t)" m] ov.ceiling_nonneg [of "(s, t)"]
  by (auto simp: engineOverrideBps_def engineMaxOverrideBps_def)

text \<open>Whatever the sponsor, the deadline and the rank are, the rows of a valid plan stay below the ceiling.\<close>

definition bonusRatesOk :: "commission_plan \<Rightarrow> bool" where
  "bonusRatesOk plan \<longleftrightarrow> 0 \<le> pl_fastStartBps plan \<and> pl_fastStartBps plan \<le> 10000 \<and>
     0 \<le> pl_matchingBps plan \<and> pl_matchingBps plan \<le> 10000"

lemma distributionRows_below_ceiling:
  assumes "planRowOk plan" "bonusRatesOk plan" "0 \<le> sa_amountCents sale"
    and "computeCommissionLines (sa_amountCents sale) (planLevels plan) chain = Inr lines"
    and "rate \<le> cap" "0 \<le> cap"
  shows "amountSum (distributionRows sale st plan sponsor lines due rate)
     \<le> bps_share (sa_amountCents sale) (pl_poolRateBps plan + pl_fastStartBps plan + pl_matchingBps plan + cap)"
proof -
  let ?a = "sa_amountCents sale"
  note lv = planLevels_ok [OF assms(1)]
  have lines: "totalDistributed lines \<le> bps_share ?a (pl_poolRateBps plan)"
  proof -
    have "totalDistributed lines \<le> bps_share ?a (\<Sum>l\<leftarrow>planLevels plan. lv_rateBps l)"
      using computeCommissionLines_bound [OF assms(4) _ assms(3)] lv(1) by (simp add: totalDistributed_sum bps_share_def)
    also have "\<dots> \<le> bps_share ?a (pl_poolRateBps plan)" by (rule bps_share_mono [OF assms(3) lv(2)])
    finally show ?thesis .
  qed
  have fs: "0 \<le> bps_share ?a (pl_fastStartBps plan)" and mt: "0 \<le> bps_share ?a (pl_matchingBps plan)"
    using assms(2,3) by (auto simp: bonusRatesOk_def intro: bps_share_nonneg)
  have match: "max 0 (bps_share (cl_amountCents c) (pl_matchingBps plan)) \<le> bps_share ?a (pl_matchingBps plan)"
    if "c \<in> set lines" for c
    using line_amount_le [OF assms(4) that _ assms(3)] lv(1) assms(2) mt
    by (auto simp: bonusRatesOk_def intro: bps_share_mono_amount)
  have sponsor: "amountSum (sponsorRows sale st plan sponsor lines due)
      \<le> bps_share ?a (pl_fastStartBps plan) + bps_share ?a (pl_matchingBps plan)"
  proof (cases lines)
    case Nil
    then show ?thesis using fs mt by (simp add: sponsorRows_def amountSum_bonusRow split: option.split)
  next
    case (Cons c cs)
    then have "max 0 (bps_share (cl_amountCents c) (pl_matchingBps plan)) \<le> bps_share ?a (pl_matchingBps plan)"
      using match [of c] by simp
    then show ?thesis using fs mt Cons by (simp add: sponsorRows_def amountSum_bonusRow split: option.split)
  qed
  have override: "amountSum (overrideRows sale st rate) \<le> bps_share ?a cap"
    using bps_share_mono [OF assms(3,5)] bps_share_nonneg [OF assms(3,6)]
    by (auto simp: overrideRows_def amountSum_bonusRow)
  have "amountSum (distributionRows sale st plan sponsor lines due rate) \<le>
      bps_share ?a (pl_poolRateBps plan) + (bps_share ?a (pl_fastStartBps plan) + bps_share ?a (pl_matchingBps plan)) + bps_share ?a cap"
    using lines sponsor override by (simp add: distributionRows_def length_posted_lines)
  also have "\<dots> \<le> bps_share ?a (pl_poolRateBps plan + pl_fastStartBps plan + pl_matchingBps plan + cap)"
    using bps_share_add [of ?a "pl_poolRateBps plan" "pl_fastStartBps plan"]
      bps_share_add [of ?a "pl_poolRateBps plan + pl_fastStartBps plan" "pl_matchingBps plan"]
      bps_share_add [of ?a "pl_poolRateBps plan + pl_fastStartBps plan + pl_matchingBps plan" cap] by linarith
  finally show ?thesis .
qed

subsection \<open>A distribution of a valid plan always succeeds\<close>

lemma bonusStep_levels:
  "bonusStep a a' es \<Longrightarrow> commissionLevels (ac_db a') sid \<subseteq> commissionLevels (ac_db a) sid \<union> le_level ` set es"
  by (auto simp: bonusStep_def dest: commissionLevels_posted [of _ _ _ sid])

lemma bonusStep_levels_sub:
  assumes "bonusStep a a' es" "le_level ` set es \<subseteq> L"
  shows "commissionLevels (ac_db a') sid \<subseteq> commissionLevels (ac_db a) sid \<union> L"
  using bonusStep_levels [OF assms(1), of sid] assms(2) by blast

lemma bonusRow_level: "le_level ` set (bonusRow sale st b l r x) \<subseteq> {l}"
  by (simp add: bonusRow_def)

lemma sponsorBonuses_total:
  assumes "{1000, 1001} \<inter> commissionLevels (ac_db a) (sa_id sale) = {}" "bonusRatesOk plan"
    "0 \<le> sa_amountCents sale" "\<forall>c \<in> set lines. 0 < cl_amountCents c"
  shows "\<exists>a'. sponsorBonuses E sale month st plan sponsor lines a = Inr a'"
proof (cases "sponsor = None \<or> \<not> (pl_fastStartBps plan > 0 \<or> pl_matchingBps plan > 0)")
  case True
  then show ?thesis by (cases sponsor) (auto simp: sponsorBonuses_def)
next
  case False
  then obtain sp where sp: "sponsor = Some sp" "pl_fastStartBps plan > 0 \<or> pl_matchingBps plan > 0" by auto
  have fs: "bpsAmount (sa_amountCents sale) (pl_fastStartBps plan) = Inr (bps_share (sa_amountCents sale) (pl_fastStartBps plan))"
    using assms(2,3) by (simp add: bpsAmount_Inr bps_share_def bonusRatesOk_def)
  have mt: "bpsAmount (cl_amountCents c) (pl_matchingBps plan) = Inr (bps_share (cl_amountCents c) (pl_matchingBps plan))"
    if "c \<in> set lines" for c
    using assms(2,4) that by (simp add: bpsAmount_Inr bps_share_def bonusRatesOk_def less_imp_le)
  obtain a1 where a1: "(if fastStartDue plan sale (ac_db a)
       then andThen (bpsAmount (sa_amountCents sale) (pl_fastStartBps plan)) (\<lambda>amount.
              addBonus E sale month st sp 1000 (pl_fastStartBps plan) amount ''commission_earned'' [] a)
       else Inr a) = Inr a1"
  proof (cases "fastStartDue plan sale (ac_db a)")
    case True
    have "1000 \<notin> commissionLevels (ac_db a) (sa_id sale)" using assms(1) by auto
    from addBonus_total [OF this] obtain a1 where "addBonus E sale month st sp 1000 (pl_fastStartBps plan)
        (bps_share (sa_amountCents sale) (pl_fastStartBps plan)) ''commission_earned'' [] a = Inr a1" by blast
    then show ?thesis using that [of a1] True fs by simp
  next
    case False
    then show ?thesis using that [of a] by simp
  qed
  have "bonusStep a a1 [] \<or> (\<exists>x. bonusStep a a1 (bonusRow sale st sp 1000 (pl_fastStartBps plan) x))"
    using a1 fs by (auto dest: addBonus_step split: if_splits)
  then have "1001 \<notin> commissionLevels (ac_db a1) (sa_id sale)"
  proof
    assume "bonusStep a a1 []"
    then show ?thesis using bonusStep_levels [of a a1 "[]" "sa_id sale"] assms(1) by auto
  next
    assume "\<exists>x. bonusStep a a1 (bonusRow sale st sp 1000 (pl_fastStartBps plan) x)"
    then obtain x where "bonusStep a a1 (bonusRow sale st sp 1000 (pl_fastStartBps plan) x)" by blast
    from bonusStep_levels_sub [OF this bonusRow_level, of "sa_id sale"] show ?thesis
      using assms(1) by auto
  qed
  from addBonus_total [OF this] have m: "\<exists>a'. addBonus E sale month st sp 1001 (pl_matchingBps plan) x ''commission_earned'' [] a1 = Inr a'" for x
    by blast
  show ?thesis
  proof (cases lines)
    case Nil
    then show ?thesis using a1 sp by (simp add: sponsorBonuses_def)
  next
    case (Cons c cs)
    then show ?thesis using a1 sp m mt [of c] by (auto simp: sponsorBonuses_def)
  qed
qed

lemma rankOverride_total:
  assumes "1002 \<notin> commissionLevels (ac_db a) (sa_id sale)" "0 \<le> sa_amountCents sale"
    "engineOverrideBps E (sa_tenantId sale) (sa_sellerMembershipId sale) (ac_db a) \<le> 10000"
  shows "\<exists>a'. rankOverride E sale month st a = Inr a'"
  using addBonus_total [OF assms(1)] assms(2,3) by (auto simp: rankOverride_def Let_def bpsAmount_def BPS_DENOMINATOR_def)

lemma sponsorRows_levels: "le_level ` set (sponsorRows sale st plan sponsor lines due) \<subseteq> {1000, 1001}"
  by (auto simp: sponsorRows_def bonusRow_def split: option.splits list.splits if_splits)

lemma distribute_total:
  assumes plan: "planRowOk plan" "bonusRatesOk plan" and amount: "0 \<le> sa_amountCents sale"
    and lines: "computeCommissionLines (sa_amountCents sale) (planLevels plan) (effectiveBaseChain rawChain tenant) = Inr lines"
    and none: "commissionLevels s (sa_id sale) = {}" and cap: "engineMaxOverrideBps E (sa_tenantId sale) s \<le> 10000"
  shows "\<exists>r s'. distribute E sale tenant plan rawChain lines month s = Inr (r, s')"
proof -
  let ?st = "maturation E tenant sale"
  let ?sp = "earningSponsor tenant rawChain"
  let ?sid = "sa_id sale"
  note lv = planLevels_ok [OF plan(1)]
  have dist: "distinct (map lv_level (planLevels plan))" unfolding lv(3) by simp
  have small: "cl_level ` set lines \<subseteq> {..<8}"
  proof -
    have "cl_level ` set lines \<subseteq> lv_level ` set (planLevels plan)"
      using computeCommissionLines_sound [OF lines] by fastforce
    also have "\<dots> = set (map lv_level (planLevels plan))" by simp
    also have "\<dots> \<subseteq> {..<8}" unfolding lv(3) using plan(1) by (auto simp: planRowOk_def)
    finally show ?thesis .
  qed
  obtain s1 where l: "foldRes (postLine E sale month ?st) lines s = Inr s1"
    using postLines_total [OF computeCommissionLines_distinct [OF lines dist], of s sale E month ?st] none by auto
  note p1 = postLines_posted [OF l]
  have lev1: "commissionLevels s1 ?sid \<subseteq> {..<8}"
    using commissionLevels_posted [OF p1, of ?sid] none small by (auto simp: lineEntry_def)
  let ?a0 = "\<lparr>ac_distributed = totalDistributed lines, ac_bonusCount = 0, ac_db = s1\<rparr>"
  have pos: "\<forall>c \<in> set lines. 0 < cl_amountCents c"
    using line_amount_le(1) [OF lines _ _ amount] lv(1) by auto
  obtain a1 where b: "sponsorBonuses E sale month ?st plan ?sp lines ?a0 = Inr a1"
  proof -
    have "{1000, 1001} \<inter> commissionLevels (ac_db ?a0) ?sid = {}" using lev1 by auto
    from sponsorBonuses_total [OF this plan(2) amount pos] show ?thesis using that by blast
  qed
  note b2 = sponsorBonuses_step [OF b]
  have lev2: "1002 \<notin> commissionLevels (ac_db a1) ?sid"
  proof -
    have "commissionLevels (ac_db a1) ?sid \<subseteq> {..<8} \<union> {1000, 1001}"
      using bonusStep_levels_sub [OF b2 sponsorRows_levels, of ?sid] lev1 unfolding bonus_acc.simps by blast
    moreover have "(1002::nat) \<notin> {..<8} \<union> {1000, 1001}" by simp
    ultimately show ?thesis by blast
  qed
  have base: "baseOf (ac_db a1) = baseOf s" using b2 posted_base [OF p1] by (auto simp: bonusStep_def dest: posted_base)
  have capE: "engineMaxOverrideBps E t (ac_db a1) = engineMaxOverrideBps E t s" for t
    using maxOverrideBps_frame [of "ac_db a1" s t] baseOf_eqD(6) [OF base] by (simp add: engineMaxOverrideBps_def)
  let ?ov = "engineOverrideBps E (sa_tenantId sale) (sa_sellerMembershipId sale) (ac_db a1)"
  have ov: "?ov \<le> engineMaxOverrideBps E (sa_tenantId sale) s"
    using override_le_max(1) [of E "sa_tenantId sale" "sa_sellerMembershipId sale" "ac_db a1"] capE by simp
  obtain a where o1: "rankOverride E sale month ?st a1 = Inr a"
    using rankOverride_total [OF lev2 amount] ov cap by (meson order_trans)
  note b3 = rankOverride_step [OF o1]
  have due: "fastStartDue plan sale s1 = fastStartDue plan sale s" by (rule fastStartDue_frame [OF posted_base [OF p1]])
  have dist_sum: "ac_distributed a = amountSum (distributionRows sale ?st plan ?sp lines (fastStartDue plan sale s) ?ov)"
    using b2 b3 due by (simp add: bonusStep_def distributionRows_def length_posted_lines)
  have base': "baseOf (ac_db a) = baseOf s" using b3 base by (auto simp: bonusStep_def dest: posted_base)
  have "ac_distributed a \<le> bps_share (sa_amountCents sale) (ceilingBps E (sa_tenantId sale) plan s)"
    unfolding dist_sum ceilingBps_def
    by (rule distributionRows_below_ceiling [OF plan amount lines ov override_le_max(2)])
  then have "ac_distributed a \<le> bps_share (sa_amountCents sale) (ceilingBps E (sa_tenantId sale) plan (ac_db a))"
    using ceilingBps_frame [OF base'] by simp
  then show ?thesis using l b o1 by (auto simp: distribute_def Let_def bps_share_def)
qed

section \<open>Every operation keeps the books\<close>

lemma lockSale_findSale:
  assumes "lockSale saleId expected s = Inr sale" "books s"
  shows "findSale s saleId = Some sale" "sa_id sale = saleId"
proof -
  have f: "find (\<lambda>r. sa_id r = saleId \<and> (expected = None \<or> expected = Some (sa_tenantId r))) (sales s) = Some sale"
    using assms(1) by (simp add: lockSale_def)
  show "findSale s saleId = Some sale"
    unfolding findSale_def using find_unique_key [OF _ f] assms(2) by (simp add: books_def idsFresh_def)
  show "sa_id sale = saleId" using find_SomeD [OF f] by simp
qed

lemma findSale_updateSale_same:
  "findSale s sid = Some r \<Longrightarrow> (\<And>r. sa_id (f r) = sa_id r) \<Longrightarrow> findSale (updateSale sid f s) sid = Some (f r)"
  by (simp add: findSale_updateSale)

lemma pinPlan_books:
  assumes "books s" "findSale s (sa_id sale) = Some row"
  shows "books (pinPlan sale plan s)" "\<exists>row'. findSale (pinPlan sale plan s) (sa_id sale) = Some row' \<and>
    sa_summaryMonth row' = sa_summaryMonth row \<and> sa_tenantId row' = sa_tenantId row"
proof -
  show "books (pinPlan sale plan s)" using assms(1) by (auto simp: pinPlan_def intro: books_updateSale)
  show "\<exists>row'. findSale (pinPlan sale plan s) (sa_id sale) = Some row' \<and>
      sa_summaryMonth row' = sa_summaryMonth row \<and> sa_tenantId row' = sa_tenantId row"
    using assms(2) by (auto simp: pinPlan_def findSale_updateSale)
qed

lemma freezeMonth_books:
  assumes "books s" "findSale s (sa_id sale) = Some row" "sa_summaryMonth row = sa_summaryMonth sale"
    "sa_tenantId row = sa_tenantId sale" "month = (case sa_summaryMonth sale of Some m \<Rightarrow> m | None \<Rightarrow> m0)"
  shows "books (freezeMonth sale month s)" "saleBooking (freezeMonth sale month s) (sa_id sale) = Some (sa_tenantId sale, month)"
proof -
  show "books (freezeMonth sale month s)" using assms(1-3) books_freeze by (auto simp: freezeMonth_def)
  show "saleBooking (freezeMonth sale month s) (sa_id sale) = Some (sa_tenantId sale, month)"
  proof (cases "sa_summaryMonth sale")
    case None
    then show ?thesis using saleBooking_freeze [OF assms(2)] assms(4) by (simp add: freezeMonth_def)
  next
    case (Some m)
    then show ?thesis using assms(2-5) by (simp add: freezeMonth_def saleBooking_def)
  qed
qed

text \<open>The inputs a successful application computed, and the distribution it ran.\<close>

lemma applyCommissionsInTx_cases:
  assumes "applyCommissionsInTx E sale s = Inr (r, s')"
  obtains (not_approved) "sa_status sale \<noteq> SaleApproved" "r = \<lparr>ap_applied = False, ap_reason = Some NotApproved, ap_entryCount = 0\<rparr>" "s' = s"
  | (already) "sa_status sale = SaleApproved" "commissionRows s (sa_id sale) > 0"
      "r = \<lparr>ap_applied = False, ap_reason = Some AlreadyApplied, ap_entryCount = commissionRows s (sa_id sale)\<rparr>" "s' = s"
  | (applied) tenant plan rawChain lines month where "sa_status sale = SaleApproved" "commissionRows s (sa_id sale) = 0"
      "tenantOrThrow s (sa_tenantId sale) = Inr tenant"
      "resolvePlan (sa_tenantId sale) (sa_saleDate sale) (sa_commissionPlanId sale) s = Inr plan"
      "uplineChain (pinPlan sale plan s) (Some (sa_sellerMembershipId sale)) (pl_depth plan) = Inr rawChain"
      "computeCommissionLines (sa_amountCents sale) (planLevels plan) (effectiveBaseChain rawChain tenant) = Inr lines"
      "month = (case sa_summaryMonth sale of Some m \<Rightarrow> m | None \<Rightarrow> env_month E (sa_saleDate sale) (tn_timezone tenant))"
      "assertPeriodsOpen (pinPlan sale plan s) (sa_tenantId sale) [month] = Inr ()"
      "distribute E sale tenant plan rawChain lines month (freezeMonth sale month (pinPlan sale plan s)) = Inr (r, s')"
proof (cases "sa_status sale \<noteq> SaleApproved")
  case True
  then show ?thesis using assms not_approved by (simp add: applyCommissionsInTx_def)
next
  case False
  show ?thesis
  proof (cases "commissionRows s (sa_id sale) > 0")
    case True
    have st: "sa_status sale = SaleApproved" using False by simp
    have "(r, s') = (\<lparr>ap_applied = False, ap_reason = Some AlreadyApplied, ap_entryCount = commissionRows s (sa_id sale)\<rparr>, s)"
      using assms unfolding applyCommissionsInTx_def Let_def if_not_P [OF False] if_P [OF True] by (metis sum.inject(2))
    then show ?thesis using already [OF st True] by simp
  next
    case zero: False
    then have z: "commissionRows s (sa_id sale) = 0" by simp
    have st: "sa_status sale = SaleApproved" using False by simp
    show ?thesis
      using assms unfolding applyCommissionsInTx_def Let_def if_not_P [OF False] if_not_P [OF zero] andThen_Inr_iff ex_unit
      by (elim exE conjE, intro applied [OF st z]) (assumption | rule refl)+
  qed
qed

lemma applyCommissionsInTx_books:
  assumes "applyCommissionsInTx E sale s = Inr (r, s')" "books s"
    "findSale s (sa_id sale) = Some row" "sa_summaryMonth row = sa_summaryMonth sale" "sa_tenantId row = sa_tenantId sale"
  shows "books s'"
  using assms(1)
proof (cases rule: applyCommissionsInTx_cases)
  case (applied tenant plan rawChain lines month)
  note pin = pinPlan_books [OF assms(2,3), of plan]
  from pin(2) assms(4,5) obtain row' where row': "findSale (pinPlan sale plan s) (sa_id sale) = Some row'"
    "sa_summaryMonth row' = sa_summaryMonth sale" "sa_tenantId row' = sa_tenantId sale" by auto
  note fr = freezeMonth_books [OF pin(1) row' applied(7)]
  show ?thesis using applied(9) by (rule distribute_spec) (use fr in simp)
qed (use assms(2) in simp_all)

lemma separationOfDuties_Inr:
  "separationOfDuties sale actor s = Inr s' \<Longrightarrow> s' = s \<or> (\<exists>a b c. s' = audit (sa_tenantId sale) actor a (sa_id sale) b c s)"
  by (auto simp: separationOfDuties_def split: if_splits)

lemma findSale_audit [simp]: "findSale (audit t u a i b c s) x = findSale s x"
  by (simp add: findSale_def)

lemma approveSaleInTx_books:
  assumes "approveSaleInTx E saleId actor expected s = Inr (r, s')" "books s"
  shows "books s'"
proof -
  obtain sale where lock: "lockSale saleId expected s = Inr sale"
    using assms(1) by (auto simp: approveSaleInTx_def)
  note f = lockSale_findSale [OF lock assms(2)]
  show ?thesis
  proof (cases "sa_status sale = SaleDraft")
    case False
    then have "applyCommissionsInTx E sale s = Inr (r, s')"
      using assms(1) lock by (auto simp: approveSaleInTx_def split: if_splits)
    then show ?thesis using applyCommissionsInTx_books assms(2) f by metis
  next
    case True
    let ?f = "\<lambda>r. r\<lparr>sa_status := SaleApproved, sa_approvedAt := Some (env_now E), sa_approvedBy := actor\<rparr>"
    obtain s1 where s1: "separationOfDuties sale actor s = Inr s1"
      and ap: "applyCommissionsInTx E (sale\<lparr>sa_status := SaleApproved, sa_approvedAt := Some (env_now E)\<rparr>)
        (audit (sa_tenantId sale) actor ''sale.approve'' saleId
           (JObj [(''status'', JStr ''draft'')]) (JObj [(''status'', JStr ''approved'')]) (updateSale saleId ?f s1)) = Inr (r, s')"
      using assms(1) lock True by (auto simp: approveSaleInTx_def Let_def)
    have b1: "books s1" and f1: "findSale s1 saleId = Some sale"
      using separationOfDuties_Inr [OF s1] assms(2) books_audit f(1) by auto
    have "books (updateSale saleId ?f s1)" by (rule books_updateSale [OF b1]) simp_all
    moreover have "findSale (updateSale saleId ?f s1) saleId = Some (?f sale)"
      by (rule findSale_updateSale_same [OF f1]) simp
    ultimately show ?thesis
      by (intro applyCommissionsInTx_books [OF ap books_audit, where row = "?f sale"]) (use f(2) in simp_all)
  qed
qed

lemma applyCommissions_books:
  assumes "applyCommissions E saleId s = Inr (r, s')" "books s"
  shows "books s'"
proof -
  obtain sale where lock: "lockSale saleId None s = Inr sale" "applyCommissionsInTx E sale s = Inr (r, s')"
    using assms(1) by (auto simp: applyCommissions_def)
  show ?thesis using applyCommissionsInTx_books [OF lock(2) assms(2)] lockSale_findSale [OF lock(1) assms(2)] by metis
qed

lemma awardBonusInTx_books:
  assumes "awardBonusInTx E p s = Inr (i, s')" "books s"
  shows "books s'"
proof -
  let ?e = "newEntry (bp_tenantId p) None (bp_membershipId p) 0 0 (bp_amountCents p) Adjustment LePayable None (Some (bp_month p))"
  obtain s1 where c: "createLedgerEntry E ?e s = Inr (i, s1)" and s': "\<exists>a b t u v w x y z z'. s' = audit a b t i u v
      (createNotification w x ChPush y z (bumpSummary (bp_tenantId p, bp_membershipId p, bp_month p, 0)
          (noDelta\<lparr>d_payable := bp_amountCents p\<rparr>) s1))"
    using assms(1) by (fastforce simp: awardBonusInTx_def Let_def)
  have "books (bumpSummary (bp_tenantId p, bp_membershipId p, bp_month p, 0) (noDelta\<lparr>d_payable := bp_amountCents p\<rparr>) s1)"
  proof (rule books_post [OF assms(2) c])
    show "rowLinked (saleBooking s) ?e" "ledgerKey s ?e = Some (bp_tenantId p, bp_membershipId p, bp_month p, 0)"
      by (simp_all add: rowLinked_def ledgerKey_def bucketMonth_def newEntry_def)
    show "statusPart st (noDelta\<lparr>d_payable := bp_amountCents p\<rparr>) = (if le_status ?e = st then le_amountCents ?e else 0)"
      if "st \<noteq> LeReversed" for st
      using that by (cases st) (simp_all add: noDelta_def newEntry_def)
  qed
  then show ?thesis using s' books_audit books_notification by blast
qed

lemma markDelivered_books:
  assumes "markDelivered saleId at s = Inr (d, s')" "books s"
  shows "books s'"
proof (cases "s' = s")
  case True
  then show ?thesis using assms(2) by simp
next
  case False
  then obtain tenant where s': "s' = (updateSale saleId (\<lambda>r. r\<lparr>sa_deliveredAt := Some at\<rparr>) s)\<lparr>ledger := updateWhere
      (\<lambda>e. le_saleId e = Some saleId \<and> le_type e = Commission \<and> le_status e = LePending \<and> le_maturesAt e = None)
      (\<lambda>e. e\<lparr>le_maturesAt := Some (deliveryMaturesAt tenant at)\<rparr>)
      (ledger (updateSale saleId (\<lambda>r. r\<lparr>sa_deliveredAt := Some at\<rparr>) s))\<rparr>"
    using assms(1) by (auto simp: markDelivered_def Let_def split: if_splits)
  have b: "books (updateSale saleId (\<lambda>r. r\<lparr>sa_deliveredAt := Some at\<rparr>) s)"
    by (rule books_updateSale [OF assms(2)]) simp_all
  show ?thesis unfolding s' by (rule books_update_quiet [OF b]) (simp_all add: quiet_update_def)
qed

subsection \<open>Voiding\<close>

lemma reversalOf_fields [simp]:
  "le_level (reversalOf sale e) = le_level e" "le_saleId (reversalOf sale e) = Some (sa_id sale)"
  "le_type (reversalOf sale e) = Reversal" "le_amountCents (reversalOf sale e) = - le_amountCents e"
  "le_status (reversalOf sale e) = (if le_status e = LePaid then LePayable else LeReversed)"
  "le_beneficiary (reversalOf sale e) = le_beneficiary e" "le_summaryMonth (reversalOf sale e) = None"
  "le_tenantId (reversalOf sale e) = sa_tenantId sale"
  by (simp_all add: reversalOf_def newEntry_def)

lemma linked_row:
  assumes "linked s" "e \<in> set (ledger s)" "le_saleId e = Some sid" "saleBooking s sid = Some (t, month)"
  shows "le_tenantId e = t" "ledgerKey s e = Some (t, le_beneficiary e, month, le_level e)"
  using assms by (fastforce simp: linked_def rowLinked_def ledgerKey_def bucketMonth_def)+

lemma reverseEntry_books:
  assumes "reverseEntry E sale month e s = Inr s'" "books s" "e \<in> set (ledger s)" "le_saleId e = Some (sa_id sale)"
    "saleBooking s (sa_id sale) = Some (sa_tenantId sale, month)" "le_status e \<in> {LePending, LePayable, LePaid}"
  shows "books s'"
proof -
  let ?k = "(sa_tenantId sale, le_beneficiary e, month, le_level e)"
  obtain i s1 where c: "createLedgerEntry E (reversalOf sale e) s = Inr (i, s1)"
    and s': "\<exists>a b c d f. s' = createNotification a b c d f (bumpSummary ?k (voidDelta e)
       (if le_status e \<noteq> LePaid then setLedgerStatus (le_id e) LeReversed s1 else s1))"
    using assms(1) by (fastforce simp: reverseEntry_def Let_def)
  have lk: "rowLinked (saleBooking s) (reversalOf sale e)" using assms(5) by (simp add: rowLinked_def)
  have key: "ledgerKey s (reversalOf sale e) = Some ?k" "ledgerKey s e = Some ?k"
    using assms(5) linked_row(2) [OF _ assms(3-5)] assms(2) by (simp_all add: ledgerKey_def bucketMonth_def books_def)
  have "books (bumpSummary ?k (voidDelta e) (if le_status e \<noteq> LePaid then setLedgerStatus (le_id e) LeReversed s1 else s1))"
  proof (cases "le_status e = LePaid")
    case True
    have d: "statusPart st (voidDelta e) = (if le_status (reversalOf sale e) = st then le_amountCents (reversalOf sale e) else 0)"
      if "st \<noteq> LeReversed" for st
      using True that by (cases st) (simp_all add: voidDelta_def noDelta_def)
    show ?thesis using books_post [OF assms(2) c lk key(1) d] True by simp
  next
    case False
    have "books s1" using books_create_reversed [OF assms(2) c lk] False by simp
    moreover have "e \<in> set (ledger s1)" using assms(3) c by (auto simp: createLedgerEntry_Inr)
    moreover have "ledgerKey s1 e = Some ?k" using key(2) ledgerKey_create [OF c] by simp
    moreover have "statusPart st (voidDelta e) = (if st = LeReversed then le_amountCents e else 0) -
        (if st = le_status e then le_amountCents e else 0)" if "st \<noteq> LeReversed" for st
      using False assms(6) that by (cases st) (auto simp: voidDelta_def noDelta_def)
    moreover have "le_status e \<noteq> LeProcessing" using assms(6) by auto
    ultimately show ?thesis using books_move False by simp
  qed
  then show ?thesis using s' books_notification by blast
qed

text \<open>What one reversal leaves for the next: the other rows, and the sale's booking.\<close>

lemma reverseEntry_ledger:
  assumes "reverseEntry E sale month e s = Inr s'"
  obtains row where
    "ledger s' = (if le_status e \<noteq> LePaid
       then updateWhere (\<lambda>r. le_id r = le_id e) (\<lambda>r. r\<lparr>le_status := LeReversed\<rparr>) (ledger s @ [row])
       else ledger s @ [row])"
    "stripRow row = reversalOf sale e" "le_id row = freshId s" "sales s' = sales s"
proof -
  obtain i s1 where c: "createLedgerEntry E (reversalOf sale e) s = Inr (i, s1)"
    and s': "\<exists>a b c d f g h. s' = createNotification a b c d f (bumpSummary g h
       (if le_status e \<noteq> LePaid then setLedgerStatus (le_id e) LeReversed s1 else s1))"
    using assms(1) by (fastforce simp: reverseEntry_def Let_def)
  let ?row = "(reversalOf sale e)\<lparr>le_id := freshId s, le_createdAt := env_now E\<rparr>"
  have l: "ledger s1 = ledger s @ [?row]" "sales s1 = sales s" using c by (auto simp: createLedgerEntry_Inr drawId_def)
  show ?thesis
  proof (rule that [of ?row])
    show "ledger s' = (if le_status e \<noteq> LePaid
       then updateWhere (\<lambda>r. le_id r = le_id e) (\<lambda>r. r\<lparr>le_status := LeReversed\<rparr>) (ledger s @ [?row])
       else ledger s @ [?row])"
      using s' l(1) by (auto simp: setLedgerStatus_def)
    show "stripRow ?row = reversalOf sale e" by (simp add: stripRow_def reversalOf_def newEntry_def)
    show "le_id ?row = freshId s" by simp
    show "sales s' = sales s" using s' l(2) by auto
  qed
qed

lemma reverseEntries_books:
  assumes "foldRes (reverseEntry E sale month) es s = Inr s'" "books s" "distinct (map le_id es)"
    "\<forall>e \<in> set es. e \<in> set (ledger s) \<and> le_saleId e = Some (sa_id sale) \<and> le_status e \<in> {LePending, LePayable, LePaid}"
    "saleBooking s (sa_id sale) = Some (sa_tenantId sale, month)"
  shows "books s'"
  using assms
proof (induction es arbitrary: s)
  case (Cons e es)
  from Cons.prems(1) obtain t where t: "reverseEntry E sale month e s = Inr t"
    and rest: "foldRes (reverseEntry E sale month) es t = Inr s'" by auto
  have "books t" by (rule reverseEntry_books [OF t Cons.prems(2)]) (use Cons.prems in auto)
  moreover have "x \<in> set (ledger t)" if "x \<in> set es" for x
  proof -
    obtain row where row: "ledger t = (if le_status e \<noteq> LePaid
       then updateWhere (\<lambda>r. le_id r = le_id e) (\<lambda>r. r\<lparr>le_status := LeReversed\<rparr>) (ledger s @ [row])
       else ledger s @ [row])"
      using reverseEntry_ledger [OF t] by metis
    have "le_id x \<noteq> le_id e" by (rule distinct_map_Cons_neq [OF Cons.prems(3) that])
    then show ?thesis using row Cons.prems(4) that by (auto simp: set_updateWhere image_iff)
  qed
  moreover have "saleBooking t = saleBooking s"
    using reverseEntry_ledger [OF t] saleBooking_frame by metis
  ultimately show ?case using Cons.IH [OF rest] Cons.prems(3-5) by simp
qed simp

lemma voidSaleInTx_books:
  assumes "voidSaleInTx E saleId actor expected s = Inr (r, s')" "books s"
  shows "books s'"
proof -
  obtain sale where lock: "lockSale saleId expected s = Inr sale"
    using assms(1) by (auto simp: voidSaleInTx_def)
  note f = lockSale_findSale [OF lock assms(2)]
  show ?thesis
  proof (cases "s' = s")
    case True
    then show ?thesis using assms(2) by simp
  next
    case False
    let ?es = "voidableEntries s saleId"
    let ?u = "updateSale saleId (\<lambda>r. r\<lparr>sa_status := SaleVoid\<rparr>) s"
    have np: "\<not> list_ex (\<lambda>e. le_status e = LeProcessing) ?es"
      using assms(1) lock False by (auto simp: voidSaleInTx_def Let_def split: if_splits)
    have bu: "books ?u" by (rule books_updateSale [OF assms(2)]) simp_all
    let ?v = "audit (sa_tenantId sale) actor ''sale.void'' saleId (JObj [(''status'', JStr (statusText (sa_status sale)))])
                (JObj [(''status'', JStr ''void'')]) ?u"
    have v: "if length ?es = 0 then s' = ?v
        else \<exists>month. (case sa_summaryMonth sale of Some m \<Rightarrow> Inr m | None \<Rightarrow> fallbackMonth E sale ?v) = Inr month \<and>
          foldRes (reverseEntry E sale month) ?es ?v = Inr s'"
      using assms(1) lock False np by (auto simp: voidSaleInTx_def Let_def split: if_splits)
    have bv: "books ?v" by (rule books_audit [OF bu])
    show ?thesis
    proof (cases "length ?es = 0")
      case True
      then show ?thesis using v bv by simp
    next
      case ne: False
      then obtain month where m: "(case sa_summaryMonth sale of Some m \<Rightarrow> Inr m | None \<Rightarrow> fallbackMonth E sale ?v) = Inr month"
        and fold: "foldRes (reverseEntry E sale month) ?es ?v = Inr s'" using v by auto
      have es: "e \<in> set (ledger s) \<and> le_saleId e = Some saleId \<and> le_status e \<in> {LePending, LePayable, LePaid}"
        if "e \<in> set ?es" for e
        using that np by (auto simp: voidableEntries_def list_ex_iff)
      obtain e where e: "e \<in> set ?es" using ne by (cases ?es) auto
      have "rowLinked (saleBooking s) e" using es [OF e] assms(2) by (simp add: books_def linked_def)
      then obtain t m0 where "saleBooking s saleId = Some (t, m0)" using es [OF e] by (auto simp: rowLinked_def)
      then have sm: "sa_summaryMonth sale = Some month" using f(1) m by (auto simp: saleBooking_def)
      have fu: "findSale ?v saleId = Some (sale\<lparr>sa_status := SaleVoid\<rparr>)"
        using findSale_updateSale_same [OF f(1)] by simp
      show ?thesis
      proof (rule reverseEntries_books [OF fold bv])
        have "distinct (map le_id (ledger s))" using assms(2) by (simp add: books_def idsFresh_def)
        then show "distinct (map le_id ?es)"
          by (simp add: voidableEntries_def findManyBy_def distinct_map_sort_key distinct_map_filter)
        show "\<forall>e \<in> set ?es. e \<in> set (ledger ?v) \<and> le_saleId e = Some (sa_id sale) \<and> le_status e \<in> {LePending, LePayable, LePaid}"
          using es f(2) by (auto simp: updateSale_def)
        show "saleBooking ?v (sa_id sale) = Some (sa_tenantId sale, month)"
          using fu sm f(2) by (simp add: saleBooking_def)
      qed
    qed
  qed
qed

subsection \<open>Maturation\<close>

lemma matureRow_books:
  assumes "books s" "e \<in> set (ledger s)" "ledgerKey s e = Some (le_tenantId e, le_beneficiary e, month, le_level e)"
    "le_status e = LePending"
  shows "books (matureRow (e, month) s)"
proof -
  have "statusPart st (matureDelta e) = (if st = LePayable then le_amountCents e else 0) -
      (if st = le_status e then le_amountCents e else 0)" if "st \<noteq> LeReversed" for st
    using assms(4) that by (cases st) (simp_all add: matureDelta_def noDelta_def)
  moreover have "le_status e \<noteq> LeProcessing" "le_status e \<noteq> LePaid" using assms(4) by simp_all
  ultimately show ?thesis using books_move [OF assms(1-3)] by (simp add: matureRow_def)
qed

lemma matureRow_frames:
  "ledger (matureRow (e, month) s) = updateWhere (\<lambda>r. le_id r = le_id e) (\<lambda>r. r\<lparr>le_status := LePayable\<rparr>) (ledger s)"
  "saleBooking (matureRow (e, month) s) = saleBooking s"
proof -
  show "ledger (matureRow (e, month) s) = updateWhere (\<lambda>r. le_id r = le_id e) (\<lambda>r. r\<lparr>le_status := LePayable\<rparr>) (ledger s)"
    by (simp add: matureRow_def setLedgerStatus_def)
  show "saleBooking (matureRow (e, month) s) = saleBooking s" by (simp add: matureRow_def)
qed

lemma dueMonth_ledgerKey:
  assumes "linked s" "e \<in> set (ledger s)" "dueMonth E s e = Some month"
  shows "ledgerKey s e = Some (le_tenantId e, le_beneficiary e, month, le_level e)"
proof -
  obtain sid sale where sid: "le_saleId e = Some sid" "findSale s sid = Some sale"
    using assms(3) by (auto simp: dueMonth_def split: option.splits bind_splits)
  have "rowLinked (saleBooking s) e" using assms(1,2) by (simp add: linked_def)
  then obtain m where m: "sa_summaryMonth sale = Some m" "sa_tenantId sale = le_tenantId e" "le_summaryMonth e = None"
    using sid by (auto simp: rowLinked_def saleBooking_def split: bind_splits)
  have "month = m" using assms(3) sid m by (auto simp: dueMonth_def split: option.splits)
  then show ?thesis using sid m by (simp add: ledgerKey_def bucketMonth_def saleBooking_def)
qed

lemma matureRows_books:
  assumes "books s" "distinct (map (le_id \<circ> fst) batch)"
    "\<forall>(e, m) \<in> set batch. e \<in> set (ledger s) \<and> le_status e = LePending \<and>
       ledgerKey s e = Some (le_tenantId e, le_beneficiary e, m, le_level e)"
  shows "books (fold matureRow batch s)"
  using assms
proof (induction batch arbitrary: s)
  case (Cons em batch)
  obtain e m where em: "em = (e, m)" by (cases em)
  let ?t = "matureRow (e, m) s"
  have b: "books ?t" using matureRow_books Cons.prems em by auto
  have "x \<in> set (ledger ?t) \<and> le_status x = LePending \<and> ledgerKey ?t x = Some (le_tenantId x, le_beneficiary x, n, le_level x)"
    if "(x, n) \<in> set batch" for x n
  proof -
    have "le_id x \<noteq> le_id e" using distinct_map_Cons_neq [OF Cons.prems(2) that] em by simp
    then have "x \<in> set (ledger ?t)" using Cons.prems(3) that by (force simp: matureRow_frames set_updateWhere image_iff)
    moreover have "ledgerKey ?t x = ledgerKey s x" using ledgerKey_frame [OF matureRow_frames(2)] by metis
    ultimately show ?thesis using Cons.prems(3) that by auto
  qed
  then have "books (fold matureRow batch ?t)" using Cons.IH [OF b] Cons.prems(2) by auto
  then show ?case using em by simp
qed simp

lemma matureCommissions_books:
  assumes "matureCommissions E now limit skipped s = Inr (r, s')" "books s"
  shows "books s'"
proof -
  let ?rows = "take (nat limit) (dueRows E now skipped (nat limit) s)"
  have s': "s' = fold matureRow (map (\<lambda>e. (e, the (dueMonth E s e))) ?rows) s"
    using assms(1) by (auto simp: matureCommissions_def Let_def split: if_splits)
  have in_due: "e \<in> set (ledger s) \<and> isDue E now s e" if "e \<in> set ?rows" for e
    using in_set_takeD [OF that] by (auto simp: dueRows_def dest!: in_set_takeD)
  have "distinct (map le_id (ledger s))" using assms(2) by (simp add: books_def idsFresh_def)
  then have dist: "distinct (map le_id ?rows)"
    by (simp add: dueRows_def findManyBy_def distinct_map_sort_key distinct_map_filter distinct_take flip: take_map)
  show ?thesis unfolding s'
  proof (rule matureRows_books [OF assms(2)])
    show "distinct (map (le_id \<circ> fst) (map (\<lambda>e. (e, the (dueMonth E s e))) ?rows))" using dist by (simp add: comp_def)
    show "\<forall>(e, m) \<in> set (map (\<lambda>e. (e, the (dueMonth E s e))) ?rows). e \<in> set (ledger s) \<and> le_status e = LePending \<and>
       ledgerKey s e = Some (le_tenantId e, le_beneficiary e, m, le_level e)"
      using in_due dueMonth_ledgerKey assms(2) by (force simp: isDue_def books_def)
  qed
qed

end
