(* ===== verification/Samples.thy ===== *)
theory Samples
  imports Commission_Engine
begin

text \<open>
  One small company, on which the theorems are applied at concrete inputs: tenant 1 with a
  three-level plan, seller 10 under 11 under 12, and the draft sale 100 of 1000.00 created by user 2.
\<close>

definition demo_env :: env where
  "demo_env = \<lparr>env_now = 1700000000000, env_month = (\<lambda>t tz. ''2023-11''), env_sha256 = (\<lambda>j. ''hash''), env_sha256Text = (\<lambda>t. ''hash''),
     env_md5 = (\<lambda>j. ''digest''), env_hasRanks = True, env_hasCompliance = True\<rparr>"

definition demo_tenant :: tenant where
  "demo_tenant = \<lparr>tn_id = 1, tn_currency = ''USD'', tn_timezone = ''UTC'', tn_maturationRule = DaysAfterApproval,
     tn_maturationDays = Some 14, tn_payoutMinCents = 1000, tn_compressionEnabled = False,
     tn_inactiveMembersEarn = True, tn_requireSeparateApprover = True, tn_requireKycForPayout = False,
     tn_name = ''Demo'', tn_lastCheckNumber = 1000, tn_autoRequestPayouts = True,
     tn_status = TenantActive, tn_notifyNewMemberName = True, tn_requirePayoutApproval = False\<rparr>"

definition demo_user :: "uuid \<Rightarrow> user" where
  "demo_user i = \<lparr>us_id = i, us_fullName = ''Member'', us_email = ''m@x'', us_emailVerifiedAt = Some 0,
     us_totpEnabledAt = None, us_lastMembershipId = None, us_isPlatformAdmin = False, us_authGeneration = 1\<rparr>"

definition demo_member :: "uuid \<Rightarrow> uuid option \<Rightarrow> uuid list \<Rightarrow> membership" where
  "demo_member i sp path = \<lparr>mb_id = i, mb_tenantId = 1, mb_userId = i, mb_sponsorMembershipId = sp,
     mb_referralCode = ''REF'', mb_path = path, mb_status = MemberActive, mb_signupIp = None,
     mb_lastRankSortOrder = None, mb_joinedAt = 1699000000000,
     mb_mailing = \<lparr>ma_name = None, ma_line1 = None, ma_line2 = None, ma_city = None, ma_state = None, ma_postal = None,
       ma_country = Some ''US''\<rparr>,
     mb_role = PlainMember, mb_depth = int (length path) - 1, mb_isTeamLeader = False, mb_inviteMessage = None,
     mb_roleId = None,
     mb_disclaimerAcceptedAt = None, mb_disclaimerVersion = None\<rparr>"

definition demo_plan :: commission_plan where
  "demo_plan = \<lparr>pl_id = 50, pl_tenantId = 1, pl_version = 1, pl_finalized = True, pl_name = ''Base'',
     pl_poolRateBps = 1000, pl_depth = 3, pl_fastStartBps = 100, pl_fastStartDays = 30, pl_matchingBps = 1000,
     pl_effectiveFrom = 0, pl_createdBy = None, pl_createdAt = 0,
     pl_levels = [\<lparr>pv_id = 51, pv_level = 0, pv_rateBps = 500\<rparr>, \<lparr>pv_id = 52, pv_level = 1, pv_rateBps = 300\<rparr>,
                  \<lparr>pv_id = 53, pv_level = 2, pv_rateBps = 200\<rparr>]\<rparr>"

definition demo_sale :: sale where
  "demo_sale = \<lparr>sa_id = 100, sa_tenantId = 1, sa_sellerMembershipId = 10, sa_commissionPlanId = None,
     sa_amountCents = 100000, sa_currency = ''USD'', sa_customerRef = None, sa_createdBy = Some 2,
     sa_saleDate = 1699900000000, sa_summaryMonth = None, sa_status = SaleDraft, sa_approvedBy = None,
     sa_approvedAt = None, sa_deliveredAt = None, sa_externalRef = None, sa_createdAt = 1699900000000\<rparr>"

definition demo_db :: db where
  "demo_db = \<lparr>uuidGen = (\<lambda>n. n + 1000), uuidNext = 0, tenants = [demo_tenant],
     users = map demo_user [2, 3, 10, 11, 12],
     memberships = [demo_member 12 None [12], demo_member 11 (Some 12) [12, 11], demo_member 10 (Some 11) [12, 11, 10]],
     plans = [demo_plan], sales = [demo_sale], ledger = [], summaries = [], notifications = [], audits = [],
     payouts = [], batches = [], batchItems = [], periodLocks = [], rankTiers = [], fraudFlags = [],
     payoutProfiles = [], sanctions = [], readinessChecks = [], destinations = [],
     invites = [], campaigns = [], bulkExecutions = [], consents = [], roles = [], apiKeys = []\<rparr>"

lemma demo_books: "books demo_db"
proof -
  have "reconciled demo_db"
    by (simp add: reconciled_def colSum_def summaryRow_def ledgerSum_def demo_db_def)
  moreover have "linked demo_db" by (simp add: linked_def demo_db_def)
  moreover have "idsFresh demo_db" by (simp add: idsFresh_def demo_db_def demo_sale_def inj_def)
  moreover have "settlementOk demo_db"
    by (simp add: settlementOk_def settlementLinks_def settlementIds_def demo_db_def)
  ultimately show ?thesis by (rule booksI)
qed

end
