(* ===== verification/Risk.thy ===== *)
theory Risk
  imports Summaries Money
begin

text \<open>
  The risk writers: \<open>kyc\<close> (ABA checksum, the payout gate with its cooling-down period, submission
  and decision), \<open>fraud\<close> (signals, score and hold) and \<open>sanctions\<close> (token screening).  Names are ASCII
  texts: lower-casing and white space are those of ASCII.  The advisory lock every writer takes
  first serializes them with payouts and has no effect on a serial history.
\<close>

section \<open>Text\<close>

definition lowerChar :: "char \<Rightarrow> char" where
  "lowerChar c = (let n = of_char c :: nat in if 65 \<le> n \<and> n \<le> 90 then char_of (n + 32) else c)"

definition isSpace :: "char \<Rightarrow> bool" where
  "isSpace c = (let n = of_char c :: nat in n = 32 \<or> 9 \<le> n \<and> n \<le> 13)"

definition trimText :: "string \<Rightarrow> string" where
  "trimText s = rev (dropWhile isSpace (rev (dropWhile isSpace s)))"

text \<open>\<open>replace(/\s+/g, ' ')\<close>: a run of white space becomes one blank; the flag says whether one is open.\<close>

fun collapseSpaces :: "bool \<Rightarrow> string \<Rightarrow> string" where
  "collapseSpaces inRun [] = []"
| "collapseSpaces inRun (c # cs) =
     (if isSpace c then (if inRun then collapseSpaces True cs else CHR '' '' # collapseSpaces True cs)
      else c # collapseSpaces False cs)"

definition normalizeName :: "string \<Rightarrow> string" where
  "normalizeName name = collapseSpaces False (trimText (map lowerChar name))"

text \<open>\<open>split(' ').filter(Boolean)\<close>: the non-empty pieces between blanks.\<close>

fun splitBlank :: "string \<Rightarrow> string \<Rightarrow> string list" where
  "splitBlank piece [] = [rev piece]"
| "splitBlank piece (c # cs) = (if c = CHR '' '' then rev piece # splitBlank [] cs else splitBlank (c # piece) cs)"

definition tokens :: "string \<Rightarrow> string list" where
  "tokens s = filter (\<lambda>t. t \<noteq> []) (splitBlank [] s)"

text \<open>The UTF-8 bytes of the dash in two of the messages.\<close>

definition emDash :: string where
  "emDash = map char_of [226, 128, 148 :: nat]"

section \<open>KYC (kyc.types.ts)\<close>

definition digitOf :: "char \<Rightarrow> nat" where
  "digitOf c = of_char c - 48"

definition isAsciiDigit :: "char \<Rightarrow> bool" where
  "isAsciiDigit c = (let n = of_char c :: nat in 48 \<le> n \<and> n \<le> 57)"

definition abaValid :: "string \<Rightarrow> bool" where
  "abaValid r =
     (if \<not> (length r = 9 \<and> list_all isAsciiDigit r) then False
      else let d = map digitOf r;
               sum = 3 * (d ! 0 + d ! 3 + d ! 6) + 7 * (d ! 1 + d ! 4 + d ! 7) + (d ! 2 + d ! 5 + d ! 8)
           in sum mod 10 = 0)"

definition KYC_COOLDOWN_DAYS :: int where
  "KYC_COOLDOWN_DAYS = 3"

definition kycPayoutBlock :: "payout_profile option \<Rightarrow> time \<Rightarrow> string option" where
  "kycPayoutBlock p now = (case p of
      None \<Rightarrow> Some ''payout profile not set up''
    | Some p \<Rightarrow>
        if pp_status p = ProfileRejected then Some ''payout profile was rejected''
        else if pp_status p \<noteq> ProfileVerified then Some ''payout profile pending verification''
        else if now - pp_lastChangedAt p < KYC_COOLDOWN_DAYS * 86400000
        then Some (''payout profile recently changed '' @ emDash @ '' cooling-down period'')
        else None)"

section \<open>Sanctions (sanctions.service.ts)\<close>

definition SAMPLE_OFAC :: "(string \<times> string option) list" where
  "SAMPLE_OFAC =
     [(''Dragan Asanin'', None), (''Ali Sadr Hashemi Nejad'', Some ''IR''), (''Viktor Bout'', Some ''RU''),
      (''Joaquin Guzman Loera'', Some ''MX''), (''Test Sanctioned Person'', None)]"

text \<open>Upsert on \<open>(source, normalizedName)\<close>; an undefined country leaves the column of an existing row.\<close>

definition upsertSanction :: "string \<Rightarrow> string \<Rightarrow> string option \<Rightarrow> sanctions_entry list \<Rightarrow> sanctions_entry list" where
  "upsertSanction source name country rows =
     (let n = normalizeName name
      in if list_ex (\<lambda>e. se_source e = source \<and> se_normalizedName e = n) rows
         then updateWhere (\<lambda>e. se_source e = source \<and> se_normalizedName e = n)
                (\<lambda>e. e\<lparr>se_name := name, se_country := (case country of None \<Rightarrow> se_country e | Some c \<Rightarrow> Some c)\<rparr>) rows
         else rows @ [\<lparr>se_name = name, se_normalizedName = n, se_source = source, se_country = country\<rparr>])"

definition refreshSanctions :: "db \<Rightarrow> nat \<times> db" where
  "refreshSanctions s =
     (length SAMPLE_OFAC,
      s\<lparr>sanctions := fold (\<lambda>(name, country). upsertSanction ''OFAC'' name country) SAMPLE_OFAC (sanctions s)\<rparr>)"

text \<open>All tokens of an entry are whole words of the name, and it has at least one.\<close>

definition entryMatches :: "string list \<Rightarrow> string \<Rightarrow> bool" where
  "entryMatches nameTokens entryName =
     (let eTokens = tokens entryName in length eTokens > 0 \<and> list_all (\<lambda>t. t \<in> set nameTokens) eTokens)"

definition screen :: "string \<Rightarrow> db \<Rightarrow> (string \<times> string \<times> string option) list" where
  "screen name s =
     (let n = normalizeName name
      in if length n < 3 then []
         else map (\<lambda>e. (se_name e, se_source e, se_country e))
                (filter (\<lambda>e. entryMatches (tokens n) (se_normalizedName e)) (sanctions s)))"

definition isHit :: "string \<Rightarrow> db \<Rightarrow> bool" where
  "isHit name s = (length (screen name s) > 0)"

section \<open>KYC (kyc.service.ts)\<close>

record profile_input =
  pi_legalName :: string
  pi_country :: string
  pi_taxIdType :: string
  pi_taxId :: string
  pi_bankName :: "string option"
  pi_routingNumber :: string
  pi_accountType :: string
  pi_accountNumber :: string

text \<open>\<open>slice(-4)\<close>.\<close>

definition last4 :: "string \<Rightarrow> string" where
  "last4 s = drop (length s - 4) s"

definition profileData :: "time \<Rightarrow> bool \<Rightarrow> string \<Rightarrow> profile_input \<Rightarrow> payout_profile \<Rightarrow> payout_profile" where
  "profileData now hit accountEnc i p =
     p\<lparr>pp_legalName := pi_legalName i, pp_country := pi_country i, pp_taxIdType := pi_taxIdType i,
       pp_taxIdLast4 := last4 (pi_taxId i),
       pp_bankName := (case pi_bankName i of None \<Rightarrow> pp_bankName p | Some b \<Rightarrow> Some b),
       pp_routingNumber := pi_routingNumber i, pp_accountType := pi_accountType i,
       pp_accountLast4 := last4 (pi_accountNumber i), pp_accountEnc := Some accountEnc,
       pp_status := ProfilePendingReview, pp_rejectionReason := None, pp_reviewedByUserId := None,
       pp_reviewedAt := None, pp_sanctionsHit := hit, pp_lastChangedAt := now\<rparr>"

definition blankProfile :: "uuid \<Rightarrow> uuid \<Rightarrow> uuid \<Rightarrow> payout_profile" where
  "blankProfile pid tenantId membershipId =
     \<lparr>pp_id = pid, pp_tenantId = tenantId, pp_membershipId = membershipId, pp_legalName = '''', pp_country = '''',
      pp_taxIdType = '''', pp_bankName = None, pp_accountType = '''', pp_taxIdLast4 = '''', pp_accountLast4 = '''',
      pp_accountEnc = None, pp_routingNumber = '''', pp_status = ProfilePendingReview, pp_rejectionReason = None,
      pp_reviewedByUserId = None, pp_reviewedAt = None, pp_sanctionsHit = False, pp_lastChangedAt = 0\<rparr>"

definition profileOf :: "db \<Rightarrow> uuid \<Rightarrow> payout_profile option" where
  "profileOf s membershipId = find (\<lambda>p. pp_membershipId p = membershipId) (payoutProfiles s)"

definition riskAudit :: "uuid \<Rightarrow> uuid \<Rightarrow> string \<Rightarrow> string \<Rightarrow> uuid \<Rightarrow> json \<Rightarrow> db \<Rightarrow> db" where
  "riskAudit tenantId userId action entity entityId after s =
     s\<lparr>audits := audits s @ [\<lparr>au_tenantId = tenantId, au_actorUserId = Some userId, au_action = action,
        au_entity = entity, au_entityId = Some entityId, au_before = None, au_after = after\<rparr>]\<rparr>"

text \<open>
  \<open>upsert\<close>: \<open>accountEnc\<close> is what the secret cipher returned for the account number.  Every change
  goes back to review and restarts the cooling-down period.
\<close>

definition upsertProfile :: "env \<Rightarrow> uuid \<Rightarrow> uuid \<Rightarrow> string \<Rightarrow> uuid \<Rightarrow> profile_input \<Rightarrow> db \<Rightarrow> payout_profile \<times> db" where
  "upsertProfile E tenantId userId accountEnc membershipId i s =
     (let hit = isHit (pi_legalName i) s;
          set = profileData (env_now E) hit accountEnc i;
          (p, s1) = (case profileOf s membershipId of
              Some old \<Rightarrow> (set old, s\<lparr>payoutProfiles :=
                 updateWhere (\<lambda>p. pp_membershipId p = membershipId) set (payoutProfiles s)\<rparr>)
            | None \<Rightarrow> (let new = set (blankProfile (freshId s) tenantId membershipId)
                in (new, (drawId s)\<lparr>payoutProfiles := payoutProfiles s @ [new]\<rparr>)))
      in (p, riskAudit tenantId userId ''kyc.submit'' ''kyc'' (pp_id p)
               (JObj [(''membershipId'', JId membershipId), (''status'', JStr ''pending_review'')]) s1))"

definition listProfiles :: "uuid \<Rightarrow> profile_status option \<Rightarrow> db \<Rightarrow> payout_profile list" where
  "listProfiles tenantId status s =
     findManyBy pp_lastChangedAt (\<lambda>p. pp_tenantId p = tenantId \<and> (status = None \<or> status = Some (pp_status p)))
       (payoutProfiles s)"

datatype kyc_action = KycVerify | KycReject

text \<open>
  \<open>decide\<close>: verification screens the name again.  A hit marks the profile, and that write commits
  before the conflict is thrown, so the result comes with the database in both cases.
\<close>

definition decideProfile ::
  "env \<Rightarrow> uuid \<Rightarrow> uuid \<Rightarrow> uuid \<Rightarrow> kyc_action \<Rightarrow> string option \<Rightarrow> db \<Rightarrow> payout_profile res \<times> db" where
  "decideProfile E tenantId userId membershipId action reason s =
     (case profileOf s membershipId of
        None \<Rightarrow> (Inl (NotFound ''odeme profili bulunamadi''), s)
      | Some p \<Rightarrow>
          if pp_tenantId p \<noteq> tenantId then (Inl (NotFound ''odeme profili bulunamadi''), s)
          else if action = KycVerify \<and> isHit (pp_legalName p) s
          then (Inl (Conflict ''sanctions match (compliance review) - verify edilemez''),
                if \<not> pp_sanctionsHit p
                then s\<lparr>payoutProfiles := updateWhere (\<lambda>p. pp_membershipId p = membershipId)
                       (\<lambda>p. p\<lparr>pp_sanctionsHit := True\<rparr>) (payoutProfiles s)\<rparr> else s)
          else
            let set = (\<lambda>p. p\<lparr>pp_status := (if action = KycVerify then ProfileVerified else ProfileRejected),
                   pp_rejectionReason := (if action = KycReject
                      then Some (case reason of None \<Rightarrow> ''rejected'' | Some r \<Rightarrow> r) else None),
                   pp_reviewedByUserId := Some userId, pp_reviewedAt := Some (env_now E)\<rparr>);
                s1 = s\<lparr>payoutProfiles := updateWhere (\<lambda>p. pp_membershipId p = membershipId) set (payoutProfiles s)\<rparr>
            in (Inr (set p), riskAudit tenantId userId (if action = KycVerify then ''kyc.verify'' else ''kyc.reject'') ''kyc'' (pp_id p)
                  (JObj [(''membershipId'', JId membershipId),
                         (''reason'', case reason of None \<Rightarrow> JNull | Some r \<Rightarrow> JStr r)]) s1))"

section \<open>Fraud (fraud.types.ts, fraud.service.ts)\<close>

definition FRAUD_BLOCK_SCORE :: int where
  "FRAUD_BLOCK_SCORE = 50"

definition fraudPayoutBlock :: "fraud_flag option \<Rightarrow> string option" where
  "fraudPayoutBlock flag = (case flag of
      None \<Rightarrow> None
    | Some f \<Rightarrow> if ff_status f = FraudCleared then None
               else if ff_score f \<ge> FRAUD_BLOCK_SCORE then Some ''flagged for fraud review'' else None)"

type_synonym signal = "int \<times> string"

text \<open>\<open>byMember\<close>: a JavaScript Map from member to its signals, in insertion order.\<close>

fun addSignal :: "uuid \<Rightarrow> signal \<Rightarrow> (uuid \<times> signal list) list \<Rightarrow> (uuid \<times> signal list) list" where
  "addSignal i g [] = [(i, [g])]"
| "addSignal i g ((j, gs) # m) = (if j = i then (j, gs @ [g]) # m else (j, gs) # addSignal i g m)"

text \<open>The groups of a \<open>GROUP BY\<close>, in the order of their first row (the query leaves it open).\<close>

definition groupsOf :: "'a list \<Rightarrow> 'a list" where
  "groupsOf xs = rev (remdups (rev xs))"

definition tenantSales :: "uuid \<Rightarrow> db \<Rightarrow> sale list" where
  "tenantSales tenantId s = filter (\<lambda>r. sa_tenantId r = tenantId) (sales s)"

text \<open>
  \<open>void / total >= 0.4\<close> on doubles agrees with the exact quotient for counts below \<open>2^51\<close>.
\<close>

definition voidRateSignals :: "uuid \<Rightarrow> db \<Rightarrow> (uuid \<times> signal) list" where
  "voidRateSignals tenantId s =
     List.map_filter (\<lambda>i.
       let total = countWhere (\<lambda>r. sa_sellerMembershipId r = i) (tenantSales tenantId s);
           v = countWhere (\<lambda>r. sa_sellerMembershipId r = i \<and> sa_status r = SaleVoid) (tenantSales tenantId s)
       in if total \<ge> 3 \<and> 10 * v \<ge> 4 * total
          then Some (i, (30, ''high_void_rate('' @ show_nat v @ ''/'' @ show_nat total @ '')''))
          else None)
       (groupsOf (map sa_sellerMembershipId (tenantSales tenantId s)))"

definition recruitSignals :: "env \<Rightarrow> uuid \<Rightarrow> db \<Rightarrow> (uuid \<times> signal) list" where
  "recruitSignals E tenantId s =
     (let since = env_now E - 7 * 86400000;
          sponsors = List.map_filter mb_sponsorMembershipId
            (filter (\<lambda>m. mb_tenantId m = tenantId \<and> mb_joinedAt m \<ge> since) (memberships s))
      in List.map_filter (\<lambda>i. let n = countWhere (\<lambda>j. j = i) sponsors in
           if n \<ge> 10 then Some (i, (25, ''rapid_recruitment('' @ show_nat n @ ''/7d)'')) else None)
         (groupsOf sponsors))"

definition selfReferral :: "db \<Rightarrow> sale \<Rightarrow> bool" where
  "selfReferral s r = (case (sa_customerRef r, findMembership s (sa_sellerMembershipId r)) of
      (Some ref, Some m) \<Rightarrow> map lowerChar ref = map lowerChar (mb_referralCode m)
    | _ \<Rightarrow> False)"

definition selfReferralSignals :: "uuid \<Rightarrow> db \<Rightarrow> (uuid \<times> signal) list" where
  "selfReferralSignals tenantId s =
     (let rows = map sa_sellerMembershipId (filter (selfReferral s) (tenantSales tenantId s))
      in map (\<lambda>i. (i, (40, ''self_referral('' @ show_nat (countWhere (\<lambda>j. j = i) rows) @ '')''))) (groupsOf rows))"

definition sharedIpSignals :: "uuid \<Rightarrow> db \<Rightarrow> (uuid \<times> signal) list" where
  "sharedIpSignals tenantId s =
     (let own = filter (\<lambda>m. mb_tenantId m = tenantId) (memberships s);
          ips = List.map_filter mb_signupIp own;
          sharedIps = filter (\<lambda>ip. countWhere (\<lambda>j. j = ip) ips \<ge> 3) (groupsOf ips)
      in map (\<lambda>m. (mb_id m, (35, ''shared_signup_ip'')))
           (filter (\<lambda>m. case mb_signupIp m of None \<Rightarrow> False | Some ip \<Rightarrow> ip \<in> set sharedIps) own))"

text \<open>\<open>(Number(sum) / 100).toFixed(0)\<close> of a non-negative sum: whole units, halves up.\<close>

definition payoutVelocitySignals :: "env \<Rightarrow> uuid \<Rightarrow> db \<Rightarrow> (uuid \<times> signal) list" where
  "payoutVelocitySignals E tenantId s =
     (case findTenant s tenantId of
        None \<Rightarrow> []
      | Some t \<Rightarrow>
          let velocityThreshold = tn_payoutMinCents t * 10;
              newCutoff = env_now E - 14 * 86400000;
              newIds = map mb_id (filter (\<lambda>m. mb_tenantId m = tenantId \<and> mb_joinedAt m \<ge> newCutoff) (memberships s));
              payable = filter (\<lambda>e. le_tenantId e = tenantId \<and> le_status e = LePayable \<and> le_beneficiary e \<in> set newIds) (ledger s)
          in List.map_filter (\<lambda>i. let sum = sumWhere (\<lambda>e. le_beneficiary e = i) le_amountCents payable in
               if sum \<ge> velocityThreshold
               then Some (i, (FRAUD_BLOCK_SCORE, ''rapid_payout_new_account($'' @ show_int ((sum + 50) div 100) @ ''/<14d)''))
               else None) (groupsOf (map le_beneficiary payable)))"

definition fraudSignals :: "env \<Rightarrow> uuid \<Rightarrow> db \<Rightarrow> (uuid \<times> signal) list" where
  "fraudSignals E tenantId s =
     voidRateSignals tenantId s @ recruitSignals E tenantId s @ selfReferralSignals tenantId s @
     sharedIpSignals tenantId s @ payoutVelocitySignals E tenantId s"

definition signalMap :: "(uuid \<times> signal) list \<Rightarrow> (uuid \<times> signal list) list" where
  "signalMap gs = foldl (\<lambda>m (i, g). addSignal i g m) [] gs"

definition flagOf :: "db \<Rightarrow> uuid \<Rightarrow> fraud_flag option" where
  "flagOf s membershipId = find (\<lambda>f. ff_membershipId f = membershipId) (fraudFlags s)"

definition signalScore :: "signal list \<Rightarrow> int" where
  "signalScore gs = foldl (\<lambda>a g. a + fst g) 0 gs"

text \<open>The status a scan leaves: a cleared flag is reopened by a blocking score, any other is kept.\<close>

definition scannedStatus :: "fraud_flag option \<Rightarrow> int \<Rightarrow> fraud_status" where
  "scannedStatus prev score = (case prev of
      None \<Rightarrow> FraudOpen
    | Some f \<Rightarrow> if ff_status f = FraudCleared \<and> score \<ge> FRAUD_BLOCK_SCORE then FraudOpen else ff_status f)"

definition upsertFlag :: "env \<Rightarrow> uuid \<Rightarrow> uuid \<Rightarrow> int \<Rightarrow> string list \<Rightarrow> fraud_status \<Rightarrow> db \<Rightarrow> db" where
  "upsertFlag E tenantId membershipId score reasons status s =
     (if flagOf s membershipId \<noteq> None
      then s\<lparr>fraudFlags := updateWhere (\<lambda>f. ff_membershipId f = membershipId)
              (\<lambda>f. f\<lparr>ff_score := score, ff_reasons := reasons, ff_status := status\<rparr>) (fraudFlags s)\<rparr>
      else s\<lparr>fraudFlags := fraudFlags s @ [\<lparr>ff_tenantId = tenantId, ff_membershipId = membershipId, ff_score = score,
              ff_reasons = reasons, ff_status = status, ff_note = None, ff_reviewedByUserId = None,
              ff_reviewedAt = None, ff_createdAt = env_now E\<rparr>]\<rparr>)"

text \<open>One round of the upsert loop; \<open>existing\<close> are the tenant's flags read before the loop.\<close>

definition scanMember ::
  "env \<Rightarrow> uuid \<Rightarrow> fraud_flag list \<Rightarrow> uuid \<times> signal list \<Rightarrow> nat \<times> db \<Rightarrow> nat \<times> db" where
  "scanMember E tenantId existing = (\<lambda>(membershipId, signals) (blocked, s).
     let score = signalScore signals;
         status = scannedStatus (find (\<lambda>f. ff_membershipId f = membershipId \<and> ff_tenantId f = tenantId) existing) score
     in (if score \<ge> FRAUD_BLOCK_SCORE \<and> status \<noteq> FraudCleared then blocked + 1 else blocked,
         upsertFlag E tenantId membershipId score (map snd signals) status s))"

definition scan :: "env \<Rightarrow> uuid \<Rightarrow> db \<Rightarrow> (nat \<times> nat) \<times> db" where
  "scan E tenantId s =
     (let byMember = signalMap (fraudSignals E tenantId s);
          (blocked, s') = fold (scanMember E tenantId (fraudFlags s)) byMember (0, s)
      in ((length byMember, blocked), s'))"

definition scanAll :: "env \<Rightarrow> db \<Rightarrow> (nat \<times> nat) \<times> db" where
  "scanAll E s =
     (let ids = map tn_id (tenants s);
          (blocked, s') = fold (\<lambda>tid (blocked, s). let ((f, b), s1) = scan E tid s in (blocked + b, s1)) ids (0, s)
      in ((length ids, blocked), s'))"

text \<open>\<open>list\<close>: the flags of a tenant, highest score first, newest first, with the hold they cause.\<close>

definition listFlags :: "uuid \<Rightarrow> fraud_status option \<Rightarrow> db \<Rightarrow> (fraud_flag \<times> bool) list" where
  "listFlags tenantId status s =
     map (\<lambda>f. (f, ff_status f \<noteq> FraudCleared \<and> ff_score f \<ge> FRAUD_BLOCK_SCORE))
       (findManyBy (\<lambda>f. (- ff_score f, - ff_createdAt f))
          (\<lambda>f. ff_tenantId f = tenantId \<and> (status = None \<or> status = Some (ff_status f))) (fraudFlags s))"

datatype fraud_action = FraudClear | FraudConfirm

definition decideFraud ::
  "env \<Rightarrow> uuid \<Rightarrow> uuid \<Rightarrow> uuid \<Rightarrow> fraud_action \<Rightarrow> string option \<Rightarrow> db \<Rightarrow> (fraud_status \<times> db) res" where
  "decideFraud E tenantId userId membershipId action note s =
     (case flagOf s membershipId of
        None \<Rightarrow> Inl (NotFound ''fraud bayragi bulunamadi'')
      | Some f \<Rightarrow>
          if ff_tenantId f \<noteq> tenantId then Inl (NotFound ''fraud bayragi bulunamadi'')
          else
            let status = (if action = FraudClear then FraudCleared else FraudConfirmed);
                s1 = s\<lparr>fraudFlags := updateWhere (\<lambda>f. ff_membershipId f = membershipId)
                  (\<lambda>f. f\<lparr>ff_status := status, ff_note := (case note of None \<Rightarrow> ff_note f | Some n \<Rightarrow> Some n),
                         ff_reviewedByUserId := Some userId, ff_reviewedAt := Some (env_now E)\<rparr>) (fraudFlags s)\<rparr>
            in Inr (status, riskAudit tenantId userId (if action = FraudClear then ''fraud.clear'' else ''fraud.confirm'')
                 ''security'' membershipId
                 (JObj [(''score'', JNum (ff_score f)), (''note'', case note of None \<Rightarrow> JNull | Some n \<Rightarrow> JStr n)]) s1))"

end
