(* ===== verification/Readiness.thy ===== *)
theory Readiness
  imports Risk
begin

text \<open>
  \<open>payout-readiness.ts\<close>: the checklist shown before a payout and consulted when a batch is reserved.
  Each check is a record as the source builds it; \<open>requestable\<close> is the conjunction of the checks,
  with the one exception of an undecided MFA requirement.
\<close>

datatype readiness_key =
    RkEmail | RkPayableBalance | RkThreshold | RkOpenRequest | RkManual check_key | RkMfa

datatype readiness_status = RsReady | RsBlocked | RsUnknown
datatype readiness_owner = OwMember | OwWorkspaceAdmin | OwSystemPolicy
datatype readiness_recheck = AfterAction | ManualRecheck
datatype readiness_authority = AuUser | AuLedger | AuPayout | AuAuth | AuCompliance

record readiness_item =
  ri_key :: readiness_key
  ri_status :: readiness_status
  ri_reasonCode :: string
  ri_owner :: readiness_owner
  ri_recheck :: readiness_recheck
  ri_authority :: readiness_authority

record payout_readiness =
  rd_requestable :: bool
  rd_checks :: "readiness_item list"
  rd_thresholdCents :: string
  rd_thresholdCurrency :: string

datatype mfa_assurance = MfaCurrent | MfaMissing | MfaExpired | MfaUnknownAssurance
datatype mfa_input = MfaUnknown | MfaNotRequired | MfaRequired mfa_assurance

datatype active_status = ActiveRequested | ActiveProcessing

record active_payout =
  ap_id :: uuid
  ap_status :: active_status

record manual_decision =
  md_key :: check_key
  md_status :: decision_status
  md_reasonCode :: string
  md_expiresAt :: "time option"
  md_version :: int

record active_destination =
  ad_verifiedAt :: "time option"
  ad_version :: int

record readiness_input =
  rin_emailVerified :: bool
  rin_payableCents :: cents
  rin_thresholdCents :: cents
  rin_thresholdCurrency :: string
  rin_activePayout :: "active_payout option"
  rin_mfa :: mfa_input
  rin_manualChecks :: "manual_decision list"
  rin_destination :: "active_destination option"

text \<open>\<open>Number.isSafeInteger(version) && version > 0\<close>.\<close>

definition isValidPayoutReadinessVersion :: "int \<Rightarrow> bool" where
  "isValidPayoutReadinessVersion version \<longleftrightarrow> version \<le> 9007199254740991 \<and> version > 0"

definition manualResult :: "check_key \<Rightarrow> readiness_status \<Rightarrow> string \<Rightarrow> readiness_item" where
  "manualResult key status reasonCode = \<lparr>ri_key = RkManual key, ri_status = status, ri_reasonCode = reasonCode,
     ri_owner = OwWorkspaceAdmin, ri_recheck = ManualRecheck, ri_authority = AuCompliance\<rparr>"

definition orText :: "string \<Rightarrow> string \<Rightarrow> string" where
  "orText reason fallback = (if trimText reason \<noteq> [] then reason else fallback)"

definition destinationVerified :: "active_destination option \<Rightarrow> bool" where
  "destinationVerified d = (case d of None \<Rightarrow> False
     | Some d \<Rightarrow> ad_verifiedAt d \<noteq> None \<and> isValidPayoutReadinessVersion (ad_version d))"

definition manualCheck :: "check_key \<Rightarrow> manual_decision list \<Rightarrow> active_destination option \<Rightarrow> time \<Rightarrow> readiness_item" where
  "manualCheck key checks destination evaluatedAt =
     (case filter (\<lambda>c. md_key c = key) checks of
        [] \<Rightarrow> manualResult key RsBlocked ''review_required''
      | d # others \<Rightarrow>
          if others \<noteq> [] then manualResult key RsBlocked ''review_conflict''
          else if \<not> isValidPayoutReadinessVersion (md_version d) then manualResult key RsBlocked ''review_invalid''
          else if md_status d = DecisionPending then manualResult key RsBlocked ''review_pending''
          else if md_status d = DecisionBlocked
          then manualResult key RsBlocked (orText (md_reasonCode d) ''review_blocked'')
          else if (case md_expiresAt d of None \<Rightarrow> False | Some t \<Rightarrow> t \<le> evaluatedAt)
          then manualResult key RsBlocked ''review_expired''
          else if key = KeyPaymentMethod \<and> \<not> destinationVerified destination
          then manualResult key RsBlocked ''payment_destination_required''
          else manualResult key RsReady (orText (md_reasonCode d) ''review_approved''))"

definition mfaItem :: "readiness_status \<Rightarrow> string \<Rightarrow> readiness_owner \<Rightarrow> readiness_recheck \<Rightarrow> readiness_item" where
  "mfaItem status reasonCode owner recheck = \<lparr>ri_key = RkMfa, ri_status = status, ri_reasonCode = reasonCode,
     ri_owner = owner, ri_recheck = recheck, ri_authority = AuAuth\<rparr>"

fun evaluateMfa :: "mfa_input \<Rightarrow> readiness_item" where
  "evaluateMfa MfaUnknown = mfaItem RsUnknown ''requirement_unknown'' OwSystemPolicy ManualRecheck"
| "evaluateMfa MfaNotRequired = mfaItem RsReady ''not_required'' OwSystemPolicy ManualRecheck"
| "evaluateMfa (MfaRequired MfaCurrent) = mfaItem RsReady ''assurance_current'' OwMember AfterAction"
| "evaluateMfa (MfaRequired MfaUnknownAssurance) = mfaItem RsUnknown ''assurance_unknown'' OwSystemPolicy ManualRecheck"
| "evaluateMfa (MfaRequired MfaExpired) = mfaItem RsBlocked ''assurance_expired'' OwMember AfterAction"
| "evaluateMfa (MfaRequired MfaMissing) = mfaItem RsBlocked ''assurance_missing'' OwMember AfterAction"

definition readyIf :: "bool \<Rightarrow> readiness_status" where
  "readyIf c = (if c then RsReady else RsBlocked)"

definition readinessItems :: "time \<Rightarrow> readiness_input \<Rightarrow> readiness_item list" where
  "readinessItems evaluatedAt i =
     (let payable = rin_payableCents i; threshold = rin_thresholdCents i; active = rin_activePayout i;
          manual = (\<lambda>key. manualCheck key (rin_manualChecks i) (rin_destination i) evaluatedAt)
      in [\<lparr>ri_key = RkEmail, ri_status = readyIf (rin_emailVerified i),
            ri_reasonCode = (if rin_emailVerified i then ''email_verified'' else ''email_unverified''),
            ri_owner = OwMember, ri_recheck = AfterAction, ri_authority = AuUser\<rparr>,
          \<lparr>ri_key = RkPayableBalance, ri_status = readyIf (payable > 0),
            ri_reasonCode = (if payable > 0 then ''payable_balance_available'' else ''no_payable''),
            ri_owner = OwMember, ri_recheck = ManualRecheck, ri_authority = AuLedger\<rparr>,
          \<lparr>ri_key = RkThreshold, ri_status = readyIf (payable \<ge> threshold),
            ri_reasonCode = (if payable \<ge> threshold then ''threshold_met'' else ''below_threshold''),
            ri_owner = OwSystemPolicy, ri_recheck = ManualRecheck, ri_authority = AuLedger\<rparr>,
          \<lparr>ri_key = RkOpenRequest, ri_status = readyIf (active = None),
            ri_reasonCode = (case active of None \<Rightarrow> ''no_open_request''
               | Some p \<Rightarrow> (case ap_status p of ActiveRequested \<Rightarrow> ''payout_requested'' | ActiveProcessing \<Rightarrow> ''payout_processing'')),
            ri_owner = OwMember, ri_recheck = ManualRecheck, ri_authority = AuPayout\<rparr>,
          manual KeyAddress, manual KeyKyc, manual KeyFraud, manual KeySanctions, manual KeyPaymentMethod,
          evaluateMfa (rin_mfa i)])"

definition evaluatePayoutReadiness :: "time \<Rightarrow> readiness_input \<Rightarrow> payout_readiness" where
  "evaluatePayoutReadiness evaluatedAt i =
     (let checks = readinessItems evaluatedAt i;
          mfaRequirementIsUnknown = (rin_mfa i = MfaUnknown)
      in \<lparr>rd_requestable = list_all (\<lambda>c. ri_status c = RsReady \<or>
            (ri_key c = RkMfa \<and> mfaRequirementIsUnknown \<and> ri_status c = RsUnknown)) checks,
          rd_checks = checks, rd_thresholdCents = show_int (rin_thresholdCents i),
          rd_thresholdCurrency = rin_thresholdCurrency i\<rparr>)"

datatype legacy_reason =
  LrEligible | LrNoPayable | LrBelowThreshold | LrEmailUnverified | LrRequested | LrProcessing | LrReadinessUnavailable

text \<open>\<open>checks.find(...)?.status !== 'ready'\<close>.\<close>

definition notReady :: "readiness_key \<Rightarrow> payout_readiness \<Rightarrow> bool" where
  "notReady key r = (case find (\<lambda>c. ri_key c = key) (rd_checks r) of None \<Rightarrow> True | Some c \<Rightarrow> ri_status c \<noteq> RsReady)"

definition legacyPayoutEligibilityReason :: "payout_readiness \<Rightarrow> active_payout option \<Rightarrow> legacy_reason" where
  "legacyPayoutEligibilityReason r active =
     (if notReady RkEmail r then LrEmailUnverified
      else if map_option ap_status active = Some ActiveProcessing then LrProcessing
      else if map_option ap_status active = Some ActiveRequested then LrRequested
      else if notReady RkPayableBalance r then LrNoPayable
      else if notReady RkThreshold r then LrBelowThreshold
      else if rd_requestable r then LrEligible else LrReadinessUnavailable)"

section \<open>Lemmas\<close>

text \<open>When a manual control counts as approved.\<close>

definition controlApproved :: "time \<Rightarrow> manual_decision \<Rightarrow> bool" where
  "controlApproved at d \<longleftrightarrow> isValidPayoutReadinessVersion (md_version d) \<and> md_status d = DecisionReady \<and>
     (case md_expiresAt d of None \<Rightarrow> True | Some t \<Rightarrow> at < t)"

lemma manualCheck_ready:
  "ri_status (manualCheck key checks dest at) = RsReady \<longleftrightarrow>
     (\<exists>d. filter (\<lambda>c. md_key c = key) checks = [d] \<and> controlApproved at d) \<and>
     (key = KeyPaymentMethod \<longrightarrow> destinationVerified dest)"
proof (cases "filter (\<lambda>c. md_key c = key) checks")
  case Nil
  then show ?thesis by (simp add: manualCheck_def manualResult_def)
next
  case (Cons d others)
  then show ?thesis
    by (cases "md_status d"; cases "md_expiresAt d") (auto simp: manualCheck_def manualResult_def controlApproved_def)
qed

lemma manualCheck_status: "ri_status (manualCheck key checks dest at) \<noteq> RsUnknown"
  by (auto simp: manualCheck_def manualResult_def split: list.split)

lemma manualCheck_key [simp]: "ri_key (manualCheck key checks dest at) = RkManual key"
  by (auto simp: manualCheck_def manualResult_def split: list.split)

lemma evaluateMfa_key [simp]: "ri_key (evaluateMfa m) = RkMfa"
  by (induction m rule: evaluateMfa.induct) (simp_all add: mfaItem_def)

definition mfaPasses :: "mfa_input \<Rightarrow> bool" where
  "mfaPasses m \<longleftrightarrow> m = MfaUnknown \<or> m = MfaNotRequired \<or> m = MfaRequired MfaCurrent"

lemma evaluateMfa_ready:
  "ri_status (evaluateMfa m) = RsReady \<or> (m = MfaUnknown \<and> ri_status (evaluateMfa m) = RsUnknown) \<longleftrightarrow> mfaPasses m"
  by (induction m rule: evaluateMfa.induct) (simp_all add: mfaItem_def mfaPasses_def)

text \<open>\<open>requestable\<close>, spelled out.\<close>

lemma requestable_iff:
  "rd_requestable (evaluatePayoutReadiness at i) \<longleftrightarrow>
     rin_emailVerified i \<and> rin_payableCents i > 0 \<and> rin_payableCents i \<ge> rin_thresholdCents i \<and>
     rin_activePayout i = None \<and>
     (\<forall>key. \<exists>d. filter (\<lambda>c. md_key c = key) (rin_manualChecks i) = [d] \<and> controlApproved at d) \<and>
     destinationVerified (rin_destination i) \<and> mfaPasses (rin_mfa i)"
proof -
  have keys: "(\<forall>key. P key) \<longleftrightarrow> P KeyAddress \<and> P KeyKyc \<and> P KeyFraud \<and> P KeySanctions \<and> P KeyPaymentMethod" for P
    by (metis check_key.exhaust)
  show ?thesis
    unfolding evaluatePayoutReadiness_def readinessItems_def Let_def keys evaluateMfa_ready [symmetric]
    by (simp add: readyIf_def manualCheck_ready manualCheck_status)
qed

lemma legacy_eligible_iff:
  "legacyPayoutEligibilityReason (evaluatePayoutReadiness at i) (rin_activePayout i) = LrEligible \<longleftrightarrow>
   rd_requestable (evaluatePayoutReadiness at i)"
proof
  assume "legacyPayoutEligibilityReason (evaluatePayoutReadiness at i) (rin_activePayout i) = LrEligible"
  then show "rd_requestable (evaluatePayoutReadiness at i)"
    by (simp add: legacyPayoutEligibilityReason_def split: if_splits)
next
  assume r: "rd_requestable (evaluatePayoutReadiness at i)"
  then have "rin_emailVerified i" "rin_payableCents i > 0" "rin_payableCents i \<ge> rin_thresholdCents i" "rin_activePayout i = None"
    by (simp_all add: requestable_iff)
  then show "legacyPayoutEligibilityReason (evaluatePayoutReadiness at i) (rin_activePayout i) = LrEligible"
    using r by (simp add: legacyPayoutEligibilityReason_def notReady_def evaluatePayoutReadiness_def readinessItems_def readyIf_def Let_def)
qed

end
