(* ===== verification/Compliance.thy ===== *)
theory Compliance
  imports Readiness JsDate Periods
begin

text \<open>
  \<open>PayoutComplianceService\<close>: the manual controls of a member and its payout destination, the
  runtime block recomputed from the risk tables, the compliance snapshot a payout carries and its
  recheck at dispatch.  The snapshot travels through a jsonb column, so it is modelled as a JSON
  value on the way out and parsed on the way in; the round trip is a lemma.
\<close>

definition PAYOUT_COMPLIANCE_CONTROL_KEYS :: "check_key list" where
  "PAYOUT_COMPLIANCE_CONTROL_KEYS = [KeyAddress, KeyKyc, KeyFraud, KeySanctions, KeyPaymentMethod]"

record stored_control =
  sc_key :: check_key
  sc_status :: decision_status
  sc_reasonCode :: string
  sc_reviewedAt :: "time option"
  sc_expiresAt :: "time option"
  sc_version :: int

record stored_destination =
  sd_id :: uuid
  sd_verifiedAt :: "time option"
  sd_version :: int

record compliance_input =
  co_manualChecks :: "stored_control list"
  co_destination :: "stored_destination option"

section \<open>Reading\<close>

text \<open>The order of the Postgres enum \<open>PayoutReadinessCheckKey\<close>.\<close>

definition keyIndex :: "check_key \<Rightarrow> nat" where
  "keyIndex k = (case k of KeyAddress \<Rightarrow> 0 | KeyKyc \<Rightarrow> 1 | KeyFraud \<Rightarrow> 2 | KeySanctions \<Rightarrow> 3 | KeyPaymentMethod \<Rightarrow> 4)"

definition storedControl :: "readiness_check \<Rightarrow> stored_control" where
  "storedControl c = \<lparr>sc_key = ck_key c, sc_status = ck_status c, sc_reasonCode = ck_reasonCode c,
     sc_reviewedAt = ck_reviewedAt c, sc_expiresAt = ck_expiresAt c, sc_version = ck_version c\<rparr>"

text \<open>\<open>new Map(rows.map((row) => [row.key, row]))\<close> keeps the last row of a key.\<close>

definition lastOfKey :: "check_key \<Rightarrow> stored_control list \<Rightarrow> stored_control option" where
  "lastOfKey key rows = find (\<lambda>c. sc_key c = key) (rev rows)"

definition activeDestination :: "db \<Rightarrow> uuid \<Rightarrow> uuid \<Rightarrow> payout_destination option" where
  "activeDestination s tenantId membershipId =
     findFirstBy (\<lambda>d. (- de_version d, de_id d))
       (\<lambda>d. de_tenantId d = tenantId \<and> de_membershipId d = membershipId \<and> de_active d) (destinations s)"

definition readInput :: "db \<Rightarrow> uuid \<Rightarrow> uuid \<Rightarrow> compliance_input" where
  "readInput s tenantId membershipId =
     (let manualChecks = map storedControl
            (findManyBy (\<lambda>c. keyIndex (ck_key c))
               (\<lambda>c. ck_tenantId c = tenantId \<and> ck_membershipId c = membershipId) (readinessChecks s))
      in \<lparr>co_manualChecks = List.map_filter (\<lambda>key. lastOfKey key manualChecks) PAYOUT_COMPLIANCE_CONTROL_KEYS,
          co_destination = map_option (\<lambda>d. \<lparr>sd_id = de_id d, sd_verifiedAt = de_verifiedAt d, sd_version = de_version d\<rparr>)
            (activeDestination s tenantId membershipId)\<rparr>)"

section \<open>The runtime block\<close>

definition sanctionsMessage :: string where
  "sanctionsMessage = ''sanctions match '' @ emDash @ '' compliance review required''"

definition nameHit :: "db \<Rightarrow> string \<Rightarrow> bool" where
  "nameHit s name = list_ex (\<lambda>e. entryMatches (tokens (normalizeName name)) (se_normalizedName e)) (sanctions s)"

definition memberFullName :: "db \<Rightarrow> uuid \<Rightarrow> uuid \<Rightarrow> string option" where
  "memberFullName s tenantId membershipId =
     (case find (\<lambda>m. mb_id m = membershipId \<and> mb_tenantId m = tenantId) (memberships s) of
        None \<Rightarrow> None
      | Some m \<Rightarrow> map_option us_fullName (findUser s (mb_userId m)))"

definition runtimePayoutBlock :: "env \<Rightarrow> db \<Rightarrow> uuid \<Rightarrow> uuid \<Rightarrow> string option" where
  "runtimePayoutBlock E s tenantId membershipId =
     (let fraudFlag = flagOf s membershipId; profile = profileOf s membershipId
      in case (findTenant s tenantId, memberFullName s tenantId membershipId) of
           (Some tenant, Some fullName) \<Rightarrow>
             (case fraudPayoutBlock fraudFlag of
                Some b \<Rightarrow> Some b
              | None \<Rightarrow>
                  (case (if tn_requireKycForPayout tenant then kycPayoutBlock profile (env_now E) else None) of
                     Some b \<Rightarrow> Some b
                   | None \<Rightarrow>
                       if (case profile of None \<Rightarrow> False | Some p \<Rightarrow> pp_sanctionsHit p) then Some sanctionsMessage
                       else let names = filter (\<lambda>n. n \<noteq> [])
                              ((case profile of None \<Rightarrow> [] | Some p \<Rightarrow> [pp_legalName p]) @ [fullName])
                            in if list_ex (nameHit s) names then Some sanctionsMessage else None))
         | _ \<Rightarrow> Some ''payout recipient is no longer available'')"

definition isReady :: "compliance_input \<Rightarrow> time \<Rightarrow> bool" where
  "isReady input evaluatedAt =
     (let decisions = (\<lambda>key. lastOfKey key (co_manualChecks input))
      in if card (sc_key ` set (co_manualChecks input)) \<noteq> length PAYOUT_COMPLIANCE_CONTROL_KEYS then False
         else if list_ex (\<lambda>key. case decisions key of
              None \<Rightarrow> True
            | Some c \<Rightarrow> sc_status c \<noteq> DecisionReady \<or> \<not> isValidPayoutReadinessVersion (sc_version c) \<or>
                (case sc_expiresAt c of None \<Rightarrow> False | Some t \<Rightarrow> t \<le> evaluatedAt)) PAYOUT_COMPLIANCE_CONTROL_KEYS
         then False
         else (case co_destination input of None \<Rightarrow> False
               | Some d \<Rightarrow> sd_verifiedAt d \<noteq> None \<and> isValidPayoutReadinessVersion (sd_version d)))"

section \<open>Snapshots\<close>

record snapshot_control =
  sk_key :: check_key
  sk_status :: decision_status
  sk_reasonCode :: string
  sk_expiresAt :: "string option"
  sk_version :: int

record snapshot_destination =
  sv_id :: string
  sv_verifiedAt :: string
  sv_version :: int

record compliance_snapshot =
  cs_controls :: "snapshot_control list"
  cs_destination :: "snapshot_destination option"

definition buildSnapshot :: "compliance_input \<Rightarrow> compliance_snapshot" where
  "buildSnapshot input =
     \<lparr>cs_controls = map (\<lambda>c. \<lparr>sk_key = sc_key c, sk_status = sc_status c, sk_reasonCode = sc_reasonCode c,
          sk_expiresAt = map_option isoString (sc_expiresAt c), sk_version = sc_version c\<rparr>) (co_manualChecks input),
      cs_destination = (case co_destination input of None \<Rightarrow> None
        | Some d \<Rightarrow> map_option (\<lambda>t. \<lparr>sv_id = uuidText (sd_id d), sv_verifiedAt = isoString t, sv_version = sd_version d\<rparr>)
                     (sd_verifiedAt d))\<rparr>"

definition keyText :: "check_key \<Rightarrow> string" where
  "keyText k = (case k of KeyAddress \<Rightarrow> ''address'' | KeyKyc \<Rightarrow> ''kyc'' | KeyFraud \<Rightarrow> ''fraud''
     | KeySanctions \<Rightarrow> ''sanctions'' | KeyPaymentMethod \<Rightarrow> ''payment_method'')"

definition decisionText :: "decision_status \<Rightarrow> string" where
  "decisionText d = (case d of DecisionPending \<Rightarrow> ''pending'' | DecisionReady \<Rightarrow> ''ready'' | DecisionBlocked \<Rightarrow> ''blocked'')"

definition decisionOfText :: "string \<Rightarrow> decision_status option" where
  "decisionOfText t = find (\<lambda>d. decisionText d = t) [DecisionPending, DecisionReady, DecisionBlocked]"

definition textOrNull :: "string option \<Rightarrow> json" where
  "textOrNull t = (case t of None \<Rightarrow> JNull | Some x \<Rightarrow> JStr x)"

text \<open>The JSON value written to \<open>payouts.compliance_snapshot\<close>.\<close>

definition controlJson :: "snapshot_control \<Rightarrow> json" where
  "controlJson c = JObj [(''key'', JStr (keyText (sk_key c))), (''status'', JStr (decisionText (sk_status c))),
     (''reasonCode'', JStr (sk_reasonCode c)), (''expiresAt'', textOrNull (sk_expiresAt c)), (''version'', JNum (sk_version c))]"

definition snapshotJson :: "compliance_snapshot \<Rightarrow> json" where
  "snapshotJson x = JObj
     [(''format'', JNum 1), (''controls'', JArr (map controlJson (cs_controls x))),
      (''destination'', case cs_destination x of None \<Rightarrow> JNull
         | Some d \<Rightarrow> JObj [(''id'', JStr (sv_id d)), (''verifiedAt'', JStr (sv_verifiedAt d)), (''version'', JNum (sv_version d))])]"

definition hasExactKeys :: "(string \<times> json) list \<Rightarrow> string list \<Rightarrow> bool" where
  "hasExactKeys entries keys \<longleftrightarrow> sort (map fst entries) = sort keys"

definition field :: "(string \<times> json) list \<Rightarrow> string \<Rightarrow> json" where
  "field entries k = (case map_of entries k of None \<Rightarrow> JNull | Some v \<Rightarrow> v)"

definition isHexChar :: "char \<Rightarrow> bool" where
  "isHexChar c = (let n = of_char c :: nat in 48 \<le> n \<and> n \<le> 57 \<or> 97 \<le> n \<and> n \<le> 102 \<or> 65 \<le> n \<and> n \<le> 70)"

text \<open>The regular expression for a version 1 to 5 uuid, upper or lower case.\<close>

definition isUuidText :: "string \<Rightarrow> bool" where
  "isUuidText t \<longleftrightarrow> length t = 36 \<and>
     list_all (\<lambda>i. if i \<in> set [8, 13, 18, 23] then t ! i = CHR ''-'' else isHexChar (t ! i)) [0..<36] \<and>
     t ! 14 \<in> set ''12345'' \<and> t ! 19 \<in> set ''89abAB''"

fun isCanonicalIsoOrNull :: "json \<Rightarrow> bool" where
  "isCanonicalIsoOrNull JNull = True"
| "isCanonicalIsoOrNull (JStr v) = isCanonicalIso v"
| "isCanonicalIsoOrNull _ = False"

definition parseControl :: "check_key \<Rightarrow> json \<Rightarrow> snapshot_control option" where
  "parseControl expectedKey candidate = (case candidate of
      JObj c \<Rightarrow>
        if \<not> hasExactKeys c [''key'', ''status'', ''reasonCode'', ''expiresAt'', ''version''] then None
        else (case (field c ''key'', field c ''status'', field c ''reasonCode'', field c ''version'') of
            (JStr key, JStr status, JStr reasonCode, JNum version) \<Rightarrow>
              if key = keyText expectedKey \<and> isValidPayoutReadinessVersion version \<and>
                 isCanonicalIsoOrNull (field c ''expiresAt'')
              then map_option (\<lambda>st. \<lparr>sk_key = expectedKey, sk_status = st, sk_reasonCode = reasonCode,
                     sk_expiresAt = (case field c ''expiresAt'' of JStr v \<Rightarrow> Some v | _ \<Rightarrow> None),
                     sk_version = version\<rparr>) (decisionOfText status)
              else None
          | _ \<Rightarrow> None)
    | _ \<Rightarrow> None)"

fun parseControls :: "check_key list \<Rightarrow> json list \<Rightarrow> snapshot_control list option" where
  "parseControls (k # ks) (c # cs) =
     (case parseControl k c of None \<Rightarrow> None
      | Some x \<Rightarrow> map_option ((#) x) (parseControls ks cs))"
| "parseControls [] [] = Some []"
| "parseControls _ _ = None"

definition parseDestination :: "json \<Rightarrow> snapshot_destination option" where
  "parseDestination v = (case v of
      JObj d \<Rightarrow>
        if \<not> hasExactKeys d [''id'', ''verifiedAt'', ''version''] then None
        else (case (field d ''id'', field d ''verifiedAt'', field d ''version'') of
            (JStr i, JStr verifiedAt, JNum version) \<Rightarrow>
              if isUuidText i \<and> isCanonicalIso verifiedAt \<and> isValidPayoutReadinessVersion version
              then Some \<lparr>sv_id = i, sv_verifiedAt = verifiedAt, sv_version = version\<rparr> else None
          | _ \<Rightarrow> None)
    | _ \<Rightarrow> None)"

definition parseSnapshot :: "json option \<Rightarrow> compliance_snapshot option" where
  "parseSnapshot value = (case value of
      Some (JObj root) \<Rightarrow>
        if \<not> hasExactKeys root [''format'', ''controls'', ''destination''] then None
        else (case (field root ''format'', field root ''controls'') of
            (JNum n, JArr controls) \<Rightarrow>
              if n = 1 \<and> length controls = length PAYOUT_COMPLIANCE_CONTROL_KEYS
              then (case parseControls PAYOUT_COMPLIANCE_CONTROL_KEYS controls of
                  None \<Rightarrow> None
                | Some cs \<Rightarrow> map_option (\<lambda>d. \<lparr>cs_controls = cs, cs_destination = Some d\<rparr>)
                              (parseDestination (field root ''destination'')))
              else None
          | _ \<Rightarrow> None)
    | _ \<Rightarrow> None)"

datatype compliance_recheck = RecheckReady | RecheckChanged | RecheckRequired

definition recheckSnapshot :: "time \<Rightarrow> json option \<Rightarrow> compliance_input \<Rightarrow> compliance_recheck" where
  "recheckSnapshot now stored current =
     (case parseSnapshot stored of
        None \<Rightarrow> RecheckRequired
      | Some parsed \<Rightarrow>
          if \<not> isReady current now then RecheckChanged
          else if parsed = buildSnapshot current then RecheckReady else RecheckChanged)"

section \<open>Decisions and destinations\<close>

text \<open>The request context kept in \<open>AsyncLocalStorage\<close> (tenant-context.service.ts); \<open>None\<close> outside a request.\<close>

record tenant_context =
  tc_userId :: "uuid option"
  tc_tenantId :: "uuid option"
  tc_membershipId :: "uuid option"

definition assertTenant :: "tenant_context option \<Rightarrow> uuid \<Rightarrow> unit res" where
  "assertTenant ctx tenantId =
     (case Option.bind ctx tc_tenantId of
        None \<Rightarrow> Inr ()
      | Some current \<Rightarrow> require (current = tenantId) (Forbidden ''tenant context mismatch''))"

definition assertMembership :: "tenant_context option \<Rightarrow> uuid \<Rightarrow> unit res" where
  "assertMembership ctx membershipId =
     (case Option.bind ctx tc_membershipId of
        None \<Rightarrow> Inr ()
      | Some current \<Rightarrow> require (current = membershipId) (Forbidden ''membership context mismatch''))"

definition assertActor :: "tenant_context option \<Rightarrow> actor \<Rightarrow> unit res" where
  "assertActor ctx a =
     (case ctx of
        None \<Rightarrow> Inr ()
      | Some c \<Rightarrow>
          andThen (case tc_userId c of
              None \<Rightarrow> Inr ()
            | Some u \<Rightarrow> require (u = ac_userId a) (Forbidden ''actor context mismatch'')) (\<lambda>_.
          assertTenant ctx (ac_tenantId a)))"

record compliance_actor =
  ca_userId :: uuid
  ca_tenantId :: uuid
  ca_membershipId :: uuid

definition assertComplianceActor :: "tenant_context option \<Rightarrow> compliance_actor \<Rightarrow> unit res" where
  "assertComplianceActor ctx a =
     andThen (assertTenant ctx (ca_tenantId a)) (\<lambda>_. assertMembership ctx (ca_membershipId a))"

definition assertWritableTarget :: "tenant_context option \<Rightarrow> compliance_actor \<Rightarrow> uuid \<Rightarrow> unit res" where
  "assertWritableTarget ctx a membershipId =
     andThen (assertComplianceActor ctx a) (\<lambda>_.
       require (ca_membershipId a \<noteq> membershipId)
         (Forbidden ''reviewers cannot approve their own payout compliance''))"

definition memberExists :: "db \<Rightarrow> uuid \<Rightarrow> uuid \<Rightarrow> bool" where
  "memberExists s tenantId membershipId =
     list_ex (\<lambda>m. mb_id m = membershipId \<and> mb_tenantId m = tenantId) (memberships s)"

definition lockMembership :: "db \<Rightarrow> uuid \<Rightarrow> uuid \<Rightarrow> unit res" where
  "lockMembership s tenantId membershipId =
     require (countWhere (\<lambda>m. mb_id m = membershipId \<and> mb_tenantId m = tenantId) (memberships s) = 1)
       (NotFound ''membership was not found in this business'')"

record decision_input =
  dn_status :: decision_status
  dn_reasonCode :: string
  dn_expiresAt :: "time option"
  dn_expectedVersion :: int

definition decisionOf :: "env \<Rightarrow> compliance_actor \<Rightarrow> decision_input \<Rightarrow> readiness_check \<Rightarrow> readiness_check" where
  "decisionOf E a i c = c\<lparr>ck_status := dn_status i, ck_reasonCode := dn_reasonCode i,
     ck_reviewedByUserId := Some (ca_userId a), ck_reviewedAt := Some (env_now E), ck_expiresAt := dn_expiresAt i\<rparr>"

definition checkAt :: "uuid \<Rightarrow> uuid \<Rightarrow> check_key \<Rightarrow> readiness_check \<Rightarrow> bool" where
  "checkAt tenantId membershipId key c \<longleftrightarrow>
     ck_tenantId c = tenantId \<and> ck_membershipId c = membershipId \<and> ck_key c = key"

text \<open>
  The control row of one key: created at version 1 when none is expected (the unique index over
  tenant, member and key reports \<open>P2002\<close>), otherwise updated if the expected version still holds.
\<close>

definition writeControl ::
  "env \<Rightarrow> compliance_actor \<Rightarrow> uuid \<Rightarrow> check_key \<Rightarrow> decision_input \<Rightarrow> db \<Rightarrow> (readiness_check \<times> db) res" where
  "writeControl E a membershipId key i s =
     (let here = checkAt (ca_tenantId a) membershipId key
      in if dn_expectedVersion i = 0
         then
           let row = decisionOf E a i \<lparr>ck_tenantId = ca_tenantId a, ck_membershipId = membershipId, ck_key = key,
                  ck_status = DecisionPending, ck_reasonCode = '''', ck_reviewedByUserId = None, ck_reviewedAt = None,
                  ck_expiresAt = None, ck_version = 1\<rparr>
           in andThen (require (\<not> list_ex here (readinessChecks s)) (DbError ''P2002'')) (\<lambda>_.
              Inr (row, s\<lparr>readinessChecks := readinessChecks s @ [row]\<rparr>))
         else
           let current = (\<lambda>c. here c \<and> ck_version c = dn_expectedVersion i);
               s1 = s\<lparr>readinessChecks := updateWhere current
                  (\<lambda>c. (decisionOf E a i c)\<lparr>ck_version := ck_version c + 1\<rparr>) (readinessChecks s)\<rparr>
           in andThen (require (countWhere current (readinessChecks s) = 1) (Conflict ''payout compliance version changed'')) (\<lambda>_.
              andThen (from_option (DbError ''P2025'') (find here (readinessChecks s1))) (\<lambda>row.
              Inr (row, s1))))"

fun rethrowVersionConflict :: "error \<Rightarrow> error" where
  "rethrowVersionConflict (DbError code) =
     (if code = ''P2002'' \<or> code = ''P2034'' then Conflict ''payout compliance version changed'' else DbError code)"
| "rethrowVersionConflict e = e"

definition mapError :: "(error \<Rightarrow> error) \<Rightarrow> 'a res \<Rightarrow> 'a res" where
  "mapError f r = (case r of Inl e \<Rightarrow> Inl (f e) | Inr x \<Rightarrow> Inr x)"

definition complianceAudit :: "compliance_actor \<Rightarrow> string \<Rightarrow> string \<Rightarrow> uuid \<Rightarrow> json \<Rightarrow> db \<Rightarrow> db" where
  "complianceAudit a action entity membershipId after s =
     s\<lparr>audits := audits s @ [\<lparr>au_tenantId = ca_tenantId a, au_actorUserId = Some (ca_userId a), au_action = action,
        au_entity = entity, au_entityId = Some membershipId, au_before = None, au_after = after\<rparr>]\<rparr>"

definition isoOrNull :: "time option \<Rightarrow> json" where
  "isoOrNull t = textOrNull (map_option isoString t)"

definition decideControl ::
  "tenant_context option \<Rightarrow> env \<Rightarrow> compliance_actor \<Rightarrow> uuid \<Rightarrow> check_key \<Rightarrow> decision_input \<Rightarrow> db \<Rightarrow>
   (readiness_check \<times> db) res" where
  "decideControl ctx E a membershipId key i s =
     andThen (assertWritableTarget ctx a membershipId) (\<lambda>_.
       mapError rethrowVersionConflict
         (andThen (lockMembership s (ca_tenantId a) membershipId) (\<lambda>_.
          andThen (writeControl E a membershipId key i s) (\<lambda>(c, s1).
          Inr (c, complianceAudit a ''payout_compliance.readiness_decided'' ''payout_readiness_check'' membershipId
            (JObj [(''membershipId'', JId membershipId), (''key'', JStr (keyText (ck_key c))),
                   (''status'', JStr (decisionText (ck_status c))), (''reasonCode'', JStr (ck_reasonCode c)),
                   (''version'', JNum (ck_version c)), (''expiresAt'', isoOrNull (ck_expiresAt c))]) s1)))))"

record destination_input =
  di_providerReference :: string
  di_last4 :: "string option"
  di_country :: string
  di_currency :: string
  di_verifiedAt :: time
  di_expectedVersion :: int

definition bullets :: string where
  "bullets = concat (replicate 4 (map char_of [226, 128, 162 :: nat]))"

definition destinationDisplayLabel :: "string \<Rightarrow> string option \<Rightarrow> string" where
  "destinationDisplayLabel currency l4 = (case l4 of
      None \<Rightarrow> currency @ '' payout destination''
    | Some d \<Rightarrow> if d = [] then currency @ '' payout destination''
               else currency @ '' payout destination '' @ bullets @ '' '' @ d)"

definition activeAt :: "uuid \<Rightarrow> uuid \<Rightarrow> payout_destination \<Rightarrow> bool" where
  "activeAt tenantId membershipId d \<longleftrightarrow>
     de_tenantId d = tenantId \<and> de_membershipId d = membershipId \<and> de_active d"

text \<open>The destination expected to be active is retired (none may be active when version 0 is expected).\<close>

definition retireDestination :: "uuid \<Rightarrow> uuid \<Rightarrow> int \<Rightarrow> db \<Rightarrow> db res" where
  "retireDestination tenantId membershipId expectedVersion s =
     (if expectedVersion = 0
      then andThen (require (\<not> list_ex (activeAt tenantId membershipId) (destinations s))
             (Conflict ''payout destination version changed'')) (\<lambda>_. Inr s)
      else let current = (\<lambda>d. activeAt tenantId membershipId d \<and> de_version d = expectedVersion)
        in andThen (require (countWhere current (destinations s) = 1)
             (Conflict ''payout destination version changed'')) (\<lambda>_.
           Inr (s\<lparr>destinations := updateWhere current (\<lambda>d. d\<lparr>de_active := False\<rparr>) (destinations s)\<rparr>)))"

text \<open>\<open>create\<close> under the partial unique index: one active destination per tenant and member.\<close>

definition createDestination :: "payout_destination \<Rightarrow> db \<Rightarrow> (payout_destination \<times> db) res" where
  "createDestination d s =
     (let row = d\<lparr>de_id := freshId s\<rparr>
      in if de_active row \<and> list_ex (activeAt (de_tenantId row) (de_membershipId row)) (destinations s)
         then Inl (DbError ''P2002'')
         else Inr (row, (drawId s)\<lparr>destinations := destinations s @ [row]\<rparr>))"

definition replaceDestination ::
  "tenant_context option \<Rightarrow> compliance_actor \<Rightarrow> uuid \<Rightarrow> destination_input \<Rightarrow> db \<Rightarrow> (payout_destination \<times> db) res" where
  "replaceDestination ctx a membershipId i s =
     andThen (assertWritableTarget ctx a membershipId) (\<lambda>_.
       mapError rethrowVersionConflict
         (andThen (lockMembership s (ca_tenantId a) membershipId) (\<lambda>_.
          andThen (retireDestination (ca_tenantId a) membershipId (di_expectedVersion i) s) (\<lambda>s1.
          andThen (createDestination \<lparr>de_id = 0, de_tenantId = ca_tenantId a, de_membershipId = membershipId,
              de_providerReference = di_providerReference i, de_maskedLabel = destinationDisplayLabel (di_currency i) (di_last4 i),
              de_last4 = di_last4 i, de_country = di_country i, de_currency = di_currency i,
              de_verifiedByUserId = Some (ca_userId a), de_verifiedAt = Some (di_verifiedAt i),
              de_version = di_expectedVersion i + 1, de_active = True\<rparr> s1) (\<lambda>(d, s2).
          Inr (d, complianceAudit a ''payout_compliance.destination_replaced'' ''payout_destination'' membershipId
            (JObj [(''membershipId'', JId membershipId), (''maskedLabel'', JStr (de_maskedLabel d)),
                   (''last4'', textOrNull (de_last4 d)), (''country'', JStr (de_country d)),
                   (''currency'', JStr (de_currency d)), (''verifiedAt'', isoOrNull (de_verifiedAt d)),
                   (''version'', JNum (de_version d))]) s2))))))"

section \<open>The overview\<close>

record safe_control =
  sf_key :: check_key
  sf_status :: decision_status
  sf_reasonCode :: string
  sf_reviewedAt :: "string option"
  sf_expiresAt :: "string option"
  sf_version :: int

definition safeControl :: "stored_control \<Rightarrow> safe_control" where
  "safeControl c = \<lparr>sf_key = sc_key c, sf_status = sc_status c, sf_reasonCode = sc_reasonCode c,
     sf_reviewedAt = map_option isoString (sc_reviewedAt c), sf_expiresAt = map_option isoString (sc_expiresAt c),
     sf_version = sc_version c\<rparr>"

definition missingControl :: "check_key \<Rightarrow> safe_control" where
  "missingControl key = \<lparr>sf_key = key, sf_status = DecisionPending, sf_reasonCode = ''review_required'',
     sf_reviewedAt = None, sf_expiresAt = None, sf_version = 0\<rparr>"

definition getReadiness ::
  "tenant_context option \<Rightarrow> compliance_actor \<Rightarrow> uuid \<Rightarrow> db \<Rightarrow> (safe_control list \<times> payout_destination option) res" where
  "getReadiness ctx a membershipId s =
     andThen (assertComplianceActor ctx a) (\<lambda>_.
     andThen (require (memberExists s (ca_tenantId a) membershipId)
        (NotFound ''membership was not found in this business'')) (\<lambda>_.
       let input = readInput s (ca_tenantId a) membershipId;
           controls = map (\<lambda>key. case lastOfKey key (co_manualChecks input) of
               None \<Rightarrow> missingControl key | Some c \<Rightarrow> safeControl c) PAYOUT_COMPLIANCE_CONTROL_KEYS
       in (case co_destination input of
             None \<Rightarrow> Inr (controls, None)
           | Some d \<Rightarrow> andThen (from_option (DbError ''P2025'')
               (find (\<lambda>x. de_id x = sd_id d \<and> activeAt (ca_tenantId a) membershipId x) (destinations s)))
               (\<lambda>x. Inr (controls, Some x)))))"

end
