(* ===== verification/Policy_Theorems.thy ===== *)
theory Policy_Theorems
  imports Samples Compliance
begin

text \<open>
  What the policy components promise: plan validation and versioning, accounting periods, ranks,
  instants as text, and the payout readiness checklist.
\<close>

section \<open>Plans\<close>

text \<open>The shared zod schema accepts a plan exactly when it is valid: rates in range, levels covering
  0..depth-1 once each, and the sum of the level rates within the pool rate.\<close>

theorem plan_schema_exact: "commissionPlanSchema p = Inr q \<longleftrightarrow> validPlan p \<and> q = p"
  by (rule commissionPlanSchema_iff)

text \<open>C39: Creating a plan version appends one sealed row, carrying the next version of its tenant and a start
  instant no other plan of the tenant has; sealed plans stay valid and no older row changes.\<close>

theorem plan_version_appended:
  assumes "createImmutableVersion E a requested snapshot act s = Inr (p, s')"
    and "\<forall>q \<in> set (plans s). pl_id q \<noteq> freshId s" and "plansOk s"
  shows "plans s' = plans s @ [p\<lparr>pl_finalized := True\<rparr>] \<and> planRowOk p \<and>
     (\<forall>q \<in> set (plans s). pl_tenantId q = ac_tenantId a \<longrightarrow>
        pl_version q < pl_version p \<and> pl_effectiveFrom q \<noteq> pl_effectiveFrom p) \<and> plansOk s'"
  using createImmutableVersion_Inr [OF assms(1,2)] maxVersion_ge [of _ "plans s" "ac_tenantId a"]
    createImmutableVersion_plansOk [OF assms] by (auto simp: le_imp_less_Suc)

definition demo_actor :: actor where
  "demo_actor = \<lparr>ac_userId = 2, ac_tenantId = 1\<rparr>"

definition demo_snapshot :: "db \<Rightarrow> plan_error + plan_snapshot_input" where
  "demo_snapshot s = Inr \<lparr>ps_name = ''Next'', ps_poolRateBps = 1000, ps_depth = 2,
     ps_levels = [\<lparr>lv_level = 0, lv_rateBps = 600\<rparr>, \<lparr>lv_level = 1, lv_rateBps = 400\<rparr>],
     ps_fastStartBps = 0, ps_fastStartDays = 0, ps_matchingBps = 0\<rparr>"

lemma demo_plansOk: "plansOk demo_db" "\<forall>q \<in> set (plans demo_db). pl_id q \<noteq> freshId demo_db"
  by (simp_all add: plansOk_def planRowOk_def demo_db_def demo_plan_def freshId_def upt_conv_Cons)

lemma demo_version:
  "\<exists>p s'. createImmutableVersion demo_env demo_actor (Some 5) demo_snapshot ''plan.create_version'' demo_db = Inr (p, s')"
  by (simp add: createImmutableVersion_def createImmutableTx_def insertPlan_def finalizePlan_def checkPlanLevelRates_def
      levelsComplete_def demo_snapshot_def demo_db_def demo_plan_def demo_actor_def maxVersion_def freshId_def Let_def
      numeral_eq_Suc)

theorem plan_version_appended_witness:
  "\<exists>p s'. createImmutableVersion demo_env demo_actor (Some 5) demo_snapshot ''plan.create_version'' demo_db = Inr (p, s') \<and>
     plans s' = plans demo_db @ [p\<lparr>pl_finalized := True\<rparr>]"
proof -
  obtain p s' where c: "createImmutableVersion demo_env demo_actor (Some 5) demo_snapshot ''plan.create_version'' demo_db = Inr (p, s')"
    using demo_version by blast
  show ?thesis using c plan_version_appended [OF c demo_plansOk(2,1)] by blast
qed

text \<open>C40: An immediate plan version starts at the first millisecond from now that no plan of the tenant has,
  and the search for it ends.\<close>

theorem immediate_start_is_first_free:
  "c \<le> nextImmediateEffectiveFrom rows t c \<and>
   \<not> list_ex (\<lambda>p. pl_tenantId p = t \<and> pl_effectiveFrom p = nextImmediateEffectiveFrom rows t c) rows \<and>
   (\<forall>x \<in> {c..<nextImmediateEffectiveFrom rows t c}. list_ex (\<lambda>p. pl_tenantId p = t \<and> pl_effectiveFrom p = x) rows)"
  using nextImmediate_spec [of c rows t] by auto

theorem immediate_start_is_first_free_witness:
  "nextImmediateEffectiveFrom [demo_plan] 1 0 = 1"
proof -
  let ?n = "nextImmediateEffectiveFrom [demo_plan] 1 0"
  note f = immediate_start_is_first_free [of 0 "[demo_plan]" 1]
  have "?n \<noteq> 0" "0 \<le> ?n" using f by (auto simp: demo_plan_def)
  moreover have "\<not> 1 < ?n"
  proof
    assume "1 < ?n"
    then have "1 \<in> {0..<?n}" by simp
    then have "list_ex (\<lambda>p. pl_tenantId p = 1 \<and> pl_effectiveFrom p = 1) [demo_plan]" using f by blast
    then show False by (simp add: demo_plan_def)
  qed
  ultimately show ?thesis by linarith
qed

text \<open>The plan the settings page, the simulator and the member page show as active at an instant is the plan
  the engine pays a sale of that instant by.\<close>

theorem active_plan_is_engine_plan:
  "resolvePlan t at None s = from_option (Conflict ''no finalized commission plan is effective for this sale'') (activePlan t at s) \<and>
   findPlan t at s = activePlan t at s"
  by (simp add: resolvePlan_def activePlan_def findPlan_def)

section \<open>Accounting periods\<close>

text \<open>Locking a period makes the engine's guard refuse exactly the writes that touch a locked month, is
  idempotent, keeps the original locker and instant, and leaves every other period as it was.\<close>

theorem lock_guards_exactly:
  assumes "lockPeriod E a period note s = Inr (w, s')"
  shows "(assertPeriodsOpen s' t ps = Inr () \<longleftrightarrow>
            assertPeriodsOpen s t ps = Inr () \<and> (t = ac_tenantId a \<longrightarrow> period \<notin> set ps)) \<and>
         (case lockOf s (ac_tenantId a) period of
            None \<Rightarrow> map_option lk_lockedByUserId (lockOf s' (ac_tenantId a) period) = Some (Some (ac_userId a))
          | Some l \<Rightarrow> map_option (\<lambda>x. (lk_lockedByUserId x, lk_createdAt x)) (lockOf s' (ac_tenantId a) period) =
                      Some (lk_lockedByUserId l, lk_createdAt l))"
proof -
  have l: "lockOf s' t q = lockOf (upsertLock E a period note s) t q" for t q using lockPeriod_Inr [OF assms] by blast
  have "isLocked s' t p \<longleftrightarrow> isLocked s t p \<or> (t = ac_tenantId a \<and> p = period)" for p
    by (auto simp: isLocked_def l lockOf_upsertLock)
  then show ?thesis
    by (auto simp: assertPeriodsOpen_Inr l lockOf_upsertLock split: option.split)
qed

lemma demo_lock: "\<exists>w s'. lockPeriod demo_env demo_actor ''2023-11'' None demo_db = Inr (w, s')"
proof -
  have "validPeriod ''2023-11''" by code_simp
  then show ?thesis by (simp add: lockPeriod_def assertPeriodFormat_def Let_def)
qed

theorem lock_guards_exactly_witness:
  "\<exists>w s'. lockPeriod demo_env demo_actor ''2023-11'' None demo_db = Inr (w, s') \<and>
     assertPeriodsOpen s' 1 [''2023-11''] \<noteq> Inr ()"
proof -
  obtain w s' where l: "lockPeriod demo_env demo_actor ''2023-11'' None demo_db = Inr (w, s')" using demo_lock by blast
  have "assertPeriodsOpen s' 1 [''2023-11''] \<noteq> Inr ()"
    using lock_guards_exactly [OF l, of 1 "[''2023-11'']"] by (simp add: demo_actor_def)
  then show ?thesis using l by blast
qed

section \<open>The distribution core\<close>

text \<open>Who is paid what, read off the plan: every level whose member exists and whose rounded-down share is positive.\<close>

definition lineSpec :: "cents \<Rightarrow> uuid option list \<Rightarrow> plan_level_rate \<Rightarrow> commission_line list" where
  "lineSpec a chain l =
     (case chainAt chain (lv_level l) of
        None \<Rightarrow> []
      | Some b \<Rightarrow> if a * lv_rateBps l div 10000 \<le> 0 then []
                  else [\<lparr>cl_level = lv_level l, cl_beneficiary = b, cl_rateBpsUsed = lv_rateBps l,
                         cl_amountCents = a * lv_rateBps l div 10000\<rparr>])"

lemma linesOf_spec:
  "0 \<le> a \<Longrightarrow> \<forall>l \<in> set ls. 0 \<le> lv_rateBps l \<and> lv_rateBps l \<le> 10000 \<Longrightarrow> linesOf a ls chain = Inr (concat (map (lineSpec a chain) ls))"
  by (induction ls) (auto simp: lineSpec_def bpsAmount_def BPS_DENOMINATOR_def split: option.split)

text \<open>C30: On a valid plan the commission core never fails and equals its specification: level by level, in order, the
  member of the effective chain at that level gets the rounded-down share of the level's rate, levels without a member or
  with a zero share get no line, and the lines together never exceed the share of the plan's pool rate.\<close>

theorem distribution_meets_spec:
  assumes "planRowOk plan" "0 \<le> a"
  shows "\<exists>lines. computeCommissionLines a (planLevels plan) chain = Inr lines \<and>
    lines = concat (map (lineSpec a chain) (planLevels plan)) \<and> distinct (map cl_level lines) \<and>
    totalDistributed lines \<le> bps_share a (pl_poolRateBps plan)"
proof -
  let ?ls = "planLevels plan"
  note lv = planLevels_ok [OF assms(1)]
  have "sort_key lv_level ?ls = ?ls" using lv(3) by (simp add: sort_key_id_if_sorted)
  then have c: "computeCommissionLines a ?ls chain = Inr (concat (map (lineSpec a chain) ?ls))"
    using linesOf_spec [OF assms(2) lv(1)] by (simp add: computeCommissionLines_def)
  have "totalDistributed (concat (map (lineSpec a chain) ?ls)) \<le> bps_share a (\<Sum>l\<leftarrow>?ls. lv_rateBps l)"
    using computeCommissionLines_bound [OF c _ assms(2)] lv(1) by (simp add: totalDistributed_sum bps_share_def)
  also have "\<dots> \<le> bps_share a (pl_poolRateBps plan)" by (rule bps_share_mono [OF assms(2) lv(2)])
  finally show ?thesis using c computeCommissionLines_distinct [OF c] lv(3) by simp
qed

theorem distribution_meets_spec_witness:
  "computeCommissionLines 999 (planLevels demo_plan) [Some 10, None, Some 12] =
     Inr [\<lparr>cl_level = 0, cl_beneficiary = 10, cl_rateBpsUsed = 500, cl_amountCents = 49\<rparr>,
          \<lparr>cl_level = 2, cl_beneficiary = 12, cl_rateBpsUsed = 200, cl_amountCents = 19\<rparr>]"
proof -
  have p: "planRowOk demo_plan" by (simp add: planRowOk_def demo_plan_def upt_conv_Cons)
  have "planLevels demo_plan = [\<lparr>lv_level = 0, lv_rateBps = 500\<rparr>, \<lparr>lv_level = 1, lv_rateBps = 300\<rparr>, \<lparr>lv_level = 2, lv_rateBps = 200\<rparr>]"
    by (simp add: planLevels_def demo_plan_def)
  then show ?thesis
    using distribution_meets_spec [OF p, of 999 "[Some 10, None, Some 12]"] by (simp add: lineSpec_def chainAt_def)
qed

section \<open>Ranks\<close>

text \<open>The rank card a member sees carries the override rate the engine pays: that of the highest tier of the ladder in
  use whose team and earnings thresholds the member meets, zero without one, and never above the ladder's maximum.\<close>

theorem rank_card_is_engine_rate:
  assumes "memberRank membershipId tenantId s = Inr r"
  shows "mr_overrideBps r = overrideBpsFor s tenantId membershipId \<and>
    overrideBpsFor s tenantId membershipId \<le> maxOverrideBps s tenantId \<and>
    (case resolveTier s tenantId membershipId of
       None \<Rightarrow> mr_overrideBps r = 0
     | Some t \<Rightarrow> mr_overrideBps r = tr_overrideBps t \<and>
         (\<exists>lower higher. effectiveTiers s tenantId = lower @ t # higher \<and>
            reaches (mr_teamSize r) (mr_earningsCents r) t \<and> (\<forall>u \<in> set higher. \<not> reaches (mr_teamSize r) (mr_earningsCents r) u)))"
proof -
  obtain me where me: "memberIn s tenantId membershipId = Some me" using assms by (auto simp: memberRank_def)
  have r: "mr_teamSize r = teamSize s tenantId me" "mr_earningsCents r = earnedCents s tenantId membershipId"
    using assms me by (auto simp: memberRank_def Let_def)
  have "overrideBpsFor s tenantId membershipId \<le> maxOverrideBps s tenantId"
    using ov.rate_le_ceiling [of "(s, tenantId)" membershipId] by simp
  moreover have "resolveTier s tenantId membershipId = bestTier (mr_teamSize r) (mr_earningsCents r) (effectiveTiers s tenantId)"
    using me r by (simp add: resolveTier_def)
  ultimately show ?thesis
    using memberRank_override [OF assms] bestTier_Some [of "mr_teamSize r" "mr_earningsCents r" "effectiveTiers s tenantId"]
    by (auto simp: overrideBpsFor_def split: option.split)
qed

theorem rank_card_is_engine_rate_witness:
  "\<exists>r. memberRank 11 1 demo_db = Inr r \<and> mr_overrideBps r = overrideBpsFor demo_db 1 11"
proof -
  have "\<exists>r. memberRank 11 1 demo_db = Inr r"
    by (simp add: memberRank_def memberIn_def demo_db_def demo_member_def Let_def)
  then show ?thesis using rank_card_is_engine_rate by blast
qed

section \<open>Instants as text\<close>

text \<open>Writing an instant of the JavaScript range as an ISO text and parsing it returns the instant, and the texts the
  readiness policy accepts as canonical are exactly those, each for one instant.\<close>

theorem iso_roundtrip:
  assumes "\<bar>t\<bar> \<le> maxTime"
  shows "parseIso (isoString t) = Some t \<and> (isCanonicalIso v \<longleftrightarrow> (\<exists>!u. \<bar>u\<bar> \<le> maxTime \<and> isoString u = v))"
  using parseIso_isoString [OF assms] isoString_inj isCanonicalIso_iff [of v] by metis

theorem iso_roundtrip_witness: "parseIso (isoString (-1)) = Some (-1)"
  using iso_roundtrip [of "-1"] by (simp add: maxTime_def)

end
