(* ===== verification/Commission_Spec.thy ===== *)
theory Commission_Spec
  imports Samples "HOL-Library.Sublist"
begin

text \<open>
  A specification of what the engine posts, written over the rows of the database and without the
  engine's own functions: the plan in force, the sponsors above the seller, who of them earns at
  which level, the sponsor's bonuses, the override of the seller's rank, the row each share becomes,
  and the ceiling; then the rows a void must reverse and the row that reverses one.  The lemmas show
  that the engine's definitions meet it.
\<close>

section \<open>Plan, sponsors and lines\<close>

text \<open>The plan a sale is pinned to, or the finalized plan of the tenant with the latest start up to the sale date.\<close>

definition planInForce :: "db \<Rightarrow> sale \<Rightarrow> commission_plan \<Rightarrow> bool" where
  "planInForce s sale p \<longleftrightarrow> p \<in> set (plans s) \<and> pl_tenantId p = sa_tenantId sale \<and> pl_finalized p \<and>
     (case sa_commissionPlanId sale of
        Some i \<Rightarrow> pl_id p = i
      | None \<Rightarrow> pl_effectiveFrom p \<le> sa_saleDate sale \<and>
          (\<forall>q \<in> set (plans s). pl_tenantId q = sa_tenantId sale \<longrightarrow> pl_finalized q \<longrightarrow> pl_effectiveFrom q \<le> sa_saleDate sale \<longrightarrow>
             pl_effectiveFrom q < pl_effectiveFrom p \<or>
             pl_effectiveFrom q = pl_effectiveFrom p \<and> pl_version q \<le> pl_version p))"

text \<open>The rows met walking up the sponsors, at most so many of them.\<close>

inductive walksUp :: "db \<Rightarrow> uuid option \<Rightarrow> nat \<Rightarrow> membership list \<Rightarrow> bool" for s where
  deep: "walksUp s i 0 []"
| top: "walksUp s None n []"
| up: "find (\<lambda>m. mb_id m = i) (memberships s) = Some m \<Longrightarrow> walksUp s (mb_sponsorMembershipId m) n ms \<Longrightarrow>
       walksUp s (Some i) (Suc n) (m # ms)"

text \<open>
  Who stands at which level: the seller always at level 0; above, inactive members are skipped under
  compression, leave their level unpaid otherwise, or earn like the others where the tenant says so.
\<close>

fun paidChain :: "tenant \<Rightarrow> membership list \<Rightarrow> uuid option list" where
  "paidChain t [] = []"
| "paidChain t (seller # ups) = Some (mb_id seller) #
     (if tn_compressionEnabled t then [Some (mb_id u). u \<leftarrow> ups, mb_status u = MemberActive]
      else [if mb_status u = MemberActive \<or> tn_inactiveMembersEarn t then Some (mb_id u) else None. u \<leftarrow> ups])"

text \<open>A share: member, level, rate and amount.\<close>

type_synonym share = "uuid \<times> nat \<times> int \<times> cents"

definition shareIf :: "bool \<Rightarrow> uuid \<Rightarrow> nat \<Rightarrow> int \<Rightarrow> cents \<Rightarrow> share list" where
  "shareIf due member level rate base =
     (if due \<and> 0 < base * rate div 10000 then [(member, level, rate, base * rate div 10000)] else [])"

definition levelShares :: "sale \<Rightarrow> commission_plan \<Rightarrow> uuid option list \<Rightarrow> share list" where
  "levelShares sale p chain = concat (map (\<lambda>l.
     if length chain \<le> pv_level l then []
     else case chain ! pv_level l of None \<Rightarrow> [] | Some m \<Rightarrow> shareIf True m (pv_level l) (pv_rateBps l) (sa_amountCents sale))
       (sort_key pv_level (pl_levels p)))"

text \<open>Fast start within the seller's first days, and the match on the first line, both to the direct sponsor.\<close>

definition sponsorShares :: "db \<Rightarrow> tenant \<Rightarrow> sale \<Rightarrow> commission_plan \<Rightarrow> membership list \<Rightarrow> share list \<Rightarrow> share list" where
  "sponsorShares s t sale p ms lines =
     (case ms of
        seller # sponsor # _ \<Rightarrow>
          if mb_status sponsor = MemberActive \<or> tn_inactiveMembersEarn t then
            shareIf (0 < pl_fastStartBps p \<and> 0 < pl_fastStartDays p \<and>
                sa_saleDate sale \<le> mb_joinedAt seller + pl_fastStartDays p * 86400000)
              (mb_id sponsor) 1000 (pl_fastStartBps p) (sa_amountCents sale) @
            (case lines of [] \<Rightarrow> []
             | (_, _, _, amount) # _ \<Rightarrow> shareIf (0 < pl_matchingBps p) (mb_id sponsor) 1001 (pl_matchingBps p) amount)
          else []
      | _ \<Rightarrow> [])"

section \<open>Rows\<close>

text \<open>
  The row of a share.  On approval it is payable at once; otherwise it waits, until delivery or for the
  tenant's days from approval or delivery.
\<close>

definition shareRow :: "env \<Rightarrow> tenant \<Rightarrow> sale \<Rightarrow> share \<Rightarrow> ledger_entry" where
  "shareRow E t sale = (\<lambda>(member, level, rate, amount).
     let days = (case tn_maturationDays t of None \<Rightarrow> 0 | Some d \<Rightarrow> d) * 86400000 in
     \<lparr>le_id = 0, le_tenantId = sa_tenantId sale, le_saleId = Some (sa_id sale), le_beneficiary = member, le_level = level,
      le_rateBpsUsed = rate, le_amountCents = amount, le_type = Commission,
      le_status = (if tn_maturationRule t = OnApproval then LePayable else LePending), le_summaryMonth = None,
      le_maturesAt = (case tn_maturationRule t of OnApproval \<Rightarrow> None | OnDelivery \<Rightarrow> sa_deliveredAt sale
         | DaysAfterApproval \<Rightarrow> Some ((case sa_approvedAt sale of None \<Rightarrow> env_now E | Some at \<Rightarrow> at) + days)
         | DaysAfterDelivery \<Rightarrow> (case sa_deliveredAt sale of None \<Rightarrow> None | Some at \<Rightarrow> Some (at + days))),
      le_payoutId = None, le_payoutBatchId = None, le_createdAt = 0\<rparr>)"

lemma shareRow_source [simp]: "le_saleId (shareRow E t sale x) = Some (sa_id sale)" "le_type (shareRow E t sale x) = Commission"
  by (simp_all add: shareRow_def Let_def split: prod.split)

section \<open>The seller's rank\<close>

definition teamOf :: "db \<Rightarrow> membership \<Rightarrow> membership list" where
  "teamOf s me = [m \<leftarrow> memberships s. mb_tenantId m = mb_tenantId me \<and> mb_id m \<noteq> mb_id me \<and>
     prefix (mb_path me) (mb_path m)]"

definition earnedOn :: "ledger_entry list \<Rightarrow> membership \<Rightarrow> cents" where
  "earnedOn rows me = (\<Sum>e\<leftarrow>rows. if le_tenantId e = mb_tenantId me \<and> le_beneficiary e = mb_id me \<and>
     (le_status e = LePayable \<or> le_status e = LeProcessing \<or> le_status e = LePaid) then le_amountCents e else 0)"

text \<open>
  The override of the highest tier of the tenant's ladder the member reaches, on a ledger with these
  rows.  A tenant without tiers has the built-in ladder, which pays no override.
\<close>

definition ladder :: "db \<Rightarrow> uuid \<Rightarrow> rank_tier list" where
  "ladder s t = sort_key rt_sortOrder [x \<leftarrow> rankTiers s. rt_tenantId x = t]"

definition rankRate :: "db \<Rightarrow> ledger_entry list \<Rightarrow> membership \<Rightarrow> int" where
  "rankRate s rows me =
     (let reached = [x \<leftarrow> ladder s (mb_tenantId me).
            rt_minTeam x \<le> length (teamOf s me) \<and> rt_minEarningsCents x \<le> earnedOn rows me]
      in if reached = [] then 0 else rt_overrideBps (last reached))"

definition sellerRate :: "env \<Rightarrow> db \<Rightarrow> sale \<Rightarrow> ledger_entry list \<Rightarrow> int" where
  "sellerRate E s sale rows =
     (case [m \<leftarrow> memberships s. mb_id m = sa_sellerMembershipId sale \<and> mb_tenantId m = sa_tenantId sale] of
        [] \<Rightarrow> 0
      | me # _ \<Rightarrow> if env_hasRanks E then rankRate s rows me else 0)"

text \<open>The highest override of the ladder, 0 if there is none.\<close>

definition topRate :: "env \<Rightarrow> db \<Rightarrow> uuid \<Rightarrow> int" where
  "topRate E s t = (if env_hasRanks E then Max (insert 0 {rt_overrideBps x |x. x \<in> set (rankTiers s) \<and> rt_tenantId x = t}) else 0)"

section \<open>Everything a sale pays\<close>

text \<open>The rank is read with the lines and the sponsor's bonuses already on the ledger.\<close>

definition saleShares :: "env \<Rightarrow> db \<Rightarrow> tenant \<Rightarrow> sale \<Rightarrow> commission_plan \<Rightarrow> membership list \<Rightarrow> share list" where
  "saleShares E s t sale p ms =
     (let lines = levelShares sale p (paidChain t ms);
          first = lines @ sponsorShares s t sale p ms lines;
          rate = sellerRate E s sale (ledger s @ map (shareRow E t sale) first)
      in first @ shareIf (0 < rate) (sa_sellerMembershipId sale) 1002 rate (sa_amountCents sale))"

section \<open>What a void reverses\<close>

text \<open>Every commission row of the sale that is not reversed yet, by level, and the row that cancels one.\<close>

definition openRows :: "db \<Rightarrow> uuid \<Rightarrow> ledger_entry list" where
  "openRows s saleId = sort_key le_level
     [e \<leftarrow> ledger s. le_saleId e = Some saleId \<and> le_type e = Commission \<and> le_status e \<noteq> LeReversed]"

definition opposite :: "sale \<Rightarrow> ledger_entry \<Rightarrow> ledger_entry" where
  "opposite sale e =
     \<lparr>le_id = 0, le_tenantId = sa_tenantId sale, le_saleId = Some (sa_id sale), le_beneficiary = le_beneficiary e,
      le_level = le_level e, le_rateBpsUsed = le_rateBpsUsed e, le_amountCents = - le_amountCents e, le_type = Reversal,
      le_status = (case le_status e of LePaid \<Rightarrow> LePayable | _ \<Rightarrow> LeReversed), le_summaryMonth = None, le_maturesAt = None,
      le_payoutId = None, le_payoutBatchId = None, le_createdAt = 0\<rparr>"

lemma voidableEntries_open: "voidableEntries s saleId = openRows s saleId"
proof -
  have "st \<in> {LePending, LePayable, LeProcessing, LePaid} \<longleftrightarrow> st \<noteq> LeReversed" for st by (cases st) auto
  then show ?thesis by (simp add: voidableEntries_def openRows_def findManyBy_def)
qed

lemma reversalOf_opposite: "reversalOf sale e = opposite sale e"
  by (simp add: reversalOf_def newEntry_def opposite_def split: ledger_status.split)

section \<open>The engine's inputs\<close>

lemma planInForceI:
  assumes "resolvePlan (sa_tenantId sale) (sa_saleDate sale) (sa_commissionPlanId sale) s = Inr p"
  shows "planInForce s sale p"
proof (cases "sa_commissionPlanId sale")
  case None
  then have "findFirstBy effectiveOrder (\<lambda>p. pl_tenantId p = sa_tenantId sale \<and> pl_finalized p \<and> pl_effectiveFrom p \<le> sa_saleDate sale)
      (plans s) = Some p"
    using assms by (simp add: resolvePlan_def)
  note f = findFirstBy_SomeD [OF this]
  have "pl_effectiveFrom q < pl_effectiveFrom p \<or> pl_effectiveFrom q = pl_effectiveFrom p \<and> pl_version q \<le> pl_version p"
    if "q \<in> set (plans s)" "pl_tenantId q = sa_tenantId sale" "pl_finalized q" "pl_effectiveFrom q \<le> sa_saleDate sale" for q
    using f(3) [OF that(1)] that(2-4) by (auto simp: effectiveOrder_def less_eq_prod_def)
  then show ?thesis using None f(1,2) by (auto simp: planInForce_def)
qed (use assms in \<open>auto simp: resolvePlan_def planInForce_def find_Some_iff\<close>)

definition memberStates :: "membership list \<Rightarrow> chain_member list" where
  "memberStates ms = map (\<lambda>m. (mb_id m, mb_status m)) ms"

lemma uplineChain_walk: "uplineChain s i d = Inr chain \<Longrightarrow> \<exists>ms. walksUp s i d ms \<and> chain = memberStates ms"
proof (induction s i d arbitrary: chain rule: uplineChain.induct)
  case (3 s i d)
  then obtain m rest where m: "findMembership s i = Some m" "uplineChain s (mb_sponsorMembershipId m) d = Inr rest"
    "chain = (i, mb_status m) # rest" by (auto split: option.splits)
  then obtain ms where "walksUp s (mb_sponsorMembershipId m) d ms" "rest = memberStates ms" using "3.IH" by blast
  moreover have "find (\<lambda>m. mb_id m = i) (memberships s) = Some m" "mb_id m = i"
    using m(1) by (auto simp: findMembership_def find_Some_iff)
  ultimately show ?case using m(3) by (auto intro!: exI [of _ "m # ms"] walksUp.up simp: memberStates_def)
qed (auto simp: memberStates_def intro: walksUp.intros)

lemma concat_if: "concat (map (\<lambda>u. if P u then [f u] else []) us) = map f (filter P us)"
  by (induction us) auto

lemma effectiveBaseChain_paid: "effectiveBaseChain (memberStates ms) t = paidChain t ms"
  by (cases ms) (auto simp: memberStates_def filter_map comp_def concat_if)

lemma memberStates_simps [simp]:
  "memberStates [] = []" "memberStates (m # ms) = (mb_id m, mb_status m) # memberStates ms"
  by (simp_all add: memberStates_def)

definition lineShare :: "commission_line \<Rightarrow> share" where
  "lineShare c = (cl_beneficiary c, cl_level c, cl_rateBpsUsed c, cl_amountCents c)"

lemma linesOf_shares:
  "linesOf a (map (\<lambda>l. \<lparr>lv_level = pv_level l, lv_rateBps = pv_rateBps l\<rparr>) ls) chain = Inr lines \<Longrightarrow>
   map lineShare lines = concat (map (\<lambda>l. if length chain \<le> pv_level l then []
     else case chain ! pv_level l of None \<Rightarrow> [] | Some m \<Rightarrow> shareIf True m (pv_level l) (pv_rateBps l) a) ls)"
proof (induction ls arbitrary: lines)
  case (Cons l ls)
  then show ?case
    by (auto simp: linesOf_Inr_Cons chainAt_def shareIf_def lineShare_def bps_share_def dest!: bpsAmount_share
        split: if_splits option.splits)
qed simp

lemma computeCommissionLines_shares:
  assumes "computeCommissionLines (sa_amountCents sale) (planLevels p) chain = Inr lines"
  shows "map lineShare lines = levelShares sale p chain"
proof -
  have "sort_key lv_level (planLevels p) = planLevels p"
    by (rule sort_key_id_if_sorted) (simp add: planLevels_def comp_def)
  then show ?thesis using assms linesOf_shares
    by (simp add: computeCommissionLines_def planLevels_def levelShares_def)
qed

section \<open>The engine's rows\<close>

lemma commissionEntry_row: "commissionEntry sale (maturation E t sale) m l r a = shareRow E t sale (m, l, r, a)"
  by (auto simp: commissionEntry_def newEntry_def shareRow_def maturation_def daysOf_def DAY_MS_def Let_def
      split: maturation_rule.split option.split)

lemma lineEntry_row: "lineEntry sale (maturation E t sale) c = shareRow E t sale (lineShare c)"
  by (simp add: lineEntry_def lineShare_def commissionEntry_row)

lemma bonusRow_row:
  "bonusRow sale (maturation E t sale) m l r (bps_share a r) = map (shareRow E t sale) (shareIf True m l r a)"
  by (simp add: bonusRow_def shareIf_def commissionEntry_row bps_share_def)

lemma shareIf_False [simp]: "shareIf False m l r a = []"
  by (simp add: shareIf_def)

lemma fastStartDue_walk:
  assumes "findMembership s (sa_sellerMembershipId sale) = Some m"
  shows "fastStartDue p sale s \<longleftrightarrow> 0 < pl_fastStartBps p \<and> 0 < pl_fastStartDays p \<and>
     sa_saleDate sale \<le> mb_joinedAt m + pl_fastStartDays p * 86400000"
  using assms by (auto simp: fastStartDue_def DAY_MS_def)

lemma sponsorRows_rows:
  assumes "walksUp s (Some (sa_sellerMembershipId sale)) d ms" "map lineShare lines = shares"
  shows "sponsorRows sale (maturation E t sale) p (earningSponsor t (memberStates ms)) lines (fastStartDue p sale s) =
    map (shareRow E t sale) (sponsorShares s t sale p ms shares)"
  using assms(1)
proof cases
  case (up m n ups)
  note due = fastStartDue_walk [of s sale m p, unfolded findMembership_def, OF up(3)]
  show ?thesis
  proof (cases ups)
    case (Cons sponsor above)
    then show ?thesis
      using assms(2) by (auto simp: up(2) sponsorRows_def earningSponsor_def sponsorShares_def due bonusRow_row lineShare_def
          split: list.splits)
  qed (simp add: up(2) earningSponsor_def sponsorRows_def sponsorShares_def)
qed (simp add: earningSponsor_def sponsorRows_def sponsorShares_def)

lemma overrideRows_rows:
  "overrideRows sale (maturation E t sale) ov =
    map (shareRow E t sale) (shareIf (0 < ov) (sa_sellerMembershipId sale) 1002 ov (sa_amountCents sale))"
  by (simp add: overrideRows_def bonusRow_row)

section \<open>The engine's override\<close>

lemma bestTier_last:
  "bestTier team e ts = (if filter (reaches team e) ts = [] then None else Some (last (filter (reaches team e) ts)))"
  by (induction ts rule: rev_induct) (simp_all add: bestTier_def)

lemma earnedCents_on: "earnedCents s (mb_tenantId me) (mb_id me) = earnedOn (ledger s) me"
proof -
  have "sumWhere (\<lambda>e. le_tenantId e = mb_tenantId me \<and> le_beneficiary e = mb_id me \<and> le_status e \<in> {LePayable, LeProcessing, LePaid})
      le_amountCents rows = earnedOn rows me" for rows
    by (induction rows) (auto simp: sumWhere_def earnedOn_def)
  then show ?thesis by (simp add: earnedCents_def)
qed

lemma teamSize_of: "teamSize s (mb_tenantId me) me = length (teamOf s me)"
proof -
  have "pathBelow q p \<longleftrightarrow> prefix p q" for p q
    by (auto simp: pathBelow_def prefix_def) (metis append_take_drop_id)
  then show ?thesis by (simp add: teamSize_def teamOf_def countWhere_def conj_commute conj_left_commute)
qed

lemma builtin_pays_nothing: "t \<in> set DEFAULT_TIERS \<Longrightarrow> tr_overrideBps t = 0"
  by (auto simp: DEFAULT_TIERS_def)

lemma customTiers_ladder: "customTiers s t = ladder s t"
  by (simp add: customTiers_def ladder_def findManyBy_def)

lemma overrideBpsFor_rank:
  assumes "memberIn s t i = Some me"
  shows "overrideBpsFor s t i = rankRate s (ledger s) me"
proof -
  have me: "mb_id me = i" "mb_tenantId me = t" using assms by (auto simp: memberIn_def find_Some_iff)
  let ?team = "length (teamOf s me)" and ?e = "earnedOn (ledger s) me"
  have r: "resolveTier s t i = bestTier ?team ?e (effectiveTiers s t)"
    using assms earnedCents_on [of s me] teamSize_of [of s me] by (simp add: resolveTier_def me)
  show ?thesis
  proof (cases "ladder s t")
    case Nil
    then have "effectiveTiers s t = DEFAULT_TIERS" by (simp add: effectiveTiers_def customTiers_ladder)
    moreover have "tr_overrideBps x = 0" if "bestTier ?team ?e DEFAULT_TIERS = Some x" for x
      using bestTier_Some [OF that] by (intro builtin_pays_nothing) (metis in_set_conv_decomp)
    ultimately show ?thesis using r Nil by (auto simp: overrideBpsFor_def rankRate_def Let_def me split: option.split)
  next
    case (Cons x xs)
    then have "effectiveTiers s t = map tierOf (ladder s t)" by (simp add: effectiveTiers_def customTiers_ladder)
    moreover have "filter (reaches ?team ?e) (map tierOf ts) =
        map tierOf (filter (\<lambda>x. rt_minTeam x \<le> ?team \<and> rt_minEarningsCents x \<le> ?e) ts)" for ts
      by (simp add: filter_map comp_def reaches_def tierOf_def)
    ultimately show ?thesis
      using r by (simp add: overrideBpsFor_def rankRate_def bestTier_last me last_map tierOf_def Let_def)
  qed
qed

lemma engineOverride_rank: "engineOverrideBps E (sa_tenantId sale) (sa_sellerMembershipId sale) s = sellerRate E s sale (ledger s)"
proof -
  let ?me = "memberIn s (sa_tenantId sale) (sa_sellerMembershipId sale)"
  have f: "?me = (case [m \<leftarrow> memberships s. mb_id m = sa_sellerMembershipId sale \<and> mb_tenantId m = sa_tenantId sale] of
      [] \<Rightarrow> None | me # _ \<Rightarrow> Some me)"
    by (simp add: memberIn_def find_filter_list)
  show ?thesis
  proof (cases ?me)
    case None
    then show ?thesis using f
      by (simp add: engineOverrideBps_def overrideBpsFor_def resolveTier_def sellerRate_def split: list.splits)
  next
    case (Some me)
    then show ?thesis using f overrideBpsFor_rank [OF Some]
      by (auto simp: engineOverrideBps_def sellerRate_def split: list.splits)
  qed
qed

lemma earnedOn_strip: "map stripRow xs = map stripRow ys \<Longrightarrow> earnedOn (zs @ xs) me = earnedOn (zs @ ys) me"
proof -
  have "earnedOn xs me = earnedOn (map stripRow xs) me" for xs by (simp add: earnedOn_def comp_def cong: if_cong)
  moreover assume "map stripRow xs = map stripRow ys"
  ultimately have "earnedOn xs me = earnedOn ys me" by metis
  then show ?thesis by (simp add: earnedOn_def)
qed

lemma sellerRate_frame:
  assumes "memberships s' = memberships s" "rankTiers s' = rankTiers s" "map stripRow xs = map stripRow ys"
  shows "sellerRate E s' sale (zs @ xs) = sellerRate E s sale (zs @ ys)"
proof -
  have r: "rankRate s' (zs @ xs) = rankRate s (zs @ ys)"
    using earnedOn_strip [OF assms(3), of zs] by (simp add: fun_eq_iff rankRate_def ladder_def teamOf_def assms(1,2))
  show ?thesis unfolding sellerRate_def assms(1) r ..
qed

lemma foldl_Max: "foldl (\<lambda>m t. max m (f t)) z ts = Max (insert z (f ` set ts))"
  for z :: int
proof (induction ts arbitrary: z)
  case (Cons t ts)
  show ?case using Cons.IH [of "max z (f t)"]
    by (cases "ts = []") (simp_all add: Max_insert max.assoc max.left_commute)
qed simp

lemma engineMax_top: "engineMaxOverrideBps E t s = topRate E s t"
proof -
  have l: "set (ladder s t) = {x \<in> set (rankTiers s). rt_tenantId x = t}" by (simp add: ladder_def)
  have "maxOverrideBps s t = Max (insert 0 (rt_overrideBps ` set (ladder s t)))"
  proof (cases "ladder s t")
    case Nil
    have "maxOverrideBps s t = 0"
      using Nil by (simp add: maxOverrideBps_def effectiveTiers_def customTiers_ladder DEFAULT_TIERS_def)
    then show ?thesis using Nil by simp
  next
    case (Cons x xs)
    have e: "effectiveTiers s t = map tierOf (ladder s t)" using Cons by (simp add: effectiveTiers_def customTiers_ladder)
    show ?thesis unfolding maxOverrideBps_def foldl_Max e by (simp add: image_image tierOf_def)
  qed
  then show ?thesis by (simp add: engineMaxOverrideBps_def topRate_def l setcompr_eq_image)
qed

end
