(* ===== verification/Commission_Theorems.thy ===== *)
theory Commission_Theorems
  imports Commission_Spec
begin

text \<open>
  What the commission half of the engine promises: which rows an approval posts and that their sum
  stays below the ceiling, that it always succeeds on a valid plan and never posts twice, what a
  void and a maturation run write, and how the retry wrapper ends.
\<close>

section \<open>Retry\<close>

lemma attempts_Inr:
  "attempts fn i n e0 = Inr r \<longleftrightarrow> (\<exists>k<n. fn (i + k) = Inr r \<and> (\<forall>j<k. \<exists>e. fn (i + j) = Inl e \<and> isRetryable e))"
proof (induction n arbitrary: i e0)
  case (Suc n)
  show ?case unfolding Ex_less_Suc2 All_less_Suc2
    by (cases "fn i") (simp_all add: Suc.IH)
qed simp

lemma attempts_Inl:
  "attempts fn i (Suc n) e0 = Inl e \<longleftrightarrow>
     (\<exists>k<Suc n. fn (i + k) = Inl e \<and> (k = n \<or> \<not> isRetryable e) \<and> (\<forall>j<k. \<exists>e. fn (i + j) = Inl e \<and> isRetryable e))"
proof (induction n arbitrary: i e0)
  case 0
  show ?case by (cases "fn i") auto
next
  case (Suc n)
  show ?case
    unfolding attempts.simps(2) [of fn i "Suc n"] Ex_less_Suc2 [of "Suc n"] All_less_Suc2
    by (cases "fn i") (auto simp: Suc.IH simp del: attempts.simps)
qed

text \<open>C38: A retried transaction runs at most five times: it returns the result of its first successful attempt if every
  attempt before it ended in a serialization failure or deadlock, and otherwise the first other error or the fifth one.\<close>

theorem retry_outcome:
  fixes fn :: "db \<Rightarrow> 'a res" and fault :: "nat \<Rightarrow> error option" and dbAt :: "nat \<Rightarrow> db"
  defines "attempt \<equiv> \<lambda>i. case fault i of Some e \<Rightarrow> Inl e | None \<Rightarrow> fn (dbAt i)"
  shows "(engineTx fault dbAt fn = Inr r \<longleftrightarrow> (\<exists>k<5. attempt k = Inr r \<and> (\<forall>j<k. \<exists>e. attempt j = Inl e \<and> isRetryable e))) \<and>
    (engineTx fault dbAt fn = Inl e \<longleftrightarrow>
      (\<exists>k<5. attempt k = Inl e \<and> (k = 4 \<or> \<not> isRetryable e) \<and> (\<forall>j<k. \<exists>e. attempt j = Inl e \<and> isRetryable e)))"
proof -
  have e: "engineTx fault dbAt fn = attempts attempt 0 (Suc 4) (InternalError '''')"
    by (simp add: engineTx_def withTxRetry_def MAX_TX_RETRIES_def attempt_def numeral_eq_Suc)
  show ?thesis unfolding e attempts_Inr attempts_Inl by simp
qed

theorem retry_outcome_witness:
  "engineTx (\<lambda>i. if i < 2 then Some (DbError ''40001'') else None) (\<lambda>_. demo_db) (\<lambda>s. Inr (length (sales s))) = Inr 1"
proof -
  have "\<exists>k<5::nat. (case if k < 2 then Some (DbError ''40001'') else None of Some e \<Rightarrow> Inl e | None \<Rightarrow> Inr (length (sales demo_db))) = Inr 1 \<and>
     (\<forall>j<k. \<exists>e. (case if j < 2 then Some (DbError ''40001'') else None of Some e \<Rightarrow> Inl e | None \<Rightarrow> Inr (length (sales demo_db))) = Inl e \<and> isRetryable e)"
    by (rule exI [of _ "2::nat"]) (simp add: demo_db_def isRetryable_def RETRYABLE_PG_CODES_def)
  then show ?thesis
    using retry_outcome [of "\<lambda>i. if i < 2 then Some (DbError ''40001'') else None" "\<lambda>_. demo_db" "\<lambda>s. Inr (length (sales s))" 1] by blast
qed

section \<open>Distribution\<close>

lemma pin_frames:
  "memberships (freezeMonth sale m (pinPlan sale plan s)) = memberships s"
  "rankTiers (freezeMonth sale m (pinPlan sale plan s)) = rankTiers s" "memberships (pinPlan sale plan s) = memberships s"
  "ledger (freezeMonth sale m (pinPlan sale plan s)) = ledger s" "periodLocks (pinPlan sale plan s) = periodLocks s"
  "tenants (pinPlan sale plan s) = tenants s"
  by (simp_all add: freezeMonth_def pinPlan_def updateSale_def)

lemma uplineChain_frame: "memberships s' = memberships s \<Longrightarrow> uplineChain s' i d = uplineChain s i d"
  by (induction s i d rule: uplineChain.induct)
    (simp_all add: findMembership_def cong: option.case_cong)

lemma assertPeriodsOpen_frame: "periodLocks s' = periodLocks s \<Longrightarrow> assertPeriodsOpen s' t ps = assertPeriodsOpen s t ps"
  by (simp add: assertPeriodsOpen_def)

lemma engineMax_frame: "rankTiers s' = rankTiers s \<Longrightarrow> engineMaxOverrideBps E t s' = engineMaxOverrideBps E t s"
  using maxOverrideBps_frame [of s' s t] by (simp add: engineMaxOverrideBps_def)

text \<open>What an application posts, in the terms of the specification.\<close>

lemma distributionRows_shares:
  assumes "walksUp s (Some (sa_sellerMembershipId sale)) d ms"
    and "computeCommissionLines (sa_amountCents sale) (planLevels p) (effectiveBaseChain (memberStates ms) t) = Inr lines"
    and "memberships u = memberships s" "rankTiers u = rankTiers s" "ledger u = ledger s @ xs"
    and "map stripRow xs = map (lineEntry sale (maturation E t sale)) lines @
      sponsorRows sale (maturation E t sale) p (earningSponsor t (memberStates ms)) lines (fastStartDue p sale s)"
  shows "distributionRows sale (maturation E t sale) p (earningSponsor t (memberStates ms)) lines (fastStartDue p sale s)
      (engineOverrideBps E (sa_tenantId sale) (sa_sellerMembershipId sale) u) =
    map (shareRow E t sale) (saleShares E s t sale p ms)"
proof -
  let ?lines = "levelShares sale p (paidChain t ms)"
  let ?first = "?lines @ sponsorShares s t sale p ms ?lines"
  have l: "map lineShare lines = ?lines"
    using computeCommissionLines_shares [OF assms(2)] by (simp add: effectiveBaseChain_paid)
  have lr: "map (lineEntry sale (maturation E t sale)) lines = map (shareRow E t sale) ?lines"
    by (simp add: lineEntry_row flip: l)
  note sr = sponsorRows_rows [OF assms(1) l]
  have "map stripRow xs = map (shareRow E t sale) ?first" using assms(6) lr sr by simp
  also have "\<dots> = map stripRow (map (shareRow E t sale) ?first)"
    by (simp add: stripRow_def shareRow_def Let_def split_beta)
  finally have "sellerRate E u sale (ledger s @ xs) = sellerRate E s sale (ledger s @ map (shareRow E t sale) ?first)"
    by (rule sellerRate_frame [OF assms(3,4)])
  then have "engineOverrideBps E (sa_tenantId sale) (sa_sellerMembershipId sale) u =
      sellerRate E s sale (ledger s @ map (shareRow E t sale) ?first)"
    by (simp add: engineOverride_rank assms(5))
  then show ?thesis
    by (simp add: distributionRows_def lr sr overrideRows_rows saleShares_def Let_def)
qed

lemma apply_rows:
  assumes "applyCommissionsInTx E sale s = Inr (r, s')" "ap_applied r"
  shows "\<exists>t p ms new. findTenant s (sa_tenantId sale) = Some t \<and> planInForce s sale p \<and>
    walksUp s (Some (sa_sellerMembershipId sale)) (pl_depth p) ms \<and>
    ledger s' = ledger s @ new \<and> map stripRow new = map (shareRow E t sale) (saleShares E s t sale p ms) \<and>
    length new = ap_entryCount r \<and>
    amountSum new \<le> sa_amountCents sale *
      (pl_poolRateBps p + pl_fastStartBps p + pl_matchingBps p + topRate E s (sa_tenantId sale)) div 10000"
  using assms(1)
proof (cases rule: applyCommissionsInTx_cases)
  case (applied tenant plan rawChain lines month)
  let ?s0 = "freezeMonth sale month (pinPlan sale plan s)"
  have due: "fastStartDue plan sale ?s0 = fastStartDue plan sale s" by (simp add: fastStartDue_def findMembership_def pin_frames)
  have tn: "findTenant s (sa_tenantId sale) = Some tenant" using applied(3) by (simp add: tenantOrThrow_def)
  obtain ms where ms: "walksUp s (Some (sa_sellerMembershipId sale)) (pl_depth plan) ms" "rawChain = memberStates ms"
    using uplineChain_walk [OF applied(5) [unfolded uplineChain_frame [OF pin_frames(3)]]] by auto
  from applied(9) show ?thesis
  proof (rule distribute_spec)
    fix t
    let ?ov = "engineOverrideBps E (sa_tenantId sale) (sa_sellerMembershipId sale) t"
    let ?rows = "distributionRows sale (maturation E tenant sale) plan (earningSponsor tenant rawChain) lines
         (fastStartDue plan sale ?s0) ?ov"
    assume pt: "posted ?s0 t (map (lineEntry sale (maturation E tenant sale)) lines @
        sponsorRows sale (maturation E tenant sale) plan (earningSponsor tenant rawChain) lines (fastStartDue plan sale ?s0))"
      and p: "posted ?s0 s' ?rows" and n: "ap_entryCount r = length ?rows"
      and c: "amountSum ?rows \<le> bps_share (sa_amountCents sale) (ceilingBps E (sa_tenantId sale) plan ?s0)"
    obtain xs where xs: "ledger t = ledger s @ xs" "map stripRow xs = map (lineEntry sale (maturation E tenant sale)) lines @
        sponsorRows sale (maturation E tenant sale) plan (earningSponsor tenant rawChain) lines (fastStartDue plan sale s)"
      using pt due by (auto simp: posted_def pin_frames)
    have base: "memberships t = memberships s" "rankTiers t = rankTiers s"
      using baseOf_eqD(2,6) [OF posted_base [OF pt]] by (simp_all add: pin_frames)
    have rows: "?rows = map (shareRow E tenant sale) (saleShares E s tenant sale plan ms)"
      using distributionRows_shares [OF ms(1) _ base xs(1)] xs(2) applied(6) by (simp add: ms(2) due)
    obtain new where new: "ledger s' = ledger s @ new" "map stripRow new = ?rows"
      using p by (auto simp: posted_def pin_frames)
    have "amountSum new = amountSum (map stripRow new)" by (simp add: amountSum_def comp_def)
    moreover have "ceilingBps E (sa_tenantId sale) plan ?s0 =
        pl_poolRateBps plan + pl_fastStartBps plan + pl_matchingBps plan + topRate E s (sa_tenantId sale)"
      using engineMax_frame [of ?s0 s E "sa_tenantId sale"] by (simp add: ceilingBps_def engineMax_top pin_frames)
    ultimately have "amountSum new \<le> sa_amountCents sale *
        (pl_poolRateBps plan + pl_fastStartBps plan + pl_matchingBps plan + topRate E s (sa_tenantId sale)) div 10000"
      using c new(2) by (simp add: bps_share_def)
    moreover have "length new = ap_entryCount r" using n new(2) by (metis length_map)
    ultimately show ?thesis using tn planInForceI [OF applied(4)] ms(1) new rows by metis
  qed
qed (use assms(2) in simp_all)

lemma apply_total:
  assumes "sa_status sale = SaleApproved" "commissionRows s (sa_id sale) = 0" "0 \<le> sa_amountCents sale"
    and "findTenant s (sa_tenantId sale) = Some tenant"
    and "resolvePlan (sa_tenantId sale) (sa_saleDate sale) (sa_commissionPlanId sale) s = Inr plan"
    and "planRowOk plan" "bonusRatesOk plan"
    and "uplineChain s (Some (sa_sellerMembershipId sale)) (pl_depth plan) = Inr rawChain"
    and "assertPeriodsOpen s (sa_tenantId sale) [case sa_summaryMonth sale of Some m \<Rightarrow> m
           | None \<Rightarrow> env_month E (sa_saleDate sale) (tn_timezone tenant)] = Inr ()"
    and "engineMaxOverrideBps E (sa_tenantId sale) s \<le> 10000"
  shows "\<exists>r s'. applyCommissionsInTx E sale s = Inr (r, s') \<and> ap_applied r"
proof -
  let ?month = "case sa_summaryMonth sale of Some m \<Rightarrow> m | None \<Rightarrow> env_month E (sa_saleDate sale) (tn_timezone tenant)"
  let ?s0 = "freezeMonth sale ?month (pinPlan sale plan s)"
  note lv = planLevels_ok [OF assms(6)]
  obtain lines where lines: "computeCommissionLines (sa_amountCents sale) (planLevels plan) (effectiveBaseChain rawChain tenant) = Inr lines"
    using computeCommissionLines_total [OF _ assms(3)] lv(1) by blast
  have none: "commissionLevels ?s0 (sa_id sale) = {}"
    using assms(2) by (simp add: commissionLevels_def pin_frames flip: commissionRows_0)
      (simp add: commissionRows_0 commissionLevels_def)
  have cap: "engineMaxOverrideBps E (sa_tenantId sale) ?s0 \<le> 10000"
    using assms(10) engineMax_frame [OF pin_frames(2)] by simp
  obtain r s' where d: "distribute E sale tenant plan rawChain lines ?month ?s0 = Inr (r, s')"
    using distribute_total [OF assms(6,7,3) lines none cap] by blast
  have ap: "ap_applied r" by (rule distribute_spec [OF d])
  have up: "uplineChain (pinPlan sale plan s) (Some (sa_sellerMembershipId sale)) (pl_depth plan) = Inr rawChain"
    using assms(8) uplineChain_frame [OF pin_frames(3)] by simp
  have pe: "assertPeriodsOpen (pinPlan sale plan s) (sa_tenantId sale) [?month] = Inr ()"
    using assms(9) assertPeriodsOpen_frame [OF pin_frames(5)] by simp
  have "applyCommissionsInTx E sale s = Inr (r, s')"
    using assms(1,2) assms(4,5) up lines pe d by (simp add: applyCommissionsInTx_def tenantOrThrow_def Let_def)
  then show ?thesis using ap by blast
qed

definition demo_sold :: sale where
  "demo_sold = demo_sale\<lparr>sa_status := SaleApproved, sa_approvedAt := Some 1700000000000\<rparr>"

lemma demo_plan_ok: "planRowOk demo_plan" "bonusRatesOk demo_plan"
  by (simp_all add: planRowOk_def bonusRatesOk_def demo_plan_def upt_conv_Cons)

lemma demo_inputs:
  "findTenant demo_db (sa_tenantId demo_sold) = Some demo_tenant"
  "resolvePlan (sa_tenantId demo_sold) (sa_saleDate demo_sold) (sa_commissionPlanId demo_sold) demo_db = Inr demo_plan"
  "uplineChain demo_db (Some (sa_sellerMembershipId demo_sold)) (pl_depth demo_plan) =
     Inr [(10, MemberActive), (11, MemberActive), (12, MemberActive)]"
  "engineMaxOverrideBps demo_env (sa_tenantId demo_sold) demo_db \<le> 10000"
proof -
  show "findTenant demo_db (sa_tenantId demo_sold) = Some demo_tenant"
    by (simp add: findTenant_def demo_db_def demo_tenant_def demo_sold_def demo_sale_def)
  show "resolvePlan (sa_tenantId demo_sold) (sa_saleDate demo_sold) (sa_commissionPlanId demo_sold) demo_db = Inr demo_plan"
    by (simp add: resolvePlan_def findFirstBy_def findManyBy_def demo_db_def demo_sold_def demo_sale_def) (simp add: demo_plan_def)
  show "uplineChain demo_db (Some (sa_sellerMembershipId demo_sold)) (pl_depth demo_plan) =
     Inr [(10, MemberActive), (11, MemberActive), (12, MemberActive)]"
    by (simp add: demo_db_def demo_sold_def demo_sale_def demo_plan_def findMembership_def demo_member_def numeral_eq_Suc)
  show "engineMaxOverrideBps demo_env (sa_tenantId demo_sold) demo_db \<le> 10000"
    by (simp add: engineMaxOverrideBps_def maxOverrideBps_def effectiveTiers_def customTiers_def findManyBy_def demo_db_def DEFAULT_TIERS_def)
qed

lemma demo_apply: "\<exists>r s'. applyCommissionsInTx demo_env demo_sold demo_db = Inr (r, s') \<and> ap_applied r"
proof (rule apply_total [OF _ _ _ demo_inputs(1,2) demo_plan_ok demo_inputs(3) _ demo_inputs(4)])
  show "sa_status demo_sold = SaleApproved" "0 \<le> sa_amountCents demo_sold" by (simp_all add: demo_sold_def demo_sale_def)
  show "commissionRows demo_db (sa_id demo_sold) = 0" by (simp add: commissionRows_def demo_db_def)
  show "assertPeriodsOpen demo_db (sa_tenantId demo_sold) [case sa_summaryMonth demo_sold of Some m \<Rightarrow> m
      | None \<Rightarrow> env_month demo_env (sa_saleDate demo_sold) (tn_timezone demo_tenant)] = Inr ()"
    by (simp add: assertPeriodsOpen_Inr isLocked_iff demo_db_def)
qed

text \<open>
  C4: Applying commissions to an approved sale only appends rows, exactly those the specification names, in its order: the
  plan in force pays the members met walking up the sponsors level by level, skipping or keeping inactive ones as the tenant
  says; the direct sponsor gets the fast-start and matching bonus; the seller gets the override of the highest tier of the
  tenant's ladder its team and its earnings, these lines included, reach.  Each amount is a rounded-down share, each row has the
  status and maturity of the tenant's rule, and together they stay below the share of pool, bonus rates and highest override.
\<close>

theorem apply_posts_specified_rows:
  assumes "applyCommissionsInTx E sale s = Inr (r, s')" "ap_applied r"
  shows "\<exists>t p ms new. findTenant s (sa_tenantId sale) = Some t \<and> planInForce s sale p \<and>
    walksUp s (Some (sa_sellerMembershipId sale)) (pl_depth p) ms \<and>
    ledger s' = ledger s @ new \<and> map stripRow new = map (shareRow E t sale) (saleShares E s t sale p ms) \<and>
    length new = ap_entryCount r \<and>
    amountSum new \<le> sa_amountCents sale *
      (pl_poolRateBps p + pl_fastStartBps p + pl_matchingBps p + topRate E s (sa_tenantId sale)) div 10000"
  by (rule apply_rows [OF assms])

lemma demo_walk: "walksUp demo_db (Some 10) 3 ms \<longleftrightarrow>
    ms = [demo_member 10 (Some 11) [12, 11, 10], demo_member 11 (Some 12) [12, 11], demo_member 12 None [12]]"
proof -
  have s: "walksUp s None n ms \<longleftrightarrow> ms = []" "walksUp s (Some i) (Suc n) ms \<longleftrightarrow>
      (\<exists>m ups. ms = m # ups \<and> find (\<lambda>m. mb_id m = i) (memberships s) = Some m \<and> walksUp s (mb_sponsorMembershipId m) n ups)"
    for s n i ms
    by (subst walksUp.simps; auto)+
  show ?thesis by (auto simp: numeral_eq_Suc s demo_db_def demo_member_def)
qed

lemma demo_planInForce: "planInForce demo_db demo_sold p \<longleftrightarrow> p = demo_plan"
  by (auto simp: planInForce_def demo_db_def demo_sold_def demo_sale_def) (simp_all add: demo_plan_def)

lemma demo_shares:
  "saleShares demo_env demo_db demo_tenant demo_sold demo_plan
     [demo_member 10 (Some 11) [12, 11, 10], demo_member 11 (Some 12) [12, 11], demo_member 12 None [12]] =
   [(10, 0, 500, 5000), (11, 1, 300, 3000), (12, 2, 200, 2000), (11, 1000, 100, 1000), (11, 1001, 1000, 500)]"
  by code_simp

theorem apply_posts_specified_rows_witness:
  "\<exists>r s'. applyCommissionsInTx demo_env demo_sold demo_db = Inr (r, s') \<and> ap_entryCount r = 5 \<and>
     map le_amountCents (ledger s') = [5000, 3000, 2000, 1000, 500] \<and> map le_beneficiary (ledger s') = [10, 11, 12, 11, 11] \<and>
     amountSum (ledger s') \<le> 21000"
proof -
  obtain r s' where a: "applyCommissionsInTx demo_env demo_sold demo_db = Inr (r, s')" "ap_applied r" using demo_apply by blast
  let ?ms = "[demo_member 10 (Some 11) [12, 11, 10], demo_member 11 (Some 12) [12, 11], demo_member 12 None [12]]"
  have d: "sa_sellerMembershipId demo_sold = 10" "pl_depth demo_plan = 3" "ledger demo_db = []"
    by (simp_all add: demo_sold_def demo_sale_def demo_plan_def demo_db_def)
  obtain new where new: "ledger s' = new"
    "map stripRow new = map (shareRow demo_env demo_tenant demo_sold) (saleShares demo_env demo_db demo_tenant demo_sold demo_plan ?ms)"
    "length new = ap_entryCount r" "amountSum new \<le> sa_amountCents demo_sold *
      (pl_poolRateBps demo_plan + pl_fastStartBps demo_plan + pl_matchingBps demo_plan + topRate demo_env demo_db (sa_tenantId demo_sold)) div 10000"
    using apply_posts_specified_rows [OF a] unfolding demo_inputs(1) demo_planInForce
    by (auto simp: d demo_walk)
  have amounts: "map le_amountCents new = [5000, 3000, 2000, 1000, 500]" "map le_beneficiary new = [10, 11, 12, 11, 11]"
    using arg_cong [OF new(2), of "map le_amountCents"] arg_cong [OF new(2), of "map le_beneficiary"]
    by (simp_all add: demo_shares shareRow_def Let_def comp_def)
  moreover have "length new = 5" using arg_cong [OF amounts(1), of length] by simp
  moreover have "amountSum new \<le> 21000"
    using new(4) by (simp add: topRate_def demo_sold_def demo_sale_def demo_plan_def demo_db_def)
  ultimately show ?thesis using a new(1,3) by metis
qed

text \<open>C19: On a finalized valid plan, with a complete upline chain and an open period, applying commissions to an approved
  sale always succeeds: no amount computation, unique index or ceiling check of the distribution can fail.\<close>

theorem apply_always_succeeds:
  assumes "sa_status sale = SaleApproved" "commissionRows s (sa_id sale) = 0" "0 \<le> sa_amountCents sale"
    and "findTenant s (sa_tenantId sale) = Some tenant"
    and "resolvePlan (sa_tenantId sale) (sa_saleDate sale) (sa_commissionPlanId sale) s = Inr plan"
    and "planRowOk plan" "bonusRatesOk plan"
    and "uplineChain s (Some (sa_sellerMembershipId sale)) (pl_depth plan) = Inr rawChain"
    and "assertPeriodsOpen s (sa_tenantId sale) [case sa_summaryMonth sale of Some m \<Rightarrow> m
           | None \<Rightarrow> env_month E (sa_saleDate sale) (tn_timezone tenant)] = Inr ()"
    and "engineMaxOverrideBps E (sa_tenantId sale) s \<le> 10000"
  shows "\<exists>r s'. applyCommissionsInTx E sale s = Inr (r, s') \<and> ap_applied r"
  by (rule apply_total [OF assms])

theorem apply_always_succeeds_witness:
  "\<exists>r s'. applyCommissionsInTx demo_env demo_sold demo_db = Inr (r, s') \<and> ap_applied r"
proof (rule apply_always_succeeds [OF _ _ _ demo_inputs(1,2) demo_plan_ok demo_inputs(3) _ demo_inputs(4)])
  show "sa_status demo_sold = SaleApproved" "0 \<le> sa_amountCents demo_sold" by (simp_all add: demo_sold_def demo_sale_def)
  show "commissionRows demo_db (sa_id demo_sold) = 0" by (simp add: commissionRows_def demo_db_def)
  show "assertPeriodsOpen demo_db (sa_tenantId demo_sold) [case sa_summaryMonth demo_sold of Some m \<Rightarrow> m
      | None \<Rightarrow> env_month demo_env (sa_saleDate demo_sold) (tn_timezone demo_tenant)] = Inr ()"
    by (simp add: assertPeriodsOpen_Inr isLocked_iff demo_db_def)
qed

text \<open>C26: Applying commissions is idempotent: once rows were posted for a sale, a second application, at any later time and
  by any caller, reports them as already applied and changes nothing.\<close>

theorem apply_idempotent:
  assumes "applyCommissionsInTx E sale s = Inr (r, s')" "ap_applied r" "0 < ap_entryCount r"
    and "sa_id sale' = sa_id sale" "sa_status sale' = SaleApproved"
  shows "\<exists>n. 0 < n \<and> applyCommissionsInTx E' sale' s' =
    Inr (\<lparr>ap_applied = False, ap_reason = Some AlreadyApplied, ap_entryCount = n\<rparr>, s')"
proof -
  obtain t new shares where x: "ledger s' = ledger s @ new" "map stripRow new = map (shareRow E t sale) shares"
    "length new = ap_entryCount r"
    using apply_rows [OF assms(1,2)] by blast
  obtain e where e: "e \<in> set new" using x(3) assms(3) by (cases new) auto
  have "stripRow e \<in> set (map (shareRow E t sale) shares)" using e x(2) by (metis imageI set_map)
  then obtain y where "stripRow e = shareRow E t sale y" by auto
  then have "le_saleId (stripRow e) = Some (sa_id sale) \<and> le_type (stripRow e) = Commission" by simp
  then have "le_saleId e = Some (sa_id sale) \<and> le_type e = Commission" by simp
  then have "e \<in> {e \<in> set (ledger s'). le_saleId e = Some (sa_id sale') \<and> le_type e = Commission}" using e x(1) assms(4) by simp
  then have "0 < commissionRows s' (sa_id sale')"
    using commissionRows_0 [of s' "sa_id sale'"] by (auto simp: commissionLevels_def)
  then show ?thesis using assms(5) by (simp add: applyCommissionsInTx_def Let_def)
qed

text \<open>The 5% line of the seller alone is 50.00, so the sample posts rows.\<close>

lemma demo_posts:
  assumes "applyCommissionsInTx demo_env demo_sold demo_db = Inr (r, s')" "ap_applied r"
  shows "0 < ap_entryCount r"
proof -
  obtain new where new: "map stripRow new = map (shareRow demo_env demo_tenant demo_sold) (saleShares demo_env demo_db demo_tenant
      demo_sold demo_plan [demo_member 10 (Some 11) [12, 11, 10], demo_member 11 (Some 12) [12, 11], demo_member 12 None [12]])"
    "length new = ap_entryCount r"
    using apply_rows [OF assms] unfolding demo_inputs(1) demo_planInForce
    by (auto simp: demo_walk demo_sold_def demo_sale_def demo_plan_def)
  then have "length new = 5" unfolding demo_shares by (auto dest: arg_cong [where f = length])
  then show ?thesis using new(2) by simp
qed

theorem apply_idempotent_witness:
  "\<exists>r s' n. applyCommissionsInTx demo_env demo_sold demo_db = Inr (r, s') \<and> ap_applied r \<and>
     applyCommissionsInTx demo_env demo_sold s' = Inr (\<lparr>ap_applied = False, ap_reason = Some AlreadyApplied, ap_entryCount = n\<rparr>, s')"
proof -
  obtain r s' where a: "applyCommissionsInTx demo_env demo_sold demo_db = Inr (r, s')" "ap_applied r" using demo_apply by blast
  have "sa_status demo_sold = SaleApproved" by (simp add: demo_sold_def)
  from apply_idempotent [OF a demo_posts [OF a] refl this] a show ?thesis by blast
qed

section \<open>Approval\<close>

text \<open>C29: When a tenant requires a separate approver, a draft sale is never approved by the user who entered it; when it
  does not, a self-approval goes on only after a security audit row and the approval row were written.\<close>

theorem separation_of_duties:
  assumes "lockSale saleId expected s = Inr sale" "sa_status sale = SaleDraft" "sa_createdBy sale = Some u"
    and "findTenant s (sa_tenantId sale) = Some tenant"
  shows "if tn_requireSeparateApprover tenant
    then approveSaleInTx E saleId (Some u) expected s =
      Inl (Forbidden ''the sale creator cannot approve the sale (separation of duties)'')
    else \<exists>s3. approveSaleInTx E saleId (Some u) expected s =
        applyCommissionsInTx E (sale\<lparr>sa_status := SaleApproved, sa_approvedAt := Some (env_now E)\<rparr>) s3 \<and>
      map au_action (audits s3) = map au_action (audits s) @ [''security.self_approved_sale'', ''sale.approve'']"
  using assms
  by (auto simp: approveSaleInTx_def separationOfDuties_def selfApproval_def tenantOrThrow_def Let_def audit_def updateSale_def)

theorem separation_of_duties_witness:
  "approveSaleInTx demo_env 100 (Some 2) None demo_db =
     Inl (Forbidden ''the sale creator cannot approve the sale (separation of duties)'')"
proof -
  have "lockSale 100 None demo_db = Inr demo_sale" "findTenant demo_db (sa_tenantId demo_sale) = Some demo_tenant"
    by (simp_all add: lockSale_def findSale_def findTenant_def demo_db_def demo_sale_def demo_tenant_def)
  from separation_of_duties [OF this(1) _ _ this(2), of 2 demo_env] show ?thesis by (simp add: demo_sale_def demo_tenant_def)
qed

section \<open>Voiding\<close>

lemma reverseEntry_ids: "reverseEntry E sale month e s = Inr s' \<Longrightarrow> uuidGen s' = uuidGen s \<and> uuidNext s \<le> uuidNext s'"
  by (auto simp: reverseEntry_def createLedgerEntry_Inr drawId_def Let_def)

text \<open>The old rows of a voided sale: what was never paid is closed, what was paid stays paid.\<close>

definition closedBy :: "ledger_entry list \<Rightarrow> ledger_entry \<Rightarrow> ledger_entry" where
  "closedBy es row = (if list_ex (\<lambda>e. le_id e = le_id row \<and> le_status e \<noteq> LePaid) es then row\<lparr>le_status := LeReversed\<rparr> else row)"

lemma closedBy_Cons:
  "closedBy es (if le_id row = le_id e \<and> le_status e \<noteq> LePaid then row\<lparr>le_status := LeReversed\<rparr> else row) = closedBy (e # es) row"
  by (auto simp: closedBy_def)

lemma reverseEntries_ledger:
  assumes "foldRes (reverseEntry E sale month) es s = Inr s'" "\<forall>e \<in> set es. \<forall>n \<ge> uuidNext s. le_id e \<noteq> uuidGen s n"
  shows "\<exists>new. ledger s' = map (closedBy es) (ledger s) @ new \<and> map stripRow new = map (reversalOf sale) es \<and> sales s' = sales s"
  using assms
proof (induction es arbitrary: s)
  case Nil
  then show ?case by (simp add: closedBy_def)
next
  case (Cons e es)
  from Cons.prems(1) obtain t where t: "reverseEntry E sale month e s = Inr t"
    and rest: "foldRes (reverseEntry E sale month) es t = Inr s'" by auto
  note ids = reverseEntry_ids [OF t]
  have "\<forall>x \<in> set es. \<forall>n \<ge> uuidNext t. le_id x \<noteq> uuidGen t n" using Cons.prems(2) ids by auto
  from Cons.IH [OF rest this] obtain new where new: "ledger s' = map (closedBy es) (ledger t) @ new"
    "map stripRow new = map (reversalOf sale) es" "sales s' = sales t" by blast
  from t show ?case
  proof (rule reverseEntry_ledger)
    fix row
    assume row: "ledger t = (if le_status e \<noteq> LePaid
       then updateWhere (\<lambda>r. le_id r = le_id e) (\<lambda>r. r\<lparr>le_status := LeReversed\<rparr>) (ledger s @ [row]) else ledger s @ [row])"
      "stripRow row = reversalOf sale e" "le_id row = freshId s" "sales t = sales s"
    have "le_id row \<noteq> le_id x" if "x \<in> set (e # es)" for x
      using Cons.prems(2) that row(3) unfolding freshId_def by (metis order_refl)
    then have same: "le_id row \<noteq> le_id e" "closedBy es row = row" by (metis list.set_intros(1), force simp: closedBy_def list_ex_iff)
    have "ledger t = map (\<lambda>r. if le_id r = le_id e \<and> le_status e \<noteq> LePaid then r\<lparr>le_status := LeReversed\<rparr> else r) (ledger s) @ [row]"
      using row(1) same(1) by (auto simp: updateWhere_def)
    then have "ledger s' = map (closedBy (e # es)) (ledger s) @ row # new" using new(1) same(2) by (simp add: closedBy_Cons comp_def)
    then show ?thesis using row(2,4) new(2,3) by (intro exI [of _ "row # new"]) simp
  qed
qed

lemma amountSum_stripRow: "amountSum (map stripRow es) = amountSum es" by (simp add: amountSum_def comp_def)

lemma amountSum_reversals: "amountSum (map (reversalOf sale) es) = - amountSum es"
  by (induction es) simp_all

lemma void_rows:
  assumes "voidSaleInTx E saleId actor expected s = Inr (r, s')" "idsFresh s" "vo_voided r"
  obtains sale new where "lockSale saleId expected s = Inr sale" "sa_status sale \<noteq> SaleVoid"
    "ledger s' = map (closedBy (voidableEntries s saleId)) (ledger s) @ new"
    "map stripRow new = map (reversalOf sale) (voidableEntries s saleId)" "length new = vo_reversalCount r"
    "sales s' = updateWhere (\<lambda>x. sa_id x = saleId) (\<lambda>x. x\<lparr>sa_status := SaleVoid\<rparr>) (sales s)"
    "\<forall>e \<in> set (voidableEntries s saleId). le_status e \<noteq> LeProcessing"
proof -
  let ?es = "voidableEntries s saleId"
  obtain sale where lock: "lockSale saleId expected s = Inr sale" using assms(1) by (auto simp: voidSaleInTx_def)
  have nv: "sa_status sale \<noteq> SaleVoid" using assms(1,3) lock by (auto simp: voidSaleInTx_def)
  have np: "\<not> list_ex (\<lambda>e. le_status e = LeProcessing) ?es" using assms(1) lock nv by (auto simp: voidSaleInTx_def Let_def split: if_splits)
  let ?v = "audit (sa_tenantId sale) actor ''sale.void'' saleId (JObj [(''status'', JStr (statusText (sa_status sale)))])
              (JObj [(''status'', JStr ''void'')]) (updateSale saleId (\<lambda>r. r\<lparr>sa_status := SaleVoid\<rparr>) s)"
  have v: "ledger ?v = ledger s" "uuidGen ?v = uuidGen s" "uuidNext ?v = uuidNext s"
    "sales ?v = updateWhere (\<lambda>x. sa_id x = saleId) (\<lambda>x. x\<lparr>sa_status := SaleVoid\<rparr>) (sales s)"
    by (simp_all add: updateSale_def)
  have count: "vo_reversalCount r = length ?es"
    using assms(1) lock nv np by (auto simp: voidSaleInTx_def Let_def split: if_splits)
  have "\<exists>month. foldRes (reverseEntry E sale month) ?es ?v = Inr s'"
    using assms(1) lock nv np by (auto simp: voidSaleInTx_def Let_def split: if_splits)
  then obtain month where fold: "foldRes (reverseEntry E sale month) ?es ?v = Inr s'" by blast
  have "\<forall>e \<in> set ?es. \<forall>n \<ge> uuidNext ?v. le_id e \<noteq> uuidGen ?v n"
    using assms(2) v by (auto simp: idsFresh_def voidableEntries_def)
  from reverseEntries_ledger [OF fold this] obtain new where new: "ledger s' = map (closedBy ?es) (ledger s) @ new"
    "map stripRow new = map (reversalOf sale) ?es" "sales s' = sales ?v" using v(1) by auto
  have "length new = length ?es" using new(2) by (metis length_map)
  then show ?thesis using that lock nv new count v(4) np by (auto simp: list_ex_iff)
qed

lemma closedBy_open:
  assumes "distinct (map le_id (ledger s))" "e \<in> set (ledger s)"
  shows "closedBy (openRows s i) e = (if e \<in> set (openRows s i) \<and> le_status e \<noteq> LePaid then e\<lparr>le_status := LeReversed\<rparr> else e)"
proof -
  have "x = e" if "x \<in> set (openRows s i)" "le_id x = le_id e" for x
    using assms that by (auto simp: openRows_def dest: inj_onD simp: distinct_map)
  then show ?thesis by (auto simp: closedBy_def list_ex_iff)
qed

text \<open>
  C11: Voiding a sale that is not void reverses every commission row of the sale that is not reversed yet, the paid ones
  included, and nothing else: per row, by level, one reversal of the sale to the same member, level and rate with the opposite
  amount.  The reversal of a paid row is payable, a claw-back that waits for the next payout, and the row stays paid; every
  other row is closed together with its reversal.  The appended rows cancel the rows they reverse to the cent, the sale turns
  void and no other, and a sale with a row in a running payout is never voided.
\<close>

theorem void_reverses_exactly:
  assumes "voidSaleInTx E saleId actor expected s = Inr (r, s')" "idsFresh s" "vo_voided r"
  shows "\<exists>sale new. sale \<in> set (sales s) \<and> sa_id sale = saleId \<and> (expected = None \<or> expected = Some (sa_tenantId sale)) \<and>
    lockSale saleId expected s = Inr sale \<and> sa_status sale \<noteq> SaleVoid \<and>
    ledger s' = map (\<lambda>e. if e \<in> set (openRows s saleId) \<and> le_status e \<noteq> LePaid then e\<lparr>le_status := LeReversed\<rparr> else e)
      (ledger s) @ new \<and>
    map stripRow new = map (opposite sale) (openRows s saleId) \<and> length new = vo_reversalCount r \<and>
    amountSum new + amountSum (openRows s saleId) = 0 \<and>
    (\<forall>e \<in> set (openRows s saleId). le_status e \<noteq> LeProcessing) \<and>
    sales s' = map (\<lambda>x. if sa_id x = saleId then x\<lparr>sa_status := SaleVoid\<rparr> else x) (sales s)"
proof -
  from void_rows [OF assms] obtain sale new where sale: "lockSale saleId expected s = Inr sale" "sa_status sale \<noteq> SaleVoid"
    and led: "ledger s' = map (closedBy (openRows s saleId)) (ledger s) @ new"
    and new: "map stripRow new = map (opposite sale) (openRows s saleId)" "length new = vo_reversalCount r"
    and up: "sales s' = updateWhere (\<lambda>x. sa_id x = saleId) (\<lambda>x. x\<lparr>sa_status := SaleVoid\<rparr>) (sales s)"
    and np: "\<forall>e \<in> set (openRows s saleId). le_status e \<noteq> LeProcessing"
    unfolding voidableEntries_open reversalOf_opposite by metis
  have row: "sale \<in> set (sales s)" "sa_id sale = saleId" "expected = None \<or> expected = Some (sa_tenantId sale)"
    using sale(1) by (auto simp: lockSale_def find_Some_iff split: option.splits)
  have "amountSum new = - amountSum (openRows s saleId)"
    using amountSum_stripRow [of new] amountSum_reversals [of sale] new(1) unfolding reversalOf_opposite by simp
  moreover have "map (closedBy (openRows s saleId)) (ledger s) =
      map (\<lambda>e. if e \<in> set (openRows s saleId) \<and> le_status e \<noteq> LePaid then e\<lparr>le_status := LeReversed\<rparr> else e) (ledger s)"
    using assms(2) by (intro map_cong refl closedBy_open) (simp_all add: idsFresh_def)
  ultimately show ?thesis using sale row led new up np
    by (intro exI [of _ sale] exI [of _ new]) (simp add: updateWhere_def)
qed

text \<open>The sample sale with one pending row of 50.00 on it.\<close>

definition demo_posted :: db where
  "demo_posted = demo_db\<lparr>sales := [demo_sold\<lparr>sa_summaryMonth := Some ''2023-11''\<rparr>],
     ledger := [(newEntry 1 (Some 100) 10 0 500 5000 Commission LePending (Some 1701000000000) None)\<lparr>le_id := 5\<rparr>]\<rparr>"

lemma demo_posted_fresh: "idsFresh demo_posted"
  by (simp add: idsFresh_def demo_posted_def demo_db_def demo_sold_def demo_sale_def inj_def newEntry_def)

lemma demo_void: "\<exists>r s'. voidSaleInTx demo_env 100 (Some 3) None demo_posted = Inr (r, s') \<and> vo_voided r \<and> vo_reversalCount r = 1"
  by (simp add: voidSaleInTx_def lockSale_def findSale_def demo_posted_def demo_db_def demo_sold_def demo_sale_def
      voidableEntries_def findManyBy_def newEntry_def reverseEntry_def createLedgerEntry_def ledgerKeyTaken_def reversalOf_def
      audit_def updateSale_def updateWhere_def drawId_def)

theorem void_reverses_exactly_witness:
  "\<exists>s' r new. voidSaleInTx demo_env 100 (Some 3) None demo_posted = Inr (r, s') \<and> length new = 1 \<and>
     amountSum new + amountSum (openRows demo_posted 100) = 0"
proof -
  obtain r s' where v: "voidSaleInTx demo_env 100 (Some 3) None demo_posted = Inr (r, s')" "vo_voided r" "vo_reversalCount r = 1"
    using demo_void by blast
  from void_reverses_exactly [OF v(1) demo_posted_fresh v(2)] v show ?thesis by metis
qed

section \<open>Maturation\<close>

lemma matureRows_ledger:
  "ledger (fold matureRow batch s) =
     map (\<lambda>e. if le_id e \<in> (le_id \<circ> fst) ` set batch then e\<lparr>le_status := LePayable\<rparr> else e) (ledger s)"
proof (induction batch arbitrary: s)
  case (Cons em batch)
  obtain e m where em: "em = (e, m)" by (cases em)
  show ?case by (auto simp: em Cons.IH matureRow_frames updateWhere_def comp_def)
qed simp

lemma smallest_taken:
  assumes "sorted (map f xs)" "x \<in> set (take n xs)" "y \<in> set xs - set (take n xs)"
  shows "f x \<le> f y"
proof -
  have "sorted (map f (take n xs) @ map f (drop n xs))" using assms(1) by (simp flip: map_append)
  moreover have "y \<in> set (take n xs) \<union> set (drop n xs)" using assms(3) by (metis DiffD1 append_take_drop_id set_append)
  ultimately show ?thesis using assms(2,3) by (auto simp: sorted_append)
qed

lemma take_is_all:
  assumes "distinct xs"
  shows "set (take n xs) = set xs \<longleftrightarrow> length xs \<le> n"
proof
  assume "set (take n xs) = set xs"
  then have "card (set (take n xs)) = card (set xs)" by simp
  then show "length xs \<le> n" using assms by (simp add: distinct_card)
qed simp

definition dueNow :: "env \<Rightarrow> time \<Rightarrow> (uuid \<Rightarrow> bool) \<Rightarrow> db \<Rightarrow> ledger_entry set" where
  "dueNow E now skipped s = {e \<in> set (ledger s). isDue E now s e \<and> \<not> skipped (le_id e)}"

text \<open>C28: A maturation run releases the oldest due commission rows and nothing else: at most the batch limit of them, in the
  order of their creation, each from pending to payable, and it reports more to do exactly when due rows are left.\<close>

theorem maturation_releases_due_rows:
  assumes "matureCommissions E now limit skipped s = Inr (r, s')" "idsFresh s"
  shows "\<exists>moved \<subseteq> dueNow E now skipped s. card moved = ma_matured r \<and> int (ma_matured r) \<le> limit \<and>
    (\<forall>e \<in> moved. \<forall>e' \<in> dueNow E now skipped s - moved. le_createdAt e \<le> le_createdAt e') \<and>
    (ma_hasMore r \<longleftrightarrow> moved \<noteq> dueNow E now skipped s) \<and>
    ledger s' = map (\<lambda>e. if e \<in> moved then e\<lparr>le_status := LePayable\<rparr> else e) (ledger s)"
proof -
  let ?xs = "findManyBy le_createdAt (\<lambda>e. isDue E now s e \<and> \<not> skipped (le_id e)) (ledger s)" and ?n = "nat limit"
  let ?m = "set (take ?n ?xs)"
  let ?batch = "map (\<lambda>e. (e, the (dueMonth E s e))) (take ?n ?xs)"
  have pos: "0 < limit" and r: "ma_matured r = length (take ?n ?xs)" "ma_hasMore r \<longleftrightarrow> length ?xs > ?n"
    and s': "s' = fold matureRow ?batch s"
    using assms(1) by (auto simp: matureCommissions_def dueRows_def Let_def min_def split: if_splits)
  have ids: "distinct (map le_id (ledger s))" using assms(2) by (simp add: idsFresh_def)
  then have dist: "distinct ?xs" by (simp add: findManyBy_def distinct_map)
  have all: "set ?xs = dueNow E now skipped s" by (auto simp: findManyBy_def dueNow_def)
  have sort: "sorted (map le_createdAt ?xs)" by (simp add: findManyBy_def)
  have more: "ma_hasMore r \<longleftrightarrow> ?m \<noteq> dueNow E now skipped s"
    unfolding r(2) all [symmetric] take_is_all [OF dist] by (simp add: not_le)
  have same: "le_id e \<in> (le_id \<circ> fst) ` set ?batch \<longleftrightarrow> e \<in> ?m" if "e \<in> set (ledger s)" for e
  proof -
    have "?m \<subseteq> set (ledger s)" using set_take_subset [of ?n ?xs] by (auto simp: all dueNow_def)
    moreover have "inj_on le_id (set (ledger s))" using ids by (simp add: distinct_map)
    moreover have "(le_id \<circ> fst) ` set ?batch = le_id ` ?m" by (simp add: image_image)
    ultimately show ?thesis using inj_on_image_mem_iff [of le_id "set (ledger s)" e ?m] that by simp
  qed
  have "ledger s' = map (\<lambda>e. if e \<in> ?m then e\<lparr>le_status := LePayable\<rparr> else e) (ledger s)"
    unfolding s' matureRows_ledger using same by simp
  moreover have "card ?m = ma_matured r" using dist r(1) by (simp add: distinct_card)
  moreover have "int (ma_matured r) \<le> limit" using r(1) pos by simp
  moreover have "\<forall>e \<in> ?m. \<forall>e' \<in> dueNow E now skipped s - ?m. le_createdAt e \<le> le_createdAt e'"
    using smallest_taken [OF sort, of _ ?n] unfolding all by blast
  ultimately show ?thesis using more set_take_subset [of ?n ?xs] unfolding all by blast
qed

theorem maturation_releases_due_rows_witness:
  "\<exists>r s'. matureCommissions demo_env 1702000000000 500 (\<lambda>_. False) demo_posted = Inr (r, s') \<and> \<not> ma_hasMore r \<and>
     map le_status (ledger s') = [LePayable]"
proof -
  obtain r s' where m: "matureCommissions demo_env 1702000000000 500 (\<lambda>_. False) demo_posted = Inr (r, s')"
    by (cases "matureCommissions demo_env 1702000000000 500 (\<lambda>_. False) demo_posted") (auto simp: matureCommissions_def Let_def)
  have due: "dueNow demo_env 1702000000000 (\<lambda>_. False) demo_posted = set (ledger demo_posted)"
    by (auto simp: dueNow_def isDue_def dueMonth_def demo_posted_def demo_db_def newEntry_def findSale_def findTenant_def
        demo_sold_def demo_sale_def demo_tenant_def)
  have "length (dueRows demo_env 1702000000000 (\<lambda>_. False) 500 demo_posted) \<le> length (ledger demo_posted)"
    unfolding dueRows_def findManyBy_def length_take length_sort by (rule min.coboundedI1 [OF length_filter_le])
  then have more: "\<not> ma_hasMore r" using m by (auto simp: matureCommissions_def Let_def demo_posted_def)
  from maturation_releases_due_rows [OF m demo_posted_fresh] more due
  have "ledger s' = map (\<lambda>e. if e \<in> set (ledger demo_posted) then e\<lparr>le_status := LePayable\<rparr> else e) (ledger demo_posted)" by metis
  then have "map le_status (ledger s') = [LePayable]" by (simp add: demo_posted_def)
  then show ?thesis using m more by (intro exI conjI)
qed

end
