(* ===== verification/Compliance_Theorems.thy ===== *)
theory Compliance_Theorems
  imports Samples Compliance
begin

text \<open>
  What the risk and compliance components promise: who may be paid, what a stored compliance
  snapshot is compared with, how submissions, scans and decisions hold payouts back, and that
  concurrent reviewers cannot overwrite each other.
\<close>

section \<open>Snapshots\<close>

lemma parseControl_controlJson:
  assumes "isValidPayoutReadinessVersion (sk_version c)" "isCanonicalIsoOrNull (textOrNull (sk_expiresAt c))"
  shows "parseControl (sk_key c) (controlJson c) = Some c"
proof -
  have d: "decisionOfText (decisionText st) = Some st" for st
    by (cases st) (simp_all add: decisionOfText_def decisionText_def)
  show ?thesis
    using assms by (cases "sk_expiresAt c")
      (simp_all add: parseControl_def controlJson_def hasExactKeys_def field_def textOrNull_def d)
qed

lemma parseControls_controlJson:
  assumes "\<forall>c \<in> set cs. isValidPayoutReadinessVersion (sk_version c) \<and> isCanonicalIsoOrNull (textOrNull (sk_expiresAt c))"
  shows "parseControls (map sk_key cs) (map controlJson cs) = Some cs"
  using assms by (induction cs) (simp_all add: parseControl_controlJson)

lemma parseDestination_json:
  assumes "isUuidText (sv_id d)" "isCanonicalIso (sv_verifiedAt d)" "isValidPayoutReadinessVersion (sv_version d)"
  shows "parseDestination (JObj [(''id'', JStr (sv_id d)), (''verifiedAt'', JStr (sv_verifiedAt d)), (''version'', JNum (sv_version d))]) = Some d"
  using assms by (simp add: parseDestination_def hasExactKeys_def field_def)

lemma lastOfKey_key: "lastOfKey k rows = Some c \<Longrightarrow> sc_key c = k \<and> c \<in> set rows"
  by (auto simp: lastOfKey_def dest: find_SomeD)

text \<open>The controls of a member are read in the fixed order of the keys, at most one per key.\<close>

lemma readInput_keys:
  "\<exists>rows. map sc_key (co_manualChecks (readInput s t m)) = filter (\<lambda>k. lastOfKey k rows \<noteq> None) PAYOUT_COMPLIANCE_CONTROL_KEYS"
proof -
  have "map sc_key (List.map_filter (\<lambda>k. lastOfKey k rows) ks) = filter (\<lambda>k. lastOfKey k rows \<noteq> None) ks" for rows ks
    by (induction ks) (auto simp: List.map_filter_simps dest: lastOfKey_key split: option.splits)
  then show ?thesis by (auto simp: readInput_def Let_def)
qed

lemma ready_keys:
  assumes "isReady (readInput s t m) now"
  shows "map sc_key (co_manualChecks (readInput s t m)) = PAYOUT_COMPLIANCE_CONTROL_KEYS"
proof -
  let ?cs = "co_manualChecks (readInput s t m)"
  obtain rows where r: "map sc_key ?cs = filter (\<lambda>k. lastOfKey k rows \<noteq> None) PAYOUT_COMPLIANCE_CONTROL_KEYS"
    using readInput_keys by blast
  have "card (sc_key ` set ?cs) = 5"
    using assms by (simp add: isReady_def PAYOUT_COMPLIANCE_CONTROL_KEYS_def split: if_splits)
  then have "5 \<le> length (map sc_key ?cs)" using card_length [of "map sc_key ?cs"] by simp
  then have "length (filter (\<lambda>k. lastOfKey k rows \<noteq> None) PAYOUT_COMPLIANCE_CONTROL_KEYS) = length PAYOUT_COMPLIANCE_CONTROL_KEYS"
    unfolding r using length_filter_le [of "\<lambda>k. lastOfKey k rows \<noteq> None" PAYOUT_COMPLIANCE_CONTROL_KEYS]
    by (simp add: PAYOUT_COMPLIANCE_CONTROL_KEYS_def)
  then show ?thesis unfolding r by (metis filter_id_conv length_filter_less less_irrefl)
qed

lemma lastOfKey_unique:
  assumes "distinct (map sc_key cs)" "c \<in> set cs"
  shows "lastOfKey (sc_key c) cs = Some c"
proof -
  obtain d where d: "lastOfKey (sc_key c) cs = Some d"
  proof (cases "lastOfKey (sc_key c) cs")
    case None
    then show ?thesis using assms(2) by (auto simp: lastOfKey_def find_None_iff)
  qed
  then have "sc_key d = sc_key c" "d \<in> set cs" using lastOfKey_key by blast+
  then have "d = c" using assms inj_onD [of sc_key "set cs" d c] by (simp add: distinct_map)
  then show ?thesis using d by simp
qed

lemma ready_versions:
  assumes "isReady (readInput s t m) now" "c \<in> set (co_manualChecks (readInput s t m))"
  shows "isValidPayoutReadinessVersion (sc_version c)" "sc_status c = DecisionReady"
proof -
  let ?cs = "co_manualChecks (readInput s t m)"
  have k: "map sc_key ?cs = PAYOUT_COMPLIANCE_CONTROL_KEYS" by (rule ready_keys [OF assms(1)])
  then have "distinct (map sc_key ?cs)" by (simp add: PAYOUT_COMPLIANCE_CONTROL_KEYS_def)
  then have l: "lastOfKey (sc_key c) ?cs = Some c" by (rule lastOfKey_unique [OF _ assms(2)])
  have "sc_key c \<in> set PAYOUT_COMPLIANCE_CONTROL_KEYS" using assms(2) unfolding k [symmetric] by simp
  then have "\<not> (sc_status c \<noteq> DecisionReady \<or> \<not> isValidPayoutReadinessVersion (sc_version c) \<or>
        (case sc_expiresAt c of None \<Rightarrow> False | Some t \<Rightarrow> t \<le> now))"
    using assms(1) l by (auto simp: isReady_def list_ex_iff Let_def split: if_splits)
  then show "isValidPayoutReadinessVersion (sc_version c)" "sc_status c = DecisionReady" by simp_all
qed

text \<open>The dates a JavaScript \<open>Date\<close> can hold, and uuids of the versions the database draws.\<close>

definition storable :: "compliance_input \<Rightarrow> bool" where
  "storable i \<longleftrightarrow> (\<forall>c \<in> set (co_manualChecks i). case sc_expiresAt c of None \<Rightarrow> True | Some t \<Rightarrow> \<bar>t\<bar> \<le> maxTime) \<and>
     (case co_destination i of None \<Rightarrow> True
      | Some d \<Rightarrow> isUuidText (uuidText (sd_id d)) \<and> (case sd_verifiedAt d of None \<Rightarrow> True | Some t \<Rightarrow> \<bar>t\<bar> \<le> maxTime))"

lemma snapshot_parses:
  assumes "isReady (readInput s t m) now" "storable (readInput s t m)"
  shows "parseSnapshot (Some (snapshotJson (buildSnapshot (readInput s t m)))) = Some (buildSnapshot (readInput s t m))"
proof -
  let ?i = "readInput s t m" let ?x = "buildSnapshot (readInput s t m)"
  have keys: "map sk_key (cs_controls ?x) = PAYOUT_COMPLIANCE_CONTROL_KEYS"
    using ready_keys [OF assms(1)] by (simp add: buildSnapshot_def comp_def)
  have ok: "isValidPayoutReadinessVersion (sk_version c) \<and> isCanonicalIsoOrNull (textOrNull (sk_expiresAt c))"
    if c: "c \<in> set (cs_controls ?x)" for c
  proof -
    obtain k where k: "k \<in> set (co_manualChecks ?i)" "sk_version c = sc_version k" "sk_expiresAt c = map_option isoString (sc_expiresAt k)"
      using c by (auto simp: buildSnapshot_def)
    moreover have "isCanonicalIsoOrNull (textOrNull (map_option isoString (sc_expiresAt k)))"
      using assms(2) k(1) by (cases "sc_expiresAt k") (auto simp: storable_def textOrNull_def)
    ultimately show ?thesis using ready_versions(1) [OF assms(1) k(1)] by simp
  qed
  obtain d v where d: "co_destination ?i = Some d" "sd_verifiedAt d = Some v" "isValidPayoutReadinessVersion (sd_version d)"
    using assms(1) by (auto simp: isReady_def Let_def split: if_splits option.splits)
  then have x: "cs_destination ?x = Some \<lparr>sv_id = uuidText (sd_id d), sv_verifiedAt = isoString v, sv_version = sd_version d\<rparr>"
    by (simp add: buildSnapshot_def)
  have "isUuidText (uuidText (sd_id d))" "\<bar>v\<bar> \<le> maxTime" using assms(2) d(1,2) by (simp_all add: storable_def)
  then have pd: "parseDestination (JObj [(''id'', JStr (uuidText (sd_id d))), (''verifiedAt'', JStr (isoString v)),
      (''version'', JNum (sd_version d))]) = cs_destination ?x"
    using parseDestination_json [of "the (cs_destination ?x)"] x d(3) by simp
  have pc: "parseControls PAYOUT_COMPLIANCE_CONTROL_KEYS (map controlJson (cs_controls ?x)) = Some (cs_controls ?x)"
    using parseControls_controlJson [of "cs_controls ?x"] ok keys by simp
  have "length (cs_controls ?x) = length PAYOUT_COMPLIANCE_CONTROL_KEYS" using arg_cong [OF keys, of length] by simp
  then show ?thesis
    using pc pd x by (simp add: parseSnapshot_def snapshotJson_def hasExactKeys_def field_def)
qed

section \<open>A member ready to be paid\<close>

text \<open>The five approved controls and the verified destination of member 10.\<close>

definition demo_checks :: "readiness_check list" where
  "demo_checks = map (\<lambda>k. \<lparr>ck_tenantId = 1, ck_membershipId = 10, ck_key = k, ck_status = DecisionReady, ck_reasonCode = ''ok'',
     ck_reviewedByUserId = Some 2, ck_reviewedAt = Some 0, ck_expiresAt = None, ck_version = 1\<rparr>)
     [KeyAddress, KeyKyc, KeyFraud, KeySanctions, KeyPaymentMethod]"

definition demo_destination :: payout_destination where
  "demo_destination = \<lparr>de_id = 0x11111111111141118111111111111111, de_tenantId = 1, de_membershipId = 10,
     de_providerReference = ''ref'', de_maskedLabel = ''USD 1234'', de_last4 = Some ''1234'', de_country = ''US'', de_currency = ''USD'',
     de_verifiedByUserId = Some 2, de_verifiedAt = Some 0, de_version = 1, de_active = True\<rparr>"

definition demo_ready :: db where
  "demo_ready = demo_db\<lparr>readinessChecks := demo_checks, destinations := [demo_destination]\<rparr>"

lemma demo_input: "readInput demo_ready 1 10 =
  \<lparr>co_manualChecks = map (\<lambda>k. \<lparr>sc_key = k, sc_status = DecisionReady, sc_reasonCode = ''ok'', sc_reviewedAt = Some 0,
     sc_expiresAt = None, sc_version = 1\<rparr>) PAYOUT_COMPLIANCE_CONTROL_KEYS,
   co_destination = Some \<lparr>sd_id = 0x11111111111141118111111111111111, sd_verifiedAt = Some 0, sd_version = 1\<rparr>\<rparr>"
  by (simp add: readInput_def demo_ready_def demo_checks_def demo_destination_def findManyBy_def storedControl_def
      keyIndex_def lastOfKey_def List.map_filter_simps PAYOUT_COMPLIANCE_CONTROL_KEYS_def activeDestination_def findFirstBy_def Let_def)

lemma demo_isReady: "isReady (readInput demo_ready 1 10) now"
  unfolding demo_input
  by (simp add: isReady_def PAYOUT_COMPLIANCE_CONTROL_KEYS_def lastOfKey_def isValidPayoutReadinessVersion_def Let_def)

lemma hexW_numeral: "hexW (numeral k) n = hexW (pred_numeral k) (n div 16) @ [hexDigit (n mod 16)]"
  by (simp only: numeral_eq_Suc hexW.simps)

lemma demo_uuid: "isUuidText (uuidText 0x11111111111141118111111111111111)"
proof -
  have "hexDigit (Suc 0) = CHR ''1''" "hexDigit 4 = CHR ''4''" "hexDigit 8 = CHR ''8''" by code_simp+
  then have "uuidText 0x11111111111141118111111111111111 = ''11111111-1111-4111-8111-111111111111''"
    by (simp add: uuidText_def hexW_numeral Let_def)
  moreover have "isUuidText ''11111111-1111-4111-8111-111111111111''" by code_simp
  ultimately show ?thesis by simp
qed

lemma demo_storable: "storable (readInput demo_ready 1 10)"
  unfolding demo_input using demo_uuid by (simp add: storable_def maxTime_def)

section \<open>Readiness\<close>

text \<open>A member may request a payout exactly when its email is verified, it is owed a positive amount at or above the
  threshold, no payout is open, each of the five controls has one single approved and unexpired decision, the payout
  destination is verified, and MFA is current, not required, or its requirement unknown.\<close>

theorem payout_requestable_exactly:
  "rd_requestable (evaluatePayoutReadiness at i) \<longleftrightarrow>
     rin_emailVerified i \<and> rin_payableCents i > 0 \<and> rin_payableCents i \<ge> rin_thresholdCents i \<and>
     rin_activePayout i = None \<and>
     (\<forall>key. \<exists>d. filter (\<lambda>c. md_key c = key) (rin_manualChecks i) = [d] \<and> controlApproved at d) \<and>
     destinationVerified (rin_destination i) \<and> mfaPasses (rin_mfa i)"
  by (rule requestable_iff)

text \<open>The legacy eligibility reason says "eligible" exactly when the checklist says requestable, so the two answers a
  member is shown never contradict each other.\<close>

theorem legacy_reason_agrees:
  "legacyPayoutEligibilityReason (evaluatePayoutReadiness at i) (rin_activePayout i) = LrEligible \<longleftrightarrow>
   rd_requestable (evaluatePayoutReadiness at i)"
  by (rule legacy_eligible_iff)

section \<open>Snapshots at dispatch\<close>

text \<open>The snapshot a reservation stores for a ready member survives its trip through the jsonb column: parsing what was
  written gives back the same snapshot.\<close>

theorem snapshot_roundtrip:
  assumes "isReady (readInput s t m) now" "storable (readInput s t m)"
  shows "parseSnapshot (Some (snapshotJson (buildSnapshot (readInput s t m)))) = Some (buildSnapshot (readInput s t m))"
  by (rule snapshot_parses [OF assms])

theorem snapshot_roundtrip_witness:
  "parseSnapshot (Some (snapshotJson (buildSnapshot (readInput demo_ready 1 10)))) = Some (buildSnapshot (readInput demo_ready 1 10))"
  by (rule snapshot_roundtrip [OF demo_isReady [of 0] demo_storable])

text \<open>The recheck at dispatch accepts the snapshot stored when the payout was reserved exactly when the member's present
  controls are ready and have not changed since; any change is reported as such, and a missing snapshot asks for a recheck.\<close>

theorem recheck_accepts_exactly:
  assumes "isReady (readInput s t m) now" "storable (readInput s t m)"
  shows "(recheckSnapshot later (Some (snapshotJson (buildSnapshot (readInput s t m)))) j = RecheckReady \<longleftrightarrow>
            isReady j later \<and> buildSnapshot j = buildSnapshot (readInput s t m)) \<and>
         recheckSnapshot later (Some (snapshotJson (buildSnapshot (readInput s t m)))) j \<noteq> RecheckRequired \<and>
         recheckSnapshot later None j = RecheckRequired"
  using snapshot_parses [OF assms] by (auto simp: recheckSnapshot_def parseSnapshot_def)

theorem recheck_accepts_exactly_witness:
  "recheckSnapshot 5 (Some (snapshotJson (buildSnapshot (readInput demo_ready 1 10)))) (readInput demo_ready 1 10) = RecheckReady"
  using recheck_accepts_exactly [OF demo_isReady [of 0] demo_storable] demo_isReady by blast

section \<open>Bank details\<close>

lemma digitOf_ascii:
  assumes "isAsciiDigit c"
  shows "digitOf c < 10" "char_of (digitOf c + 48) = c"
  using assms by (auto simp: isAsciiDigit_def digitOf_def Let_def)

lemma weighted_digit:
  fixes a b :: nat
  assumes "a < 10" "b < 10" "w \<in> {1, 3, 7}" "(w * a + r) mod 10 = 0" "(w * b + r) mod 10 = 0"
  shows "a = b"
proof -
  have "10 dvd (int w * int a + int r) - (int w * int b + int r)"
  proof -
    have "int 10 dvd int (w * a + r)" "int 10 dvd int (w * b + r)"
      using assms(4,5) by (simp_all only: of_nat_dvd_iff mod_eq_0_iff_dvd)
    then have "10 dvd int w * int a + int r" "10 dvd int w * int b + int r" by simp_all
    then show ?thesis by (rule dvd_diff)
  qed
  then have d: "10 dvd int w * (int a - int b)" by (simp add: right_diff_distrib)
  have small: "-10 < int a - int b" "int a - int b < 10" using assms(1,2) by simp_all
  have "x = 0" if "10 dvd v * x" "-10 < x" "x < 10" "v = 1 \<or> v = 3 \<or> v = 7" for v x :: int
    using that by (elim disjE) (simp_all, presburger+)
  from this [OF d small] show ?thesis using assms(3) by auto
qed

text \<open>The checksum as a weighted sum over positions.\<close>

definition abaWeight :: "nat \<Rightarrow> nat" where
  "abaWeight i = [3, 7, 1, 3, 7, 1, 3, 7, 1] ! i"

lemma abaValid_sum:
  "abaValid r \<longleftrightarrow> length r = 9 \<and> list_all isAsciiDigit r \<and> (\<Sum>i<9. abaWeight i * digitOf (r ! i)) mod 10 = 0"
proof (cases "length r = 9")
  case True
  have "(\<Sum>i<9. abaWeight i * digitOf (r ! i)) =
     3 * (digitOf (r ! 0) + digitOf (r ! 3) + digitOf (r ! 6)) + 7 * (digitOf (r ! 1) + digitOf (r ! 4) + digitOf (r ! 7)) +
     (digitOf (r ! 2) + digitOf (r ! 5) + digitOf (r ! 8))"
    by (simp add: abaWeight_def numeral_eq_Suc)
  then show ?thesis using True by (simp add: abaValid_def Let_def)
qed (simp add: abaValid_def)

text \<open>The routing number checksum catches every error in a single digit: a valid number with one digit replaced by a
  different one is refused.\<close>

theorem aba_detects_wrong_digit:
  assumes "abaValid r" "i < 9" "isAsciiDigit c" "c \<noteq> r ! i"
  shows "\<not> abaValid (r[i := c])"
proof
  assume v: "abaValid (r[i := c])"
  let ?rest = "\<Sum>j \<in> {..<9} - {i}. abaWeight j * digitOf (r ! j)"
  have len: "length r = 9" and digits: "list_all isAsciiDigit r" using assms(1) by (simp_all add: abaValid_sum)
  have split: "(\<Sum>j<9. abaWeight j * digitOf (q ! j)) = abaWeight i * digitOf (q ! i) + (\<Sum>j \<in> {..<9} - {i}. abaWeight j * digitOf (q ! j))" for q
    using assms(2) by (simp add: sum.remove)
  have "(\<Sum>j \<in> {..<9} - {i}. abaWeight j * digitOf (r[i := c] ! j)) = ?rest" by (rule sum.cong) auto
  then have "(abaWeight i * digitOf (r ! i) + ?rest) mod 10 = 0" "(abaWeight i * digitOf c + ?rest) mod 10 = 0"
    using assms(1,2) v len split [of r] split [of "r[i := c]"] by (simp_all add: abaValid_sum)
  moreover have "abaWeight i \<in> {1, 3, 7}"
  proof -
    have "list_all (\<lambda>i. abaWeight i \<in> {1, 3, 7}) [0..<9]" by code_simp
    then show ?thesis using assms(2) by (auto simp: list_all_iff)
  qed
  moreover have di: "isAsciiDigit (r ! i)" using digits len assms(2) by (simp add: list_all_length)
  ultimately have "digitOf (r ! i) = digitOf c"
    by (intro weighted_digit [OF digitOf_ascii(1) [OF di] digitOf_ascii(1) [OF assms(3)]])
  then show False using digitOf_ascii(2) [OF di] digitOf_ascii(2) [OF assms(3)] assms(4) by simp
qed

theorem aba_detects_wrong_digit_witness:
  "abaValid ''021000021'' \<and> \<not> abaValid (''021000021''[1 := CHR ''3''])"
proof -
  have v: "abaValid ''021000021''" by code_simp
  have "isAsciiDigit CHR ''3''" by code_simp
  from aba_detects_wrong_digit [OF v _ this, of 1] v show ?thesis by simp
qed

section \<open>Payout profiles\<close>

lemma profileOf_update:
  assumes "profileOf s m = Some p" "\<And>x. pp_membershipId (f x) = pp_membershipId x"
    "payoutProfiles s' = updateWhere (\<lambda>x. pp_membershipId x = m) f (payoutProfiles s)"
  shows "profileOf s' m = Some (f p)"
proof -
  have "find (\<lambda>x. pp_membershipId x = m) (updateWhere (\<lambda>x. pp_membershipId x = m) f (payoutProfiles s)) =
     map_option (\<lambda>x. if pp_membershipId x = m then f x else x) (find (\<lambda>x. pp_membershipId x = m) (payoutProfiles s))"
    by (rule find_updateWhere_id) (simp add: assms(2))
  moreover have "pp_membershipId p = m" using assms(1) by (auto simp: profileOf_def dest: find_SomeD)
  ultimately show ?thesis using assms(1,3) by (simp add: profileOf_def)
qed

lemma upsertProfile_profileOf:
  assumes "upsertProfile E t u enc m i s = (p, s1)"
  shows "\<exists>q. profileOf s1 m = Some q \<and> pp_status q = ProfilePendingReview \<and> pp_lastChangedAt q = env_now E \<and> pp_legalName q = pi_legalName i"
    and "sanctions s1 = sanctions s"
proof -
  show "sanctions s1 = sanctions s"
    using assms by (auto simp: upsertProfile_def Let_def riskAudit_def drawId_def split: option.splits)
  let ?set = "profileData (env_now E) (isHit (pi_legalName i) s) enc i"
  show "\<exists>q. profileOf s1 m = Some q \<and> pp_status q = ProfilePendingReview \<and> pp_lastChangedAt q = env_now E \<and> pp_legalName q = pi_legalName i"
  proof (cases "profileOf s m")
    case None
    have "profileOf s1 m = Some (?set (blankProfile (freshId s) t m))"
      using assms None by (auto simp: upsertProfile_def Let_def riskAudit_def drawId_def profileOf_def find_append profileData_def blankProfile_def)
    then show ?thesis by (simp add: profileData_def)
  next
    case (Some old)
    have "payoutProfiles s1 = updateWhere (\<lambda>x. pp_membershipId x = m) ?set (payoutProfiles s)"
      using assms Some by (auto simp: upsertProfile_def Let_def riskAudit_def)
    then have "profileOf s1 m = Some (?set old)" by (rule profileOf_update [OF Some, rotated]) (simp add: profileData_def)
    then show ?thesis by (simp add: profileData_def)
  qed
qed

lemma decideProfile_verified:
  assumes "decideProfile E t u m KycVerify reason s = (Inr q, s')" "profileOf s m = Some p"
  shows "\<not> isHit (pp_legalName p) s"
    and "\<exists>x. profileOf s' m = Some x \<and> pp_status x = ProfileVerified \<and> pp_lastChangedAt x = pp_lastChangedAt p"
proof -
  show nh: "\<not> isHit (pp_legalName p) s" using assms by (auto simp: decideProfile_def split: if_splits)
  let ?set = "\<lambda>p. p\<lparr>pp_status := ProfileVerified, pp_rejectionReason := None, pp_reviewedByUserId := Some u, pp_reviewedAt := Some (env_now E)\<rparr>"
  have "payoutProfiles s' = updateWhere (\<lambda>x. pp_membershipId x = m) ?set (payoutProfiles s)"
    using assms nh by (auto simp: decideProfile_def Let_def riskAudit_def split: if_splits)
  then have "profileOf s' m = Some (?set p)" by (rule profileOf_update [OF assms(2), rotated]) simp
  then show "\<exists>x. profileOf s' m = Some x \<and> pp_status x = ProfileVerified \<and> pp_lastChangedAt x = pp_lastChangedAt p" by simp
qed

text \<open>A submitted or changed payout profile holds payouts at every instant until it is verified; a verification succeeds
  only for a name that is not on the sanctions list, and then payouts open exactly three days after the change.\<close>

theorem kyc_hold_after_change:
  assumes "upsertProfile E t u enc m i s = (p, s1)"
    and "decideProfile E2 t u2 m KycVerify reason s1 = (Inr q, s2)"
  shows "kycPayoutBlock (profileOf s1 m) now \<noteq> None \<and> \<not> isHit (pi_legalName i) s \<and>
    (kycPayoutBlock (profileOf s2 m) now = None \<longleftrightarrow> env_now E + 3 * 86400000 \<le> now)"
proof -
  note up = upsertProfile_profileOf [OF assms(1)]
  obtain x where x: "profileOf s1 m = Some x" "pp_status x = ProfilePendingReview" "pp_lastChangedAt x = env_now E" "pp_legalName x = pi_legalName i"
    using up(1) by blast
  note v = decideProfile_verified [OF assms(2) x(1)]
  have "isHit n s1 = isHit n s" for n using up(2) by (simp add: isHit_def screen_def Let_def)
  then show ?thesis using x v by (auto simp: kycPayoutBlock_def KYC_COOLDOWN_DAYS_def split: if_splits)
qed

definition demo_profile :: profile_input where
  "demo_profile = \<lparr>pi_legalName = ''Ada Lovelace'', pi_country = ''US'', pi_taxIdType = ''ssn'', pi_taxId = ''123456789'',
     pi_bankName = None, pi_routingNumber = ''021000021'', pi_accountType = ''checking'', pi_accountNumber = ''000123''\<rparr>"

theorem kyc_hold_after_change_witness:
  "\<exists>s2. profileOf s2 10 \<noteq> None \<and> kycPayoutBlock (profileOf s2 10) (env_now demo_env + 3 * 86400000) = None \<and>
     kycPayoutBlock (profileOf s2 10) (env_now demo_env) \<noteq> None"
proof -
  obtain p s1 where up: "upsertProfile demo_env 1 10 ''enc'' 10 demo_profile demo_db = (p, s1)" by fastforce
  note u = upsertProfile_profileOf [OF up]
  obtain x where x: "profileOf s1 10 = Some x" "pp_legalName x = ''Ada Lovelace''" "pp_tenantId x = 1"
  proof -
    have "profileOf s1 10 = Some (profileData (env_now demo_env) (isHit (pi_legalName demo_profile) demo_db) ''enc'' demo_profile (blankProfile (freshId demo_db) 1 10))"
      using up by (auto simp: upsertProfile_def Let_def riskAudit_def drawId_def profileOf_def demo_db_def profileData_def blankProfile_def)
    then show ?thesis using that by (simp add: profileData_def blankProfile_def demo_profile_def)
  qed
  have "sanctions s1 = []" using u(2) by (simp add: demo_db_def)
  then have "\<not> isHit (pp_legalName x) s1" by (simp add: isHit_def screen_def Let_def)
  then obtain q s2 where d: "decideProfile demo_env 1 2 10 KycVerify None s1 = (Inr q, s2)"
    using x by (simp add: decideProfile_def Let_def)
  have "profileOf s2 10 \<noteq> None" using decideProfile_verified(2) [OF d x(1)] by auto
  then show ?thesis using kyc_hold_after_change [OF up d] by (intro exI [of _ s2]) auto
qed

section \<open>Fraud holds\<close>

lemma flagOf_upsertFlag:
  "flagOf (upsertFlag E t m score reasons st s) k =
   (if k = m then (case flagOf s m of
        None \<Rightarrow> Some \<lparr>ff_tenantId = t, ff_membershipId = m, ff_score = score, ff_reasons = reasons, ff_status = st, ff_note = None,
            ff_reviewedByUserId = None, ff_reviewedAt = None, ff_createdAt = env_now E\<rparr>
      | Some f \<Rightarrow> Some (f\<lparr>ff_score := score, ff_reasons := reasons, ff_status := st\<rparr>))
    else flagOf s k)"
proof (cases "flagOf s m")
  case None
  then show ?thesis by (auto simp: upsertFlag_def flagOf_def find_append split: option.splits)
next
  case (Some f)
  let ?g = "\<lambda>f. f\<lparr>ff_score := score, ff_reasons := reasons, ff_status := st\<rparr>"
  have "find (\<lambda>x. ff_membershipId x = k) (updateWhere (\<lambda>x. ff_membershipId x = m) ?g (fraudFlags s)) =
     map_option (\<lambda>x. if ff_membershipId x = m then ?g x else x) (find (\<lambda>x. ff_membershipId x = k) (fraudFlags s))"
    by (rule find_updateWhere_id) simp
  moreover have "flagOf (upsertFlag E t m score reasons st s) k =
      find (\<lambda>x. ff_membershipId x = k) (updateWhere (\<lambda>x. ff_membershipId x = m) ?g (fraudFlags s))"
    using Some by (simp add: upsertFlag_def flagOf_def)
  moreover have "ff_membershipId x = k" if "find (\<lambda>x. ff_membershipId x = k) (fraudFlags s) = Some x" for x
    using find_SomeD [OF that] by simp
  ultimately show ?thesis using Some by (cases "flagOf s k") (auto simp: flagOf_def)
qed

lemma fst_addSignal: "fst ` set (addSignal i g m) = insert i (fst ` set m)"
  by (induction i g m rule: addSignal.induct) auto

lemma distinct_addSignal: "distinct (map fst m) \<Longrightarrow> distinct (map fst (addSignal i g m))"
  by (induction i g m rule: addSignal.induct) (auto simp: fst_addSignal [simplified image_set] simp flip: set_map intro: fst_addSignal)

lemma distinct_signalMap: "distinct (map fst (signalMap gs))"
proof -
  have "distinct (map fst m) \<Longrightarrow> distinct (map fst (foldl (\<lambda>m (i, g). addSignal i g m) m gs))" for m
    by (induction gs arbitrary: m) (auto intro: distinct_addSignal)
  then show ?thesis by (simp add: signalMap_def)
qed

lemma scannedStatus_holds:
  "ff_score f = sc \<Longrightarrow> ff_status f = scannedStatus prev sc \<Longrightarrow> fraudPayoutBlock (Some f) \<noteq> None \<longleftrightarrow> FRAUD_BLOCK_SCORE \<le> sc"
  by (cases prev) (auto simp: fraudPayoutBlock_def scannedStatus_def)

lemma scanMember_flag:
  assumes "scanMember E t existing (m, gs) (n, s) = (n1, s1)"
  shows "\<exists>f prev. flagOf s1 m = Some f \<and> ff_score f = signalScore gs \<and> ff_status f = scannedStatus prev (signalScore gs)"
    and "k \<noteq> m \<Longrightarrow> flagOf s1 k = flagOf s k"
proof -
  obtain prev where s1: "s1 = upsertFlag E t m (signalScore gs) (map snd gs) (scannedStatus prev (signalScore gs)) s"
    using assms by (auto simp: scanMember_def Let_def)
  show "\<exists>f prev. flagOf s1 m = Some f \<and> ff_score f = signalScore gs \<and> ff_status f = scannedStatus prev (signalScore gs)"
    by (rule exI [of _ "case flagOf s m of
        None \<Rightarrow> \<lparr>ff_tenantId = t, ff_membershipId = m, ff_score = signalScore gs, ff_reasons = map snd gs,
            ff_status = scannedStatus prev (signalScore gs), ff_note = None,
            ff_reviewedByUserId = None, ff_reviewedAt = None, ff_createdAt = env_now E\<rparr>
      | Some f \<Rightarrow> f\<lparr>ff_score := signalScore gs, ff_reasons := map snd gs, ff_status := scannedStatus prev (signalScore gs)\<rparr>"])
      (auto simp: s1 flagOf_upsertFlag split: option.split)
  show "k \<noteq> m \<Longrightarrow> flagOf s1 k = flagOf s k" by (simp add: s1 flagOf_upsertFlag)
qed

text \<open>What the loop over the scanned members leaves: each of them gets its score and its hold, nobody else is touched.\<close>

definition scanned :: "db \<Rightarrow> db \<Rightarrow> (uuid \<times> signal list) list \<Rightarrow> bool" where
  "scanned s s' byMember \<longleftrightarrow>
     (\<forall>(m, gs) \<in> set byMember. map_option ff_score (flagOf s' m) = Some (signalScore gs) \<and>
        (fraudPayoutBlock (flagOf s' m) \<noteq> None \<longleftrightarrow> FRAUD_BLOCK_SCORE \<le> signalScore gs)) \<and>
     (\<forall>m. m \<notin> fst ` set byMember \<longrightarrow> flagOf s' m = flagOf s m)"

lemma scan_loop: "distinct (map fst byMember) \<Longrightarrow> scanned s (snd (fold (scanMember E t existing) byMember (n, s))) byMember"
proof (induction byMember arbitrary: n s)
  case Nil
  then show ?case by (simp add: scanned_def)
next
  case (Cons mg byMember)
  obtain m gs where mg: "mg = (m, gs)" by (cases mg)
  obtain n1 s1 where one: "scanMember E t existing (m, gs) (n, s) = (n1, s1)" by fastforce
  let ?s' = "snd (fold (scanMember E t existing) byMember (n1, s1))"
  have ih: "scanned s1 ?s' byMember" using Cons by simp
  have nm: "m \<notin> fst ` set byMember" using Cons.prems mg by auto
  obtain f prev where f: "flagOf s1 m = Some f" "ff_score f = signalScore gs" "ff_status f = scannedStatus prev (signalScore gs)"
    using scanMember_flag(1) [OF one] by blast
  have m1: "map_option ff_score (flagOf s1 m) = Some (signalScore gs)"
    "fraudPayoutBlock (flagOf s1 m) \<noteq> None \<longleftrightarrow> FRAUD_BLOCK_SCORE \<le> signalScore gs"
    unfolding f(1) using f(2) scannedStatus_holds [OF f(2,3)] by simp_all
  note other = scanMember_flag(2) [OF one]
  have "flagOf ?s' m = flagOf s1 m" using ih nm by (simp add: scanned_def)
  then have "scanned s ?s' ((m, gs) # byMember)" using ih m1 other by (auto simp: scanned_def)
  then show ?case using one mg by simp
qed

text \<open>C31: After a fraud scan a member with signals is held exactly when its fresh score reaches 50, whatever an
  administrator had decided before (a cleared flag is reopened); members without signals keep their flag.\<close>

theorem fraud_scan_holds_exactly:
  assumes "scan E t s = (counts, s')" "(m, gs) \<in> set (signalMap (fraudSignals E t s))"
  shows "(fraudPayoutBlock (flagOf s' m) \<noteq> None \<longleftrightarrow> 50 \<le> signalScore gs) \<and>
    map_option ff_score (flagOf s' m) = Some (signalScore gs) \<and>
    (\<forall>k. k \<notin> fst ` set (signalMap (fraudSignals E t s)) \<longrightarrow> flagOf s' k = flagOf s k)"
proof -
  have "s' = snd (fold (scanMember E t (fraudFlags s)) (signalMap (fraudSignals E t s)) (0, s))"
    using assms(1) by (auto simp: scan_def Let_def split: prod.splits)
  then have "scanned s s' (signalMap (fraudSignals E t s))" using scan_loop [OF distinct_signalMap] by simp
  then show ?thesis using assms(2) by (auto simp: scanned_def FRAUD_BLOCK_SCORE_def)
qed

definition demo_rush :: db where
  "demo_rush = demo_db\<lparr>ledger := [newEntry 1 None 10 0 0 20000 Adjustment LePayable None (Some ''2023-10'')]\<rparr>"

lemma demo_rush_signals: "\<exists>gs. signalMap (fraudSignals demo_env 1 demo_rush) = [(10, gs)] \<and> signalScore gs = 50"
  by (simp add: fraudSignals_def voidRateSignals_def recruitSignals_def selfReferralSignals_def sharedIpSignals_def
      payoutVelocitySignals_def demo_rush_def demo_db_def demo_env_def demo_tenant_def demo_sale_def demo_member_def newEntry_def
      findTenant_def groupsOf_def tenantSales_def selfReferral_def findMembership_def List.map_filter_simps signalMap_def
      signalScore_def FRAUD_BLOCK_SCORE_def Let_def)

theorem fraud_scan_holds_exactly_witness:
  "\<exists>counts s'. scan demo_env 1 demo_rush = (counts, s') \<and> fraudPayoutBlock (flagOf s' 10) \<noteq> None \<and> flagOf s' 11 = None"
proof -
  obtain gs where gs: "signalMap (fraudSignals demo_env 1 demo_rush) = [(10, gs)]" "signalScore gs = 50"
    using demo_rush_signals by blast
  obtain counts s' where s: "scan demo_env 1 demo_rush = (counts, s')" by fastforce
  have "(10, gs) \<in> set (signalMap (fraudSignals demo_env 1 demo_rush))" using gs(1) by simp
  from fraud_scan_holds_exactly [OF s this] have "fraudPayoutBlock (flagOf s' 10) \<noteq> None" "flagOf s' 11 = flagOf demo_rush 11"
    using gs by auto
  moreover have "flagOf demo_rush 11 = None" by (simp add: flagOf_def demo_rush_def demo_db_def)
  ultimately show ?thesis using s by auto
qed

section \<open>Concurrent reviewers\<close>

lemma mapError_Inl: "r = Inl e \<Longrightarrow> mapError f r = Inl (f e)"
  by (simp add: mapError_def)

lemma countWhere_updated:
  assumes "\<And>x. P x \<Longrightarrow> \<not> P (f x)"
  shows "countWhere P (updateWhere P f xs) = 0"
  using assms by (induction xs) auto

lemma writeControl_stale:
  assumes "writeControl E a m key i s = Inr (c, s1)" "dn_expectedVersion j = dn_expectedVersion i" "ca_tenantId b = ca_tenantId a"
  shows "\<exists>e. writeControl E' b m key j s1 = Inl e \<and> rethrowVersionConflict e = Conflict ''payout compliance version changed''"
    and "memberships s1 = memberships s"
proof -
  let ?here = "checkAt (ca_tenantId a) m key"
  have hv: "?here (decisionOf E a i x) = ?here x" "?here (x\<lparr>ck_version := n\<rparr>) = ?here x" for x n
    by (simp_all add: decisionOf_def checkAt_def)
  show "memberships s1 = memberships s" using assms(1) by (auto simp: writeControl_def Let_def split: if_splits)
  show "\<exists>e. writeControl E' b m key j s1 = Inl e \<and> rethrowVersionConflict e = Conflict ''payout compliance version changed''"
  proof (cases "dn_expectedVersion i = 0")
    case True
    then have "list_ex ?here (readinessChecks s1)"
      using assms(1) by (auto simp: writeControl_def Let_def decisionOf_def checkAt_def)
    then show ?thesis using True assms(2,3) by (simp add: writeControl_def Let_def)
  next
    case False
    let ?cur = "\<lambda>c. ?here c \<and> ck_version c = dn_expectedVersion i"
    have "readinessChecks s1 = updateWhere ?cur (\<lambda>c. (decisionOf E a i c)\<lparr>ck_version := ck_version c + 1\<rparr>) (readinessChecks s)"
      using assms(1) False by (auto simp: writeControl_def Let_def)
    then have "countWhere ?cur (readinessChecks s1) = 0" by (simp only:) (rule countWhere_updated, simp)
    then show ?thesis using False assms(2,3) by (simp add: writeControl_def Let_def)
  qed
qed

text \<open>Two reviewers who decide the same control from the same version cannot both succeed: after the first decision the
  second one, by whoever and with whatever content, is refused with a version conflict and writes nothing.\<close>

theorem stale_decision_refused:
  assumes "decideControl ctx E a m key i s = Inr (c, s1)" "dn_expectedVersion j = dn_expectedVersion i"
    and "ca_tenantId b = ca_tenantId a" "assertWritableTarget ctx' b m = Inr ()"
  shows "decideControl ctx' E' b m key j s1 = Inl (Conflict ''payout compliance version changed'')"
proof -
  obtain s0 where w: "lockMembership s (ca_tenantId a) m = Inr ()" "writeControl E a m key i s = Inr (c, s0)"
    and s1: "readinessChecks s1 = readinessChecks s0" "memberships s1 = memberships s0"
    using assms(1) by (auto simp: decideControl_def mapError_def complianceAudit_def split: sum.splits)
  note st = writeControl_stale(1) [OF w(2) assms(2,3), of E'] writeControl_stale(2) [OF w(2) assms(2,3)]
  have "writeControl E' b m key j s1 = Inl e" if "writeControl E' b m key j s0 = Inl e" for e
    using that s1(1) by (auto simp: writeControl_def Let_def require_def from_option_def split: if_splits option.splits)
  moreover have "lockMembership s1 (ca_tenantId b) m = Inr ()" using w(1) s1(2) st(2) assms(3) by (simp add: lockMembership_def)
  ultimately show ?thesis using st(1) assms(4) by (auto simp: decideControl_def mapError_def)
qed

definition demo_reviewer :: compliance_actor where
  "demo_reviewer = \<lparr>ca_userId = 2, ca_tenantId = 1, ca_membershipId = 12\<rparr>"

definition demo_decision :: decision_input where
  "demo_decision = \<lparr>dn_status = DecisionReady, dn_reasonCode = ''ok'', dn_expiresAt = None, dn_expectedVersion = 0\<rparr>"

theorem stale_decision_refused_witness:
  "\<exists>c s1. decideControl None demo_env demo_reviewer 10 KeyKyc demo_decision demo_db = Inr (c, s1) \<and>
     decideControl None demo_env demo_reviewer 10 KeyKyc (demo_decision\<lparr>dn_status := DecisionBlocked\<rparr>) s1 =
       Inl (Conflict ''payout compliance version changed'')"
proof -
  have ok: "assertWritableTarget None demo_reviewer 10 = Inr ()"
    by (simp add: assertWritableTarget_def assertComplianceActor_def assertTenant_def assertMembership_def demo_reviewer_def)
  have "countWhere (\<lambda>m. mb_id m = 10 \<and> mb_tenantId m = 1) (memberships demo_db) = 1"
    by (simp add: demo_db_def demo_member_def)
  then obtain c s1 where d: "decideControl None demo_env demo_reviewer 10 KeyKyc demo_decision demo_db = Inr (c, s1)"
    using ok by (auto simp: decideControl_def lockMembership_def demo_reviewer_def demo_decision_def writeControl_def demo_db_def mapError_def Let_def)
  show ?thesis using d stale_decision_refused [OF d _ refl ok, of "demo_decision\<lparr>dn_status := DecisionBlocked\<rparr>" demo_env] by auto
qed

text \<open>Replacing a payout destination leaves the member with exactly one active destination, the new verified one at the
  next version; destinations of other members are untouched.\<close>

theorem one_active_destination:
  assumes "replaceDestination ctx a m i s = Inr (d, s')"
  shows "filter (activeAt (ca_tenantId a) m) (destinations s') = [d] \<and> de_version d = di_expectedVersion i + 1 \<and>
    de_verifiedAt d = Some (di_verifiedAt i) \<and>
    filter (\<lambda>x. \<not> (de_tenantId x = ca_tenantId a \<and> de_membershipId x = m)) (destinations s') =
    filter (\<lambda>x. \<not> (de_tenantId x = ca_tenantId a \<and> de_membershipId x = m)) (destinations s)"
proof -
  let ?A = "activeAt (ca_tenantId a) m" let ?own = "\<lambda>x. de_tenantId x = ca_tenantId a \<and> de_membershipId x = m"
  obtain s1 where r: "retireDestination (ca_tenantId a) m (di_expectedVersion i) s = Inr s1"
    and d: "destinations s' = destinations s1 @ [d]" "\<not> list_ex ?A (destinations s1)" "?A d"
      "de_version d = di_expectedVersion i + 1" "de_verifiedAt d = Some (di_verifiedAt i)"
    using assms
    by (auto simp: replaceDestination_def createDestination_def mapError_def complianceAudit_def drawId_def activeAt_def Let_def
        split: sum.splits if_splits)
  have "filter ?A (destinations s1) = []" using d(2) by (simp add: filter_empty_conv list_ex_iff)
  moreover have "filter (\<lambda>x. \<not> ?own x) (destinations s1) = filter (\<lambda>x. \<not> ?own x) (destinations s)"
  proof -
    have keep: "filter (\<lambda>x. \<not> ?own x) (updateWhere P f rows) = filter (\<lambda>x. \<not> ?own x) rows"
      if "\<And>x. P x \<Longrightarrow> ?own x \<and> ?own (f x)" for P f rows
      using that by (induction rows) auto
    have "s1 = s \<or> destinations s1 = updateWhere (\<lambda>d. ?A d \<and> de_version d = di_expectedVersion i) (\<lambda>d. d\<lparr>de_active := False\<rparr>) (destinations s)"
      using r by (auto simp: retireDestination_def Let_def split: if_splits)
    then show ?thesis
    proof
      assume eq: "destinations s1 = updateWhere (\<lambda>d. ?A d \<and> de_version d = di_expectedVersion i) (\<lambda>d. d\<lparr>de_active := False\<rparr>) (destinations s)"
      show ?thesis unfolding eq by (rule keep) (simp add: activeAt_def)
    qed simp
  qed
  moreover have "?own d" using d(3) by (simp add: activeAt_def)
  ultimately show ?thesis using d by simp
qed

definition demo_bank :: destination_input where
  "demo_bank = \<lparr>di_providerReference = ''acct'', di_last4 = Some ''1234'', di_country = ''US'', di_currency = ''USD'',
     di_verifiedAt = 7, di_expectedVersion = 1\<rparr>"

theorem one_active_destination_witness:
  "\<exists>d s'. replaceDestination None demo_reviewer 10 demo_bank demo_ready = Inr (d, s') \<and>
     filter (activeAt 1 10) (destinations s') = [d] \<and> de_version d = 2"
proof -
  have ok: "assertWritableTarget None demo_reviewer 10 = Inr ()"
    by (simp add: assertWritableTarget_def assertComplianceActor_def assertTenant_def assertMembership_def demo_reviewer_def)
  have "lockMembership demo_ready 1 10 = Inr ()" by (simp add: lockMembership_def demo_ready_def demo_db_def demo_member_def)
  then obtain d s' where r: "replaceDestination None demo_reviewer 10 demo_bank demo_ready = Inr (d, s')"
    using ok by (auto simp: replaceDestination_def retireDestination_def createDestination_def activeAt_def demo_reviewer_def
        demo_bank_def demo_ready_def demo_destination_def drawId_def mapError_def Let_def)
  show ?thesis using r one_active_destination [OF r] by (auto simp: demo_reviewer_def demo_bank_def)
qed

end
