(* ===== verification/Payout_Engine.thy ===== *)
theory Payout_Engine
  imports Commission_Engine Compliance
begin

text \<open>
  The payout half of \<open>CommissionEngine\<close>: a batch reserves the payable rows of its members
  (\<open>payable\<close> to \<open>processing\<close>), is dispatched after a compliance recheck, and is either settled
  (\<open>processing\<close> to \<open>paid\<close>) or, before dispatch only, failed back to \<open>payable\<close>.  Each transaction is a
  function of the database; the lemmas show that every one keeps the books balanced and the
  settlement links intact.
\<close>

section \<open>Parameters and results\<close>

datatype selection_scope = Selected "uuid list" | AllEligible

record reserve_params =
  rp_tenantId :: uuid
  rp_scope :: selection_scope
  rp_period :: string
  rp_method :: payout_method
  rp_actorUserId :: "uuid option"
  rp_requestedPayoutId :: "uuid option"
  rp_previewOnly :: bool
  rp_expectedReview :: "payout_batch_review option"

record payout_ledger_row =
  pr_id :: uuid
  pr_membershipId :: uuid
  pr_level :: nat
  pr_amountCents :: cents
  pr_month :: "string option"

record payout_reservation =
  rv_membershipId :: uuid
  rv_requestedPayoutId :: "uuid option"
  rv_amountCents :: cents
  rv_rows :: "payout_ledger_row list"
  rv_complianceSnapshot :: compliance_snapshot
  rv_recipient :: recipient

datatype skip_reason = NothingPayable | BelowMin | AlreadyProcessing | PayoutNotReady

record skipped_member =
  sm_membershipId :: uuid
  sm_reason :: skip_reason
  sm_netCents :: cents

datatype member_decision = Skip skipped_member | Reserve payout_reservation

record processing_payout =
  px_membershipId :: uuid
  px_payoutId :: uuid
  px_totalCents :: cents
  px_entryCount :: nat

record reserve_result =
  rr_batchId :: "uuid option"
  rr_period :: string
  rr_processing :: "processing_payout list"
  rr_skipped :: "skipped_member list"
  rr_review :: payout_batch_review

definition payoutActiveKey :: "uuid \<Rightarrow> uuid \<Rightarrow> string \<Rightarrow> active_key" where
  "payoutActiveKey tenantId membershipId period = (tenantId, membershipId, period)"

definition skipReasonText :: "skip_reason \<Rightarrow> string" where
  "skipReasonText r = (case r of NothingPayable \<Rightarrow> ''nothing_payable'' | BelowMin \<Rightarrow> ''below_min''
     | AlreadyProcessing \<Rightarrow> ''already_processing'' | PayoutNotReady \<Rightarrow> ''payout_not_ready'')"

definition methodText :: "payout_method \<Rightarrow> string" where
  "methodText m = (case m of MethodManual \<Rightarrow> ''manual'' | MethodCsv \<Rightarrow> ''csv'' | MethodStripe \<Rightarrow> ''stripe'' | MethodCheck \<Rightarrow> ''check'')"

section \<open>Who may be paid\<close>

definition payableTo :: "uuid \<Rightarrow> uuid \<Rightarrow> ledger_entry \<Rightarrow> bool" where
  "payableTo tenantId membershipId e \<longleftrightarrow>
     le_tenantId e = tenantId \<and> le_beneficiary e = membershipId \<and> le_status e = LePayable"

definition netPayable :: "db \<Rightarrow> uuid \<Rightarrow> uuid \<Rightarrow> cents" where
  "netPayable s tenantId membershipId = sumWhere (payableTo tenantId membershipId) le_amountCents (ledger s)"

text \<open>\<open>GROUP BY \<dots> HAVING SUM > 0 AND SUM >= payoutMinCents ORDER BY beneficiary_membership_id\<close>.\<close>

definition thresholdMembers :: "db \<Rightarrow> tenant \<Rightarrow> uuid list" where
  "thresholdMembers s tenant =
     filter (\<lambda>m. netPayable s (tn_id tenant) m > 0 \<and> netPayable s (tn_id tenant) m \<ge> tn_payoutMinCents tenant)
       (sort (remdups (map le_beneficiary (filter (\<lambda>e. le_tenantId e = tn_id tenant \<and> le_status e = LePayable) (ledger s)))))"

text \<open>The aggregate review computed in SQL once more than 100 members qualify.\<close>

definition processingInPeriod :: "db \<Rightarrow> uuid \<Rightarrow> string \<Rightarrow> uuid \<Rightarrow> bool" where
  "processingInPeriod s tenantId period m =
     list_ex (\<lambda>p. po_tenantId p = tenantId \<and> po_period p = period \<and> po_status p = PoProcessing \<and> po_membershipId p = m) (payouts s)"

definition memberMaterial :: "db \<Rightarrow> uuid \<Rightarrow> uuid \<Rightarrow> string" where
  "memberMaterial s tenantId m = uuidText m @ '':'' @ show_int (netPayable s tenantId m) @ '':'' @
     joinText '','' (map (\<lambda>e. uuidText (le_id e) @ '':'' @ show_int (le_amountCents e))
       (findManyBy le_id (payableTo tenantId m) (ledger s)))"

definition exactReview :: "env \<Rightarrow> db \<Rightarrow> tenant \<Rightarrow> string \<Rightarrow> payout_batch_review res" where
  "exactReview E s tenant period =
     (let processing = processingInPeriod s (tn_id tenant) period;
          eligible = filter (\<lambda>m. \<not> processing m) (thresholdMembers s tenant);
          excluded = filter processing (thresholdMembers s tenant);
          totalCents = sum_list (map (netPayable s (tn_id tenant)) eligible);
          eligibleDigest = env_md5 E (JStr (joinText ''|'' (map (memberMaterial s (tn_id tenant)) eligible)));
          excludedDigest = env_md5 E (JStr (joinText ''|'' (map (\<lambda>m. uuidText m @ '':already_processing:0'') excluded)))
      in andThen (require (length eligible \<le> 9007199254740991 \<and> length excluded \<le> 9007199254740991)
             (BadRequest ''payout eligibility count exceeds the supported range'')) (\<lambda>_.
         Inr \<lparr>eligibleCount = length eligible, excludedCount = length excluded,
           totals = (if length eligible > 0 then [(tn_currency tenant, totalCents)] else []),
           selectionFingerprint = env_sha256 E (JObj
             [(''currency'', JStr (tn_currency tenant)),
              (''eligibleCount'', JStr (show_int (int (length eligible)))),
              (''excludedCount'', JStr (show_int (int (length excluded)))),
              (''totalCents'', JStr (show_int totalCents)),
              (''eligibleDigest'', JStr eligibleDigest), (''excludedDigest'', JStr excludedDigest)])\<rparr>))"

text \<open>The target list, or the error a selection of the wrong size raises.\<close>

definition tooManyPayable :: error where
  "tooManyPayable = BadRequest ''select at most 100 payable memberships for one payout batch''"

definition batchTargets :: "env \<Rightarrow> reserve_params \<Rightarrow> tenant \<Rightarrow> db \<Rightarrow> uuid list res" where
  "batchTargets E p tenant s = (case rp_scope p of
      Selected ids \<Rightarrow>
        let requestedTargets = sort (remdups ids)
        in andThen (require (length requestedTargets \<noteq> 0) (BadRequest ''select at least one membership for a payout batch'')) (\<lambda>_.
           andThen (require (length requestedTargets \<le> 100) (BadRequest ''a payout batch may contain at most 100 memberships'')) (\<lambda>_.
           Inr requestedTargets))
    | AllEligible \<Rightarrow>
        let eligibleTargets = take 101 (thresholdMembers s tenant)
        in if length eligibleTargets \<le> 100 then Inr eligibleTargets
           else (case rp_expectedReview p of
               None \<Rightarrow> Inl tooManyPayable
             | Some expected \<Rightarrow>
                 if eligibleCount expected + excludedCount expected > 100 then Inl tooManyPayable
                 else andThen (exactReview E s tenant (rp_period p)) (\<lambda>review. Inl (ReviewDrift review))))"

section \<open>Evaluating one member\<close>

text \<open>\<open>COALESCE(le.summary_month, s.summary_month, to_char(s.sale_date AT TIME ZONE tz, 'YYYY-MM'))\<close>; null without a sale.\<close>

definition payoutMonth :: "env \<Rightarrow> tenant \<Rightarrow> db \<Rightarrow> ledger_entry \<Rightarrow> string option" where
  "payoutMonth E tenant s e = (case le_summaryMonth e of
      Some m \<Rightarrow> Some m
    | None \<Rightarrow> map_option (\<lambda>r. case sa_summaryMonth r of Some m \<Rightarrow> m | None \<Rightarrow> env_month E (sa_saleDate r) (tn_timezone tenant))
                (Option.bind (le_saleId e) (findSale s)))"

definition payableRows :: "env \<Rightarrow> tenant \<Rightarrow> uuid \<Rightarrow> db \<Rightarrow> payout_ledger_row list" where
  "payableRows E tenant membershipId s =
     map (\<lambda>e. \<lparr>pr_id = le_id e, pr_membershipId = le_beneficiary e, pr_level = le_level e,
            pr_amountCents = le_amountCents e, pr_month = payoutMonth E tenant s e\<rparr>)
       (findManyBy le_id (payableTo (tn_id tenant) membershipId) (ledger s))"

text \<open>The guard over the rows' months; a null month is refused by Prisma as an argument of \<open>in\<close>.\<close>

definition assertRowPeriodsOpen :: "db \<Rightarrow> uuid \<Rightarrow> payout_ledger_row list \<Rightarrow> unit res" where
  "assertRowPeriodsOpen s tenantId rows =
     (if list_ex (\<lambda>r. pr_month r = None) rows then Inl (InternalError ''PrismaClientValidationError'')
      else assertPeriodsOpen s tenantId (List.map_filter pr_month rows))"

definition activePayouts :: "db \<Rightarrow> uuid \<Rightarrow> uuid \<Rightarrow> string \<Rightarrow> payout list" where
  "activePayouts s tenantId membershipId period =
     findManyBy po_createdAt
       (\<lambda>p. po_tenantId p = tenantId \<and> po_membershipId p = membershipId \<and> po_period p = period \<and>
            (po_activeKey p = Some (payoutActiveKey tenantId membershipId period) \<or>
             po_status p = PoRequested \<or> po_status p = PoProcessing))
       (payouts s)"

text \<open>The open request to reuse, or \<open>None\<close> (inner) when the member is already being paid.\<close>

definition requestToReuse :: "payout list \<Rightarrow> uuid option \<Rightarrow> uuid option option res" where
  "requestToReuse active requestedPayoutId = (case requestedPayoutId of
      Some pid \<Rightarrow>
        (case find (\<lambda>r. po_id r = pid) active of
           None \<Rightarrow> Inl (Conflict ''open payout request not found'')
         | Some request \<Rightarrow>
             if po_status request \<noteq> PoRequested then Inl (Conflict ''open payout request not found'')
             else if list_ex (\<lambda>r. po_id r \<noteq> po_id request \<and> po_status r = PoProcessing) active then Inr None
             else Inr (Some (Some (po_id request))))
    | None \<Rightarrow>
        if list_ex (\<lambda>r. po_status r = PoProcessing) active then Inr None
        else Inr (Some (map_option po_id (find (\<lambda>r. po_status r = PoRequested) active))))"

definition recipientsOf :: "db \<Rightarrow> uuid \<Rightarrow> uuid \<Rightarrow> (recipient \<times> time option) list" where
  "recipientsOf s tenantId membershipId =
     concat (map (\<lambda>m. map (\<lambda>u. (\<lparr>rc_referralCode = mb_referralCode m, rc_fullName = us_fullName u, rc_email = us_email u\<rparr>,
                                us_emailVerifiedAt u))
                       (filter (\<lambda>u. us_id u = mb_userId m) (users s)))
       (filter (\<lambda>m. mb_id m = membershipId \<and> mb_tenantId m = tenantId) (memberships s)))"

definition manualDecision :: "stored_control \<Rightarrow> manual_decision" where
  "manualDecision c = \<lparr>md_key = sc_key c, md_status = sc_status c, md_reasonCode = sc_reasonCode c,
     md_expiresAt = sc_expiresAt c, md_version = sc_version c\<rparr>"

definition readinessInput :: "bool \<Rightarrow> cents \<Rightarrow> tenant \<Rightarrow> compliance_input \<Rightarrow> readiness_input" where
  "readinessInput emailVerified netCents tenant i =
     \<lparr>rin_emailVerified = emailVerified, rin_payableCents = netCents, rin_thresholdCents = tn_payoutMinCents tenant,
      rin_thresholdCurrency = tn_currency tenant, rin_activePayout = None, rin_mfa = MfaUnknown,
      rin_manualChecks = map manualDecision (co_manualChecks i),
      rin_destination = map_option (\<lambda>d. \<lparr>ad_verifiedAt = sd_verifiedAt d, ad_version = sd_version d\<rparr>) (co_destination i)\<rparr>"

definition skipMember :: "uuid \<Rightarrow> skip_reason \<Rightarrow> cents \<Rightarrow> member_decision" where
  "skipMember m reason net = Skip \<lparr>sm_membershipId = m, sm_reason = reason, sm_netCents = net\<rparr>"

text \<open>One round of the loop over the targets: it only reads.\<close>

definition decideMember :: "env \<Rightarrow> reserve_params \<Rightarrow> tenant \<Rightarrow> db \<Rightarrow> uuid \<Rightarrow> member_decision res" where
  "decideMember E p tenant s m =
     andThen (require (countWhere (\<lambda>x. mb_id x = m \<and> mb_tenantId x = rp_tenantId p) (memberships s) = 1)
        (NotFound ''membership not found'')) (\<lambda>_.
     andThen (requestToReuse (activePayouts s (rp_tenantId p) m (rp_period p)) (rp_requestedPayoutId p)) (\<lambda>reuse.
     case reuse of
       None \<Rightarrow> Inr (skipMember m AlreadyProcessing 0)
     | Some requestedPayoutId \<Rightarrow>
       let rows = payableRows E tenant m s; netCents = sum_list (map pr_amountCents rows)
       in if length rows = 0 then Inr (skipMember m NothingPayable netCents)
          else if netCents \<le> 0 \<or> netCents < tn_payoutMinCents tenant then Inr (skipMember m BelowMin netCents)
          else
            andThen (assertRowPeriodsOpen s (rp_tenantId p) rows) (\<lambda>_.
            case recipientsOf s (rp_tenantId p) m of
              [(recipient, emailVerifiedAt)] \<Rightarrow>
                (case runtimePayoutBlock E s (rp_tenantId p) m of
                   Some runtimeBlock \<Rightarrow>
                     if rp_requestedPayoutId p \<noteq> None then Inl (Forbidden runtimeBlock)
                     else Inr (skipMember m PayoutNotReady netCents)
                 | None \<Rightarrow>
                     let complianceInput = readInput s (rp_tenantId p) m;
                         readiness = evaluatePayoutReadiness (env_now E)
                           (readinessInput (emailVerifiedAt \<noteq> None) netCents tenant complianceInput)
                     in if \<not> rd_requestable readiness then Inr (skipMember m PayoutNotReady netCents)
                        else Inr (Reserve \<lparr>rv_membershipId = m, rv_requestedPayoutId = requestedPayoutId,
                          rv_amountCents = netCents, rv_rows = rows,
                          rv_complianceSnapshot = buildSnapshot complianceInput, rv_recipient = recipient\<rparr>))
            | _ \<Rightarrow> Inl (Conflict ''payout recipient changed while the batch was being reserved''))))"

definition reservationsOf :: "member_decision list \<Rightarrow> payout_reservation list" where
  "reservationsOf ds = List.map_filter (\<lambda>d. case d of Reserve r \<Rightarrow> Some r | Skip _ \<Rightarrow> None) ds"

definition skippedOf :: "member_decision list \<Rightarrow> skipped_member list" where
  "skippedOf ds = List.map_filter (\<lambda>d. case d of Skip k \<Rightarrow> Some k | Reserve _ \<Rightarrow> None) ds"

definition batchReview :: "env \<Rightarrow> tenant \<Rightarrow> payout_reservation list \<Rightarrow> skipped_member list \<Rightarrow> payout_batch_review" where
  "batchReview E tenant reservations skipped =
     \<lparr>eligibleCount = length reservations, excludedCount = length skipped,
      totals = (if length reservations > 0
        then [(tn_currency tenant, sum_list (map rv_amountCents reservations))] else []),
      selectionFingerprint = env_sha256 E (JObj
        [(''currency'', JStr (tn_currency tenant)),
         (''eligible'', JArr (map (\<lambda>r. JObj
            [(''membershipId'', JId (rv_membershipId r)), (''amountCents'', JStr (show_int (rv_amountCents r))),
             (''ledger'', JArr (map (\<lambda>x. JObj [(''id'', JId (pr_id x)), (''amountCents'', JStr (show_int (pr_amountCents x)))])
                (rv_rows r)))]) reservations)),
         (''excluded'', JArr (map (\<lambda>k. JObj
            [(''membershipId'', JId (sm_membershipId k)), (''reason'', JStr (skipReasonText (sm_reason k))),
             (''netCents'', JStr (show_int (sm_netCents k)))]) skipped))])\<rparr>"

section \<open>Reserving\<close>

definition openPayout :: "payout \<Rightarrow> bool" where
  "openPayout p \<longleftrightarrow> po_status p = PoRequested \<or> po_status p = PoProcessing"

text \<open>The unique indexes of \<open>payouts\<close>: the active key, and one open payout per tenant and member.\<close>

definition payoutIndexTaken :: "payout \<Rightarrow> payout list \<Rightarrow> bool" where
  "payoutIndexTaken row rows =
     list_ex (\<lambda>q. po_id q \<noteq> po_id row \<and>
        (po_activeKey row \<noteq> None \<and> po_activeKey q = po_activeKey row \<or>
         openPayout row \<and> openPayout q \<and> po_tenantId q = po_tenantId row \<and> po_membershipId q = po_membershipId row)) rows"

definition startProcessing :: "env \<Rightarrow> reserve_params \<Rightarrow> uuid \<Rightarrow> payout_reservation \<Rightarrow> payout \<Rightarrow> payout" where
  "startProcessing E p batchId r row = row\<lparr>po_batchId := Some batchId, po_totalCents := rv_amountCents r,
     po_method := rp_method p, po_status := PoProcessing,
     po_activeKey := Some (payoutActiveKey (rp_tenantId p) (rv_membershipId r) (rp_period p)),
     po_processingStartedAt := Some (env_now E), po_processingByUserId := rp_actorUserId p,
     po_recipient := Some (rv_recipient r), po_complianceSnapshot := Some (snapshotJson (rv_complianceSnapshot r))\<rparr>"

definition newPayout :: "uuid \<Rightarrow> uuid \<Rightarrow> uuid \<Rightarrow> string \<Rightarrow> time \<Rightarrow> payout" where
  "newPayout i tenantId membershipId period createdAt =
     \<lparr>po_id = i, po_tenantId = tenantId, po_membershipId = membershipId, po_batchId = None, po_totalCents = 0,
      po_method = MethodManual, po_status = PoRequested, po_period = period, po_activeKey = None,
      po_processingStartedAt = None, po_processingByUserId = None, po_paidAt = None, po_settledAt = None,
      po_settledByUserId = None, po_settlementReference = None, po_settlementEvidence = None, po_recipient = None,
      po_complianceSnapshot = None, po_rejectedAt = None, po_rejectedByUserId = None, po_rejectionReason = None,
      po_failedAt = None, po_failedByUserId = None, po_failureReason = None, po_ref = None, po_createdAt = createdAt,
      po_clearedAt = None, po_bankRef = None, po_reconciledByUserId = None, po_checkNumber = None, po_mailedAt = None,
      po_payeeSnapshot = None\<rparr>"

text \<open>\<open>payout.update\<close> of the reused request, or \<open>payout.create\<close>.\<close>

definition writePayout :: "env \<Rightarrow> reserve_params \<Rightarrow> uuid \<Rightarrow> payout_reservation \<Rightarrow> db \<Rightarrow> (uuid \<times> db) res" where
  "writePayout E p batchId r s = (case rv_requestedPayoutId r of
      Some pid \<Rightarrow>
        andThen (from_option (DbError ''P2025'') (find (\<lambda>x. po_id x = pid) (payouts s))) (\<lambda>old.
        let row = startProcessing E p batchId r old
        in andThen (require (\<not> payoutIndexTaken row (payouts s)) (DbError ''P2002'')) (\<lambda>_.
           Inr (pid, s\<lparr>payouts := updateWhere (\<lambda>x. po_id x = pid) (startProcessing E p batchId r) (payouts s)\<rparr>)))
    | None \<Rightarrow>
        let row = startProcessing E p batchId r
               (newPayout (freshId s) (rp_tenantId p) (rv_membershipId r) (rp_period p) (env_now E))
        in andThen (require (\<not> payoutIndexTaken row (payouts s)) (DbError ''P2002'')) (\<lambda>_.
           Inr (freshId s, (drawId s)\<lparr>payouts := payouts s @ [row]\<rparr>)))"

definition claimable :: "payout_ledger_row list \<Rightarrow> ledger_entry \<Rightarrow> bool" where
  "claimable rows e \<longleftrightarrow> le_id e \<in> set (map pr_id rows) \<and> le_status e = LePayable \<and>
     le_payoutId e = None \<and> le_payoutBatchId e = None"

definition claimRows :: "uuid \<Rightarrow> uuid \<Rightarrow> payout_ledger_row list \<Rightarrow> db \<Rightarrow> db res" where
  "claimRows payoutId batchId rows s =
     andThen (require (countWhere (claimable rows) (ledger s) = length rows)
        (Conflict ''payable rows changed while the batch was being reserved'')) (\<lambda>_.
     Inr (s\<lparr>ledger := updateWhere (claimable rows)
        (\<lambda>e. e\<lparr>le_status := LeProcessing, le_payoutId := Some payoutId, le_payoutBatchId := Some batchId\<rparr>) (ledger s)\<rparr>))"

definition rowMonth :: "payout_ledger_row \<Rightarrow> string" where
  "rowMonth r = (case pr_month r of Some m \<Rightarrow> m | None \<Rightarrow> '''')"

definition itemFor :: "env \<Rightarrow> uuid \<Rightarrow> uuid \<Rightarrow> payout_reservation \<Rightarrow> payout_ledger_row \<Rightarrow> batch_item" where
  "itemFor E batchId payoutId r x = \<lparr>bi_batchId = batchId, bi_payoutId = payoutId, bi_ledgerEntryId = pr_id x,
     bi_membershipId = rv_membershipId r, bi_month = rowMonth x, bi_level = pr_level x, bi_amountCents = pr_amountCents x,
     bi_recipient = rv_recipient r, bi_recipientSnapshotAt = env_now E\<rparr>"

text \<open>\<open>createMany\<close>, under the unique index over batch and ledger entry.\<close>

definition createItems :: "batch_item list \<Rightarrow> db \<Rightarrow> db res" where
  "createItems items s =
     andThen (require (distinct (map (\<lambda>i. (bi_batchId i, bi_ledgerEntryId i)) (batchItems s @ items))) (DbError ''P2002''))
       (\<lambda>_. Inr (s\<lparr>batchItems := batchItems s @ items\<rparr>))"

type_synonym reserving = "db \<times> processing_payout list"

definition reserveOne :: "env \<Rightarrow> reserve_params \<Rightarrow> uuid \<Rightarrow> payout_reservation \<Rightarrow> reserving \<Rightarrow> reserving res" where
  "reserveOne E p batchId r = (\<lambda>(s, processing).
     andThen (writePayout E p batchId r s) (\<lambda>(payoutId, s1).
     andThen (claimRows payoutId batchId (rv_rows r) s1) (\<lambda>s2.
     andThen (createItems (map (itemFor E batchId payoutId r) (rv_rows r)) s2) (\<lambda>s3.
     Inr (audit (rp_tenantId p) (rp_actorUserId p) ''payout.processing_started'' payoutId (JObj [])
            (JObj [(''batchId'', JId batchId), (''totalCents'', JStr (show_int (rv_amountCents r))),
                   (''entryCount'', JNum (int (length (rv_rows r))))]) s3,
          processing @ [\<lparr>px_membershipId = rv_membershipId r, px_payoutId = payoutId,
            px_totalCents = rv_amountCents r, px_entryCount = length (rv_rows r)\<rparr>])))))"

text \<open>
  The summary moves, one per member, month and level, in the order of the joined text of the key
  (the uuids are of one length, so the text order is the lexicographic one).
\<close>

type_synonym bucket = "uuid \<times> string \<times> nat"

definition bucketOrder :: "bucket \<times> cents \<Rightarrow> uuid \<times> string \<times> string" where
  "bucketOrder = (\<lambda>((m, month, level), _). (m, month, show_nat level))"

definition applyBuckets :: "uuid \<Rightarrow> (cents \<Rightarrow> summary_delta) \<Rightarrow> (bucket \<times> cents) list \<Rightarrow> db \<Rightarrow> db" where
  "applyBuckets tenantId delta buckets s =
     fold (\<lambda>((m, month, level), amount). bumpSummary (tenantId, m, month, level) (delta amount))
       (sort_key bucketOrder buckets) s"

definition reserveDelta :: "cents \<Rightarrow> summary_delta" where
  "reserveDelta amount = noDelta\<lparr>d_payable := - amount, d_processing := amount\<rparr>"

definition createBatch :: "env \<Rightarrow> reserve_params \<Rightarrow> db \<Rightarrow> uuid \<times> db" where
  "createBatch E p s = (freshId s, (drawId s)\<lparr>batches := batches s @
     [\<lparr>ba_id = freshId s, ba_tenantId = rp_tenantId p, ba_period = rp_period p, ba_method = rp_method p,
       ba_status = BaProcessing, ba_processingStartedAt = env_now E, ba_processingByUserId = rp_actorUserId p,
       ba_dispatchedAt = None, ba_dispatchedByUserId = None, ba_dispatchReference = None, ba_dispatchEvidence = None,
       ba_settledAt = None, ba_settledByUserId = None, ba_settlementReference = None, ba_settlementEvidence = None,
       ba_failedAt = None, ba_failedByUserId = None, ba_failureReason = None, ba_csvChecksum = None\<rparr>]\<rparr>)"

definition reserveRows :: "payout_reservation list \<Rightarrow> (uuid \<times> payout_ledger_row) list" where
  "reserveRows reservations = concat (map (\<lambda>r. map (Pair (rv_membershipId r)) (rv_rows r)) reservations)"

definition commitReservations ::
  "env \<Rightarrow> reserve_params \<Rightarrow> payout_reservation list \<Rightarrow> db \<Rightarrow> (uuid \<times> processing_payout list \<times> db) res" where
  "commitReservations E p reservations s =
     (let (batchId, s1) = createBatch E p s
      in andThen (foldRes (reserveOne E p batchId) reservations (s1, [])) (\<lambda>(s2, processing).
         Inr (batchId, processing,
           audit (rp_tenantId p) (rp_actorUserId p) ''payout_batch.processing_started'' batchId (JObj [])
             (JObj [(''period'', JStr (rp_period p)), (''method'', JStr (methodText (rp_method p))),
                    (''processingCount'', JNum (int (length processing))),
                    (''entryCount'', JNum (int (sum_list (map (\<lambda>r. length (rv_rows r)) reservations))))])
             (applyBuckets (rp_tenantId p) reserveDelta
               (aggregate (\<lambda>(m, x). (m, rowMonth x, pr_level x)) (\<lambda>(m, x). pr_amountCents x) (reserveRows reservations)) s2))))"

definition reservePayoutBatchTx :: "env \<Rightarrow> reserve_params \<Rightarrow> db \<Rightarrow> (reserve_result \<times> db) res" where
  "reservePayoutBatchTx E p s =
     andThen (tenantOrThrow s (rp_tenantId p)) (\<lambda>tenant.
     andThen (batchTargets E p tenant s) (\<lambda>targets.
     andThen (mapRes (decideMember E p tenant s) targets) (\<lambda>decisions.
       let reservations = reservationsOf decisions; skipped = skippedOf decisions;
           review = batchReview E tenant reservations skipped;
           unchanged = (\<lparr>rr_batchId = None, rr_period = rp_period p, rr_processing = [], rr_skipped = skipped,
                         rr_review = review\<rparr>, s)
       in if (case rp_expectedReview p of None \<Rightarrow> False | Some expected \<Rightarrow> expected \<noteq> review) then Inl (ReviewDrift review)
          else if length targets > 100 then Inl tooManyPayable
          else if rp_previewOnly p then Inr unchanged
          else if length reservations = 0 then Inr unchanged
          else andThen (commitReservations E p reservations s) (\<lambda>(batchId, processing, s').
            Inr (\<lparr>rr_batchId = Some batchId, rr_period = rp_period p, rr_processing = processing,
                  rr_skipped = skipped, rr_review = review\<rparr>, s')))))"

definition requirePayoutCompliance :: "env \<Rightarrow> unit res" where
  "requirePayoutCompliance E = require (env_hasCompliance E) (InternalError ''payout compliance service unavailable'')"

definition reservePayoutBatch ::
  "(nat \<Rightarrow> error option) \<Rightarrow> (nat \<Rightarrow> db) \<Rightarrow> env \<Rightarrow> reserve_params \<Rightarrow> (reserve_result \<times> db) res" where
  "reservePayoutBatch fault dbAt E p =
     andThen (requirePayoutCompliance E) (\<lambda>_. engineTx fault dbAt (reservePayoutBatchTx E p))"

definition previewPayoutBatch ::
  "(nat \<Rightarrow> error option) \<Rightarrow> (nat \<Rightarrow> db) \<Rightarrow> env \<Rightarrow> reserve_params \<Rightarrow> payout_batch_review res" where
  "previewPayoutBatch fault dbAt E p =
     andThen (reservePayoutBatch fault dbAt E
        (p\<lparr>rp_actorUserId := None, rp_requestedPayoutId := None, rp_previewOnly := True\<rparr>)) (\<lambda>(r, _). Inr (rr_review r))"

section \<open>Dispatching\<close>

definition tenantBatch :: "db \<Rightarrow> uuid \<Rightarrow> uuid \<Rightarrow> settlement_batch option" where
  "tenantBatch s tenantId batchId = find (\<lambda>b. ba_id b = batchId \<and> ba_tenantId b = tenantId) (batches s)"

definition batchPayouts :: "db \<Rightarrow> uuid \<Rightarrow> payout list" where
  "batchPayouts s batchId = findManyBy (\<lambda>p. (po_membershipId p, po_id p)) (\<lambda>p. po_batchId p = Some batchId) (payouts s)"

text \<open>The items of a batch joined with their ledger rows.\<close>

definition lockPayoutBatchItems :: "db \<Rightarrow> uuid \<Rightarrow> (batch_item \<times> ledger_entry) list" where
  "lockPayoutBatchItems s batchId =
     concat (map (\<lambda>i. map (Pair i) (filter (\<lambda>e. le_id e = bi_ledgerEntryId i) (ledger s)))
       (findManyBy bi_ledgerEntryId (\<lambda>i. bi_batchId i = batchId) (batchItems s)))"

definition rowInFlight :: "uuid \<Rightarrow> batch_item \<times> ledger_entry \<Rightarrow> bool" where
  "rowInFlight batchId = (\<lambda>(i, e). le_status e = LeProcessing \<and> le_payoutBatchId e = Some batchId)"

definition assertIntactPayoutBatchItems :: "uuid \<Rightarrow> payout list \<Rightarrow> (batch_item \<times> ledger_entry) list \<Rightarrow> unit res" where
  "assertIntactPayoutBatchItems batchId pays items =
     andThen (require (length items \<noteq> 0 \<and> list_all (rowInFlight batchId) items)
        (Conflict ''processing ledger set is no longer intact'')) (\<lambda>_.
     require (list_all (\<lambda>p. list_ex (\<lambda>(i, e). bi_payoutId i = po_id p) items) pays)
        (Conflict ''processing payout set is no longer intact''))"

record dispatch_params =
  dp_tenantId :: uuid
  dp_batchId :: uuid
  dp_dispatchReference :: string
  dp_dispatchEvidence :: string
  dp_actorUserId :: "uuid option"

record batch_outcome =
  bo_batchId :: uuid
  bo_done :: bool
  bo_already :: bool
  bo_payoutCount :: nat

definition complianceChanged :: error where
  "complianceChanged = Conflict ''payout_compliance_changed''"

definition recheckPayout :: "env \<Rightarrow> db \<Rightarrow> uuid \<Rightarrow> payout \<Rightarrow> unit res" where
  "recheckPayout E s tenantId payout =
     (if runtimePayoutBlock E s tenantId (po_membershipId payout) \<noteq> None then Inl complianceChanged
      else (case recheckSnapshot (env_now E) (po_complianceSnapshot payout)
                  (readInput s tenantId (po_membershipId payout)) of
              RecheckRequired \<Rightarrow> Inl (Conflict ''payout_compliance_recheck_required'')
            | RecheckChanged \<Rightarrow> Inl complianceChanged
            | RecheckReady \<Rightarrow> Inr ()))"

definition processingBefore :: json where
  "processingBefore = JObj [(''status'', JStr ''processing'')]"

definition dispatchPayoutBatchTx ::
  "env \<Rightarrow> dispatch_params \<Rightarrow> string \<Rightarrow> string \<Rightarrow> db \<Rightarrow> (batch_outcome \<times> db) res" where
  "dispatchPayoutBatchTx E p reference evidence s =
     andThen (from_option (NotFound ''payout batch not found'') (tenantBatch s (dp_tenantId p) (dp_batchId p))) (\<lambda>batch.
     if ba_status batch = BaDispatched \<or> ba_status batch = BaSettled \<and> ba_dispatchedAt batch \<noteq> None
     then Inr (\<lparr>bo_batchId = ba_id batch, bo_done = False, bo_already = True,
           bo_payoutCount = countWhere (\<lambda>x. po_batchId x = Some (ba_id batch) \<and>
             (po_status x = PoProcessing \<or> po_status x = PoPaid)) (payouts s)\<rparr>, s)
     else
       andThen (require (ba_status batch = BaProcessing) (Conflict ''only processing payout batches can be dispatched'')) (\<lambda>_.
       let pays = batchPayouts s (ba_id batch); items = lockPayoutBatchItems s (ba_id batch)
       in andThen (mapRes (lockMembership s (dp_tenantId p)) (sort (remdups (map po_membershipId pays)))) (\<lambda>_.
          andThen (require (length pays \<noteq> 0) (Conflict ''processing batch has no payouts'')) (\<lambda>_.
          andThen (mapRes (recheckPayout E s (dp_tenantId p)) pays) (\<lambda>_.
          andThen (assertIntactPayoutBatchItems (ba_id batch) pays items) (\<lambda>_.
            let marked = (\<lambda>b. ba_id b = ba_id batch \<and> ba_status b = BaProcessing);
                s1 = s\<lparr>batches := updateWhere marked
                  (\<lambda>b. b\<lparr>ba_status := BaDispatched, ba_dispatchedAt := Some (env_now E),
                     ba_dispatchedByUserId := dp_actorUserId p, ba_dispatchReference := Some reference,
                     ba_dispatchEvidence := Some evidence\<rparr>) (batches s)\<rparr>;
                sent = [(''dispatchReference'', JStr reference), (''dispatchEvidence'', JStr evidence)];
                s2 = fold (\<lambda>x. audit (dp_tenantId p) (dp_actorUserId p) ''payout.dispatched'' (po_id x) processingBefore
                       (JObj ((''batchId'', JId (ba_id batch)) # sent))) pays s1
            in andThen (require (countWhere marked (batches s) = 1) (Conflict ''payout batch changed while dispatching'')) (\<lambda>_.
               Inr (\<lparr>bo_batchId = ba_id batch, bo_done = True, bo_already = False, bo_payoutCount = length pays\<rparr>,
                 audit (dp_tenantId p) (dp_actorUserId p) ''payout_batch.dispatched'' (ba_id batch) processingBefore
                   (JObj (sent @ [(''payoutCount'', JNum (int (length pays))), (''entryCount'', JNum (int (length items)))])) s2))))))))"

definition dispatchPayoutBatch ::
  "(nat \<Rightarrow> error option) \<Rightarrow> (nat \<Rightarrow> db) \<Rightarrow> env \<Rightarrow> dispatch_params \<Rightarrow> (batch_outcome \<times> db) res" where
  "dispatchPayoutBatch fault dbAt E p =
     andThen (requirePayoutCompliance E) (\<lambda>_.
     let reference = trimText (dp_dispatchReference p); evidence = trimText (dp_dispatchEvidence p)
     in andThen (require (reference \<noteq> [] \<and> evidence \<noteq> []) (BadRequest ''dispatch reference and evidence are required''))
          (\<lambda>_. engineTx fault dbAt (dispatchPayoutBatchTx E p reference evidence)))"

section \<open>Settling, failing, rejecting\<close>

definition settleDelta :: "cents \<Rightarrow> summary_delta" where
  "settleDelta amount = noDelta\<lparr>d_processing := - amount, d_paid := amount\<rparr>"

definition failDelta :: "cents \<Rightarrow> summary_delta" where
  "failDelta amount = noDelta\<lparr>d_processing := - amount, d_payable := amount\<rparr>"

definition moveBatchSummary :: "uuid \<Rightarrow> (cents \<Rightarrow> summary_delta) \<Rightarrow> batch_item list \<Rightarrow> db \<Rightarrow> db" where
  "moveBatchSummary tenantId delta items =
     applyBuckets tenantId delta (aggregate (\<lambda>i. (bi_membershipId i, bi_month i, bi_level i)) bi_amountCents items)"

record settle_params =
  tp_tenantId :: uuid
  tp_batchId :: uuid
  tp_settlementReference :: string
  tp_settlementEvidence :: string
  tp_actorUserId :: "uuid option"

definition settlePayout :: "env \<Rightarrow> settle_params \<Rightarrow> string \<Rightarrow> string \<Rightarrow> payout \<Rightarrow> payout" where
  "settlePayout E p reference evidence x = x\<lparr>po_status := PoPaid, po_activeKey := None, po_paidAt := Some (env_now E),
     po_settledAt := Some (env_now E), po_settledByUserId := tp_actorUserId p,
     po_settlementReference := Some reference, po_settlementEvidence := Some evidence, po_ref := Some reference\<rparr>"

definition settleBatch :: "env \<Rightarrow> settle_params \<Rightarrow> string \<Rightarrow> string \<Rightarrow> settlement_batch \<Rightarrow> settlement_batch" where
  "settleBatch E p reference evidence b = b\<lparr>ba_status := BaSettled, ba_settledAt := Some (env_now E),
     ba_settledByUserId := tp_actorUserId p, ba_settlementReference := Some reference,
     ba_settlementEvidence := Some evidence\<rparr>"

text \<open>The rows and payouts an \<open>updateMany\<close> over the batch selects.\<close>

definition inFlightRow :: "uuid \<Rightarrow> (batch_item \<times> ledger_entry) list \<Rightarrow> ledger_entry \<Rightarrow> bool" where
  "inFlightRow batchId items e \<longleftrightarrow> le_id e \<in> set (map (\<lambda>(i, _). bi_ledgerEntryId i) items) \<and>
     le_status e = LeProcessing \<and> le_payoutBatchId e = Some batchId"

definition inFlightPayout :: "uuid \<Rightarrow> payout list \<Rightarrow> payout \<Rightarrow> bool" where
  "inFlightPayout batchId pays x \<longleftrightarrow> po_id x \<in> set (map po_id pays) \<and> po_batchId x = Some batchId \<and> po_status x = PoProcessing"

definition payoutSent :: "settle_params \<Rightarrow> settlement_batch \<Rightarrow> tenant \<Rightarrow> (string \<times> json) list \<Rightarrow> payout \<Rightarrow> db \<Rightarrow> db" where
  "payoutSent p batch tenant evidence x s =
     audit (tp_tenantId p) (tp_actorUserId p) ''payout.settled'' (po_id x) processingBefore
       (JObj ((''batchId'', JId (ba_id batch)) # evidence))
       (createNotification (tp_tenantId p) (po_membershipId x) ChPush ''payout_sent''
         (JObj [(''payoutId'', JId (po_id x)), (''batchId'', JId (ba_id batch)),
                (''totalCents'', JStr (show_int (po_totalCents x))), (''period'', JStr (ba_period batch)),
                (''currency'', JStr (tn_currency tenant))]) s)"

definition settlePayoutBatchTx ::
  "env \<Rightarrow> settle_params \<Rightarrow> string \<Rightarrow> string \<Rightarrow> db \<Rightarrow> (batch_outcome \<times> db) res" where
  "settlePayoutBatchTx E p reference evidence s =
     andThen (from_option (NotFound ''payout batch not found'') (tenantBatch s (tp_tenantId p) (tp_batchId p))) (\<lambda>batch.
     if ba_status batch = BaSettled
     then Inr (\<lparr>bo_batchId = ba_id batch, bo_done = False, bo_already = True,
           bo_payoutCount = countWhere (\<lambda>x. po_batchId x = Some (ba_id batch) \<and> po_status x = PoPaid) (payouts s)\<rparr>, s)
     else
       andThen (require (ba_status batch = BaDispatched) (Conflict ''only dispatched payout batches can be settled'')) (\<lambda>_.
       let pays = batchPayouts s (ba_id batch); items = lockPayoutBatchItems s (ba_id batch);
           payoutRow = inFlightPayout (ba_id batch) pays; entryRow = inFlightRow (ba_id batch) items;
           proof_fields = [(''settlementReference'', JStr reference), (''settlementEvidence'', JStr evidence)]
       in andThen (require (length pays \<noteq> 0) (Conflict ''dispatched batch has no payouts'')) (\<lambda>_.
          andThen (assertIntactPayoutBatchItems (ba_id batch) pays items) (\<lambda>_.
          andThen (require (countWhere payoutRow (payouts s) = length pays)
             (Conflict ''payout batch changed while settling'')) (\<lambda>_.
          andThen (require (countWhere entryRow (ledger s) = length items)
             (Conflict ''processing ledger rows changed while settling'')) (\<lambda>_.
          let s1 = s\<lparr>payouts := updateWhere payoutRow (settlePayout E p reference evidence) (payouts s),
                ledger := updateWhere entryRow (\<lambda>e. e\<lparr>le_status := LePaid\<rparr>) (ledger s),
                batches := updateWhere (\<lambda>b. ba_id b = ba_id batch) (settleBatch E p reference evidence) (batches s)\<rparr>;
              s2 = moveBatchSummary (tp_tenantId p) settleDelta (map fst items) s1
          in andThen (tenantOrThrow s2 (tp_tenantId p)) (\<lambda>tenant.
             Inr (\<lparr>bo_batchId = ba_id batch, bo_done = True, bo_already = False, bo_payoutCount = length pays\<rparr>,
               audit (tp_tenantId p) (tp_actorUserId p) ''payout_batch.settled'' (ba_id batch)
                 (JObj [(''status'', JStr ''dispatched'')])
                 (JObj (proof_fields @ [(''payoutCount'', JNum (int (length pays))), (''entryCount'', JNum (int (length items)))]))
                 (fold (payoutSent p batch tenant proof_fields) pays s2)))))))))"

definition settlePayoutBatch ::
  "(nat \<Rightarrow> error option) \<Rightarrow> (nat \<Rightarrow> db) \<Rightarrow> env \<Rightarrow> settle_params \<Rightarrow> (batch_outcome \<times> db) res" where
  "settlePayoutBatch fault dbAt E p =
     (let reference = trimText (tp_settlementReference p); evidence = trimText (tp_settlementEvidence p)
      in andThen (require (reference \<noteq> [] \<and> evidence \<noteq> []) (BadRequest ''settlement reference and evidence are required''))
          (\<lambda>_. engineTx fault dbAt (settlePayoutBatchTx E p reference evidence)))"

record fail_params =
  fp_tenantId :: uuid
  fp_batchId :: uuid
  fp_reason :: string
  fp_actorUserId :: "uuid option"

definition failPayout :: "env \<Rightarrow> fail_params \<Rightarrow> string \<Rightarrow> payout \<Rightarrow> payout" where
  "failPayout E p reason x = x\<lparr>po_status := PoFailed, po_activeKey := None, po_failedAt := Some (env_now E),
     po_failedByUserId := fp_actorUserId p, po_failureReason := Some reason, po_ref := Some reason\<rparr>"

definition failBatch :: "env \<Rightarrow> fail_params \<Rightarrow> string \<Rightarrow> settlement_batch \<Rightarrow> settlement_batch" where
  "failBatch E p reason b = b\<lparr>ba_status := BaFailed, ba_failedAt := Some (env_now E),
     ba_failedByUserId := fp_actorUserId p, ba_failureReason := Some reason\<rparr>"

definition failPayoutBatchTx :: "env \<Rightarrow> fail_params \<Rightarrow> string \<Rightarrow> db \<Rightarrow> (batch_outcome \<times> db) res" where
  "failPayoutBatchTx E p reason s =
     andThen (from_option (NotFound ''payout batch not found'') (tenantBatch s (fp_tenantId p) (fp_batchId p))) (\<lambda>batch.
     if ba_status batch = BaFailed
     then Inr (\<lparr>bo_batchId = ba_id batch, bo_done = False, bo_already = True,
           bo_payoutCount = countWhere (\<lambda>x. po_batchId x = Some (ba_id batch) \<and> po_status x = PoFailed) (payouts s)\<rparr>, s)
     else
       andThen (require (ba_status batch \<noteq> BaDispatched)
          (Conflict ''dispatched payout batches cannot be released; reconcile the actual payment outcome instead'')) (\<lambda>_.
       andThen (require (ba_status batch = BaProcessing) (Conflict ''settled payout batches cannot be failed'')) (\<lambda>_.
       let pays = findManyBy po_id (\<lambda>x. po_batchId x = Some (ba_id batch)) (payouts s);
           items = lockPayoutBatchItems s (ba_id batch);
           payoutRow = inFlightPayout (ba_id batch) pays; entryRow = inFlightRow (ba_id batch) items
       in andThen (require (length pays \<noteq> 0 \<and> length items \<noteq> 0 \<and> list_all (rowInFlight (ba_id batch)) items)
             (Conflict ''processing ledger set is no longer intact'')) (\<lambda>_.
          andThen (require (countWhere entryRow (ledger s) = length items)
             (Conflict ''processing ledger rows changed while failing'')) (\<lambda>_.
          andThen (require (countWhere payoutRow (payouts s) = length pays)
             (Conflict ''payout batch changed while failing'')) (\<lambda>_.
          let s1 = s\<lparr>ledger := updateWhere entryRow
                  (\<lambda>e. e\<lparr>le_status := LePayable, le_payoutId := None, le_payoutBatchId := None\<rparr>) (ledger s),
                payouts := updateWhere payoutRow (failPayout E p reason) (payouts s),
                batches := updateWhere (\<lambda>b. ba_id b = ba_id batch) (failBatch E p reason) (batches s)\<rparr>;
              s2 = moveBatchSummary (fp_tenantId p) failDelta (map fst items) s1;
              s3 = fold (\<lambda>x. audit (fp_tenantId p) (fp_actorUserId p) ''payout.failed'' (po_id x) processingBefore
                     (JObj [(''batchId'', JId (ba_id batch)), (''reason'', JStr reason)])) pays s2
          in Inr (\<lparr>bo_batchId = ba_id batch, bo_done = True, bo_already = False, bo_payoutCount = length pays\<rparr>,
               audit (fp_tenantId p) (fp_actorUserId p) ''payout_batch.failed'' (ba_id batch) processingBefore
                 (JObj [(''reason'', JStr reason), (''payoutCount'', JNum (int (length pays))),
                        (''entryCount'', JNum (int (length items)))]) s3)))))))"

definition failPayoutBatch ::
  "(nat \<Rightarrow> error option) \<Rightarrow> (nat \<Rightarrow> db) \<Rightarrow> env \<Rightarrow> fail_params \<Rightarrow> (batch_outcome \<times> db) res" where
  "failPayoutBatch fault dbAt E p =
     (let reason = trimText (fp_reason p)
      in andThen (require (reason \<noteq> []) (BadRequest ''failure reason is required''))
          (\<lambda>_. engineTx fault dbAt (failPayoutBatchTx E p reason)))"

record reject_params =
  xp_tenantId :: uuid
  xp_payoutId :: uuid
  xp_reason :: string
  xp_actorUserId :: "uuid option"

definition rejectPayout :: "env \<Rightarrow> reject_params \<Rightarrow> string \<Rightarrow> payout \<Rightarrow> payout" where
  "rejectPayout E p reason x = x\<lparr>po_status := PoRejected, po_activeKey := None, po_rejectedAt := Some (env_now E),
     po_rejectedByUserId := xp_actorUserId p, po_rejectionReason := Some reason, po_ref := Some reason\<rparr>"

definition rejectPayoutRequestTx :: "env \<Rightarrow> reject_params \<Rightarrow> string \<Rightarrow> db \<Rightarrow> (uuid \<times> db) res" where
  "rejectPayoutRequestTx E p reason s =
     andThen (from_option (NotFound ''payout request not found'')
        (find (\<lambda>x. po_id x = xp_payoutId p \<and> po_tenantId x = xp_tenantId p) (payouts s))) (\<lambda>row.
     andThen (require (po_status row = PoRequested) (Conflict ''only requested payouts can be rejected'')) (\<lambda>_.
     Inr (po_id row, audit (xp_tenantId p) (xp_actorUserId p) ''payout.rejected'' (po_id row)
        (JObj [(''status'', JStr ''requested'')]) (JObj [(''reason'', JStr reason)])
        (s\<lparr>payouts := updateWhere (\<lambda>x. po_id x = po_id row) (rejectPayout E p reason) (payouts s)\<rparr>))))"

definition rejectPayoutRequest ::
  "(nat \<Rightarrow> error option) \<Rightarrow> (nat \<Rightarrow> db) \<Rightarrow> env \<Rightarrow> reject_params \<Rightarrow> (uuid \<times> db) res" where
  "rejectPayoutRequest fault dbAt E p =
     (let reason = trimText (xp_reason p)
      in andThen (require (reason \<noteq> []) (BadRequest ''rejection reason is required''))
          (\<lambda>_. engineTx fault dbAt (rejectPayoutRequestTx E p reason)))"

end
