(* ===== verification/Payout_Books.thy ===== *)
theory Payout_Books
  imports Payout_Engine
begin

text \<open>
  Payouts and the books: reserving, dispatching, settling, failing and rejecting keep the summaries
  equal to the ledger and the settlement links intact.  The generic part moves a set of ledger rows
  from one status to another together with the aggregated summary bumps; closing a batch and
  reserving a member are its two uses.
\<close>

section \<open>Moving rows in bulk\<close>

definition restatus :: "(ledger_entry \<Rightarrow> ledger_entry) \<Rightarrow> ledger_status \<Rightarrow> bool" where
  "restatus f st \<longleftrightarrow> (\<forall>e. le_id (f e) = le_id e \<and> le_tenantId (f e) = le_tenantId e \<and> le_saleId (f e) = le_saleId e \<and>
     le_beneficiary (f e) = le_beneficiary e \<and> le_level (f e) = le_level e \<and> le_amountCents (f e) = le_amountCents e \<and>
     le_summaryMonth (f e) = le_summaryMonth e \<and> le_status (f e) = st)"

lemma restatus_ledgerKey: "restatus f st \<Longrightarrow> ledgerKey s (f e) = ledgerKey s e"
  by (simp add: restatus_def ledgerKey_def bucketMonth_def split: option.split)

text \<open>What a set of rows contributes to one key.\<close>

definition movedCents :: "(ledger_entry \<Rightarrow> bool) \<Rightarrow> db \<Rightarrow> summary_key \<Rightarrow> cents" where
  "movedCents P s k = sumWhere (\<lambda>e. P e \<and> ledgerKey s e = Some k) le_amountCents (ledger s)"

definition statusGain :: "ledger_status \<Rightarrow> ledger_status \<Rightarrow> ledger_status \<Rightarrow> int" where
  "statusGain old new st = (if st = new then 1 else 0) - (if st = old then 1 else 0)"

lemma sum_list_restatus:
  assumes "restatus f new" "\<And>e. e \<in> set rows \<Longrightarrow> P e \<Longrightarrow> le_status e = old"
  shows "sum_list (map (entryPart st s k) (updateWhere P f rows)) =
    sum_list (map (entryPart st s k) rows) +
    statusGain old new st * sumWhere (\<lambda>e. P e \<and> ledgerKey s e = Some k) le_amountCents rows"
  using assms(2)
proof (induction rows)
  case (Cons e rows)
  have "entryPart st s k (f e) = entryPart st s k e + statusGain old new st * (if ledgerKey s e = Some k then le_amountCents e else 0)"
    if "P e"
  proof -
    have "ledgerKey s (f e) = ledgerKey s e" "le_status (f e) = new" "le_amountCents (f e) = le_amountCents e"
      using assms(1) restatus_ledgerKey by (auto simp: restatus_def)
    moreover have "le_status e = old" using Cons.prems that by simp
    ultimately show ?thesis by (auto simp: entryPart_def statusGain_def)
  qed
  moreover have "sum_list (map (entryPart st s k) (updateWhere P f rows)) =
    sum_list (map (entryPart st s k) rows) +
    statusGain old new st * sumWhere (\<lambda>e. P e \<and> ledgerKey s e = Some k) le_amountCents rows"
    using Cons by simp
  ultimately show ?case by (auto simp: algebra_simps)
qed simp

lemma disc_restatus:
  assumes "restatus f new" "\<And>e. e \<in> set (ledger s) \<Longrightarrow> P e \<Longrightarrow> le_status e = old"
    "ledger s' = updateWhere P f (ledger s)" "summaries s' = summaries s" "sales s' = sales s"
  shows "disc st s' k = disc st s k + statusGain old new st * movedCents P s k"
proof -
  have "entryPart st s' k = entryPart st s k"
    using ledgerKey_frame [OF saleBooking_frame [OF assms(5)]] by (intro ext) (simp add: entryPart_def)
  then show ?thesis
    using sum_list_restatus [OF assms(1,2)] assms(3) colSum_frame [OF assms(4)]
    by (simp add: disc_def ledgerSum_entryPart movedCents_def)
qed

lemma linked_restatus:
  assumes "restatus f new" "linked s" "ledger s' = updateWhere P f (ledger s)" "sales s' = sales s"
  shows "linked s'"
proof -
  have "rowLinked (saleBooking s) (f e) = rowLinked (saleBooking s) e" for e
    using assms(1) by (simp add: restatus_def rowLinked_def split: option.split)
  then show ?thesis
    using assms(2,3) saleBooking_frame [OF assms(4)] by (auto simp: linked_def set_updateWhere)
qed

lemma idsFresh_restatus:
  assumes "restatus f new" "idsFresh s" "ledger s' = updateWhere P f (ledger s)" "sales s' = sales s"
    "uuidGen s' = uuidGen s" "uuidNext s \<le> uuidNext s'"
  shows "idsFresh s'"
proof -
  have i: "le_id (f e) = le_id e" for e using assms(1) by (simp add: restatus_def)
  then have ids: "map le_id (ledger s') = map le_id (ledger s)" using assms(3) by (simp add: map_updateWhere_id)
  have "le_id ` set (ledger s') = le_id ` set (ledger s)" using ids by (metis set_map)
  then have "\<forall>e \<in> set (ledger s'). \<forall>n \<ge> uuidNext s'. le_id e \<noteq> uuidGen s' n"
    using assms(2,5,6) unfolding idsFresh_def by (metis (no_types, opaque_lifting) image_iff order_trans)
  moreover have "uuidNext s \<le> n" if "uuidNext s' \<le> n" for n using that assms(6) by simp
  ultimately show ?thesis using ids assms(2,4,5) by (simp add: idsFresh_def)
qed

section \<open>The aggregated bumps\<close>

lemma applyBuckets_frames [simp]:
  "ledger (applyBuckets t d bs s) = ledger s" "sales (applyBuckets t d bs s) = sales s"
  "batches (applyBuckets t d bs s) = batches s" "payouts (applyBuckets t d bs s) = payouts s"
  "batchItems (applyBuckets t d bs s) = batchItems s" "uuidGen (applyBuckets t d bs s) = uuidGen s"
  "uuidNext (applyBuckets t d bs s) = uuidNext s"
proof -
  have "ledger (fold g xs s) = ledger s \<and> sales (fold g xs s) = sales s \<and> batches (fold g xs s) = batches s \<and>
      payouts (fold g xs s) = payouts s \<and> batchItems (fold g xs s) = batchItems s \<and> uuidGen (fold g xs s) = uuidGen s \<and>
      uuidNext (fold g xs s) = uuidNext s"
    if "g = (\<lambda>((m, month, level), amount). bumpSummary (t, m, month, level) (d amount))" for g and xs :: "(bucket \<times> cents) list"
    unfolding that by (induction xs arbitrary: s) auto
  from this [OF refl]
  show "ledger (applyBuckets t d bs s) = ledger s" "sales (applyBuckets t d bs s) = sales s"
    "batches (applyBuckets t d bs s) = batches s" "payouts (applyBuckets t d bs s) = payouts s"
    "batchItems (applyBuckets t d bs s) = batchItems s" "uuidGen (applyBuckets t d bs s) = uuidGen s"
    "uuidNext (applyBuckets t d bs s) = uuidNext s"
    unfolding applyBuckets_def by blast+
qed

lemma disc_buckets:
  assumes "\<And>x. statusPart st (delta x) = c * x"
  shows "disc st (fold (\<lambda>((m, month, level), amount). bumpSummary (t, m, month, level) (delta amount)) bs s) k =
     disc st s k - c * (if fst k = t then sumKey (snd k) bs else 0)"
proof -
  obtain kt kb where "k = (kt, kb)" by (cases k)
  then show ?thesis
    using assms by (induction bs arbitrary: s) (auto simp: disc_bump sumKey_def algebra_simps split: prod.splits)
qed

lemma disc_applyBuckets:
  assumes "\<And>x. statusPart st (delta x) = c * x"
  shows "disc st (applyBuckets t delta (aggregate key val xs) s) k =
     disc st s k - c * sumWhere (\<lambda>x. (t, key x) = k) val xs"
proof -
  have "sumKey (snd k) (sort_key bucketOrder (aggregate key val xs)) = sumWhere (\<lambda>x. key x = snd k) val xs"
    using sumKey_perm [of "sort_key bucketOrder (aggregate key val xs)" "aggregate key val xs"] by (simp add: sumKey_aggregate)
  moreover have "sumWhere (\<lambda>x. (t, key x) = k) val xs = (if fst k = t then sumWhere (\<lambda>x. key x = snd k) val xs else 0)"
    by (cases k) (auto intro!: sumWhere_cong sumWhere_zero)
  ultimately show ?thesis by (simp add: applyBuckets_def disc_buckets [OF assms])
qed

lemma filter_unique_key:
  assumes "distinct (map h rows)" "e \<in> set rows"
  shows "filter (\<lambda>x. h x = h e) rows = [e]"
  using assms
proof (induction rows)
  case (Cons y rows)
  show ?case
  proof (cases "y = e")
    case True
    then have "\<forall>x \<in> set rows. h x \<noteq> h e" using Cons.prems(1) by (force simp: image_iff)
    then show ?thesis using True by (simp add: filter_empty_conv)
  next
    case False
    then show ?thesis using Cons by auto
  qed
qed simp

text \<open>Rows and the items that name them carry the same cents per key.\<close>

lemma sum_list_join:
  fixes F :: "'a \<Rightarrow> int" and G :: "'b \<Rightarrow> int"
  assumes "distinct (map g items)" "distinct (map h rows)"
    and "\<And>i. i \<in> set items \<Longrightarrow> \<exists>e \<in> set rows. h e = g i \<and> F e = G i"
  shows "sum_list (map F (filter (\<lambda>e. h e \<in> g ` set items) rows)) = sum_list (map G items)"
  using assms(1,3)
proof (induction items)
  case (Cons i items)
  obtain e where e: "e \<in> set rows" "h e = g i" "F e = G i" using Cons.prems(2) by force
  have "sum_list (map F (filter (\<lambda>x. h x \<in> g ` set (i # items)) rows)) =
     sum_list (map F (filter (\<lambda>x. h x \<in> g ` set items) rows)) + sum_list (map F (filter (\<lambda>x. h x = h e) rows))"
    using Cons.prems(1) e(2) by (induction rows) auto
  moreover have "filter (\<lambda>x. h x = h e) rows = [e]" by (rule filter_unique_key [OF assms(2) e(1)])
  moreover have "sum_list (map F (filter (\<lambda>e. h e \<in> g ` set items) rows)) = sum_list (map G items)"
    using Cons by simp
  ultimately show ?case using e(3) by simp
qed simp

lemma sumWhere_and: "sumWhere (\<lambda>x. P x \<and> Q x) f xs = sum_list (map (\<lambda>x. if Q x then f x else 0) (filter P xs))"
  by (induction xs) auto

lemma sumWhere_if: "sumWhere P f xs = sum_list (map (\<lambda>x. if P x then f x else 0) xs)"
  by (induction xs) auto

section \<open>Closing a batch\<close>

text \<open>The single ledger row behind each item.\<close>

lemma item_row:
  assumes "settlementLinks s" "distinct (map ba_id (batches s))" "b \<in> set (batches s)" "i \<in> set (batchItems s)" "bi_batchId i = ba_id b"
  shows "\<exists>e \<in> set (ledger s). itemOf s b i e"
proof -
  obtain b' e where "b' \<in> set (batches s)" "e \<in> set (ledger s)" "itemOf s b' i e"
    using assms(1,4) by (auto simp: settlementLinks_def itemOk_def)
  moreover from this have "b' = b"
    using assms(2,3,5) inj_onD [of ba_id "set (batches s)" b' b] by (simp add: itemOf_def distinct_map)
  ultimately show ?thesis by blast
qed

lemma lockItems_fst:
  assumes "settlementLinks s" "distinct (map le_id (ledger s))"
  shows "map fst (lockPayoutBatchItems s bid) = findManyBy bi_ledgerEntryId (\<lambda>i. bi_batchId i = bid) (batchItems s)"
proof -
  have one: "map fst (map (Pair i) (filter (\<lambda>e. le_id e = bi_ledgerEntryId i) (ledger s))) = [i]" if i: "i \<in> set (batchItems s)" for i
  proof -
    obtain e where "e \<in> set (ledger s)" "le_id e = bi_ledgerEntryId i"
      using assms(1) i by (auto simp: settlementLinks_def itemOk_def itemOf_def)
    then have "filter (\<lambda>e. le_id e = bi_ledgerEntryId i) (ledger s) = [e]" using filter_unique_key [OF assms(2), of e] by simp
    then show ?thesis by simp
  qed
  have "map fst (concat (map (\<lambda>i. map (Pair i) (filter (\<lambda>e. le_id e = bi_ledgerEntryId i) (ledger s))) is)) = is"
    if "set is \<subseteq> set (batchItems s)" for "is"
    using that
  proof (induction "is")
    case (Cons i "is")
    then show ?case using one [of i] by (simp add: map_concat comp_def)
  qed simp
  then show ?thesis by (simp add: lockPayoutBatchItems_def subset_iff)
qed

lemma lockItems_set:
  "(i, e) \<in> set (lockPayoutBatchItems s bid) \<longleftrightarrow>
     i \<in> set (batchItems s) \<and> bi_batchId i = bid \<and> e \<in> set (ledger s) \<and> le_id e = bi_ledgerEntryId i"
  by (auto simp: lockPayoutBatchItems_def)

lemma inFlightRow_iff:
  "inFlightRow bid (lockPayoutBatchItems s bid) e \<longleftrightarrow> le_status e = LeProcessing \<and> le_payoutBatchId e = Some bid \<and>
     (\<exists>i \<in> set (batchItems s). bi_batchId i = bid \<and> bi_ledgerEntryId i = le_id e \<and> (\<exists>x \<in> set (ledger s). le_id x = le_id e))"
proof -
  have "le_id e \<in> set (map (\<lambda>(i, _). bi_ledgerEntryId i) (lockPayoutBatchItems s bid)) \<longleftrightarrow>
     (\<exists>i \<in> set (batchItems s). bi_batchId i = bid \<and> bi_ledgerEntryId i = le_id e \<and> (\<exists>x \<in> set (ledger s). le_id x = le_id e))"
  proof -
    have in_map: "x \<in> set (map (\<lambda>(i, _). bi_ledgerEntryId i) its) \<longleftrightarrow> (\<exists>i y. (i, y) \<in> set its \<and> bi_ledgerEntryId i = x)"
      for x and its :: "(batch_item \<times> ledger_entry) list" by force
    show ?thesis unfolding in_map lockItems_set by metis
  qed
  then show ?thesis unfolding inFlightRow_def by blast
qed

text \<open>For a batch in flight the rows selected are exactly those its items name.\<close>

lemma inFlight_open:
  assumes "settlementLinks s" "distinct (map le_id (ledger s))" "b \<in> set (batches s)"
    "batchEntryStatus (ba_status b) = Some LeProcessing" "e \<in> set (ledger s)"
  shows "inFlightRow (ba_id b) (lockPayoutBatchItems s (ba_id b)) e \<longleftrightarrow>
     (\<exists>i \<in> set (batchItems s). bi_batchId i = ba_id b \<and> bi_ledgerEntryId i = le_id e)"
proof -
  have "le_status e = LeProcessing \<and> le_payoutBatchId e = Some (ba_id b)"
    if i: "i \<in> set (batchItems s)" "bi_batchId i = ba_id b" "bi_ledgerEntryId i = le_id e" for i
  proof -
    have "distinct (map ba_id (batches s))" using assms(1) by (simp add: settlementLinks_def settlementIds_def)
    then obtain x where x: "x \<in> set (ledger s)" "itemOf s b i x" using item_row assms(1,3) i by blast
    then have "x = e" using assms(2,5) i(3) inj_onD [of le_id "set (ledger s)" x e] by (simp add: itemOf_def distinct_map)
    then show ?thesis using x(2) assms(4) by (simp add: itemOf_def ownedBy_def)
  qed
  then show ?thesis using assms(5) by (auto simp: inFlightRow_iff)
qed

lemma moved_by_batch:
  assumes "settlementLinks s" "distinct (map le_id (ledger s))" "b \<in> set (batches s)"
    "batchEntryStatus (ba_status b) = Some LeProcessing"
  shows "movedCents (inFlightRow (ba_id b) (lockPayoutBatchItems s (ba_id b))) s k =
    sumWhere (\<lambda>i. (ba_tenantId b, bi_membershipId i, bi_month i, bi_level i) = k) bi_amountCents
      (map fst (lockPayoutBatchItems s (ba_id b)))"
proof -
  let ?items = "findManyBy bi_ledgerEntryId (\<lambda>i. bi_batchId i = ba_id b) (batchItems s)"
  let ?F = "\<lambda>e. if ledgerKey s e = Some k then le_amountCents e else 0"
  let ?G = "\<lambda>i. if (ba_tenantId b, bi_membershipId i, bi_month i, bi_level i) = k then bi_amountCents i else 0"
  have "movedCents (inFlightRow (ba_id b) (lockPayoutBatchItems s (ba_id b))) s k =
     sum_list (map ?F (filter (\<lambda>e. le_id e \<in> bi_ledgerEntryId ` set ?items) (ledger s)))"
    unfolding movedCents_def sumWhere_and using inFlight_open [OF assms]
    by (intro arg_cong [where f = "\<lambda>xs. sum_list (map _ xs)"] filter_cong) (auto simp: image_iff)
  also have "\<dots> = sum_list (map ?G ?items)"
  proof (rule sum_list_join [OF _ assms(2)])
    have "distinct (map (\<lambda>i. (bi_batchId i, bi_ledgerEntryId i)) (batchItems s))"
      using assms(1) by (simp add: settlementLinks_def settlementIds_def)
    then have "distinct (map bi_ledgerEntryId (filter (\<lambda>i. bi_batchId i = ba_id b) (batchItems s)))"
      by (auto simp: distinct_map inj_on_def dest: distinct_filter)
    then show "distinct (map bi_ledgerEntryId ?items)" by (simp add: findManyBy_def distinct_map_sort_key)
    fix i assume "i \<in> set ?items"
    then have "i \<in> set (batchItems s)" "bi_batchId i = ba_id b" by simp_all
    moreover have "distinct (map ba_id (batches s))" using assms(1) by (simp add: settlementLinks_def settlementIds_def)
    ultimately obtain e where "e \<in> set (ledger s)" "itemOf s b i e" using item_row [OF assms(1) _ assms(3)] by blast
    moreover from this have "le_id e = bi_ledgerEntryId i \<and> ?F e = ?G i" by (auto simp: itemOf_def)
    ultimately show "\<exists>e \<in> set (ledger s). le_id e = bi_ledgerEntryId i \<and> ?F e = ?G i" by blast
  qed
  finally show ?thesis unfolding lockItems_fst [OF assms(1,2)] sumWhere_if .
qed

text \<open>
  What closing writes: the rows of the batch get a new status, its payouts and the batch theirs,
  nothing else changes.
\<close>

definition closes ::
  "db \<Rightarrow> settlement_batch \<Rightarrow> batch_status \<Rightarrow> (ledger_entry \<Rightarrow> ledger_entry) \<Rightarrow> (payout \<Rightarrow> payout) \<Rightarrow>
   (settlement_batch \<Rightarrow> settlement_batch) \<Rightarrow> payout list \<Rightarrow> db \<Rightarrow> bool" where
  "closes s b st f g h pays s' \<longleftrightarrow>
     ledger s' = updateWhere (inFlightRow (ba_id b) (lockPayoutBatchItems s (ba_id b))) f (ledger s) \<and>
     payouts s' = updateWhere (inFlightPayout (ba_id b) pays) g (payouts s) \<and>
     batches s' = updateWhere (\<lambda>x. ba_id x = ba_id b) h (batches s) \<and>
     batchItems s' = batchItems s \<and> sales s' = sales s \<and> summaries s' = summaries s \<and>
     uuidGen s' = uuidGen s \<and> uuidNext s' = uuidNext s \<and>
     set pays = {p \<in> set (payouts s). po_batchId p = Some (ba_id b)} \<and>
     restatus f (if st = BaSettled then LePaid else LePayable) \<and> (st = BaSettled \<longrightarrow> (\<forall>e. le_payoutBatchId (f e) = le_payoutBatchId e)) \<and>
     (\<forall>p. po_id (g p) = po_id p \<and> po_tenantId (g p) = po_tenantId p \<and> po_batchId (g p) = po_batchId p \<and>
        po_membershipId (g p) = po_membershipId p \<and> po_totalCents (g p) = po_totalCents p \<and> po_status (g p) = batchPayoutStatus st) \<and>
     (\<forall>x. ba_id (h x) = ba_id x \<and> ba_tenantId (h x) = ba_tenantId x \<and> ba_status (h x) = st) \<and>
     (st = BaSettled \<or> st = BaFailed)"

lemma closes_itemOf:
  assumes c: "closes s b st f g h pays s'" and i: "itemOf s b' i e" "b' \<in> set (batches s)" "e \<in> set (ledger s)" "i \<in> set (batchItems s)"
    and flight: "batchEntryStatus (ba_status b) = Some LeProcessing" and d: "distinct (map ba_id (batches s))" "b \<in> set (batches s)"
  shows "\<exists>x \<in> set (batches s'). \<exists>e' \<in> set (ledger s'). itemOf s' x i e'"
proof -
  let ?P = "inFlightRow (ba_id b) (lockPayoutBatchItems s (ba_id b))"
  let ?e = "if ?P e then f e else e" let ?b = "if ba_id b' = ba_id b then h b' else b'"
  have mem: "?e \<in> set (ledger s')" "?b \<in> set (batches s')"
    using c i(2,3) by (auto simp: closes_def set_updateWhere)
  have r: "restatus f (if st = BaSettled then LePaid else LePayable)" using c by (simp add: closes_def)
  have "ledgerKey s' = ledgerKey s" using c by (intro ledgerKey_frame saleBooking_frame) (simp add: closes_def)
  then have key: "ledgerKey s' ?e = ledgerKey s e" using restatus_ledgerKey [OF r] by simp
  have own: "ownedBy ?b ?e"
  proof (cases "ba_id b' = ba_id b")
    case True
    then have bb: "b' = b" using d i(2) inj_onD [of ba_id "set (batches s)" b' b] by (simp add: distinct_map)
    have st: "le_status e = LeProcessing" "le_payoutBatchId e = Some (ba_id b)"
      using i(1) flight bb by (auto simp: itemOf_def ownedBy_def)
    then have "?P e" using i bb by (auto simp: inFlightRow_iff itemOf_def)
    then show ?thesis using c st bb by (auto simp: closes_def ownedBy_def restatus_def)
  next
    case False
    show ?thesis
    proof (cases "?P e")
      case True
      then have "batchEntryStatus (ba_status b') = None"
        using i(1) False by (cases "ba_status b'") (auto simp: inFlightRow_iff itemOf_def ownedBy_def)
      then show ?thesis using False by (simp add: ownedBy_def)
    next
      case no: False
      then show ?thesis using False i(1) by (simp add: itemOf_def)
    qed
  qed
  have "itemOf s' ?b i ?e"
    using c i(1) key own r by (auto simp: itemOf_def closes_def restatus_def)
  then show ?thesis using mem by blast
qed

lemma closes_settlementOk:
  assumes "closes s b st f g h pays s'" "settlementOk s" "b \<in> set (batches s)"
    "batchEntryStatus (ba_status b) = Some LeProcessing"
  shows "settlementOk s'"
proof -
  note c = assms(1)
  have ids: "settlementIds s" and items: "\<And>i. i \<in> set (batchItems s) \<Longrightarrow> itemOk s i"
    and pays: "\<And>p. p \<in> set (payouts s) \<Longrightarrow> payoutOk (batches s) (batchItems s) p"
    and ne: "\<And>x. x \<in> set (batches s) \<Longrightarrow> \<exists>p \<in> set (payouts s). po_batchId p = Some (ba_id x)"
    using assms(2) by (auto simp: settlementOk_def settlementLinks_def)
  have d: "distinct (map ba_id (batches s))" using ids by (simp add: settlementIds_def)
  have maps: "map ba_id (batches s') = map ba_id (batches s)" "map po_id (payouts s') = map po_id (payouts s)"
    "map (\<lambda>p. (po_id p, po_batchId p, po_membershipId p)) (payouts s') =
       map (\<lambda>p. (po_id p, po_batchId p, po_membershipId p)) (payouts s)"
    using c by (simp_all add: closes_def map_updateWhere_id)
  have sets: "ba_id ` set (batches s') = ba_id ` set (batches s)" "po_id ` set (payouts s') = po_id ` set (payouts s)"
    "(\<lambda>p. (po_id p, po_batchId p, po_membershipId p)) ` set (payouts s') =
       (\<lambda>p. (po_id p, po_batchId p, po_membershipId p)) ` set (payouts s)"
    using maps [THEN arg_cong [where f = set]] by (simp_all only: set_map)
  have "settlementIds s'"
  proof -
    have "\<forall>x \<in> ba_id ` set (batches s'). \<forall>n \<ge> uuidNext s'. x \<noteq> uuidGen s' n"
      "\<forall>x \<in> po_id ` set (payouts s'). \<forall>n \<ge> uuidNext s'. x \<noteq> uuidGen s' n"
      using ids c unfolding sets by (auto simp: settlementIds_def closes_def)
    then show ?thesis using ids c maps by (simp add: settlementIds_def closes_def)
  qed
  moreover have "itemOk s' i" if i: "i \<in> set (batchItems s)" for i
  proof -
    obtain b' e p where w: "b' \<in> set (batches s)" "e \<in> set (ledger s)" "itemOf s b' i e"
      "p \<in> set (payouts s)" "po_id p = bi_payoutId i" "po_batchId p = Some (bi_batchId i)" "po_membershipId p = bi_membershipId i"
      using items [OF i] by (auto simp: itemOk_def)
    have "(bi_payoutId i, Some (bi_batchId i), bi_membershipId i) \<in> (\<lambda>p. (po_id p, po_batchId p, po_membershipId p)) ` set (payouts s')"
      unfolding sets using w(4-7) by force
    then show ?thesis
      using closes_itemOf [OF c w(3,1,2) i assms(4) d assms(3)] by (auto simp: itemOk_def)
  qed
  moreover have "payoutOk (batches s') (batchItems s) p'" if p': "p' \<in> set (payouts s')" for p'
  proof -
    let ?Q = "inFlightPayout (ba_id b) pays"
    obtain p where p: "p \<in> set (payouts s)" "p' = (if ?Q p then g p else p)"
      using p' c by (auto simp: closes_def set_updateWhere split: if_splits)
    have same: "po_id p' = po_id p" "po_batchId p' = po_batchId p" "po_totalCents p' = po_totalCents p" "po_tenantId p' = po_tenantId p"
      using p(2) c by (auto simp: closes_def)
    have "\<exists>x \<in> set (batches s'). ba_id x = bid \<and> po_status p' = batchPayoutStatus (ba_status x) \<and> po_tenantId p' = ba_tenantId x"
      if bid: "po_batchId p = Some bid" for bid
    proof -
      obtain x where x: "x \<in> set (batches s)" "ba_id x = bid" "po_status p = batchPayoutStatus (ba_status x)" "po_tenantId p = ba_tenantId x"
        using pays [OF p(1)] bid by (auto simp: payoutOk_def)
      let ?x = "if ba_id x = ba_id b then h x else x"
      have "?x \<in> set (batches s')" using c x(1) by (auto simp: closes_def set_updateWhere)
      moreover have "po_status p' = batchPayoutStatus (ba_status ?x)"
      proof (cases "bid = ba_id b")
        case True
        then have "x = b" using d x(1,2) assms(3) inj_onD [of ba_id "set (batches s)" x b] by (simp add: distinct_map)
        then have "po_status p = PoProcessing" using x(3) assms(4) by (cases "ba_status b") auto
        moreover have "po_id p \<in> set (map po_id pays)" using c p(1) bid True by (auto simp: closes_def)
        ultimately have "?Q p" using bid True by (simp add: inFlightPayout_def)
        then show ?thesis using p(2) c x(2) True by (simp add: closes_def)
      next
        case False
        then have "\<not> ?Q p" using bid by (simp add: inFlightPayout_def)
        then show ?thesis using p(2) x False by simp
      qed
      ultimately show ?thesis using x same(4) c by (auto simp: closes_def intro!: bexI [of _ ?x])
    qed
    moreover have "po_status p' = po_status p" if "po_batchId p = None" using that p(2) by (simp add: inFlightPayout_def)
    ultimately show ?thesis using pays [OF p(1)] same by (auto simp: payoutOk_def split: option.splits)
  qed
  moreover have "\<exists>p \<in> set (payouts s'). po_batchId p = Some (ba_id x)" if "x \<in> set (batches s')" for x
  proof -
    have "ba_id x \<in> ba_id ` set (batches s)" using sets(1) that by blast
    then obtain p where "p \<in> set (payouts s)" "po_batchId p = Some (ba_id x)" using ne by force
    then have "(po_id p, Some (ba_id x), po_membershipId p) \<in> (\<lambda>p. (po_id p, po_batchId p, po_membershipId p)) ` set (payouts s')"
      unfolding sets by force
    then show ?thesis by force
  qed
  moreover have "batchItems s' = batchItems s" using c by (simp add: closes_def)
  ultimately show ?thesis by (simp add: settlementOk_def settlementLinks_def)
qed

lemma settlementOk_summaries:
  assumes "settlementOk s" "ledger s' = ledger s" "sales s' = sales s" "batches s' = batches s" "payouts s' = payouts s"
    "batchItems s' = batchItems s" "uuidGen s' = uuidGen s" "uuidNext s' = uuidNext s"
  shows "settlementOk s'"
proof (rule settlementOk_keeps [OF assms(1,4,5,6,7)])
  have "ledgerKey s' = ledgerKey s" by (intro ledgerKey_frame saleBooking_frame assms(3))
  then show "\<exists>e' \<in> set (ledger s'). keepsRow s s' e e'" if "e \<in> set (ledger s)" for e
    using that assms(2) by (auto simp: keepsRow_def)
qed (use assms(8) in simp)

text \<open>Closing with its summary moves keeps the books.\<close>

lemma closes_books:
  assumes "closes s b st f g h pays s'" "books s" "b \<in> set (batches s)" "batchEntryStatus (ba_status b) = Some LeProcessing"
    and delta: "\<And>st' x. st' \<noteq> LeReversed \<Longrightarrow>
      statusPart st' (delta x) = statusGain LeProcessing (if st = BaSettled then LePaid else LePayable) st' * x"
  shows "books (moveBatchSummary (ba_tenantId b) delta (map fst (lockPayoutBatchItems s (ba_id b))) s')"
proof -
  note c = assms(1)
  let ?items = "lockPayoutBatchItems s (ba_id b)" let ?P = "inFlightRow (ba_id b) ?items"
  let ?m = "moveBatchSummary (ba_tenantId b) delta (map fst ?items) s'"
  have led: "ledger s' = updateWhere ?P f (ledger s)" "summaries s' = summaries s" "sales s' = sales s"
    and r: "restatus f (if st = BaSettled then LePaid else LePayable)" using c by (auto simp: closes_def)
  have sl: "settlementLinks s" "distinct (map le_id (ledger s))" "settlementOk s"
    using assms(2) by (auto simp: books_def settlementOk_def idsFresh_def)
  have fr: "ledger ?m = ledger s'" "sales ?m = sales s'" "batches ?m = batches s'" "payouts ?m = payouts s'"
    "batchItems ?m = batchItems s'" "uuidGen ?m = uuidGen s'" "uuidNext ?m = uuidNext s'"
    by (simp_all add: moveBatchSummary_def)
  have "disc st' ?m k = 0" if "st' \<noteq> LeReversed" for st' k
  proof -
    let ?g = "statusGain LeProcessing (if st = BaSettled then LePaid else LePayable) st'"
    let ?sum = "sumWhere (\<lambda>i. (ba_tenantId b, bi_membershipId i, bi_month i, bi_level i) = k) bi_amountCents (map fst ?items)"
    have "disc st' ?m k = disc st' s' k - ?g * ?sum"
      unfolding moveBatchSummary_def by (rule disc_applyBuckets [OF delta [OF that]])
    also have "disc st' s' k = disc st' s k + ?g * movedCents ?P s k"
      by (rule disc_restatus [OF r _ led]) (simp add: inFlightRow_def)
    also have "movedCents ?P s k = ?sum" by (rule moved_by_batch [OF sl(1,2) assms(3,4)])
    finally show ?thesis using assms(2) that by (simp add: books_def reconciled_disc del: split_paired_All)
  qed
  then have "reconciled ?m" by (simp add: reconciled_disc)
  moreover have "linked ?m"
  proof (rule linked_frame)
    show "linked s'" using linked_restatus [OF r _ led(1,3)] assms(2) by (simp add: books_def)
    show "saleBooking ?m = saleBooking s'" by (rule saleBooking_frame [OF fr(2)])
  qed (rule fr(1))
  moreover have "idsFresh ?m"
  proof -
    have "idsFresh s'" using idsFresh_restatus [OF r _ led(1,3)] assms(2) c by (simp add: books_def closes_def)
    then show ?thesis by (simp add: idsFresh_def fr)
  qed
  moreover have "settlementOk ?m"
    by (rule settlementOk_summaries [OF closes_settlementOk [OF c sl(3) assms(3,4)]]) (rule fr)+
  ultimately show ?thesis by (rule booksI)
qed

text \<open>Settling, failing, dispatching and rejecting, as transactions.\<close>

lemma books_fold: "(\<And>x s. books s \<Longrightarrow> books (g x s)) \<Longrightarrow> books s \<Longrightarrow> books (fold g xs s)"
  by (induction xs arbitrary: s) auto

lemma books_payoutSent: "books s \<Longrightarrow> books (payoutSent p b t ev x s)"
  unfolding payoutSent_def by (intro books_audit books_notification)

lemma tenantBatchD:
  assumes "tenantBatch s t i = Some b"
  shows "b \<in> set (batches s)" "ba_tenantId b = t" "ba_id b = i"
  using assms find_SomeD unfolding tenantBatch_def by fastforce+

lemma settle_closes:
  "closes s b BaSettled (\<lambda>e. e\<lparr>le_status := LePaid\<rparr>) (settlePayout E p r ev) (settleBatch E p r ev) (batchPayouts s (ba_id b))
     (s\<lparr>payouts := updateWhere (inFlightPayout (ba_id b) (batchPayouts s (ba_id b))) (settlePayout E p r ev) (payouts s),
        ledger := updateWhere (inFlightRow (ba_id b) (lockPayoutBatchItems s (ba_id b))) (\<lambda>e. e\<lparr>le_status := LePaid\<rparr>) (ledger s),
        batches := updateWhere (\<lambda>x. ba_id x = ba_id b) (settleBatch E p r ev) (batches s)\<rparr>)"
  by (auto simp: closes_def restatus_def settlePayout_def settleBatch_def batchPayouts_def)

lemma fail_closes:
  "closes s b BaFailed (\<lambda>e. e\<lparr>le_status := LePayable, le_payoutId := None, le_payoutBatchId := None\<rparr>) (failPayout E p r)
     (failBatch E p r) (findManyBy po_id (\<lambda>x. po_batchId x = Some (ba_id b)) (payouts s))
     (s\<lparr>ledger := updateWhere (inFlightRow (ba_id b) (lockPayoutBatchItems s (ba_id b)))
           (\<lambda>e. e\<lparr>le_status := LePayable, le_payoutId := None, le_payoutBatchId := None\<rparr>) (ledger s),
        payouts := updateWhere (inFlightPayout (ba_id b) (findManyBy po_id (\<lambda>x. po_batchId x = Some (ba_id b)) (payouts s)))
           (failPayout E p r) (payouts s),
        batches := updateWhere (\<lambda>x. ba_id x = ba_id b) (failBatch E p r) (batches s)\<rparr>)"
  by (auto simp: closes_def restatus_def failPayout_def failBatch_def)

lemma settleDelta_gain: "st \<noteq> LeReversed \<Longrightarrow> statusPart st (settleDelta x) = statusGain LeProcessing LePaid st * x"
  by (cases st) (auto simp: settleDelta_def noDelta_def statusGain_def)

lemma failDelta_gain: "st \<noteq> LeReversed \<Longrightarrow> statusPart st (failDelta x) = statusGain LeProcessing LePayable st * x"
  by (cases st) (auto simp: failDelta_def noDelta_def statusGain_def)

lemma reserveDelta_gain: "st \<noteq> LeReversed \<Longrightarrow> statusPart st (reserveDelta x) = statusGain LePayable LeProcessing st * x"
  by (cases st) (auto simp: reserveDelta_def noDelta_def statusGain_def)

lemma settlePayoutBatchTx_books:
  assumes "books s" "settlePayoutBatchTx E p r ev s = Inr (out, s')"
  shows "books s'"
proof -
  obtain b where b: "tenantBatch s (tp_tenantId p) (tp_batchId p) = Some b"
    using assms(2) by (auto simp: settlePayoutBatchTx_def)
  note t = tenantBatchD [OF b]
  show ?thesis
  proof (cases "ba_status b = BaSettled")
    case True
    then show ?thesis using assms b by (simp add: settlePayoutBatchTx_def)
  next
    case False
    then have st: "ba_status b = BaDispatched" using assms(2) b by (simp add: settlePayoutBatchTx_def Let_def)
    have bk: "books (moveBatchSummary (tp_tenantId p) settleDelta (map fst (lockPayoutBatchItems s (ba_id b)))
       (s\<lparr>payouts := updateWhere (inFlightPayout (ba_id b) (batchPayouts s (ba_id b))) (settlePayout E p r ev) (payouts s),
        ledger := updateWhere (inFlightRow (ba_id b) (lockPayoutBatchItems s (ba_id b))) (\<lambda>e. e\<lparr>le_status := LePaid\<rparr>) (ledger s),
        batches := updateWhere (\<lambda>x. ba_id x = ba_id b) (settleBatch E p r ev) (batches s)\<rparr>))"
      using closes_books [OF settle_closes assms(1) t(1), of settleDelta E p r ev] st t(2) by (simp add: settleDelta_gain)
    show ?thesis
      using assms(2) b st unfolding settlePayoutBatchTx_def Let_def
      by (auto intro!: books_audit books_fold books_payoutSent bk)
  qed
qed

lemma failPayoutBatchTx_books:
  assumes "books s" "failPayoutBatchTx E p r s = Inr (out, s')"
  shows "books s'"
proof -
  obtain b where b: "tenantBatch s (fp_tenantId p) (fp_batchId p) = Some b"
    using assms(2) by (auto simp: failPayoutBatchTx_def)
  note t = tenantBatchD [OF b]
  show ?thesis
  proof (cases "ba_status b = BaFailed")
    case True
    then show ?thesis using assms b by (simp add: failPayoutBatchTx_def)
  next
    case False
    then have st: "ba_status b = BaProcessing" using assms(2) b by (simp add: failPayoutBatchTx_def Let_def)
    note bk = closes_books [OF fail_closes assms(1) t(1), of failDelta E p r]
    show ?thesis
      using assms(2) b st bk t(2) unfolding failPayoutBatchTx_def Let_def
      by (auto intro!: books_audit books_fold simp: failDelta_gain)
  qed
qed

text \<open>Writes of a batch or of a payout that keep what the links read.\<close>

lemma books_updateBatch:
  assumes "books s" "\<And>b. P b \<Longrightarrow> ba_id (h b) = ba_id b \<and> ba_tenantId (h b) = ba_tenantId b \<and>
     batchEntryStatus (ba_status (h b)) = batchEntryStatus (ba_status b) \<and>
     batchPayoutStatus (ba_status (h b)) = batchPayoutStatus (ba_status b)"
  shows "books (s\<lparr>batches := updateWhere P h (batches s)\<rparr>)"
proof -
  let ?s = "s\<lparr>batches := updateWhere P h (batches s)\<rparr>"
  have bk: "reconciled s" "linked s" "idsFresh s" "settlementOk s" using assms(1) by (simp_all add: books_def)
  have sb: "saleBooking ?s = saleBooking s" by (rule saleBooking_frame) simp
  have key: "ledgerKey ?s = ledgerKey s" by (rule ledgerKey_frame [OF sb])
  have w: "\<exists>x \<in> set (updateWhere P h (batches s)). ba_id x = ba_id b \<and> ba_tenantId x = ba_tenantId b \<and>
     batchEntryStatus (ba_status x) = batchEntryStatus (ba_status b) \<and>
     batchPayoutStatus (ba_status x) = batchPayoutStatus (ba_status b)" if "b \<in> set (batches s)" for b
    using that assms(2) [of b] by (cases "P b") (auto simp: set_updateWhere image_iff intro: bexI [of _ b])
  have ids: "map ba_id (updateWhere P h (batches s)) = map ba_id (batches s)" using assms(2) by (intro map_updateWhere_id) simp
  then have idset: "ba_id ` set (updateWhere P h (batches s)) = ba_id ` set (batches s)" by (metis set_map)
  have "settlementIds ?s"
  proof -
    have "\<forall>x \<in> ba_id ` set (updateWhere P h (batches s)). \<forall>n \<ge> uuidNext s. x \<noteq> uuidGen s n"
      unfolding idset using bk(4) by (auto simp: settlementOk_def settlementLinks_def settlementIds_def)
    then show ?thesis using bk(4) ids by (simp add: settlementOk_def settlementLinks_def settlementIds_def)
  qed
  moreover have "itemOk ?s i" if it: "itemOk s i" for i
  proof -
    obtain b e where be: "b \<in> set (batches s)" "e \<in> set (ledger s)" "itemOf s b i e" using it by (auto simp: itemOk_def)
    obtain x where x: "x \<in> set (updateWhere P h (batches s))" "ba_id x = ba_id b" "ba_tenantId x = ba_tenantId b"
      "batchEntryStatus (ba_status x) = batchEntryStatus (ba_status b)" using w [OF be(1)] by blast
    then have "itemOf ?s x i e" using be(3) key by (simp add: itemOf_def ownedBy_def split: option.splits)
    with x(1) have "\<exists>x \<in> set (updateWhere P h (batches s)). itemOf ?s x i e" by blast
    then show ?thesis using be(2) it by (auto simp: itemOk_def)
  qed
  moreover have "payoutOk (updateWhere P h (batches s)) is p" if "payoutOk (batches s) is p" for "is" p
    using that w by (fastforce simp: payoutOk_def split: option.splits)
  moreover have "\<exists>p \<in> set (payouts s). po_batchId p = Some (ba_id x)" if "x \<in> set (updateWhere P h (batches s))" for x
  proof -
    have "ba_id x \<in> ba_id ` set (batches s)" using idset that by blast
    then show ?thesis using bk(4) by (auto simp: settlementOk_def)
  qed
  ultimately have "settlementOk ?s" using bk(4) by (simp add: settlementOk_def settlementLinks_def)
  moreover have "idsFresh ?s" using bk(3) by (simp add: idsFresh_def)
  ultimately show ?thesis
    using reconciled_frame [OF bk(1) _ _ sb] linked_frame [OF bk(2) _ sb] by (intro booksI) simp_all
qed

lemma dispatchPayoutBatchTx_books:
  assumes "books s" "dispatchPayoutBatchTx E p r ev s = Inr (out, s')"
  shows "books s'"
proof -
  obtain b where b: "tenantBatch s (dp_tenantId p) (dp_batchId p) = Some b"
    using assms(2) by (auto simp: dispatchPayoutBatchTx_def)
  show ?thesis
  proof (cases "ba_status b = BaDispatched \<or> ba_status b = BaSettled \<and> ba_dispatchedAt b \<noteq> None")
    case True
    then show ?thesis using assms b by (simp add: dispatchPayoutBatchTx_def)
  next
    case False
    note bk = books_updateBatch [OF assms(1)]
    show ?thesis
      using assms(2) unfolding dispatchPayoutBatchTx_def Let_def b from_option_simps andThen.simps if_not_P [OF False] andThen_Inr_iff ex_unit
      by (elim exE conjE) (auto intro!: books_audit books_fold bk)
  qed
qed

lemma books_updatePayout:
  assumes "books s" "\<And>x. x \<in> set (payouts s) \<Longrightarrow> P x \<Longrightarrow> po_id (g x) = po_id x \<and>
     po_membershipId (g x) = po_membershipId x \<and> po_batchId x = None \<and> po_batchId (g x) = None \<and>
     (po_status (g x) = PoRequested \<or> po_status (g x) = PoRejected)"
  shows "books (s\<lparr>payouts := updateWhere P g (payouts s)\<rparr>)"
proof -
  let ?s = "s\<lparr>payouts := updateWhere P g (payouts s)\<rparr>"
  have bk: "reconciled s" "linked s" "idsFresh s" "settlementOk s" using assms(1) by (simp_all add: books_def)
  have sb: "saleBooking ?s = saleBooking s" by (rule saleBooking_frame) simp
  have key: "ledgerKey ?s = ledgerKey s" by (rule ledgerKey_frame [OF sb])
  have m: "map f (updateWhere P g (payouts s)) = map f (payouts s)"
    if "\<And>x. x \<in> set (payouts s) \<Longrightarrow> P x \<Longrightarrow> f (g x) = f x" for f :: "payout \<Rightarrow> 'z"
    using that by (simp add: updateWhere_def)
  have ids: "map po_id (updateWhere P g (payouts s)) = map po_id (payouts s)" using assms(2) by (intro m) simp
  let ?k = "\<lambda>p. (po_id p, po_batchId p, po_membershipId p)"
  have two: "map ?k (updateWhere P g (payouts s)) = map ?k (payouts s)"
    using assms(2) by (intro m) simp
  have idset: "po_id ` set (updateWhere P g (payouts s)) = po_id ` set (payouts s)" using ids by (metis set_map)
  have twoset: "?k ` set (updateWhere P g (payouts s)) = ?k ` set (payouts s)"
    using arg_cong [OF two, of set] by (simp only: set_map)
  have ex: "(\<exists>p \<in> set (updateWhere P g (payouts s)). po_id p = i \<and> po_batchId p = b \<and> po_membershipId p = m) \<longleftrightarrow>
     (\<exists>p \<in> set (payouts s). po_id p = i \<and> po_batchId p = b \<and> po_membershipId p = m)" for i b m
  proof -
    have "(\<exists>p \<in> set ps. po_id p = i \<and> po_batchId p = b \<and> po_membershipId p = m) \<longleftrightarrow> (i, b, m) \<in> ?k ` set ps" for ps :: "payout list"
      by force
    then show ?thesis using twoset by simp
  qed
  have "settlementIds ?s"
  proof -
    have "\<forall>x \<in> po_id ` set (updateWhere P g (payouts s)). \<forall>n \<ge> uuidNext s. x \<noteq> uuidGen s n"
      unfolding idset using bk(4) by (auto simp: settlementOk_def settlementLinks_def settlementIds_def)
    then show ?thesis using bk(4) ids by (simp add: settlementOk_def settlementLinks_def settlementIds_def)
  qed
  moreover have "itemOk ?s i" if "itemOk s i" for i
    using that key ex by (simp add: itemOk_def itemOf_def)
  moreover have "payoutOk (batches s) (batchItems s) p" if p: "p \<in> set (updateWhere P g (payouts s))" for p
  proof -
    obtain q where q: "q \<in> set (payouts s)" "p = (if P q then g q else q)" using p by (auto simp: set_updateWhere)
    moreover have "payoutOk (batches s) (batchItems s) q" using bk(4) q(1) by (simp add: settlementOk_def settlementLinks_def)
    ultimately show ?thesis using assms(2) [OF q(1)] by (cases "P q") (auto simp: payoutOk_def)
  qed
  moreover have "\<exists>p \<in> set (updateWhere P g (payouts s)). po_batchId p = Some (ba_id x)" if "x \<in> set (batches s)" for x
    using ex [of _ "Some (ba_id x)"] bk(4) that unfolding settlementOk_def by metis
  ultimately have "settlementOk ?s" using bk(4) by (simp add: settlementOk_def settlementLinks_def)
  moreover have "idsFresh ?s" using bk(3) by (simp add: idsFresh_def)
  ultimately show ?thesis
    using reconciled_frame [OF bk(1) _ _ sb] linked_frame [OF bk(2) _ sb] by (intro booksI) simp_all
qed

lemma requested_free:
  assumes "books s" "x \<in> set (payouts s)" "po_status x = PoRequested"
  shows "po_batchId x = None"
proof (cases "po_batchId x")
  case (Some bid)
  moreover have "payoutOk (batches s) (batchItems s) x"
    using assms(1,2) by (simp add: books_def settlementOk_def settlementLinks_def)
  ultimately have "po_status x \<in> range batchPayoutStatus" by (auto simp: payoutOk_def)
  then obtain st where "po_status x = batchPayoutStatus st" by blast
  then show ?thesis using assms(3) by (cases st) auto
qed

lemma rejectPayoutRequestTx_books:
  assumes "books s" "rejectPayoutRequestTx E p r s = Inr (out, s')"
  shows "books s'"
proof -
  obtain row where row: "find (\<lambda>x. po_id x = xp_payoutId p \<and> po_tenantId x = xp_tenantId p) (payouts s) = Some row" "po_status row = PoRequested"
    using assms(2) by (auto simp: rejectPayoutRequestTx_def)
  have mem: "row \<in> set (payouts s)" using find_SomeD [OF row(1)] by simp
  have "distinct (map po_id (payouts s))"
    using assms(1) by (simp add: books_def settlementOk_def settlementLinks_def settlementIds_def)
  then have "x = row" if "x \<in> set (payouts s)" "po_id x = po_id row" for x
    using that mem inj_onD [of po_id "set (payouts s)" x row] by (simp add: distinct_map)
  then have bk: "books (s\<lparr>payouts := updateWhere (\<lambda>x. po_id x = po_id row) (rejectPayout E p r) (payouts s)\<rparr>)"
    using requested_free [OF assms(1) mem row(2)] by (intro books_updatePayout [OF assms(1)]) (auto simp: rejectPayout_def)
  show ?thesis using assms(2) row by (auto simp: rejectPayoutRequestTx_def intro!: books_audit bk)
qed

end
