(* ===== verification/Payout_Reserve.thy ===== *)
theory Payout_Reserve
  imports Payout_Books
begin

text \<open>
  Reserving keeps the books.  The loop over the reservations carries the settlement links, the
  identity of rows and the exact amount by which the summaries lag behind the ledger; the bucketed
  moves after the loop bring that amount back to zero.
\<close>

section \<open>What a reservation brings into the loop\<close>

definition readyFor :: "uuid \<Rightarrow> db \<Rightarrow> payout_reservation \<Rightarrow> bool" where
  "readyFor tid s r \<longleftrightarrow> distinct (map pr_id (rv_rows r)) \<and> rv_amountCents r = sum_list (map pr_amountCents (rv_rows r)) \<and>
     0 < rv_amountCents r \<and>
     (\<forall>x \<in> set (rv_rows r). \<forall>e \<in> set (ledger s). le_id e = pr_id x \<longrightarrow>
        le_amountCents e = pr_amountCents x \<and> ledgerKey s e = Some (tid, rv_membershipId r, rowMonth x, pr_level x)) \<and>
     (\<forall>pid. rv_requestedPayoutId r = Some pid \<longrightarrow>
        (\<exists>x \<in> set (payouts s). po_id x = pid \<and> po_membershipId x = rv_membershipId r \<and> po_tenantId x = tid \<and> po_batchId x = None))"

text \<open>The payout a reservation writes, as the set of payouts after the write.\<close>

definition payoutWritten :: "db \<Rightarrow> uuid \<Rightarrow> uuid \<Rightarrow> payout_reservation \<Rightarrow> uuid \<Rightarrow> payout \<Rightarrow> db \<Rightarrow> bool" where
  "payoutWritten s tid bid r pid row s' \<longleftrightarrow>
     set (payouts s') = insert row {x \<in> set (payouts s). po_id x \<noteq> pid} \<and> distinct (map po_id (payouts s')) \<and>
     po_id row = pid \<and> po_batchId row = Some bid \<and> po_status row = PoProcessing \<and> po_tenantId row = tid \<and>
     po_totalCents row = rv_amountCents r \<and> po_membershipId row = rv_membershipId r \<and>
     (\<forall>x \<in> set (payouts s). po_id x = pid \<longrightarrow> po_batchId x = None \<and> po_membershipId x = rv_membershipId r) \<and>
     (\<forall>n \<ge> uuidNext s'. pid \<noteq> uuidGen s n) \<and> uuidNext s \<le> uuidNext s'"

lemma set_updateWhere_key:
  assumes "distinct (map h xs)" "y \<in> set xs" "h y = k"
  shows "set (updateWhere (\<lambda>x. h x = k) f xs) = insert (f y) {x \<in> set xs. h x \<noteq> k}"
proof -
  have "x = y" if "x \<in> set xs" "h x = k" for x
    using inj_onD [of h "set xs" x y] that assms by (simp add: distinct_map)
  then have eq: "set xs = insert y {x \<in> set xs. h x \<noteq> k}" using assms(2) by blast
  have "(\<lambda>x. if h x = k then f x else x) ` insert y {x \<in> set xs. h x \<noteq> k} = insert (f y) {x \<in> set xs. h x \<noteq> k}"
    using assms(3) by auto
  then show ?thesis unfolding set_updateWhere using eq by metis
qed

lemma writePayout_spec:
  assumes "settlementIds s" "inj (uuidGen s)" "readyFor (rp_tenantId p) s r" "writePayout E p bid r s = Inr (pid, s')"
  shows "\<exists>row. payoutWritten s (rp_tenantId p) bid r pid row s'"
    and "ledger s' = ledger s" "batches s' = batches s" "batchItems s' = batchItems s" "sales s' = sales s"
      "summaries s' = summaries s" "uuidGen s' = uuidGen s"
proof -
  have d: "distinct (map po_id (payouts s))" and past: "\<And>x n. x \<in> set (payouts s) \<Longrightarrow> n \<ge> uuidNext s \<Longrightarrow> po_id x \<noteq> uuidGen s n"
    using assms(1) by (auto simp: settlementIds_def)
  have "(\<exists>row. payoutWritten s (rp_tenantId p) bid r pid row s') \<and> ledger s' = ledger s \<and> batches s' = batches s \<and>
     batchItems s' = batchItems s \<and> sales s' = sales s \<and> summaries s' = summaries s \<and> uuidGen s' = uuidGen s"
  proof (cases "rv_requestedPayoutId r")
    case (Some q)
    obtain old where old: "find (\<lambda>x. po_id x = q) (payouts s) = Some old" and q: "pid = q"
      "s' = s\<lparr>payouts := updateWhere (\<lambda>x. po_id x = q) (startProcessing E p bid r) (payouts s)\<rparr>"
      using assms(4) Some by (auto simp: writePayout_def Let_def)
    have om: "old \<in> set (payouts s)" "po_id old = q" using find_SomeD [OF old] by simp_all
    obtain x where x: "x \<in> set (payouts s)" "po_id x = q" "po_membershipId x = rv_membershipId r"
      "po_tenantId x = rp_tenantId p" "po_batchId x = None"
      using assms(3) Some by (auto simp: readyFor_def)
    have same: "y = old" if "y \<in> set (payouts s)" "po_id y = q" for y
      using inj_onD [of po_id "set (payouts s)" y old] that om d by (simp add: distinct_map)
    have "map po_id (payouts s') = map po_id (payouts s)" unfolding q(2) by (simp add: map_updateWhere_id startProcessing_def)
    moreover have "set (payouts s') = insert (startProcessing E p bid r old) {x \<in> set (payouts s). po_id x \<noteq> q}"
      unfolding q(2) using set_updateWhere_key [OF d om] by simp
    moreover have "x = old" by (rule same [OF x(1,2)])
    moreover have "\<forall>y \<in> set (payouts s). po_id y = q \<longrightarrow> po_batchId y = None \<and> po_membershipId y = rv_membershipId r"
      using same x \<open>x = old\<close> by metis
    moreover have "\<forall>n \<ge> uuidNext s. q \<noteq> uuidGen s n" using past [OF om(1)] om(2) by simp
    ultimately have "payoutWritten s (rp_tenantId p) bid r pid (startProcessing E p bid r old) s'"
      using q x(2-4) d unfolding payoutWritten_def by (simp add: startProcessing_def)
    then show ?thesis using q(2) by auto
  next
    case None
    let ?row = "startProcessing E p bid r (newPayout (freshId s) (rp_tenantId p) (rv_membershipId r) (rp_period p) (env_now E))"
    have q: "pid = freshId s" "s' = (drawId s)\<lparr>payouts := payouts s @ [?row]\<rparr>"
      using assms(4) None by (auto simp: writePayout_def Let_def)
    have new: "po_id x \<noteq> pid" if "x \<in> set (payouts s)" for x using past [OF that order_refl] q by (simp add: freshId_def)
    have "freshId s \<noteq> uuidGen s n" if "Suc (uuidNext s) \<le> n" for n
      using injD [OF assms(2), of "uuidNext s" n] that by (auto simp: freshId_def)
    moreover have "po_id ?row = pid" using q by (simp add: startProcessing_def newPayout_def)
    moreover have "{x \<in> set (payouts s). po_id x \<noteq> pid} = set (payouts s)" "pid \<notin> po_id ` set (payouts s)" using new by blast+
    ultimately have "payoutWritten s (rp_tenantId p) bid r pid ?row s'"
      using q(1) d new unfolding payoutWritten_def q(2) by (simp add: startProcessing_def newPayout_def drawId_def)
    then show ?thesis using q by (auto simp: drawId_def)
  qed
  then show "\<exists>row. payoutWritten s (rp_tenantId p) bid r pid row s'"
    "ledger s' = ledger s" "batches s' = batches s" "batchItems s' = batchItems s" "sales s' = sales s"
    "summaries s' = summaries s" "uuidGen s' = uuidGen s" by blast+
qed

text \<open>The count guard of the claim means that every row named is claimed.\<close>

lemma claim_all:
  assumes "distinct (map le_id led)" "distinct (map pr_id rows)" "countWhere (claimable rows) led = length rows" "x \<in> set rows"
  shows "\<exists>e \<in> set led. claimable rows e \<and> le_id e = pr_id x"
proof -
  let ?C = "filter (claimable rows) led"
  have "distinct (map le_id ?C)" using assms(1) by (simp add: distinct_map_filter)
  then have "card (le_id ` set ?C) = length ?C" using distinct_card [of "map le_id ?C"] by simp
  moreover have "card (pr_id ` set rows) = length rows" using distinct_card [of "map pr_id rows"] assms(2) by simp
  moreover have "le_id ` set ?C \<subseteq> pr_id ` set rows" by (auto simp: claimable_def)
  ultimately have "le_id ` set ?C = pr_id ` set rows"
    using assms(3) by (intro card_subset_eq) (simp_all add: countWhere_def)
  then have "pr_id x \<in> le_id ` set ?C" using assms(4) by simp
  then show ?thesis by auto
qed

lemma claimed_cents:
  assumes "distinct (map le_id (ledger s))" "readyFor tid s r" "countWhere (claimable (rv_rows r)) (ledger s) = length (rv_rows r)"
  shows "movedCents (claimable (rv_rows r)) s k =
    sumWhere (\<lambda>x. (tid, rv_membershipId r, rowMonth x, pr_level x) = k) pr_amountCents (rv_rows r)"
proof -
  let ?rows = "rv_rows r"
  let ?F = "\<lambda>e. if ledgerKey s e = Some k then le_amountCents e else 0"
  let ?G = "\<lambda>x. if (tid, rv_membershipId r, rowMonth x, pr_level x) = k then pr_amountCents x else 0"
  have d: "distinct (map pr_id ?rows)" using assms(2) by (simp add: readyFor_def)
  note all = claim_all [OF assms(1) d assms(3)]
  have iff: "claimable ?rows e \<longleftrightarrow> le_id e \<in> pr_id ` set ?rows" if e: "e \<in> set (ledger s)" for e
  proof
    assume "le_id e \<in> pr_id ` set ?rows"
    then obtain x where "x \<in> set ?rows" "le_id e = pr_id x" by blast
    then obtain y where "y \<in> set (ledger s)" "claimable ?rows y" "le_id y = le_id e" using all by metis
    moreover from this have "y = e" using inj_onD [of le_id "set (ledger s)" y e] e assms(1) by (simp add: distinct_map)
    ultimately show "claimable ?rows e" by simp
  qed (simp add: claimable_def)
  have "movedCents (claimable ?rows) s k = sum_list (map ?F (filter (\<lambda>e. le_id e \<in> pr_id ` set ?rows) (ledger s)))"
    unfolding movedCents_def sumWhere_and using iff
    by (intro arg_cong [where f = "\<lambda>xs. sum_list (map _ xs)"] filter_cong) auto
  also have "\<dots> = sum_list (map ?G ?rows)"
  proof (rule sum_list_join [OF d assms(1)])
    fix x assume x: "x \<in> set ?rows"
    then obtain e where "e \<in> set (ledger s)" "le_id e = pr_id x" using all by blast
    moreover from this have "?F e = ?G x" using assms(2) x by (simp add: readyFor_def)
    ultimately show "\<exists>e \<in> set (ledger s). le_id e = pr_id x \<and> ?F e = ?G x" by blast
  qed
  finally show ?thesis unfolding sumWhere_if .
qed

section \<open>One round of the loop\<close>

text \<open>The state after the writes of one reservation, before its audit row.\<close>

definition roundDone :: "env \<Rightarrow> uuid \<Rightarrow> uuid \<Rightarrow> payout_reservation \<Rightarrow> uuid \<Rightarrow> payout \<Rightarrow> db \<Rightarrow> db \<Rightarrow> bool" where
  "roundDone E tid bid r pid row s s' \<longleftrightarrow> payoutWritten s tid bid r pid row s' \<and>
     countWhere (claimable (rv_rows r)) (ledger s) = length (rv_rows r) \<and>
     ledger s' = updateWhere (claimable (rv_rows r))
       (\<lambda>e. e\<lparr>le_status := LeProcessing, le_payoutId := Some pid, le_payoutBatchId := Some bid\<rparr>) (ledger s) \<and>
     batchItems s' = batchItems s @ map (itemFor E bid pid r) (rv_rows r) \<and>
     distinct (map (\<lambda>i. (bi_batchId i, bi_ledgerEntryId i)) (batchItems s')) \<and>
     batches s' = batches s \<and> sales s' = sales s \<and> summaries s' = summaries s \<and> uuidGen s' = uuidGen s"

lemma reserveOne_round:
  assumes "settlementIds s" "inj (uuidGen s)" "readyFor (rp_tenantId p) s r" "reserveOne E p bid r (s, ps) = Inr (s', ps')"
  shows "\<exists>pid row. roundDone E (rp_tenantId p) bid r pid row s s'"
proof -
  obtain pid s1 where w: "writePayout E p bid r s = Inr (pid, s1)"
    and c: "countWhere (claimable (rv_rows r)) (ledger s1) = length (rv_rows r)"
    and i: "distinct (map (\<lambda>i. (bi_batchId i, bi_ledgerEntryId i)) (batchItems s1 @ map (itemFor E bid pid r) (rv_rows r)))"
    and s': "s' = audit (rp_tenantId p) (rp_actorUserId p) ''payout.processing_started'' pid (JObj [])
            (JObj [(''batchId'', JId bid), (''totalCents'', JStr (show_int (rv_amountCents r))),
                   (''entryCount'', JNum (int (length (rv_rows r))))]) (s1\<lparr>ledger := updateWhere (claimable (rv_rows r))
       (\<lambda>e. e\<lparr>le_status := LeProcessing, le_payoutId := Some pid, le_payoutBatchId := Some bid\<rparr>) (ledger s1),
       batchItems := batchItems s1 @ map (itemFor E bid pid r) (rv_rows r)\<rparr>)"
    using assms(4) by (auto simp: reserveOne_def claimRows_def createItems_def)
  note sp = writePayout_spec [OF assms(1-3) w]
  obtain row where row: "payoutWritten s (rp_tenantId p) bid r pid row s1" using sp(1) by blast
  then have "roundDone E (rp_tenantId p) bid r pid row s s'"
    using c i s' sp(2-) by (auto simp: roundDone_def payoutWritten_def)
  then show ?thesis by blast
qed

definition sound :: "db \<Rightarrow> bool" where
  "sound s \<longleftrightarrow> settlementLinks s \<and> linked s \<and> idsFresh s"

lemma round_restatus:
  "restatus (\<lambda>e. e\<lparr>le_status := LeProcessing, le_payoutId := Some pid, le_payoutBatchId := Some bid\<rparr>) LeProcessing"
  by (simp add: restatus_def)

lemma round_links:
  assumes "roundDone E tid bid r pid row s s'" "sound s" "readyFor tid s r"
    and b: "b \<in> set (batches s)" "ba_id b = bid" "ba_status b = BaProcessing" "ba_tenantId b = tid"
  shows "settlementLinks s'"
proof -
  note rd = assms(1)
  have w: "payoutWritten s tid bid r pid row s'" using rd by (simp add: roundDone_def)
  let ?f = "\<lambda>e. e\<lparr>le_status := LeProcessing, le_payoutId := Some pid, le_payoutBatchId := Some bid\<rparr>"
  let ?C = "claimable (rv_rows r)"
  have led: "ledger s' = updateWhere ?C ?f (ledger s)" and fr: "batches s' = batches s" "uuidGen s' = uuidGen s"
    and its: "batchItems s' = batchItems s @ map (itemFor E bid pid r) (rv_rows r)" and sal: "sales s' = sales s"
    using rd by (auto simp: roundDone_def)
  have key: "ledgerKey s' = ledgerKey s" by (intro ledgerKey_frame saleBooking_frame sal)
  have fkey: "ledgerKey s (?f e) = ledgerKey s e" for e by (rule restatus_ledgerKey [OF round_restatus])
  have sl: "settlementLinks s" and ids: "settlementIds s" and dl: "distinct (map le_id (ledger s))"
    using assms(2) by (auto simp: sound_def settlementLinks_def idsFresh_def)
  have keeps: "\<exists>e' \<in> set (ledger s'). keepsRow s s' e e'" if "e \<in> set (ledger s)" for e
  proof -
    have "keepsRow s s' e (if ?C e then ?f e else e)" using fkey key by (auto simp: keepsRow_def claimable_def)
    moreover have "(if ?C e then ?f e else e) \<in> set (ledger s')" unfolding led set_updateWhere using that by blast
    ultimately show ?thesis by blast
  qed
  have pkeep: "x \<in> set (payouts s')" if "x \<in> set (payouts s)" "po_batchId x = Some bb" for x bb
    using that w by (auto simp: payoutWritten_def)
  have "settlementIds s'"
  proof -
    have di: "distinct (map (\<lambda>i. (bi_batchId i, bi_ledgerEntryId i)) (batchItems s'))" using rd unfolding roundDone_def by blast
    have next_le: "uuidNext s \<le> uuidNext s'" using w by (simp add: payoutWritten_def)
    have "\<forall>x \<in> set (payouts s'). \<forall>n \<ge> uuidNext s'. po_id x \<noteq> uuidGen s n"
      using w ids by (auto simp: settlementIds_def payoutWritten_def)
    moreover have "\<forall>x \<in> set (batches s). \<forall>n \<ge> uuidNext s'. ba_id x \<noteq> uuidGen s n"
      using ids next_le by (simp add: settlementIds_def)
    moreover have "distinct (map ba_id (batches s))" "distinct (map po_id (payouts s'))"
      using ids w by (simp_all add: settlementIds_def payoutWritten_def)
    ultimately show ?thesis using di unfolding settlementIds_def fr by blast
  qed
  moreover have old: "itemOk s' i" if i: "i \<in> set (batchItems s)" for i
  proof -
    have ok: "itemOk s i" using sl i by (simp add: settlementLinks_def)
    obtain b' e where be: "b' \<in> set (batches s')" "e \<in> set (ledger s)" "itemOf s b' i e" using ok fr by (auto simp: itemOk_def)
    obtain e' where "e' \<in> set (ledger s')" "keepsRow s s' e e'" using keeps [OF be(2)] by blast
    then have "\<exists>b \<in> set (batches s'). \<exists>e \<in> set (ledger s'). itemOf s' b i e" using be itemOf_keepsRow by blast
    moreover have "\<exists>p \<in> set (payouts s'). po_id p = bi_payoutId i \<and> po_batchId p = Some (bi_batchId i) \<and> po_membershipId p = bi_membershipId i"
      using ok pkeep unfolding itemOk_def by blast
    ultimately show ?thesis by (simp add: itemOk_def)
  qed
  moreover have "itemOk s' (itemFor E bid pid r x)" if x: "x \<in> set (rv_rows r)" for x
  proof -
    have "distinct (map pr_id (rv_rows r))" using assms(3) by (simp add: readyFor_def)
    then obtain e where e: "e \<in> set (ledger s)" "?C e" "le_id e = pr_id x"
      using claim_all [OF dl _ _ x] rd by (auto simp: roundDone_def)
    have "?f e \<in> set (ledger s')" unfolding led set_updateWhere using e by force
    moreover have "le_amountCents e = pr_amountCents x" "ledgerKey s e = Some (tid, rv_membershipId r, rowMonth x, pr_level x)"
      using assms(3) x e by (auto simp: readyFor_def)
    then have "itemOf s' b (itemFor E bid pid r x) (?f e)"
      using key fkey [of e] e(3) b by (simp add: itemOf_def ownedBy_def itemFor_def)
    moreover have "row \<in> set (payouts s')" "po_id row = pid" "po_batchId row = Some bid" "po_membershipId row = rv_membershipId r"
      using w by (auto simp: payoutWritten_def)
    ultimately show ?thesis using b(1) fr(1) by (auto simp: itemOk_def itemFor_def)
  qed
  moreover have "payoutOk (batches s') (batchItems s') x" if x: "x \<in> set (payouts s')" for x
  proof (cases "x = row")
    case True
    have none: "\<not> (bi_batchId i = bid \<and> bi_payoutId i = pid)" if i: "i \<in> set (batchItems s)" for i
    proof
      assume a: "bi_batchId i = bid \<and> bi_payoutId i = pid"
      then obtain q where "q \<in> set (payouts s)" "po_id q = pid" "po_batchId q = Some bid"
        using sl i by (auto simp: settlementLinks_def itemOk_def)
      then show False using w by (auto simp: payoutWritten_def)
    qed
    have "sumWhere (\<lambda>i. bi_batchId i = bid \<and> bi_payoutId i = pid) bi_amountCents (batchItems s') = rv_amountCents r"
    proof -
      have "sumWhere (\<lambda>i. bi_batchId i = bid \<and> bi_payoutId i = pid) bi_amountCents (batchItems s) = 0"
        by (rule sumWhere_zero) (use none in blast)
      moreover have "sumWhere (\<lambda>i. bi_batchId i = bid \<and> bi_payoutId i = pid) bi_amountCents (map (itemFor E bid pid r) (rv_rows r)) =
         sum_list (map pr_amountCents (rv_rows r))"
        by (simp add: sumWhere_map itemFor_def sumWhere_True)
      ultimately show ?thesis using assms(3) its by (simp add: readyFor_def)
    qed
    then show ?thesis using True w b fr assms(3) by (auto simp: payoutOk_def payoutWritten_def readyFor_def intro!: bexI [of _ b])
  next
    case False
    then have xs: "x \<in> set (payouts s)" "po_id x \<noteq> pid" using x w by (auto simp: payoutWritten_def)
    have "sumWhere (\<lambda>i. bi_batchId i = bb \<and> bi_payoutId i = po_id x) bi_amountCents (map (itemFor E bid pid r) (rv_rows r)) = 0" for bb
      by (rule sumWhere_zero) (use xs(2) in \<open>auto simp: itemFor_def\<close>)
    moreover have "payoutOk (batches s) (batchItems s) x" using sl xs(1) by (simp add: settlementLinks_def)
    ultimately show ?thesis using fr its by (simp add: payoutOk_def split: option.splits)
  qed
  ultimately show ?thesis using its by (auto simp: settlementLinks_def)
qed

lemma round_sound:
  assumes "roundDone E tid bid r pid row s s'" "sound s" "readyFor tid s r"
    "b \<in> set (batches s)" "ba_id b = bid" "ba_status b = BaProcessing" "ba_tenantId b = tid"
  shows "sound s'"
proof -
  have led: "ledger s' = updateWhere (claimable (rv_rows r)) (\<lambda>e. e\<lparr>le_status := LeProcessing, le_payoutId := Some pid, le_payoutBatchId := Some bid\<rparr>) (ledger s)"
    "sales s' = sales s" "uuidGen s' = uuidGen s" "uuidNext s \<le> uuidNext s'"
    using assms(1) by (auto simp: roundDone_def payoutWritten_def)
  show ?thesis
    using round_links [OF assms] assms(2) linked_restatus [OF round_restatus _ led(1,2)] idsFresh_restatus [OF round_restatus _ led]
    by (simp add: sound_def)
qed

lemma round_disc:
  assumes "roundDone E tid bid r pid row s s'" "sound s" "readyFor tid s r"
  shows "disc st s' k = disc st s k + statusGain LePayable LeProcessing st *
     sumWhere (\<lambda>x. (tid, rv_membershipId r, rowMonth x, pr_level x) = k) pr_amountCents (rv_rows r)"
proof -
  have led: "ledger s' = updateWhere (claimable (rv_rows r)) (\<lambda>e. e\<lparr>le_status := LeProcessing, le_payoutId := Some pid, le_payoutBatchId := Some bid\<rparr>) (ledger s)"
    "summaries s' = summaries s" "sales s' = sales s" and c: "countWhere (claimable (rv_rows r)) (ledger s) = length (rv_rows r)"
    using assms(1) by (auto simp: roundDone_def)
  have "distinct (map le_id (ledger s))" using assms(2) by (simp add: sound_def idsFresh_def)
  from claimed_cents [OF this assms(3) c] disc_restatus [OF round_restatus _ led, of LePayable]
  show ?thesis by (simp add: claimable_def)
qed

section \<open>The loop\<close>

text \<open>
  The batch stays in flight, the reservations still to come keep their rows and requests, and the
  summaries lag by exactly the cents already moved.
\<close>

definition lag :: "uuid \<Rightarrow> payout_reservation list \<Rightarrow> summary_key \<Rightarrow> cents" where
  "lag tid rs k = sumWhere (\<lambda>(m, x). (tid, m, rowMonth x, pr_level x) = k) (\<lambda>(m, x). pr_amountCents x) (reserveRows rs)"

lemma lag_simps [simp]:
  "lag tid [] k = 0"
  "lag tid (r # rs) k = sumWhere (\<lambda>x. (tid, rv_membershipId r, rowMonth x, pr_level x) = k) pr_amountCents (rv_rows r) + lag tid rs k"
  by (simp_all add: lag_def reserveRows_def sumWhere_map)

lemma round_ready:
  assumes "roundDone E tid bid r pid row s s'" "settlementIds s" "readyFor tid s q" "rv_membershipId q \<noteq> rv_membershipId r"
  shows "readyFor tid s' q"
proof -
  have w: "payoutWritten s tid bid r pid row s'" and led: "ledger s' = updateWhere (claimable (rv_rows r))
      (\<lambda>e. e\<lparr>le_status := LeProcessing, le_payoutId := Some pid, le_payoutBatchId := Some bid\<rparr>) (ledger s)"
    and sal: "sales s' = sales s" using assms(1) by (auto simp: roundDone_def)
  have key: "ledgerKey s' = ledgerKey s" by (intro ledgerKey_frame saleBooking_frame sal)
  have rows: "le_amountCents e = pr_amountCents x \<and> ledgerKey s' e = Some (tid, rv_membershipId q, rowMonth x, pr_level x)"
    if x: "x \<in> set (rv_rows q)" and e: "e \<in> set (ledger s')" "le_id e = pr_id x" for x e
  proof -
    obtain e0 where e0: "e0 \<in> set (ledger s)" "le_id e = le_id e0" "le_amountCents e = le_amountCents e0" "ledgerKey s e = ledgerKey s e0"
      using e(1) restatus_ledgerKey [OF round_restatus] unfolding led set_updateWhere by auto
    then show ?thesis using assms(3) x e(2) key by (simp add: readyFor_def)
  qed
  have "\<exists>x \<in> set (payouts s'). po_id x = i \<and> po_membershipId x = rv_membershipId q \<and> po_tenantId x = tid \<and> po_batchId x = None"
    if i: "rv_requestedPayoutId q = Some i" for i
  proof -
    obtain x where x: "x \<in> set (payouts s)" "po_id x = i" "po_membershipId x = rv_membershipId q" "po_tenantId x = tid" "po_batchId x = None"
      using assms(3) i by (auto simp: readyFor_def)
    then have "po_id x \<noteq> pid" using w assms(4) by (auto simp: payoutWritten_def)
    then show ?thesis using w x by (auto simp: payoutWritten_def)
  qed
  then show ?thesis using assms(3) rows by (simp add: readyFor_def)
qed

lemma reserve_loop:
  assumes "foldRes (reserveOne E p bid) rs (s, ps) = Inr (s', ps')"
    "sound s" "\<And>r. r \<in> set rs \<Longrightarrow> readyFor (rp_tenantId p) s r" "distinct (map rv_membershipId rs)"
    "b \<in> set (batches s)" "ba_id b = bid" "ba_status b = BaProcessing" "ba_tenantId b = rp_tenantId p"
  shows "sound s' \<and> batches s' = batches s \<and> (\<forall>x \<in> set (payouts s). po_batchId x \<noteq> None \<longrightarrow> x \<in> set (payouts s')) \<and>
    (rs \<noteq> [] \<longrightarrow> (\<exists>x \<in> set (payouts s'). po_batchId x = Some bid)) \<and>
    (\<forall>st k. disc st s' k = disc st s k + statusGain LePayable LeProcessing st * lag (rp_tenantId p) rs k)"
  using assms
proof (induction rs arbitrary: s ps)
  case Nil
  then show ?case by simp
next
  case (Cons r rs)
  obtain t qs where one: "reserveOne E p bid r (s, ps) = Inr (t, qs)" and rest: "foldRes (reserveOne E p bid) rs (t, qs) = Inr (s', ps')"
    using Cons.prems(1) by auto
  have ids: "settlementIds s" "inj (uuidGen s)" using Cons.prems(2) by (auto simp: sound_def settlementLinks_def idsFresh_def)
  have ready: "readyFor (rp_tenantId p) s r" using Cons.prems(3) by simp
  obtain pid row where rd: "roundDone E (rp_tenantId p) bid r pid row s t" using reserveOne_round [OF ids ready one] by blast
  note step = round_sound [OF rd Cons.prems(2) ready Cons.prems(5-8)] round_disc [OF rd Cons.prems(2) ready]
  have bt: "batches t = batches s" using rd by (simp add: roundDone_def)
  have "readyFor (rp_tenantId p) t q" if "q \<in> set rs" for q
    using round_ready [OF rd ids(1)] Cons.prems(3,4) that by (force simp: image_iff)
  then have ih: "sound s'" "batches s' = batches t" "\<forall>x \<in> set (payouts t). po_batchId x \<noteq> None \<longrightarrow> x \<in> set (payouts s')"
    "\<forall>st k. disc st s' k = disc st t k + statusGain LePayable LeProcessing st * lag (rp_tenantId p) rs k"
    using Cons.IH [OF rest step(1)] Cons.prems(4-8) bt by auto
  have w: "payoutWritten s (rp_tenantId p) bid r pid row t" using rd by (simp add: roundDone_def)
  have "\<forall>x \<in> set (payouts s). po_batchId x \<noteq> None \<longrightarrow> x \<in> set (payouts t)" using w by (auto simp: payoutWritten_def)
  moreover have "row \<in> set (payouts t)" "po_batchId row = Some bid" using w by (auto simp: payoutWritten_def)
  ultimately show ?case using ih bt step(2) by (auto simp: algebra_simps)
qed

section \<open>The reservations the loop is given\<close>

lemma decideMember_Reserve:
  assumes "decideMember E p tenant s m = Inr (Reserve r)"
  shows "rv_membershipId r = m" "rv_rows r = payableRows E tenant m s"
    "rv_amountCents r = sum_list (map pr_amountCents (rv_rows r))" "0 < rv_amountCents r"
    "\<forall>x \<in> set (rv_rows r). pr_month x \<noteq> None"
    "requestToReuse (activePayouts s (rp_tenantId p) m (rp_period p)) (rp_requestedPayoutId p) = Inr (Some (rv_requestedPayoutId r))"
    "assertPeriodsOpen s (rp_tenantId p) (List.map_filter pr_month (rv_rows r)) = Inr ()"
    "runtimePayoutBlock E s (rp_tenantId p) m = None"
    "tn_payoutMinCents tenant \<le> rv_amountCents r"
    "rd_requestable (evaluatePayoutReadiness (env_now E) (readinessInput
        (\<exists>t. (rv_recipient r, Some t) \<in> set (recipientsOf s (rp_tenantId p) m)) (rv_amountCents r) tenant (readInput s (rp_tenantId p) m)))"
    "rv_complianceSnapshot r = buildSnapshot (readInput s (rp_tenantId p) m)"
    "\<exists>t. recipientsOf s (rp_tenantId p) m = [(rv_recipient r, Some t)]"
    "countWhere (\<lambda>x. mb_id x = m \<and> mb_tenantId x = rp_tenantId p) (memberships s) = 1"
proof -
  let ?rows = "payableRows E tenant m s" let ?net = "sum_list (map pr_amountCents (payableRows E tenant m s))"
  obtain reuse where u: "requestToReuse (activePayouts s (rp_tenantId p) m (rp_period p)) (rp_requestedPayoutId p) = Inr reuse"
    using assms unfolding decideMember_def andThen_Inr_iff ex_unit by blast
  note body = assms [unfolded decideMember_def u andThen_Inr_iff ex_unit skipMember_def Let_def andThen.simps]
  obtain q where q: "reuse = Some q" using body by (cases reuse) auto
  have nz: "length ?rows \<noteq> 0" using body q by auto
  have c: "\<not> (?net \<le> 0 \<or> ?net < tn_payoutMinCents tenant)"
  proof
    assume "?net \<le> 0 \<or> ?net < tn_payoutMinCents tenant"
    then show False using body q nz by simp
  qed
  have b2: "assertRowPeriodsOpen s (rp_tenantId p) ?rows = Inr ()" using body q nz c by auto
  have b3: "\<exists>rc t. recipientsOf s (rp_tenantId p) m = [(rc, t)] \<and> runtimePayoutBlock E s (rp_tenantId p) m = None \<and>
     rd_requestable (evaluatePayoutReadiness (env_now E) (readinessInput (t \<noteq> None) ?net tenant (readInput s (rp_tenantId p) m))) \<and>
     r = \<lparr>rv_membershipId = m, rv_requestedPayoutId = q, rv_amountCents = ?net, rv_rows = ?rows,
          rv_complianceSnapshot = buildSnapshot (readInput s (rp_tenantId p) m), rv_recipient = rc\<rparr>"
  proof -
    note b = body [unfolded q option.case if_not_P [OF nz] if_not_P [OF c] andThen_Inr_iff ex_unit]
    show ?thesis
    proof (cases "recipientsOf s (rp_tenantId p) m")
      case Nil
      then show ?thesis using b by simp
    next
      case (Cons h tl)
      then have "tl = []" using b by (cases tl) (auto split: prod.splits)
      moreover obtain rc t where "h = (rc, t)" by (cases h)
      ultimately show ?thesis using b Cons
        by (cases "runtimePayoutBlock E s (rp_tenantId p) m") (auto split: if_splits)
    qed
  qed
  then obtain rc t where rt: "recipientsOf s (rp_tenantId p) m = [(rc, t)]" "runtimePayoutBlock E s (rp_tenantId p) m = None"
     "rd_requestable (evaluatePayoutReadiness (env_now E) (readinessInput (t \<noteq> None) ?net tenant (readInput s (rp_tenantId p) m)))"
    and r: "r = \<lparr>rv_membershipId = m, rv_requestedPayoutId = q, rv_amountCents = ?net, rv_rows = ?rows,
          rv_complianceSnapshot = buildSnapshot (readInput s (rp_tenantId p) m), rv_recipient = rc\<rparr>" by blast
  have mail: "(\<exists>x. (rc, Some x) \<in> set (recipientsOf s (rp_tenantId p) m)) \<longleftrightarrow> t \<noteq> None" using rt(1) by auto
  show "rv_membershipId r = m" "rv_rows r = ?rows" "rv_amountCents r = sum_list (map pr_amountCents (rv_rows r))"
    "0 < rv_amountCents r" "tn_payoutMinCents tenant \<le> rv_amountCents r" "runtimePayoutBlock E s (rp_tenantId p) m = None"
    "rv_complianceSnapshot r = buildSnapshot (readInput s (rp_tenantId p) m)"
    using r c rt(2) by auto
  show "requestToReuse (activePayouts s (rp_tenantId p) m (rp_period p)) (rp_requestedPayoutId p) = Inr (Some (rv_requestedPayoutId r))"
    using u q r by simp
  show "\<exists>t. recipientsOf s (rp_tenantId p) m = [(rv_recipient r, Some t)]"
    using rt(1,3) r by (cases t) (simp_all add: requestable_iff readinessInput_def)
  show "countWhere (\<lambda>x. mb_id x = m \<and> mb_tenantId x = rp_tenantId p) (memberships s) = 1"
    using assms unfolding decideMember_def andThen_Inr_iff by auto
  show "rd_requestable (evaluatePayoutReadiness (env_now E) (readinessInput
        (\<exists>t. (rv_recipient r, Some t) \<in> set (recipientsOf s (rp_tenantId p) m)) (rv_amountCents r) tenant (readInput s (rp_tenantId p) m)))"
    using rt(3) r mail by simp
  show "\<forall>x \<in> set (rv_rows r). pr_month x \<noteq> None" "assertPeriodsOpen s (rp_tenantId p) (List.map_filter pr_month (rv_rows r)) = Inr ()"
    using b2 r by (auto simp: assertRowPeriodsOpen_def list_ex_iff split: if_splits)
qed

lemma requestToReuse_mem:
  assumes "requestToReuse active rq = Inr (Some (Some pid))"
  shows "\<exists>x \<in> set active. po_id x = pid \<and> po_status x = PoRequested"
proof (cases rq)
  case None
  then show ?thesis using assms
    by (auto simp: requestToReuse_def split: if_splits dest!: find_SomeD)
next
  case (Some q)
  then show ?thesis using assms
    by (auto simp: requestToReuse_def split: if_splits option.splits dest!: find_SomeD)
qed

lemma reservations_from:
  assumes "mapRes (decideMember E p tenant s) ms = Inr ds" "r \<in> set (reservationsOf ds)"
  shows "\<exists>m \<in> set ms. decideMember E p tenant s m = Inr (Reserve r)"
  using assms
proof (induction ms arbitrary: ds)
  case (Cons m ms)
  then show ?case by (auto simp: reservationsOf_def List.map_filter_simps split: member_decision.splits)
qed (simp add: reservationsOf_def List.map_filter_simps)

lemma reservations_distinct:
  assumes "mapRes (decideMember E p tenant s) ms = Inr ds" "distinct ms"
  shows "distinct (map rv_membershipId (reservationsOf ds))"
  using assms
proof (induction ms arbitrary: ds)
  case (Cons m ms)
  obtain d ds' where d: "decideMember E p tenant s m = Inr d" "mapRes (decideMember E p tenant s) ms = Inr ds'" "ds = d # ds'"
    using Cons.prems(1) by auto
  have ih: "distinct (map rv_membershipId (reservationsOf ds'))" using Cons.IH [OF d(2)] Cons.prems(2) by simp
  have other: "rv_membershipId x \<in> set ms" if x: "x \<in> set (reservationsOf ds')" for x
  proof -
    obtain m' where "m' \<in> set ms" "decideMember E p tenant s m' = Inr (Reserve x)" using reservations_from [OF d(2) x] by blast
    then show ?thesis using decideMember_Reserve(1) by metis
  qed
  show ?case
  proof (cases d)
    case (Skip k)
    then show ?thesis using ih d(3) by (simp add: reservationsOf_def List.map_filter_simps)
  next
    case (Reserve r)
    then have "rv_membershipId r = m" using decideMember_Reserve(1) d(1) by metis
    then have "rv_membershipId r \<notin> rv_membershipId ` set (reservationsOf ds')" using other Cons.prems(2) by auto
    moreover have "reservationsOf ds = r # reservationsOf ds'" using Reserve d(3) by (simp add: reservationsOf_def List.map_filter_simps)
    ultimately show ?thesis using ih by simp
  qed
qed (simp add: reservationsOf_def List.map_filter_simps)

lemma batchTargets_distinct: "batchTargets E p tenant s = Inr ts \<Longrightarrow> distinct ts"
  by (auto simp: batchTargets_def thresholdMembers_def Let_def split: selection_scope.splits if_splits option.splits)

lemma payableRows_set:
  "x \<in> set (payableRows E tenant m s) \<longleftrightarrow> (\<exists>e \<in> set (ledger s). payableTo (tn_id tenant) m e \<and>
     x = \<lparr>pr_id = le_id e, pr_membershipId = le_beneficiary e, pr_level = le_level e, pr_amountCents = le_amountCents e,
          pr_month = payoutMonth E tenant s e\<rparr>)"
  by (auto simp: payableRows_def)

text \<open>Under the links the month a row is paid under is the month it is booked under.\<close>

lemma payoutMonth_bucket:
  assumes "linked s" "e \<in> set (ledger s)"
  shows "payoutMonth E tenant s e = bucketMonth s e"
proof (cases "le_summaryMonth e")
  case None
  then obtain sid where sid: "le_saleId e = Some sid" "map_option fst (saleBooking s sid) = Some (le_tenantId e)"
    using assms by (auto simp: linked_def rowLinked_def split: option.splits)
  then obtain r mo where "findSale s sid = Some r" "sa_summaryMonth r = Some mo"
    by (auto simp: saleBooking_def bind_eq_Some_conv)
  then show ?thesis using None sid by (simp add: payoutMonth_def bucketMonth_def saleBooking_def)
qed (simp add: payoutMonth_def bucketMonth_def)

lemma reservation_ready:
  assumes "books s" "tn_id tenant = rp_tenantId p" "decideMember E p tenant s m = Inr (Reserve r)"
  shows "readyFor (rp_tenantId p) s r"
proof -
  note d = decideMember_Reserve [OF assms(3)]
  have dl: "distinct (map le_id (ledger s))" and lk: "linked s" using assms(1) by (auto simp: books_def idsFresh_def)
  have "distinct (map le_id (findManyBy le_id (payableTo (tn_id tenant) m) (ledger s)))"
    using dl by (simp add: findManyBy_def distinct_map_filter distinct_map_sort_key)
  then have dr: "distinct (map pr_id (rv_rows r))" unfolding d(2) payableRows_def by (simp add: comp_def)
  have rows: "le_amountCents e = pr_amountCents x \<and> ledgerKey s e = Some (rp_tenantId p, rv_membershipId r, rowMonth x, pr_level x)"
    if x: "x \<in> set (rv_rows r)" and e: "e \<in> set (ledger s)" "le_id e = pr_id x" for x e
  proof -
    obtain e0 where e0: "e0 \<in> set (ledger s)" "payableTo (tn_id tenant) m e0"
      "x = \<lparr>pr_id = le_id e0, pr_membershipId = le_beneficiary e0, pr_level = le_level e0, pr_amountCents = le_amountCents e0,
          pr_month = payoutMonth E tenant s e0\<rparr>"
      using x unfolding d(2) payableRows_set by blast
    then have "e = e0" using inj_onD [of le_id "set (ledger s)" e e0] e dl by (simp add: distinct_map)
    moreover obtain mo where "bucketMonth s e0 = Some mo" using linked_bucket [OF lk e0(1)] by blast
    ultimately show ?thesis
      using e0 payoutMonth_bucket [OF lk e0(1)] d(1) assms(2) by (simp add: ledgerKey_def rowMonth_def payableTo_def)
  qed
  have "\<exists>x \<in> set (payouts s). po_id x = pid \<and> po_membershipId x = rv_membershipId r \<and> po_tenantId x = rp_tenantId p \<and> po_batchId x = None"
    if pid: "rv_requestedPayoutId r = Some pid" for pid
  proof -
    obtain x where "x \<in> set (activePayouts s (rp_tenantId p) m (rp_period p))" "po_id x = pid" "po_status x = PoRequested"
      using requestToReuse_mem d(6) pid by metis
    then show ?thesis using requested_free [OF assms(1)] d(1) by (auto simp: activePayouts_def)
  qed
  then show ?thesis using dr rows d(3,4) unfolding readyFor_def by blast
qed

section \<open>The transaction\<close>

lemma createBatch_sound:
  assumes "books s" "createBatch E p s = (bid, s1)"
  shows "sound s1" "\<exists>b \<in> set (batches s1). ba_id b = bid \<and> ba_status b = BaProcessing \<and> ba_tenantId b = rp_tenantId p"
    "disc st s1 k = disc st s k" "payouts s1 = payouts s" "ledger s1 = ledger s" "saleBooking s1 = saleBooking s"
    "ba_id ` set (batches s1) = insert bid (ba_id ` set (batches s))" "sales s1 = sales s"
proof -
  have s1: "ledger s1 = ledger s" "sales s1 = sales s" "summaries s1 = summaries s" "payouts s1 = payouts s"
    "batchItems s1 = batchItems s" "uuidGen s1 = uuidGen s" "uuidNext s1 = Suc (uuidNext s)" "bid = freshId s"
    using assms(2) by (auto simp: createBatch_def drawId_def)
  obtain b where b: "batches s1 = batches s @ [b]" "ba_id b = bid" "ba_status b = BaProcessing" "ba_tenantId b = rp_tenantId p"
    using assms(2) by (auto simp: createBatch_def drawId_def)
  have bk: "linked s" "idsFresh s" "settlementLinks s" using assms(1) by (auto simp: books_def settlementOk_def)
  have sb: "saleBooking s1 = saleBooking s" by (rule saleBooking_frame [OF s1(2)])
  have key: "ledgerKey s1 = ledgerKey s" by (rule ledgerKey_frame [OF sb])
  have "settlementIds s1"
  proof -
    have ids: "settlementIds s" "inj (uuidGen s)" using bk by (auto simp: settlementLinks_def idsFresh_def)
    have "bid \<notin> ba_id ` set (batches s)" using ids(1) s1(8) unfolding settlementIds_def freshId_def by (metis imageE order_refl)
    moreover have "bid \<noteq> uuidGen s n" if "Suc (uuidNext s) \<le> n" for n
      using injD [OF ids(2), of "uuidNext s" n] that s1(8) by (auto simp: freshId_def)
    ultimately show ?thesis using ids(1) s1 b by (auto simp: settlementIds_def)
  qed
  moreover have "itemOk s1 i" if "itemOk s i" for i
    using that s1 b(1) key by (auto simp: itemOk_def itemOf_def)
  moreover have "payoutOk (batches s1) (batchItems s1) x" if "payoutOk (batches s) (batchItems s) x" for x
    using that s1 b(1) by (auto simp: payoutOk_def split: option.splits)
  ultimately have "settlementLinks s1" using bk(3) s1 by (simp add: settlementLinks_def)
  then show "sound s1" using bk(1,2) linked_frame [OF bk(1) s1(1) sb] s1 by (auto simp: sound_def idsFresh_def)
  show "\<exists>b \<in> set (batches s1). ba_id b = bid \<and> ba_status b = BaProcessing \<and> ba_tenantId b = rp_tenantId p" using b by auto
  show "disc st s1 k = disc st s k" by (rule disc_frame [OF s1(1,3) sb])
qed (use assms(2) in \<open>auto simp: createBatch_def drawId_def intro: saleBooking_frame\<close>)

lemma readyFor_frame:
  "readyFor tid s r \<Longrightarrow> ledger s' = ledger s \<Longrightarrow> payouts s' = payouts s \<Longrightarrow> saleBooking s' = saleBooking s \<Longrightarrow> readyFor tid s' r"
  using ledgerKey_frame [of s' s] by (simp add: readyFor_def)

lemma commitReservations_books:
  assumes "books s" "commitReservations E p rs s = Inr (bid, processing, s')" "rs \<noteq> []"
    "\<And>r. r \<in> set rs \<Longrightarrow> readyFor (rp_tenantId p) s r" "distinct (map rv_membershipId rs)"
  shows "books s'"
proof -
  obtain s1 where c: "createBatch E p s = (bid, s1)" using assms(2) by (cases "createBatch E p s") (auto simp: commitReservations_def)
  note cb = createBatch_sound [OF assms(1) c]
  obtain s2 where loop: "foldRes (reserveOne E p bid) rs (s1, []) = Inr (s2, processing)"
    and s': "s' = audit (rp_tenantId p) (rp_actorUserId p) ''payout_batch.processing_started'' bid (JObj [])
             (JObj [(''period'', JStr (rp_period p)), (''method'', JStr (methodText (rp_method p))),
                    (''processingCount'', JNum (int (length processing))),
                    (''entryCount'', JNum (int (sum_list (map (\<lambda>r. length (rv_rows r)) rs))))]) (applyBuckets (rp_tenantId p) reserveDelta
        (aggregate (\<lambda>(m, x). (m, rowMonth x, pr_level x)) (\<lambda>(m, x). pr_amountCents x) (reserveRows rs)) s2)"
    using assms(2) c by (auto simp: commitReservations_def)
  obtain b where b: "b \<in> set (batches s1)" "ba_id b = bid" "ba_status b = BaProcessing" "ba_tenantId b = rp_tenantId p" using cb(2) by blast
  have ready: "readyFor (rp_tenantId p) s1 r" if "r \<in> set rs" for r
    using readyFor_frame [OF assms(4) [OF that] cb(5,4,6)] .
  note reserve_loop [OF loop cb(1) _ assms(5) b]
  then have inv: "sound s2" "batches s2 = batches s1" "\<forall>x \<in> set (payouts s1). po_batchId x \<noteq> None \<longrightarrow> x \<in> set (payouts s2)"
    "\<exists>x \<in> set (payouts s2). po_batchId x = Some bid"
    "\<forall>st k. disc st s2 k = disc st s1 k + statusGain LePayable LeProcessing st * lag (rp_tenantId p) rs k"
    using ready assms(3) by blast+
  let ?s3 = "applyBuckets (rp_tenantId p) reserveDelta
        (aggregate (\<lambda>(m, x). (m, rowMonth x, pr_level x)) (\<lambda>(m, x). pr_amountCents x) (reserveRows rs)) s2"
  have snd2: "settlementLinks s2" "linked s2" "idsFresh s2" using inv(1) by (auto simp: sound_def)
  have "books ?s3"
  proof (rule booksI)
    have "disc st ?s3 k = 0" if st: "st \<noteq> LeReversed" for st k
    proof -
      have "disc st ?s3 k = disc st s2 k - statusGain LePayable LeProcessing st *
         sumWhere (\<lambda>x. (rp_tenantId p, (\<lambda>(m, x). (m, rowMonth x, pr_level x)) x) = k) (\<lambda>(m, x). pr_amountCents x) (reserveRows rs)"
        by (rule disc_applyBuckets [OF reserveDelta_gain [OF st]])
      moreover have "sumWhere (\<lambda>x. (rp_tenantId p, (\<lambda>(m, x). (m, rowMonth x, pr_level x)) x) = k) (\<lambda>(m, x). pr_amountCents x) (reserveRows rs) =
         lag (rp_tenantId p) rs k"
        unfolding lag_def by (rule sumWhere_cong) auto
      moreover have "disc st s2 k = disc st s1 k + statusGain LePayable LeProcessing st * lag (rp_tenantId p) rs k" using inv(5) by blast
      moreover have "disc st s1 k = 0" using assms(1) st cb(3) unfolding books_def reconciled_disc by metis
      ultimately show ?thesis by simp
    qed
    then show "reconciled ?s3" by (simp add: reconciled_disc)
    show "linked ?s3" by (rule linked_frame [OF snd2(2)]) (auto intro: saleBooking_frame)
    show "idsFresh ?s3" using snd2(3) by (simp add: idsFresh_def)
    have "\<exists>x \<in> set (payouts s2). po_batchId x = Some (ba_id b')" if b': "b' \<in> set (batches s2)" for b'
    proof (cases "ba_id b' = bid")
      case True
      then show ?thesis using inv(4) by blast
    next
      case False
      have "ba_id b' \<in> ba_id ` set (batches s)" using b' cb(7) False unfolding inv(2) by blast
      then obtain x where "x \<in> set (payouts s)" "po_batchId x = Some (ba_id b')"
        using assms(1) by (auto simp: books_def settlementOk_def)
      then show ?thesis using inv(3) cb(4) by (metis option.distinct(1))
    qed
    then have "settlementOk s2" using snd2(1) by (simp add: settlementOk_def)
    then show "settlementOk ?s3" by (rule settlementOk_summaries) simp_all
  qed
  then show ?thesis using s' books_audit by auto
qed

lemma reservePayoutBatchTx_books:
  assumes "books s" "reservePayoutBatchTx E p s = Inr (out, s')"
  shows "books s'"
proof -
  obtain tenant ts ds where t: "tenantOrThrow s (rp_tenantId p) = Inr tenant" "batchTargets E p tenant s = Inr ts"
    "mapRes (decideMember E p tenant s) ts = Inr ds"
    using assms(2) unfolding reservePayoutBatchTx_def andThen_Inr_iff by blast
  have tid: "tn_id tenant = rp_tenantId p" using t(1) by (auto simp: tenantOrThrow_def findTenant_def dest: find_SomeD)
  have d: "distinct (map rv_membershipId (reservationsOf ds))"
    using reservations_distinct [OF t(3) batchTargets_distinct [OF t(2)]] .
  have ready: "readyFor (rp_tenantId p) s r" if "r \<in> set (reservationsOf ds)" for r
    using reservations_from [OF t(3) that] reservation_ready [OF assms(1) tid] by blast
  have "s' = s \<or> reservationsOf ds \<noteq> [] \<and> (\<exists>bid ps. commitReservations E p (reservationsOf ds) s = Inr (bid, ps, s'))"
    using assms(2) t by (auto simp: reservePayoutBatchTx_def Let_def split: if_splits)
  then show ?thesis using commitReservations_books [OF assms(1) _ _ ready d] assms(1) by blast
qed

end
