(* ===== verification/Csv.thy ===== *)
theory Csv
  imports Risk
begin

text \<open>
  CSV text: the parser of the sales import (\<open>sales/csv.ts\<close>) and the two cell encoders of the
  exports (\<open>common/csv.ts\<close> for lists and reports, \<open>sales/csv.ts\<close> for payment instructions), with the
  round trip between them.  The encoders differ in their guard against spreadsheet formulas only,
  so the round trip is proved once, in a locale over the guard.
\<close>

section \<open>Parsing\<close>

definition quoteChar :: char where "quoteChar = CHR 0x22"
definition commaChar :: char where "commaChar = CHR 0x2C"
definition lfChar :: char where "lfChar = CHR 0x0A"
definition crChar :: char where "crChar = CHR 0x0D"
definition tabChar :: char where "tabChar = CHR 0x09"

text \<open>\<open>replace(/\r\n/g, '\n').replace(/\r/g, '\n')\<close>.\<close>

fun normalizeNewlines :: "string \<Rightarrow> string" where
  "normalizeNewlines [] = []"
| "normalizeNewlines (c # cs) =
     (if c = crChar
      then lfChar # (case cs of d # ds \<Rightarrow> if d = lfChar then normalizeNewlines ds else normalizeNewlines cs | [] \<Rightarrow> [])
      else c # normalizeNewlines cs)"

text \<open>The loop over the characters: the finished rows, the open row, the open field, and whether it is quoted.\<close>

fun csvLoop :: "bool \<Rightarrow> string \<Rightarrow> string list \<Rightarrow> string list list \<Rightarrow> string \<Rightarrow> string list list \<times> string list \<times> string" where
  "csvLoop inQuotes field row rows [] = (rows, row, field)"
| "csvLoop inQuotes field row rows (c # cs) =
     (if inQuotes
      then if c = quoteChar
           then (case cs of
                   d # ds \<Rightarrow> if d = quoteChar then csvLoop True (field @ [quoteChar]) row rows ds
                             else csvLoop False field row rows cs
                 | [] \<Rightarrow> csvLoop False field row rows cs)
           else csvLoop True (field @ [c]) row rows cs
      else if c = quoteChar then csvLoop True field row rows cs
      else if c = commaChar then csvLoop False [] (row @ [field]) rows cs
      else if c = lfChar then csvLoop False [] [] (rows @ [row @ [field]]) cs
      else csvLoop False (field @ [c]) row rows cs)"

definition parseCsv :: "string \<Rightarrow> string list list" where
  "parseCsv text =
     (let (rows, row, field) = csvLoop False [] [] [] (normalizeNewlines text);
          allRows = (if field \<noteq> [] \<or> length row > 0 then rows @ [row @ [field]] else rows)
      in filter (list_ex (\<lambda>cell. trimText cell \<noteq> [])) allRows)"

section \<open>Encoding a cell\<close>

definition dangerousLead :: "string \<Rightarrow> bool" where
  "dangerousLead v = (case v of [] \<Rightarrow> False | c # _ \<Rightarrow> c \<in> set ''=+-@'' \<or> c = tabChar \<or> c = crChar)"

definition needsQuoting :: "string \<Rightarrow> bool" where
  "needsQuoting v = list_ex (\<lambda>c. c = quoteChar \<or> c = commaChar \<or> c = crChar \<or> c = lfChar) v"

text \<open>\<open>replace(/"/g, '""')\<close>.\<close>

definition doubleQuotes :: "string \<Rightarrow> string" where
  "doubleQuotes v = concat (map (\<lambda>c. if c = quoteChar then [quoteChar, quoteChar] else [c]) v)"

definition guardCell :: "string \<Rightarrow> string" where
  "guardCell v = (if dangerousLead v then CHR 0x27 # v else v)"

definition csvCell :: "string \<Rightarrow> string" where
  "csvCell value =
     (let v = guardCell value
      in if needsQuoting v then [quoteChar] @ doubleQuotes v @ [quoteChar] else v)"

text \<open>
  The encoder of \<open>sales/csv.ts\<close>: \<open>String(value ?? '')\<close>, with a guard that looks past leading blanks
  and control characters.
\<close>

definition hiddenLead :: "string \<Rightarrow> bool" where
  "hiddenLead v = (case dropWhile (\<lambda>c. of_char c \<le> (32 :: nat)) v of [] \<Rightarrow> False | c # _ \<Rightarrow> c \<in> set ''=+-@'')"

definition guardInstruction :: "string \<Rightarrow> string" where
  "guardInstruction v = (if hiddenLead v then CHR 0x27 # v else v)"

definition instructionCell :: "string option \<Rightarrow> string" where
  "instructionCell value =
     (let v = guardInstruction (case value of None \<Rightarrow> [] | Some t \<Rightarrow> t)
      in if needsQuoting v then [quoteChar] @ doubleQuotes v @ [quoteChar] else v)"

text \<open>The text of an export: encoded cells joined by commas, rows by newlines, with a newline at the end.\<close>

definition csvText :: "string list list \<Rightarrow> string" where
  "csvText rows = joinText [lfChar] (map (joinText [commaChar]) rows) @ [lfChar]"

section \<open>Round trip\<close>

lemma csv_chars [simp]:
  "quoteChar \<noteq> commaChar" "commaChar \<noteq> quoteChar" "quoteChar \<noteq> lfChar" "lfChar \<noteq> quoteChar" "commaChar \<noteq> lfChar" "lfChar \<noteq> commaChar"
  "crChar \<noteq> lfChar" "lfChar \<noteq> crChar" "crChar \<noteq> quoteChar" "quoteChar \<noteq> crChar" "crChar \<noteq> commaChar" "commaChar \<noteq> crChar"
  by (simp_all add: quoteChar_def commaChar_def lfChar_def crChar_def)

lemma normalizeNewlines_id: "crChar \<notin> set s \<Longrightarrow> normalizeNewlines s = s"
  by (induction s) auto

lemma doubleQuotes_simps [simp]:
  "doubleQuotes [] = []" "doubleQuotes (c # v) = (if c = quoteChar then [quoteChar, quoteChar] else [c]) @ doubleQuotes v"
  by (simp_all add: doubleQuotes_def)

lemma set_doubleQuotes: "set (doubleQuotes v) \<subseteq> insert quoteChar (set v)"
  by (induction v) auto

lemma csvLoop_plain:
  "\<not> needsQuoting v \<Longrightarrow> csvLoop False field row rows (v @ rest) = csvLoop False (field @ v) row rows rest"
  by (induction v arbitrary: field) (auto simp: needsQuoting_def)

lemma csvLoop_quoted:
  "rest = [] \<or> hd rest \<noteq> quoteChar \<Longrightarrow>
   csvLoop True field row rows (doubleQuotes v @ quoteChar # rest) = csvLoop False (field @ v) row rows rest"
  by (induction v arbitrary: field) (auto split: list.split)

lemma set_joinText: "set (joinText sep xs) \<subseteq> set sep \<union> (\<Union>x \<in> set xs. set x)"
  by (induction sep xs rule: joinText.induct) auto

lemma trimText_Nil: "trimText s = [] \<longleftrightarrow> list_all isSpace s"
proof -
  have "trimText s = [] \<longleftrightarrow> (\<forall>c \<in> set (dropWhile isSpace s). isSpace c)"
    by (simp add: trimText_def dropWhile_eq_Nil_conv)
  also have "\<dots> \<longleftrightarrow> (\<forall>c \<in> set s. isSpace c)"
  proof (cases "dropWhile isSpace s")
    case Nil
    then have "\<forall>c \<in> set s. isSpace c" by (simp only: dropWhile_eq_Nil_conv)
    with Nil show ?thesis by (metis empty_iff list.set(1))
  next
    case (Cons c cs)
    then have "\<not> isSpace c" using hd_dropWhile [of isSpace s] by simp
    moreover have "c \<in> set s" using Cons set_dropWhileD [of c isSpace s] by simp
    ultimately show ?thesis using Cons by auto
  qed
  finally show ?thesis by (simp add: list_all_iff)
qed

text \<open>An encoder: quoting over a guard that adds no carriage return and no blank cell, and leaves no risky cell.\<close>

locale cell_encoder =
  fixes cell :: "string \<Rightarrow> string" and guard :: "string \<Rightarrow> string" and risky :: "string \<Rightarrow> bool"
  assumes cell_eq: "cell v = (if needsQuoting (guard v) then [quoteChar] @ doubleQuotes (guard v) @ [quoteChar] else guard v)"
    and guard_cr: "crChar \<notin> set v \<Longrightarrow> crChar \<notin> set (guard v)"
    and guard_blank: "trimText v \<noteq> [] \<Longrightarrow> trimText (guard v) \<noteq> []"
    and guard_safe: "\<not> risky (guard v)"
begin

lemma loop_cell:
  assumes "rest = [] \<or> hd rest \<noteq> quoteChar"
  shows "csvLoop False [] row rows (cell v @ rest) = csvLoop False (guard v) row rows rest"
  using csvLoop_quoted [OF assms, of "[]" row rows "guard v"] csvLoop_plain [of "guard v" "[]" row rows rest]
  by (simp add: cell_eq)

lemma loop_row:
  "cells \<noteq> [] \<Longrightarrow> csvLoop False [] row rows (joinText [commaChar] (map cell cells) @ lfChar # rest) =
     csvLoop False [] [] (rows @ [row @ map guard cells]) rest"
proof (induction cells arbitrary: row)
  case (Cons c cells)
  then show ?case
    by (cases cells) (simp_all add: loop_cell)
qed simp

lemma loop_rows:
  "rs \<noteq> [] \<Longrightarrow> \<forall>r \<in> set rs. r \<noteq> [] \<Longrightarrow>
   csvLoop False [] [] rows (csvText (map (map cell) rs)) = (rows @ map (map guard) rs, [], [])"
proof (induction rs arbitrary: rows)
  case (Cons r rs)
  have r: "r \<noteq> []" using Cons.prems(2) by simp
  show ?case
  proof (cases rs)
    case Nil
    then show ?thesis using loop_row [OF r, of "[]" rows "[]"] by (simp add: csvText_def)
  next
    case (Cons q qs)
    have "csvText (map (map cell) (r # rs)) = joinText [commaChar] (map cell r) @ lfChar # csvText (map (map cell) rs)"
      by (simp add: csvText_def Cons)
    then show ?thesis using loop_row [OF r, of "[]" rows] Cons.IH [of "rows @ [map guard r]"] Cons.prems(2) Cons by simp
  qed
qed simp

lemma cell_cr:
  assumes "crChar \<notin> set v"
  shows "crChar \<notin> set (cell v)"
proof -
  have "crChar \<notin> set (doubleQuotes (guard v))" using set_doubleQuotes [of "guard v"] guard_cr [OF assms] by fastforce
  then show ?thesis using guard_cr [OF assms] by (simp add: cell_eq)
qed

lemma text_cr:
  assumes "\<forall>r \<in> set rs. \<forall>c \<in> set r. crChar \<notin> set c"
  shows "crChar \<notin> set (csvText (map (map cell) rs))"
proof -
  have row: "crChar \<notin> set (joinText [commaChar] (map cell r))" if "r \<in> set rs" for r
    using set_joinText [of "[commaChar]" "map cell r"] cell_cr assms that by fastforce
  show ?thesis
    using set_joinText [of "[lfChar]" "map (joinText [commaChar]) (map (map cell) rs)"] row
    by (fastforce simp: csvText_def)
qed

lemma parse_text:
  assumes "rs \<noteq> []" "\<forall>r \<in> set rs. \<forall>c \<in> set r. crChar \<notin> set c" "\<forall>r \<in> set rs. \<exists>c \<in> set r. trimText c \<noteq> []"
  shows "parseCsv (csvText (map (map cell) rs)) = map (map guard) rs"
    and "\<forall>r \<in> set (parseCsv (csvText (map (map cell) rs))). \<forall>c \<in> set r. \<not> risky c"
proof -
  have "\<forall>r \<in> set rs. r \<noteq> []" using assms(3) by fastforce
  then have loop: "csvLoop False [] [] [] (normalizeNewlines (csvText (map (map cell) rs))) = (map (map guard) rs, [], [])"
    using loop_rows [OF assms(1), of "[]"] normalizeNewlines_id [OF text_cr [OF assms(2)]] by simp
  have "filter (list_ex (\<lambda>cell. trimText cell \<noteq> [])) (map (map guard) rs) = map (map guard) rs"
    using assms(3) guard_blank by (fastforce simp: filter_id_conv list_ex_iff)
  then show "parseCsv (csvText (map (map cell) rs)) = map (map guard) rs" using loop by (simp add: parseCsv_def)
  then show "\<forall>r \<in> set (parseCsv (csvText (map (map cell) rs))). \<forall>c \<in> set r. \<not> risky c" using guard_safe by auto
qed

end

lemma quoted_blank: "trimText v \<noteq> [] \<Longrightarrow> trimText (c # v) \<noteq> []"
  by (simp add: trimText_Nil)

interpretation lists: cell_encoder csvCell guardCell dangerousLead
proof
  fix v
  show "csvCell v = (if needsQuoting (guardCell v) then [quoteChar] @ doubleQuotes (guardCell v) @ [quoteChar] else guardCell v)"
    by (simp add: csvCell_def Let_def)
  show "crChar \<notin> set v \<Longrightarrow> crChar \<notin> set (guardCell v)" by (simp add: guardCell_def crChar_def)
  show "trimText v \<noteq> [] \<Longrightarrow> trimText (guardCell v) \<noteq> []" by (simp add: guardCell_def quoted_blank)
  show "\<not> dangerousLead (guardCell v)"
    by (simp add: guardCell_def dangerousLead_def tabChar_def crChar_def split: list.split)
qed

interpretation instructions: cell_encoder "\<lambda>v. instructionCell (Some v)" guardInstruction hiddenLead
proof
  fix v
  show "instructionCell (Some v) =
      (if needsQuoting (guardInstruction v) then [quoteChar] @ doubleQuotes (guardInstruction v) @ [quoteChar] else guardInstruction v)"
    by (simp add: instructionCell_def Let_def)
  show "crChar \<notin> set v \<Longrightarrow> crChar \<notin> set (guardInstruction v)" by (simp add: guardInstruction_def crChar_def)
  show "trimText v \<noteq> [] \<Longrightarrow> trimText (guardInstruction v) \<noteq> []" by (simp add: guardInstruction_def quoted_blank)
  show "\<not> hiddenLead (guardInstruction v)" by (auto simp: guardInstruction_def hiddenLead_def)
qed

text \<open>A table exported cell by cell reads back as it was, with either encoder: for cells without carriage returns and rows
  that are not blank, parsing the exported text gives every row and cell again, each cell that the encoder's guard takes for a
  formula marked by one leading quote, and no cell of the result looks like a formula to that guard.\<close>

theorem csv_roundtrip:
  assumes "rs \<noteq> []" "\<forall>r \<in> set rs. \<forall>c \<in> set r. crChar \<notin> set c" "\<forall>r \<in> set rs. \<exists>c \<in> set r. trimText c \<noteq> []"
  shows "parseCsv (csvText (map (map csvCell) rs)) = map (map guardCell) rs \<and>
    (\<forall>r \<in> set (parseCsv (csvText (map (map csvCell) rs))). \<forall>c \<in> set r. \<not> dangerousLead c) \<and>
    parseCsv (csvText (map (map (\<lambda>v. instructionCell (Some v))) rs)) = map (map guardInstruction) rs \<and>
    (\<forall>r \<in> set (parseCsv (csvText (map (map (\<lambda>v. instructionCell (Some v))) rs))). \<forall>c \<in> set r. \<not> hiddenLead c)"
  by (intro conjI lists.parse_text [OF assms] instructions.parse_text [OF assms])

theorem csv_roundtrip_witness:
  "parseCsv (csvText (map (map csvCell) [[''code'', ''note''], [''=1+1'', ''a,b'']])) =
     [[''code'', ''note''], [CHR 0x27 # ''=1+1'', ''a,b'']]"
proof -
  have g: "guardCell ''code'' = ''code''" "guardCell ''note'' = ''note''" "guardCell ''a,b'' = ''a,b''"
    "guardCell ''=1+1'' = CHR 0x27 # ''=1+1''"
    by (simp_all add: guardCell_def dangerousLead_def tabChar_def crChar_def)
  have "parseCsv (csvText (map (map csvCell) [[''code'', ''note''], [''=1+1'', ''a,b'']])) =
      map (map guardCell) [[''code'', ''note''], [''=1+1'', ''a,b'']]"
    by (rule conjunct1 [OF csv_roundtrip]) (simp_all add: crChar_def trimText_def isSpace_def)
  then show ?thesis by (simp add: g)
qed

end
