(* ===== verification/Service_Books.thy ===== *)
theory Service_Books
  imports Payout_Books
begin

text \<open>
  What the services around the engine may write without touching the books: a new open payout, notes
  on existing payouts, a new sale, and the removal of a sale no ledger row names.  Each lemma is a
  frame rule for \<open>books\<close>; the steps of the service transactions are justified by them.
\<close>

section \<open>Payouts\<close>

lemma books_newPayout:
  assumes "books s" "po_id row = freshId s" "po_batchId row = None" "po_status row = PoRequested"
  shows "books ((drawId s)\<lparr>payouts := payouts s @ [row]\<rparr>)"
proof -
  let ?s = "(drawId s)\<lparr>payouts := payouts s @ [row]\<rparr>"
  have bk: "reconciled s" "linked s" "idsFresh s" "settlementOk s" using assms(1) by (simp_all add: books_def)
  have fr: "ledger ?s = ledger s" "summaries ?s = summaries s" "sales ?s = sales s" "batches ?s = batches s"
    "batchItems ?s = batchItems s" "uuidGen ?s = uuidGen s" "uuidNext ?s = Suc (uuidNext s)" by (simp_all add: drawId_def)
  have sb: "saleBooking ?s = saleBooking s" by (rule saleBooking_frame [OF fr(3)])
  have key: "ledgerKey ?s = ledgerKey s" by (rule ledgerKey_frame [OF sb])
  have inj: "inj (uuidGen s)" using bk(3) by (simp add: idsFresh_def)
  have ids: "settlementIds s" using bk(4) by (simp add: settlementOk_def settlementLinks_def)
  then have "freshId s \<notin> po_id ` set (payouts s)" by (fastforce simp: settlementIds_def freshId_def)
  moreover have "po_id row \<noteq> uuidGen s n" if "Suc (uuidNext s) \<le> n" for n
    using that inj assms(2) by (auto simp: freshId_def inj_eq)
  ultimately have "settlementIds ?s" using ids assms(2) unfolding settlementIds_def fr by auto
  moreover have "itemOk ?s i" if "itemOk s i" for i
    using that key unfolding itemOk_def itemOf_def fr by auto
  moreover have "payoutOk (batches s) (batchItems s) row" using assms(3,4) by (simp add: payoutOk_def)
  ultimately have "settlementOk ?s" using bk(4) unfolding settlementOk_def settlementLinks_def fr by auto
  moreover have "idsFresh ?s" using bk(3) unfolding idsFresh_def fr by auto
  ultimately show ?thesis
    using reconciled_frame [OF bk(1) fr(1,2) sb] linked_frame [OF bk(2) fr(1) sb] by (intro booksI)
qed

text \<open>Columns of a payout the books do not read.\<close>

definition payoutNote :: "(payout \<Rightarrow> payout) \<Rightarrow> bool" where
  "payoutNote g \<longleftrightarrow> (\<forall>x. po_id (g x) = po_id x \<and> po_tenantId (g x) = po_tenantId x \<and> po_membershipId (g x) = po_membershipId x \<and>
     po_batchId (g x) = po_batchId x \<and> po_status (g x) = po_status x \<and> po_totalCents (g x) = po_totalCents x)"

lemma books_notePayout:
  assumes "books s" "payoutNote g"
  shows "books (s\<lparr>payouts := updateWhere P g (payouts s)\<rparr>)"
proof -
  let ?s = "s\<lparr>payouts := updateWhere P g (payouts s)\<rparr>"
  have bk: "reconciled s" "linked s" "idsFresh s" "settlementOk s" using assms(1) by (simp_all add: books_def)
  have sb: "saleBooking ?s = saleBooking s" by (rule saleBooking_frame) simp
  have key: "ledgerKey ?s = ledgerKey s" by (rule ledgerKey_frame [OF sb])
  let ?k = "\<lambda>p. (po_id p, po_batchId p, po_membershipId p)"
  have g: "po_id (g x) = po_id x" "po_membershipId (g x) = po_membershipId x" "po_batchId (g x) = po_batchId x" for x
    using assms(2) by (simp_all add: payoutNote_def)
  have m: "map ?k (updateWhere P g (payouts s)) = map ?k (payouts s)" "map po_id (updateWhere P g (payouts s)) = map po_id (payouts s)"
    by (rule map_updateWhere_id, simp add: g)+
  have ks: "?k ` set (updateWhere P g (payouts s)) = ?k ` set (payouts s)" using arg_cong [OF m(1), of set] by (simp only: set_map)
  have ex: "(\<exists>p \<in> set (updateWhere P g (payouts s)). po_id p = i \<and> po_batchId p = b \<and> po_membershipId p = mb) \<longleftrightarrow>
     (\<exists>p \<in> set (payouts s). po_id p = i \<and> po_batchId p = b \<and> po_membershipId p = mb)" for i b mb
  proof -
    have "(\<exists>p \<in> set ps. po_id p = i \<and> po_batchId p = b \<and> po_membershipId p = mb) \<longleftrightarrow> (i, b, mb) \<in> ?k ` set ps" for ps :: "payout list"
      by force
    then show ?thesis using ks by simp
  qed
  have "po_id ` set (updateWhere P g (payouts s)) = po_id ` set (payouts s)" using arg_cong [OF m(2), of set] by (simp only: set_map)
  then have "\<forall>x \<in> po_id ` set (updateWhere P g (payouts s)). \<forall>n \<ge> uuidNext s. x \<noteq> uuidGen s n"
    using bk(4) by (simp add: settlementOk_def settlementLinks_def settlementIds_def)
  then have "settlementIds ?s" using bk(4) m(2) by (simp add: settlementOk_def settlementLinks_def settlementIds_def)
  moreover have "itemOk ?s i" if "itemOk s i" for i
    using that key ex by (simp add: itemOk_def itemOf_def)
  moreover have "payoutOk (batches s) (batchItems s) p" if p: "p \<in> set (updateWhere P g (payouts s))" for p
  proof -
    obtain q where q: "q \<in> set (payouts s)" "p = (if P q then g q else q)" using p by (auto simp: set_updateWhere)
    then have "payoutOk (batches s) (batchItems s) q" using bk(4) by (simp add: settlementOk_def settlementLinks_def)
    moreover have "payoutOk bs items (g q) = payoutOk bs items q" for bs items
      using assms(2) by (simp add: payoutOk_def payoutNote_def cong: option.case_cong)
    ultimately show ?thesis using q(2) by simp
  qed
  moreover have "\<exists>p \<in> set (updateWhere P g (payouts s)). po_batchId p = Some (ba_id x)" if "x \<in> set (batches s)" for x
    using ex [of _ "Some (ba_id x)"] bk(4) that unfolding settlementOk_def by metis
  ultimately have "settlementOk ?s" using bk(4) by (simp add: settlementOk_def settlementLinks_def)
  moreover have "idsFresh ?s" using bk(3) by (simp add: idsFresh_def)
  ultimately show ?thesis
    using reconciled_frame [OF bk(1) _ _ sb] linked_frame [OF bk(2) _ sb] by (intro booksI) simp_all
qed

section \<open>Sales\<close>

text \<open>The table of sales may change as long as the bookings of the sales on the ledger stay.\<close>

lemma books_sales:
  assumes "books s" "ledger s' = ledger s" "summaries s' = summaries s" "batches s' = batches s" "payouts s' = payouts s"
    "batchItems s' = batchItems s" "uuidGen s' = uuidGen s" "uuidNext s \<le> uuidNext s'"
    "\<And>e i. e \<in> set (ledger s) \<Longrightarrow> le_saleId e = Some i \<Longrightarrow> saleBooking s' i = saleBooking s i"
    "distinct (map sa_id (sales s'))" "\<forall>i \<in> set (map sa_id (sales s')). \<forall>n \<ge> uuidNext s'. i \<noteq> uuidGen s n"
  shows "books s'"
proof (rule booksI)
  have bk: "reconciled s" "linked s" "idsFresh s" "settlementOk s" using assms(1) by (simp_all add: books_def)
  have key: "ledgerKey s' e = ledgerKey s e" if "e \<in> set (ledger s)" for e
    using assms(9) [OF that] by (cases "le_saleId e") (simp_all add: ledgerKey_def bucketMonth_def split: option.split)
  have "ledgerSum st s' k = ledgerSum st s k" for st k
    unfolding ledgerSum_def assms(2) by (rule sumWhere_cong) (use key in auto)
  then show "reconciled s'" using bk(1) colSum_frame [OF assms(3)] by (simp add: reconciled_def)
  have "rowLinked (saleBooking s') e" if "e \<in> set (ledger s)" for e
    using bk(2) that assms(9) [OF that] by (auto simp: linked_def rowLinked_def split: option.splits)
  then show "linked s'" unfolding linked_def assms(2) by blast
  show "idsFresh s'" using bk(3) assms(8,10,11) unfolding idsFresh_def assms(2,7) by auto
  have "keepsRow s s' e e" if "e \<in> set (ledger s)" for e using key [OF that] by (simp add: keepsRow_def)
  then show "settlementOk s'"
    using settlementOk_keeps [OF bk(4) assms(4-8)] unfolding assms(2) by blast
qed

lemma findSale_append: "findSale (s\<lparr>sales := sales s @ [row]\<rparr>) i = (case findSale s i of None \<Rightarrow> if sa_id row = i then Some row else None | Some x \<Rightarrow> Some x)"
  by (simp add: findSale_def find_append split: option.split)

lemma books_newSale:
  assumes "books s" "sa_id row = freshId s" "sa_summaryMonth row = None"
  shows "books ((drawId s)\<lparr>sales := sales s @ [row]\<rparr>)"
proof -
  let ?s = "(drawId s)\<lparr>sales := sales s @ [row]\<rparr>"
  have ids: "distinct (map sa_id (sales s))" "\<forall>i \<in> set (map sa_id (sales s)). \<forall>n \<ge> uuidNext s. i \<noteq> uuidGen s n" "inj (uuidGen s)"
    using assms(1) by (simp_all add: books_def idsFresh_def)
  have new: "freshId s \<notin> set (map sa_id (sales s))" using ids(2) unfolding freshId_def by blast
  have "saleBooking ?s i = saleBooking s i" for i
    using assms(3) by (simp add: saleBooking_def findSale_def find_append split: option.split)
  moreover have "i \<noteq> uuidGen s n" if "i \<in> set (map sa_id (sales ?s))" "uuidNext ?s \<le> n" for i n
  proof (cases "i = freshId s")
    case True
    then show ?thesis using that(2) ids(3) by (auto simp: freshId_def drawId_def inj_eq)
  next
    case False
    then have "i \<in> set (map sa_id (sales s))" using that(1) assms(2) by (auto simp: drawId_def)
    moreover have "uuidNext s \<le> n" using that(2) by (simp add: drawId_def)
    ultimately show ?thesis using ids(2) by blast
  qed
  ultimately show ?thesis
    using ids(1) new assms(2) by (intro books_sales [OF assms(1)]) (simp_all add: drawId_def)
qed

text \<open>\<open>sale.delete\<close> under the foreign key \<open>ON DELETE RESTRICT\<close> of the ledger.\<close>

lemma books_removeSale:
  assumes "books s" "\<And>e. e \<in> set (ledger s) \<Longrightarrow> le_saleId e \<noteq> Some i"
  shows "books (s\<lparr>sales := filter (\<lambda>r. sa_id r \<noteq> i) (sales s)\<rparr>)"
proof -
  let ?s = "s\<lparr>sales := filter (\<lambda>r. sa_id r \<noteq> i) (sales s)\<rparr>"
  have f: "find (\<lambda>r. sa_id r = j) (filter (\<lambda>r. sa_id r \<noteq> i) rs) = find (\<lambda>r. sa_id r = j) rs" if "j \<noteq> i" for j and rs :: "sale list"
    using that by (induction rs) auto
  have ids: "distinct (map sa_id (sales s))" "\<forall>i \<in> set (map sa_id (sales s)). \<forall>n \<ge> uuidNext s. i \<noteq> uuidGen s n"
    using assms(1) by (simp_all add: books_def idsFresh_def)
  show ?thesis
  proof (rule books_sales [OF assms(1)])
    show "saleBooking ?s j = saleBooking s j" if "e \<in> set (ledger s)" "le_saleId e = Some j" for e j
      using f [of j "sales s"] assms(2) [OF that(1)] that(2) by (simp add: saleBooking_def findSale_def)
    show "distinct (map sa_id (sales ?s))" using ids(1) by (simp add: distinct_map_filter)
    show "\<forall>j \<in> set (map sa_id (sales ?s)). \<forall>n \<ge> uuidNext ?s. j \<noteq> uuidGen s n" using ids(2) by auto
  qed simp_all
qed

end
