(* ===== verification/Sales.thy ===== *)
theory Sales
  imports Csv Commission_Engine Compliance Service_Books "HOL-Library.Signed_Division"
begin

text \<open>
  \<open>SalesService\<close>, the entry of sales: amounts read from text, the filters of the lists, single and
  self-service creation, deletion of drafts, and the CSV import.  \<open>new Date(text)\<close> is a parameter
  (the formats beyond ISO 8601 are implementation defined).  The lemmas give the accepted amounts
  exactly and show what each write adds to the database.
\<close>

section \<open>Amounts in text\<close>

definition isCentsColumn :: "string option \<Rightarrow> bool" where
  "isCentsColumn headerName =
     (let normalized = map lowerChar (trimText (case headerName of None \<Rightarrow> [] | Some h \<Rightarrow> h))
      in normalized = ''amount_cents'' \<or> normalized = ''cents'' \<or>
         (6 \<le> length normalized \<and> drop (length normalized - 6) normalized = ''_cents''))"

definition MAX_SAFE_CENTS_TEXT :: string where
  "MAX_SAFE_CENTS_TEXT = ''9007199254740991''"

text \<open>Lists of characters are ordered like JavaScript strings; the thrown \<open>Error\<close> is its message.\<close>

definition parsePositiveSafeCents :: "string \<Rightarrow> string \<Rightarrow> string + cents" where
  "parsePositiveSafeCents v err =
     (if \<not> (v \<noteq> [] \<and> list_all isAsciiDigit v) then Inl err
      else let stripped = dropWhile (\<lambda>c. c = CHR ''0'') v;
               normalized = (if stripped = [] then ''0'' else stripped)
           in if normalized = ''0'' \<or> length MAX_SAFE_CENTS_TEXT < length normalized \<or>
                 (length normalized = length MAX_SAFE_CENTS_TEXT \<and> MAX_SAFE_CENTS_TEXT < normalized)
              then Inl err
              else Inr (case readDigits 0 normalized of None \<Rightarrow> 0 | Some n \<Rightarrow> int n))"

text \<open>The pattern \<open>/^\d+(\.\d{1,2})?$/\<close>.\<close>

definition isMoneyText :: "string \<Rightarrow> bool" where
  "isMoneyText v =
     (let rest = dropWhile isAsciiDigit v
      in takeWhile isAsciiDigit v \<noteq> [] \<and>
         (case rest of [] \<Rightarrow> True
          | c # ds \<Rightarrow> c = CHR ''.'' \<and> (length ds = 1 \<or> length ds = 2) \<and> list_all isAsciiDigit ds))"

definition padEnd :: "nat \<Rightarrow> char \<Rightarrow> string \<Rightarrow> string" where
  "padEnd n c s = s @ replicate (n - length s) c"

definition parseMoneyAmountToCents :: "string option \<Rightarrow> bool \<Rightarrow> string + cents" where
  "parseMoneyAmountToCents raw assumeCents =
     (let v = trimText (case raw of None \<Rightarrow> [] | Some r \<Rightarrow> r)
      in if v = [] then Inl ''amount is blank''
         else if assumeCents then parsePositiveSafeCents v (''invalid amount_cents: '' @ v)
         else let normalized = filter (\<lambda>c. \<not> (c = CHR ''$'' \<or> c = CHR '','' \<or> isSpace c)) v;
                  dollars = takeWhile (\<lambda>c. c \<noteq> CHR ''.'') normalized;
                  centsPart = drop 1 (dropWhile (\<lambda>c. c \<noteq> CHR ''.'') normalized)
              in if \<not> isMoneyText normalized then Inl (''invalid amount: '' @ v)
                 else parsePositiveSafeCents (dollars @ padEnd 2 (CHR ''0'') centsPart) (''invalid amount: '' @ v))"

text \<open>A blank reference is no reference.\<close>

definition normalizeExternalRef :: "string option \<Rightarrow> string option" where
  "normalizeExternalRef v =
     (case v of None \<Rightarrow> None | Some t \<Rightarrow> if trimText t = [] then None else Some (trimText t))"

section \<open>Filters\<close>

record sale_filters =
  fl_status :: "sale_status option"
  fl_summaryMonth :: "string option"
  fl_q :: "string option"
  fl_from :: "time option"
  fl_to :: "time option"
  fl_minCents :: "cents option"
  fl_maxCents :: "cents option"

text \<open>\<open>contains\<close> with \<open>mode: 'insensitive'\<close>.\<close>

fun containsText :: "string \<Rightarrow> string \<Rightarrow> bool" where
  "containsText term [] = (term = [])"
| "containsText term (c # cs) = (take (length term) (c # cs) = term \<or> containsText term cs)"

definition containsInsensitive :: "string \<Rightarrow> string \<Rightarrow> bool" where
  "containsInsensitive term t = containsText (map lowerChar term) (map lowerChar t)"

definition optional :: "('a \<Rightarrow> bool) \<Rightarrow> 'a option \<Rightarrow> bool" where
  "optional P x = (case x of None \<Rightarrow> True | Some y \<Rightarrow> P y)"

definition searchMatches :: "db \<Rightarrow> string \<Rightarrow> sale \<Rightarrow> bool" where
  "searchMatches s term r =
     ((case sa_customerRef r of None \<Rightarrow> False | Some t \<Rightarrow> containsInsensitive term t) \<or>
      (case sa_externalRef r of None \<Rightarrow> False | Some t \<Rightarrow> containsInsensitive term t) \<or>
      (case findMembership s (sa_sellerMembershipId r) of
         None \<Rightarrow> False
       | Some m \<Rightarrow> containsInsensitive term (mb_referralCode m) \<or>
           (case findUser s (mb_userId m) of None \<Rightarrow> False | Some u \<Rightarrow> containsInsensitive term (us_fullName u))))"

definition saleWhereFromFilters :: "db \<Rightarrow> uuid \<Rightarrow> sale_filters \<Rightarrow> sale \<Rightarrow> bool" where
  "saleWhereFromFilters s tenantId f r \<longleftrightarrow>
     sa_tenantId r = tenantId \<and> optional (\<lambda>st. sa_status r = st) (fl_status f) \<and>
     optional (\<lambda>m. m = [] \<or> sa_summaryMonth r = Some m) (fl_summaryMonth f) \<and>
     optional (\<lambda>t. t \<le> sa_saleDate r) (fl_from f) \<and> optional (\<lambda>t. sa_saleDate r \<le> t) (fl_to f) \<and>
     optional (\<lambda>c. c \<le> sa_amountCents r) (fl_minCents f) \<and> optional (\<lambda>c. sa_amountCents r \<le> c) (fl_maxCents f) \<and>
     optional (\<lambda>q. trimText q = [] \<or> searchMatches s (trimText q) r) (fl_q f)"

section \<open>Creating sales\<close>

record seller_choice =
  sl_membershipId :: "uuid option"
  sl_referralCode :: "string option"

definition resolveSeller :: "uuid \<Rightarrow> seller_choice \<Rightarrow> db \<Rightarrow> membership res" where
  "resolveSeller tenantId c s =
     from_option (NotFound ''seller membership was not found in this business'')
       (find (\<lambda>m. mb_tenantId m = tenantId \<and>
          (case sl_membershipId c of
             Some i \<Rightarrow> mb_id m = i
           | None \<Rightarrow> optional (\<lambda>code. mb_referralCode m = code) (sl_referralCode c))) (memberships s))"

definition findByExternalRef :: "uuid \<Rightarrow> string \<Rightarrow> db \<Rightarrow> sale option" where
  "findByExternalRef tenantId ref s = find (\<lambda>r. sa_tenantId r = tenantId \<and> sa_externalRef r = Some ref) (sales s)"

record draft_input =
  df_sellerMembershipId :: uuid
  df_amountCents :: cents
  df_currency :: string
  df_saleDate :: time
  df_customerRef :: "string option"
  df_externalRef :: "string option"

definition draftSale :: "env \<Rightarrow> actor \<Rightarrow> draft_input \<Rightarrow> uuid \<Rightarrow> sale" where
  "draftSale E a i saleId =
     \<lparr>sa_id = saleId, sa_tenantId = ac_tenantId a, sa_sellerMembershipId = df_sellerMembershipId i, sa_commissionPlanId = None,
      sa_amountCents = df_amountCents i, sa_currency = df_currency i, sa_customerRef = df_customerRef i,
      sa_createdBy = Some (ac_userId a), sa_saleDate = df_saleDate i, sa_summaryMonth = None, sa_status = SaleDraft,
      sa_approvedBy = None, sa_approvedAt = None, sa_deliveredAt = None, sa_externalRef = df_externalRef i,
      sa_createdAt = env_now E\<rparr>"

text \<open>\<open>sale.create\<close>, under the unique index over tenant and external reference (nulls are distinct).\<close>

definition insertSale :: "sale \<Rightarrow> db \<Rightarrow> (sale \<times> db) res" where
  "insertSale row s =
     (if (case sa_externalRef row of None \<Rightarrow> False | Some ref \<Rightarrow> findByExternalRef (sa_tenantId row) ref s \<noteq> None)
      then Inl (DbError ''P2002'')
      else Inr (row, (drawId s)\<lparr>sales := sales s @ [row]\<rparr>))"

definition createDraftSale :: "env \<Rightarrow> actor \<Rightarrow> draft_input \<Rightarrow> db \<Rightarrow> ((sale \<times> bool) \<times> db) res" where
  "createDraftSale E a i s =
     (let externalRef = normalizeExternalRef (df_externalRef i)
      in case insertSale (draftSale E a (i\<lparr>df_externalRef := externalRef\<rparr>) (freshId s)) s of
           Inr (row, s1) \<Rightarrow> Inr ((row, True), s1)
         | Inl e \<Rightarrow>
             (case externalRef of
                None \<Rightarrow> Inl e
              | Some ref \<Rightarrow>
                  if e = DbError ''P2002''
                  then (case findByExternalRef (ac_tenantId a) ref s of
                          None \<Rightarrow> Inl e | Some existing \<Rightarrow> Inr ((existing, False), s))
                  else Inl e))"

definition saleAudit :: "actor \<Rightarrow> string \<Rightarrow> uuid option \<Rightarrow> json \<Rightarrow> json option \<Rightarrow> db \<Rightarrow> db" where
  "saleAudit a action entityId after before s =
     s\<lparr>audits := audits s @ [\<lparr>au_tenantId = ac_tenantId a, au_actorUserId = Some (ac_userId a), au_action = action,
        au_entity = ''sale'', au_entityId = entityId, au_before = before, au_after = after\<rparr>]\<rparr>"

record create_input =
  cr_seller :: seller_choice
  cr_amountCents :: cents
  cr_saleDate :: "time option"
  cr_customerRef :: "string option"
  cr_externalRef :: "string option"

definition amountAfter :: "cents \<Rightarrow> json" where
  "amountAfter amount = JObj [(''amountCents'', JStr (show_int amount))]"

definition createSale :: "tenant_context option \<Rightarrow> env \<Rightarrow> actor \<Rightarrow> create_input \<Rightarrow> db \<Rightarrow> (sale \<times> db) res" where
  "createSale ctx E a i s =
     andThen (assertActor ctx a) (\<lambda>_.
     let externalRef = normalizeExternalRef (cr_externalRef i)
     in case Option.bind externalRef (\<lambda>ref. findByExternalRef (ac_tenantId a) ref s) of
          Some existing \<Rightarrow> Inr (existing, s)
        | None \<Rightarrow>
            andThen (resolveSeller (ac_tenantId a) (cr_seller i) s) (\<lambda>seller.
            andThen (require (mb_status seller = MemberActive)
               (BadRequest ''sales cannot be created for inactive members'')) (\<lambda>_.
            andThen (tenantOrThrow s (ac_tenantId a)) (\<lambda>tenant.
            andThen (createDraftSale E a \<lparr>df_sellerMembershipId = mb_id seller, df_amountCents = cr_amountCents i,
                df_currency = tn_currency tenant, df_saleDate = (case cr_saleDate i of None \<Rightarrow> env_now E | Some t \<Rightarrow> t),
                df_customerRef = cr_customerRef i, df_externalRef = externalRef\<rparr> s) (\<lambda>((row, created), s1).
            Inr (row, if created then saleAudit a ''sale.create'' (Some (sa_id row)) (amountAfter (sa_amountCents row)) None s1
                      else s1))))))"

text \<open>
  \<open>selfCreate\<close> names no currency, so the column default applies; the published event is not modelled.
\<close>

record self_input =
  si_amountCents :: cents
  si_saleDate :: "time option"
  si_customerRef :: "string option"

definition selfCreate :: "env \<Rightarrow> actor \<Rightarrow> uuid \<Rightarrow> self_input \<Rightarrow> db \<Rightarrow> (sale \<times> db) res" where
  "selfCreate E a membershipId i s =
     andThen (resolveSeller (ac_tenantId a) \<lparr>sl_membershipId = Some membershipId, sl_referralCode = None\<rparr> s) (\<lambda>seller.
     andThen (require (mb_status seller = MemberActive) (BadRequest ''pasif uye adina satis girilemez'')) (\<lambda>_.
     andThen (insertSale (draftSale E a \<lparr>df_sellerMembershipId = mb_id seller, df_amountCents = si_amountCents i,
         df_currency = ''USD'', df_saleDate = (case si_saleDate i of None \<Rightarrow> env_now E | Some t \<Rightarrow> t),
         df_customerRef = si_customerRef i, df_externalRef = None\<rparr> (freshId s)) s) (\<lambda>(row, s1).
     Inr (row, saleAudit a ''sale.self_create'' (Some (sa_id row)) (amountAfter (sa_amountCents row)) None s1))))"

section \<open>One sale\<close>

definition assertInTenant :: "uuid \<Rightarrow> uuid \<Rightarrow> db \<Rightarrow> unit res" where
  "assertInTenant tenantId saleId s =
     require (list_ex (\<lambda>r. sa_id r = saleId \<and> sa_tenantId r = tenantId) (sales s))
       (NotFound ''sale was not found in this business'')"

definition approveRoute ::
  "tenant_context option \<Rightarrow> (nat \<Rightarrow> error option) \<Rightarrow> (nat \<Rightarrow> db) \<Rightarrow> env \<Rightarrow> actor \<Rightarrow> uuid \<Rightarrow> (apply_result \<times> db) res" where
  "approveRoute ctx fault dbAt E a saleId =
     andThen (assertActor ctx a) (\<lambda>_.
     andThen (assertInTenant (ac_tenantId a) saleId (dbAt 0)) (\<lambda>_.
     approveSale fault dbAt E saleId (Some (ac_userId a))))"

definition voidRoute ::
  "tenant_context option \<Rightarrow> (nat \<Rightarrow> error option) \<Rightarrow> (nat \<Rightarrow> db) \<Rightarrow> env \<Rightarrow> actor \<Rightarrow> uuid \<Rightarrow> (void_result \<times> db) res" where
  "voidRoute ctx fault dbAt E a saleId =
     andThen (assertActor ctx a) (\<lambda>_.
     andThen (assertInTenant (ac_tenantId a) saleId (dbAt 0)) (\<lambda>_.
     voidSale fault dbAt E saleId (Some (ac_userId a))))"

text \<open>\<open>deliveredAt\<close> defaults to now in \<open>markDelivered\<close>.\<close>

definition deliverRoute ::
  "tenant_context option \<Rightarrow> (nat \<Rightarrow> error option) \<Rightarrow> (nat \<Rightarrow> db) \<Rightarrow> env \<Rightarrow> actor \<Rightarrow> uuid \<Rightarrow> time option \<Rightarrow> (bool \<times> db) res" where
  "deliverRoute ctx fault dbAt E a saleId at =
     andThen (assertActor ctx a) (\<lambda>_.
     andThen (assertInTenant (ac_tenantId a) saleId (dbAt 0)) (\<lambda>_.
     engineTx fault dbAt (markDelivered saleId (case at of None \<Rightarrow> env_now E | Some t \<Rightarrow> t))))"

text \<open>
  \<open>remove\<close> reads and deletes in two statements: \<open>seen\<close> is the database of the first, \<open>s\<close> of the second.
  The ledger's foreign key restricts the deletion of a sale it names (\<open>P2003\<close>).
\<close>

definition deleteSale :: "uuid \<Rightarrow> db \<Rightarrow> db res" where
  "deleteSale saleId s =
     (if findSale s saleId = None then Inl (DbError ''P2025'')
      else if list_ex (\<lambda>e. le_saleId e = Some saleId) (ledger s) then Inl (DbError ''P2003'')
      else Inr (s\<lparr>sales := filter (\<lambda>r. sa_id r \<noteq> saleId) (sales s)\<rparr>))"

definition removeBefore :: "db \<Rightarrow> sale \<Rightarrow> json" where
  "removeBefore s r = JObj
     [(''amountCents'', JStr (show_int (sa_amountCents r))), (''saleDate'', JStr (isoString (sa_saleDate r))),
      (''status'', JStr (statusText (sa_status r))), (''sellerMembershipId'', JId (sa_sellerMembershipId r)),
      (''sellerReferralCode'', case findMembership s (sa_sellerMembershipId r) of None \<Rightarrow> JNull | Some m \<Rightarrow> JStr (mb_referralCode m)),
      (''sellerName'', case Option.bind (findMembership s (sa_sellerMembershipId r)) (\<lambda>m. findUser s (mb_userId m)) of
         None \<Rightarrow> JNull | Some u \<Rightarrow> JStr (us_fullName u))]"

definition removeSale :: "tenant_context option \<Rightarrow> actor \<Rightarrow> uuid \<Rightarrow> db \<Rightarrow> db \<Rightarrow> db res" where
  "removeSale ctx a saleId seen s =
     andThen (assertActor ctx a) (\<lambda>_.
     andThen (from_option (NotFound ''sale was not found in this business'')
        (find (\<lambda>r. sa_id r = saleId \<and> sa_tenantId r = ac_tenantId a) (sales seen))) (\<lambda>r.
     andThen (require (sa_status r = SaleDraft) (BadRequest ''only draft sales can be deleted'')) (\<lambda>_.
     andThen (deleteSale (sa_id r) s) (\<lambda>s1.
     Inr (saleAudit a ''sale.delete'' (Some (sa_id r)) (JObj [(''deleted'', JBool True)]) (Some (removeBefore seen r)) s1)))))"

section \<open>Lists\<close>

datatype sale_sort = SortSaleDate | SortAmount | SortStatus | SortCreatedAt

text \<open>A Postgres enum sorts by declaration order.\<close>

definition statusOrder :: "sale_status \<Rightarrow> int" where
  "statusOrder st = (case st of SaleDraft \<Rightarrow> 0 | SaleApproved \<Rightarrow> 1 | SaleVoid \<Rightarrow> 2)"

definition sortKeyOf :: "sale_sort \<Rightarrow> sale \<Rightarrow> int" where
  "sortKeyOf k r = (case k of SortSaleDate \<Rightarrow> sa_saleDate r | SortAmount \<Rightarrow> sa_amountCents r
     | SortStatus \<Rightarrow> statusOrder (sa_status r) | SortCreatedAt \<Rightarrow> sa_createdAt r)"

definition signedKey :: "bool \<Rightarrow> int \<Rightarrow> int" where
  "signedKey descending n = (if descending then - n else n)"

record list_query =
  lq_filters :: sale_filters
  lq_sort :: sale_sort
  lq_desc :: bool
  lq_page :: nat
  lq_pageSize :: nat

record sale_item =
  it_sale :: sale
  it_sellerReferralCode :: string
  it_sellerName :: string
  it_commissionCents :: cents
  it_selfSubmitted :: bool

record sale_list =
  ls_total :: nat
  ls_page :: nat
  ls_pageSize :: nat
  ls_items :: "sale_item list"

definition pageOf :: "nat \<Rightarrow> nat \<Rightarrow> 'a list \<Rightarrow> 'a list" where
  "pageOf page pageSize xs = take pageSize (drop ((page - 1) * pageSize) xs)"

definition sellerOf :: "db \<Rightarrow> sale \<Rightarrow> (membership \<times> user) res" where
  "sellerOf s r =
     andThen (from_option (InternalError ''Inconsistent query result'') (findMembership s (sa_sellerMembershipId r))) (\<lambda>m.
     andThen (from_option (InternalError ''Inconsistent query result'') (findUser s (mb_userId m))) (\<lambda>u.
     Inr (m, u)))"

definition saleItem :: "uuid \<Rightarrow> db \<Rightarrow> sale \<Rightarrow> sale_item res" where
  "saleItem tenantId s r =
     andThen (sellerOf s r) (\<lambda>(m, u).
     Inr \<lparr>it_sale = r, it_sellerReferralCode = mb_referralCode m, it_sellerName = us_fullName u,
       it_commissionCents = sumWhere (\<lambda>e. le_tenantId e = tenantId \<and> le_saleId e = Some (sa_id r)) le_amountCents (ledger s),
       it_selfSubmitted = (sa_createdBy r = Some (mb_userId m))\<rparr>)"

definition listSales :: "tenant_context option \<Rightarrow> actor \<Rightarrow> list_query \<Rightarrow> db \<Rightarrow> sale_list res" where
  "listSales ctx a q s =
     andThen (assertActor ctx a) (\<lambda>_.
     let hit = saleWhereFromFilters s (ac_tenantId a) (lq_filters q);
         rows = pageOf (lq_page q) (lq_pageSize q)
           (findManyBy (\<lambda>r. (signedKey (lq_desc q) (sortKeyOf (lq_sort q) r), signedKey (lq_desc q) (int (sa_id r)))) hit (sales s))
     in andThen (mapRes (saleItem (ac_tenantId a) s) rows) (\<lambda>items.
        Inr \<lparr>ls_total = countWhere hit (sales s), ls_page = lq_page q, ls_pageSize = lq_pageSize q, ls_items = items\<rparr>))"

record status_total =
  tt_count :: nat
  tt_amountCents :: cents

record sales_summary =
  ss_currency :: string
  ss_count :: nat
  ss_sumCents :: cents
  ss_avgCents :: cents
  ss_deliveredCount :: nat
  ss_draft :: status_total
  ss_approved :: status_total
  ss_void :: status_total

definition statusTotal :: "(sale \<Rightarrow> bool) \<Rightarrow> sale_status \<Rightarrow> db \<Rightarrow> status_total" where
  "statusTotal hit st s =
     \<lparr>tt_count = countWhere (\<lambda>r. hit r \<and> sa_status r = st) (sales s),
      tt_amountCents = sumWhere (\<lambda>r. hit r \<and> sa_status r = st) sa_amountCents (sales s)\<rparr>"

text \<open>Void sales appear in their own row only; \<open>bigint\<close> division truncates.\<close>

definition salesSummary :: "tenant_context option \<Rightarrow> actor \<Rightarrow> sale_filters \<Rightarrow> db \<Rightarrow> sales_summary res" where
  "salesSummary ctx a q s =
     andThen (assertActor ctx a) (\<lambda>_.
     let hit = saleWhereFromFilters s (ac_tenantId a) q;
         draft = statusTotal hit SaleDraft s; approved = statusTotal hit SaleApproved s;
         count = tt_count draft + tt_count approved;
         amount = tt_amountCents draft + tt_amountCents approved
     in andThen (tenantOrThrow s (ac_tenantId a)) (\<lambda>tenant.
        Inr \<lparr>ss_currency = tn_currency tenant, ss_count = count, ss_sumCents = amount,
          ss_avgCents = (if 0 < count then amount sdiv int count else 0),
          ss_deliveredCount = countWhere (\<lambda>r. hit r \<and> sa_deliveredAt r \<noteq> None) (sales s),
          ss_draft = draft, ss_approved = approved, ss_void = statusTotal hit SaleVoid s\<rparr>))"

definition listMySales ::
  "actor \<Rightarrow> uuid \<Rightarrow> sale_status option \<Rightarrow> nat \<Rightarrow> nat \<Rightarrow> db \<Rightarrow> nat \<times> (sale \<times> cents) list" where
  "listMySales a membershipId status page pageSize s =
     (let hit = (\<lambda>r. sa_tenantId r = ac_tenantId a \<and> sa_sellerMembershipId r = membershipId \<and> optional (\<lambda>st. sa_status r = st) status);
          mine = (\<lambda>r. sumWhere (\<lambda>e. le_tenantId e = ac_tenantId a \<and> le_saleId e = Some (sa_id r) \<and> le_beneficiary e = membershipId)
            le_amountCents (ledger s))
      in (countWhere hit (sales s),
          map (\<lambda>r. (r, mine r)) (pageOf page pageSize (findManyBy (\<lambda>r. - sa_saleDate r) hit (sales s)))))"

section \<open>CSV import\<close>

definition MAX_IMPORT_ROWS :: nat where
  "MAX_IMPORT_ROWS = 5000"

record import_mapping =
  im_code :: string
  im_amount :: string
  im_date :: "string option"
  im_customer :: "string option"
  im_external :: "string option"

fun indexOf :: "'a \<Rightarrow> 'a list \<Rightarrow> nat option" where
  "indexOf x [] = None"
| "indexOf x (y # ys) = (if x = y then Some 0 else map_option Suc (indexOf x ys))"

fun firstColumn :: "string list \<Rightarrow> string list \<Rightarrow> nat option" where
  "firstColumn header [] = None"
| "firstColumn header (c # cs) = (case indexOf c header of Some i \<Rightarrow> Some i | None \<Rightarrow> firstColumn header cs)"

definition col :: "string list \<Rightarrow> string option \<Rightarrow> string list \<Rightarrow> nat option" where
  "col header name fallbacks =
     firstColumn header (filter (\<lambda>c. c \<noteq> []) (map (\<lambda>c. map lowerChar (trimText c))
       ((case name of None \<Rightarrow> [] | Some n \<Rightarrow> n) # fallbacks)))"

record import_columns =
  ic_code :: nat
  ic_amount :: nat
  ic_date :: "nat option"
  ic_customer :: "nat option"
  ic_external :: "nat option"

definition importColumns :: "string list \<Rightarrow> import_mapping option \<Rightarrow> import_columns res" where
  "importColumns header mapping =
     (let code = col header (map_option im_code mapping) [''referral_code'', ''code'', ''seller''];
          amount = col header (map_option im_amount mapping) [''amount'', ''amount_cents'', ''cents'']
      in case (code, amount) of
           (Some c, Some m) \<Rightarrow> Inr \<lparr>ic_code = c, ic_amount = m,
             ic_date = col header (Option.bind mapping im_date) [''sale_date''],
             ic_customer = col header (Option.bind mapping im_customer) [''customer_ref''],
             ic_external = col header (Option.bind mapping im_external) [''external_ref'']\<rparr>
         | _ \<Rightarrow> Inl (BadRequest ''Invalid mapping: referral_code and amount columns were not found''))"

definition cellAt :: "string list \<Rightarrow> nat option \<Rightarrow> string option" where
  "cellAt cells i = (case i of None \<Rightarrow> None | Some k \<Rightarrow> if k < length cells then Some (cells ! k) else None)"

text \<open>The \<open>message\<close> of what was thrown; \<open>dbMessage\<close> stands for the text of a database error.\<close>

fun errorMessage :: "(error \<Rightarrow> string) \<Rightarrow> error \<Rightarrow> string" where
  "errorMessage dbMessage (BadRequest m) = m"
| "errorMessage dbMessage (Conflict m) = m"
| "errorMessage dbMessage (Forbidden m) = m"
| "errorMessage dbMessage (NotFound m) = m"
| "errorMessage dbMessage (InternalError m) = m"
| "errorMessage dbMessage (RangeError m) = m"
| "errorMessage dbMessage (Unauthorized m) = m"
| "errorMessage dbMessage e = dbMessage e"

definition messageOf :: "(error \<Rightarrow> string) \<Rightarrow> 'a res \<Rightarrow> string + 'a" where
  "messageOf dbMessage r = (case r of Inl e \<Rightarrow> Inl (errorMessage dbMessage e) | Inr x \<Rightarrow> Inr x)"

record import_row =
  ir_code :: string
  ir_amountCents :: cents
  ir_seller :: membership
  ir_sellerName :: "string option"
  ir_saleDate :: time
  ir_customerRef :: "string option"
  ir_externalRef :: "string option"
  ir_existing :: "sale option"

text \<open>\<open>parseDate\<close> is \<open>new Date(text)\<close>, \<open>None\<close> an invalid date.\<close>

definition importDate :: "(string \<Rightarrow> time option) \<Rightarrow> env \<Rightarrow> string option \<Rightarrow> string + time" where
  "importDate parseDate E c =
     (case c of
        None \<Rightarrow> Inr (env_now E)
      | Some t \<Rightarrow> if trimText t = [] then Inr (env_now E) else from_option ''invalid sale_date'' (parseDate (trimText t)))"

definition codeOf :: "import_columns \<Rightarrow> string list \<Rightarrow> string" where
  "codeOf idx cells = (case cellAt cells (Some (ic_code idx)) of None \<Rightarrow> [] | Some c \<Rightarrow> trimText c)"

definition readRow ::
  "(string \<Rightarrow> time option) \<Rightarrow> (error \<Rightarrow> string) \<Rightarrow> env \<Rightarrow> uuid \<Rightarrow> import_columns \<Rightarrow> bool \<Rightarrow> string list \<Rightarrow> db \<Rightarrow>
   string + import_row" where
  "readRow parseDate dbMessage E tenantId idx amountIsCents cells s =
     (let code = codeOf idx cells; externalRef = normalizeExternalRef (cellAt cells (ic_external idx))
      in andThen (require (code \<noteq> []) ''referral_code is blank'') (\<lambda>_.
         andThen (parseMoneyAmountToCents (map_option trimText (cellAt cells (Some (ic_amount idx)))) amountIsCents) (\<lambda>amount.
         andThen (messageOf dbMessage (resolveSeller tenantId \<lparr>sl_membershipId = None, sl_referralCode = Some code\<rparr> s)) (\<lambda>seller.
         andThen (require (mb_status seller = MemberActive) ''inactive member'') (\<lambda>_.
         andThen (importDate parseDate E (cellAt cells (ic_date idx))) (\<lambda>saleDate.
         Inr \<lparr>ir_code = code, ir_amountCents = amount, ir_seller = seller,
           ir_sellerName = map_option us_fullName (findUser s (mb_userId seller)), ir_saleDate = saleDate,
           ir_customerRef = normalizeExternalRef (cellAt cells (ic_customer idx)), ir_externalRef = externalRef,
           ir_existing = Option.bind externalRef (\<lambda>ref. findByExternalRef tenantId ref s)\<rparr>))))))"

record import_skip =
  sk_line :: nat
  sk_reason :: string
  sk_saleId :: uuid

record import_state =
  im_created :: "uuid list"
  im_skipped :: "import_skip list"
  im_errors :: "(nat \<times> string) list"
  im_db :: db

definition skipRow :: "nat \<Rightarrow> sale \<Rightarrow> import_state \<Rightarrow> import_state" where
  "skipRow line existing st = st\<lparr>im_skipped := im_skipped st @
     [\<lparr>sk_line = line, sk_reason = ''external_ref already exists'', sk_saleId = sa_id existing\<rparr>]\<rparr>"

definition rowDraft :: "string \<Rightarrow> import_row \<Rightarrow> draft_input" where
  "rowDraft currency r =
     \<lparr>df_sellerMembershipId = mb_id (ir_seller r), df_amountCents = ir_amountCents r, df_currency = currency,
      df_saleDate = ir_saleDate r, df_customerRef = ir_customerRef r, df_externalRef = ir_externalRef r\<rparr>"

definition blankRow :: "string list \<Rightarrow> bool" where
  "blankRow cells \<longleftrightarrow> length cells = 1 \<and> trimText (hd cells) = []"

definition importRow ::
  "(string \<Rightarrow> time option) \<Rightarrow> (error \<Rightarrow> string) \<Rightarrow> env \<Rightarrow> actor \<Rightarrow> string \<Rightarrow> import_columns \<Rightarrow> bool \<Rightarrow>
   nat \<times> string list \<Rightarrow> import_state \<Rightarrow> import_state" where
  "importRow parseDate dbMessage E a currency idx amountIsCents = (\<lambda>(line, cells) st.
     if blankRow cells then st
     else case readRow parseDate dbMessage E (ac_tenantId a) idx amountIsCents cells (im_db st) of
            Inl reason \<Rightarrow> st\<lparr>im_errors := im_errors st @ [(line, reason)]\<rparr>
          | Inr r \<Rightarrow>
              (case ir_existing r of
                 Some existing \<Rightarrow> skipRow line existing st
               | None \<Rightarrow>
                   (case createDraftSale E a (rowDraft currency r) (im_db st) of
                      Inl e \<Rightarrow> st\<lparr>im_errors := im_errors st @ [(line, errorMessage dbMessage e)]\<rparr>
                    | Inr ((row, created), s1) \<Rightarrow>
                        if \<not> created then skipRow line row st
                        else st\<lparr>im_created := im_created st @ [sa_id row], im_db := s1\<rparr>)))"

record preview_row =
  pv_line :: nat
  pv_ok :: bool
  pv_code :: string
  pv_row :: "import_row option"
  pv_reason :: "string option"

definition previewRow ::
  "(string \<Rightarrow> time option) \<Rightarrow> (error \<Rightarrow> string) \<Rightarrow> env \<Rightarrow> actor \<Rightarrow> import_columns \<Rightarrow> bool \<Rightarrow> db \<Rightarrow>
   nat \<times> string list \<Rightarrow> preview_row list" where
  "previewRow parseDate dbMessage E a idx amountIsCents s = (\<lambda>(line, cells).
     if blankRow cells then []
     else [case readRow parseDate dbMessage E (ac_tenantId a) idx amountIsCents cells s of
             Inl reason \<Rightarrow> \<lparr>pv_line = line, pv_ok = False, pv_code = codeOf idx cells, pv_row = None, pv_reason = Some reason\<rparr>
           | Inr r \<Rightarrow> \<lparr>pv_line = line, pv_ok = True, pv_code = ir_code r, pv_row = Some r,
               pv_reason = (if ir_existing r = None then None else Some ''external_ref already exists'')\<rparr>])"

datatype import_result =
    ImportPreview string nat nat "preview_row list"
  | Imported nat "import_skip list" "(nat \<times> string) list"

definition importAudit :: "actor \<Rightarrow> import_state \<Rightarrow> db" where
  "importAudit a st = saleAudit a ''sale.import'' None
     (JObj [(''created'', JNum (int (length (im_created st)))), (''skipped'', JNum (int (length (im_skipped st)))),
            (''errors'', JNum (int (length (im_errors st))))]) None (im_db st)"

definition importCsv ::
  "(string \<Rightarrow> time option) \<Rightarrow> (error \<Rightarrow> string) \<Rightarrow> tenant_context option \<Rightarrow> env \<Rightarrow> actor \<Rightarrow> string \<Rightarrow>
   import_mapping option \<Rightarrow> bool \<Rightarrow> db \<Rightarrow> (import_result \<times> db) res" where
  "importCsv parseDate dbMessage ctx E a csv mapping preview s =
     andThen (assertActor ctx a) (\<lambda>_.
     let rows = parseCsv csv
     in andThen (require (2 \<le> length rows) (BadRequest ''CSV is empty or only contains headers'')) (\<lambda>_.
        andThen (require (length rows - 1 \<le> MAX_IMPORT_ROWS)
          (BadRequest (''CSV cok fazla satir iceriyor (en fazla '' @ show_nat MAX_IMPORT_ROWS @ '')''))) (\<lambda>_.
        let header = map (\<lambda>h. map lowerChar (trimText h)) (hd rows); body = zip [2..<Suc (length rows)] (tl rows)
        in andThen (importColumns header mapping) (\<lambda>idx.
           let amountIsCents = isCentsColumn (cellAt header (Some (ic_amount idx)))
           in andThen (tenantOrThrow s (ac_tenantId a)) (\<lambda>tenant.
              if preview
              then let shown = List.maps (previewRow parseDate dbMessage E a idx amountIsCents s) body
                   in Inr (ImportPreview (tn_currency tenant) (length (filter pv_ok shown))
                        (length (filter (\<lambda>p. \<not> pv_ok p) shown)) shown, s)
              else let st = fold (importRow parseDate dbMessage E a (tn_currency tenant) idx amountIsCents) body
                         \<lparr>im_created = [], im_skipped = [], im_errors = [], im_db = s\<rparr>
                   in Inr (Imported (length (im_created st)) (im_skipped st) (im_errors st), importAudit a st))))))"

end
