(* ===== verification/Sales_Bulk.thy ===== *)
theory Sales_Bulk
  imports Sales JsDate
begin

text \<open>
  Bulk approval and voiding of sales (\<open>bulk-scope.ts\<close> and the bulk part of \<open>SalesService\<close>): a signed
  review of a scope, and a confirmation that runs the engine's steps on the reviewed sales inside one
  transaction, recorded under an idempotency key.  Signing and opening a token (HMAC, base64url, JSON) are
  parameters; what the code decides with an opened token, and with a stored response, is modelled.
\<close>

section \<open>Scopes\<close>

datatype bulk_action = BulkApprove | BulkVoid

datatype bulk_scope = BulkSelected "uuid list" | BulkAllResults sale_filters

definition actionText :: "bulk_action \<Rightarrow> string" where
  "actionText x = (case x of BulkApprove \<Rightarrow> ''approve'' | BulkVoid \<Rightarrow> ''void'')"

text \<open>\<open>normalizeBulkScope\<close>; a date of the filters is valid here, its text is that of the instant.\<close>

definition normalizeBulkScope :: "bulk_scope \<Rightarrow> bulk_scope" where
  "normalizeBulkScope scope = (case scope of
      BulkSelected ids \<Rightarrow> BulkSelected (sort (remdups ids))
    | BulkAllResults f \<Rightarrow>
        BulkAllResults (f\<lparr>fl_q := (case fl_q f of None \<Rightarrow> None
          | Some q \<Rightarrow> (let query = map lowerChar (trimText q) in if query = [] then None else Some query))\<rparr>))"

definition field :: "string \<Rightarrow> ('a \<Rightarrow> json) \<Rightarrow> 'a option \<Rightarrow> (string \<times> json) list" where
  "field k f x = (case x of None \<Rightarrow> [] | Some y \<Rightarrow> [(k, f y)])"

definition bulkScopeJson :: "bulk_scope \<Rightarrow> json" where
  "bulkScopeJson scope = (case scope of
      BulkSelected ids \<Rightarrow> JObj [(''mode'', JStr ''selected''), (''ids'', JArr (map JId ids))]
    | BulkAllResults f \<Rightarrow> JObj [(''mode'', JStr ''all-results''), (''filters'', JObj
        (field ''status'' (\<lambda>st. JStr (statusText st)) (fl_status f) @ field ''summaryMonth'' JStr (fl_summaryMonth f) @
         field ''q'' JStr (fl_q f) @ field ''from'' (\<lambda>t. JStr (isoString t)) (fl_from f) @
         field ''to'' (\<lambda>t. JStr (isoString t)) (fl_to f) @ field ''minCents'' JNum (fl_minCents f) @
         field ''maxCents'' JNum (fl_maxCents f)))])"

definition bulkScopeFingerprint :: "env \<Rightarrow> bulk_scope \<Rightarrow> string" where
  "bulkScopeFingerprint E scope = env_sha256 E (bulkScopeJson scope)"

definition bulkSelectionFingerprint :: "env \<Rightarrow> json \<Rightarrow> string" where
  "bulkSelectionFingerprint E v = env_sha256 E v"

definition BULK_SCOPE_LIMIT :: nat where
  "BULK_SCOPE_LIMIT = 200"

definition salesForBulkScope :: "uuid \<Rightarrow> bulk_scope \<Rightarrow> db \<Rightarrow> sale list res" where
  "salesForBulkScope tenantId scope s = (case scope of
      BulkSelected ids \<Rightarrow>
        let rows = findManyBy sa_id (\<lambda>r. sa_tenantId r = tenantId \<and> sa_id r \<in> set ids) (sales s)
        in if length rows \<noteq> length ids then Inl (NotFound ''sale was not found in this business'') else Inr rows
    | BulkAllResults f \<Rightarrow>
        let rows = take (BULK_SCOPE_LIMIT + 1) (findManyBy sa_id (saleWhereFromFilters s tenantId f) (sales s))
        in if BULK_SCOPE_LIMIT < length rows
           then Inl (BadRequest ''sales bulk scope exceeds 200 results; narrow the filters'') else Inr rows)"

section \<open>The review\<close>

record bulk_review =
  bv_eligibleIds :: "uuid list"
  bv_excludedIds :: "uuid list"
  bv_eligibleCount :: nat
  bv_excludedCount :: nat
  bv_totals :: "(string \<times> cents) list"
  bv_selectionFingerprint :: string

definition upperCode :: "string \<Rightarrow> bool" where
  "upperCode t \<longleftrightarrow> length t = 3 \<and> list_all (\<lambda>c. 65 \<le> (of_char c :: nat) \<and> of_char c \<le> (90 :: nat)) t"

definition ledgerStatusText :: "ledger_status \<Rightarrow> string" where
  "ledgerStatusText st = (case st of LePending \<Rightarrow> ''pending'' | LePayable \<Rightarrow> ''payable'' | LeProcessing \<Rightarrow> ''processing''
     | LePaid \<Rightarrow> ''paid'' | LeReversed \<Rightarrow> ''reversed'')"

definition commissionsOf :: "db \<Rightarrow> uuid \<Rightarrow> ledger_entry list" where
  "commissionsOf s saleId = findManyBy le_id (\<lambda>e. le_saleId e = Some saleId \<and> le_type e = Commission) (ledger s)"

text \<open>The decision on one sale: for an approval also the inputs the engine would use.\<close>

definition bulkDecision :: "actor \<Rightarrow> bulk_action \<Rightarrow> tenant \<Rightarrow> sale \<Rightarrow> db \<Rightarrow> (bool \<times> json option) res" where
  "bulkDecision a action tenant r s = (case action of
      BulkApprove \<Rightarrow>
        let makerCheckerExcluded = (tn_requireSeparateApprover tenant \<and> sa_createdBy r = Some (ac_userId a))
        in if sa_status r = SaleDraft \<and> \<not> makerCheckerExcluded
           then andThen (reviewSaleApprovalInputs r s) (\<lambda>inputs. Inr (inputs \<noteq> None, inputs))
           else Inr (False, None)
    | BulkVoid \<Rightarrow>
        Inr ((sa_status r = SaleDraft \<or> sa_status r = SaleApproved) \<and>
             \<not> list_ex (\<lambda>e. le_status e = LeProcessing) (commissionsOf s (sa_id r)), None))"

definition selectionMaterial :: "bulk_action \<Rightarrow> db \<Rightarrow> sale \<Rightarrow> bool \<times> json option \<Rightarrow> json" where
  "selectionMaterial action s r = (\<lambda>(eligible, approvalInputs). JObj
     ([(''id'', JId (sa_id r)), (''decision'', JStr (if eligible then ''eligible'' else ''not_eligible'')),
       (''status'', JStr (statusText (sa_status r))), (''amountCents'', JStr (show_int (sa_amountCents r))),
       (''currency'', JStr (sa_currency r)), (''sellerMembershipId'', JId (sa_sellerMembershipId r)),
       (''saleDate'', JStr (isoString (sa_saleDate r))), (''summaryMonth'', jsonOrNull JStr (sa_summaryMonth r)),
       (''createdBy'', jsonOrNull JId (sa_createdBy r)),
       (''approvedAt'', jsonOrNull (\<lambda>t. JStr (isoString t)) (sa_approvedAt r)),
       (''deliveredAt'', jsonOrNull (\<lambda>t. JStr (isoString t)) (sa_deliveredAt r)),
       (''commissionLedger'', JArr (map (\<lambda>e. JObj
          [(''id'', JId (le_id e)), (''beneficiaryMembershipId'', JId (le_beneficiary e)), (''level'', JNum (int (le_level e))),
           (''rateBpsUsed'', JNum (le_rateBpsUsed e)), (''amountCents'', JStr (show_int (le_amountCents e))),
           (''status'', JStr (ledgerStatusText (le_status e)))]) (commissionsOf s (sa_id r))))] @
      (if action = BulkApprove
       then [(''approvalInputs'', case approvalInputs of None \<Rightarrow> JNull | Some j \<Rightarrow> j)] else [])))"

definition reviewSale :: "actor \<Rightarrow> bulk_action \<Rightarrow> tenant \<Rightarrow> db \<Rightarrow> sale \<Rightarrow> (sale \<times> bool \<times> json) res" where
  "reviewSale a action tenant s r =
     andThen (require (upperCode (sa_currency r)) (BadRequest ''a sale in this scope has an invalid currency'')) (\<lambda>_.
     andThen (require (0 < sa_amountCents r) (BadRequest ''a sale in this scope has an invalid amount'')) (\<lambda>_.
     andThen (bulkDecision a action tenant r s) (\<lambda>d.
     Inr (r, fst d, selectionMaterial action s r d))))"

definition totalsByCurrency :: "sale list \<Rightarrow> (string \<times> cents) list" where
  "totalsByCurrency rows =
     map (\<lambda>c. (c, sumWhere (\<lambda>r. sa_currency r = c) sa_amountCents rows)) (sort (remdups (map sa_currency rows)))"

definition reviewOf :: "env \<Rightarrow> bulk_action \<Rightarrow> tenant \<Rightarrow> (sale \<times> bool \<times> json) list \<Rightarrow> bulk_review" where
  "reviewOf E action tenant decided =
     (let eligible = map fst (filter (\<lambda>(r, ok, m). ok) decided); excluded = map fst (filter (\<lambda>(r, ok, m). \<not> ok) decided)
      in \<lparr>bv_eligibleIds = sort (map sa_id eligible), bv_excludedIds = sort (map sa_id excluded),
          bv_eligibleCount = length eligible, bv_excludedCount = length decided - length eligible,
          bv_totals = totalsByCurrency eligible,
          bv_selectionFingerprint = bulkSelectionFingerprint E (JObj
            [(''action'', JStr (actionText action)),
             (''requireSeparateApprover'', JBool (tn_requireSeparateApprover tenant)),
             (''sales'', JArr (map (\<lambda>(r, ok, m). m) decided))])\<rparr>)"

definition calculateBulkReview :: "env \<Rightarrow> actor \<Rightarrow> bulk_action \<Rightarrow> bulk_scope \<Rightarrow> db \<Rightarrow> bulk_review res" where
  "calculateBulkReview E a action scope s =
     andThen (tenantOrThrow s (ac_tenantId a)) (\<lambda>tenant.
     andThen (salesForBulkScope (ac_tenantId a) scope s) (\<lambda>rows.
     andThen (mapRes (reviewSale a action tenant s) rows) (\<lambda>decided.
     Inr (reviewOf E action tenant decided))))"

section \<open>Preview tokens\<close>

record bulk_token =
  bk_actorUserId :: uuid
  bk_tenantId :: uuid
  bk_action :: bulk_action
  bk_scopeFingerprint :: string
  bk_eligibleCount :: nat
  bk_excludedCount :: nat
  bk_totals :: "(string \<times> string) list"
  bk_selectionFingerprint :: string
  bk_expiresAt :: string

definition BULK_PREVIEW_TTL_MS :: int where
  "BULK_PREVIEW_TTL_MS = 5 * 60 * 1000"

definition BULK_PREVIEW_TOKEN_MAX_LENGTH :: nat where
  "BULK_PREVIEW_TOKEN_MAX_LENGTH = 4096"

definition bulkTotalTexts :: "bulk_review \<Rightarrow> (string \<times> string) list" where
  "bulkTotalTexts review = map (\<lambda>(currency, amount). (currency, show_int amount)) (bv_totals review)"

definition invalidBulkToken :: error where
  "invalidBulkToken = BadRequest ''invalid sales bulk preview token''"

definition signBulkPreviewToken :: "(bulk_token \<Rightarrow> string) \<Rightarrow> bulk_token \<Rightarrow> string res" where
  "signBulkPreviewToken signToken p =
     (if BULK_PREVIEW_TOKEN_MAX_LENGTH < length (signToken p) then Inl invalidBulkToken else Inr (signToken p))"

definition sha256Hex :: "string \<Rightarrow> bool" where
  "sha256Hex t \<longleftrightarrow> length t = 64 \<and> list_all (\<lambda>c. c \<in> set ''0123456789abcdef'') t"

text \<open>\<open>[1-9]\d*\<close>.\<close>

definition canonicalPositive :: "string \<Rightarrow> bool" where
  "canonicalPositive t = (case t of [] \<Rightarrow> False | c # cs \<Rightarrow> isAsciiDigit c \<and> c \<noteq> CHR ''0'' \<and> list_all isAsciiDigit cs)"

definition hasCanonicalTotals :: "(string \<times> string) list \<Rightarrow> bool" where
  "hasCanonicalTotals ts \<longleftrightarrow>
     list_all (\<lambda>(currency, amount). upperCode currency \<and> canonicalPositive amount) ts \<and> sorted_wrt (<) (map fst ts)"

text \<open>The time \<open>None\<close> is \<open>Number.NEGATIVE_INFINITY\<close>: no expiry.\<close>

definition verifyBulkPreviewToken ::
  "(string \<Rightarrow> bulk_token option) \<Rightarrow> string \<Rightarrow> actor \<Rightarrow> time option \<Rightarrow> bulk_token res" where
  "verifyBulkPreviewToken openToken token a now =
     (if BULK_PREVIEW_TOKEN_MAX_LENGTH < length token then Inl invalidBulkToken
      else case openToken token of
        None \<Rightarrow> Inl invalidBulkToken
      | Some p \<Rightarrow>
          andThen (require (sha256Hex (bk_scopeFingerprint p) \<and> hasCanonicalTotals (bk_totals p) \<and>
             sha256Hex (bk_selectionFingerprint p) \<and> isCanonicalIso (bk_expiresAt p)) invalidBulkToken) (\<lambda>_.
          andThen (require (bk_actorUserId p = ac_userId a \<and> bk_tenantId p = ac_tenantId a \<and>
             (case now of None \<Rightarrow> True | Some t \<Rightarrow> t < the (parseIso (bk_expiresAt p)))) invalidBulkToken) (\<lambda>_.
          Inr p)))"

record bulk_preview =
  bp_previewToken :: string
  bp_expiresAt :: string
  bp_action :: bulk_action
  bp_eligibleCount :: nat
  bp_excludedCount :: nat
  bp_totals :: "(string \<times> string) list"

definition bulkPayload :: "env \<Rightarrow> actor \<Rightarrow> bulk_action \<Rightarrow> bulk_scope \<Rightarrow> bulk_review \<Rightarrow> bulk_token" where
  "bulkPayload E a action scope review =
     \<lparr>bk_actorUserId = ac_userId a, bk_tenantId = ac_tenantId a, bk_action = action,
      bk_scopeFingerprint = bulkScopeFingerprint E scope, bk_eligibleCount = bv_eligibleCount review,
      bk_excludedCount = bv_excludedCount review, bk_totals = bulkTotalTexts review,
      bk_selectionFingerprint = bv_selectionFingerprint review, bk_expiresAt = isoString (env_now E + BULK_PREVIEW_TTL_MS)\<rparr>"

definition previewFromBulkReview ::
  "(bulk_token \<Rightarrow> string) \<Rightarrow> env \<Rightarrow> actor \<Rightarrow> bulk_action \<Rightarrow> bulk_scope \<Rightarrow> bulk_review \<Rightarrow> bulk_preview res" where
  "previewFromBulkReview signToken E a action scope review =
     (let payload = bulkPayload E a action scope review
      in andThen (signBulkPreviewToken signToken payload) (\<lambda>token.
         Inr \<lparr>bp_previewToken = token, bp_expiresAt = bk_expiresAt payload, bp_action = action,
           bp_eligibleCount = bv_eligibleCount review, bp_excludedCount = bv_excludedCount review,
           bp_totals = bulkTotalTexts review\<rparr>))"

definition calculateBulkPreview ::
  "(bulk_token \<Rightarrow> string) \<Rightarrow> env \<Rightarrow> actor \<Rightarrow> bulk_action \<Rightarrow> bulk_scope \<Rightarrow> db \<Rightarrow> bulk_preview res" where
  "calculateBulkPreview signToken E a action scope s =
     andThen (calculateBulkReview E a action scope s) (\<lambda>review.
     previewFromBulkReview signToken E a action scope review)"

definition previewBulk ::
  "(bulk_token \<Rightarrow> string) \<Rightarrow> tenant_context option \<Rightarrow> env \<Rightarrow> actor \<Rightarrow> bulk_action \<Rightarrow> bulk_scope \<Rightarrow> db \<Rightarrow> bulk_preview res" where
  "previewBulk signToken ctx E a action scope s =
     andThen (assertActor ctx a) (\<lambda>_. calculateBulkPreview signToken E a action (normalizeBulkScope scope) s)"

definition reviewedBulkAction ::
  "(string \<Rightarrow> bulk_token option) \<Rightarrow> tenant_context option \<Rightarrow> actor \<Rightarrow> string \<Rightarrow> bulk_action res" where
  "reviewedBulkAction openToken ctx a token =
     andThen (assertActor ctx a) (\<lambda>_.
     andThen (verifyBulkPreviewToken openToken token a None) (\<lambda>p. Inr (bk_action p)))"

definition bulkReviewMatchesToken :: "bulk_review \<Rightarrow> bulk_token \<Rightarrow> bool" where
  "bulkReviewMatchesToken review p \<longleftrightarrow>
     bv_eligibleCount review = bk_eligibleCount p \<and> bv_excludedCount review = bk_excludedCount p \<and>
     bv_selectionFingerprint review = bk_selectionFingerprint p \<and> bulkTotalTexts review = bk_totals p"

section \<open>The stored response\<close>

record bulk_response =
  br_action :: bulk_action
  br_succeededIds :: "uuid list"
  br_failedIds :: "uuid list"

definition BULK_NOT_ELIGIBLE_MESSAGE :: string where
  "BULK_NOT_ELIGIBLE_MESSAGE = ''sale was excluded by the reviewed eligibility rules''"

definition failureJson :: "uuid \<Rightarrow> json" where
  "failureJson i = JObj [(''id'', JId i), (''code'', JStr ''not_eligible''), (''message'', JStr BULK_NOT_ELIGIBLE_MESSAGE)]"

definition responseJson :: "bulk_response \<Rightarrow> json" where
  "responseJson r = JObj
     ([(''action'', JStr (actionText (br_action r))), (''succeeded'', JNum (int (length (br_succeededIds r)))),
       (''succeededIds'', JArr (map JId (br_succeededIds r))), (''failed'', JArr (map failureJson (br_failedIds r)))] @
      (if br_failedIds r = [] then []
       else [(''retryScope'', JObj [(''mode'', JStr ''selected''), (''ids'', JArr (map JId (br_failedIds r)))])]))"

text \<open>The versions and the variant the \<open>UUID\<close> pattern admits; a text of that form is a \<open>JId\<close> of the model.\<close>

definition uuidPattern :: "uuid \<Rightarrow> bool" where
  "uuidPattern n \<longleftrightarrow> n < 16 ^ 32 \<and> (let v = n div 16 ^ 19 mod 16; w = n div 16 ^ 15 mod 16 in 1 \<le> v \<and> v \<le> 8 \<and> 8 \<le> w \<and> w \<le> 11)"

fun idOf :: "json \<Rightarrow> uuid option" where
  "idOf (JId i) = Some i"
| "idOf _ = None"

fun fieldsOf :: "json \<Rightarrow> (string \<times> json) list option" where
  "fieldsOf (JObj fs) = Some fs"
| "fieldsOf _ = None"

fun itemsOf :: "json \<Rightarrow> json list option" where
  "itemsOf (JArr js) = Some js"
| "itemsOf _ = None"

fun mapOption :: "('a \<Rightarrow> 'b option) \<Rightarrow> 'a list \<Rightarrow> 'b list option" where
  "mapOption f [] = Some []"
| "mapOption f (x # xs) = Option.bind (f x) (\<lambda>y. map_option (Cons y) (mapOption f xs))"

definition hasExactObjectKeys :: "(string \<times> json) list \<Rightarrow> string list \<Rightarrow> bool" where
  "hasExactObjectKeys fs expected \<longleftrightarrow> sort (map fst fs) = sort expected"

definition ascendingUuids :: "uuid list \<Rightarrow> bool" where
  "ascendingUuids ids \<longleftrightarrow> list_all uuidPattern ids \<and> sorted_wrt (<) ids"

definition guardSome :: "bool \<Rightarrow> unit option" where
  "guardSome c = (if c then Some () else None)"

definition sortedUniqueUuidList :: "json option \<Rightarrow> uuid list option" where
  "sortedUniqueUuidList v =
     Option.bind (Option.bind v itemsOf) (\<lambda>js. Option.bind (mapOption idOf js) (\<lambda>ids.
     if ascendingUuids ids then Some ids else None))"

definition failureId :: "json \<Rightarrow> uuid option" where
  "failureId v =
     Option.bind (fieldsOf v) (\<lambda>fs.
     Option.bind (guardSome (hasExactObjectKeys fs [''id'', ''code'', ''message''])) (\<lambda>_.
     Option.bind (Option.bind (map_of fs ''id'') idOf) (\<lambda>i.
     if uuidPattern i \<and> map_of fs ''code'' = Some (JStr ''not_eligible'') \<and>
        map_of fs ''message'' = Some (JStr BULK_NOT_ELIGIBLE_MESSAGE) then Some i else None)))"

definition retryScopeOk :: "json option \<Rightarrow> uuid list \<Rightarrow> bool" where
  "retryScopeOk v failedIds = (case Option.bind v fieldsOf of
      None \<Rightarrow> False
    | Some fs \<Rightarrow> hasExactObjectKeys fs [''mode'', ''ids''] \<and> map_of fs ''mode'' = Some (JStr ''selected'') \<and>
        sortedUniqueUuidList (map_of fs ''ids'') = Some failedIds)"

definition MAX_SAFE_INTEGER :: int where
  "MAX_SAFE_INTEGER = 9007199254740991"

text \<open>
  Every field of an accepted value is determined, so the replayed response is the record of its parts.
\<close>

definition validatedBulkExecutionResponse :: "json option \<Rightarrow> bulk_token \<Rightarrow> bulk_scope \<Rightarrow> bulk_response option" where
  "validatedBulkExecutionResponse v p scope =
     Option.bind (Option.bind v fieldsOf) (\<lambda>fs.
     Option.bind (Option.bind (map_of fs ''failed'') itemsOf) (\<lambda>failed.
     Option.bind (guardSome (hasExactObjectKeys fs
        ([''action'', ''succeeded'', ''succeededIds'', ''failed''] @ (if failed \<noteq> [] then [''retryScope''] else [])) \<and>
        map_of fs ''action'' = Some (JStr (actionText (bk_action p))))) (\<lambda>_.
     Option.bind (sortedUniqueUuidList (map_of fs ''succeededIds'')) (\<lambda>succeededIds.
     Option.bind (guardSome (map_of fs ''succeeded'' = Some (JNum (int (length succeededIds))) \<and>
        int (length succeededIds) \<le> MAX_SAFE_INTEGER \<and> length succeededIds = bk_eligibleCount p)) (\<lambda>_.
     Option.bind (mapOption failureId failed) (\<lambda>failedIds.
     if sorted_wrt (<) failedIds \<and> length failedIds = bk_excludedCount p \<and> \<not> list_ex (\<lambda>i. i \<in> set succeededIds) failedIds \<and>
        (case scope of BulkSelected ids \<Rightarrow> sort (succeededIds @ failedIds) = ids | BulkAllResults f \<Rightarrow> True) \<and>
        (failedIds = [] \<or> retryScopeOk (map_of fs ''retryScope'') failedIds)
     then Some \<lparr>br_action = bk_action p, br_succeededIds = succeededIds, br_failedIds = failedIds\<rparr> else None))))))"

section \<open>Confirmation\<close>

definition BULK_EXECUTION_DOMAIN :: string where
  "BULK_EXECUTION_DOMAIN = ''sales-bulk-execution:v1''"

definition BULK_IDEMPOTENCY_KEY_DOMAIN :: string where
  "BULK_IDEMPOTENCY_KEY_DOMAIN = ''bulk-action-idempotency-key:v1''"

definition bulkIdempotencyKeyHash :: "env \<Rightarrow> string \<Rightarrow> string" where
  "bulkIdempotencyKeyHash E key = env_sha256 E (JObj [(''domain'', JStr BULK_IDEMPOTENCY_KEY_DOMAIN), (''key'', JStr key)])"

definition bulkExecutionRequestHash :: "env \<Rightarrow> actor \<Rightarrow> bulk_action \<Rightarrow> bulk_scope \<Rightarrow> string \<Rightarrow> string" where
  "bulkExecutionRequestHash E a action scope previewToken = env_sha256 E (JObj
     [(''domain'', JStr BULK_EXECUTION_DOMAIN), (''actorUserId'', JId (ac_userId a)), (''tenantId'', JId (ac_tenantId a)),
      (''action'', JStr (actionText action)), (''scope'', bulkScopeJson scope),
      (''previewTokenDigest'', JStr (env_sha256Text E previewToken))])"

definition idempotencyConflict :: error where
  "idempotencyConflict = Conflict ''idempotency_key_conflict''"

definition executionRecoveryRequired :: error where
  "executionRecoveryRequired = Conflict ''execution_recovery_required''"

definition executionKey :: "actor \<Rightarrow> string \<Rightarrow> bulk_execution \<Rightarrow> bool" where
  "executionKey a keyHash x \<longleftrightarrow> bx_tenantId x = ac_tenantId a \<and> bx_actorUserId x = ac_userId a \<and> bx_keyHash x = keyHash"

text \<open>\<open>INSERT \<dots> ON CONFLICT DO NOTHING\<close>, with the number of rows it inserted.\<close>

definition insertExecution :: "actor \<Rightarrow> string \<Rightarrow> string \<Rightarrow> db \<Rightarrow> nat \<times> db" where
  "insertExecution a keyHash requestHash s =
     (if list_ex (executionKey a keyHash) (bulkExecutions s) then (0, s)
      else (1, (drawId s)\<lparr>bulkExecutions := bulkExecutions s @
        [\<lparr>bx_id = freshId s, bx_tenantId = ac_tenantId a, bx_actorUserId = ac_userId a, bx_keyHash = keyHash,
          bx_requestHash = requestHash, bx_status = ''processing'', bx_response = None\<rparr>]\<rparr>))"

definition beginBulkExecution ::
  "actor \<Rightarrow> bulk_token \<Rightarrow> bulk_scope \<Rightarrow> string \<Rightarrow> string \<Rightarrow> db \<Rightarrow> ((uuid \<times> bulk_response option) \<times> db) res" where
  "beginBulkExecution a p scope keyHash requestHash s =
     (let (inserted, s1) = insertExecution a keyHash requestHash s
      in case filter (executionKey a keyHash) (bulkExecutions s1) of
           [x] \<Rightarrow>
             if bx_requestHash x \<noteq> requestHash then Inl idempotencyConflict
             else if bx_status x = ''completed''
             then (case validatedBulkExecutionResponse (bx_response x) p scope of
                     None \<Rightarrow> Inl executionRecoveryRequired
                   | Some replay \<Rightarrow> Inr ((bx_id x, Some replay), s1))
             else if bx_status x \<noteq> ''processing'' \<or> bx_response x \<noteq> None \<or> inserted \<noteq> 1
             then Inl executionRecoveryRequired
             else Inr ((bx_id x, None), s1)
         | _ \<Rightarrow> Inl executionRecoveryRequired)"

definition completeBulkExecution :: "uuid \<Rightarrow> bulk_response \<Rightarrow> db \<Rightarrow> db res" where
  "completeBulkExecution executionId response s =
     (let hit = (\<lambda>x. bx_id x = executionId \<and> bx_status x = ''processing'' \<and> bx_response x = None)
      in if countWhere hit (bulkExecutions s) \<noteq> 1 then Inl executionRecoveryRequired
         else Inr (s\<lparr>bulkExecutions := updateWhere hit
           (\<lambda>x. x\<lparr>bx_status := ''completed'', bx_response := Some (responseJson response)\<rparr>) (bulkExecutions s)\<rparr>))"

text \<open>The tenant-bound capabilities a bulk transaction gets, and the transaction that hands them out.\<close>

record sale_mutation_transaction =
  sm_lockSales :: "uuid list \<Rightarrow> db \<Rightarrow> uuid list"
  sm_approveSale :: "uuid \<Rightarrow> uuid option \<Rightarrow> db \<Rightarrow> (apply_result \<times> db) res"
  sm_voidSale :: "uuid \<Rightarrow> uuid option \<Rightarrow> db \<Rightarrow> (void_result \<times> db) res"

definition saleCapability :: "env \<Rightarrow> uuid \<Rightarrow> sale_mutation_transaction" where
  "saleCapability E tenantId =
     \<lparr>sm_lockSales = lockSalesForTenant tenantId,
      sm_approveSale = (\<lambda>saleId actorUserId. approveSaleInTx E saleId actorUserId (Some tenantId)),
      sm_voidSale = (\<lambda>saleId actorUserId. voidSaleInTx E saleId actorUserId (Some tenantId))\<rparr>"

definition runSaleMutationTransaction ::
  "(nat \<Rightarrow> error option) \<Rightarrow> (nat \<Rightarrow> db) \<Rightarrow> env \<Rightarrow> uuid \<Rightarrow> (sale_mutation_transaction \<Rightarrow> db \<Rightarrow> 'a res) \<Rightarrow> 'a res" where
  "runSaleMutationTransaction fault dbAt E tenantId work = engineTx fault dbAt (work (saleCapability E tenantId))"

definition bulkStep :: "sale_mutation_transaction \<Rightarrow> actor \<Rightarrow> bulk_action \<Rightarrow> uuid \<Rightarrow> db \<Rightarrow> db res" where
  "bulkStep cap a action saleId s = (case action of
      BulkApprove \<Rightarrow> andThen (sm_approveSale cap saleId (Some (ac_userId a)) s) (\<lambda>(_, s1). Inr s1)
    | BulkVoid \<Rightarrow> andThen (sm_voidSale cap saleId (Some (ac_userId a)) s) (\<lambda>(_, s1). Inr s1))"

text \<open>
  A drift is thrown, which rolls the transaction back: the outcome carries the review and the database is
  the one the transaction began with.
\<close>

datatype bulk_outcome = BulkDone bulk_response | BulkDrift bulk_review

definition bulkResponse :: "bulk_action \<Rightarrow> bulk_review \<Rightarrow> bulk_response" where
  "bulkResponse action review =
     \<lparr>br_action = action, br_succeededIds = bv_eligibleIds review, br_failedIds = bv_excludedIds review\<rparr>"

definition bulkTx ::
  "(string \<Rightarrow> bulk_token option) \<Rightarrow> env \<Rightarrow> actor \<Rightarrow> bulk_token \<Rightarrow> bulk_scope \<Rightarrow> string \<Rightarrow> string \<Rightarrow> string \<Rightarrow>
   sale_mutation_transaction \<Rightarrow> db \<Rightarrow> (bulk_outcome \<times> db) res" where
  "bulkTx openToken E a p scope keyHash requestHash previewToken cap s =
     andThen (beginBulkExecution a p scope keyHash requestHash s) (\<lambda>((executionId, replay), s1).
     case replay of
       Some response \<Rightarrow> Inr (BulkDone response, s1)
     | None \<Rightarrow>
         andThen (verifyBulkPreviewToken openToken previewToken a (Some (env_now E))) (\<lambda>_.
         andThen (calculateBulkReview E a (bk_action p) scope s1) (\<lambda>review.
         if bk_scopeFingerprint p \<noteq> bulkScopeFingerprint E scope \<or> \<not> bulkReviewMatchesToken review p \<or>
            sm_lockSales cap (bv_eligibleIds review) s1 \<noteq> bv_eligibleIds review
         then Inr (BulkDrift review, s)
         else andThen (foldRes (bulkStep cap a (bk_action p)) (bv_eligibleIds review) s1) (\<lambda>s2.
              andThen (completeBulkExecution executionId (bulkResponse (bk_action p) review) s2) (\<lambda>s3.
              Inr (BulkDone (bulkResponse (bk_action p) review), s3))))))"

datatype bulk_failure = BulkReviewRequired bulk_preview | BulkFailed error

definition orBulkFailed :: "'a res \<Rightarrow> bulk_failure + 'a" where
  "orBulkFailed r = (case r of Inl e \<Rightarrow> Inl (BulkFailed e) | Inr x \<Rightarrow> Inr x)"

definition printableKey :: "string \<Rightarrow> bool" where
  "printableKey t \<longleftrightarrow> 16 \<le> length t \<and> length t \<le> 200 \<and> list_all (\<lambda>c. 33 \<le> (of_char c :: nat) \<and> of_char c \<le> (126 :: nat)) t"

definition bulk ::
  "(string \<Rightarrow> bulk_token option) \<Rightarrow> (bulk_token \<Rightarrow> string) \<Rightarrow> tenant_context option \<Rightarrow> (nat \<Rightarrow> error option) \<Rightarrow>
   (nat \<Rightarrow> db) \<Rightarrow> env \<Rightarrow> actor \<Rightarrow> bulk_scope \<Rightarrow> string \<Rightarrow> string \<Rightarrow> bulk_failure + (bulk_response \<times> db)" where
  "bulk openToken signToken ctx fault dbAt E a scope previewToken idempotencyKey =
     andThen (orBulkFailed (assertActor ctx a)) (\<lambda>_.
     andThen (orBulkFailed (require (printableKey idempotencyKey)
        (BadRequest ''Idempotency-Key must be 16-200 printable characters''))) (\<lambda>_.
     andThen (orBulkFailed (verifyBulkPreviewToken openToken previewToken a None)) (\<lambda>p.
     let normalized = normalizeBulkScope scope
     in andThen (orBulkFailed (runSaleMutationTransaction fault dbAt E (ac_tenantId a)
          (bulkTx openToken E a p normalized (bulkIdempotencyKeyHash E idempotencyKey)
            (bulkExecutionRequestHash E a (bk_action p) normalized previewToken) previewToken))) (\<lambda>(outcome, s1).
        case outcome of
          BulkDone response \<Rightarrow> Inr (response, s1)
        | BulkDrift review \<Rightarrow>
            andThen (orBulkFailed (previewFromBulkReview signToken E a (bk_action p) normalized review)) (\<lambda>fresh.
            Inl (BulkReviewRequired fresh))))))"

end
