(* ===== verification/Nacha.thy ===== *)
theory Nacha
  imports Csv JsDate Money
begin

text \<open>
  The bank file of the paid payouts (\<open>payouts/nacha.ts\<close>): the fixed-width fields, the six record
  types and the padding to blocks of ten lines, as text.  The lemmas give every record its 94
  columns, read the numeric fields back, and relate the control records to the entries.
  Numbers are integers: the sums of the code are exact in a double below 2 to the power 53.
\<close>

section \<open>Fields\<close>

datatype account_type = AcctChecking | AcctSavings

record ach_entry =
  ae_routingNumber :: string
  ae_accountNumber :: string
  ae_accountType :: account_type
  ae_amountCents :: int
  ae_name :: string
  ae_id :: string

record ach_config =
  nc_odfiRouting :: string
  nc_companyName :: string
  nc_companyId :: string
  nc_destRouting :: string
  nc_entryDescription :: "string option"

text \<open>\<open>slice(-n)\<close> for positive \<open>n\<close>.\<close>

definition lastChars :: "nat \<Rightarrow> string \<Rightarrow> string" where
  "lastChars n s = drop (length s - n) s"

text \<open>\<open>pr\<close> pads on the right and cuts; \<open>pn\<close> keeps the digits, pads with zeros on the left and keeps the last ones.\<close>

definition pr :: "string \<Rightarrow> nat \<Rightarrow> string" where
  "pr s n = take n (s @ replicate n (CHR '' ''))"

definition pn :: "string \<Rightarrow> nat \<Rightarrow> string" where
  "pn v n = lastChars n (padStart n (CHR ''0'') (filter isAsciiDigit v))"

definition pnInt :: "int \<Rightarrow> nat \<Rightarrow> string" where
  "pnInt v n = pn (show_int v) n"

definition upperChar :: "char \<Rightarrow> char" where
  "upperChar c = (let n = of_char c :: nat in if 97 \<le> n \<and> n \<le> 122 then char_of (n - 32) else c)"

definition upper :: "string \<Rightarrow> string" where
  "upper s = map upperChar s"

definition utcDate :: "time \<Rightarrow> int \<times> int \<times> int" where
  "utcDate t = civilOfDays (t div 86400000)"

definition yymmdd :: "time \<Rightarrow> string" where
  "yymmdd t = (case utcDate t of (y, m, d) \<Rightarrow> drop 2 (show_int y) @ pnInt m 2 @ pnInt d 2)"

definition hhmm :: "time \<Rightarrow> string" where
  "hhmm t = pnInt (t mod 86400000 div 3600000) 2 @ pnInt (t mod 3600000 div 60000) 2"

section \<open>Records\<close>

definition odfi8 :: "ach_config \<Rightarrow> string" where
  "odfi8 cfg = take 8 (pn (nc_odfiRouting cfg) 9)"

definition fileHeader :: "ach_config \<Rightarrow> time \<Rightarrow> string" where
  "fileHeader cfg now =
     ''1'' @ ''01'' @ '' '' @ pn (nc_destRouting cfg) 9 @ pn (nc_odfiRouting cfg) 10 @
     yymmdd now @ hhmm now @ ''A'' @ ''094'' @ ''10'' @ ''1'' @
     pr '''' 23 @ pr (upper (nc_companyName cfg)) 23 @ pr '''' 8"

definition batchHeader :: "ach_config \<Rightarrow> time \<Rightarrow> string" where
  "batchHeader cfg now =
     ''5'' @ ''220'' @ pr (upper (nc_companyName cfg)) 16 @ pr '''' 20 @ pr (nc_companyId cfg) 10 @ ''PPD'' @
     pr (upper (case nc_entryDescription cfg of None \<Rightarrow> ''PAYOUT'' | Some d \<Rightarrow> d)) 10 @
     yymmdd now @ yymmdd now @ ''   '' @ ''1'' @ odfi8 cfg @ pnInt 1 7"

definition receiver8 :: "ach_entry \<Rightarrow> string" where
  "receiver8 e = take 8 (pn (ae_routingNumber e) 9)"

definition entryDetail :: "ach_config \<Rightarrow> nat \<Rightarrow> ach_entry \<Rightarrow> string" where
  "entryDetail cfg i e =
     (let recv = pn (ae_routingNumber e) 9;
          checkDigit = take 1 (drop 8 recv);
          txCode = (if ae_accountType e = AcctSavings then ''32'' else ''22'')
      in ''6'' @ txCode @ receiver8 e @ checkDigit @ pr (ae_accountNumber e) 17 @ pnInt (ae_amountCents e) 10 @
         pr (take 15 (filter (\<lambda>c. c \<noteq> CHR ''-'') (ae_id e))) 15 @ pr (upper (ae_name e)) 22 @
         ''  '' @ ''0'' @ odfi8 cfg @ pnInt (int i + 1) 7)"

text \<open>\<open>Number(recv8)\<close> of a text of digits.\<close>

definition numberOf :: "string \<Rightarrow> int" where
  "numberOf t = (case readDigits 0 t of None \<Rightarrow> 0 | Some n \<Rightarrow> int n)"

text \<open>The loop over the entries: the index, the entry hash, the credit total and the lines.\<close>

fun entryLoop :: "ach_config \<Rightarrow> nat \<Rightarrow> int \<Rightarrow> int \<Rightarrow> string list \<Rightarrow> ach_entry list \<Rightarrow> int \<times> int \<times> string list" where
  "entryLoop cfg i hash credit lines [] = (hash, credit, lines)"
| "entryLoop cfg i hash credit lines (e # es) =
     entryLoop cfg (i + 1) (hash + numberOf (receiver8 e)) (credit + ae_amountCents e) (lines @ [entryDetail cfg i e]) es"

definition batchControl :: "ach_config \<Rightarrow> nat \<Rightarrow> string \<Rightarrow> int \<Rightarrow> string" where
  "batchControl cfg entryCount hashStr totalCredit =
     ''8'' @ ''220'' @ pnInt (int entryCount) 6 @ hashStr @ pnInt 0 12 @ pnInt totalCredit 12 @
     pr (nc_companyId cfg) 10 @ pr '''' 19 @ pr '''' 6 @ odfi8 cfg @ pnInt 1 7"

definition fileControl :: "nat \<Rightarrow> nat \<Rightarrow> string \<Rightarrow> int \<Rightarrow> string" where
  "fileControl blockCount entryCount hashStr totalCredit =
     ''9'' @ pnInt 1 6 @ pnInt (int blockCount) 6 @ pnInt (int entryCount) 8 @ hashStr @
     pnInt 0 12 @ pnInt totalCredit 12 @ pr '''' 39"

text \<open>\<open>while (lines.length % 10 !== 0) lines.push('9'.repeat(94))\<close>.\<close>

function fillNines :: "string list \<Rightarrow> string list" where
  "fillNines lines = (if length lines mod 10 \<noteq> 0 then fillNines (lines @ [replicate 94 (CHR ''9'')]) else lines)"
  by auto

termination
proof (relation "measure (\<lambda>lines. if length lines mod 10 = 0 then 0 else 10 - length lines mod 10)")
  fix lines :: "string list" assume "length lines mod 10 \<noteq> 0"
  moreover have "length lines mod 10 < 10" by simp
  ultimately show "(lines @ [replicate 94 (CHR ''9'')], lines) \<in>
      measure (\<lambda>lines. if length lines mod 10 = 0 then 0 else 10 - length lines mod 10)"
    by (simp add: mod_Suc) linarith
qed simp

declare fillNines.simps [simp del]

definition nachaLines :: "ach_entry list \<Rightarrow> ach_config \<Rightarrow> time \<Rightarrow> string list" where
  "nachaLines entries cfg now =
     (let (hash, totalCredit, lines) = entryLoop cfg 0 0 0 [fileHeader cfg now, batchHeader cfg now] entries;
          entryCount = length entries;
          hashStr = pnInt (hash mod 10000000000) 10;
          lines1 = lines @ [batchControl cfg entryCount hashStr totalCredit];
          blockCount = (length lines1 + 1 + 9) div 10
      in fillNines (lines1 @ [fileControl blockCount entryCount hashStr totalCredit]))"

definition buildNachaFile :: "ach_entry list \<Rightarrow> ach_config \<Rightarrow> time \<Rightarrow> string" where
  "buildNachaFile entries cfg now = joinText [lfChar] (nachaLines entries cfg now) @ [lfChar]"

text \<open>\<open>achConfigFromEnv\<close>, over the environment variables.\<close>

definition achConfigFromEnv :: "(string \<Rightarrow> string option) \<Rightarrow> string \<Rightarrow> ach_config" where
  "achConfigFromEnv processEnv companyNameFallback =
     (let orElse = (\<lambda>a b. case a of None \<Rightarrow> b | Some x \<Rightarrow> x);
          odfi = processEnv ''REFEARN_ACH_ODFI_ROUTING''
      in \<lparr>nc_odfiRouting = orElse odfi ''000000000'',
          nc_companyName = orElse (processEnv ''REFEARN_ACH_COMPANY_NAME'') companyNameFallback,
          nc_companyId = orElse (processEnv ''REFEARN_ACH_COMPANY_ID'') ''0000000000'',
          nc_destRouting = orElse (processEnv ''REFEARN_ACH_DEST_ROUTING'') (orElse odfi ''000000000''),
          nc_entryDescription = Some ''PAYOUT''\<rparr>)"

section \<open>Lemmas\<close>

lemma length_pr [simp]: "length (pr s n) = n"
  by (simp add: pr_def)

lemma length_pn [simp]: "length (pn v n) = n"
  by (simp add: pn_def lastChars_def padStart_def)

lemma length_pnInt [simp]: "length (pnInt v n) = n"
  by (simp add: pnInt_def)

lemma zero_char: "char_of (48 :: nat) = CHR ''0''"
  by (simp add: char_of_eq_iff)

lemma digitsW_0: "digitsW w 0 = replicate w (CHR ''0'')"
  by (induction w) (simp_all add: replicate_append_same zero_char)

lemma lastChars_digit: "lastChars (Suc n) (padStart (Suc n) c (t @ [d])) = lastChars n (padStart n c t) @ [d]"
  by (simp add: lastChars_def padStart_def)

lemma lastChars_pad_digits: "lastChars n (padStart n (CHR ''0'') (show_nat k)) = digitsW n k"
proof (induction n arbitrary: k)
  case (Suc n)
  show ?case
  proof (cases "k < 10")
    case True
    have "show_nat k = [] @ [digit_char k]" using True by (simp add: show_nat.simps [of k])
    moreover have "lastChars n (padStart n (CHR ''0'') []) = digitsW n 0" by (simp add: digitsW_0 lastChars_def padStart_def)
    ultimately show ?thesis using lastChars_digit [of n "CHR ''0''" "[]"] True by simp
  next
    case False
    then have "show_nat k = show_nat (k div 10) @ [digit_char (k mod 10)]" by (simp add: show_nat.simps [of k])
    then show ?thesis using lastChars_digit [of n "CHR ''0''" "show_nat (k div 10)"] Suc.IH by simp
  qed
qed (simp add: lastChars_def)

lemma isAsciiDigit_digit [simp]: "d < 10 \<Longrightarrow> isAsciiDigit (char_of (48 + d :: nat))"
  by (simp add: isAsciiDigit_def)

lemma show_nat_digits: "list_all isAsciiDigit (show_nat k)"
proof (induction k rule: show_nat.induct)
  case (1 k)
  then show ?case by (cases "k < 10") (simp_all add: show_nat.simps [of k])
qed

lemma pnInt_digits: "0 \<le> v \<Longrightarrow> pnInt v n = digitsW n (nat v)"
proof -
  assume "0 \<le> v"
  moreover have "filter isAsciiDigit (show_nat (nat v)) = show_nat (nat v)"
    using show_nat_digits [of "nat v"] by (simp add: filter_id_conv list_all_iff)
  ultimately show ?thesis by (simp add: pnInt_def pn_def show_int_def lastChars_pad_digits)
qed

lemma digitsW_mod: "digitsW w (n mod 10 ^ w) = digitsW w n"
proof (induction w arbitrary: n)
  case (Suc w)
  have "n mod 10 ^ Suc w div 10 = n div 10 mod 10 ^ w" by (simp add: mod_mult2_eq)
  moreover have "n mod 10 ^ Suc w mod 10 = n mod 10" by (simp add: mod_mod_cancel)
  ultimately show ?case using Suc.IH [of "n div 10"] by simp
qed simp

lemma numberOf_digits: "numberOf (digitsW w n) = int n mod 10 ^ w"
proof -
  have "readDigits 0 (digitsW w (n mod 10 ^ w)) = Some (n mod 10 ^ w)" by (rule readDigits_digitsW) simp
  then show ?thesis by (simp add: digitsW_mod numberOf_def of_nat_mod)
qed

lemma numberOf_pnInt: "0 \<le> v \<Longrightarrow> numberOf (pnInt v n) = v mod 10 ^ n"
  by (simp add: pnInt_digits numberOf_digits)

definition missingLines :: "nat \<Rightarrow> nat" where
  "missingLines n = (if n mod 10 = 0 then 0 else 10 - n mod 10)"

lemma missingLines_parts: "r < 10 \<Longrightarrow> missingLines (10 * q + r) = (if r = 0 then 0 else 10 - r)"
  by (simp add: missingLines_def)

lemma line_parts: obtains q r where "n = 10 * q + r" "r < (10 :: nat)"
  using that [of "n div 10" "n mod 10"] by simp

lemma missingLines_Suc: "n mod 10 \<noteq> 0 \<Longrightarrow> missingLines n = Suc (missingLines (Suc n))"
proof (rule line_parts [of n])
  fix q r assume ne: "n mod 10 \<noteq> 0" and n: "n = 10 * q + r" "r < 10"
  then have r: "r \<noteq> 0" by simp
  show "missingLines n = Suc (missingLines (Suc n))"
  proof (cases "r = 9")
    case True
    have "Suc n = 10 * (q + 1) + 0" using n True by simp
    then have "missingLines (Suc n) = 0" using missingLines_parts [of 0 "q + 1"] by simp
    then show ?thesis using missingLines_parts [OF n(2), of q] n(1) True by simp
  next
    case False
    have "Suc n = 10 * q + Suc r" using n by simp
    then have "missingLines (Suc n) = 10 - Suc r" using missingLines_parts [of "Suc r" q] n(2) False by simp
    then show ?thesis using missingLines_parts [OF n(2), of q] n r by simp
  qed
qed

lemma missingLines_sum: "n + missingLines n = 10 * ((n + 9) div 10)"
proof (rule line_parts [of n])
  fix q r assume n: "n = 10 * q + r" "r < 10"
  have "(10 * q + r + 9) div 10 = (if r = 0 then q else Suc q)"
    using n(2) by (cases "r = 0") auto
  then show ?thesis using missingLines_parts [OF n(2), of q] n by simp
qed

lemma fillNines_eq: "fillNines ls = ls @ replicate (missingLines (length ls)) (replicate 94 (CHR ''9''))"
proof (induction ls rule: fillNines.induct)
  case (1 ls)
  show ?case
  proof (cases "length ls mod 10 = 0")
    case True
    then show ?thesis by (simp add: fillNines.simps [of ls] missingLines_def)
  next
    case False
    then have "fillNines ls = fillNines (ls @ [replicate 94 (CHR ''9'')])" by (simp add: fillNines.simps [of ls])
    then show ?thesis using 1 [OF False] missingLines_Suc [OF False] by (simp del: replicate.simps(2) add: replicate_Suc)
  qed
qed

lemma entryLoop_eq:
  "entryLoop cfg i hash credit ls es =
     (hash + (\<Sum>e\<leftarrow>es. numberOf (receiver8 e)), credit + (\<Sum>e\<leftarrow>es. ae_amountCents e),
      ls @ map (\<lambda>(j, e). entryDetail cfg j e) (enumerate i es))"
  by (induction es arbitrary: i hash credit ls) simp_all

section \<open>The layout of the file\<close>

lemma nachaLines_eq:
  "nachaLines entries cfg now =
     (let hashStr = pnInt ((\<Sum>e\<leftarrow>entries. numberOf (receiver8 e)) mod 10000000000) 10;
          credit = (\<Sum>e\<leftarrow>entries. ae_amountCents e);
          n = length entries
      in [fileHeader cfg now, batchHeader cfg now] @ map (\<lambda>(j, e). entryDetail cfg j e) (enumerate 0 entries) @
         [batchControl cfg n hashStr credit, fileControl ((13 + n) div 10) n hashStr credit] @
         replicate (missingLines (Suc (Suc (Suc (Suc n))))) (replicate 94 (CHR ''9'')))"
  by (simp add: nachaLines_def entryLoop_eq fillNines_eq Let_def)

lemma length_yymmdd:
  assumes "1000 \<le> fst (utcDate t)" "fst (utcDate t) \<le> 9999"
  shows "length (yymmdd t) = 6"
proof -
  obtain y m d where u: "utcDate t = (y, m, d)" by (cases "utcDate t")
  define k where "k = nat y"
  have k: "1000 \<le> k" "k < 10000" using assms u by (auto simp: k_def nat_less_iff)
  then have "\<not> k < 10" "\<not> k div 10 < 10" "\<not> k div 10 div 10 < 10" "k div 10 div 10 div 10 < 10" by linarith+
  then have "length (show_nat k) = 4"
    using show_nat.simps [of k] show_nat.simps [of "k div 10"] show_nat.simps [of "k div 10 div 10"]
      show_nat.simps [of "k div 10 div 10 div 10"] by (simp del: digit_char.simps)
  then have "length (show_int y) = 4" using assms u by (simp add: show_int_def k_def)
  then show ?thesis by (simp add: yymmdd_def u)
qed

lemma length_records:
  "length (entryDetail cfg i e) = 94" "length (batchControl cfg n (pnInt h 10) c) = 94"
  "length (fileControl b n (pnInt h 10) c) = 94"
  "length (yymmdd now) = 6 \<Longrightarrow> length (fileHeader cfg now) = 94"
  "length (yymmdd now) = 6 \<Longrightarrow> length (batchHeader cfg now) = 94"
  by (simp_all add: entryDetail_def receiver8_def odfi8_def batchControl_def fileControl_def fileHeader_def batchHeader_def
      hhmm_def Let_def)

lemma length_nachaLines: "length (nachaLines entries cfg now) = 10 * ((13 + length entries) div 10)"
  using missingLines_sum [of "Suc (Suc (Suc (Suc (length entries))))"] by (simp add: nachaLines_eq Let_def)

lemma length_joinText_lines:
  "ls \<noteq> [] \<Longrightarrow> \<forall>l \<in> set ls. length l = 94 \<Longrightarrow> length (joinText [c] ls @ [c]) = 95 * length ls"
proof (induction ls)
  case (Cons l ls)
  then show ?case by (cases ls) auto
qed simp

definition fieldAt :: "nat \<Rightarrow> nat \<Rightarrow> string \<Rightarrow> int" where
  "fieldAt i w line = numberOf (take w (drop i line))"

text \<open>Where the fields of the three record types that carry numbers are.\<close>

lemma detail_fields:
  "0 \<le> ae_amountCents e \<Longrightarrow> fieldAt 29 10 (entryDetail cfg i e) = ae_amountCents e mod 10 ^ 10"
  "fieldAt 3 8 (entryDetail cfg i e) = numberOf (receiver8 e)"
  by (simp_all add: fieldAt_def entryDetail_def receiver8_def odfi8_def Let_def numberOf_pnInt)

lemma batchControl_fields:
  assumes "0 \<le> c" "0 \<le> h"
  shows "fieldAt 4 6 (batchControl cfg n (pnInt h 10) c) = int n mod 10 ^ 6"
    "fieldAt 10 10 (batchControl cfg n (pnInt h 10) c) = h mod 10 ^ 10"
    "fieldAt 32 12 (batchControl cfg n (pnInt h 10) c) = c mod 10 ^ 12"
  using assms by (simp_all add: fieldAt_def batchControl_def odfi8_def numberOf_pnInt)

lemma fileControl_fields:
  assumes "0 \<le> c" "0 \<le> h"
  shows "fieldAt 7 6 (fileControl b n (pnInt h 10) c) = int b mod 10 ^ 6"
    "fieldAt 13 8 (fileControl b n (pnInt h 10) c) = int n mod 10 ^ 8"
    "fieldAt 21 10 (fileControl b n (pnInt h 10) c) = h mod 10 ^ 10"
    "fieldAt 43 12 (fileControl b n (pnInt h 10) c) = c mod 10 ^ 12"
  using assms by (simp_all add: fieldAt_def fileControl_def numberOf_pnInt)

lemma nacha_positions:
  assumes "n = length entries"
  shows "i < n \<Longrightarrow> nachaLines entries cfg now ! (i + 2) = entryDetail cfg i (entries ! i)"
    "nachaLines entries cfg now ! (n + 2) = batchControl cfg n
       (pnInt ((\<Sum>e\<leftarrow>entries. numberOf (receiver8 e)) mod 10000000000) 10) (\<Sum>e\<leftarrow>entries. ae_amountCents e)"
    "nachaLines entries cfg now ! (n + 3) = fileControl ((13 + n) div 10) n
       (pnInt ((\<Sum>e\<leftarrow>entries. numberOf (receiver8 e)) mod 10000000000) 10) (\<Sum>e\<leftarrow>entries. ae_amountCents e)"
proof -
  show "i < n \<Longrightarrow> nachaLines entries cfg now ! (i + 2) = entryDetail cfg i (entries ! i)"
    using assms by (simp add: nachaLines_eq Let_def nth_append nth_enumerate_eq)
  show "nachaLines entries cfg now ! (n + 2) = batchControl cfg n
       (pnInt ((\<Sum>e\<leftarrow>entries. numberOf (receiver8 e)) mod 10000000000) 10) (\<Sum>e\<leftarrow>entries. ae_amountCents e)"
    using assms by (simp add: nachaLines_eq Let_def nth_append)
  show "nachaLines entries cfg now ! (n + 3) = fileControl ((13 + n) div 10) n
       (pnInt ((\<Sum>e\<leftarrow>entries. numberOf (receiver8 e)) mod 10000000000) 10) (\<Sum>e\<leftarrow>entries. ae_amountCents e)"
    using assms by (simp add: nachaLines_eq Let_def nth_append)
qed

lemma numberOf_nonneg: "0 \<le> numberOf t"
  by (simp add: numberOf_def split: option.split)

text \<open>C35: Every record of the bank file has 94 columns, for dates with a four-digit year: the text is whole blocks of ten
  lines of 95 characters, and the block count the file states is the number of those blocks.\<close>

theorem nacha_layout:
  assumes "1000 \<le> fst (utcDate now)" "fst (utcDate now) \<le> 9999"
  shows "(\<forall>l \<in> set (nachaLines entries cfg now). length l = 94) \<and>
    (\<exists>blocks. length (nachaLines entries cfg now) = 10 * blocks \<and>
       length (buildNachaFile entries cfg now) = 950 * blocks \<and>
       fieldAt 7 6 (nachaLines entries cfg now ! (length entries + 3)) = int blocks mod 10 ^ 6)"
proof -
  note six = length_yymmdd [OF assms]
  have cols: "\<forall>l \<in> set (nachaLines entries cfg now). length l = 94"
    using six by (auto simp: nachaLines_eq Let_def length_records)
  have ne: "nachaLines entries cfg now \<noteq> []" by (simp add: nachaLines_eq Let_def)
  have block: "fieldAt 7 6 (fileControl b n (pnInt h 10) c) = int b mod 10 ^ 6" for b n h c
    by (simp add: fieldAt_def fileControl_def numberOf_pnInt)
  show ?thesis
  proof (intro conjI cols exI [of _ "(13 + length entries) div 10"])
    show len: "length (nachaLines entries cfg now) = 10 * ((13 + length entries) div 10)" by (rule length_nachaLines)
    show "length (buildNachaFile entries cfg now) = 950 * ((13 + length entries) div 10)"
      unfolding buildNachaFile_def length_joinText_lines [OF ne cols] len by simp
    show "fieldAt 7 6 (nachaLines entries cfg now ! (length entries + 3)) = int ((13 + length entries) div 10) mod 10 ^ 6"
      unfolding nacha_positions(3) [OF refl] by (rule block)
  qed
qed

theorem nacha_layout_witness:
  "list_all (\<lambda>l. length l = 94) (nachaLines [] (achConfigFromEnv (\<lambda>v. None) ''Demo'') 1700000000000) \<and>
   length (buildNachaFile [] (achConfigFromEnv (\<lambda>v. None) ''Demo'') 1700000000000) = 950"
proof -
  have y: "1000 \<le> fst (utcDate 1700000000000)" "fst (utcDate 1700000000000) \<le> 9999"
    by code_simp+
  note t = nacha_layout [OF y, of "[]" "achConfigFromEnv (\<lambda>v. None) ''Demo''"]
  have "list_all (\<lambda>l. length l = 94) (nachaLines [] (achConfigFromEnv (\<lambda>v. None) ''Demo'') 1700000000000)"
    unfolding list_all_iff by (rule conjunct1 [OF t])
  moreover have "length (buildNachaFile [] (achConfigFromEnv (\<lambda>v. None) ''Demo'') 1700000000000) = 950"
    using conjunct2 [OF t] by (auto simp: length_nachaLines)
  ultimately show ?thesis by (rule conjI)
qed

text \<open>C36: The control records state what the entries say: within the limits the file service enforces on each payout, every
  amount field is the payout's amount, and the batch and the file control carry the sum of the amount fields, the sum
  of the receiving routing prefixes and the number of entries, each cut to the width of its field.\<close>

theorem nacha_controls_agree:
  fixes entries :: "ach_entry list" and cfg :: ach_config and now :: time
  assumes "\<forall>e \<in> set entries. 0 \<le> ae_amountCents e \<and> ae_amountCents e \<le> 9999999999"
  defines "ls \<equiv> nachaLines entries cfg now" and "n \<equiv> length entries"
  shows "(\<forall>i < n. fieldAt 29 10 (ls ! (i + 2)) = ae_amountCents (entries ! i)) \<and>
    (\<forall>(line, hashAt, creditAt) \<in> {(ls ! (n + 2), 10, 32), (ls ! (n + 3), 21, 43)}.
       fieldAt creditAt 12 line = (\<Sum>i\<leftarrow>[0..<n]. fieldAt 29 10 (ls ! (i + 2))) mod 10 ^ 12 \<and>
       fieldAt hashAt 10 line = (\<Sum>i\<leftarrow>[0..<n]. fieldAt 3 8 (ls ! (i + 2))) mod 10 ^ 10) \<and>
    fieldAt 4 6 (ls ! (n + 2)) = int n mod 10 ^ 6 \<and> fieldAt 13 8 (ls ! (n + 3)) = int n mod 10 ^ 8"
proof -
  have detail: "fieldAt 29 10 (ls ! (i + 2)) = ae_amountCents (entries ! i)"
    "fieldAt 3 8 (ls ! (i + 2)) = numberOf (receiver8 (entries ! i))" if "i < n" for i
  proof -
    have e: "ls ! (i + 2) = entryDetail cfg i (entries ! i)" using nacha_positions(1) [of n entries i] that by (simp add: n_def ls_def)
    have "entries ! i \<in> set entries" using that by (simp add: n_def)
    then have "0 \<le> ae_amountCents (entries ! i)" "ae_amountCents (entries ! i) < 10 ^ 10" using assms(1) by fastforce+
    then show "fieldAt 29 10 (ls ! (i + 2)) = ae_amountCents (entries ! i)" unfolding e using detail_fields(1) [of "entries ! i" cfg i] by simp
    show "fieldAt 3 8 (ls ! (i + 2)) = numberOf (receiver8 (entries ! i))" unfolding e by (rule detail_fields(2))
  qed
  let ?c = "\<Sum>e\<leftarrow>entries. ae_amountCents e" and ?h = "\<Sum>e\<leftarrow>entries. numberOf (receiver8 e)"
  have split: "entries = map ((!) entries) [0..<n]" by (simp add: n_def map_nth)
  have c: "?c = (\<Sum>i\<leftarrow>[0..<n]. fieldAt 29 10 (ls ! (i + 2)))" using detail(1)
    by (subst split) (auto simp: comp_def intro!: arg_cong [of _ _ sum_list])
  have h: "?h = (\<Sum>i\<leftarrow>[0..<n]. fieldAt 3 8 (ls ! (i + 2)))" using detail(2)
    by (subst split) (auto simp: comp_def intro!: arg_cong [of _ _ sum_list])
  have nn: "0 \<le> ?c" "0 \<le> ?h mod 10000000000"
    using assms(1) by (auto intro!: sum_list_nonneg)
  have m: "?h mod 10000000000 mod 10 ^ 10 = ?h mod 10 ^ 10" by simp
  note b = batchControl_fields [OF nn, of cfg n, folded nacha_positions(2) [OF n_def [THEN meta_eq_to_obj_eq], of cfg now]]
  note f = fileControl_fields [OF nn, of "(13 + n) div 10" n, folded nacha_positions(3) [OF n_def [THEN meta_eq_to_obj_eq], of cfg now]]
  show ?thesis
  proof (intro conjI)
    show "\<forall>i < n. fieldAt 29 10 (ls ! (i + 2)) = ae_amountCents (entries ! i)" using detail(1) by blast
    show "fieldAt 4 6 (ls ! (n + 2)) = int n mod 10 ^ 6" unfolding ls_def by (rule b(1))
    show "fieldAt 13 8 (ls ! (n + 3)) = int n mod 10 ^ 8" unfolding ls_def by (rule f(2))
    have "fieldAt 32 12 (ls ! (n + 2)) = ?c mod 10 ^ 12" "fieldAt 10 10 (ls ! (n + 2)) = ?h mod 10 ^ 10"
      "fieldAt 43 12 (ls ! (n + 3)) = ?c mod 10 ^ 12" "fieldAt 21 10 (ls ! (n + 3)) = ?h mod 10 ^ 10"
      using b(2,3) f(3,4) unfolding m ls_def by blast+
    then show "\<forall>(line, hashAt, creditAt) \<in> {(ls ! (n + 2), 10, 32), (ls ! (n + 3), 21, 43)}.
       fieldAt creditAt 12 line = (\<Sum>i\<leftarrow>[0..<n]. fieldAt 29 10 (ls ! (i + 2))) mod 10 ^ 12 \<and>
       fieldAt hashAt 10 line = (\<Sum>i\<leftarrow>[0..<n]. fieldAt 3 8 (ls ! (i + 2))) mod 10 ^ 10"
      unfolding c h by blast
  qed
qed

theorem nacha_controls_agree_witness:
  "fieldAt 32 12 (nachaLines [\<lparr>ae_routingNumber = ''021000021'', ae_accountNumber = ''123'', ae_accountType = AcctChecking,
     ae_amountCents = 2500, ae_name = ''Ada'', ae_id = ''m''\<rparr>] (achConfigFromEnv (\<lambda>v. None) ''Demo'') 0 ! 3) = 2500"
proof -
  let ?e = "\<lparr>ae_routingNumber = ''021000021'', ae_accountNumber = ''123'', ae_accountType = AcctChecking,
     ae_amountCents = 2500, ae_name = ''Ada'', ae_id = ''m''\<rparr>"
  let ?ls = "nachaLines [?e] (achConfigFromEnv (\<lambda>v. None) ''Demo'') 0"
  have "\<forall>e \<in> set [?e]. 0 \<le> ae_amountCents e \<and> ae_amountCents e \<le> 9999999999" by simp
  note t = nacha_controls_agree [OF this, of "achConfigFromEnv (\<lambda>v. None) ''Demo''" 0]
  have "fieldAt 29 10 (?ls ! 2) = 2500" using conjunct1 [OF t] by (auto simp: numeral_2_eq_2)
  moreover have "fieldAt 32 12 (?ls ! 3) = fieldAt 29 10 (?ls ! 2) mod 10 ^ 12"
    using conjunct1 [OF conjunct2 [OF t]] by (auto simp: numeral_2_eq_2 numeral_3_eq_3)
  ultimately show ?thesis by simp
qed

end
