(* ===== verification/Payout_Requests.thy ===== *)
theory Payout_Requests
  imports Payout_Engine Nacha
begin

text \<open>
  \<open>PayoutsService\<close> around the engine's batches: the payout request of a member and the nightly job
  that files requests, the signed preview an operator confirms, the wrappers of the batch
  transitions, bank reconciliation, and the bank file and CSV exports.  Signing and opening a
  preview token (HMAC, base64url, JSON) are parameters; what the code decides with an opened token
  is modelled.
\<close>

section \<open>A member's request\<close>

record request_result =
  rq_id :: uuid
  rq_status :: payout_status
  rq_period :: string
  rq_requestedCents :: string
  rq_currency :: string
  rq_readiness :: payout_readiness
  rq_created :: bool

text \<open>The member joined with its user, locked \<open>FOR UPDATE\<close>: only whether the e-mail is verified is read.\<close>

definition requestMembers :: "db \<Rightarrow> uuid \<Rightarrow> uuid \<Rightarrow> time option list" where
  "requestMembers s tenantId membershipId = map snd (recipientsOf s tenantId membershipId)"

definition openRequests :: "db \<Rightarrow> uuid \<Rightarrow> uuid \<Rightarrow> payout list" where
  "openRequests s tenantId membershipId =
     findManyBy po_createdAt
       (\<lambda>p. po_tenantId p = tenantId \<and> po_membershipId p = membershipId \<and>
            (po_status p = PoRequested \<or> po_status p = PoProcessing)) (payouts s)"

text \<open>\<open>active.find((payout) => payout.status === processing) ?? active[0]\<close>.\<close>

definition existingRequest :: "payout list \<Rightarrow> payout option" where
  "existingRequest active =
     (case find (\<lambda>p. po_status p = PoProcessing) active of
        Some p \<Rightarrow> Some p
      | None \<Rightarrow> (case active of [] \<Rightarrow> None | p # _ \<Rightarrow> Some p))"

definition activePayoutOf :: "payout \<Rightarrow> active_payout" where
  "activePayoutOf p = \<lparr>ap_id = po_id p,
     ap_status = (if po_status p = PoProcessing then ActiveProcessing else ActiveRequested)\<rparr>"

definition requestInput :: "bool \<Rightarrow> cents \<Rightarrow> tenant \<Rightarrow> payout option \<Rightarrow> compliance_input \<Rightarrow> readiness_input" where
  "requestInput emailVerified net tenant existing i =
     (readinessInput emailVerified net tenant i)\<lparr>rin_activePayout := map_option activePayoutOf existing\<rparr>"

definition requestedPayout :: "env \<Rightarrow> uuid \<Rightarrow> uuid \<Rightarrow> string \<Rightarrow> cents \<Rightarrow> db \<Rightarrow> payout" where
  "requestedPayout E tenantId membershipId period net s =
     (newPayout (freshId s) tenantId membershipId period (env_now E))
       \<lparr>po_totalCents := net, po_activeKey := Some (payoutActiveKey tenantId membershipId period)\<rparr>"

text \<open>The 400 body of a request that is not ready also carries the checklist, which is not in the error here.\<close>

definition requestPayoutTx :: "env \<Rightarrow> uuid \<Rightarrow> uuid \<Rightarrow> db \<Rightarrow> (request_result \<times> db) res" where
  "requestPayoutTx E membershipId tenantId s =
     (case requestMembers s tenantId membershipId of
        [] \<Rightarrow> Inl (BadRequest ''membership not found'')
      | emailVerifiedAt # _ \<Rightarrow>
          (case runtimePayoutBlock E s tenantId membershipId of
             Some runtimeBlock \<Rightarrow> Inl (Forbidden runtimeBlock)
           | None \<Rightarrow>
               andThen (tenantOrThrow s tenantId) (\<lambda>tenant.
               let period = env_month E (env_now E) (tn_timezone tenant);
                   existing = existingRequest (openRequests s tenantId membershipId);
                   net = netPayable s tenantId membershipId;
                   readiness = evaluatePayoutReadiness (env_now E)
                     (requestInput (emailVerifiedAt \<noteq> None) net tenant existing (readInput s tenantId membershipId))
               in case existing of
                    Some p \<Rightarrow> Inr (\<lparr>rq_id = po_id p, rq_status = po_status p, rq_period = po_period p,
                        rq_requestedCents = show_int (po_totalCents p), rq_currency = tn_currency tenant,
                        rq_readiness = readiness, rq_created = False\<rparr>, s)
                  | None \<Rightarrow>
                      if \<not> rd_requestable readiness then Inl (BadRequest ''payout_not_ready'')
                      else let row = requestedPayout E tenantId membershipId period net s
                        in andThen (require (\<not> payoutIndexTaken row (payouts s)) (DbError ''P2002'')) (\<lambda>_.
                           Inr (\<lparr>rq_id = po_id row, rq_status = po_status row, rq_period = period,
                               rq_requestedCents = show_int (po_totalCents row), rq_currency = tn_currency tenant,
                               rq_readiness = readiness, rq_created = True\<rparr>,
                             (drawId s)\<lparr>payouts := payouts s @ [row]\<rparr>)))))"

definition requestPayoutWithMeta ::
  "tenant_context option \<Rightarrow> env \<Rightarrow> uuid \<Rightarrow> uuid \<Rightarrow> db \<Rightarrow> (request_result \<times> db) res" where
  "requestPayoutWithMeta ctx E membershipId tenantId s =
     andThen (assertTenant ctx tenantId) (\<lambda>_.
     andThen (assertMembership ctx membershipId) (\<lambda>_.
     requestPayoutTx E membershipId tenantId s))"

section \<open>The nightly job\<close>

definition notifyAutoRequest :: "uuid \<Rightarrow> uuid \<Rightarrow> string \<Rightarrow> string \<Rightarrow> uuid \<Rightarrow> db \<Rightarrow> db" where
  "notifyAutoRequest tenantId membershipId net period payoutId s =
     (let payload = JObj [(''totalCents'', JStr net), (''period'', JStr period), (''payoutId'', JId payoutId)]
      in createNotification tenantId membershipId ChInApp ''payout_auto_requested'' payload
           (createNotification tenantId membershipId ChEmail ''payout_auto_requested'' payload s))"

text \<open>The groups have no \<open>ORDER BY\<close>: the order Postgres returns them in is the parameter \<open>groupOrder\<close>.\<close>

definition requestCandidates :: "(uuid list \<Rightarrow> uuid list) \<Rightarrow> db \<Rightarrow> tenant \<Rightarrow> uuid list" where
  "requestCandidates groupOrder s tenant =
     groupOrder (filter (\<lambda>m. netPayable s (tn_id tenant) m \<ge> tn_payoutMinCents tenant)
       (remdups (map le_beneficiary (filter (\<lambda>e. le_tenantId e = tn_id tenant \<and> le_status e = LePayable) (ledger s)))))"

record auto_counts =
  at_created :: nat
  at_skipped :: nat

definition autoRequestMember :: "env \<Rightarrow> uuid \<Rightarrow> uuid \<Rightarrow> auto_counts \<times> db \<Rightarrow> auto_counts \<times> db" where
  "autoRequestMember E tenantId membershipId = (\<lambda>(n, s).
     (case requestPayoutWithMeta None E membershipId tenantId s of
        Inl err \<Rightarrow> (n\<lparr>at_skipped := at_skipped n + 1\<rparr>, s)
      | Inr (r, s1) \<Rightarrow>
          if \<not> rq_created r then (n\<lparr>at_skipped := at_skipped n + 1\<rparr>, s1)
          else (n\<lparr>at_created := at_created n + 1\<rparr>,
                notifyAutoRequest tenantId membershipId (rq_requestedCents r) (rq_period r) (rq_id r) s1)))"

definition autoRequestTenant ::
  "env \<Rightarrow> (uuid list \<Rightarrow> uuid list) \<Rightarrow> tenant \<Rightarrow> auto_counts \<times> db \<Rightarrow> auto_counts \<times> db" where
  "autoRequestTenant E groupOrder tenant = (\<lambda>(n, s).
     fold (autoRequestMember E (tn_id tenant)) (requestCandidates groupOrder s tenant) (n, s))"

definition autoRequestPayouts :: "env \<Rightarrow> (uuid list \<Rightarrow> uuid list) \<Rightarrow> db \<Rightarrow> (nat \<times> auto_counts) \<times> db" where
  "autoRequestPayouts E groupOrder s =
     (let due = filter tn_autoRequestPayouts (tenants s);
          (n, s') = fold (autoRequestTenant E groupOrder) due (\<lparr>at_created = 0, at_skipped = 0\<rparr>, s)
      in ((length due, n), s'))"

section \<open>The reviewed batch\<close>

datatype reviewed_method = ReviewedManual | ReviewedCsv

datatype payout_scope = ScopeSelected "uuid list" | ScopeAllEligible "string option" reviewed_method

text \<open>A scope after \<open>normalizeScope\<close>: sorted distinct members, or a definite period.\<close>

datatype normal_scope = NormalSelected "uuid list" | NormalAllEligible string reviewed_method

definition reviewedMethod :: "reviewed_method \<Rightarrow> payout_method" where
  "reviewedMethod m = (case m of ReviewedManual \<Rightarrow> MethodManual | ReviewedCsv \<Rightarrow> MethodCsv)"

definition reviewedText :: "reviewed_method \<Rightarrow> string" where
  "reviewedText m = (case m of ReviewedManual \<Rightarrow> ''manual'' | ReviewedCsv \<Rightarrow> ''csv'')"

definition scopeJson :: "normal_scope \<Rightarrow> json" where
  "scopeJson scope = (case scope of
      NormalSelected ids \<Rightarrow> JObj [(''mode'', JStr ''selected''), (''membershipIds'', JArr (map JId ids))]
    | NormalAllEligible period m \<Rightarrow> JObj [(''mode'', JStr ''all_eligible''),
        (''filters'', JObj [(''period'', JStr period), (''method'', JStr (reviewedText m))])])"

record preview_token =
  pk_actorUserId :: uuid
  pk_tenantId :: uuid
  pk_scopeFingerprint :: string
  pk_period :: string
  pk_method :: reviewed_method
  pk_eligibleCount :: nat
  pk_excludedCount :: nat
  pk_totals :: "(string \<times> string) list"
  pk_selectionFingerprint :: string
  pk_expiresAt :: string

record payout_batch_preview =
  pb_previewToken :: string
  pb_expiresAt :: string
  pb_eligibleCount :: nat
  pb_excludedCount :: nat
  pb_totals :: "(string \<times> string) list"
  pb_normalizedScope :: normal_scope

definition PAYOUT_PREVIEW_TTL_MS :: int where
  "PAYOUT_PREVIEW_TTL_MS = 5 * 60 * 1000"

definition isSha256Hex :: "string \<Rightarrow> bool" where
  "isSha256Hex t \<longleftrightarrow> length t = 64 \<and> list_all (\<lambda>c. c \<in> set ''0123456789abcdef'') t"

definition isCurrencyCode :: "string \<Rightarrow> bool" where
  "isCurrencyCode t \<longleftrightarrow> length t = 3 \<and> list_all (\<lambda>c. 65 \<le> (of_char c :: nat) \<and> of_char c \<le> (90 :: nat)) t"

definition isPeriodShape :: "string \<Rightarrow> bool" where
  "isPeriodShape t \<longleftrightarrow> length t = 7 \<and> list_all isAsciiDigit (take 4 t) \<and> t ! 4 = CHR ''-'' \<and> list_all isAsciiDigit (drop 5 t)"

definition tokenShape :: "preview_token \<Rightarrow> bool" where
  "tokenShape p \<longleftrightarrow> isSha256Hex (pk_scopeFingerprint p) \<and> isPeriodShape (pk_period p) \<and>
     list_all (\<lambda>(currency, amount). isCurrencyCode currency \<and> amount \<noteq> [] \<and> list_all isAsciiDigit amount) (pk_totals p) \<and>
     isSha256Hex (pk_selectionFingerprint p) \<and> parseIso (pk_expiresAt p) \<noteq> None"

text \<open>
  \<open>openToken\<close> stands for the length, the encoding, the signature and the JSON parse of a token, with
  the domain and the types of its fields; \<open>signToken\<close> for its construction.
\<close>

definition verifyPreviewToken ::
  "(string \<Rightarrow> preview_token option) \<Rightarrow> env \<Rightarrow> string \<Rightarrow> actor \<Rightarrow> preview_token res" where
  "verifyPreviewToken openToken E token a =
     (let invalid = BadRequest ''invalid payout batch preview token''
      in case openToken token of
           None \<Rightarrow> Inl invalid
         | Some p \<Rightarrow>
             andThen (require (tokenShape p) invalid) (\<lambda>_.
             andThen (require (pk_actorUserId p = ac_userId a \<and> pk_tenantId p = ac_tenantId a \<and>
                env_now E < the (parseIso (pk_expiresAt p))) invalid) (\<lambda>_.
             Inr p)))"

definition currentPeriod :: "env \<Rightarrow> uuid \<Rightarrow> db \<Rightarrow> string res" where
  "currentPeriod E tenantId s =
     andThen (tenantOrThrow s tenantId) (\<lambda>t. Inr (env_month E (env_now E) (tn_timezone t)))"

definition normalizeScope :: "env \<Rightarrow> uuid \<Rightarrow> payout_scope \<Rightarrow> db \<Rightarrow> normal_scope res" where
  "normalizeScope E tenantId scope s = (case scope of
      ScopeSelected ids \<Rightarrow>
        let membershipIds = sort (remdups ids)
        in andThen (require (countWhere (\<lambda>m. mb_id m \<in> set membershipIds \<and> mb_tenantId m = tenantId) (memberships s)
                = length membershipIds) (NotFound ''membership not found'')) (\<lambda>_.
           Inr (NormalSelected membershipIds))
    | ScopeAllEligible period m \<Rightarrow>
        andThen (case period of Some p \<Rightarrow> Inr p | None \<Rightarrow> currentPeriod E tenantId s) (\<lambda>p.
        Inr (NormalAllEligible p m)))"

definition totalTexts :: "payout_batch_review \<Rightarrow> (string \<times> string) list" where
  "totalTexts review = map (\<lambda>(currency, amount). (currency, show_int amount)) (totals review)"

definition previewPayload ::
  "env \<Rightarrow> actor \<Rightarrow> normal_scope \<Rightarrow> string \<Rightarrow> reviewed_method \<Rightarrow> payout_batch_review \<Rightarrow> preview_token" where
  "previewPayload E a scope period m review =
     \<lparr>pk_actorUserId = ac_userId a, pk_tenantId = ac_tenantId a, pk_scopeFingerprint = env_sha256 E (scopeJson scope),
      pk_period = period, pk_method = m, pk_eligibleCount = eligibleCount review, pk_excludedCount = excludedCount review,
      pk_totals = totalTexts review, pk_selectionFingerprint = selectionFingerprint review,
      pk_expiresAt = isoString (env_now E + PAYOUT_PREVIEW_TTL_MS)\<rparr>"

definition previewFromReview ::
  "(preview_token \<Rightarrow> string) \<Rightarrow> env \<Rightarrow> actor \<Rightarrow> normal_scope \<Rightarrow> string \<Rightarrow> reviewed_method \<Rightarrow> payout_batch_review \<Rightarrow>
   payout_batch_preview" where
  "previewFromReview signToken E a scope period m review =
     (let payload = previewPayload E a scope period m review
      in \<lparr>pb_previewToken = signToken payload, pb_expiresAt = pk_expiresAt payload,
          pb_eligibleCount = eligibleCount review, pb_excludedCount = excludedCount review,
          pb_totals = totalTexts review, pb_normalizedScope = scope\<rparr>)"

definition selectionOf :: "normal_scope \<Rightarrow> selection_scope" where
  "selectionOf scope = (case scope of NormalSelected ids \<Rightarrow> Selected ids | NormalAllEligible p m \<Rightarrow> AllEligible)"

definition reviewParams ::
  "actor \<Rightarrow> normal_scope \<Rightarrow> string \<Rightarrow> reviewed_method \<Rightarrow> payout_batch_review option \<Rightarrow> reserve_params" where
  "reviewParams a scope period m expected =
     \<lparr>rp_tenantId = ac_tenantId a, rp_scope = selectionOf scope, rp_period = period, rp_method = reviewedMethod m,
      rp_actorUserId = Some (ac_userId a), rp_requestedPayoutId = None, rp_previewOnly = False, rp_expectedReview = expected\<rparr>"

text \<open>A selected scope has the current month and the manual method; the other names both.\<close>

definition executionOf :: "env \<Rightarrow> actor \<Rightarrow> normal_scope \<Rightarrow> db \<Rightarrow> (string \<times> reviewed_method) res" where
  "executionOf E a scope s = (case scope of
      NormalSelected ids \<Rightarrow> andThen (currentPeriod E (ac_tenantId a) s) (\<lambda>p. Inr (p, ReviewedManual))
    | NormalAllEligible p m \<Rightarrow> Inr (p, m))"

definition calculatePreview ::
  "(preview_token \<Rightarrow> string) \<Rightarrow> (nat \<Rightarrow> error option) \<Rightarrow> (nat \<Rightarrow> db) \<Rightarrow> env \<Rightarrow> actor \<Rightarrow> normal_scope \<Rightarrow>
   payout_batch_review option \<Rightarrow> payout_batch_preview res" where
  "calculatePreview signToken fault dbAt E a scope expected =
     andThen (executionOf E a scope (dbAt 0)) (\<lambda>(period, m).
     andThen (case previewPayoutBatch fault dbAt E (reviewParams a scope period m expected) of
         Inl (ReviewDrift review) \<Rightarrow> if expected = None then Inl (ReviewDrift review) else Inr review
       | r \<Rightarrow> r) (\<lambda>review.
     Inr (previewFromReview signToken E a scope period m review)))"

definition previewBatch ::
  "(preview_token \<Rightarrow> string) \<Rightarrow> tenant_context option \<Rightarrow> (nat \<Rightarrow> error option) \<Rightarrow> (nat \<Rightarrow> db) \<Rightarrow> env \<Rightarrow> actor \<Rightarrow>
   payout_scope \<Rightarrow> payout_batch_preview res" where
  "previewBatch signToken ctx fault dbAt E a scope =
     andThen (assertActor ctx a) (\<lambda>_.
     andThen (normalizeScope E (ac_tenantId a) scope (dbAt 0)) (\<lambda>normalized.
     calculatePreview signToken fault dbAt E a normalized None))"

text \<open>What \<open>startBatch\<close> throws: \<open>review_required\<close> with a fresh preview in its body, or any other error.\<close>

datatype start_failure = ReviewRequired payout_batch_preview | StartFailed error

definition orStartFailed :: "'a res \<Rightarrow> start_failure + 'a" where
  "orStartFailed r = (case r of Inl e \<Rightarrow> Inl (StartFailed e) | Inr x \<Rightarrow> Inr x)"

definition reviewOfToken :: "preview_token \<Rightarrow> payout_batch_review" where
  "reviewOfToken p = \<lparr>eligibleCount = pk_eligibleCount p, excludedCount = pk_excludedCount p,
     totals = map (\<lambda>(currency, amount). (currency, numberOf amount)) (pk_totals p),
     selectionFingerprint = pk_selectionFingerprint p\<rparr>"

definition startBatch ::
  "(string \<Rightarrow> preview_token option) \<Rightarrow> (preview_token \<Rightarrow> string) \<Rightarrow> tenant_context option \<Rightarrow> (nat \<Rightarrow> error option) \<Rightarrow>
   (nat \<Rightarrow> db) \<Rightarrow> env \<Rightarrow> actor \<Rightarrow> payout_scope \<Rightarrow> string \<Rightarrow> start_failure + (reserve_result \<times> db)" where
  "startBatch openToken signToken ctx fault dbAt E a scope token =
     andThen (orStartFailed (assertActor ctx a)) (\<lambda>_.
     andThen (orStartFailed (verifyPreviewToken openToken E token a)) (\<lambda>p.
     andThen (orStartFailed (normalizeScope E (ac_tenantId a) scope (dbAt 0))) (\<lambda>normalized.
     let expected = reviewOfToken p
     in if pk_scopeFingerprint p \<noteq> env_sha256 E (scopeJson normalized)
        then andThen (orStartFailed (calculatePreview signToken fault dbAt E a normalized (Some expected))) (\<lambda>fresh.
             Inl (ReviewRequired fresh))
        else (case reservePayoutBatch fault dbAt E (reviewParams a normalized (pk_period p) (pk_method p) (Some expected)) of
            Inr result \<Rightarrow> Inr result
          | Inl (ReviewDrift review) \<Rightarrow>
              Inl (ReviewRequired (previewFromReview signToken E a normalized (pk_period p) (pk_method p) review))
          | Inl e \<Rightarrow> Inl (StartFailed e)))))"

section \<open>Batch transitions and retired routes\<close>

text \<open>The event and webhook published after a settlement commits cannot fail it; they are not modelled.\<close>

definition settleBatchRoute ::
  "tenant_context option \<Rightarrow> (nat \<Rightarrow> error option) \<Rightarrow> (nat \<Rightarrow> db) \<Rightarrow> env \<Rightarrow> actor \<Rightarrow> uuid \<Rightarrow> string \<Rightarrow> string \<Rightarrow>
   (batch_outcome \<times> db) res" where
  "settleBatchRoute ctx fault dbAt E a batchId reference evidence =
     andThen (assertActor ctx a) (\<lambda>_.
     settlePayoutBatch fault dbAt E \<lparr>tp_tenantId = ac_tenantId a, tp_batchId = batchId,
       tp_settlementReference = reference, tp_settlementEvidence = evidence, tp_actorUserId = Some (ac_userId a)\<rparr>)"

definition dispatchBatchRoute ::
  "tenant_context option \<Rightarrow> (nat \<Rightarrow> error option) \<Rightarrow> (nat \<Rightarrow> db) \<Rightarrow> env \<Rightarrow> actor \<Rightarrow> uuid \<Rightarrow> string \<Rightarrow> string \<Rightarrow>
   (batch_outcome \<times> db) res" where
  "dispatchBatchRoute ctx fault dbAt E a batchId reference evidence =
     andThen (assertActor ctx a) (\<lambda>_.
     dispatchPayoutBatch fault dbAt E \<lparr>dp_tenantId = ac_tenantId a, dp_batchId = batchId,
       dp_dispatchReference = reference, dp_dispatchEvidence = evidence, dp_actorUserId = Some (ac_userId a)\<rparr>)"

definition failBatchRoute ::
  "tenant_context option \<Rightarrow> (nat \<Rightarrow> error option) \<Rightarrow> (nat \<Rightarrow> db) \<Rightarrow> env \<Rightarrow> actor \<Rightarrow> uuid \<Rightarrow> string \<Rightarrow> (batch_outcome \<times> db) res" where
  "failBatchRoute ctx fault dbAt E a batchId reason =
     andThen (assertActor ctx a) (\<lambda>_.
     failPayoutBatch fault dbAt E \<lparr>fp_tenantId = ac_tenantId a, fp_batchId = batchId, fp_reason = reason,
       fp_actorUserId = Some (ac_userId a)\<rparr>)"

definition rejectRequest ::
  "tenant_context option \<Rightarrow> (nat \<Rightarrow> error option) \<Rightarrow> (nat \<Rightarrow> db) \<Rightarrow> env \<Rightarrow> actor \<Rightarrow> uuid \<Rightarrow> string \<Rightarrow> db res" where
  "rejectRequest ctx fault dbAt E a payoutId reason =
     andThen (assertActor ctx a) (\<lambda>_.
     andThen (rejectPayoutRequest fault dbAt E \<lparr>xp_tenantId = ac_tenantId a, xp_payoutId = payoutId, xp_reason = reason,
       xp_actorUserId = Some (ac_userId a)\<rparr>) (\<lambda>(_, s'). Inr s'))"

definition approveRequest :: "tenant_context option \<Rightarrow> actor \<Rightarrow> uuid \<Rightarrow> db res" where
  "approveRequest ctx a payoutId =
     andThen (assertActor ctx a) (\<lambda>_.
     Inl (Conflict ''legacy direct payout approval is disabled; use a reviewed payout batch''))"

datatype decide_action = DecideApprove | DecideReject

definition decide ::
  "tenant_context option \<Rightarrow> (nat \<Rightarrow> error option) \<Rightarrow> (nat \<Rightarrow> db) \<Rightarrow> env \<Rightarrow> actor \<Rightarrow> uuid \<Rightarrow> decide_action \<Rightarrow> string option \<Rightarrow>
   db res" where
  "decide ctx fault dbAt E a payoutId action ref =
     andThen (assertActor ctx a) (\<lambda>_.
     if action = DecideReject
     then (case map_option trimText ref of
             None \<Rightarrow> Inl (BadRequest ''rejection reason is required'')
           | Some reason \<Rightarrow>
               if reason = [] then Inl (BadRequest ''rejection reason is required'')
               else rejectRequest ctx fault dbAt E a payoutId reason)
     else Inl (Conflict ''legacy direct payout settlement is disabled; use a reviewed payout batch''))"

definition retryPayout :: "tenant_context option \<Rightarrow> actor \<Rightarrow> uuid \<Rightarrow> db res" where
  "retryPayout ctx a payoutId =
     andThen (assertActor ctx a) (\<lambda>_.
     Inl (Conflict ''legacy direct payout retry is disabled; use a reviewed payout batch''))"

section \<open>Bank reconciliation\<close>

text \<open>An \<open>auditLog.create\<close> of a service, with an optional entity id and no \<open>before\<close>.\<close>

definition serviceAudit :: "actor \<Rightarrow> string \<Rightarrow> string \<Rightarrow> uuid option \<Rightarrow> json \<Rightarrow> db \<Rightarrow> db" where
  "serviceAudit a action entity entityId after s =
     s\<lparr>audits := audits s @ [\<lparr>au_tenantId = ac_tenantId a, au_actorUserId = Some (ac_userId a), au_action = action,
        au_entity = entity, au_entityId = entityId, au_before = None, au_after = after\<rparr>]\<rparr>"

record bank_row =
  br_amountCents :: int
  br_ref :: "string option"

record bank_match =
  bm_payoutId :: uuid
  bm_membershipId :: uuid
  bm_amountCents :: cents
  bm_bankRef :: "string option"

text \<open>\<open>ORDER BY \<dots> ASC\<close> in Postgres puts nulls last.\<close>

definition nullsLast :: "time option \<Rightarrow> nat \<times> time" where
  "nullsLast t = (case t of None \<Rightarrow> (1, 0) | Some x \<Rightarrow> (0, x))"

text \<open>\<open>FOR UPDATE SKIP LOCKED\<close>: \<open>locked\<close> are the rows another transaction holds.\<close>

definition unclearedPayouts :: "uuid \<Rightarrow> (uuid \<Rightarrow> bool) \<Rightarrow> db \<Rightarrow> payout list" where
  "unclearedPayouts tenantId locked s =
     findManyBy (\<lambda>p. nullsLast (po_paidAt p))
       (\<lambda>p. po_tenantId p = tenantId \<and> po_status p = PoPaid \<and> po_clearedAt p = None \<and> \<not> locked (po_id p)) (payouts s)"

text \<open>The map from an amount to the queue of its payouts, built in paid order.\<close>

definition amountBuckets :: "payout list \<Rightarrow> cents \<Rightarrow> (uuid \<times> uuid) list" where
  "amountBuckets open_rows amount =
     map (\<lambda>p. (po_id p, po_membershipId p)) (filter (\<lambda>p. po_totalCents p = amount) open_rows)"

record reconciling =
  rc_buckets :: "cents \<Rightarrow> (uuid \<times> uuid) list"
  rc_db :: db
  rc_matched :: "bank_match list"
  rc_unmatched :: "bank_row list"

definition clearPayout :: "env \<Rightarrow> actor \<Rightarrow> string option \<Rightarrow> payout \<Rightarrow> payout" where
  "clearPayout E a ref p = p\<lparr>po_clearedAt := Some (env_now E), po_bankRef := ref, po_reconciledByUserId := Some (ac_userId a)\<rparr>"

definition reconcileRow :: "env \<Rightarrow> actor \<Rightarrow> bank_row \<Rightarrow> reconciling \<Rightarrow> reconciling" where
  "reconcileRow E a row st =
     (case rc_buckets st (br_amountCents row) of
        [] \<Rightarrow> st\<lparr>rc_unmatched := rc_unmatched st @ [row]\<rparr>
      | (payoutId, membershipId) # rest \<Rightarrow>
          let st1 = st\<lparr>rc_buckets := (rc_buckets st)(br_amountCents row := rest)\<rparr>;
              hit = (\<lambda>p. po_id p = payoutId \<and> po_clearedAt p = None);
              s = rc_db st
          in if countWhere hit (payouts s) = 0
             then st1\<lparr>rc_unmatched := rc_unmatched st @ [row]\<rparr>
             else st1\<lparr>rc_db := s\<lparr>payouts := updateWhere hit (clearPayout E a (br_ref row)) (payouts s)\<rparr>,
                   rc_matched := rc_matched st @ [\<lparr>bm_payoutId = payoutId, bm_membershipId = membershipId,
                      bm_amountCents = br_amountCents row, bm_bankRef = br_ref row\<rparr>]\<rparr>)"

record reconcile_result =
  rs_clearedCount :: nat
  rs_matched :: "bank_match list"
  rs_unmatched :: "bank_row list"
  rs_remainingUncleared :: nat

definition reconcile ::
  "env \<Rightarrow> actor \<Rightarrow> (uuid \<Rightarrow> bool) \<Rightarrow> bank_row list \<Rightarrow> db \<Rightarrow> reconcile_result \<times> db" where
  "reconcile E a locked rows s =
     (let st = fold (reconcileRow E a) rows
            \<lparr>rc_buckets = amountBuckets (unclearedPayouts (ac_tenantId a) locked s), rc_db = s, rc_matched = [], rc_unmatched = []\<rparr>;
          s' = serviceAudit a ''payout.reconcile'' ''payout'' None
            (JObj [(''clearedCount'', JNum (int (length (rc_matched st)))),
                   (''unmatchedCount'', JNum (int (length (rc_unmatched st))))]) (rc_db st)
      in (\<lparr>rs_clearedCount = length (rc_matched st), rs_matched = rc_matched st, rs_unmatched = rc_unmatched st,
           rs_remainingUncleared = countWhere (\<lambda>p. po_tenantId p = ac_tenantId a \<and> po_status p = PoPaid \<and>
             po_clearedAt p = None) (payouts s')\<rparr>, s'))"

section \<open>Exports\<close>

definition inPeriod :: "string option \<Rightarrow> payout \<Rightarrow> bool" where
  "inPeriod period p = (case period of None \<Rightarrow> True | Some x \<Rightarrow> po_period p = x)"

definition paidPayouts :: "uuid \<Rightarrow> string option \<Rightarrow> db \<Rightarrow> payout list" where
  "paidPayouts tenantId period s =
     findManyBy (\<lambda>p. (nullsLast (po_paidAt p), po_id p))
       (\<lambda>p. po_tenantId p = tenantId \<and> po_status p = PoPaid \<and> inPeriod period p) (payouts s)"

text \<open>A required relation that is missing is an error of the Prisma client.\<close>

definition payoutMember :: "db \<Rightarrow> payout \<Rightarrow> (membership \<times> user) res" where
  "payoutMember s p =
     andThen (from_option (InternalError ''Inconsistent query result'') (findMembership s (po_membershipId p))) (\<lambda>m.
     andThen (from_option (InternalError ''Inconsistent query result'') (findUser s (mb_userId m))) (\<lambda>u.
     Inr (m, u)))"

definition paidCsvHeader :: string where
  "paidCsvHeader = ''payout_id,batch_id,period,referral_code,full_name,email,amount_cents,settlement_reference,paid_at''"

definition paidCsvCells :: "db \<Rightarrow> payout \<Rightarrow> string list res" where
  "paidCsvCells s p =
     andThen (payoutMember s p) (\<lambda>(m, u).
     Inr (map instructionCell [Some (uuidText (po_id p)), map_option uuidText (po_batchId p), Some (po_period p),
       Some (mb_referralCode m), Some (us_fullName u), Some (us_email u), Some (show_int (po_totalCents p)),
       po_settlementReference p, Some (case po_paidAt p of None \<Rightarrow> [] | Some t \<Rightarrow> isoString t)]))"

definition exportCsv :: "uuid \<Rightarrow> string option \<Rightarrow> db \<Rightarrow> string res" where
  "exportCsv tenantId period s =
     andThen (mapRes (paidCsvCells s) (paidPayouts tenantId period s)) (\<lambda>lines.
     Inr (joinText [lfChar] (paidCsvHeader # map (joinText [commaChar]) lines) @ [lfChar]))"

definition exportPaidCsv :: "tenant_context option \<Rightarrow> uuid \<Rightarrow> string \<Rightarrow> db \<Rightarrow> string res" where
  "exportPaidCsv ctx tenantId period s = andThen (assertTenant ctx tenantId) (\<lambda>_. exportCsv tenantId (Some period) s)"

text \<open>
  The payment instruction of one batch.  Items have no id in the model: \<open>itemId\<close> is the one the database drew, by
  which \<open>DISTINCT ON\<close> picks an item of each payout.  The recipient columns, nullable for rows of an older schema, are
  always set here.
\<close>

definition instructionRows :: "(batch_item \<Rightarrow> uuid) \<Rightarrow> uuid \<Rightarrow> db \<Rightarrow> (payout \<times> batch_item) list" where
  "instructionRows itemId batchId s =
     (let items = filter (\<lambda>i. bi_batchId i = batchId) (batchItems s);
          pick = (\<lambda>pid. map_option (\<lambda>p. (p, hd (sort_key itemId (filter (\<lambda>i. bi_payoutId i = pid) items))))
            (find (\<lambda>p. po_id p = pid) (payouts s)))
      in sort_key (\<lambda>(p, i). (po_membershipId p, po_id p)) (List.map_filter pick (remdups (map bi_payoutId items))))"

definition instructionCells :: "settlement_batch \<Rightarrow> payout \<times> batch_item \<Rightarrow> string list" where
  "instructionCells b = (\<lambda>(p, i). map instructionCell
     [Some (uuidText (ba_id b)), Some (uuidText (po_id p)), Some (ba_period b), Some (rc_referralCode (bi_recipient i)),
      Some (rc_fullName (bi_recipient i)), Some (rc_email (bi_recipient i)), Some (show_int (po_totalCents p))])"

definition instructionCsv :: "settlement_batch \<Rightarrow> (payout \<times> batch_item) list \<Rightarrow> string" where
  "instructionCsv b rows = joinText [lfChar] (''batch_id,payout_id,period,referral_code,full_name,email,amount_cents'' #
     map (\<lambda>r. joinText [commaChar] (instructionCells b r)) rows) @ [lfChar]"

definition exportBatchCsvTx :: "(batch_item \<Rightarrow> uuid) \<Rightarrow> env \<Rightarrow> uuid \<Rightarrow> uuid \<Rightarrow> db \<Rightarrow> (string \<times> db) res" where
  "exportBatchCsvTx itemId E tenantId batchId s =
     andThen (from_option (NotFound ''payout batch not found'') (tenantBatch s tenantId batchId)) (\<lambda>b.
     andThen (require (ba_status b = BaProcessing \<or> ba_status b = BaDispatched \<or> ba_status b = BaSettled)
        (Conflict ''failed payout batches cannot be exported as payment instructions'')) (\<lambda>_.
     let rows = instructionRows itemId (ba_id b) s
     in andThen (require (length rows \<noteq> 0) (Conflict ''payout batch has no payouts'')) (\<lambda>_.
        let csv = instructionCsv b rows; checksum = env_sha256Text E csv;
            stored = (case ba_csvChecksum b of None \<Rightarrow> [] | Some c \<Rightarrow> c)
        in andThen (require (stored = [] \<or> stored = checksum)
             (Conflict ''payout batch CSV no longer matches its immutable settlement set'')) (\<lambda>_.
           Inr (csv, if stored = []
                     then s\<lparr>batches := updateWhere (\<lambda>x. ba_id x = ba_id b) (\<lambda>x. x\<lparr>ba_csvChecksum := Some checksum\<rparr>) (batches s)\<rparr>
                     else s)))))"

definition exportBatchCsv ::
  "(batch_item \<Rightarrow> uuid) \<Rightarrow> tenant_context option \<Rightarrow> env \<Rightarrow> uuid \<Rightarrow> uuid \<Rightarrow> db \<Rightarrow> (string \<times> db) res" where
  "exportBatchCsv itemId ctx E tenantId batchId s =
     andThen (assertTenant ctx tenantId) (\<lambda>_. exportBatchCsvTx itemId E tenantId batchId s)"

record ach_skip =
  as_membershipId :: uuid
  as_name :: string
  as_reason :: string

definition NACHA_MAX_CENTS :: int where
  "NACHA_MAX_CENTS = 9999999999"

text \<open>One round of the loop; \<open>decrypt\<close> is the secret cipher, given the stored text, the tenant and the membership.\<close>

definition achPayout ::
  "(string \<Rightarrow> uuid \<Rightarrow> uuid \<Rightarrow> string res) \<Rightarrow> db \<Rightarrow> payout \<Rightarrow> ach_entry list \<times> ach_skip list \<Rightarrow> (ach_entry list \<times> ach_skip list) res" where
  "achPayout decrypt s p = (\<lambda>(entries, skipped).
     andThen (payoutMember s p) (\<lambda>(m, u).
     let profile = profileOf s (mb_id m); account = Option.bind profile pp_accountEnc
     in case (profile, account) of
          (Some prof, Some accountEnc) \<Rightarrow>
            if accountEnc = []
            then Inr (entries, skipped @ [\<lparr>as_membershipId = mb_id m, as_name = pp_legalName prof, as_reason = ''no_bank_account''\<rparr>])
            else if po_totalCents p < 0 \<or> po_totalCents p > NACHA_MAX_CENTS
            then Inl (BadRequest (''payout '' @ uuidText (po_id p) @ '' tutari NACHA entry siniri disinda ($99,999,999.99) '' @
              emDash @ '' ACH dosyasi olusturulamaz''))
            else andThen (decrypt accountEnc (po_tenantId p) (mb_id m)) (\<lambda>accountNumber.
              Inr (entries @ [\<lparr>ae_routingNumber = pp_routingNumber prof, ae_accountNumber = accountNumber,
                ae_accountType = (if pp_accountType prof = ''savings'' then AcctSavings else AcctChecking),
                ae_amountCents = po_totalCents p, ae_name = pp_legalName prof, ae_id = uuidText (mb_id m)\<rparr>], skipped))
        | (Some prof, None) \<Rightarrow>
            Inr (entries, skipped @ [\<lparr>as_membershipId = mb_id m, as_name = pp_legalName prof, as_reason = ''no_bank_account''\<rparr>])
        | (None, _) \<Rightarrow>
            Inr (entries, skipped @ [\<lparr>as_membershipId = mb_id m, as_name = us_fullName u, as_reason = ''no_payout_profile''\<rparr>])))"

definition achEntries ::
  "(string \<Rightarrow> uuid \<Rightarrow> uuid \<Rightarrow> string res) \<Rightarrow> uuid \<Rightarrow> string option \<Rightarrow> db \<Rightarrow> (ach_entry list \<times> ach_skip list) res" where
  "achEntries decrypt tenantId period s =
     foldRes (achPayout decrypt s)
       (findManyBy (\<lambda>p. nullsLast (po_paidAt p))
          (\<lambda>p. po_tenantId p = tenantId \<and> po_status p = PoPaid \<and> inPeriod period p) (payouts s)) ([], [])"

definition achFile ::
  "(string \<Rightarrow> uuid \<Rightarrow> uuid \<Rightarrow> string res) \<Rightarrow> (string \<Rightarrow> string option) \<Rightarrow> env \<Rightarrow> uuid \<Rightarrow> string option \<Rightarrow> db \<Rightarrow>
   (string \<times> ach_skip list) res" where
  "achFile decrypt processEnv E tenantId period s =
     andThen (tenantOrThrow s tenantId) (\<lambda>tenant.
     andThen (achEntries decrypt tenantId period s) (\<lambda>(entries, skipped).
     Inr (buildNachaFile entries (achConfigFromEnv processEnv (tn_name tenant)) (env_now E), skipped)))"

section \<open>Lists\<close>

definition checkStatusOf :: "payout \<Rightarrow> string" where
  "checkStatusOf p =
     (if po_status p = PoRequested \<or> po_status p = PoProcessing then ''pending_review''
      else if po_status p = PoFailed then ''declined''
      else if po_status p = PoPaid \<and> po_method p = MethodCheck
      then if po_mailedAt p \<noteq> None then ''mailed''
           else if po_checkNumber p \<noteq> None then ''printed'' else ''approved''
      else ''paid'')"

text \<open>The rows of \<open>listMine\<close>, newest first, each with its status text; the presentation object is not modelled.\<close>

definition listMine :: "tenant_context option \<Rightarrow> uuid \<Rightarrow> db \<Rightarrow> (payout \<times> string) list res" where
  "listMine ctx membershipId s =
     andThen (assertMembership ctx membershipId) (\<lambda>_.
     andThen (from_option (DbError ''P2025'') (findMembership s membershipId)) (\<lambda>_.
     Inr (map (\<lambda>p. (p, checkStatusOf p))
       (take 100 (findManyBy (\<lambda>p. - po_createdAt p) (\<lambda>p. po_membershipId p = membershipId) (payouts s))))))"

record payout_row =
  pw_payout :: payout
  pw_batchStatus :: "batch_status option"
  pw_referralCode :: string
  pw_fullName :: string

text \<open>The admin list; the presentation object of a row is not modelled.\<close>

definition payoutRow :: "db \<Rightarrow> payout \<Rightarrow> payout_row res" where
  "payoutRow s p =
     andThen (payoutMember s p) (\<lambda>(m, u).
     Inr \<lparr>pw_payout = p, pw_batchStatus = Option.bind (po_batchId p) (\<lambda>i. map_option ba_status (find (\<lambda>b. ba_id b = i) (batches s))),
       pw_referralCode = mb_referralCode m, pw_fullName = us_fullName u\<rparr>)"

definition listPayouts :: "tenant_context option \<Rightarrow> uuid \<Rightarrow> payout_status option \<Rightarrow> string option \<Rightarrow> nat \<Rightarrow> nat \<Rightarrow> db \<Rightarrow>
    (nat \<times> payout_row list) res" where
  "listPayouts ctx tenantId status period page pageSize s =
     andThen (assertTenant ctx tenantId) (\<lambda>_.
     let hit = (\<lambda>p. po_tenantId p = tenantId \<and> (case status of None \<Rightarrow> True | Some st \<Rightarrow> po_status p = st) \<and> inPeriod period p)
     in andThen (mapRes (payoutRow s) (take pageSize (drop ((page - 1) * pageSize) (findManyBy (\<lambda>p. - po_createdAt p) hit (payouts s)))))
          (\<lambda>items. Inr (countWhere hit (payouts s), items)))"

definition payoutDetail :: "uuid \<Rightarrow> uuid \<Rightarrow> db \<Rightarrow> (payout \<times> membership \<times> user \<times> ledger_entry list) res" where
  "payoutDetail tenantId payoutId s =
     andThen (from_option (NotFound ''odeme bulunamadi'')
       (find (\<lambda>p. po_id p = payoutId \<and> po_tenantId p = tenantId) (payouts s))) (\<lambda>p.
     andThen (payoutMember s p) (\<lambda>(m, u).
     Inr (p, m, u, findManyBy le_createdAt (\<lambda>e. le_payoutId e = Some payoutId) (ledger s))))"

record payable_member =
  pm_membershipId :: uuid
  pm_referralCode :: string
  pm_fullName :: string
  pm_netCents :: cents
  pm_soldThisMonthCents :: cents

definition soldInMonth :: "db \<Rightarrow> uuid \<Rightarrow> string \<Rightarrow> uuid \<Rightarrow> cents" where
  "soldInMonth s tenantId month m =
     sumWhere (\<lambda>r. sa_tenantId r = tenantId \<and> sa_status r = SaleApproved \<and> sa_summaryMonth r = Some month \<and>
       sa_sellerMembershipId r = m) sa_amountCents (sales s)"

text \<open>The members at or above the payout minimum, largest balance first; \<open>groupOrder\<close> decides ties.\<close>

definition payableMembers :: "tenant_context option \<Rightarrow> env \<Rightarrow> (uuid list \<Rightarrow> uuid list) \<Rightarrow> uuid \<Rightarrow> db \<Rightarrow>
    (cents \<times> string \<times> payable_member list) res" where
  "payableMembers ctx E groupOrder tenantId s =
     andThen (assertTenant ctx tenantId) (\<lambda>_.
     andThen (tenantOrThrow s tenantId) (\<lambda>tenant.
     let month = env_month E (env_now E) (tn_timezone tenant);
         joined = List.map_filter (\<lambda>i. Option.bind (findMembership s i) (\<lambda>m. map_option (Pair m) (findUser s (mb_userId m))))
           (requestCandidates groupOrder s tenant)
     in Inr (tn_payoutMinCents tenant, tn_currency tenant,
          sort_key (\<lambda>r. - pm_netCents r) (map (\<lambda>(m, u).
            \<lparr>pm_membershipId = mb_id m, pm_referralCode = mb_referralCode m, pm_fullName = us_fullName u,
             pm_netCents = netPayable s tenantId (mb_id m), pm_soldThisMonthCents = soldInMonth s tenantId month (mb_id m)\<rparr>)
            joined))))"

end
