(* ===== verification/Checks.thy ===== *)
theory Checks
  imports Payout_Requests "HOL-Library.Signed_Division"
begin

text \<open>
  \<open>ChecksService\<close>: paid payouts that go out by check get consecutive numbers and the address of that
  moment, are printed and marked as mailed.  No money moves here.  The texts on the face of a check,
  its amount in words and in figures, are those of \<open>checks.pdf.ts\<close>; where they are drawn on the page is
  not modelled.  The English date text (\<open>toLocaleDateString\<close>) is a parameter.
\<close>

section \<open>The amount on a check\<close>

definition ONES :: "string list" where
  "ONES = [[], ''One'', ''Two'', ''Three'', ''Four'', ''Five'', ''Six'', ''Seven'', ''Eight'', ''Nine'', ''Ten'',
     ''Eleven'', ''Twelve'', ''Thirteen'', ''Fourteen'', ''Fifteen'', ''Sixteen'', ''Seventeen'', ''Eighteen'', ''Nineteen'']"

definition TENS :: "string list" where
  "TENS = [[], [], ''Twenty'', ''Thirty'', ''Forty'', ''Fifty'', ''Sixty'', ''Seventy'', ''Eighty'', ''Ninety'']"

definition twoDigits :: "nat \<Rightarrow> string" where
  "twoDigits n =
     (if 20 \<le> n then TENS ! (n div 10) @ (if n mod 10 \<noteq> 0 then ''-'' @ ONES ! (n mod 10) else [])
      else if 0 < n then ONES ! n else [])"

definition threeDigits :: "nat \<Rightarrow> string" where
  "threeDigits n =
     (if 100 \<le> n
      then ONES ! (n div 100) @ '' Hundred'' @ (if n mod 100 \<noteq> 0 then '' '' else []) @ twoDigits (n mod 100)
      else twoDigits n)"

text \<open>\<open>groups[g]\<close>, which is undefined, and so falsy like the empty text, from the fifth group on.\<close>

definition groupName :: "nat \<Rightarrow> string" where
  "groupName g = (let groups = [[], ''Thousand'', ''Million'', ''Billion''] in if g < length groups then groups ! g else [])"

fun wordGroups :: "nat \<Rightarrow> nat \<Rightarrow> string \<Rightarrow> string" where
  "wordGroups n g out =
     (if n = 0 then out
      else let chunk = n mod 1000
           in wordGroups (n div 1000) (Suc g)
                (if chunk \<noteq> 0
                 then (threeDigits chunk @ (if groupName g \<noteq> [] then '' '' @ groupName g else [])) @
                      (if out \<noteq> [] then '' '' @ out else [])
                 else out))"

declare wordGroups.simps [simp del]

definition intToWords :: "int \<Rightarrow> string" where
  "intToWords n = (if n = 0 then ''Zero'' else wordGroups (nat n) 0 [])"

definition centsToWords :: "cents \<Rightarrow> string" where
  "centsToWords c = intToWords (c sdiv 100) @ '' and '' @ padStart 2 (CHR ''0'') (show_int (c smod 100)) @ ''/100''"

text \<open>The pattern \<open>/\B(?=(\d{3})+(?!\d))/g\<close>: a comma before every digit but the first that starts a multiple of
  three digits.\<close>

fun groupThousands :: "string \<Rightarrow> string" where
  "groupThousands [] = []"
| "groupThousands [c] = [c]"
| "groupThousands (c # d # ds) =
     c # (if length (d # ds) mod 3 = 0 then CHR '','' # groupThousands (d # ds) else groupThousands (d # ds))"

definition formatUsd :: "cents \<Rightarrow> string" where
  "formatUsd c =
     (let a = (if c < 0 then - c else c)
      in (if c < 0 then ''-'' else []) @ ''$'' @ groupThousands (show_int (a div 100)) @ ''.'' @
         padStart 2 (CHR ''0'') (show_int (a mod 100)))"

section \<open>The queue\<close>

datatype check_state = NeedsAddress | ReadyToPrint | Printed | Mailed

definition CHECK_AMOUNT_MAX :: cents where
  "CHECK_AMOUNT_MAX = 9999999999"

text \<open>A text column that is neither null nor empty.\<close>

definition filled :: "string option \<Rightarrow> bool" where
  "filled v \<longleftrightarrow> v \<noteq> None \<and> v \<noteq> Some []"

definition mailingAddressComplete :: "mailing \<Rightarrow> bool" where
  "mailingAddressComplete m \<longleftrightarrow>
     filled (ma_name m) \<and> filled (ma_line1 m) \<and> filled (ma_city m) \<and> filled (ma_state m) \<and> filled (ma_postal m)"

definition stateOf :: "payout \<Rightarrow> bool \<Rightarrow> check_state" where
  "stateOf p addressComplete =
     (if po_mailedAt p \<noteq> None then Mailed
      else if po_checkNumber p \<noteq> None then Printed
      else if addressComplete then ReadyToPrint else NeedsAddress)"

record check_item =
  ci_payoutId :: uuid
  ci_membershipId :: uuid
  ci_payeeName :: string
  ci_totalCents :: string
  ci_period :: string
  ci_checkNumber :: "int option"
  ci_mailedAt :: "time option"
  ci_addressComplete :: bool
  ci_state :: check_state

definition isCheck :: "uuid \<Rightarrow> payout \<Rightarrow> bool" where
  "isCheck tenantId p \<longleftrightarrow> po_tenantId p = tenantId \<and> po_method p = MethodCheck \<and> po_status p = PoPaid"

definition orText :: "string option \<Rightarrow> string \<Rightarrow> string" where
  "orText v d = (case v of None \<Rightarrow> d | Some t \<Rightarrow> t)"

definition checkItem :: "db \<Rightarrow> payout \<Rightarrow> check_item res" where
  "checkItem s p =
     andThen (payoutMember s p) (\<lambda>(m, u).
     let snap = po_payeeSnapshot p;
         complete = (if snap \<noteq> None then True else mailingAddressComplete (mb_mailing m))
     in Inr \<lparr>ci_payoutId = po_id p, ci_membershipId = po_membershipId p,
          ci_payeeName = (case snap of Some x \<Rightarrow> py_name x | None \<Rightarrow> orText (ma_name (mb_mailing m)) (us_fullName u)),
          ci_totalCents = show_int (po_totalCents p), ci_period = po_period p, ci_checkNumber = po_checkNumber p,
          ci_mailedAt = po_mailedAt p, ci_addressComplete = complete, ci_state = stateOf p complete\<rparr>)"

definition checkCounts :: "check_item list \<Rightarrow> check_state \<Rightarrow> nat" where
  "checkCounts items st = length (filter (\<lambda>i. ci_state i = st) items)"

definition listChecks :: "uuid \<Rightarrow> db \<Rightarrow> (check_item list \<times> (check_state \<Rightarrow> nat)) res" where
  "listChecks tenantId s =
     andThen (mapRes (checkItem s)
       (findManyBy (\<lambda>p. (nullsLast (po_checkNumber p), nullsLast (po_paidAt p))) (isCheck tenantId) (payouts s)))
       (\<lambda>items. Inr (items, checkCounts items))"

section \<open>A check run\<close>

record assigned_check =
  ak_payoutId :: uuid
  ak_checkNumber :: int
  ak_payeeName :: string
  ak_totalCents :: string
  ak_period :: string

record skipped_check =
  sk_payoutId :: uuid
  sk_name :: string
  sk_reason :: string

record check_run =
  cr_next :: int
  cr_assigned :: "assigned_check list"
  cr_skipped :: "skipped_check list"
  cr_db :: db

text \<open>The optional list of payouts selects nothing when it is missing or empty.\<close>

definition chosenBy :: "uuid list option \<Rightarrow> payout \<Rightarrow> bool" where
  "chosenBy ids p = (case ids of None \<Rightarrow> True | Some l \<Rightarrow> l = [] \<or> po_id p \<in> set l)"

definition unnumberedCheck :: "uuid \<Rightarrow> uuid list option \<Rightarrow> payout \<Rightarrow> bool" where
  "unnumberedCheck tenantId ids p \<longleftrightarrow> isCheck tenantId p \<and> po_checkNumber p = None \<and> chosenBy ids p"

definition checkTargets :: "uuid \<Rightarrow> uuid list option \<Rightarrow> db \<Rightarrow> payout list" where
  "checkTargets tenantId ids s =
     findManyBy (\<lambda>p. (nullsLast (po_paidAt p), po_createdAt p)) (unnumberedCheck tenantId ids) (payouts s)"

definition payeeOf :: "membership \<Rightarrow> user \<Rightarrow> payee_snapshot" where
  "payeeOf m u = (let a = mb_mailing m in
     \<lparr>py_name = orText (ma_name a) (us_fullName u), py_line1 = orText (ma_line1 a) [], py_line2 = ma_line2 a,
      py_city = orText (ma_city a) [], py_state = orText (ma_state a) [], py_postal = orText (ma_postal a) [],
      py_country = orText (ma_country a) ''US''\<rparr>)"

definition skipReason :: "payout \<Rightarrow> membership \<Rightarrow> string option" where
  "skipReason p m =
     (if \<not> mailingAddressComplete (mb_mailing m) then Some ''incomplete_address''
      else if po_totalCents p \<le> 0 \<or> CHECK_AMOUNT_MAX < po_totalCents p then Some ''invalid_amount''
      else None)"

text \<open>\<open>payout.update\<close> by id; the number column is a 32-bit integer, which refuses a larger value.\<close>

definition assignNumber :: "uuid \<Rightarrow> int \<Rightarrow> payee_snapshot \<Rightarrow> db \<Rightarrow> db res" where
  "assignNumber payoutId n snapshot s =
     andThen (require (n \<le> 2147483647) (DbError ''22003'')) (\<lambda>_.
     Inr (s\<lparr>payouts := updateWhere (\<lambda>p. po_id p = payoutId)
       (\<lambda>p. p\<lparr>po_checkNumber := Some n, po_payeeSnapshot := Some snapshot\<rparr>) (payouts s)\<rparr>))"

definition numberCheck :: "payout \<times> membership \<times> user \<Rightarrow> check_run \<Rightarrow> check_run res" where
  "numberCheck = (\<lambda>(p, m, u) st. case skipReason p m of
       Some reason \<Rightarrow>
         Inr (st\<lparr>cr_skipped := cr_skipped st @ [\<lparr>sk_payoutId = po_id p, sk_name = us_fullName u, sk_reason = reason\<rparr>]\<rparr>)
     | None \<Rightarrow>
         let n = cr_next st + 1; snapshot = payeeOf m u
         in andThen (assignNumber (po_id p) n snapshot (cr_db st)) (\<lambda>s1.
            Inr \<lparr>cr_next = n,
              cr_assigned = cr_assigned st @ [\<lparr>ak_payoutId = po_id p, ak_checkNumber = n, ak_payeeName = py_name snapshot,
                ak_totalCents = show_int (po_totalCents p), ak_period = po_period p\<rparr>],
              cr_skipped = cr_skipped st, cr_db = s1\<rparr>))"

text \<open>The counter, read under the lock of the tenant's row, and its write.\<close>

definition lastCheckNumber :: "db \<Rightarrow> uuid \<Rightarrow> int" where
  "lastCheckNumber s tenantId = (case findTenant s tenantId of None \<Rightarrow> 1000 | Some t \<Rightarrow> tn_lastCheckNumber t)"

definition storeCounter :: "uuid \<Rightarrow> int \<Rightarrow> db \<Rightarrow> db res" where
  "storeCounter tenantId n s =
     andThen (require (findTenant s tenantId \<noteq> None) (DbError ''P2025'')) (\<lambda>_.
     Inr (s\<lparr>tenants := updateWhere (\<lambda>t. tn_id t = tenantId) (\<lambda>t. t\<lparr>tn_lastCheckNumber := n\<rparr>) (tenants s)\<rparr>))"

definition checkRunAudit :: "check_run \<Rightarrow> json" where
  "checkRunAudit st = JObj
     [(''assigned'', JNum (int (length (cr_assigned st)))), (''skipped'', JNum (int (length (cr_skipped st)))),
      (''fromCheck'', case cr_assigned st of [] \<Rightarrow> JNull | x # _ \<Rightarrow> JNum (ak_checkNumber x)),
      (''toCheck'', if cr_assigned st \<noteq> [] then JNum (cr_next st) else JNull)]"

definition generateRun :: "actor \<Rightarrow> uuid list option \<Rightarrow> db \<Rightarrow> ((assigned_check list \<times> skipped_check list) \<times> db) res" where
  "generateRun a ids s =
     andThen (mapRes (\<lambda>p. andThen (payoutMember s p) (\<lambda>mu. Inr (p, mu))) (checkTargets (ac_tenantId a) ids s)) (\<lambda>targets.
     andThen (foldRes numberCheck targets
       \<lparr>cr_next = lastCheckNumber s (ac_tenantId a), cr_assigned = [], cr_skipped = [], cr_db = s\<rparr>) (\<lambda>st.
     andThen (if cr_assigned st \<noteq> [] then storeCounter (ac_tenantId a) (cr_next st) (cr_db st) else Inr (cr_db st)) (\<lambda>s1.
     Inr ((cr_assigned st, cr_skipped st), serviceAudit a ''check.run'' ''payout'' None (checkRunAudit st) s1))))"

section \<open>Mailing and printing\<close>

definition mailable :: "actor \<Rightarrow> uuid list \<Rightarrow> payout \<Rightarrow> bool" where
  "mailable a ids p \<longleftrightarrow>
     isCheck (ac_tenantId a) p \<and> po_id p \<in> set ids \<and> po_checkNumber p \<noteq> None \<and> po_mailedAt p = None"

definition markMailed :: "env \<Rightarrow> actor \<Rightarrow> uuid list \<Rightarrow> db \<Rightarrow> nat \<times> db" where
  "markMailed E a ids s =
     (let n = countWhere (mailable a ids) (payouts s)
      in (n, serviceAudit a ''check.mailed'' ''payout'' None
            (JObj [(''count'', JNum (int n)), (''payoutIds'', JArr (map JId ids))])
            (s\<lparr>payouts := updateWhere (mailable a ids) (\<lambda>p. p\<lparr>po_mailedAt := Some (env_now E)\<rparr>) (payouts s)\<rparr>)))"

record check_doc =
  cd_checkNumber :: int
  cd_amountCents :: cents
  cd_payee :: payee_snapshot
  cd_memo :: string
  cd_dateLabel :: string

definition printableCheck :: "uuid \<Rightarrow> uuid list option \<Rightarrow> payout \<Rightarrow> bool" where
  "printableCheck tenantId ids p \<longleftrightarrow>
     isCheck tenantId p \<and> po_checkNumber p \<noteq> None \<and> po_mailedAt p = None \<and> chosenBy ids p"

definition usableSnapshot :: "payee_snapshot \<Rightarrow> bool" where
  "usableSnapshot x \<longleftrightarrow> py_name x \<noteq> [] \<and> py_line1 x \<noteq> [] \<and> py_city x \<noteq> [] \<and> py_state x \<noteq> [] \<and> py_postal x \<noteq> []"

definition numberText :: "int option \<Rightarrow> string" where
  "numberText n = (case n of None \<Rightarrow> ''null'' | Some i \<Rightarrow> show_int i)"

definition checkDoc :: "(time \<Rightarrow> string) \<Rightarrow> payout \<Rightarrow> check_doc res" where
  "checkDoc usDate p =
     andThen (from_option (BadRequest (''cek '' @ numberText (po_checkNumber p) @
         '': payee adres snapshot'' @ [CHR 0x27] @ ''i eksik '' @ emDash @ '' cek-run'' @ [CHR 0x27] @ ''i tekrar calistirin''))
       (case po_payeeSnapshot p of None \<Rightarrow> None | Some x \<Rightarrow> if usableSnapshot x then Some x else None)) (\<lambda>snap.
     andThen (require (0 < po_totalCents p \<and> po_totalCents p \<le> CHECK_AMOUNT_MAX)
       (BadRequest (''cek '' @ numberText (po_checkNumber p) @ '': tutar cek sinirlari disinda (0 < tutar <= $99,999,999.99)''))) (\<lambda>_.
     Inr \<lparr>cd_checkNumber = (case po_checkNumber p of None \<Rightarrow> 0 | Some n \<Rightarrow> n), cd_amountCents = po_totalCents p, cd_payee = snap,
       cd_memo = ''Commission payout '' @ emDash @ '' '' @ po_period p,
       cd_dateLabel = usDate (case po_paidAt p of None \<Rightarrow> po_createdAt p | Some t \<Rightarrow> t)\<rparr>))"

definition checkDocs :: "(time \<Rightarrow> string) \<Rightarrow> uuid \<Rightarrow> uuid list option \<Rightarrow> db \<Rightarrow> (check_doc list \<times> string) res" where
  "checkDocs usDate tenantId ids s =
     andThen (tenantOrThrow s tenantId) (\<lambda>_.
     let rows = findManyBy (\<lambda>p. nullsLast (po_checkNumber p)) (printableCheck tenantId ids) (payouts s)
     in andThen (require (rows \<noteq> []) (BadRequest (''bastirilacak cek yok '' @ emDash @
            '' once cek-run ile numara atayin (postalanmis cekler haric)''))) (\<lambda>_.
        andThen (mapRes (checkDoc usDate) rows) (\<lambda>checks.
        Inr (checks, ''checks-'' @ show_int (cd_checkNumber (hd checks)) @ ''-'' @
          show_int (cd_checkNumber (List.last checks)) @ ''.pdf''))))"

text \<open>The lines of the register page and its total, and the address in the window of the envelope.\<close>

definition registerLines :: "check_doc list \<Rightarrow> (string \<times> string \<times> string \<times> string) list \<times> string" where
  "registerLines checks =
     (map (\<lambda>c. (show_int (cd_checkNumber c), py_name (cd_payee c), cd_memo c, formatUsd (cd_amountCents c))) checks,
      formatUsd (sum_list (map cd_amountCents checks)))"

definition addressLines :: "payee_snapshot \<Rightarrow> string list" where
  "addressLines x =
     filter (\<lambda>l. l \<noteq> []) [py_name x, py_line1 x, orText (py_line2 x) [], py_city x @ '', '' @ py_state x @ '' '' @ py_postal x]"

end
