(* ===== verification/Campaigns.thy ===== *)
theory Campaigns
  imports Payout_Requests
begin

text \<open>
  \<open>CampaignsService\<close>: competitions over a window of time, their live ranking, and their end, which pays
  the prizes through the engine's bonus rows.  The order in which Postgres returns the groups of a
  \<open>GROUP BY\<close> is the parameter \<open>groupOrder\<close>: the ranking sorts stably by score, so it decides ties.
\<close>

section \<open>The ranking\<close>

definition MAX_STANDINGS :: nat where
  "MAX_STANDINGS = 50"

definition inWindow :: "campaign \<Rightarrow> time \<Rightarrow> bool" where
  "inWindow c t \<longleftrightarrow> cp_startsAt c \<le> t \<and> t \<le> cp_endsAt c"

text \<open>The rows a metric counts, each under the member it counts for, with its weight.\<close>

definition metricRows :: "uuid \<Rightarrow> campaign \<Rightarrow> db \<Rightarrow> (uuid \<times> int) list" where
  "metricRows tenantId c s =
     (let won = filter (\<lambda>r. sa_tenantId r = tenantId \<and> sa_status r = SaleApproved \<and> inWindow c (sa_saleDate r)) (sales s)
      in case cp_metric c of
           MetricRevenue \<Rightarrow> map (\<lambda>r. (sa_sellerMembershipId r, sa_amountCents r)) won
         | MetricSalesCount \<Rightarrow> map (\<lambda>r. (sa_sellerMembershipId r, 1)) won
         | MetricNewRecruits \<Rightarrow> List.map_filter (\<lambda>m. map_option (\<lambda>sponsor. (sponsor, 1)) (mb_sponsorMembershipId m))
             (filter (\<lambda>m. mb_tenantId m = tenantId \<and> inWindow c (mb_joinedAt m)) (memberships s))
         | MetricInvites \<Rightarrow> map (\<lambda>v. (iv_inviterMembershipId v, 1))
             (filter (\<lambda>v. iv_tenantId v = tenantId \<and> inWindow c (iv_createdAt v)) (invites s)))"

definition scoreOf :: "(uuid \<times> int) list \<Rightarrow> uuid \<Rightarrow> int" where
  "scoreOf rows m = sumWhere (\<lambda>x. fst x = m) snd rows"

definition scored :: "(uuid list \<Rightarrow> uuid list) \<Rightarrow> uuid \<Rightarrow> campaign \<Rightarrow> db \<Rightarrow> (uuid \<times> int) list" where
  "scored groupOrder tenantId c s =
     (let rows = metricRows tenantId c s;
          groups = map (\<lambda>m. (m, scoreOf rows m)) (groupOrder (remdups (map fst rows)))
      in take MAX_STANDINGS (sort_key (\<lambda>x. - snd x) (filter (\<lambda>x. 0 < snd x) groups)))"

text \<open>A \<open>Map\<close> built from the prizes keeps the last one of a rank; a rank without a prize pays nothing.\<close>

definition bonusOfRank :: "campaign_prize list \<Rightarrow> nat \<Rightarrow> cents" where
  "bonusOfRank prizes rank =
     (case map_of (rev (map (\<lambda>p. (pz_rank p, pz_bonusCents p)) prizes)) rank of None \<Rightarrow> 0 | Some b \<Rightarrow> b)"

definition standingAt :: "campaign \<Rightarrow> db \<Rightarrow> nat \<Rightarrow> uuid \<times> int \<Rightarrow> standing" where
  "standingAt c s rank = (\<lambda>(m, score).
     let member = findMembership s m
     in \<lparr>st_rank = rank, st_membershipId = m,
         st_name = (case Option.bind member (\<lambda>b. findUser s (mb_userId b)) of None \<Rightarrow> emDash | Some u \<Rightarrow> us_fullName u),
         st_code = (case member of None \<Rightarrow> [] | Some b \<Rightarrow> mb_referralCode b),
         st_score = score, st_bonusCents = bonusOfRank (cp_prizes c) rank,
         st_inactive = (map_option mb_status member \<noteq> Some MemberActive)\<rparr>)"

definition standings :: "(uuid list \<Rightarrow> uuid list) \<Rightarrow> uuid \<Rightarrow> campaign \<Rightarrow> db \<Rightarrow> standing list" where
  "standings groupOrder tenantId c s =
     map (\<lambda>(i, x). standingAt c s (Suc i) x) (enumerate 0 (scored groupOrder tenantId c s))"

section \<open>Editing\<close>

record campaign_view =
  cv_id :: uuid
  cv_name :: string
  cv_description :: "string option"
  cv_metric :: campaign_metric
  cv_startsAt :: time
  cv_endsAt :: time
  cv_status :: campaign_status
  cv_prizes :: "campaign_prize list"
  cv_finalizedAt :: "time option"
  cv_createdAt :: time

definition serialize :: "campaign \<Rightarrow> campaign_view" where
  "serialize c = \<lparr>cv_id = cp_id c, cv_name = cp_name c, cv_description = cp_description c, cv_metric = cp_metric c,
     cv_startsAt = cp_startsAt c, cv_endsAt = cp_endsAt c, cv_status = cp_status c, cv_prizes = cp_prizes c,
     cv_finalizedAt = cp_finalizedAt c, cv_createdAt = cp_createdAt c\<rparr>"

text \<open>Postgres orders an enumeration by the order of its declaration.\<close>

fun campaignOrder :: "campaign_status \<Rightarrow> nat" where
  "campaignOrder CampaignDraft = 0"
| "campaignOrder CampaignActive = 1"
| "campaignOrder CampaignEnded = 2"

fun campaignStatusText :: "campaign_status \<Rightarrow> string" where
  "campaignStatusText CampaignDraft = ''draft''"
| "campaignStatusText CampaignActive = ''active''"
| "campaignStatusText CampaignEnded = ''ended''"

fun metricText :: "campaign_metric \<Rightarrow> string" where
  "metricText MetricRevenue = ''revenue''"
| "metricText MetricSalesCount = ''sales_count''"
| "metricText MetricNewRecruits = ''new_recruits''"
| "metricText MetricInvites = ''invites''"

definition listCampaigns :: "uuid \<Rightarrow> db \<Rightarrow> campaign_view list" where
  "listCampaigns tenantId s =
     map serialize (findManyBy (\<lambda>c. (campaignOrder (cp_status c), - cp_startsAt c)) (\<lambda>c. cp_tenantId c = tenantId) (campaigns s))"

definition requireCampaign :: "uuid \<Rightarrow> uuid \<Rightarrow> db \<Rightarrow> campaign res" where
  "requireCampaign tenantId i s =
     from_option (NotFound ''kampanya bu isletmede bulunamadi'') (find (\<lambda>c. cp_id c = i \<and> cp_tenantId c = tenantId) (campaigns s))"

definition campaignAudit :: "actor \<Rightarrow> string \<Rightarrow> uuid \<Rightarrow> json \<Rightarrow> db \<Rightarrow> db" where
  "campaignAudit a action i after s = serviceAudit a action ''campaign'' (Some i) after s"

record campaign_input =
  cn_name :: string
  cn_description :: "string option"
  cn_metric :: campaign_metric
  cn_startsAt :: time
  cn_endsAt :: time
  cn_prizes :: "campaign_prize list"

text \<open>The id is drawn by the database, under the primary key.\<close>

definition createCampaign :: "env \<Rightarrow> actor \<Rightarrow> campaign_input \<Rightarrow> db \<Rightarrow> (campaign_view \<times> db) res" where
  "createCampaign E a i s =
     (let row = \<lparr>cp_id = freshId s, cp_tenantId = ac_tenantId a, cp_name = cn_name i, cp_description = cn_description i,
                 cp_metric = cn_metric i, cp_startsAt = cn_startsAt i, cp_endsAt = cn_endsAt i, cp_status = CampaignDraft,
                 cp_prizes = cn_prizes i, cp_results = None, cp_createdBy = Some (ac_userId a), cp_finalizedAt = None,
                 cp_createdAt = env_now E\<rparr>
      in andThen (require (cp_id row \<notin> cp_id ` set (campaigns s)) (DbError ''P2002'')) (\<lambda>_.
         Inr (serialize row, campaignAudit a ''campaign.create'' (cp_id row)
            (JObj [(''name'', JStr (cp_name row)), (''metric'', JStr (metricText (cp_metric row)))])
            ((drawId s)\<lparr>campaigns := campaigns s @ [row]\<rparr>))))"

text \<open>A missing field is not written; the schema admits \<open>draft\<close> and \<open>active\<close> as the new status.\<close>

record campaign_update =
  cu_name :: "string option"
  cu_description :: "string option"
  cu_metric :: "campaign_metric option"
  cu_startsAt :: "time option"
  cu_endsAt :: "time option"
  cu_prizes :: "campaign_prize list option"
  cu_status :: "campaign_status option"

definition orKeep :: "'a option \<Rightarrow> 'a \<Rightarrow> 'a" where
  "orKeep v old = (case v of None \<Rightarrow> old | Some x \<Rightarrow> x)"

definition patched :: "campaign_update \<Rightarrow> campaign \<Rightarrow> campaign" where
  "patched i c = c\<lparr>cp_name := orKeep (cu_name i) (cp_name c),
     cp_description := (case cu_description i of None \<Rightarrow> cp_description c | Some d \<Rightarrow> Some d),
     cp_metric := orKeep (cu_metric i) (cp_metric c), cp_startsAt := orKeep (cu_startsAt i) (cp_startsAt c),
     cp_endsAt := orKeep (cu_endsAt i) (cp_endsAt c), cp_status := orKeep (cu_status i) (cp_status c),
     cp_prizes := orKeep (cu_prizes i) (cp_prizes c)\<rparr>"

definition restrictedPatch :: "campaign_update \<Rightarrow> bool" where
  "restrictedPatch i \<longleftrightarrow> cu_metric i \<noteq> None \<or> cu_startsAt i \<noteq> None \<or> cu_endsAt i \<noteq> None \<or> cu_prizes i \<noteq> None"

text \<open>
  \<open>update\<close> and \<open>remove\<close> run outside any transaction: the row is read and checked in the database \<open>seen\<close>, and
  written by its id in the database \<open>s\<close> that other requests have left since.  A missing row fails the write.
\<close>

definition updateCampaign :: "actor \<Rightarrow> uuid \<Rightarrow> campaign_update \<Rightarrow> db \<Rightarrow> db \<Rightarrow> (campaign_view \<times> db) res" where
  "updateCampaign a i patch seen s =
     andThen (requireCampaign (ac_tenantId a) i seen) (\<lambda>c.
     andThen (require (cp_status c \<noteq> CampaignEnded) (Conflict ''bitmis kampanya duzenlenemez'')) (\<lambda>_.
     andThen (require (\<not> (cp_status c = CampaignActive \<and> restrictedPatch patch))
       (BadRequest ''aktif kampanyada yalniz ad/aciklama degistirilebilir'')) (\<lambda>_.
     andThen (require (orKeep (cu_startsAt patch) (cp_startsAt c) < orKeep (cu_endsAt patch) (cp_endsAt c))
       (BadRequest ''endsAt, startsAt sonrasinda olmali'')) (\<lambda>_.
     andThen (require (case cu_prizes patch of None \<Rightarrow> True | Some ps \<Rightarrow> distinct (map pz_rank ps))
       (BadRequest ''her rank yalnizca bir kez tanimlanabilir'')) (\<lambda>_.
     andThen (from_option (DbError ''P2025'') (find (\<lambda>x. cp_id x = cp_id c) (campaigns s))) (\<lambda>x.
     let updated = patched patch x
     in Inr (serialize updated, campaignAudit a ''campaign.update'' (cp_id c)
          (JObj [(''status'', JStr (campaignStatusText (cp_status updated)))])
          (s\<lparr>campaigns := updateWhere (\<lambda>x. cp_id x = cp_id c) (patched patch) (campaigns s)\<rparr>))))))))"

definition removeCampaign :: "actor \<Rightarrow> uuid \<Rightarrow> db \<Rightarrow> db \<Rightarrow> db res" where
  "removeCampaign a i seen s =
     andThen (requireCampaign (ac_tenantId a) i seen) (\<lambda>c.
     andThen (require (cp_status c = CampaignDraft) (BadRequest ''yalnizca taslak kampanya silinebilir'')) (\<lambda>_.
     andThen (require (cp_id c \<in> cp_id ` set (campaigns s)) (DbError ''P2025'')) (\<lambda>_.
     Inr (campaignAudit a ''campaign.delete'' i (JObj [(''name'', JStr (cp_name c))])
       (s\<lparr>campaigns := filter (\<lambda>x. cp_id x \<noteq> cp_id c) (campaigns s)\<rparr>)))))"

section \<open>Reading\<close>

definition campaignDetail :: "(uuid list \<Rightarrow> uuid list) \<Rightarrow> uuid \<Rightarrow> uuid \<Rightarrow> db \<Rightarrow> (campaign_view \<times> standing list) res" where
  "campaignDetail groupOrder tenantId i s =
     andThen (requireCampaign tenantId i s) (\<lambda>c.
     Inr (serialize c, case cp_results c of
         Some results \<Rightarrow> if cp_status c = CampaignEnded then results else standings groupOrder tenantId c s
       | None \<Rightarrow> standings groupOrder tenantId c s))"

record member_campaign =
  mc_campaign :: campaign_view
  mc_myRank :: "nat option"
  mc_myScore :: int
  mc_leaderboard :: "standing list"

definition forMember :: "(uuid list \<Rightarrow> uuid list) \<Rightarrow> uuid \<Rightarrow> uuid \<Rightarrow> db \<Rightarrow> member_campaign list" where
  "forMember groupOrder tenantId m s =
     map (\<lambda>c. let ranking = standings groupOrder tenantId c s; mine = find (\<lambda>x. st_membershipId x = m) ranking
              in \<lparr>mc_campaign = serialize c, mc_myRank = map_option st_rank mine,
                  mc_myScore = (case mine of None \<Rightarrow> 0 | Some x \<Rightarrow> st_score x), mc_leaderboard = take 5 ranking\<rparr>)
       (findManyBy cp_endsAt (\<lambda>c. cp_tenantId c = tenantId \<and> cp_status c = CampaignActive) (campaigns s))"

section \<open>The end of a campaign\<close>

text \<open>The claim is one conditional update: only a campaign that is not ended yet counts.\<close>

definition claimable_campaign :: "uuid \<Rightarrow> campaign \<Rightarrow> campaign \<Rightarrow> bool" where
  "claimable_campaign tenantId c x \<longleftrightarrow>
     cp_id x = cp_id c \<and> cp_tenantId x = tenantId \<and> (cp_status x = CampaignDraft \<or> cp_status x = CampaignActive)"

definition claimCampaign :: "env \<Rightarrow> uuid \<Rightarrow> campaign \<Rightarrow> db \<Rightarrow> db res" where
  "claimCampaign E tenantId c s =
     andThen (require (countWhere (claimable_campaign tenantId c) (campaigns s) = 1) (Conflict ''kampanya zaten bitirilmis'')) (\<lambda>_.
     Inr (s\<lparr>campaigns := updateWhere (claimable_campaign tenantId c)
       (\<lambda>x. x\<lparr>cp_status := CampaignEnded, cp_finalizedAt := Some (env_now E)\<rparr>) (campaigns s)\<rparr>))"

definition prizeBonus :: "uuid \<Rightarrow> campaign \<Rightarrow> string \<Rightarrow> uuid option \<Rightarrow> standing \<Rightarrow> bonus_params" where
  "prizeBonus tenantId c month actor x =
     \<lparr>bp_tenantId = tenantId, bp_membershipId = st_membershipId x, bp_amountCents = st_bonusCents x, bp_month = month,
      bp_reason = cp_name c @ '' '' @ emDash @ '' rank #'' @ show_nat (st_rank x), bp_actorUserId = actor,
      bp_meta = [(''campaignId'', JId (cp_id c)), (''rank'', JNum (int (st_rank x)))]\<rparr>"

definition awardPrize :: "env \<Rightarrow> uuid \<Rightarrow> campaign \<Rightarrow> string \<Rightarrow> uuid option \<Rightarrow> standing \<Rightarrow> db \<Rightarrow> db res" where
  "awardPrize E tenantId c month actor x s =
     (if 0 < st_bonusCents x
      then andThen (awardBonusInTx E (prizeBonus tenantId c month actor x) s) (\<lambda>(i, s'). Inr s')
      else Inr s)"

record finalize_result =
  fz_campaign :: campaign_view
  fz_standings :: "standing list"
  fz_awardedCount :: nat

definition storeResults :: "uuid \<Rightarrow> standing list \<Rightarrow> db \<Rightarrow> (campaign \<times> db) res" where
  "storeResults i ranking s =
     andThen (from_option (DbError ''P2025'') (find (\<lambda>x. cp_id x = i) (campaigns s))) (\<lambda>x.
     Inr (x\<lparr>cp_results := Some ranking\<rparr>,
       s\<lparr>campaigns := updateWhere (\<lambda>x. cp_id x = i) (\<lambda>x. x\<lparr>cp_results := Some ranking\<rparr>) (campaigns s)\<rparr>))"

definition doFinalize ::
  "env \<Rightarrow> (uuid list \<Rightarrow> uuid list) \<Rightarrow> uuid \<Rightarrow> campaign \<Rightarrow> uuid option \<Rightarrow> db \<Rightarrow> (finalize_result \<times> db) res" where
  "doFinalize E groupOrder tenantId c actor s =
     andThen (require (cp_status c \<noteq> CampaignEnded) (Conflict ''kampanya zaten bitirilmis'')) (\<lambda>_.
     andThen (tenantOrThrow s tenantId) (\<lambda>tenant.
     let month = env_month E (env_now E) (tn_timezone tenant)
     in andThen (claimCampaign E tenantId c s) (\<lambda>s1.
        let ranking = standings groupOrder tenantId c s1; awarded = filter (\<lambda>x. 0 < st_bonusCents x) ranking
        in andThen (foldRes (awardPrize E tenantId c month actor) ranking s1) (\<lambda>s2.
           andThen (storeResults (cp_id c) ranking s2) (\<lambda>(updated, s3).
           Inr (\<lparr>fz_campaign = serialize updated, fz_standings = ranking, fz_awardedCount = length awarded\<rparr>,
             s3\<lparr>audits := audits s3 @ [\<lparr>au_tenantId = tenantId, au_actorUserId = actor,
               au_action = (if actor \<noteq> None then ''campaign.finalize'' else ''campaign.auto_finalize''),
               au_entity = ''campaign'', au_entityId = Some (cp_id c), au_before = None,
               au_after = JObj [(''awardedCount'', JNum (int (length awarded))),
                 (''totalBonusCents'', JStr (show_int (sum_list (map st_bonusCents awarded))))]\<rparr>]\<rparr>))))))"

definition finalizeCampaign ::
  "env \<Rightarrow> (uuid list \<Rightarrow> uuid list) \<Rightarrow> actor \<Rightarrow> uuid \<Rightarrow> db \<Rightarrow> (finalize_result \<times> db) res" where
  "finalizeCampaign E groupOrder a i s =
     andThen (requireCampaign (ac_tenantId a) i s) (\<lambda>c.
     doFinalize E groupOrder (ac_tenantId a) c (Some (ac_userId a)) s)"

text \<open>The hourly job: the due campaigns of all tenants, as read at its start; a failed one does not stop the others.\<close>

definition dueCampaigns :: "time \<Rightarrow> db \<Rightarrow> campaign list" where
  "dueCampaigns now s = filter (\<lambda>c. cp_status c = CampaignActive \<and> cp_endsAt c \<le> now) (campaigns s)"

definition autoFinalizeOne :: "env \<Rightarrow> (uuid list \<Rightarrow> uuid list) \<Rightarrow> campaign \<Rightarrow> nat \<times> db \<Rightarrow> nat \<times> db" where
  "autoFinalizeOne E groupOrder c = (\<lambda>(n, s). case doFinalize E groupOrder (cp_tenantId c) c None s of
       Inl _ \<Rightarrow> (n, s)
     | Inr (_, s') \<Rightarrow> (Suc n, s'))"

definition autoFinalizeEnded :: "env \<Rightarrow> (uuid list \<Rightarrow> uuid list) \<Rightarrow> time \<Rightarrow> db \<Rightarrow> nat \<times> db" where
  "autoFinalizeEnded E groupOrder now s = fold (autoFinalizeOne E groupOrder) (dueCampaigns now s) (0, s)"

end
