(* ===== verification/Service_Steps.thy ===== *)
theory Service_Steps
  imports Sales_Bulk Checks Campaigns
begin

text \<open>
  The writes of the services around the engine, as steps beside the engine's own: none of them touches
  the ledger or a settlement batch, and each keeps the books.  Bulk runs of engine steps are treated with
  the engine.
\<close>

section \<open>Steps beside the ledger\<close>

definition besideLedger :: "db \<Rightarrow> db \<Rightarrow> bool" where
  "besideLedger s s' \<longleftrightarrow> (books s \<longrightarrow> books s') \<and> ledger s' = ledger s \<and> batches s' = batches s \<and>
     batchItems s' = batchItems s \<and> summaries s' = summaries s"

lemma besideLedger_refl [simp]: "besideLedger s s"
  by (simp add: besideLedger_def)

lemma besideLedger_trans: "besideLedger s t \<Longrightarrow> besideLedger t u \<Longrightarrow> besideLedger s u"
  by (simp add: besideLedger_def)

lemma besideLedger_fold:
  assumes "\<And>x u. besideLedger (f u) (f (g x u))"
  shows "besideLedger (f t) (f (fold g xs t))"
proof (induction xs arbitrary: t)
  case (Cons x xs)
  show ?case using besideLedger_trans [OF assms [of t x] Cons.IH [of "g x t"]] by simp
qed simp

text \<open>A write to tables the books do not read.\<close>

lemma besideLedger_frame:
  assumes "ledger s' = ledger s" "summaries s' = summaries s" "sales s' = sales s" "batches s' = batches s"
    "payouts s' = payouts s" "batchItems s' = batchItems s" "uuidGen s' = uuidGen s" "uuidNext s \<le> uuidNext s'"
  shows "besideLedger s s'"
  unfolding besideLedger_def using assms by (auto intro!: books_frame [of s] intro: saleBooking_frame)

lemma besideLedger_audits [simp]: "besideLedger s (s\<lparr>audits := xs\<rparr>)"
  by (rule besideLedger_frame) simp_all

lemma besideLedger_notification: "besideLedger s (createNotification t m c tm p s)"
  by (rule besideLedger_frame) (simp_all add: createNotification_def drawId_def)

section \<open>Payout requests\<close>

lemma requestPayoutTx_beside:
  assumes "requestPayoutTx E m t s = Inr (r, s')"
  shows "besideLedger s s'"
proof -
  consider "s' = s" | net period where
    "s' = (drawId s)\<lparr>payouts := payouts s @ [requestedPayout E t m period net s]\<rparr>"
    using assms by (auto simp: requestPayoutTx_def Let_def split: list.splits option.splits if_splits)
  then show ?thesis
  proof cases
    case 2
    then show ?thesis using books_newPayout [of s "requestedPayout E t m period net s"]
      by (simp add: besideLedger_def requestedPayout_def newPayout_def drawId_def)
  qed simp
qed

lemma requestPayoutWithMeta_beside: "requestPayoutWithMeta ctx E m t s = Inr (r, s') \<Longrightarrow> besideLedger s s'"
  by (auto simp: requestPayoutWithMeta_def intro: requestPayoutTx_beside)

lemma notifyAutoRequest_beside: "besideLedger s (notifyAutoRequest t m net period p s)"
  unfolding notifyAutoRequest_def Let_def by (rule besideLedger_trans [OF besideLedger_notification besideLedger_notification])

lemma autoRequestMember_beside: "besideLedger (snd u) (snd (autoRequestMember E t m u))"
proof (cases u)
  case (Pair n s)
  show ?thesis
  proof (cases "requestPayoutWithMeta None E m t s")
    case (Inr x)
    obtain r s1 where x: "x = (r, s1)" by (cases x)
    have "besideLedger s s1" using requestPayoutWithMeta_beside Inr x by simp
    moreover have "besideLedger s1 (snd (autoRequestMember E t m u))"
      using Inr x Pair notifyAutoRequest_beside by (simp add: autoRequestMember_def)
    ultimately show ?thesis using Pair besideLedger_trans by simp
  qed (simp add: autoRequestMember_def Pair)
qed

lemma autoRequestTenant_beside: "besideLedger (snd u) (snd (autoRequestTenant E g t u))"
  using besideLedger_fold [of snd "autoRequestMember E (tn_id t)" u, OF autoRequestMember_beside]
  by (cases u) (simp add: autoRequestTenant_def)

lemma autoRequestPayouts_beside:
  assumes "autoRequestPayouts E g s = (n, s')"
  shows "besideLedger s s'"
proof -
  let ?st = "(\<lparr>at_created = 0, at_skipped = 0\<rparr>, s)" and ?due = "filter tn_autoRequestPayouts (tenants s)"
  have "snd (fold (autoRequestTenant E g) ?due ?st) = s'"
    using assms by (simp add: autoRequestPayouts_def Let_def split: prod.splits)
  moreover have "besideLedger (snd ?st) (snd (fold (autoRequestTenant E g) ?due ?st))"
    by (rule besideLedger_fold) (rule autoRequestTenant_beside)
  ultimately show ?thesis by simp
qed

section \<open>Bank reconciliation\<close>

lemma clearPayout_note: "payoutNote (clearPayout E a ref)"
  by (simp add: payoutNote_def clearPayout_def)

lemma reconcileRow_beside: "besideLedger (rc_db st) (rc_db (reconcileRow E a row st))"
proof -
  have "besideLedger s (s\<lparr>payouts := updateWhere P (clearPayout E a ref) (payouts s)\<rparr>)" for s P ref
    using books_notePayout [OF _ clearPayout_note] by (simp add: besideLedger_def)
  then show ?thesis by (simp add: reconcileRow_def Let_def split: list.split prod.split)
qed

lemma reconcile_beside: "reconcile E a locked rows s = (r, s') \<Longrightarrow> besideLedger s s'"
proof -
  assume "reconcile E a locked rows s = (r, s')"
  moreover define st0 where "st0 = \<lparr>rc_buckets = amountBuckets (unclearedPayouts (ac_tenantId a) locked s), rc_db = s, rc_matched = [], rc_unmatched = []\<rparr>"
  moreover have "besideLedger (rc_db st0) (rc_db (fold (reconcileRow E a) rows st0))"
    by (rule besideLedger_fold) (rule reconcileRow_beside)
  moreover have "rc_db st0 = s" by (simp add: st0_def)
  ultimately show "besideLedger s s'"
    by (auto simp: reconcile_def Let_def serviceAudit_def intro: besideLedger_trans)
qed

section \<open>Sales\<close>

lemma saleAudit_beside: "besideLedger s (saleAudit a action i after before s)"
  by (simp add: saleAudit_def)

lemma insertSale_beside:
  assumes "insertSale row s = Inr (r, s')" "sa_id row = freshId s" "sa_summaryMonth row = None"
  shows "besideLedger s s'"
  using assms books_newSale [of s row] by (auto simp: insertSale_def besideLedger_def drawId_def split: if_splits)

lemma createDraftSale_beside:
  assumes "createDraftSale E a i s = Inr (r, s')"
  shows "besideLedger s s'"
proof -
  have "s' = s \<or> (\<exists>j row. insertSale (draftSale E a j (freshId s)) s = Inr (row, s'))"
    using assms by (auto simp: createDraftSale_def Let_def split: sum.splits option.splits if_splits)
  then show ?thesis
  proof
    assume "\<exists>j row. insertSale (draftSale E a j (freshId s)) s = Inr (row, s')"
    then obtain j row where "insertSale (draftSale E a j (freshId s)) s = Inr (row, s')" by blast
    then show ?thesis by (rule insertSale_beside) (simp_all add: draftSale_def)
  qed simp
qed

lemma createSale_beside: "createSale ctx E a i s = Inr (r, s') \<Longrightarrow> besideLedger s s'"
  by (auto simp: createSale_def Let_def split: option.splits if_splits
      dest!: createDraftSale_beside intro: besideLedger_trans [OF _ saleAudit_beside])

lemma selfCreate_beside: "selfCreate E a m i s = Inr (r, s') \<Longrightarrow> besideLedger s s'"
  by (auto simp: selfCreate_def dest!: insertSale_beside [OF _ _ _] simp: draftSale_def
      intro: besideLedger_trans [OF _ saleAudit_beside])

lemma importRow_beside: "besideLedger (im_db st) (im_db (importRow parseDate dbMessage E a currency idx c x st))"
  by (auto simp: importRow_def skipRow_def split: prod.split sum.split option.split dest: createDraftSale_beside)

lemma importCsv_beside:
  assumes "importCsv parseDate dbMessage ctx E a csv mapping preview s = Inr (r, s')"
  shows "besideLedger s s'"
proof -
  let ?st0 = "\<lparr>im_created = [], im_skipped = [], im_errors = [], im_db = s\<rparr>"
  have "s' = s \<or> (\<exists>currency idx c body. s' = importAudit a (fold (importRow parseDate dbMessage E a currency idx c) body ?st0))"
    using assms by (fastforce simp: importCsv_def Let_def split: if_splits)
  moreover have "besideLedger s (importAudit a (fold (importRow parseDate dbMessage E a currency idx c) body ?st0))" for currency idx c body
    using besideLedger_fold [of im_db "importRow parseDate dbMessage E a currency idx c" ?st0 body, OF importRow_beside]
    by (auto simp: importAudit_def intro: besideLedger_trans [OF _ saleAudit_beside])
  ultimately show ?thesis by auto
qed

lemma removeSale_beside: "removeSale ctx a i seen s = Inr s' \<Longrightarrow> besideLedger s s'"
proof -
  assume "removeSale ctx a i seen s = Inr s'"
  then obtain j x y where d: "deleteSale j s = Inr x" "s' = saleAudit a ''sale.delete'' (Some j) (JObj [(''deleted'', JBool True)]) (Some y) x"
    by (auto simp: removeSale_def)
  have "besideLedger s x" using d(1) books_removeSale [of s j]
    by (auto simp: deleteSale_def besideLedger_def list_ex_iff split: if_splits)
  then show ?thesis using d(2) saleAudit_beside besideLedger_trans by blast
qed

section \<open>Checks and campaigns\<close>

lemma besideLedger_notePayout: "payoutNote g \<Longrightarrow> besideLedger s (s\<lparr>payouts := updateWhere P g (payouts s)\<rparr>)"
  using books_notePayout by (simp add: besideLedger_def)

lemma serviceAudit_beside: "besideLedger s (serviceAudit a action entity i after s)"
  by (simp add: serviceAudit_def)

lemma numberCheck_beside:
  assumes "numberCheck x st = Inr st'"
  shows "besideLedger (cr_db st) (cr_db st')"
proof -
  obtain p m u where x: "x = (p, m, u)" by (cases x)
  have "besideLedger (cr_db st) s1" if "assignNumber i n snap (cr_db st) = Inr s1" for i n snap s1
    using that by (auto simp: assignNumber_def payoutNote_def intro!: besideLedger_notePayout)
  then show ?thesis using assms by (auto simp: x numberCheck_def Let_def split: option.splits)
qed

lemma storeCounter_beside: "storeCounter t n s = Inr s' \<Longrightarrow> besideLedger s s'"
  by (auto simp: storeCounter_def intro: besideLedger_frame)

lemma generateRun_beside:
  assumes "generateRun a ids s = Inr (r, s')"
  shows "besideLedger s s'"
proof -
  let ?st0 = "\<lparr>cr_next = lastCheckNumber s (ac_tenantId a), cr_assigned = [], cr_skipped = [], cr_db = s\<rparr>"
  obtain targets st s1 where fold: "foldRes numberCheck targets ?st0 = Inr st"
    and s1: "(if cr_assigned st \<noteq> [] then storeCounter (ac_tenantId a) (cr_next st) (cr_db st) else Inr (cr_db st)) = Inr s1"
    and s': "s' = serviceAudit a ''check.run'' ''payout'' None (checkRunAudit st) s1"
    using assms by (auto simp: generateRun_def)
  have "besideLedger s (cr_db st)"
    by (rule foldRes_invariant [where P = "\<lambda>st. besideLedger s (cr_db st)", OF fold]) (auto intro: besideLedger_trans numberCheck_beside)
  moreover have "besideLedger (cr_db st) s1" using s1 by (auto split: if_splits intro: storeCounter_beside)
  ultimately show ?thesis using s' serviceAudit_beside besideLedger_trans by blast
qed

lemma markMailed_beside: "markMailed E a ids s = (n, s') \<Longrightarrow> besideLedger s s'"
  by (auto simp: markMailed_def Let_def payoutNote_def intro!: besideLedger_trans [OF besideLedger_notePayout serviceAudit_beside])

lemma besideLedger_campaigns [simp]: "besideLedger s (s\<lparr>campaigns := xs\<rparr>)"
  by (rule besideLedger_frame) simp_all

lemma campaignAudit_beside: "besideLedger s t \<Longrightarrow> besideLedger s (campaignAudit a action i after t)"
  unfolding campaignAudit_def by (erule besideLedger_trans) (rule serviceAudit_beside)

lemma createCampaign_beside: "createCampaign E a i s = Inr (v, s') \<Longrightarrow> besideLedger s s'"
  by (auto simp: createCampaign_def Let_def drawId_def intro!: campaignAudit_beside intro: besideLedger_frame)

lemma updateCampaign_beside: "updateCampaign a i patch seen s = Inr (v, s') \<Longrightarrow> besideLedger s s'"
  by (auto simp: updateCampaign_def Let_def intro!: campaignAudit_beside)

lemma removeCampaign_beside: "removeCampaign a i seen s = Inr s' \<Longrightarrow> besideLedger s s'"
  by (auto simp: removeCampaign_def intro!: campaignAudit_beside)

text \<open>The end of a campaign is a claim, bonus rows, and the stored ranking.\<close>

lemma doFinalize_cases:
  assumes "doFinalize E g t c actor s = Inr (r, s')"
  obtains tenant s1 s2 x s3 where "tenantOrThrow s t = Inr tenant" "claimCampaign E t c s = Inr s1"
    "foldRes (awardPrize E t c (env_month E (env_now E) (tn_timezone tenant)) actor) (standings g t c s1) s1 = Inr s2"
    "storeResults (cp_id c) (standings g t c s1) s2 = Inr (x, s3)" "\<exists>au. s' = s3\<lparr>audits := au\<rparr>"
    "r = \<lparr>fz_campaign = serialize x, fz_standings = standings g t c s1,
       fz_awardedCount = length (filter (\<lambda>x. 0 < st_bonusCents x) (standings g t c s1))\<rparr>"
proof -
  from assms obtain tenant s1 s2 x s3 where f: "tenantOrThrow s t = Inr tenant" "claimCampaign E t c s = Inr s1"
    "foldRes (awardPrize E t c (env_month E (env_now E) (tn_timezone tenant)) actor) (standings g t c s1) s1 = Inr s2"
    "storeResults (cp_id c) (standings g t c s1) s2 = Inr (x, s3)"
    and out: "s' = s3\<lparr>audits := audits s'\<rparr>" "r = \<lparr>fz_campaign = serialize x, fz_standings = standings g t c s1,
       fz_awardedCount = length (filter (\<lambda>x. 0 < st_bonusCents x) (standings g t c s1))\<rparr>"
    unfolding doFinalize_def Let_def by auto
  show ?thesis by (rule that [OF f exI [of _ "audits s'"] out(2)]) (rule out(1))
qed

lemma claimCampaign_beside: "claimCampaign E t c s = Inr s1 \<Longrightarrow> besideLedger s s1"
  by (auto simp: claimCampaign_def)

lemma storeResults_beside: "storeResults i ranking s = Inr (x, s') \<Longrightarrow> besideLedger s s'"
  by (auto simp: storeResults_def)

lemma awardPrize_books: "awardPrize E t c month actor x s = Inr s' \<Longrightarrow> books s \<Longrightarrow> books s'"
  by (auto simp: awardPrize_def split: if_splits intro: awardBonusInTx_books)

lemma doFinalize_books:
  assumes "doFinalize E g t c actor s = Inr (r, s')" "books s"
  shows "books s'"
  using assms(1)
proof (rule doFinalize_cases)
  fix month x s1 s2 s3
  assume cl: "claimCampaign E t c s = Inr s1" and f: "foldRes (awardPrize E t c month actor) (standings g t c s1) s1 = Inr s2"
    and st: "storeResults (cp_id c) (standings g t c s1) s2 = Inr (x, s3)" and s': "\<exists>au. s' = s3\<lparr>audits := au\<rparr>"
  have "books s1" using claimCampaign_beside [OF cl] assms(2) by (simp add: besideLedger_def)
  then have "books s2" by (rule foldRes_invariant [where P = books, OF f]) (rule awardPrize_books)
  then have "books s3" using storeResults_beside [OF st] by (simp add: besideLedger_def)
  then show ?thesis using s' besideLedger_audits [of s3] by (auto simp: besideLedger_def)
qed

lemmas services_beside = generateRun_beside markMailed_beside createCampaign_beside updateCampaign_beside removeCampaign_beside
  requestPayoutWithMeta_beside autoRequestPayouts_beside reconcile_beside createSale_beside
  selfCreate_beside importCsv_beside removeSale_beside

section \<open>Bulk runs\<close>

lemma insertExecution_frames:
  "insertExecution a k h s = (n, s1) \<Longrightarrow> besideLedger s s1 \<and> sales s1 = sales s \<and> ledger s1 = ledger s \<and> tenants s1 = tenants s \<and>
     memberships s1 = memberships s \<and> users s1 = users s \<and> plans s1 = plans s"
  by (auto simp: insertExecution_def drawId_def split: if_splits intro: besideLedger_frame)

lemma beginBulkExecution_insert:
  "beginBulkExecution a p scope k h s = Inr (r, s1) \<Longrightarrow> \<exists>n. insertExecution a k h s = (n, s1)"
  by (cases "insertExecution a k h s") (auto simp: beginBulkExecution_def split: list.splits if_splits option.splits)

lemma beginBulkExecution_beside: "beginBulkExecution a p scope k h s = Inr (r, s1) \<Longrightarrow> besideLedger s s1"
  using beginBulkExecution_insert insertExecution_frames by blast

lemma completeBulkExecution_beside: "completeBulkExecution i r s = Inr s' \<Longrightarrow> besideLedger s s' \<and> sales s' = sales s"
  by (auto simp: completeBulkExecution_def Let_def split: if_splits intro: besideLedger_frame)

lemma bulkTx_cases:
  assumes "bulkTx openToken E a p scope k h tok cap s = Inr (out, s')"
  obtains (replay) i r where "beginBulkExecution a p scope k h s = Inr ((i, Some r), s')" "out = BulkDone r"
  | (drift) review where "out = BulkDrift review" "s' = s"
  | (run) i s1 s2 review where "beginBulkExecution a p scope k h s = Inr ((i, None), s1)"
      "calculateBulkReview E a (bk_action p) scope s1 = Inr review" "bulkReviewMatchesToken review p"
      "sm_lockSales cap (bv_eligibleIds review) s1 = bv_eligibleIds review"
      "foldRes (bulkStep cap a (bk_action p)) (bv_eligibleIds review) s1 = Inr s2"
      "completeBulkExecution i (bulkResponse (bk_action p) review) s2 = Inr s'"
      "out = BulkDone (bulkResponse (bk_action p) review)"
proof -
  obtain i rp s1 where b: "beginBulkExecution a p scope k h s = Inr ((i, rp), s1)"
    using assms by (auto simp: bulkTx_def)
  show ?thesis
  proof (cases rp)
    case (Some r)
    then show ?thesis using assms b replay by (simp add: bulkTx_def)
  next
    case None
    then obtain review where rv: "calculateBulkReview E a (bk_action p) scope s1 = Inr review"
      using assms b by (auto simp: bulkTx_def)
    show ?thesis
    proof (cases "bk_scopeFingerprint p \<noteq> bulkScopeFingerprint E scope \<or> \<not> bulkReviewMatchesToken review p \<or>
        sm_lockSales cap (bv_eligibleIds review) s1 \<noteq> bv_eligibleIds review")
      case True
      then show ?thesis using assms b None rv drift by (auto simp: bulkTx_def)
    next
      case False
      then show ?thesis using assms b None rv run by (auto simp: bulkTx_def)
    qed
  qed
qed

lemma bulkStep_books: "bulkStep (saleCapability E t) a action i s = Inr s' \<Longrightarrow> books s \<Longrightarrow> books s'"
  by (auto simp: bulkStep_def saleCapability_def split: bulk_action.splits dest: approveSaleInTx_books voidSaleInTx_books)

lemma bulkTx_books:
  assumes "bulkTx openToken E a p scope k h tok (saleCapability E t) s = Inr (out, s')" "books s"
  shows "books s'"
  using assms(1)
proof (cases rule: bulkTx_cases)
  case (replay i r)
  then show ?thesis using beginBulkExecution_beside [OF replay(1)] assms(2) by (simp add: besideLedger_def)
next
  case (run i s1 s2 review)
  have "books s1" using beginBulkExecution_beside [OF run(1)] assms(2) by (simp add: besideLedger_def)
  then have "books s2" by (rule foldRes_invariant [where P = books, OF run(5)]) (rule bulkStep_books)
  then show ?thesis using completeBulkExecution_beside [OF run(6)] by (simp add: besideLedger_def)
qed (use assms(2) in simp)

end
