(* ===== verification/Engine_Lifecycle.thy ===== *)
theory Engine_Lifecycle
  imports Payout_Reserve Service_Steps
begin

text \<open>
  The lifecycle of the money tables: every committed transaction of the engine, and the policy
  writes it depends on, as one step relation, with its clock and parameters free.  A locale states
  how an invariant is carried along a run and a second one how a relation between the ends of a
  run is; the books, the append-only ledger and the progress of settlement batches instantiate them.
\<close>

section \<open>Runs\<close>

locale maintained =
  fixes step :: "'s \<Rightarrow> 's \<Rightarrow> bool"
    and inv :: "'s \<Rightarrow> bool"
  assumes keeps: "step s s' \<Longrightarrow> inv s \<Longrightarrow> inv s'"
begin

lemma always: "step\<^sup>*\<^sup>* s s' \<Longrightarrow> inv s \<Longrightarrow> inv s'"
  by (induction rule: rtranclp_induct) (auto intro: keeps)

end

locale recorded = maintained +
  fixes rel :: "'s \<Rightarrow> 's \<Rightarrow> bool"
  assumes rel_refl: "rel s s"
    and rel_trans: "rel s t \<Longrightarrow> rel t u \<Longrightarrow> rel s u"
    and rel_step: "step s s' \<Longrightarrow> inv s \<Longrightarrow> rel s s'"
begin

lemma over_run: "step\<^sup>*\<^sup>* s s' \<Longrightarrow> inv s \<Longrightarrow> rel s s'"
proof (induction rule: rtranclp_induct)
  case base
  show ?case by (rule rel_refl)
next
  case (step t u)
  then show ?case using rel_trans rel_step always by blast
qed

end

section \<open>The steps\<close>

text \<open>
  A failed transaction leaves no new database, so only \<open>Inr\<close> results are steps.  A campaign edit checks
  the row it read in \<open>sr\<close>, any database at all, and writes in \<open>s\<close>: others may have run in between.
\<close>

inductive engineStep :: "db \<Rightarrow> db \<Rightarrow> bool" where
  apply_step: "applyCommissions E saleId s = Inr (r, s') \<Longrightarrow> engineStep s s'"
| approve_step: "approveSaleInTx E saleId actor expected s = Inr (r, s') \<Longrightarrow> engineStep s s'"
| void_step: "voidSaleInTx E saleId actor expected s = Inr (v, s') \<Longrightarrow> engineStep s s'"
| deliver_step: "markDelivered saleId at s = Inr (d, s') \<Longrightarrow> engineStep s s'"
| mature_step: "matureCommissions E now limit skipped s = Inr (m, s') \<Longrightarrow> engineStep s s'"
| bonus_step: "awardBonusInTx E bonus s = Inr (i, s') \<Longrightarrow> engineStep s s'"
| reserve_step: "reservePayoutBatchTx E rp s = Inr (b, s') \<Longrightarrow> engineStep s s'"
| dispatch_step: "dispatchPayoutBatchTx E dp ref ev s = Inr (o1, s') \<Longrightarrow> engineStep s s'"
| settle_step: "settlePayoutBatchTx E tp ref ev s = Inr (o1, s') \<Longrightarrow> engineStep s s'"
| fail_step: "failPayoutBatchTx E fp reason s = Inr (o1, s') \<Longrightarrow> engineStep s s'"
| reject_step: "rejectPayoutRequestTx E xp reason s = Inr (i, s') \<Longrightarrow> engineStep s s'"
| lock_step: "lockPeriod E a period note s = Inr (w, s') \<Longrightarrow> engineStep s s'"
| unlock_step: "unlockPeriod a period s = Inr s' \<Longrightarrow> engineStep s s'"
| control_step: "decideControl ctx E ca m key di s = Inr (c, s') \<Longrightarrow> engineStep s s'"
| destination_step: "replaceDestination ctx ca m dst s = Inr (d, s') \<Longrightarrow> engineStep s s'"
| request_step: "requestPayoutWithMeta ctx E m t s = Inr (rq, s') \<Longrightarrow> engineStep s s'"
| auto_request_step: "autoRequestPayouts E groupOrder s = (counts, s') \<Longrightarrow> engineStep s s'"
| reconcile_step: "reconcile E a locked rows s = (rs, s') \<Longrightarrow> engineStep s s'"
| create_sale_step: "createSale ctx E a ci s = Inr (row, s') \<Longrightarrow> engineStep s s'"
| self_create_step: "selfCreate E a m si s = Inr (row, s') \<Longrightarrow> engineStep s s'"
| import_step: "importCsv parseDate dbMessage ctx E a csv mapping preview s = Inr (ir, s') \<Longrightarrow> engineStep s s'"
| remove_sale_step: "removeSale ctx a saleId seen s = Inr s' \<Longrightarrow> engineStep s s'"
| bulk_step: "bulkTx openToken E a p scope keyHash requestHash token (saleCapability E t) s = Inr (out, s') \<Longrightarrow> engineStep s s'"
| check_run_step: "generateRun a ids s = Inr (cr, s') \<Longrightarrow> engineStep s s'"
| mail_step: "markMailed E a ids s = (n, s') \<Longrightarrow> engineStep s s'"
| create_campaign_step: "createCampaign E a cn s = Inr (v, s') \<Longrightarrow> engineStep s s'"
| update_campaign_step: "updateCampaign a i patch sr s = Inr (v, s') \<Longrightarrow> engineStep s s'"
| remove_campaign_step: "removeCampaign a i sr s = Inr s' \<Longrightarrow> engineStep s s'"
| finalize_step: "doFinalize E groupOrder t c actor s = Inr (fz, s') \<Longrightarrow> engineStep s s'"

text \<open>What the policy writes leave alone.\<close>

definition sameMoney :: "db \<Rightarrow> db \<Rightarrow> bool" where
  "sameMoney s s' \<longleftrightarrow> ledger s' = ledger s \<and> summaries s' = summaries s \<and> sales s' = sales s \<and> batches s' = batches s \<and>
     payouts s' = payouts s \<and> batchItems s' = batchItems s \<and> uuidGen s' = uuidGen s \<and> uuidNext s \<le> uuidNext s'"

lemma sameMoney_books: "sameMoney s s' \<Longrightarrow> books s \<Longrightarrow> books s'"
  by (rule books_frame [of s]) (auto simp: sameMoney_def intro: saleBooking_frame)

lemma lockPeriod_sameMoney: "lockPeriod E a period note s = Inr (w, s') \<Longrightarrow> sameMoney s s'"
  by (auto simp: lockPeriod_def upsertLock_def periodAudit_def sameMoney_def Let_def split: option.splits)

lemma unlockPeriod_sameMoney: "unlockPeriod a period s = Inr s' \<Longrightarrow> sameMoney s s'"
  by (auto simp: unlockPeriod_def periodAudit_def sameMoney_def)

lemma mapError_Inr [simp]: "mapError f r = Inr x \<longleftrightarrow> r = Inr x"
  by (auto simp: mapError_def split: sum.splits)

lemma decideControl_sameMoney: "decideControl ctx E a m key i s = Inr (c, s') \<Longrightarrow> sameMoney s s'"
  by (auto simp: decideControl_def writeControl_def complianceAudit_def sameMoney_def Let_def split: if_splits)

lemma replaceDestination_sameMoney: "replaceDestination ctx a m i s = Inr (c, s') \<Longrightarrow> sameMoney s s'"
  by (auto simp: replaceDestination_def retireDestination_def createDestination_def complianceAudit_def sameMoney_def
      drawId_def Let_def split: if_splits)

lemma engineStep_books:
  assumes "engineStep s s'" "books s"
  shows "books s'"
  using assms(1)
proof cases
  case apply_step
  then show ?thesis by (rule applyCommissions_books [OF _ assms(2)])
next
  case approve_step
  then show ?thesis by (rule approveSaleInTx_books [OF _ assms(2)])
next
  case void_step
  then show ?thesis by (rule voidSaleInTx_books [OF _ assms(2)])
next
  case deliver_step
  then show ?thesis by (rule markDelivered_books [OF _ assms(2)])
next
  case mature_step
  then show ?thesis by (rule matureCommissions_books [OF _ assms(2)])
next
  case bonus_step
  then show ?thesis by (rule awardBonusInTx_books [OF _ assms(2)])
next
  case reserve_step
  then show ?thesis by (rule reservePayoutBatchTx_books [OF assms(2)])
next
  case dispatch_step
  then show ?thesis by (rule dispatchPayoutBatchTx_books [OF assms(2)])
next
  case settle_step
  then show ?thesis by (rule settlePayoutBatchTx_books [OF assms(2)])
next
  case fail_step
  then show ?thesis by (rule failPayoutBatchTx_books [OF assms(2)])
next
  case reject_step
  then show ?thesis by (rule rejectPayoutRequestTx_books [OF assms(2)])
next
  case lock_step
  then show ?thesis by (rule sameMoney_books [OF lockPeriod_sameMoney assms(2)])
next
  case unlock_step
  then show ?thesis by (rule sameMoney_books [OF unlockPeriod_sameMoney assms(2)])
next
  case control_step
  then show ?thesis by (rule sameMoney_books [OF decideControl_sameMoney assms(2)])
next
  case destination_step
  then show ?thesis by (rule sameMoney_books [OF replaceDestination_sameMoney assms(2)])
next
  case bulk_step
  then show ?thesis by (rule bulkTx_books [OF _ assms(2)])
next
  case finalize_step
  then show ?thesis by (rule doFinalize_books [OF _ assms(2)])
qed (use assms(2) in \<open>auto dest: services_beside simp: besideLedger_def\<close>)

interpretation bk: maintained engineStep books
  by unfold_locales (rule engineStep_books)

section \<open>History\<close>

text \<open>What a ledger row never loses: everything but its status, its maturity and its payout pointers.\<close>

definition rowCore :: "ledger_entry \<Rightarrow> ledger_entry" where
  "rowCore e = e\<lparr>le_status := LePending, le_maturesAt := None, le_payoutId := None, le_payoutBatchId := None\<rparr>"

definition ledgerExtends :: "db \<Rightarrow> db \<Rightarrow> bool" where
  "ledgerExtends s s' \<longleftrightarrow> (\<exists>new. map rowCore (ledger s') = map rowCore (ledger s) @ new)"

text \<open>How a batch may have moved on.\<close>

fun batchReach :: "batch_status \<Rightarrow> batch_status \<Rightarrow> bool" where
  "batchReach BaProcessing _ = True"
| "batchReach BaDispatched st \<longleftrightarrow> st = BaDispatched \<or> st = BaSettled"
| "batchReach BaSettled st \<longleftrightarrow> st = BaSettled"
| "batchReach BaFailed st \<longleftrightarrow> st = BaFailed"

definition batchesProgress :: "db \<Rightarrow> db \<Rightarrow> bool" where
  "batchesProgress s s' \<longleftrightarrow> (\<forall>b \<in> set (batches s). \<exists>b' \<in> set (batches s'). ba_id b' = ba_id b \<and> batchReach (ba_status b) (ba_status b'))"

definition history :: "db \<Rightarrow> db \<Rightarrow> bool" where
  "history s s' \<longleftrightarrow> ledgerExtends s s' \<and> batchesProgress s s'"

lemma batchReach_refl [simp]: "batchReach st st"
  by (cases st) auto

lemma batchReach_trans: "batchReach a b \<Longrightarrow> batchReach b c \<Longrightarrow> batchReach a c"
  by (cases a; cases b) auto

lemma history_refl [simp]: "history s s"
  by (auto simp: history_def ledgerExtends_def batchesProgress_def)

lemma ledgerExtends_trans: "ledgerExtends s t \<Longrightarrow> ledgerExtends t u \<Longrightarrow> ledgerExtends s u"
  by (auto simp: ledgerExtends_def)

lemma batchesProgress_trans:
  assumes "batchesProgress s t" "batchesProgress t u"
  shows "batchesProgress s u"
  unfolding batchesProgress_def
proof
  fix b assume "b \<in> set (batches s)"
  then obtain c where c: "c \<in> set (batches t)" "ba_id c = ba_id b" "batchReach (ba_status b) (ba_status c)"
    using assms(1) by (auto simp: batchesProgress_def)
  then obtain d where "d \<in> set (batches u)" "ba_id d = ba_id c" "batchReach (ba_status c) (ba_status d)"
    using assms(2) by (auto simp: batchesProgress_def)
  then show "\<exists>d \<in> set (batches u). ba_id d = ba_id b \<and> batchReach (ba_status b) (ba_status d)"
    using c batchReach_trans by metis
qed

lemma history_trans: "history s t \<Longrightarrow> history t u \<Longrightarrow> history s u"
  using ledgerExtends_trans batchesProgress_trans by (auto simp: history_def)

lemma ledgerExtends_same: "map rowCore (ledger s') = map rowCore (ledger s) \<Longrightarrow> ledgerExtends s s'"
  by (simp add: ledgerExtends_def)

lemma batchesProgress_more: "set (batches s) \<subseteq> set (batches s') \<Longrightarrow> batchesProgress s s'"
  by (auto simp: batchesProgress_def)

lemma history_frame: "history s t \<Longrightarrow> ledger t' = ledger t \<Longrightarrow> batches t' = batches t \<Longrightarrow> history s t'"
  by (simp add: history_def ledgerExtends_def batchesProgress_def)

lemma history_posted: "posted s s' es \<Longrightarrow> history s s'"
  by (auto simp: history_def posted_def ledgerExtends_def baseOf_def intro: batchesProgress_more)

lemma map_rowCore_updateWhere: "(\<And>e. rowCore (f e) = rowCore e) \<Longrightarrow> map rowCore (updateWhere P f rows) = map rowCore rows"
  by (rule map_updateWhere_id) simp

lemma history_sameMoney: "sameMoney s s' \<Longrightarrow> history s s'"
  by (rule history_frame [of s s]) (auto simp: sameMoney_def)

lemma batchesProgress_update:
  assumes "\<And>b. b \<in> set (batches s) \<Longrightarrow> P b \<Longrightarrow> ba_id (h b) = ba_id b \<and> batchReach (ba_status b) (ba_status (h b))"
    "batches s' = updateWhere P h (batches s)"
  shows "batchesProgress s s'"
proof -
  have "\<exists>b' \<in> set (batches s'). ba_id b' = ba_id b \<and> batchReach (ba_status b) (ba_status b')" if b: "b \<in> set (batches s)" for b
  proof -
    have "(if P b then h b else b) \<in> set (batches s')" unfolding assms(2) set_updateWhere using b by blast
    then show ?thesis using assms(1) [OF b] by (cases "P b") auto
  qed
  then show ?thesis by (simp add: batchesProgress_def)
qed

lemma history_audit: "history s t \<Longrightarrow> history s (audit a b c d e f t)"
  by (erule history_frame) simp_all

lemma history_notification: "history s t \<Longrightarrow> history s (createNotification a b c d e t)"
  by (erule history_frame) simp_all

lemma history_buckets: "history s t \<Longrightarrow> history s (moveBatchSummary a b c t)"
  by (erule history_frame) (simp_all add: moveBatchSummary_def)

lemma history_payoutSent: "history s t \<Longrightarrow> history s (payoutSent p b tn ev x t)"
  unfolding payoutSent_def by (intro history_audit history_notification)

lemma history_fold: "(\<And>x u. history s u \<Longrightarrow> history s (g x u)) \<Longrightarrow> history s t \<Longrightarrow> history s (fold g xs t)"
  by (induction xs arbitrary: t) auto

subsection \<open>Every step extends the history\<close>

lemma history_rowUpdate:
  "history s t \<Longrightarrow> (\<And>e. rowCore (f e) = rowCore e) \<Longrightarrow> ledger t' = updateWhere P f (ledger t) \<Longrightarrow> batches t' = batches t \<Longrightarrow>
   history s t'"
  using history_trans [of s t t'] map_rowCore_updateWhere [of f P "ledger t"]
  by (simp add: history_def ledgerExtends_same batchesProgress_more)

lemma updateSale_frames [simp]: "ledger (updateSale i f s) = ledger s" "batches (updateSale i f s) = batches s"
  by (simp_all add: updateSale_def)

lemma pinFreeze_frames [simp]:
  "ledger (pinPlan sale plan s) = ledger s" "batches (pinPlan sale plan s) = batches s"
  "ledger (freezeMonth sale m s) = ledger s" "batches (freezeMonth sale m s) = batches s"
  by (simp_all add: pinPlan_def freezeMonth_def)

lemma applyCommissionsInTx_history: "applyCommissionsInTx E sale s = Inr (r, s') \<Longrightarrow> history s s'"
proof (erule applyCommissionsInTx_cases)
  fix tenant plan rawChain lines month
  assume "distribute E sale tenant plan rawChain lines month (freezeMonth sale month (pinPlan sale plan s)) = Inr (r, s')"
  then have "history (freezeMonth sale month (pinPlan sale plan s)) s'" by (rule distribute_spec) (rule history_posted)
  then show ?thesis using history_trans history_frame [OF history_refl] pinFreeze_frames by metis
qed simp_all

lemma separationOfDuties_history: "separationOfDuties sale actor s = Inr s' \<Longrightarrow> ledger s' = ledger s \<and> batches s' = batches s"
  by (auto dest: separationOfDuties_Inr)

lemma approveSaleInTx_history:
  assumes "approveSaleInTx E saleId actor expected s = Inr (r, s')"
  shows "history s s'"
proof -
  obtain sale where lock: "lockSale saleId expected s = Inr sale" using assms by (auto simp: approveSaleInTx_def)
  show ?thesis
  proof (cases "sa_status sale = SaleDraft")
    case False
    then have "applyCommissionsInTx E sale s = Inr (r, s')"
      using assms lock by (auto simp: approveSaleInTx_def split: if_splits)
    then show ?thesis by (rule applyCommissionsInTx_history)
  next
    case True
    let ?t = "\<lambda>s1. audit (sa_tenantId sale) actor ''sale.approve'' saleId (JObj [(''status'', JStr ''draft'')])
       (JObj [(''status'', JStr ''approved'')]) (updateSale saleId
         (\<lambda>r. r\<lparr>sa_status := SaleApproved, sa_approvedAt := Some (env_now E), sa_approvedBy := actor\<rparr>) s1)"
    obtain s1 where s1: "separationOfDuties sale actor s = Inr s1"
      and ap: "applyCommissionsInTx E (sale\<lparr>sa_status := SaleApproved, sa_approvedAt := Some (env_now E)\<rparr>) (?t s1) = Inr (r, s')"
      using assms lock True by (auto simp: approveSaleInTx_def Let_def)
    have "history s (?t s1)" by (rule history_frame [OF history_refl]) (use separationOfDuties_history [OF s1] in simp_all)
    then show ?thesis by (rule history_trans) (rule applyCommissionsInTx_history [OF ap])
  qed
qed

lemma rowCore_status [simp]: "rowCore (e\<lparr>le_status := st\<rparr>) = rowCore e"
  by (simp add: rowCore_def)

lemma history_setStatus: "history s t \<Longrightarrow> history s (setLedgerStatus i st t)"
  by (erule history_rowUpdate [where f = "\<lambda>r. r\<lparr>le_status := st\<rparr>"]) (simp_all add: setLedgerStatus_def)

lemma reverseEntry_history: "reverseEntry E sale month e t = Inr t' \<Longrightarrow> history s t \<Longrightarrow> history s t'"
proof -
  assume r: "reverseEntry E sale month e t = Inr t'" and h: "history s t"
  then obtain i s1 where c: "createLedgerEntry E (reversalOf sale e) t = Inr (i, s1)"
    and t': "ledger t' = ledger (if le_status e \<noteq> LePaid then setLedgerStatus (le_id e) LeReversed s1 else s1)" "batches t' = batches s1"
    by (auto simp: reverseEntry_def Let_def)
  have "history s s1" using history_trans [OF h history_posted [OF createLedgerEntry_posted [OF c]]] .
  then have "history s (if le_status e \<noteq> LePaid then setLedgerStatus (le_id e) LeReversed s1 else s1)"
    by (simp add: history_setStatus)
  then show ?thesis by (rule history_frame) (use t' in simp_all)
qed

lemma voidSaleInTx_history:
  assumes "voidSaleInTx E saleId actor expected s = Inr (r, s')"
  shows "history s s'"
proof -
  obtain sale where lock: "lockSale saleId expected s = Inr sale" using assms by (auto simp: voidSaleInTx_def)
  let ?v = "audit (sa_tenantId sale) actor ''sale.void'' saleId (JObj [(''status'', JStr (statusText (sa_status sale)))])
                (JObj [(''status'', JStr ''void'')]) (updateSale saleId (\<lambda>r. r\<lparr>sa_status := SaleVoid\<rparr>) s)"
  have v: "history s ?v" by (rule history_frame [OF history_refl]) simp_all
  have "s' = s \<or> s' = ?v \<or> (\<exists>month. foldRes (reverseEntry E sale month) (voidableEntries s saleId) ?v = Inr s')"
    using assms lock by (auto simp: voidSaleInTx_def Let_def split: if_splits)
  moreover have "history s s'" if "foldRes (reverseEntry E sale month) (voidableEntries s saleId) ?v = Inr s'" for month
    by (rule foldRes_invariant [where P = "history s", OF that v]) (rule reverseEntry_history)
  ultimately show ?thesis using v history_refl by blast
qed

lemma markDelivered_history:
  assumes "markDelivered saleId at s = Inr (d, s')"
  shows "history s s'"
proof (cases "s' = s")
  case False
  then obtain tenant where "s' = (updateSale saleId (\<lambda>r. r\<lparr>sa_deliveredAt := Some at\<rparr>) s)\<lparr>ledger := updateWhere
      (\<lambda>e. le_saleId e = Some saleId \<and> le_type e = Commission \<and> le_status e = LePending \<and> le_maturesAt e = None)
      (\<lambda>e. e\<lparr>le_maturesAt := Some (deliveryMaturesAt tenant at)\<rparr>)
      (ledger (updateSale saleId (\<lambda>r. r\<lparr>sa_deliveredAt := Some at\<rparr>) s))\<rparr>"
    using assms by (auto simp: markDelivered_def Let_def split: if_splits)
  then show ?thesis
    by (intro history_rowUpdate [OF history_refl, where f = "\<lambda>e. e\<lparr>le_maturesAt := Some (deliveryMaturesAt tenant at)\<rparr>"])
      (auto simp: rowCore_def)
qed simp

lemma matureCommissions_history:
  assumes "matureCommissions E now limit skipped s = Inr (r, s')"
  shows "history s s'"
proof -
  have "history s (fold matureRow batch t)" if "history s t" for batch t
    using that
  proof (induction batch arbitrary: t)
    case (Cons em batch)
    obtain e m where em: "em = (e, m)" by (cases em)
    have "history s (matureRow (e, m) t)"
      unfolding matureRow_def prod.case by (rule history_frame [OF history_setStatus [OF Cons.prems]]) simp_all
    then show ?case using Cons.IH em by simp
  qed simp
  then show ?thesis using assms by (auto simp: matureCommissions_def Let_def split: if_splits)
qed

lemma awardBonusInTx_history: "awardBonusInTx E p s = Inr (i, s') \<Longrightarrow> history s s'"
  by (auto simp: awardBonusInTx_def Let_def dest!: createLedgerEntry_posted history_posted
      intro!: history_audit history_notification elim!: history_frame)

lemma writePayout_frames: "writePayout E p bid r s = Inr (pid, s') \<Longrightarrow> ledger s' = ledger s \<and> batches s' = batches s"
  by (auto simp: writePayout_def Let_def drawId_def split: option.splits)

lemma reserveOne_history:
  assumes "reserveOne E p bid r (t, ps) = Inr (t', ps')" "history s t"
  shows "history s t'"
proof -
  obtain pid s1 where w: "writePayout E p bid r t = Inr (pid, s1)" and t': "ledger t' = updateWhere (claimable (rv_rows r))
       (\<lambda>e. e\<lparr>le_status := LeProcessing, le_payoutId := Some pid, le_payoutBatchId := Some bid\<rparr>) (ledger s1)"
    "batches t' = batches s1"
    using assms(1) by (auto simp: reserveOne_def claimRows_def createItems_def)
  have "history s s1" using history_frame [OF assms(2)] writePayout_frames [OF w] by simp
  then show ?thesis by (rule history_rowUpdate [OF _ _ t']) (simp add: rowCore_def)
qed

lemma reservePayoutBatchTx_history:
  assumes "reservePayoutBatchTx E p s = Inr (out, s')"
  shows "history s s'"
proof -
  have "s' = s \<or> (\<exists>rs bid ps. commitReservations E p rs s = Inr (bid, ps, s'))"
    using assms by (auto simp: reservePayoutBatchTx_def Let_def split: if_splits)
  moreover have "history s s'" if c: "commitReservations E p rs s = Inr (bid, ps, s')" for rs bid ps
  proof -
    obtain s1 s2 where s1: "createBatch E p s = (bid, s1)" and fold: "foldRes (reserveOne E p bid) rs (s1, []) = Inr (s2, ps)"
      and s': "ledger s' = ledger s2" "batches s' = batches s2"
      using c by (cases "createBatch E p s") (auto simp: commitReservations_def)
    have h1: "history s s1"
      using s1 by (auto simp: history_def createBatch_def drawId_def ledgerExtends_def intro: batchesProgress_more)
    have "history s (fst (s2, ps))"
      by (rule foldRes_invariant [where P = "\<lambda>x. history s (fst x)", OF fold]) (use h1 reserveOne_history in \<open>auto\<close>)
    then show ?thesis using history_frame s' by simp
  qed
  ultimately show ?thesis by auto
qed

text \<open>A write of one batch by its id, when the id is unique.\<close>

lemma batchesProgress_one:
  assumes "distinct (map ba_id (batches s))" "b \<in> set (batches s)" "batches s' = updateWhere (\<lambda>x. ba_id x = ba_id b) h (batches s)"
    "\<And>x. ba_id (h x) = ba_id x" "batchReach (ba_status b) (ba_status (h b))"
  shows "batchesProgress s s'"
proof (rule batchesProgress_update [OF _ assms(3)])
  fix x assume "x \<in> set (batches s)" "ba_id x = ba_id b"
  then have "x = b" using assms(1,2) inj_onD [of ba_id "set (batches s)" x b] by (simp add: distinct_map)
  then show "ba_id (h x) = ba_id x \<and> batchReach (ba_status x) (ba_status (h x))" using assms(4,5) by simp
qed

lemma closes_history:
  assumes "closes s b st f g h pays s'" "books s" "b \<in> set (batches s)" "batchReach (ba_status b) st" "\<And>e. rowCore (f e) = rowCore e"
  shows "history s s'"
proof -
  have "distinct (map ba_id (batches s))" using assms(2) by (simp add: books_def settlementOk_def settlementLinks_def settlementIds_def)
  then have "batchesProgress s s'"
    by (rule batchesProgress_one [OF _ assms(3), where h = h]) (use assms(1,4) in \<open>auto simp: closes_def\<close>)
  moreover have "ledgerExtends s s'"
    by (rule ledgerExtends_same) (use assms(1) in \<open>simp add: closes_def map_rowCore_updateWhere assms(5)\<close>)
  ultimately show ?thesis by (simp add: history_def)
qed

lemma dispatchPayoutBatchTx_history:
  assumes "books s" "dispatchPayoutBatchTx E p r ev s = Inr (out, s')"
  shows "history s s'"
proof -
  obtain b where b: "tenantBatch s (dp_tenantId p) (dp_batchId p) = Some b"
    using assms(2) by (auto simp: dispatchPayoutBatchTx_def)
  show ?thesis
  proof (cases "ba_status b = BaDispatched \<or> ba_status b = BaSettled \<and> ba_dispatchedAt b \<noteq> None")
    case True
    then show ?thesis using assms b by (simp add: dispatchPayoutBatchTx_def)
  next
    case False
    let ?P = "\<lambda>x. ba_id x = ba_id b \<and> ba_status x = BaProcessing"
    have "batchesProgress s (s\<lparr>batches := updateWhere ?P h (batches s)\<rparr>)"
      if "\<And>x. ba_id (h x) = ba_id x" for h
      by (rule batchesProgress_update [where P = ?P and h = h]) (auto simp: that)
    then have h: "history s (s\<lparr>batches := updateWhere ?P h (batches s)\<rparr>)" if "\<And>x. ba_id (h x) = ba_id x" for h
      using that by (simp add: history_def ledgerExtends_same)
    show ?thesis
      using assms(2) unfolding dispatchPayoutBatchTx_def Let_def b from_option_simps andThen.simps if_not_P [OF False] andThen_Inr_iff ex_unit
      by (elim exE conjE) (auto intro!: history_audit history_fold h)
  qed
qed

lemma settlePayoutBatchTx_history:
  assumes "books s" "settlePayoutBatchTx E p r ev s = Inr (out, s')"
  shows "history s s'"
proof -
  obtain b where b: "tenantBatch s (tp_tenantId p) (tp_batchId p) = Some b"
    using assms(2) by (auto simp: settlePayoutBatchTx_def)
  show ?thesis
  proof (cases "ba_status b = BaSettled")
    case True
    then show ?thesis using assms b by (simp add: settlePayoutBatchTx_def)
  next
    case False
    then have st: "ba_status b = BaDispatched" using assms(2) b by (simp add: settlePayoutBatchTx_def Let_def)
    note h = closes_history [OF settle_closes assms(1) tenantBatchD(1) [OF b], of E p r ev]
    show ?thesis
      using assms(2) b st h unfolding settlePayoutBatchTx_def Let_def
      by (auto intro!: history_audit history_fold history_payoutSent history_buckets)
  qed
qed

lemma failPayoutBatchTx_history:
  assumes "books s" "failPayoutBatchTx E p r s = Inr (out, s')"
  shows "history s s'"
proof -
  obtain b where b: "tenantBatch s (fp_tenantId p) (fp_batchId p) = Some b"
    using assms(2) by (auto simp: failPayoutBatchTx_def)
  show ?thesis
  proof (cases "ba_status b = BaFailed")
    case True
    then show ?thesis using assms b by (simp add: failPayoutBatchTx_def)
  next
    case False
    then have st: "ba_status b = BaProcessing" using assms(2) b by (simp add: failPayoutBatchTx_def Let_def)
    have "rowCore (e\<lparr>le_status := LePayable, le_payoutId := None, le_payoutBatchId := None\<rparr>) = rowCore e" for e
      by (simp add: rowCore_def)
    note h = closes_history [OF fail_closes assms(1) tenantBatchD(1) [OF b] _ this, of E p r]
    show ?thesis
      using assms(2) b st h unfolding failPayoutBatchTx_def Let_def
      by (auto intro!: history_audit history_fold history_buckets)
  qed
qed

lemma rejectPayoutRequestTx_history: "rejectPayoutRequestTx E p r s = Inr (i, s') \<Longrightarrow> history s s'"
  by (auto simp: rejectPayoutRequestTx_def intro!: history_audit history_frame [OF history_refl])

lemma history_beside: "besideLedger s s' \<Longrightarrow> history s s'"
  by (rule history_frame [OF history_refl]) (simp_all add: besideLedger_def)

lemma bulkStep_history: "bulkStep (saleCapability E t) a action i s = Inr s' \<Longrightarrow> history s s'"
  by (auto simp: bulkStep_def saleCapability_def split: bulk_action.splits dest: approveSaleInTx_history voidSaleInTx_history)

lemma bulkTx_history:
  assumes "bulkTx openToken E a p scope k h tok (saleCapability E t) s = Inr (out, s')"
  shows "history s s'"
  using assms
proof (cases rule: bulkTx_cases)
  case (replay i r)
  then show ?thesis by (intro history_beside beginBulkExecution_beside)
next
  case (run i s1 s2 review)
  have "history s s1" by (intro history_beside beginBulkExecution_beside [OF run(1)])
  then have "history s s2"
    by (rule foldRes_invariant [where P = "history s", OF run(5)]) (rule history_trans, assumption, erule bulkStep_history)
  then show ?thesis using completeBulkExecution_beside [OF run(6)] history_beside history_trans by blast
qed simp

lemma awardPrize_history: "awardPrize E t c month actor x s = Inr s' \<Longrightarrow> history s s'"
  by (auto simp: awardPrize_def split: if_splits dest: awardBonusInTx_history)

lemma doFinalize_history: "doFinalize E g t c actor s = Inr (r, s') \<Longrightarrow> history s s'"
proof (erule doFinalize_cases)
  fix month x s1 s2 s3
  assume cl: "claimCampaign E t c s = Inr s1" and f: "foldRes (awardPrize E t c month actor) (standings g t c s1) s1 = Inr s2"
    and st: "storeResults (cp_id c) (standings g t c s1) s2 = Inr (x, s3)" and s': "\<exists>au. s' = s3\<lparr>audits := au\<rparr>"
  have "history s s1" by (rule history_beside [OF claimCampaign_beside [OF cl]])
  then have "history s s2"
    by (rule foldRes_invariant [where P = "history s", OF f]) (rule history_trans, assumption, erule awardPrize_history)
  then have "history s s3" by (rule history_trans) (rule history_beside [OF storeResults_beside [OF st]])
  then show "history s s'" by (rule history_frame) (use s' in auto)
qed

lemma engineStep_history:
  assumes "engineStep s s'" "books s"
  shows "history s s'"
  using assms(1)
proof cases
  case (apply_step E saleId r)
  then show ?thesis by (auto simp: applyCommissions_def intro: applyCommissionsInTx_history)
next
  case approve_step
  then show ?thesis by (rule approveSaleInTx_history)
next
  case void_step
  then show ?thesis by (rule voidSaleInTx_history)
next
  case deliver_step
  then show ?thesis by (rule markDelivered_history)
next
  case mature_step
  then show ?thesis by (rule matureCommissions_history)
next
  case bonus_step
  then show ?thesis by (rule awardBonusInTx_history)
next
  case reserve_step
  then show ?thesis by (rule reservePayoutBatchTx_history)
next
  case dispatch_step
  then show ?thesis by (rule dispatchPayoutBatchTx_history [OF assms(2)])
next
  case settle_step
  then show ?thesis by (rule settlePayoutBatchTx_history [OF assms(2)])
next
  case fail_step
  then show ?thesis by (rule failPayoutBatchTx_history [OF assms(2)])
next
  case reject_step
  then show ?thesis by (rule rejectPayoutRequestTx_history)
next
  case lock_step
  then show ?thesis by (rule history_sameMoney [OF lockPeriod_sameMoney])
next
  case unlock_step
  then show ?thesis by (rule history_sameMoney [OF unlockPeriod_sameMoney])
next
  case control_step
  then show ?thesis by (rule history_sameMoney [OF decideControl_sameMoney])
next
  case destination_step
  then show ?thesis by (rule history_sameMoney [OF replaceDestination_sameMoney])
next
  case bulk_step
  then show ?thesis by (rule bulkTx_history)
next
  case finalize_step
  then show ?thesis by (rule doFinalize_history)
qed (auto dest: services_beside intro: history_beside)

interpretation hist: recorded engineStep books history
  by unfold_locales (auto intro: history_trans engineStep_history)

end
