(* ===== verification/Engine_Theorems.thy ===== *)
theory Engine_Theorems
  imports Engine_Lifecycle Samples
begin

text \<open>
  What the engine promises over any run of its transactions: balanced books, a ledger that is only
  ever extended, final settlement outcomes, no row paid twice, and payouts that are the sum of
  their members' rows.
\<close>

section \<open>A batch on its way to the bank\<close>

text \<open>Member 10 is owed 50.00 for October, reserved in the dispatched batch 400 as payout 300.\<close>

definition demo_row :: ledger_entry where
  "demo_row = \<lparr>le_id = 200, le_tenantId = 1, le_saleId = None, le_beneficiary = 10, le_level = 0, le_rateBpsUsed = 0,
     le_amountCents = 5000, le_type = Adjustment, le_status = LeProcessing, le_summaryMonth = Some ''2023-10'',
     le_maturesAt = None, le_payoutId = Some 300, le_payoutBatchId = Some 400, le_createdAt = 0\<rparr>"

definition demo_payout :: payout where
  "demo_payout = (newPayout 300 1 10 ''2023-11'' 0)\<lparr>po_batchId := Some 400, po_totalCents := 5000, po_status := PoProcessing\<rparr>"

definition demo_batch :: settlement_batch where
  "demo_batch = \<lparr>ba_id = 400, ba_tenantId = 1, ba_period = ''2023-11'', ba_method = MethodManual, ba_status = BaDispatched,
     ba_processingStartedAt = 0, ba_processingByUserId = None, ba_dispatchedAt = Some 0, ba_dispatchedByUserId = None,
     ba_dispatchReference = Some ''wire'', ba_dispatchEvidence = Some ''slip'', ba_settledAt = None, ba_settledByUserId = None,
     ba_settlementReference = None, ba_settlementEvidence = None, ba_failedAt = None, ba_failedByUserId = None,
     ba_failureReason = None, ba_csvChecksum = None\<rparr>"

definition demo_item :: batch_item where
  "demo_item = \<lparr>bi_batchId = 400, bi_payoutId = 300, bi_ledgerEntryId = 200, bi_membershipId = 10, bi_month = ''2023-10'',
     bi_level = 0, bi_amountCents = 5000, bi_recipient = \<lparr>rc_referralCode = ''REF'', rc_fullName = ''Member'', rc_email = ''m@x''\<rparr>,
     bi_recipientSnapshotAt = 0\<rparr>"

definition demo_sent :: db where
  "demo_sent = demo_db\<lparr>ledger := [demo_row], payouts := [demo_payout], batches := [demo_batch], batchItems := [demo_item],
     summaries := [\<lparr>ms_key = (1, 10, ''2023-10'', 0), ms_cents = noDelta\<lparr>d_processing := 5000\<rparr>\<rparr>]\<rparr>"

lemmas demo_sent_defs = demo_sent_def demo_row_def demo_payout_def demo_batch_def demo_item_def demo_db_def newPayout_def

lemma demo_sent_key: "ledgerKey demo_sent demo_row = Some (1, 10, ''2023-10'', 0)"
  by (simp add: ledgerKey_def bucketMonth_def demo_row_def)

text \<open>The books of that company at the stages its batch goes through.\<close>

lemma demo_stage_books:
  assumes l: "ledger s = [demo_row\<lparr>le_status := st\<rparr>]" and b: "batches s = [demo_batch\<lparr>ba_status := bst\<rparr>]"
    and p: "payouts s = [p]" "po_id p = 300" "po_batchId p = Some 400" "po_membershipId p = 10" "po_tenantId p = 1"
      "po_totalCents p = 5000" "po_status p = batchPayoutStatus bst"
    and i: "batchItems s = [demo_item]" and m: "summaries s = [\<lparr>ms_key = (1, 10, ''2023-10'', 0), ms_cents = d\<rparr>]"
    and d: "\<And>x. x \<noteq> LeReversed \<Longrightarrow> statusPart x d = (if x = st then 5000 else 0)"
    and u: "uuidGen s = uuidGen demo_db" "uuidNext s = 0" "sales s = sales demo_db" and st: "batchEntryStatus bst = Some st"
  shows "books s"
proof -
  have key: "ledgerKey s demo_row = Some (1, 10, ''2023-10'', 0)"
    by (simp add: ledgerKey_def bucketMonth_def demo_row_def)
  have "reconciled s"
  proof (rule reconciledI)
    fix x k assume x: "x \<noteq> LeReversed"
    have "ledgerSum x s k = (if x = st \<and> k = (1, 10, ''2023-10'', 0) then 5000 else 0)"
      unfolding ledgerSum_def l by (auto simp: key) (auto simp: demo_row_def)
    moreover have "colSum x s k = (if x = st \<and> k = (1, 10, ''2023-10'', 0) then 5000 else 0)"
      using d [OF x] by (auto simp: colSum_def summaryRow_def m)
    ultimately show "colSum x s k = ledgerSum x s k" by simp
  qed
  moreover have "linked s" by (simp add: linked_def l) (simp add: rowLinked_def demo_row_def)
  moreover have "idsFresh s" by (auto simp: idsFresh_def inj_def u l demo_row_def demo_db_def demo_sale_def)
  moreover have "settlementOk s"
  proof -
    have "itemOf s (demo_batch\<lparr>ba_status := bst\<rparr>) demo_item (demo_row\<lparr>le_status := st\<rparr>)"
      by (simp add: itemOf_def key ownedBy_def st) (simp add: demo_row_def demo_batch_def demo_item_def)
    then have "itemOk s demo_item" by (auto simp: itemOk_def l b p demo_item_def demo_batch_def)
    moreover have "payoutOk (batches s) [demo_item] p"
      by (simp add: payoutOk_def b p) (simp add: demo_batch_def demo_item_def)
    moreover have "settlementIds s" by (auto simp: settlementIds_def u b p i demo_batch_def demo_item_def demo_db_def)
    ultimately show ?thesis by (simp add: settlementOk_def settlementLinks_def b i p) (simp add: demo_batch_def)
  qed
  ultimately show ?thesis by (rule booksI)
qed

lemma demo_processing: "x \<noteq> LeReversed \<Longrightarrow> statusPart x (noDelta\<lparr>d_processing := 5000\<rparr>) = (if x = LeProcessing then 5000 else 0)"
  by (cases x) (simp_all add: noDelta_def)

lemma demo_sent_books: "books demo_sent"
  by (rule demo_stage_books [where st = LeProcessing and bst = BaDispatched and p = demo_payout and d = "noDelta\<lparr>d_processing := 5000\<rparr>"])
    (use demo_processing in \<open>simp_all add: demo_sent_defs noDelta_def\<close>)

lemma demo_locked: "\<exists>s'. engineStep demo_sent s' \<and> isLocked s' 1 ''2023-09''"
proof -
  let ?a = "\<lparr>ac_userId = 2, ac_tenantId = 1\<rparr>"
  have v: "validPeriod ''2023-09''" by code_simp
  obtain w s' where l: "lockPeriod demo_env ?a ''2023-09'' None demo_sent = Inr (w, s')"
    using v by (auto simp: lockPeriod_def assertPeriodFormat_def Let_def)
  have "isLocked s' 1 ''2023-09''" using lockPeriod_Inr [OF l] by (auto simp: isLocked_def lockOf_upsertLock)
  then show ?thesis using lock_step [OF l] by blast
qed

section \<open>Settling succeeds\<close>

lemma rows_in_flight:
  assumes "books s" "b \<in> set (batches s)" "batchEntryStatus (ba_status b) = Some LeProcessing"
  shows "countWhere (inFlightRow (ba_id b) (lockPayoutBatchItems s (ba_id b))) (ledger s) = length (lockPayoutBatchItems s (ba_id b))"
    and "list_all (rowInFlight (ba_id b)) (lockPayoutBatchItems s (ba_id b))"
proof -
  let ?locked = "lockPayoutBatchItems s (ba_id b)"
  let ?items = "findManyBy bi_ledgerEntryId (\<lambda>i. bi_batchId i = ba_id b) (batchItems s)"
  have sl: "settlementLinks s" "distinct (map le_id (ledger s))" "distinct (map ba_id (batches s))"
    using assms(1) by (auto simp: books_def settlementOk_def settlementLinks_def settlementIds_def idsFresh_def)
  have mem: "?items = map fst ?locked" using lockItems_fst [OF sl(1,2)] by simp
  have iff: "inFlightRow (ba_id b) ?locked e \<longleftrightarrow> le_id e \<in> bi_ledgerEntryId ` set ?items" if "e \<in> set (ledger s)" for e
    using inFlight_open [OF sl(1,2) assms(2,3) that] by (auto simp: image_iff)
  have "int (countWhere (inFlightRow (ba_id b) ?locked) (ledger s)) =
     sum_list (map (\<lambda>_. 1) (filter (\<lambda>e. le_id e \<in> bi_ledgerEntryId ` set ?items) (ledger s)))"
    using iff by (simp add: countWhere_def sum_list_triv cong: filter_cong)
  also have "\<dots> = sum_list (map (\<lambda>_. 1) ?items)"
  proof (rule sum_list_join [OF _ sl(2)])
    have "distinct (map (\<lambda>i. (bi_batchId i, bi_ledgerEntryId i)) (batchItems s))"
      using sl(1) by (simp add: settlementLinks_def settlementIds_def)
    then have "distinct (map bi_ledgerEntryId (filter (\<lambda>i. bi_batchId i = ba_id b) (batchItems s)))"
      by (auto simp: distinct_map inj_on_def dest: distinct_filter)
    then show "distinct (map bi_ledgerEntryId ?items)" by (simp add: findManyBy_def distinct_map_sort_key)
    fix i assume "i \<in> set ?items"
    then obtain e where "e \<in> set (ledger s)" "itemOf s b i e" using item_row [OF sl(1,3) assms(2)] by auto
    then show "\<exists>e \<in> set (ledger s). le_id e = bi_ledgerEntryId i \<and> (1::int) = 1" by (auto simp: itemOf_def)
  qed
  also have "\<dots> = int (length ?locked)" using arg_cong [OF mem, of length] by (simp add: sum_list_triv)
  finally show "countWhere (inFlightRow (ba_id b) ?locked) (ledger s) = length ?locked" by simp
  have "rowInFlight (ba_id b) (i, e)" if ie: "(i, e) \<in> set ?locked" for i e
  proof -
    have x: "i \<in> set (batchItems s)" "bi_batchId i = ba_id b" "e \<in> set (ledger s)" "le_id e = bi_ledgerEntryId i"
      using ie by (auto simp: lockItems_set)
    then have "inFlightRow (ba_id b) ?locked e" using inFlight_open [OF sl(1,2) assms(2,3) x(3)] by auto
    then show ?thesis by (simp add: inFlightRow_def rowInFlight_def)
  qed
  then show "list_all (rowInFlight (ba_id b)) ?locked" by (auto simp: list_all_iff)
qed

text \<open>The payouts of a batch in flight: some, all processing, each with a locked item.\<close>

lemma payouts_in_flight:
  assumes "books s" "b \<in> set (batches s)" "batchEntryStatus (ba_status b) = Some LeProcessing"
  shows "batchPayouts s (ba_id b) \<noteq> []"
    and "countWhere (inFlightPayout (ba_id b) (batchPayouts s (ba_id b))) (payouts s) = length (batchPayouts s (ba_id b))"
    and "p \<in> set (batchPayouts s (ba_id b)) \<Longrightarrow>
      po_status p = PoProcessing \<and> po_tenantId p = ba_tenantId b \<and> (\<exists>(i, e) \<in> set (lockPayoutBatchItems s (ba_id b)). bi_payoutId i = po_id p)"
proof -
  have sl: "settlementLinks s" "distinct (map le_id (ledger s))" "distinct (map ba_id (batches s))" "settlementOk s"
    using assms(1) by (auto simp: books_def settlementOk_def settlementLinks_def settlementIds_def idsFresh_def)
  have same: "x = b" if "x \<in> set (batches s)" "ba_id x = ba_id b" for x
    using inj_onD [of ba_id "set (batches s)" x b] that assms(2) sl(3) by (simp add: distinct_map)
  have st: "po_status p = PoProcessing \<and> po_tenantId p = ba_tenantId b" if q: "p \<in> set (payouts s)" "po_batchId p = Some (ba_id b)" for p
  proof -
    obtain x where "x \<in> set (batches s)" "ba_id x = ba_id b" "po_status p = batchPayoutStatus (ba_status x)" "po_tenantId p = ba_tenantId x"
      using sl(1) q by (fastforce simp: settlementLinks_def payoutOk_def)
    moreover from this have "x = b" using same by blast
    ultimately show ?thesis using assms(3) by (cases "ba_status b") auto
  qed
  have "\<exists>p. p \<in> set (batchPayouts s (ba_id b))" using sl(4) assms(2) by (auto simp: settlementOk_def batchPayouts_def)
  then show "batchPayouts s (ba_id b) \<noteq> []" by auto
  have iff: "inFlightPayout (ba_id b) (batchPayouts s (ba_id b)) p \<longleftrightarrow> po_batchId p = Some (ba_id b)" if "p \<in> set (payouts s)" for p
    using st [OF that] that by (auto simp: inFlightPayout_def batchPayouts_def)
  then show "countWhere (inFlightPayout (ba_id b) (batchPayouts s (ba_id b))) (payouts s) = length (batchPayouts s (ba_id b))"
    by (simp add: countWhere_def batchPayouts_def findManyBy_def cong: filter_cong)
  assume "p \<in> set (batchPayouts s (ba_id b))"
  then have p: "p \<in> set (payouts s)" "po_batchId p = Some (ba_id b)" by (simp_all add: batchPayouts_def)
  have "\<exists>i \<in> set (batchItems s). bi_batchId i = ba_id b \<and> bi_payoutId i = po_id p"
  proof (rule ccontr)
    assume "\<not> ?thesis"
    then have "sumWhere (\<lambda>i. bi_batchId i = ba_id b \<and> bi_payoutId i = po_id p) bi_amountCents (batchItems s) = 0"
      by (intro sumWhere_zero) blast
    moreover have "payoutOk (batches s) (batchItems s) p" using sl(1) p(1) by (simp add: settlementLinks_def)
    ultimately show False using p(2) by (auto simp: payoutOk_def)
  qed
  then obtain i where i: "i \<in> set (batchItems s)" "bi_batchId i = ba_id b" "bi_payoutId i = po_id p" by blast
  obtain e where "e \<in> set (ledger s)" "itemOf s b i e" using item_row [OF sl(1,3) assms(2) i(1,2)] by blast
  then have "(i, e) \<in> set (lockPayoutBatchItems s (ba_id b))" using i by (simp add: lockItems_set itemOf_def)
  then show "po_status p = PoProcessing \<and> po_tenantId p = ba_tenantId b \<and>
      (\<exists>(i, e) \<in> set (lockPayoutBatchItems s (ba_id b)). bi_payoutId i = po_id p)"
    using st [OF p] i(3) by blast
qed

lemma intact_in_flight:
  assumes "books s" "b \<in> set (batches s)" "batchEntryStatus (ba_status b) = Some LeProcessing"
  shows "assertIntactPayoutBatchItems (ba_id b) (batchPayouts s (ba_id b)) (lockPayoutBatchItems s (ba_id b)) = Inr ()"
    and "lockPayoutBatchItems s (ba_id b) \<noteq> []"
proof -
  note p = payouts_in_flight [OF assms]
  obtain x where "x \<in> set (batchPayouts s (ba_id b))" using p(1) by (cases "batchPayouts s (ba_id b)") auto
  then show ne: "lockPayoutBatchItems s (ba_id b) \<noteq> []" using p(3) by fastforce
  have "list_ex (\<lambda>(i, e). bi_payoutId i = po_id x) (lockPayoutBatchItems s (ba_id b))" if "x \<in> set (batchPayouts s (ba_id b))" for x
    using p(3) [OF that] by (auto simp: list_ex_iff)
  then show "assertIntactPayoutBatchItems (ba_id b) (batchPayouts s (ba_id b)) (lockPayoutBatchItems s (ba_id b)) = Inr ()"
    using ne rows_in_flight(2) [OF assms] by (simp add: assertIntactPayoutBatchItems_def list_all_iff)
qed

text \<open>What a settlement leaves: the rows and payouts of the batch are paid.\<close>

lemma settle_total:
  assumes "books s" "tenantBatch s (tp_tenantId p) (tp_batchId p) = Some b" "ba_status b = BaDispatched"
    "findTenant s (tp_tenantId p) \<noteq> None"
  shows "\<exists>out s'. settlePayoutBatchTx E p ref ev s = Inr (out, s') \<and> bo_done out \<and>
    ledger s' = updateWhere (inFlightRow (ba_id b) (lockPayoutBatchItems s (ba_id b))) (\<lambda>e. e\<lparr>le_status := LePaid\<rparr>) (ledger s) \<and>
    payouts s' = updateWhere (\<lambda>x. po_batchId x = Some (ba_id b)) (settlePayout E p ref ev) (payouts s) \<and>
    batches s' = updateWhere (\<lambda>x. ba_id x = ba_id b) (settleBatch E p ref ev) (batches s)"
proof -
  note b = tenantBatchD [OF assms(2)]
  have fl: "batchEntryStatus (ba_status b) = Some LeProcessing" using assms(3) by simp
  note rows = rows_in_flight [OF assms(1) b(1) fl] and pays = payouts_in_flight [OF assms(1) b(1) fl]
    and ok = intact_in_flight [OF assms(1) b(1) fl]
  have frames: "ledger (fold (payoutSent p b tn j) xs t) = ledger t \<and> payouts (fold (payoutSent p b tn j) xs t) = payouts t \<and>
      batches (fold (payoutSent p b tn j) xs t) = batches t" for tn j xs t
    by (induction xs arbitrary: t) (simp_all add: payoutSent_def)
  have up: "updateWhere (inFlightPayout (ba_id b) (batchPayouts s (ba_id b))) g (payouts s) =
     updateWhere (\<lambda>x. po_batchId x = Some (ba_id b)) g (payouts s)" for g
    unfolding updateWhere_def using pays(3) by (intro map_cong) (auto simp: inFlightPayout_def batchPayouts_def)
  obtain tn where tn: "findTenant s (tp_tenantId p) = Some tn" using assms(4) by blast
  have t2: "tenants (moveBatchSummary a d is u) = tenants u" for a d "is" u
  proof -
    have "tenants (fold (\<lambda>((m, month, level), amount). bumpSummary (a, m, month, level) (d amount)) bs u) = tenants u" for bs
      by (induction bs arbitrary: u) (auto simp: bumpSummary_def)
    then show ?thesis by (simp add: moveBatchSummary_def applyBuckets_def)
  qed
  show ?thesis
    using assms(2,3) rows pays(1,2) ok tn
    by (simp add: settlePayoutBatchTx_def Let_def tenantOrThrow_def findTenant_def t2 frames up) (simp add: moveBatchSummary_def)
qed

lemma demo_settles: "\<exists>s'. engineStep demo_sent s' \<and> (\<exists>e \<in> set (ledger s'). le_status e = LePaid)"
proof -
  let ?p = "\<lparr>tp_tenantId = 1, tp_batchId = 400, tp_settlementReference = ''r'', tp_settlementEvidence = ''e'', tp_actorUserId = None\<rparr>"
  have b: "tenantBatch demo_sent (tp_tenantId ?p) (tp_batchId ?p) = Some demo_batch" "ba_status demo_batch = BaDispatched"
    by (simp_all add: tenantBatch_def demo_sent_def demo_batch_def)
  have t: "findTenant demo_sent (tp_tenantId ?p) \<noteq> None" by (simp add: findTenant_def demo_sent_def demo_db_def demo_tenant_def)
  obtain out s' where s': "settlePayoutBatchTx demo_env ?p ''r'' ''e'' demo_sent = Inr (out, s')"
    "ledger s' = updateWhere (inFlightRow (ba_id demo_batch) (lockPayoutBatchItems demo_sent (ba_id demo_batch)))
       (\<lambda>e. e\<lparr>le_status := LePaid\<rparr>) (ledger demo_sent)"
    using settle_total [OF demo_sent_books b t, of demo_env "''r''" "''e''"] by blast
  have "inFlightRow (ba_id demo_batch) (lockPayoutBatchItems demo_sent (ba_id demo_batch)) demo_row"
    by (simp add: inFlightRow_iff) (simp add: demo_sent_defs)
  then have "\<exists>e \<in> set (ledger s'). le_status e = LePaid" unfolding s'(2) by (simp add: demo_sent_def)
  then show ?thesis using settle_step [OF s'(1)] by blast
qed

section \<open>Runs of the engine\<close>

text \<open>C1: Over any run of engine transactions, sales and payout service calls and policy writes from balanced books, every pending, payable,
  processing and paid column of the monthly summaries equals the sum of the ledger rows of that status.\<close>

theorem engine_keeps_books:
  assumes "engineStep\<^sup>*\<^sup>* s s'" "books s" "st \<noteq> LeReversed"
  shows "colSum st s' k = ledgerSum st s' k \<and> books s'"
  using bk.always [OF assms(1,2)] assms(3) reconciledD unfolding books_def by blast

theorem engine_keeps_books_witness:
  "\<exists>s'. engineStep\<^sup>*\<^sup>* demo_sent s' \<and> (\<exists>e \<in> set (ledger s'). le_status e = LePaid) \<and> colSum LePaid s' (1, 10, ''2023-10'', 0) = ledgerSum LePaid s' (1, 10, ''2023-10'', 0)"
proof -
  obtain s' where s': "engineStep demo_sent s'" "\<exists>e \<in> set (ledger s'). le_status e = LePaid" using demo_settles by blast
  have "engineStep\<^sup>*\<^sup>* demo_sent s'" using s'(1) by blast
  with engine_keeps_books [OF this demo_sent_books, of LePaid "(1, 10, ''2023-10'', 0)"] s'(2) show ?thesis by auto
qed

text \<open>C12: The ledger is append-only over any run: no row is deleted or reordered, and no row ever changes its tenant,
  sale, beneficiary, level, rate, amount, type, month or creation instant; only its status, maturity and payout
  pointers move.\<close>

theorem ledger_append_only:
  assumes "engineStep\<^sup>*\<^sup>* s s'" "books s"
  shows "\<exists>new. map rowCore (ledger s') = map rowCore (ledger s) @ new"
  using hist.over_run [OF assms] by (simp add: history_def ledgerExtends_def)

theorem ledger_append_only_witness:
  "\<exists>s' new. engineStep\<^sup>*\<^sup>* demo_sent s' \<and> map rowCore (ledger s') = rowCore demo_row # new"
proof -
  obtain s' where s': "engineStep demo_sent s'" using demo_settles by blast
  then have "engineStep\<^sup>*\<^sup>* demo_sent s'" by blast
  with ledger_append_only [OF this demo_sent_books] show ?thesis by (auto simp: demo_sent_def)
qed

text \<open>C17: Settlement outcomes are final over any run: a settled batch stays settled, a failed one failed, and a batch
  sent to the bank is never released again; it can only settle.\<close>

theorem batch_outcomes_final:
  assumes "engineStep\<^sup>*\<^sup>* s s'" "books s" "b \<in> set (batches s)" "b' \<in> set (batches s')" "ba_id b' = ba_id b"
  shows "batchReach (ba_status b) (ba_status b')"
proof -
  obtain x where x: "x \<in> set (batches s')" "ba_id x = ba_id b" "batchReach (ba_status b) (ba_status x)"
    using hist.over_run [OF assms(1,2)] assms(3) by (auto simp: history_def batchesProgress_def)
  have "books s'" by (rule bk.always [OF assms(1,2)])
  then have "distinct (map ba_id (batches s'))" by (simp add: books_def settlementOk_def settlementLinks_def settlementIds_def)
  then have "x = b'" using x(1,2) assms(4,5) inj_onD [of ba_id "set (batches s')" x b'] by (simp add: distinct_map)
  then show ?thesis using x(3) by simp
qed

theorem batch_outcomes_final_witness:
  "\<exists>s'. engineStep\<^sup>*\<^sup>* demo_sent s' \<and> (\<forall>b' \<in> set (batches s'). ba_id b' = 400 \<longrightarrow> ba_status b' = BaDispatched \<or> ba_status b' = BaSettled)"
proof -
  obtain s' where "engineStep demo_sent s'" using demo_settles by blast
  then have r: "engineStep\<^sup>*\<^sup>* demo_sent s'" by blast
  have "demo_batch \<in> set (batches demo_sent)" by (simp add: demo_sent_def)
  from batch_outcomes_final [OF r demo_sent_books this] r show ?thesis by (auto simp: demo_batch_def)
qed

text \<open>C2: No commission is paid twice: two items of batches that have not failed never name the same ledger row.\<close>

theorem row_paid_once:
  assumes "engineStep\<^sup>*\<^sup>* s0 s" "books s0"
    and "i \<in> set (batchItems s)" "j \<in> set (batchItems s)" "bi_ledgerEntryId i = bi_ledgerEntryId j"
    and "\<And>b. b \<in> set (batches s) \<Longrightarrow> ba_id b = bi_batchId i \<or> ba_id b = bi_batchId j \<Longrightarrow> ba_status b \<noteq> BaFailed"
  shows "i = j"
proof -
  have bk: "books s" by (rule bk.always [OF assms(1,2)])
  have item: "\<exists>e \<in> set (ledger s). le_id e = bi_ledgerEntryId x \<and> le_payoutBatchId e = Some (bi_batchId x)"
    if x: "x \<in> set (batchItems s)" "x = i \<or> x = j" for x
  proof -
    have "itemOk s x" using bk x(1) by (simp add: books_def settlementOk_def settlementLinks_def)
    then obtain b e where b: "b \<in> set (batches s)" "e \<in> set (ledger s)" "itemOf s b x e" by (auto simp: itemOk_def)
    then have "ba_status b \<noteq> BaFailed" using assms(6) x(2) by (auto simp: itemOf_def)
    then show ?thesis using b by (cases "ba_status b") (auto simp: itemOf_def ownedBy_def)
  qed
  obtain e f where e: "e \<in> set (ledger s)" "le_id e = bi_ledgerEntryId i" "le_payoutBatchId e = Some (bi_batchId i)"
    and f: "f \<in> set (ledger s)" "le_id f = bi_ledgerEntryId j" "le_payoutBatchId f = Some (bi_batchId j)"
    using item assms(3,4) by metis
  have "distinct (map le_id (ledger s))" using bk by (simp add: books_def idsFresh_def)
  then have "e = f" using e f assms(5) inj_onD [of le_id "set (ledger s)" e f] by (simp add: distinct_map)
  then have "bi_batchId i = bi_batchId j" using e(3) f(3) by simp
  moreover have "distinct (map (\<lambda>i. (bi_batchId i, bi_ledgerEntryId i)) (batchItems s))"
    using bk by (simp add: books_def settlementOk_def settlementLinks_def settlementIds_def)
  ultimately show ?thesis
    using assms(3-5) inj_onD [of "\<lambda>i. (bi_batchId i, bi_ledgerEntryId i)" "set (batchItems s)" i j] by (simp add: distinct_map)
qed

theorem row_paid_once_witness:
  "\<exists>s. engineStep\<^sup>*\<^sup>* demo_sent s \<and> demo_item \<in> set (batchItems s) \<and>
     (\<forall>j \<in> set (batchItems s). bi_ledgerEntryId j = 200 \<longrightarrow> demo_item = j)"
proof -
  have r: "engineStep\<^sup>*\<^sup>* demo_sent demo_sent" by blast
  have i: "demo_item \<in> set (batchItems demo_sent)" by (simp add: demo_sent_def)
  have "demo_item = j" if "j \<in> set (batchItems demo_sent)" "bi_ledgerEntryId j = 200" for j
    by (rule row_paid_once [OF r demo_sent_books i that(1)]) (use that(2) in \<open>auto simp: demo_sent_def demo_batch_def demo_item_def\<close>)
  then show ?thesis using r i by blast
qed

text \<open>C3: A payout of a batch is worth exactly the ledger rows its items name, and every one of them is owed to the
  payout's own member in the payout's own tenant; the worth is positive.\<close>

theorem payout_is_its_members_rows:
  assumes "engineStep\<^sup>*\<^sup>* s0 s" "books s0" "p \<in> set (payouts s)" "po_batchId p = Some bid"
  defines "mine \<equiv> {bi_ledgerEntryId i | i. i \<in> set (batchItems s) \<and> bi_batchId i = bid \<and> bi_payoutId i = po_id p}"
  shows "po_totalCents p = sumWhere (\<lambda>e. le_id e \<in> mine) le_amountCents (ledger s) \<and> 0 < po_totalCents p \<and>
    (\<forall>e \<in> set (ledger s). le_id e \<in> mine \<longrightarrow> le_beneficiary e = po_membershipId p \<and> le_tenantId e = po_tenantId p)"
proof -
  have bk: "books s" by (rule bk.always [OF assms(1,2)])
  let ?items = "filter (\<lambda>i. bi_batchId i = bid \<and> bi_payoutId i = po_id p) (batchItems s)"
  have mine: "mine = bi_ledgerEntryId ` set ?items" by (auto simp: mine_def)
  have sl: "settlementLinks s" and dl: "distinct (map le_id (ledger s))" and dp: "distinct (map po_id (payouts s))"
    and db: "distinct (map ba_id (batches s))"
    using bk by (auto simp: books_def settlementOk_def settlementLinks_def settlementIds_def idsFresh_def)
  have row: "\<exists>e \<in> set (ledger s). le_id e = bi_ledgerEntryId i \<and> le_amountCents e = bi_amountCents i \<and>
      le_beneficiary e = po_membershipId p \<and> le_tenantId e = po_tenantId p" if i: "i \<in> set ?items" for i
  proof -
    have io: "itemOk s i" "bi_batchId i = bid" "bi_payoutId i = po_id p" using sl i by (auto simp: settlementLinks_def)
    then obtain b e q where w: "b \<in> set (batches s)" "e \<in> set (ledger s)" "itemOf s b i e" "q \<in> set (payouts s)"
      "po_id q = po_id p" "po_membershipId q = bi_membershipId i" by (auto simp: itemOk_def)
    have "q = p" using w(4,5) assms(3) dp inj_onD [of po_id "set (payouts s)" q p] by (simp add: distinct_map)
    moreover obtain b' where b': "b' \<in> set (batches s)" "ba_id b' = bid" "po_tenantId p = ba_tenantId b'"
      using sl assms(3,4) by (fastforce simp: settlementLinks_def payoutOk_def)
    moreover have "b = b'" using w(1,3) b'(1,2) io(2) db inj_onD [of ba_id "set (batches s)" b b'] by (simp add: itemOf_def distinct_map)
    ultimately show ?thesis using w by (auto simp: itemOf_def ledgerKey_def)
  qed
  have "sumWhere (\<lambda>e. le_id e \<in> mine) le_amountCents (ledger s) = sum_list (map bi_amountCents ?items)"
    unfolding sumWhere_def mine
  proof (rule sum_list_join [OF _ dl])
    have "distinct (map (\<lambda>i. (bi_batchId i, bi_ledgerEntryId i)) (batchItems s))"
      using sl by (simp add: settlementLinks_def settlementIds_def)
    then show "distinct (map bi_ledgerEntryId ?items)"
      by (auto simp: distinct_map inj_on_def dest: distinct_filter)
  qed (use row in blast)
  moreover have "payoutOk (batches s) (batchItems s) p" using sl assms(3) by (simp add: settlementLinks_def)
  moreover have "le_beneficiary e = po_membershipId p \<and> le_tenantId e = po_tenantId p" if e: "e \<in> set (ledger s)" "le_id e \<in> mine" for e
  proof -
    obtain i where i: "i \<in> set ?items" "bi_ledgerEntryId i = le_id e" using e(2) unfolding mine by auto
    obtain x where x: "x \<in> set (ledger s)" "le_id x = le_id e" "le_beneficiary x = po_membershipId p" "le_tenantId x = po_tenantId p"
      using row [OF i(1)] i(2) by metis
    then have "x = e" using e(1) dl inj_onD [of le_id "set (ledger s)" x e] by (simp add: distinct_map)
    then show ?thesis using x by simp
  qed
  ultimately show ?thesis using assms(4) by (simp add: payoutOk_def sumWhere_def)
qed

theorem payout_is_its_members_rows_witness:
  "\<exists>s. engineStep\<^sup>*\<^sup>* demo_sent s \<and> (\<exists>p \<in> set (payouts s). po_batchId p = Some 400 \<and> 0 < po_totalCents p)"
proof -
  have r: "engineStep\<^sup>*\<^sup>* demo_sent demo_sent" by blast
  have p: "demo_payout \<in> set (payouts demo_sent)" "po_batchId demo_payout = Some 400"
    by (simp_all add: demo_sent_def demo_payout_def)
  have "0 < po_totalCents demo_payout" using payout_is_its_members_rows [OF r demo_sent_books p] by blast
  then show ?thesis using r p by blast
qed

text \<open>C18: A dispatched batch can always be settled: no guard of the settlement can fail, its rows and payouts become
  paid, and every other row and payout stays as it was.\<close>

theorem dispatched_batch_settles:
  assumes "engineStep\<^sup>*\<^sup>* s0 s" "books s0" "tenantBatch s (tp_tenantId p) (tp_batchId p) = Some b" "ba_status b = BaDispatched"
    "findTenant s (tp_tenantId p) \<noteq> None"
  shows "\<exists>out s'. settlePayoutBatchTx E p ref ev s = Inr (out, s') \<and> bo_done out \<and>
    ledger s' = map (\<lambda>e. if \<exists>i \<in> set (batchItems s). bi_batchId i = ba_id b \<and> bi_ledgerEntryId i = le_id e
                         then e\<lparr>le_status := LePaid\<rparr> else e) (ledger s) \<and>
    payouts s' = map (\<lambda>x. if po_batchId x = Some (ba_id b) then settlePayout E p ref ev x else x) (payouts s)"
proof -
  have bk: "books s" by (rule bk.always [OF assms(1,2)])
  have sl: "settlementLinks s" "distinct (map le_id (ledger s))" using bk by (auto simp: books_def settlementOk_def idsFresh_def)
  have "updateWhere (inFlightRow (ba_id b) (lockPayoutBatchItems s (ba_id b))) (\<lambda>e. e\<lparr>le_status := LePaid\<rparr>) (ledger s) =
     map (\<lambda>e. if \<exists>i \<in> set (batchItems s). bi_batchId i = ba_id b \<and> bi_ledgerEntryId i = le_id e
              then e\<lparr>le_status := LePaid\<rparr> else e) (ledger s)"
    unfolding updateWhere_def using inFlight_open [OF sl tenantBatchD(1) [OF assms(3)]] assms(4) by (intro map_cong) auto
  then show ?thesis using settle_total [OF bk assms(3-5), of E ref ev] by (metis updateWhere_def)
qed

theorem dispatched_batch_settles_witness:
  "\<exists>out s'. settlePayoutBatchTx demo_env \<lparr>tp_tenantId = 1, tp_batchId = 400, tp_settlementReference = ''r'',
     tp_settlementEvidence = ''e'', tp_actorUserId = None\<rparr> ''r'' ''e'' demo_sent = Inr (out, s') \<and> bo_done out"
proof -
  let ?p = "\<lparr>tp_tenantId = 1, tp_batchId = 400, tp_settlementReference = ''r'', tp_settlementEvidence = ''e'', tp_actorUserId = None\<rparr>"
  have b: "tenantBatch demo_sent (tp_tenantId ?p) (tp_batchId ?p) = Some demo_batch" "ba_status demo_batch = BaDispatched"
    by (simp_all add: tenantBatch_def demo_sent_def demo_batch_def)
  have t: "findTenant demo_sent (tp_tenantId ?p) \<noteq> None" by (simp add: findTenant_def demo_sent_def demo_db_def demo_tenant_def)
  have "engineStep\<^sup>*\<^sup>* demo_sent demo_sent" by blast
  from dispatched_batch_settles [OF this demo_sent_books b t] show ?thesis by blast
qed

end
