(* ===== verification/Payout_Theorems.thy ===== *)
theory Payout_Theorems
  imports Engine_Theorems Compliance_Theorems
begin

text \<open>
  What the payout transactions promise one by one: whom a batch reserves and for how much, that a
  review binds the batch it was shown for, that failing a batch undoes its reservation, and that a
  dispatch rechecks every payout.
\<close>

section \<open>Reserving\<close>

lemma payableRows_total: "sum_list (map pr_amountCents (payableRows E tenant m s)) = netPayable s (tn_id tenant) m"
proof -
  have "sum_list (map pr_amountCents (payableRows E tenant m s)) =
     sum_list (map le_amountCents (sort_key le_id (filter (payableTo (tn_id tenant) m) (ledger s))))"
    by (simp add: payableRows_def findManyBy_def comp_def)
  then show ?thesis by (simp add: sum_list_sort_key netPayable_def sumWhere_def)
qed

lemma reserveOne_ledger:
  assumes "reserveOne E p bid r (s, ps) = Inr (s', ps')"
  shows "\<exists>pid. ledger s' = updateWhere (claimable (rv_rows r))
       (\<lambda>e. e\<lparr>le_status := LeProcessing, le_payoutId := Some pid, le_payoutBatchId := Some bid\<rparr>) (ledger s) \<and>
     countWhere (claimable (rv_rows r)) (ledger s) = length (rv_rows r) \<and> distinct (map pr_id (rv_rows r)) \<and>
     batchItems s' = batchItems s @ map (itemFor E bid pid r) (rv_rows r) \<and> sales s' = sales s \<and> batches s' = batches s \<and>
     ps' = ps @ [\<lparr>px_membershipId = rv_membershipId r, px_payoutId = pid, px_totalCents = rv_amountCents r,
       px_entryCount = length (rv_rows r)\<rparr>]"
proof -
  obtain pid s1 where w: "writePayout E p bid r s = Inr (pid, s1)" using assms by (auto simp: reserveOne_def)
  then have s1: "ledger s1 = ledger s" "batchItems s1 = batchItems s" "sales s1 = sales s" "batches s1 = batches s"
    by (auto simp: writePayout_def drawId_def Let_def split: option.splits)
  have "distinct (map (\<lambda>i. (bi_batchId i, bi_ledgerEntryId i)) (map (itemFor E bid pid r) (rv_rows r)))"
    using assms w by (auto simp: reserveOne_def claimRows_def createItems_def)
  then have "distinct (map pr_id (rv_rows r))" by (auto simp: itemFor_def comp_def distinct_map inj_on_def)
  then show ?thesis using assms w s1 by (auto simp: reserveOne_def claimRows_def createItems_def)
qed

text \<open>Each processing payout reported by a batch comes from one reservation.\<close>

lemma reserve_reported:
  assumes "foldRes (reserveOne E p bid) rs (s, ps) = Inr (s', ps')"
  shows "map (\<lambda>x. (px_membershipId x, px_totalCents x, px_entryCount x)) ps' =
    map (\<lambda>x. (px_membershipId x, px_totalCents x, px_entryCount x)) ps @
    map (\<lambda>r. (rv_membershipId r, rv_amountCents r, length (rv_rows r))) rs"
  using assms
proof (induction rs arbitrary: s ps)
  case (Cons r rs)
  obtain t qs where t: "reserveOne E p bid r (s, ps) = Inr (t, qs)" and rest: "foldRes (reserveOne E p bid) rs (t, qs) = Inr (s', ps')"
    using Cons.prems by auto
  show ?case using reserveOne_ledger [OF t] Cons.IH [OF rest] by auto
qed simp

lemma reserveTx_cases:
  assumes "reservePayoutBatchTx E p s = Inr (out, s')"
  obtains tenant targets ds where "findTenant s (rp_tenantId p) = Some tenant" "tn_id tenant = rp_tenantId p"
    "batchTargets E p tenant s = Inr targets" "mapRes (decideMember E p tenant s) targets = Inr ds"
    "rr_review out = batchReview E tenant (reservationsOf ds) (skippedOf ds)"
    "rr_batchId out = None \<and> rr_processing out = [] \<and> s' = s \<or>
     (\<exists>bid. rr_batchId out = Some bid \<and> \<not> rp_previewOnly p \<and> commitReservations E p (reservationsOf ds) s = Inr (bid, rr_processing out, s'))"
proof -
  obtain tenant targets ds where t: "tenantOrThrow s (rp_tenantId p) = Inr tenant" "batchTargets E p tenant s = Inr targets"
    "mapRes (decideMember E p tenant s) targets = Inr ds"
    using assms unfolding reservePayoutBatchTx_def andThen_Inr_iff by blast
  have f: "findTenant s (rp_tenantId p) = Some tenant" "tn_id tenant = rp_tenantId p"
    using t(1) by (auto simp: tenantOrThrow_def findTenant_def dest: find_SomeD)
  show ?thesis by (rule that [OF f t(2,3)]) (use assms t in \<open>auto simp: reservePayoutBatchTx_def Let_def split: if_splits\<close>)
qed

lemma commit_reported:
  assumes "commitReservations E p rs s = Inr (bid, processing, s')"
  shows "map (\<lambda>x. (px_membershipId x, px_totalCents x, px_entryCount x)) processing =
    map (\<lambda>r. (rv_membershipId r, rv_amountCents r, length (rv_rows r))) rs"
proof -
  obtain s1 s2 where "foldRes (reserveOne E p bid) rs (s1, []) = Inr (s2, processing)"
    using assms by (cases "createBatch E p s") (auto simp: commitReservations_def)
  from reserve_reported [OF this] show ?thesis by simp
qed

lemma map_filter_mem: "x \<in> set xs \<Longrightarrow> f x = Some y \<Longrightarrow> y \<in> set (List.map_filter f xs)"
  by (induction xs) (auto simp: List.map_filter_simps split: option.split)

text \<open>
  What it takes to be paid, read off the rows.  Not held: no fraud flag of 50 or more that is not
  cleared; where the tenant requires it, a payout profile verified and unchanged for three days; no
  sanctions mark on the profile, and no list entry whose words all occur in a name of the member.
\<close>

definition notListed :: "db \<Rightarrow> string \<Rightarrow> bool" where
  "notListed s name \<longleftrightarrow> (\<forall>x \<in> set (sanctions s). \<not> (tokens (se_normalizedName x) \<noteq> [] \<and>
     set (tokens (se_normalizedName x)) \<subseteq> set (tokens (normalizeName name))))"

definition notHeld :: "env \<Rightarrow> db \<Rightarrow> tenant \<Rightarrow> uuid \<Rightarrow> string \<Rightarrow> bool" where
  "notHeld E s tenant m name \<longleftrightarrow>
     (\<forall>f. flagOf s m = Some f \<longrightarrow> ff_status f = FraudCleared \<or> ff_score f < 50) \<and>
     (tn_requireKycForPayout tenant \<longrightarrow> (\<exists>p. profileOf s m = Some p \<and> pp_status p = ProfileVerified \<and>
        pp_lastChangedAt p + 3 * 86400000 \<le> env_now E)) \<and>
     (\<forall>p. profileOf s m = Some p \<longrightarrow> \<not> pp_sanctionsHit p \<and> (pp_legalName p = [] \<or> notListed s (pp_legalName p))) \<and>
     (name = [] \<or> notListed s name)"

text \<open>Approved: each of the five controls has a ready decision that has not expired, and the newest active destination is verified.\<close>

definition validVersion :: "int \<Rightarrow> bool" where
  "validVersion v \<longleftrightarrow> 0 < v \<and> v \<le> 2 ^ 53 - 1"

definition approvedNow :: "env \<Rightarrow> db \<Rightarrow> uuid \<Rightarrow> uuid \<Rightarrow> bool" where
  "approvedNow E s t m \<longleftrightarrow>
     (\<forall>key. \<exists>c \<in> set (readinessChecks s). ck_tenantId c = t \<and> ck_membershipId c = m \<and> ck_key c = key \<and>
        ck_status c = DecisionReady \<and> validVersion (ck_version c) \<and>
        (ck_expiresAt c = None \<or> (\<exists>at. ck_expiresAt c = Some at \<and> env_now E < at))) \<and>
     (\<exists>d \<in> set (destinations s). de_tenantId d = t \<and> de_membershipId d = m \<and> de_active d \<and>
        de_verifiedAt d \<noteq> None \<and> validVersion (de_version d) \<and>
        (\<forall>d' \<in> set (destinations s). de_tenantId d' = t \<longrightarrow> de_membershipId d' = m \<longrightarrow> de_active d' \<longrightarrow> de_version d' \<le> de_version d))"

text \<open>Payable: one membership of the tenant, its one user with a confirmed e-mail address, and every row in an open month.\<close>

definition payableNow :: "env \<Rightarrow> db \<Rightarrow> tenant \<Rightarrow> uuid \<Rightarrow> bool" where
  "payableNow E s tenant m \<longleftrightarrow>
     (\<exists>mb u. [x \<leftarrow> memberships s. mb_id x = m \<and> mb_tenantId x = tn_id tenant] = [mb] \<and>
        [x \<leftarrow> users s. us_id x = mb_userId mb] = [u] \<and> us_emailVerifiedAt u \<noteq> None \<and>
        notHeld E s tenant m (us_fullName u)) \<and>
     approvedNow E s (tn_id tenant) m \<and>
     (\<forall>e \<in> set (ledger s). payableTo (tn_id tenant) m e \<longrightarrow>
        (\<exists>month. payoutMonth E tenant s e = Some month \<and> \<not> isLocked s (tn_id tenant) month))"

lemma nameHit_listed: "nameHit s name \<longleftrightarrow> \<not> notListed s name"
  by (auto simp: nameHit_def notListed_def entryMatches_def Let_def list_ex_iff list_all_iff subset_iff)

lemma runtimeBlock_notHeld:
  assumes "runtimePayoutBlock E s (tn_id tenant) m = None" "findTenant s (tn_id tenant) = Some tenant"
    and "memberFullName s (tn_id tenant) m = Some name"
  shows "notHeld E s tenant m name"
  using assms
  by (auto simp: runtimePayoutBlock_def notHeld_def Let_def fraudPayoutBlock_def kycPayoutBlock_def nameHit_listed
      FRAUD_BLOCK_SCORE_def KYC_COOLDOWN_DAYS_def split: option.splits if_splits)

lemma readInput_control:
  assumes "filter (\<lambda>c. md_key c = key) (map manualDecision (co_manualChecks (readInput s t m))) = [d]"
  shows "\<exists>c \<in> set (readinessChecks s). ck_tenantId c = t \<and> ck_membershipId c = m \<and> ck_key c = key \<and>
     d = manualDecision (storedControl c)"
proof -
  let ?rows = "map storedControl (findManyBy (\<lambda>c. keyIndex (ck_key c)) (\<lambda>c. ck_tenantId c = t \<and> ck_membershipId c = m) (readinessChecks s))"
  have "d \<in> set (map manualDecision (co_manualChecks (readInput s t m)))" "md_key d = key"
    using arg_cong [OF assms, of set] by auto
  then obtain x where x: "d = manualDecision x" "x \<in> set (co_manualChecks (readInput s t m))" by auto
  then obtain k where "lastOfKey k ?rows = Some x" by (auto simp: readInput_def Let_def List.map_filter_def)
  then have "x \<in> set ?rows" unfolding lastOfKey_def by (auto dest: find_SomeD)
  then show ?thesis using x(1) \<open>md_key d = key\<close> by (auto simp: manualDecision_def storedControl_def)
qed

lemma requestable_approved:
  assumes "rd_requestable (evaluatePayoutReadiness (env_now E) (readinessInput mail net tenant (readInput s t m)))"
  shows "approvedNow E s t m"
proof -
  note r = assms [unfolded requestable_iff]
  have "\<exists>c \<in> set (readinessChecks s). ck_tenantId c = t \<and> ck_membershipId c = m \<and> ck_key c = key \<and>
      ck_status c = DecisionReady \<and> validVersion (ck_version c) \<and>
      (ck_expiresAt c = None \<or> (\<exists>at. ck_expiresAt c = Some at \<and> env_now E < at))" for key
  proof -
    obtain d where d: "filter (\<lambda>c. md_key c = key) (map manualDecision (co_manualChecks (readInput s t m))) = [d]"
      "controlApproved (env_now E) d" using r by (auto simp: readinessInput_def)
    from readInput_control [OF d(1)] d(2) show ?thesis
      by (fastforce simp: controlApproved_def manualDecision_def storedControl_def validVersion_def isValidPayoutReadinessVersion_def
          split: option.splits)
  qed
  moreover obtain d where d: "activeDestination s t m = Some d" "de_verifiedAt d \<noteq> None" "validVersion (de_version d)"
    using r by (auto simp: readinessInput_def readInput_def Let_def destinationVerified_def validVersion_def
        isValidPayoutReadinessVersion_def split: option.splits)
  note f = findFirstBy_SomeD [OF d(1) [unfolded activeDestination_def]]
  have "de_version d' \<le> de_version d" if "d' \<in> set (destinations s)" "de_tenantId d' = t" "de_membershipId d' = m" "de_active d'" for d'
    using f(3) [OF that(1)] that by (auto simp: less_eq_prod_def)
  ultimately show ?thesis using f(1,2) d(2,3) unfolding approvedNow_def by blast
qed

lemma reserved_payable:
  assumes "decideMember E p tenant s m = Inr (Reserve r)" "tn_id tenant = rp_tenantId p" "findTenant s (rp_tenantId p) = Some tenant"
  shows "payableNow E s tenant m" "rv_amountCents r = netPayable s (tn_id tenant) m"
proof -
  note d = decideMember_Reserve [OF assms(1)]
  show amount: "rv_amountCents r = netPayable s (tn_id tenant) m" using d(2,3) payableRows_total by simp
  have "\<exists>month. payoutMonth E tenant s e = Some month \<and> \<not> isLocked s (tn_id tenant) month"
    if e: "e \<in> set (ledger s)" "payableTo (tn_id tenant) m e" for e
  proof -
    let ?x = "\<lparr>pr_id = le_id e, pr_membershipId = le_beneficiary e, pr_level = le_level e, pr_amountCents = le_amountCents e,
        pr_month = payoutMonth E tenant s e\<rparr>"
    have x: "?x \<in> set (rv_rows r)" unfolding d(2) payableRows_set using e by blast
    then obtain month where month: "payoutMonth E tenant s e = Some month" using d(5) by fastforce
    then have "month \<in> set (List.map_filter pr_month (rv_rows r))" using map_filter_mem [OF x, of pr_month month] by simp
    then show ?thesis using month d(7) assms(2) by (simp add: assertPeriodsOpen_Inr)
  qed
  moreover have "\<exists>mb u. [x \<leftarrow> memberships s. mb_id x = m \<and> mb_tenantId x = tn_id tenant] = [mb] \<and>
      [x \<leftarrow> users s. us_id x = mb_userId mb] = [u] \<and> us_emailVerifiedAt u \<noteq> None \<and> notHeld E s tenant m (us_fullName u)"
  proof -
    obtain mb where mb: "[x \<leftarrow> memberships s. mb_id x = m \<and> mb_tenantId x = tn_id tenant] = [mb]"
      using d(13) assms(2) by (auto simp: countWhere_def length_Suc_conv)
    obtain t where "recipientsOf s (rp_tenantId p) m = [(rv_recipient r, Some t)]" using d(12) by blast
    then obtain u where u: "[x \<leftarrow> users s. us_id x = mb_userId mb] = [u]" "us_emailVerifiedAt u = Some t"
      using mb assms(2) by (auto simp: recipientsOf_def)
    have "memberFullName s (tn_id tenant) m = Some (us_fullName u)"
      using mb u(1) by (simp add: memberFullName_def findUser_def find_filter_list)
    then have "notHeld E s tenant m (us_fullName u)"
      using runtimeBlock_notHeld [of E s tenant m] d(8) assms(2,3) by simp
    then show ?thesis using mb u by auto
  qed
  moreover have "approvedNow E s (tn_id tenant) m" using requestable_approved [OF d(10)] assms(2) by simp
  ultimately show "payableNow E s tenant m" unfolding payableNow_def by blast
qed

lemma reserved_eligible:
  assumes "reservePayoutBatchTx E p s = Inr (out, s')"
  shows "\<exists>tenant. findTenant s (rp_tenantId p) = Some tenant \<and> distinct (map px_membershipId (rr_processing out)) \<and>
    (\<forall>x \<in> set (rr_processing out). payableNow E s tenant (px_membershipId x) \<and>
       px_totalCents x = netPayable s (tn_id tenant) (px_membershipId x) \<and> 0 < px_totalCents x \<and>
       tn_payoutMinCents tenant \<le> px_totalCents x)"
  using assms
proof (rule reserveTx_cases)
  fix tenant targets ds
  assume t: "findTenant s (rp_tenantId p) = Some tenant" "tn_id tenant = rp_tenantId p"
    and tg: "batchTargets E p tenant s = Inr targets" and ds: "mapRes (decideMember E p tenant s) targets = Inr ds"
    and out: "rr_batchId out = None \<and> rr_processing out = [] \<and> s' = s \<or>
     (\<exists>bid. rr_batchId out = Some bid \<and> \<not> rp_previewOnly p \<and> commitReservations E p (reservationsOf ds) s = Inr (bid, rr_processing out, s'))"
  have mem: "payableNow E s tenant (rv_membershipId r) \<and> rv_amountCents r = netPayable s (tn_id tenant) (rv_membershipId r) \<and>
      0 < rv_amountCents r \<and> tn_payoutMinCents tenant \<le> rv_amountCents r" if r: "r \<in> set (reservationsOf ds)" for r
  proof -
    obtain m where m: "decideMember E p tenant s m = Inr (Reserve r)" using reservations_from [OF ds r] by blast
    show ?thesis using reserved_payable [OF m t(2,1)] decideMember_Reserve(1,4,9) [OF m] by simp
  qed
  have dist: "distinct (map rv_membershipId (reservationsOf ds))"
    by (rule reservations_distinct [OF ds batchTargets_distinct [OF tg]])
  show ?thesis
  proof (cases "rr_processing out = []")
    case True
    then show ?thesis using t(1) by simp
  next
    case False
    then obtain bid where "commitReservations E p (reservationsOf ds) s = Inr (bid, rr_processing out, s')" using out by blast
    note rep = commit_reported [OF this]
    have "map fst (map (\<lambda>x. (px_membershipId x, px_totalCents x, px_entryCount x)) (rr_processing out)) = map rv_membershipId (reservationsOf ds)"
      unfolding rep by simp
    then have "distinct (map px_membershipId (rr_processing out))" using dist by (simp add: comp_def)
    moreover have "\<exists>r \<in> set (reservationsOf ds). px_membershipId x = rv_membershipId r \<and> px_totalCents x = rv_amountCents r"
      if "x \<in> set (rr_processing out)" for x
    proof -
      have "(px_membershipId x, px_totalCents x, px_entryCount x) \<in> set (map (\<lambda>r. (rv_membershipId r, rv_amountCents r, length (rv_rows r))) (reservationsOf ds))"
        unfolding rep [symmetric] using that by (auto simp: image_iff)
      then show ?thesis by auto
    qed
    ultimately show ?thesis using t(1) mem by metis
  qed
qed

text \<open>
  C6: A batch reserves each member at most once, only members who may be paid now - exactly one membership of the tenant with
  a confirmed e-mail address, not held by the fraud, KYC or sanctions checks, with every control approved and unexpired, a
  verified destination and no row of a locked or unknown month - and each for exactly its net payable amount, which is positive
  and at least the tenant's minimum.
\<close>

theorem batch_reserves_only_eligible:
  assumes "reservePayoutBatchTx E p s = Inr (out, s')"
  shows "\<exists>tenant. findTenant s (rp_tenantId p) = Some tenant \<and> distinct (map px_membershipId (rr_processing out)) \<and>
    (\<forall>x \<in> set (rr_processing out). payableNow E s tenant (px_membershipId x) \<and>
       px_totalCents x = netPayable s (tn_id tenant) (px_membershipId x) \<and> 0 < px_totalCents x \<and>
       tn_payoutMinCents tenant \<le> px_totalCents x)"
  by (rule reserved_eligible [OF assms])

text \<open>Member 10 is ready to be paid and owed 50.00 for October.\<close>

definition demo_owed :: db where
  "demo_owed = demo_ready\<lparr>ledger := [demo_row\<lparr>le_status := LePayable, le_payoutId := None, le_payoutBatchId := None\<rparr>],
     summaries := [\<lparr>ms_key = (1, 10, ''2023-10'', 0), ms_cents = noDelta\<lparr>d_payable := 5000\<rparr>\<rparr>]\<rparr>"

definition demo_pay :: reserve_params where
  "demo_pay = \<lparr>rp_tenantId = 1, rp_scope = Selected [10], rp_period = ''2023-11'', rp_method = MethodManual,
     rp_actorUserId = Some 3, rp_requestedPayoutId = None, rp_previewOnly = False, rp_expectedReview = None\<rparr>"

lemma demo_owed_books: "books demo_owed"
proof -
  have l: "ledger demo_owed = [demo_row\<lparr>le_status := LePayable, le_payoutId := None, le_payoutBatchId := None\<rparr>]"
    by (simp add: demo_owed_def)
  have key: "ledgerKey demo_owed (hd (ledger demo_owed)) = Some (1, 10, ''2023-10'', 0)"
    by (simp add: l ledgerKey_def bucketMonth_def) (simp add: demo_row_def)
  have "reconciled demo_owed"
  proof (rule reconciledI)
    fix st k assume st: "st \<noteq> LeReversed"
    have "ledgerSum st demo_owed k = (if st = LePayable \<and> k = (1, 10, ''2023-10'', 0) then 5000 else 0)"
      using key unfolding ledgerSum_def l by auto (auto simp: demo_row_def)
    moreover have "colSum st demo_owed k = (if st = LePayable \<and> k = (1, 10, ''2023-10'', 0) then 5000 else 0)"
      by (cases st) (auto simp: colSum_def summaryRow_def demo_owed_def noDelta_def)
    ultimately show "colSum st demo_owed k = ledgerSum st demo_owed k" by simp
  qed
  moreover have "linked demo_owed" by (simp add: linked_def l) (simp add: rowLinked_def demo_row_def)
  moreover have "idsFresh demo_owed" by (auto simp: idsFresh_def inj_def demo_owed_def demo_ready_def demo_row_def demo_db_def demo_sale_def)
  moreover have "settlementOk demo_owed"
    by (simp add: settlementOk_def settlementLinks_def settlementIds_def demo_owed_def demo_ready_def demo_db_def)
  ultimately show ?thesis by (rule booksI)
qed

lemma demo_owed_input: "readInput demo_owed 1 10 = readInput demo_ready 1 10"
  by (simp add: readInput_def demo_owed_def activeDestination_def Let_def)

lemma demo_owed_ready:
  "rd_requestable (evaluatePayoutReadiness (env_now demo_env) (readinessInput True 5000 demo_tenant (readInput demo_owed 1 10)))"
  unfolding demo_owed_input demo_input requestable_iff
proof (intro conjI allI)
  show "\<exists>d. filter (\<lambda>c. md_key c = key) (rin_manualChecks (readinessInput True 5000 demo_tenant
      \<lparr>co_manualChecks = map (\<lambda>k. \<lparr>sc_key = k, sc_status = DecisionReady, sc_reasonCode = ''ok'', sc_reviewedAt = Some 0,
          sc_expiresAt = None, sc_version = 1\<rparr>) PAYOUT_COMPLIANCE_CONTROL_KEYS,
        co_destination = Some \<lparr>sd_id = 0x11111111111141118111111111111111, sd_verifiedAt = Some 0, sd_version = 1\<rparr>\<rparr>)) = [d] \<and>
      controlApproved (env_now demo_env) d" for key
    by (cases key) (simp_all add: readinessInput_def manualDecision_def PAYOUT_COMPLIANCE_CONTROL_KEYS_def controlApproved_def isValidPayoutReadinessVersion_def)
qed (simp_all add: readinessInput_def demo_tenant_def destinationVerified_def mfaPasses_def isValidPayoutReadinessVersion_def)

lemma demo_unblocked:
  assumes "tenants s = tenants demo_db" "memberships s = memberships demo_db" "users s = users demo_db" "fraudFlags s = []"
    "payoutProfiles s = []" "sanctions s = []"
  shows "runtimePayoutBlock demo_env s 1 10 = None"
proof -
  have "findTenant s 1 = Some demo_tenant" "flagOf s 10 = None" "profileOf s 10 = None"
    using assms by (simp_all add: findTenant_def flagOf_def profileOf_def demo_db_def demo_tenant_def)
  moreover have "memberFullName s 1 10 = Some ''Member''"
    using assms by (simp add: memberFullName_def findUser_def demo_db_def demo_member_def demo_user_def)
  ultimately show ?thesis
    using assms by (simp add: runtimePayoutBlock_def fraudPayoutBlock_def nameHit_def demo_tenant_def list_ex_iff del: One_nat_def)
qed

lemma demo_owed_unblocked: "runtimePayoutBlock demo_env demo_owed 1 10 = None"
  by (rule demo_unblocked) (simp_all add: demo_owed_def demo_ready_def, simp_all add: demo_db_def)

definition demo_reservation :: payout_reservation where
  "demo_reservation = \<lparr>rv_membershipId = 10, rv_requestedPayoutId = None, rv_amountCents = 5000,
     rv_rows = [\<lparr>pr_id = 200, pr_membershipId = 10, pr_level = 0, pr_amountCents = 5000, pr_month = Some ''2023-10''\<rparr>],
     rv_complianceSnapshot = buildSnapshot (readInput demo_owed 1 10),
     rv_recipient = \<lparr>rc_referralCode = ''REF'', rc_fullName = ''Member'', rc_email = ''m@x''\<rparr>\<rparr>"

lemma demo_decided: "decideMember demo_env demo_pay demo_tenant demo_owed 10 = Inr (Reserve demo_reservation)"
proof -
  have member: "countWhere (\<lambda>x. mb_id x = 10 \<and> mb_tenantId x = 1) (memberships demo_owed) = 1"
    by (simp add: countWhere_def demo_owed_def demo_ready_def demo_db_def demo_member_def)
  have active: "activePayouts demo_owed 1 10 ''2023-11'' = []"
    by (simp add: activePayouts_def findManyBy_def demo_owed_def demo_ready_def demo_db_def)
  have rows: "payableRows demo_env demo_tenant 10 demo_owed = rv_rows demo_reservation"
    by (simp add: payableRows_def findManyBy_def payableTo_def payoutMonth_def demo_owed_def demo_row_def demo_tenant_def demo_reservation_def)
  have opened: "assertRowPeriodsOpen demo_owed 1 (rv_rows demo_reservation) = Inr ()"
    by (simp add: assertRowPeriodsOpen_def demo_reservation_def List.map_filter_simps assertPeriodsOpen_Inr isLocked_iff
        demo_owed_def demo_ready_def demo_db_def)
  have recipient: "recipientsOf demo_owed 1 10 = [(rv_recipient demo_reservation, Some 0)]"
    by (simp add: recipientsOf_def demo_owed_def demo_ready_def demo_db_def demo_member_def demo_user_def demo_reservation_def)
  have p: "rp_tenantId demo_pay = 1" "rp_period demo_pay = ''2023-11''" "rp_requestedPayoutId demo_pay = None"
    by (simp_all add: demo_pay_def)
  have money: "sum_list (map pr_amountCents (rv_rows demo_reservation)) = 5000" "length (rv_rows demo_reservation) \<noteq> 0"
    "tn_payoutMinCents demo_tenant = 1000" by (simp_all add: demo_reservation_def demo_tenant_def)
  have ready: "rd_requestable (evaluatePayoutReadiness (env_now demo_env)
     (readinessInput (Some (0::time) \<noteq> None) 5000 demo_tenant (readInput demo_owed 1 10)))" using demo_owed_ready by simp
  show ?thesis
    unfolding decideMember_def p member active rows money(1,3) opened recipient demo_owed_unblocked Let_def requestToReuse_def
    using money(2) ready by (simp add: demo_reservation_def del: One_nat_def)
qed

text \<open>With no payout yet, a new payout for one member meets no unique index.\<close>

lemma commit_first:
  assumes "payouts s = []" "batchItems s = []" "rv_requestedPayoutId r = None" "distinct (map pr_id (rv_rows r))"
    "countWhere (claimable (rv_rows r)) (ledger s) = length (rv_rows r)"
  shows "\<exists>ps s'. commitReservations E p [r] s = Inr (freshId s, ps, s')"
proof -
  obtain s1 where s1: "createBatch E p s = (freshId s, s1)" "payouts s1 = []" "batchItems s1 = []" "ledger s1 = ledger s"
    using assms(1,2) by (simp add: createBatch_def drawId_def)
  obtain pid s2 where s2: "writePayout E p (freshId s) r s1 = Inr (pid, s2)" "batchItems s2 = []" "ledger s2 = ledger s"
    using s1(2-4) assms(3) by (simp add: writePayout_def payoutIndexTaken_def Let_def drawId_def)
  obtain s3 where s3: "claimRows pid (freshId s) (rv_rows r) s2 = Inr s3" "batchItems s3 = []"
    using s2(2,3) assms(5) by (simp add: claimRows_def)
  have "\<exists>s4. createItems (map (itemFor E (freshId s) pid r) (rv_rows r)) s3 = Inr s4"
    using s3(2) assms(4) by (auto simp: createItems_def itemFor_def comp_def distinct_map inj_on_def)
  then show ?thesis using s1(1) s2(1) s3(1) by (auto simp: commitReservations_def reserveOne_def)
qed

lemma demo_reserved:
  "\<exists>out s'. reservePayoutBatchTx demo_env demo_pay demo_owed = Inr (out, s') \<and> rr_batchId out = Some 1000 \<and> length (rr_processing out) = 1"
proof -
  have tenant: "tenantOrThrow demo_owed 1 = Inr demo_tenant"
    by (simp add: tenantOrThrow_def findTenant_def demo_owed_def demo_ready_def demo_db_def demo_tenant_def)
  have targets: "batchTargets demo_env demo_pay demo_tenant demo_owed = Inr [10]" by (simp add: batchTargets_def demo_pay_def)
  have ds: "mapRes (decideMember demo_env demo_pay demo_tenant demo_owed) [10] = Inr [Reserve demo_reservation]"
    by (simp add: demo_decided)
  have rs: "reservationsOf [Reserve demo_reservation] = [demo_reservation]" by (simp add: reservationsOf_def List.map_filter_simps)
  have "payouts demo_owed = []" "batchItems demo_owed = []" "freshId demo_owed = 1000"
    "countWhere (claimable (rv_rows demo_reservation)) (ledger demo_owed) = length (rv_rows demo_reservation)"
    by (simp_all add: demo_owed_def demo_ready_def demo_db_def freshId_def countWhere_def claimable_def demo_reservation_def demo_row_def)
  note first = this
  have "rv_requestedPayoutId demo_reservation = None" "distinct (map pr_id (rv_rows demo_reservation))"
    by (simp_all add: demo_reservation_def)
  from commit_first [OF first(1,2) this first(4)]
  obtain processing s' where c: "commitReservations demo_env demo_pay [demo_reservation] demo_owed = Inr (1000, processing, s')"
    unfolding first(3) by blast
  have "length processing = 1" using arg_cong [OF commit_reported [OF c], of length] by simp
  then show ?thesis
    using tenant targets ds rs c by (simp add: reservePayoutBatchTx_def demo_pay_def Let_def del: One_nat_def mapRes.simps)
qed

theorem batch_reserves_only_eligible_witness:
  "\<exists>out s' x. reservePayoutBatchTx demo_env demo_pay demo_owed = Inr (out, s') \<and> x \<in> set (rr_processing out) \<and> 1000 \<le> px_totalCents x"
proof -
  obtain out s' where r: "reservePayoutBatchTx demo_env demo_pay demo_owed = Inr (out, s')" "length (rr_processing out) = 1"
    using demo_reserved by blast
  obtain x where x: "x \<in> set (rr_processing out)" using r(2) by (cases "rr_processing out") auto
  have "findTenant demo_owed (rp_tenantId demo_pay) = Some demo_tenant"
    by (simp add: findTenant_def demo_owed_def demo_ready_def demo_db_def demo_tenant_def demo_pay_def)
  then have "1000 \<le> px_totalCents x" using batch_reserves_only_eligible [OF r(1)] x by (auto simp: demo_tenant_def)
  then show ?thesis using r(1) x by blast
qed

section \<open>Reviews\<close>

lemma foldRes_error: "foldRes f xs s = Inl e \<Longrightarrow> \<exists>x \<in> set xs. \<exists>t. f x t = Inl e"
  by (induction xs arbitrary: s) (auto simp: andThen_Inl_iff)

lemma reserveOne_error: "reserveOne E p bid r t = Inl e \<Longrightarrow> e \<noteq> ReviewDrift d"
  by (cases t) (auto simp: reserveOne_def writePayout_def claimRows_def createItems_def andThen_Inl_iff require_def Let_def
      from_option_def split: option.splits if_splits)

lemma commit_error: "commitReservations E p rs s = Inl e \<Longrightarrow> e \<noteq> ReviewDrift d"
  by (cases "createBatch E p s") (auto simp: commitReservations_def andThen_Inl_iff dest!: foldRes_error dest: reserveOne_error)

lemma decideMember_cong:
  assumes "rp_tenantId q = rp_tenantId p" "rp_period q = rp_period p" "rp_requestedPayoutId q = rp_requestedPayoutId p"
  shows "decideMember E q tenant s = decideMember E p tenant s"
  unfolding decideMember_def assms ..

lemma batchTargets_cong:
  "batchTargets E p tenant s = Inr ts \<Longrightarrow> rp_scope q = rp_scope p \<Longrightarrow> batchTargets E q tenant s = Inr ts"
  by (auto simp: batchTargets_def Let_def split: selection_scope.splits if_splits option.splits)

text \<open>C27: A preview writes nothing, and the review it returns binds: on the same data, confirming with any other review is
  refused with the current one, and confirming with the review of the preview is never refused as out of date.\<close>

theorem review_binds:
  assumes "reservePayoutBatchTx E p s = Inr (out, s')" "rp_previewOnly p" "rp_expectedReview p = None"
  shows "s' = s \<and> rr_processing out = [] \<and>
    (reservePayoutBatchTx E (p\<lparr>rp_previewOnly := False, rp_actorUserId := u, rp_expectedReview := Some review\<rparr>) s = Inl (ReviewDrift d) \<longleftrightarrow>
      review \<noteq> rr_review out \<and> d = rr_review out)"
  using assms(1)
proof (rule reserveTx_cases)
  fix tenant targets ds
  let ?q = "p\<lparr>rp_previewOnly := False, rp_actorUserId := u, rp_expectedReview := Some review\<rparr>"
  assume t: "findTenant s (rp_tenantId p) = Some tenant" and tg: "batchTargets E p tenant s = Inr targets"
    and ds: "mapRes (decideMember E p tenant s) targets = Inr ds"
    and rev: "rr_review out = batchReview E tenant (reservationsOf ds) (skippedOf ds)"
    and out: "rr_batchId out = None \<and> rr_processing out = [] \<and> s' = s \<or>
     (\<exists>bid. rr_batchId out = Some bid \<and> \<not> rp_previewOnly p \<and> commitReservations E p (reservationsOf ds) s = Inr (bid, rr_processing out, s'))"
  have small: "\<not> 100 < length targets" using assms t tg ds by (auto simp: reservePayoutBatchTx_def tenantOrThrow_def Let_def)
  have q: "batchTargets E ?q tenant s = Inr targets" "decideMember E ?q tenant s = decideMember E p tenant s"
    by (rule batchTargets_cong [OF tg], simp) (rule decideMember_cong, simp_all)
  have "reservePayoutBatchTx E ?q s = (if review \<noteq> rr_review out then Inl (ReviewDrift (rr_review out))
      else if length (reservationsOf ds) = 0
      then Inr (\<lparr>rr_batchId = None, rr_period = rp_period p, rr_processing = [], rr_skipped = skippedOf ds, rr_review = rr_review out\<rparr>, s)
      else andThen (commitReservations E ?q (reservationsOf ds) s) (\<lambda>(batchId, processing, s').
            Inr (\<lparr>rr_batchId = Some batchId, rr_period = rp_period p, rr_processing = processing,
                  rr_skipped = skippedOf ds, rr_review = rr_review out\<rparr>, s')))"
    using t q small ds by (simp add: reservePayoutBatchTx_def tenantOrThrow_def Let_def rev)
  then show ?thesis using out assms(2) commit_error [of E ?q "reservationsOf ds" s] by (auto simp: andThen_Inl_iff split: if_splits)
qed

theorem review_binds_witness:
  "\<exists>out s'. reservePayoutBatchTx demo_env (demo_pay\<lparr>rp_previewOnly := True\<rparr>) demo_owed = Inr (out, s') \<and> s' = demo_owed \<and>
     reservePayoutBatchTx demo_env (demo_pay\<lparr>rp_previewOnly := False, rp_actorUserId := Some 3, rp_expectedReview :=
        Some ((rr_review out)\<lparr>eligibleCount := Suc (eligibleCount (rr_review out))\<rparr>)\<rparr>) demo_owed = Inl (ReviewDrift (rr_review out))"
proof -
  let ?p = "demo_pay\<lparr>rp_previewOnly := True\<rparr>"
  have "batchTargets demo_env ?p demo_tenant demo_owed = Inr [10]" by (simp add: batchTargets_def demo_pay_def)
  moreover have "decideMember demo_env ?p demo_tenant demo_owed 10 = Inr (Reserve demo_reservation)"
    using decideMember_cong [of ?p demo_pay] demo_decided by simp
  moreover have "tenantOrThrow demo_owed 1 = Inr demo_tenant"
    by (simp add: tenantOrThrow_def findTenant_def demo_owed_def demo_ready_def demo_db_def demo_tenant_def)
  moreover have "rp_tenantId ?p = 1" "rp_expectedReview ?p = None" "rp_previewOnly ?p" by (simp_all add: demo_pay_def)
  ultimately have "\<exists>out s'. reservePayoutBatchTx demo_env ?p demo_owed = Inr (out, s')"
    by (simp add: reservePayoutBatchTx_def Let_def del: One_nat_def)
  then obtain out s' where r: "reservePayoutBatchTx demo_env ?p demo_owed = Inr (out, s')" by blast
  let ?other = "(rr_review out)\<lparr>eligibleCount := Suc (eligibleCount (rr_review out))\<rparr>"
  have "eligibleCount ?other \<noteq> eligibleCount (rr_review out)" by simp
  then have "?other \<noteq> rr_review out" by metis
  then show ?thesis
    using review_binds [OF r, where u = "Some 3" and review = ?other and d = "rr_review out"] r by (intro exI [of _ out] exI [of _ s']) (simp add: demo_pay_def)
qed

section \<open>Undoing a reservation\<close>

text \<open>What a reservation does to a row: the rows of its items go into the batch, the others stay as they are.\<close>

definition claims :: "uuid \<Rightarrow> batch_item list \<Rightarrow> ledger_entry \<Rightarrow> ledger_entry \<Rightarrow> bool" where
  "claims bid items e e' \<longleftrightarrow>
     (if le_id e \<in> bi_ledgerEntryId ` set items
      then le_status e = LePayable \<and> le_payoutId e = None \<and> le_payoutBatchId e = None \<and>
        (\<exists>pid. e' = e\<lparr>le_status := LeProcessing, le_payoutId := Some pid, le_payoutBatchId := Some bid\<rparr>)
      else e' = e)"

lemma claims_id: "claims bid items e e' \<Longrightarrow> le_id e' = le_id e"
  by (auto simp: claims_def split: if_splits)

lemma claims_append: "claims bid xs e t \<Longrightarrow> claims bid ys t e' \<Longrightarrow> claims bid (xs @ ys) e e'"
  by (auto simp: claims_def image_Un split: if_splits)

lemma round_claims:
  assumes "reserveOne E p bid r (s, ps) = Inr (t, ps')" "distinct (map le_id (ledger s))"
  shows "\<exists>new. batchItems t = batchItems s @ new \<and> (\<forall>i \<in> set new. bi_batchId i = bid) \<and>
    list_all2 (claims bid new) (ledger s) (ledger t) \<and> sales t = sales s \<and> batches t = batches s"
proof -
  let ?rows = "rv_rows r"
  obtain pid where r: "ledger t = updateWhere (claimable ?rows)
       (\<lambda>e. e\<lparr>le_status := LeProcessing, le_payoutId := Some pid, le_payoutBatchId := Some bid\<rparr>) (ledger s)"
    "countWhere (claimable ?rows) (ledger s) = length ?rows" "distinct (map pr_id ?rows)"
    "batchItems t = batchItems s @ map (itemFor E bid pid r) ?rows" "sales t = sales s" "batches t = batches s"
    using reserveOne_ledger [OF assms(1)] by blast
  let ?new = "map (itemFor E bid pid r) ?rows"
  have ids: "bi_ledgerEntryId ` set ?new = pr_id ` set ?rows" by (auto simp: itemFor_def image_iff)
  have "claims bid ?new e (if claimable ?rows e
      then e\<lparr>le_status := LeProcessing, le_payoutId := Some pid, le_payoutBatchId := Some bid\<rparr> else e)" if e: "e \<in> set (ledger s)" for e
  proof (cases "le_id e \<in> pr_id ` set ?rows")
    case True
    then obtain x where x: "x \<in> set ?rows" "pr_id x = le_id e" by auto
    obtain e' where e': "e' \<in> set (ledger s)" "claimable ?rows e'" "le_id e' = le_id e"
      using claim_all [OF assms(2) r(3,2) x(1)] x(2) by auto
    then have "e' = e" using inj_onD [of le_id "set (ledger s)" e' e] assms(2) e by (simp add: distinct_map)
    then show ?thesis using e'(2) True unfolding claims_def ids by (auto simp: claimable_def)
  next
    case False
    then show ?thesis unfolding claims_def ids by (auto simp: claimable_def)
  qed
  then have "list_all2 (claims bid ?new) (ledger s) (ledger t)"
    unfolding r(1) updateWhere_def list_all2_map2 list_all2_same by blast
  then show ?thesis using r(4-6) by (intro exI [of _ ?new]) (auto simp: itemFor_def)
qed

lemma list_all2_compose:
  "list_all2 P xs ys \<Longrightarrow> list_all2 Q ys zs \<Longrightarrow> (\<And>x y z. P x y \<Longrightarrow> Q y z \<Longrightarrow> R x z) \<Longrightarrow> list_all2 R xs zs"
  using list_all2_trans [of P Q R xs ys zs] by blast

lemma list_all2_map_eq: "list_all2 R xs ys \<Longrightarrow> (\<And>x y. R x y \<Longrightarrow> f y = f x) \<Longrightarrow> map f ys = map f xs"
  by (induction rule: list_all2_induct) auto

lemma list_all2_map_back:
  "list_all2 R xs ys \<Longrightarrow> (\<And>x y. x \<in> set xs \<Longrightarrow> y \<in> set ys \<Longrightarrow> R x y \<Longrightarrow> f y = x) \<Longrightarrow> map f ys = xs"
  by (induction rule: list_all2_induct) auto

lemma reserve_claims:
  assumes "foldRes (reserveOne E p bid) rs (s, ps) = Inr (s', ps')" "distinct (map le_id (ledger s))"
  shows "\<exists>new. batchItems s' = batchItems s @ new \<and> (\<forall>i \<in> set new. bi_batchId i = bid) \<and>
    list_all2 (claims bid new) (ledger s) (ledger s') \<and> sales s' = sales s \<and> batches s' = batches s"
  using assms
proof (induction rs arbitrary: s ps)
  case Nil
  then show ?case by (intro exI [of _ "[]"]) (auto simp: claims_def list.rel_eq intro: list.rel_refl_strong)
next
  case (Cons r rs)
  obtain t qs where t: "reserveOne E p bid r (s, ps) = Inr (t, qs)" and rest: "foldRes (reserveOne E p bid) rs (t, qs) = Inr (s', ps')"
    using Cons.prems(1) by auto
  obtain xs where xs: "batchItems t = batchItems s @ xs" "\<forall>i \<in> set xs. bi_batchId i = bid" "list_all2 (claims bid xs) (ledger s) (ledger t)"
    "sales t = sales s" "batches t = batches s" using round_claims [OF t Cons.prems(2)] by blast
  have "map le_id (ledger t) = map le_id (ledger s)" by (rule list_all2_map_eq [OF xs(3) claims_id])
  then obtain ys where ys: "batchItems s' = batchItems t @ ys" "\<forall>i \<in> set ys. bi_batchId i = bid" "list_all2 (claims bid ys) (ledger t) (ledger s')"
    "sales s' = sales t" "batches s' = batches t" using Cons.IH [OF rest] Cons.prems(2) by auto
  have "list_all2 (claims bid (xs @ ys)) (ledger s) (ledger s')"
    by (rule list_all2_compose [OF xs(3) ys(3)]) (rule claims_append)
  then show ?case using xs ys by (intro exI [of _ "xs @ ys"]) auto
qed

text \<open>A batch that was not dispatched can always be failed.\<close>

lemma fail_total:
  assumes "books s" "tenantBatch s (fp_tenantId p) (fp_batchId p) = Some b" "ba_status b = BaProcessing"
  shows "\<exists>out s'. failPayoutBatchTx E p r s = Inr (out, s') \<and> bo_done out \<and> sales s' = sales s \<and>
    ledger s' = updateWhere (inFlightRow (ba_id b) (lockPayoutBatchItems s (ba_id b)))
      (\<lambda>e. e\<lparr>le_status := LePayable, le_payoutId := None, le_payoutBatchId := None\<rparr>) (ledger s)"
proof -
  note b = tenantBatchD [OF assms(2)]
  have fl: "batchEntryStatus (ba_status b) = Some LeProcessing" using assms(3) by simp
  note rows = rows_in_flight [OF assms(1) b(1) fl] and pays = payouts_in_flight [OF assms(1) b(1) fl]
    and ne = intact_in_flight(2) [OF assms(1) b(1) fl]
  let ?pays = "findManyBy po_id (\<lambda>x. po_batchId x = Some (ba_id b)) (payouts s)"
  have same: "inFlightPayout (ba_id b) ?pays = inFlightPayout (ba_id b) (batchPayouts s (ba_id b))"
    by (rule ext) (simp add: inFlightPayout_def batchPayouts_def)
  have len: "length ?pays = length (batchPayouts s (ba_id b))" by (simp add: batchPayouts_def findManyBy_def)
  then have some: "?pays \<noteq> []" using pays(1) by (metis length_0_conv)
  have frames: "ledger (fold (\<lambda>x. audit t a act (po_id x) bf af) xs u) = ledger u \<and> sales (fold (\<lambda>x. audit t a act (po_id x) bf af) xs u) = sales u"
    for t a act bf af xs u by (induction xs arbitrary: u) simp_all
  show ?thesis
    using assms(2,3) rows pays(1,2) ne len some by (simp add: failPayoutBatchTx_def Let_def same frames moveBatchSummary_def)
qed

lemma reserve_undone:
  assumes "books s" "reservePayoutBatchTx E p s = Inr (out, s1)" "rr_batchId out = Some bid"
    "fp_tenantId q = rp_tenantId p" "fp_batchId q = bid"
  shows "\<exists>o2 s2. failPayoutBatchTx E' q reason s1 = Inr (o2, s2) \<and> bo_done o2 \<and> ledger s2 = ledger s \<and> sales s2 = sales s"
  using assms(2)
proof (rule reserveTx_cases)
  fix tenant targets ds
  assume "rr_batchId out = None \<and> rr_processing out = [] \<and> s1 = s \<or>
     (\<exists>bid. rr_batchId out = Some bid \<and> \<not> rp_previewOnly p \<and> commitReservations E p (reservationsOf ds) s = Inr (bid, rr_processing out, s1))"
  then have c: "commitReservations E p (reservationsOf ds) s = Inr (bid, rr_processing out, s1)" using assms(3) by auto
  let ?rs = "reservationsOf ds"
  obtain t where t: "createBatch E p s = (bid, t)" using c by (cases "createBatch E p s") (auto simp: commitReservations_def)
  then have t': "ledger t = ledger s" "sales t = sales s" "batchItems t = batchItems s" "bid = freshId s"
    "\<exists>b. batches t = batches s @ [b] \<and> ba_id b = bid \<and> ba_status b = BaProcessing \<and> ba_tenantId b = rp_tenantId p"
    by (auto simp: createBatch_def drawId_def)
  obtain u where loop: "foldRes (reserveOne E p bid) ?rs (t, []) = Inr (u, rr_processing out)"
    and s1: "ledger s1 = ledger u" "sales s1 = sales u" "batchItems s1 = batchItems u" "batches s1 = batches u"
    using c t by (auto simp: commitReservations_def)
  have sok: "settlementIds s" "\<forall>i \<in> set (batchItems s). itemOk s i" "distinct (map le_id (ledger s))"
    using assms(1) by (auto simp: books_def settlementOk_def settlementLinks_def idsFresh_def)
  obtain new where new: "batchItems u = batchItems s @ new" "\<forall>i \<in> set new. bi_batchId i = bid"
    "list_all2 (claims bid new) (ledger s) (ledger u)" "sales u = sales s" "batches u = batches t"
    using reserve_claims [OF loop] sok(3) t' by auto
  have old: "bi_batchId i \<noteq> bid" if "i \<in> set (batchItems s)" for i
    using sok(1,2) that t'(4) by (fastforce simp: settlementIds_def itemOk_def itemOf_def freshId_def)
  obtain b where b: "batches s1 = batches s @ [b]" "ba_id b = bid" "ba_status b = BaProcessing" "ba_tenantId b = rp_tenantId p"
    using t'(5) new(5) s1(4) by auto
  have "find (\<lambda>x. ba_id x = bid \<and> ba_tenantId x = rp_tenantId p) (batches s) = None"
    using sok(1) t'(4) by (auto simp: find_None_iff settlementIds_def freshId_def)
  then have tb: "tenantBatch s1 (fp_tenantId q) (fp_batchId q) = Some b"
    using b assms(4,5) by (simp add: tenantBatch_def find_append)
  have bk1: "books s1" by (rule reservePayoutBatchTx_books [OF assms(1,2)])
  then have links: "settlementLinks s1" "distinct (map le_id (ledger s1))" by (auto simp: books_def settlementOk_def idsFresh_def)
  let ?P = "inFlightRow (ba_id b) (lockPayoutBatchItems s1 (ba_id b))"
  let ?f = "\<lambda>e. e\<lparr>le_status := LePayable, le_payoutId := None, le_payoutBatchId := None\<rparr>"
  obtain o2 s2 where fail: "failPayoutBatchTx E' q reason s1 = Inr (o2, s2)" "bo_done o2" "sales s2 = sales s1"
    "ledger s2 = updateWhere ?P ?f (ledger s1)" using fail_total [OF bk1 tb b(3), of E' reason] by blast
  have "map (\<lambda>e. if ?P e then ?f e else e) (ledger s1) = ledger s"
    unfolding s1(1)
  proof (rule list_all2_map_back [OF new(3)])
    fix e e' assume e: "e' \<in> set (ledger u)" "claims bid new e e'"
    have "?P e' \<longleftrightarrow> (\<exists>i \<in> set (batchItems s1). bi_batchId i = ba_id b \<and> bi_ledgerEntryId i = le_id e')"
      by (rule inFlight_open [OF links]) (use b e(1) s1(1) in auto)
    also have "\<dots> \<longleftrightarrow> le_id e \<in> bi_ledgerEntryId ` set new" using claims_id [OF e(2)] new(1,2) old b(2) s1(3)
      by (metis (no_types, lifting) Un_iff image_iff set_append)
    finally show "(if ?P e' then ?f e' else e') = e" using e(2) by (auto simp: claims_def)
  qed
  then have "ledger s2 = ledger s" using fail(4) by (simp add: updateWhere_def)
  then show ?thesis using fail(1-3) s1(2) new(4) by simp
qed

text \<open>C5: Failing a batch that was reserved and not dispatched always succeeds and undoes the reservation exactly: every ledger
  row is as it was before, and so is every pending, payable, processing and paid column of the summaries.\<close>

theorem failed_batch_restores:
  assumes "books s" "reservePayoutBatchTx E p s = Inr (out, s1)" "rr_batchId out = Some bid"
    "fp_tenantId q = rp_tenantId p" "fp_batchId q = bid" "st \<noteq> LeReversed"
  shows "\<exists>o2 s2. failPayoutBatchTx E' q reason s1 = Inr (o2, s2) \<and> bo_done o2 \<and> ledger s2 = ledger s \<and>
    colSum st s2 k = colSum st s k"
proof -
  obtain o2 s2 where s2: "failPayoutBatchTx E' q reason s1 = Inr (o2, s2)" "bo_done o2" "ledger s2 = ledger s" "sales s2 = sales s"
    using reserve_undone [OF assms(1-5)] by blast
  have "books s2" by (rule failPayoutBatchTx_books [OF reservePayoutBatchTx_books [OF assms(1,2)] s2(1)])
  moreover have "ledgerKey s2 = ledgerKey s" by (intro ledgerKey_frame saleBooking_frame s2(4))
  then have "ledgerSum st s2 k = ledgerSum st s k" using s2(3) by (simp add: ledgerSum_def)
  moreover have "colSum st s2 k = ledgerSum st s2 k" "colSum st s k = ledgerSum st s k"
    using \<open>books s2\<close> assms(1,6) unfolding books_def reconciled_def by blast+
  ultimately show ?thesis using s2 by auto
qed

theorem failed_batch_restores_witness:
  "\<exists>out s1 o2 s2. reservePayoutBatchTx demo_env demo_pay demo_owed = Inr (out, s1) \<and>
     failPayoutBatchTx demo_env \<lparr>fp_tenantId = 1, fp_batchId = 1000, fp_reason = ''bounced'', fp_actorUserId = Some 3\<rparr> ''bounced'' s1 =
       Inr (o2, s2) \<and> ledger s2 = ledger demo_owed"
proof -
  obtain out s1 where r: "reservePayoutBatchTx demo_env demo_pay demo_owed = Inr (out, s1)" "rr_batchId out = Some 1000"
    using demo_reserved by blast
  let ?q = "\<lparr>fp_tenantId = 1, fp_batchId = 1000, fp_reason = ''bounced'', fp_actorUserId = Some 3\<rparr>"
  have q: "fp_tenantId ?q = rp_tenantId demo_pay" "fp_batchId ?q = 1000" by (simp_all add: demo_pay_def)
  have "LePayable \<noteq> LeReversed" by simp
  from failed_batch_restores [OF demo_owed_books r q this] r(1) show ?thesis by blast
qed

section \<open>Dispatching\<close>

text \<open>What the recheck asks of a payout: no block, and a stored snapshot that still describes the member.\<close>

definition stillPayable :: "env \<Rightarrow> db \<Rightarrow> uuid \<Rightarrow> payout \<Rightarrow> bool" where
  "stillPayable E s tenantId x \<longleftrightarrow> runtimePayoutBlock E s tenantId (po_membershipId x) = None \<and>
     (\<exists>snapshot. parseSnapshot (po_complianceSnapshot x) = Some snapshot \<and>
        isReady (readInput s tenantId (po_membershipId x)) (env_now E) \<and>
        snapshot = buildSnapshot (readInput s tenantId (po_membershipId x)))"

lemma recheckPayout_Inr: "recheckPayout E s tenantId x = Inr u \<longleftrightarrow> stillPayable E s tenantId x"
  by (auto simp: recheckPayout_def recheckSnapshot_def stillPayable_def split: option.splits if_splits)

lemma mapRes_units: "(\<exists>us. mapRes f xs = Inr us) \<longleftrightarrow> (\<forall>x \<in> set xs. \<exists>u. f x = Inr u)"
  by (induction xs) auto

lemma mapRes_unit_Inr: "\<forall>x \<in> set xs. f x = Inr () \<Longrightarrow> \<exists>us. mapRes f xs = Inr us"
  by (simp add: mapRes_units)

lemma batch_locked:
  assumes "books s" "b \<in> set (batches s)"
  shows "countWhere (\<lambda>x. ba_id x = ba_id b \<and> ba_status x = ba_status b) (batches s) = 1"
proof -
  have "distinct (map ba_id (batches s))" using assms(1) by (simp add: books_def settlementOk_def settlementLinks_def settlementIds_def)
  then have "filter (\<lambda>x. ba_id x = ba_id b) (batches s) = [b]" using filter_unique_key assms(2) by metis
  then have "filter (\<lambda>x. ba_status x = ba_status b) (filter (\<lambda>x. ba_id x = ba_id b) (batches s)) = [b]" by simp
  then show ?thesis by (simp add: countWhere_def filter_filter conj_commute)
qed

lemma dispatch_exactly:
  assumes "books s" "tenantBatch s (dp_tenantId p) (dp_batchId p) = Some b" "ba_status b = BaProcessing"
    and "\<forall>x \<in> set (batchPayouts s (ba_id b)). lockMembership s (dp_tenantId p) (po_membershipId x) = Inr ()"
  shows "(\<exists>out s'. dispatchPayoutBatchTx E p reference evidence s = Inr (out, s')) \<longleftrightarrow>
      (\<forall>x \<in> set (batchPayouts s (ba_id b)). stillPayable E s (dp_tenantId p) x)"
    and "dispatchPayoutBatchTx E p reference evidence s = Inr (out, s') \<Longrightarrow> ledger s' = ledger s \<and> payouts s' = payouts s \<and>
      summaries s' = summaries s \<and> bo_payoutCount out = length (batchPayouts s (ba_id b)) \<and>
      batches s' = updateWhere (\<lambda>x. ba_id x = ba_id b \<and> ba_status x = BaProcessing)
        (\<lambda>x. x\<lparr>ba_status := BaDispatched, ba_dispatchedAt := Some (env_now E), ba_dispatchedByUserId := dp_actorUserId p,
            ba_dispatchReference := Some reference, ba_dispatchEvidence := Some evidence\<rparr>) (batches s)"
proof -
  note b = tenantBatchD [OF assms(2)]
  have fl: "batchEntryStatus (ba_status b) = Some LeProcessing" using assms(3) by simp
  note pays = payouts_in_flight [OF assms(1) b(1) fl] and ok = intact_in_flight [OF assms(1) b(1) fl]
  have one: "countWhere (\<lambda>x. ba_id x = ba_id b \<and> ba_status x = BaProcessing) (batches s) = 1"
    using batch_locked [OF assms(1) b(1)] assms(3) by simp
  obtain us where lock: "mapRes (lockMembership s (dp_tenantId p)) (sort (remdups (map po_membershipId (batchPayouts s (ba_id b))))) = Inr us"
    using mapRes_unit_Inr [of "sort (remdups (map po_membershipId (batchPayouts s (ba_id b))))"] assms(4) by fastforce
  have frames: "ledger (fold (\<lambda>x. audit t a act (po_id x) bf af) xs u) = ledger u \<and> payouts (fold (\<lambda>x. audit t a act (po_id x) bf af) xs u) = payouts u \<and>
      summaries (fold (\<lambda>x. audit t a act (po_id x) bf af) xs u) = summaries u \<and> batches (fold (\<lambda>x. audit t a act (po_id x) bf af) xs u) = batches u"
    for t a act bf af xs u by (induction xs arbitrary: u) simp_all
  have tx: "dispatchPayoutBatchTx E p reference evidence s = Inr (out, s') \<longleftrightarrow>
     (\<exists>us. mapRes (recheckPayout E s (dp_tenantId p)) (batchPayouts s (ba_id b)) = Inr us) \<and>
     out = \<lparr>bo_batchId = ba_id b, bo_done = True, bo_already = False, bo_payoutCount = length (batchPayouts s (ba_id b))\<rparr> \<and>
     s' = audit (dp_tenantId p) (dp_actorUserId p) ''payout_batch.dispatched'' (ba_id b) processingBefore
       (JObj ([(''dispatchReference'', JStr reference), (''dispatchEvidence'', JStr evidence)] @
          [(''payoutCount'', JNum (int (length (batchPayouts s (ba_id b))))), (''entryCount'', JNum (int (length (lockPayoutBatchItems s (ba_id b)))))]))
       (fold (\<lambda>x. audit (dp_tenantId p) (dp_actorUserId p) ''payout.dispatched'' (po_id x) processingBefore
           (JObj ((''batchId'', JId (ba_id b)) # [(''dispatchReference'', JStr reference), (''dispatchEvidence'', JStr evidence)])))
         (batchPayouts s (ba_id b)) (s\<lparr>batches := updateWhere (\<lambda>x. ba_id x = ba_id b \<and> ba_status x = BaProcessing)
            (\<lambda>x. x\<lparr>ba_status := BaDispatched, ba_dispatchedAt := Some (env_now E), ba_dispatchedByUserId := dp_actorUserId p,
               ba_dispatchReference := Some reference, ba_dispatchEvidence := Some evidence\<rparr>) (batches s)\<rparr>))" for out s'
    using assms(2,3) lock pays(1) ok(1) one by (auto simp: dispatchPayoutBatchTx_def Let_def)
  show "(\<exists>out s'. dispatchPayoutBatchTx E p reference evidence s = Inr (out, s')) \<longleftrightarrow>
      (\<forall>x \<in> set (batchPayouts s (ba_id b)). stillPayable E s (dp_tenantId p) x)"
    unfolding tx mapRes_units recheckPayout_Inr by blast
  show "dispatchPayoutBatchTx E p reference evidence s = Inr (out, s') \<Longrightarrow> ledger s' = ledger s \<and> payouts s' = payouts s \<and>
      summaries s' = summaries s \<and> bo_payoutCount out = length (batchPayouts s (ba_id b)) \<and>
      batches s' = updateWhere (\<lambda>x. ba_id x = ba_id b \<and> ba_status x = BaProcessing)
        (\<lambda>x. x\<lparr>ba_status := BaDispatched, ba_dispatchedAt := Some (env_now E), ba_dispatchedByUserId := dp_actorUserId p,
            ba_dispatchReference := Some reference, ba_dispatchEvidence := Some evidence\<rparr>) (batches s)"
    unfolding tx by (simp add: frames)
qed

text \<open>C7: A processing batch of known members can be dispatched exactly when every one of its payouts passes the recheck - its
  member is not held, and the compliance snapshot stored with the payout is still approved and unchanged; the dispatch then
  marks the batch and moves no money.\<close>

theorem dispatch_needs_every_recheck:
  assumes "books s" "tenantBatch s (dp_tenantId p) (dp_batchId p) = Some b" "ba_status b = BaProcessing"
    and "\<forall>x \<in> set (batchPayouts s (ba_id b)). lockMembership s (dp_tenantId p) (po_membershipId x) = Inr ()"
  shows "if \<forall>x \<in> set (batchPayouts s (ba_id b)). stillPayable E s (dp_tenantId p) x
    then \<exists>out s'. dispatchPayoutBatchTx E p reference evidence s = Inr (out, s') \<and> ledger s' = ledger s \<and> payouts s' = payouts s \<and>
      summaries s' = summaries s \<and> batches s' = updateWhere (\<lambda>x. ba_id x = ba_id b \<and> ba_status x = BaProcessing)
        (\<lambda>x. x\<lparr>ba_status := BaDispatched, ba_dispatchedAt := Some (env_now E), ba_dispatchedByUserId := dp_actorUserId p,
            ba_dispatchReference := Some reference, ba_dispatchEvidence := Some evidence\<rparr>) (batches s)
    else \<exists>e. dispatchPayoutBatchTx E p reference evidence s = Inl e"
proof (cases "\<forall>x \<in> set (batchPayouts s (ba_id b)). stillPayable E s (dp_tenantId p) x")
  case True
  then obtain out s' where d: "dispatchPayoutBatchTx E p reference evidence s = Inr (out, s')"
    using dispatch_exactly(1) [OF assms] by blast
  show ?thesis using True d dispatch_exactly(2) [OF assms d] by auto
next
  case False
  then have "\<not> (\<exists>out s'. dispatchPayoutBatchTx E p reference evidence s = Inr (out, s'))"
    using dispatch_exactly(1) [OF assms] by blast
  then show ?thesis using False by (cases "dispatchPayoutBatchTx E p reference evidence s") auto
qed

text \<open>The sample batch before its dispatch, with the snapshot its reservation stored.\<close>

definition demo_waiting :: settlement_batch where
  "demo_waiting = demo_batch\<lparr>ba_status := BaProcessing, ba_dispatchedAt := None\<rparr>"

definition demo_queued :: db where
  "demo_queued = demo_sent\<lparr>batches := [demo_waiting], readinessChecks := demo_checks, destinations := [demo_destination],
     payouts := [demo_payout\<lparr>po_complianceSnapshot := Some (snapshotJson (buildSnapshot (readInput demo_ready 1 10)))\<rparr>]\<rparr>"

lemma demo_queued_books: "books demo_queued"
proof -
  have l: "ledger demo_queued = [demo_row]" by (simp add: demo_queued_def demo_sent_def)
  have key: "ledgerKey demo_queued e = ledgerKey demo_sent e" for e
    by (rule fun_cong [where x = e], intro ledgerKey_frame saleBooking_frame) (simp add: demo_queued_def)
  have old: "reconciled demo_sent" "linked demo_sent" "idsFresh demo_sent" using demo_sent_books by (simp_all add: books_def)
  have "reconciled demo_queued"
  proof (rule reconciledI)
    fix st k assume "st \<noteq> LeReversed"
    moreover have "colSum st demo_queued k = colSum st demo_sent k" by (simp add: colSum_def summaryRow_def demo_queued_def)
    moreover have "ledgerSum st demo_queued k = ledgerSum st demo_sent k" unfolding ledgerSum_def key by (simp add: demo_queued_def)
    ultimately show "colSum st demo_queued k = ledgerSum st demo_queued k" using old(1) unfolding reconciled_def by metis
  qed
  moreover have "linked demo_queued" by (rule linked_frame [OF old(2)], simp add: demo_queued_def, rule saleBooking_frame, simp add: demo_queued_def)
  moreover have "idsFresh demo_queued" using old(3) by (simp add: idsFresh_def demo_queued_def)
  moreover have "settlementOk demo_queued"
  proof -
    have "itemOf demo_queued demo_waiting demo_item demo_row"
      by (simp add: itemOf_def key demo_sent_key ownedBy_def) (simp add: demo_row_def demo_waiting_def demo_batch_def demo_item_def)
    then have "itemOk demo_queued demo_item"
      by (auto simp: itemOk_def demo_queued_def demo_sent_def demo_payout_def demo_item_def newPayout_def)
    moreover have "settlementIds demo_queued"
      by (auto simp: settlementIds_def demo_queued_def demo_sent_def demo_db_def)
        (simp_all add: demo_waiting_def demo_batch_def demo_payout_def newPayout_def)
    moreover have "payoutOk [demo_waiting] [demo_item] (demo_payout\<lparr>po_complianceSnapshot := j\<rparr>)" for j
      by (simp add: payoutOk_def demo_payout_def demo_waiting_def demo_batch_def demo_item_def newPayout_def)
    moreover have "po_batchId demo_payout = Some (ba_id demo_waiting)"
      by (simp add: demo_payout_def demo_waiting_def demo_batch_def)
    moreover have "batchItems demo_queued = [demo_item]" "batches demo_queued = [demo_waiting]"
      "payouts demo_queued = [demo_payout\<lparr>po_complianceSnapshot := Some (snapshotJson (buildSnapshot (readInput demo_ready 1 10)))\<rparr>]"
      by (simp_all add: demo_queued_def demo_sent_def)
    ultimately show ?thesis by (simp add: settlementOk_def settlementLinks_def)
  qed
  ultimately show ?thesis by (rule booksI)
qed

theorem dispatch_needs_every_recheck_witness:
  "\<exists>out s'. dispatchPayoutBatchTx demo_env \<lparr>dp_tenantId = 1, dp_batchId = 400, dp_dispatchReference = ''wire'',
     dp_dispatchEvidence = ''slip'', dp_actorUserId = Some 3\<rparr> ''wire'' ''slip'' demo_queued = Inr (out, s') \<and> ledger s' = ledger demo_queued"
proof -
  let ?p = "\<lparr>dp_tenantId = 1, dp_batchId = 400, dp_dispatchReference = ''wire'', dp_dispatchEvidence = ''slip'', dp_actorUserId = Some 3\<rparr>"
  let ?x = "demo_payout\<lparr>po_complianceSnapshot := Some (snapshotJson (buildSnapshot (readInput demo_ready 1 10)))\<rparr>"
  have b: "tenantBatch demo_queued (dp_tenantId ?p) (dp_batchId ?p) = Some demo_waiting" "ba_status demo_waiting = BaProcessing"
    by (simp_all add: tenantBatch_def demo_queued_def demo_waiting_def demo_batch_def)
  have pays: "batchPayouts demo_queued (ba_id demo_waiting) = [?x]"
    by (simp add: batchPayouts_def findManyBy_def demo_queued_def demo_payout_def demo_waiting_def demo_batch_def)
  have m: "po_membershipId ?x = 10" by (simp add: demo_payout_def newPayout_def)
  have lock: "\<forall>x \<in> set (batchPayouts demo_queued (ba_id demo_waiting)). lockMembership demo_queued (dp_tenantId ?p) (po_membershipId x) = Inr ()"
    unfolding pays using m by (simp add: lockMembership_def countWhere_def demo_queued_def demo_sent_def demo_db_def demo_member_def)
  have input: "readInput demo_queued 1 10 = readInput demo_ready 1 10"
    by (simp add: readInput_def demo_queued_def demo_ready_def activeDestination_def Let_def)
  have "runtimePayoutBlock demo_env demo_queued 1 10 = None"
    by (rule demo_unblocked) (simp_all add: demo_queued_def demo_sent_def, simp_all add: demo_db_def)
  then have "stillPayable demo_env demo_queued 1 ?x"
    using snapshot_parses [OF demo_isReady demo_storable] demo_isReady by (simp add: stillPayable_def m input del: One_nat_def)
  then have "\<forall>x \<in> set (batchPayouts demo_queued (ba_id demo_waiting)). stillPayable demo_env demo_queued (dp_tenantId ?p) x"
    unfolding pays by simp
  with dispatch_needs_every_recheck [OF demo_queued_books b lock, of demo_env "''wire''" "''slip''"] show ?thesis by auto
qed

end
