(* ===== verification/Sales_Theorems.thy ===== *)
theory Sales_Theorems
  imports Sales Nacha
begin

text \<open>
  What \<open>SalesService\<close> guarantees: the amounts a text may name and their value, and what each entry
  of a sale adds to the database.
\<close>

section \<open>Digits\<close>

text \<open>The number a string of decimal digits denotes.\<close>

definition digitsValue :: "string \<Rightarrow> nat" where
  "digitsValue ds = foldl (\<lambda>a c. 10 * a + (of_char c - 48)) 0 ds"

lemma foldl_digits: "foldl (\<lambda>a c. 10 * a + (of_char c - 48)) acc ds = acc * 10 ^ length ds + digitsValue ds"
proof (induction ds rule: rev_induct)
  case (snoc c ds)
  then show ?case by (simp add: digitsValue_def algebra_simps)
qed (simp add: digitsValue_def)

lemma digitsValue_Nil [simp]: "digitsValue [] = 0"
  by (simp add: digitsValue_def)

lemma digitsValue_Cons: "digitsValue (c # ds) = (of_char c - 48) * 10 ^ length ds + digitsValue ds"
  using foldl_digits [of "of_char c - 48" ds] by (simp add: digitsValue_def)

lemma digitsValue_append: "digitsValue (xs @ ys) = digitsValue xs * 10 ^ length ys + digitsValue ys"
  using foldl_digits [of "digitsValue xs" ys] by (simp add: digitsValue_def)

lemma digitVal_ascii: "isAsciiDigit c \<Longrightarrow> digitVal c = Some (of_char c - 48)"
  by (simp add: isAsciiDigit_def digitVal_def Let_def)

lemma readDigits_value: "list_all isAsciiDigit ds \<Longrightarrow> readDigits acc ds = Some (acc * 10 ^ length ds + digitsValue ds)"
  by (induction ds arbitrary: acc) (simp_all add: digitVal_ascii digitsValue_Cons algebra_simps)

lemma digitsValue_bound: "list_all isAsciiDigit ds \<Longrightarrow> digitsValue ds < 10 ^ length ds"
proof (induction ds)
  case (Cons c ds)
  have "of_char c - 48 \<le> (9::nat)" using Cons.prems by (auto simp: isAsciiDigit_def Let_def)
  then have "(of_char c - 48) * 10 ^ length ds \<le> (9::nat) * 10 ^ length ds" by (rule mult_le_mono1)
  moreover have "digitsValue ds < 10 ^ length ds" using Cons by simp
  ultimately have "(of_char c - 48) * 10 ^ length ds + digitsValue ds < 10 * 10 ^ length ds" by linarith
  then show ?case by (simp add: digitsValue_Cons)
qed simp

lemma ascii_zero: "isAsciiDigit c \<Longrightarrow> of_char c - 48 = (0::nat) \<longleftrightarrow> c = CHR ''0''"
proof
  assume a: "isAsciiDigit c" "of_char c - 48 = (0::nat)"
  then have "of_char c = (48::nat)" by (simp add: isAsciiDigit_def Let_def)
  then have "(of_char c :: nat) = of_char (CHR ''0'')" by simp
  then show "c = CHR ''0''" by (simp only: of_char_eq_iff)
qed simp

lemma digitsValue_lower:
  assumes "list_all isAsciiDigit (c # ds)" "c \<noteq> CHR ''0''"
  shows "10 ^ length ds \<le> digitsValue (c # ds)"
proof -
  have "of_char c - 48 \<noteq> (0::nat)" using assms ascii_zero by auto
  then have "1 * 10 ^ length ds \<le> (of_char c - 48) * (10::nat) ^ length ds" by (intro mult_le_mono1) simp
  then show ?thesis unfolding digitsValue_Cons by linarith
qed

lemma digitsValue_strip: "digitsValue (dropWhile (\<lambda>c. c = CHR ''0'') ds) = digitsValue ds"
  by (induction ds) (simp_all add: digitsValue_Cons)

lemma char_less_nat: "(c < d) = ((of_char c :: nat) < of_char d)"
  by (simp add: less_char_def)

text \<open>Between strings of digits of one length the order of strings is that of the numbers.\<close>

lemma digits_less:
  assumes "length xs = length ys" "list_all isAsciiDigit xs" "list_all isAsciiDigit ys"
  shows "xs < ys \<longleftrightarrow> digitsValue xs < digitsValue ys"
  using assms
proof (induction xs ys rule: list_induct2)
  case (Cons x xs y ys)
  have d: "48 \<le> (of_char x :: nat)" "48 \<le> (of_char y :: nat)" using Cons.prems by (simp_all add: isAsciiDigit_def Let_def)
  have b: "digitsValue xs < 10 ^ length ys" "digitsValue ys < 10 ^ length ys"
    using digitsValue_bound [of xs] digitsValue_bound [of ys] Cons by simp_all
  consider "x = y" | "(of_char x :: nat) < of_char y" | "(of_char y :: nat) < of_char x"
    by (metis linorder_neqE_nat of_char_eq_iff)
  then show ?case
  proof cases
    case 1
    then show ?thesis using Cons by (simp add: digitsValue_Cons)
  next
    case 2
    then have "Suc (of_char x - 48) * 10 ^ length ys \<le> (of_char y - 48) * (10::nat) ^ length ys"
      using d by (intro mult_le_mono1) simp
    then show ?thesis using 2 Cons.hyps b by (simp add: digitsValue_Cons char_less_nat)
  next
    case 3
    then have "Suc (of_char y - 48) * 10 ^ length ys \<le> (of_char x - 48) * (10::nat) ^ length ys"
      using d by (intro mult_le_mono1) simp
    moreover have "\<not> x < y" "x \<noteq> y" using 3 by (auto simp: char_less_nat)
    ultimately show ?thesis using Cons.hyps b by (simp add: digitsValue_Cons)
  qed
qed simp

section \<open>Amounts\<close>

lemma parsePositiveSafeCents_iff:
  "parsePositiveSafeCents v err = Inr n \<longleftrightarrow>
     v \<noteq> [] \<and> list_all isAsciiDigit v \<and> n = int (digitsValue v) \<and> 0 < n \<and> n \<le> 9007199254740991"
proof (cases "v \<noteq> [] \<and> list_all isAsciiDigit v")
  case False
  then show ?thesis by (auto simp: parsePositiveSafeCents_def)
next
  case True
  define d where "d = dropWhile (\<lambda>c. c = CHR ''0'') v"
  have digits: "list_all isAsciiDigit d" using True by (auto simp: d_def list_all_iff dest: set_dropWhileD)
  have val: "digitsValue d = digitsValue v" by (simp add: d_def digitsValue_strip)
  have M: "length MAX_SAFE_CENTS_TEXT = 16" "list_all isAsciiDigit MAX_SAFE_CENTS_TEXT"
    "digitsValue MAX_SAFE_CENTS_TEXT = 9007199254740991"
    by (simp_all add: MAX_SAFE_CENTS_TEXT_def digitsValue_def isAsciiDigit_def)
  show ?thesis
  proof (cases d)
    case Nil
    then have "parsePositiveSafeCents v err = Inl err" using True unfolding d_def
      by (simp only: parsePositiveSafeCents_def Let_def) simp
    moreover have "digitsValue v = 0" using val Nil by simp
    ultimately show ?thesis by simp
  next
    case (Cons c cs)
    have c0: "c \<noteq> CHR ''0''" using hd_dropWhile [of "\<lambda>c. c = CHR ''0''" v] unfolding d_def [symmetric] Cons by simp
    have low: "10 ^ (length d - 1) \<le> digitsValue d" using digitsValue_lower [of c cs] digits c0 Cons by simp
    have up: "digitsValue d < 10 ^ length d" by (rule digitsValue_bound [OF digits])
    have pos: "0 < digitsValue d" using low by (metis gr0I le_zero_eq power_not_zero zero_neq_numeral)
    have big: "(16 < length d \<or> length d = 16 \<and> MAX_SAFE_CENTS_TEXT < d) \<longleftrightarrow> 9007199254740991 < digitsValue d"
    proof (cases "length d" "16::nat" rule: linorder_cases)
      case less
      then have "(10::nat) ^ length d \<le> 10 ^ 15" by (intro power_increasing) simp_all
      then show ?thesis using less up by simp
    next
      case equal
      then show ?thesis using digits_less [of MAX_SAFE_CENTS_TEXT d] M digits by simp
    next
      case greater
      then have "(10::nat) ^ 16 \<le> 10 ^ (length d - 1)" by (intro power_increasing) simp_all
      then show ?thesis using greater low by simp
    qed
    have "parsePositiveSafeCents v err =
        (if 9007199254740991 < digitsValue d then Inl err else Inr (int (digitsValue d)))"
      using True Cons c0 big [unfolded M(1) [symmetric]] readDigits_value [OF digits, of 0]
      by (simp only: parsePositiveSafeCents_def d_def [symmetric] Let_def) simp
    then show ?thesis using True val pos by auto
  qed
qed

text \<open>What is left of a text once its dollar signs, commas and blanks are gone.\<close>

definition moneyChars :: "string \<Rightarrow> string" where
  "moneyChars t = filter (\<lambda>c. \<not> (c = CHR ''$'' \<or> c = CHR '','' \<or> isSpace c)) t"

lemma filter_dropWhile: "(\<And>c. Q c \<Longrightarrow> \<not> P c) \<Longrightarrow> filter P (dropWhile Q t) = filter P t"
  by (induction t) auto

lemma moneyChars_trim [simp]: "moneyChars (trimText t) = moneyChars t"
proof -
  have "filter P (rev (dropWhile isSpace (rev u))) = filter P u"
    if "\<And>c. isSpace c \<Longrightarrow> \<not> P c" for P :: "char \<Rightarrow> bool" and u
    using filter_dropWhile [of isSpace P "rev u", OF that] by (simp add: rev_filter [symmetric])
  then show ?thesis by (simp add: moneyChars_def trimText_def filter_dropWhile)
qed

text \<open>The accepted shape: digits, then at most two more behind a point.\<close>

definition decimalText :: "string \<Rightarrow> string \<Rightarrow> string" where
  "decimalText w f = w @ (if f = [] then [] else CHR ''.'' # f)"

definition decimalShape :: "string \<Rightarrow> string \<Rightarrow> bool" where
  "decimalShape w f \<longleftrightarrow> w \<noteq> [] \<and> list_all isAsciiDigit w \<and> list_all isAsciiDigit f \<and> length f \<le> 2"

definition decimalCents :: "string \<Rightarrow> string \<Rightarrow> cents" where
  "decimalCents w f = int (digitsValue w * 100 + digitsValue f * 10 ^ (2 - length f))"

lemma point_no_digit [simp]: "\<not> isAsciiDigit (CHR ''.'')"
  by (simp add: isAsciiDigit_def)

lemma digit_no_point: "list_all isAsciiDigit w \<Longrightarrow> takeWhile (\<lambda>c. c \<noteq> CHR ''.'') (w @ r) = w @ takeWhile (\<lambda>c. c \<noteq> CHR ''.'') r"
  "list_all isAsciiDigit w \<Longrightarrow> dropWhile (\<lambda>c. c \<noteq> CHR ''.'') (w @ r) = dropWhile (\<lambda>c. c \<noteq> CHR ''.'') r"
  by (induction w) auto

lemma decimalText_parts:
  assumes "decimalShape w f"
  shows "takeWhile (\<lambda>c. c \<noteq> CHR ''.'') (decimalText w f) = w"
    "drop 1 (dropWhile (\<lambda>c. c \<noteq> CHR ''.'') (decimalText w f)) = f"
  using assms by (simp_all add: decimalText_def decimalShape_def digit_no_point)

lemma digits_prefix: "list_all isAsciiDigit w \<Longrightarrow> takeWhile isAsciiDigit (w @ r) = w @ takeWhile isAsciiDigit r"
  "list_all isAsciiDigit w \<Longrightarrow> dropWhile isAsciiDigit (w @ r) = dropWhile isAsciiDigit r"
  by (induction w) auto

lemma isMoneyText_iff: "isMoneyText v \<longleftrightarrow> (\<exists>w f. decimalShape w f \<and> v = decimalText w f)"
proof
  assume m: "isMoneyText v"
  define w where "w = takeWhile isAsciiDigit v"
  have v: "v = w @ dropWhile isAsciiDigit v" by (simp add: w_def)
  have w: "w \<noteq> []" "list_all isAsciiDigit w"
    using m by (auto simp: isMoneyText_def w_def Let_def list_all_iff dest: set_takeWhileD)
  show "\<exists>w f. decimalShape w f \<and> v = decimalText w f"
  proof (cases "dropWhile isAsciiDigit v")
    case Nil
    then have "v = w" using v by (simp only: append_Nil2)
    then have "decimalShape w []" "v = decimalText w []" using w by (simp_all add: decimalShape_def decimalText_def)
    then show ?thesis by blast
  next
    case (Cons c ds)
    then have "c = CHR ''.'' \<and> (length ds = 1 \<or> length ds = 2) \<and> list_all isAsciiDigit ds"
      using m by (simp add: isMoneyText_def Let_def)
    moreover from this have "ds \<noteq> []" by auto
    ultimately have "decimalShape w ds" "v = decimalText w ds"
      using v w Cons by (auto simp: decimalShape_def decimalText_def)
    then show ?thesis by blast
  qed
next
  assume "\<exists>w f. decimalShape w f \<and> v = decimalText w f"
  then obtain w f where s: "decimalShape w f" "v = decimalText w f" by blast
  have "length f = 1 \<or> length f = 2" if "f \<noteq> []"
  proof -
    have "length f \<noteq> 0" "length f \<le> 2" using that s(1) by (simp_all add: decimalShape_def)
    then show ?thesis by linarith
  qed
  then show "isMoneyText v"
    using s by (auto simp: isMoneyText_def Let_def decimalShape_def decimalText_def digits_prefix)
qed

lemma digitsValue_zeros [simp]: "digitsValue (replicate k (CHR ''0'')) = 0"
  by (induction k) (simp_all add: digitsValue_Cons)

lemma decimalCents_digits:
  assumes "decimalShape w f"
  shows "list_all isAsciiDigit (w @ padEnd 2 (CHR ''0'') f)"
    and "int (digitsValue (w @ padEnd 2 (CHR ''0'') f)) = decimalCents w f"
proof -
  have "length f \<le> 2" using assms by (simp add: decimalShape_def)
  then have "10 ^ (length f + (2 - length f)) = (100::nat)" by simp
  then show "list_all isAsciiDigit (w @ padEnd 2 (CHR ''0'') f)"
    and "int (digitsValue (w @ padEnd 2 (CHR ''0'') f)) = decimalCents w f"
    using assms by (simp_all add: decimalShape_def padEnd_def decimalCents_def digitsValue_append list_all_iff ball_Un
        set_replicate_conv_if isAsciiDigit_def [of "CHR ''0''"])
qed

lemma parseMoneyAmount_cases:
  "parseMoneyAmountToCents (Some t) False =
     (if trimText t = [] then Inl ''amount is blank''
      else if \<not> isMoneyText (moneyChars t) then Inl (''invalid amount: '' @ trimText t)
      else parsePositiveSafeCents (takeWhile (\<lambda>c. c \<noteq> CHR ''.'') (moneyChars t) @
             padEnd 2 (CHR ''0'') (drop 1 (dropWhile (\<lambda>c. c \<noteq> CHR ''.'') (moneyChars t))))
             (''invalid amount: '' @ trimText t))"
proof -
  have eq: "filter (\<lambda>c. \<not> (c = CHR ''$'' \<or> c = CHR '','' \<or> isSpace c)) (trimText t) = moneyChars t"
    using moneyChars_trim [of t] unfolding moneyChars_def .
  show ?thesis by (simp only: parseMoneyAmountToCents_def Let_def option.case eq if_False)
qed

lemma parseMoneyAmount_iff:
  "parseMoneyAmountToCents (Some t) False = Inr n \<longleftrightarrow>
     (\<exists>w f. moneyChars t = decimalText w f \<and> decimalShape w f \<and> n = decimalCents w f \<and> 0 < n \<and> n \<le> 9007199254740991)"
  (is "?L \<longleftrightarrow> ?R")
proof (cases "isMoneyText (moneyChars t)")
  case True
  then obtain w f where s: "decimalShape w f" "moneyChars t = decimalText w f" by (auto simp: isMoneyText_iff)
  have ne: "trimText t \<noteq> []"
  proof
    assume "trimText t = []"
    then have "moneyChars t = []" using moneyChars_trim [of t] by (simp add: moneyChars_def)
    then show False using s by (simp add: decimalText_def decimalShape_def)
  qed
  have w: "w @ padEnd 2 (CHR ''0'') f \<noteq> []" using s(1) by (simp add: decimalShape_def)
  have "?L \<longleftrightarrow> parsePositiveSafeCents (w @ padEnd 2 (CHR ''0'') f) (''invalid amount: '' @ trimText t) = Inr n"
    using True ne by (simp only: parseMoneyAmount_cases s(2) decimalText_parts [OF s(1)] if_False not_True_eq_False)
  also have "\<dots> \<longleftrightarrow> n = decimalCents w f \<and> 0 < n \<and> n \<le> 9007199254740991"
    unfolding parsePositiveSafeCents_iff using w decimalCents_digits [OF s(1)] by simp
  also have "\<dots> \<longleftrightarrow> ?R"
    using s decimalText_parts by metis
  finally show ?thesis .
next
  case False
  then have "\<not> ?L" by (simp add: parseMoneyAmount_cases)
  moreover have "\<not> ?R" using False unfolding isMoneyText_iff by metis
  ultimately show ?thesis by simp
qed

lemma digitsValue_show_nat [simp]: "digitsValue (show_nat k) = k"
proof (induction k rule: show_nat.induct)
  case (1 k)
  show ?case
  proof (cases "k < 10")
    case True
    then show ?thesis by (simp add: show_nat.simps [of k] digitsValue_def)
  next
    case False
    then have "digitsValue (show_nat k) = digitsValue (show_nat (k div 10)) * 10 + k mod 10"
      by (simp add: show_nat.simps [of k] digitsValue_append) (simp add: digitsValue_def)
    then show ?thesis using 1 False by simp
  qed
qed

lemma show_nat_not_Nil [simp]: "show_nat k \<noteq> []"
  by (subst show_nat.simps) simp

lemma length_show_nat_2: "k < 100 \<Longrightarrow> length (show_nat k) \<le> 2"
  by (subst show_nat.simps) (simp add: show_nat.simps [of "k div 10"] div_less_iff_less_mult)

lemma decimal_text_of_cents:
  assumes "0 \<le> n"
  obtains f where "decimalShape (show_int (n div 100)) f" "decimalCents (show_int (n div 100)) f = n"
    "centsToDecimalString n = decimalText (show_int (n div 100)) f"
proof -
  define w where "w = show_int (n div 100)"
  define f where "f = padStart 2 (CHR ''0'') (show_int (n mod 100))"
  have si: "show_int (n div 100) = show_nat (nat (n div 100))" "show_int (n mod 100) = show_nat (nat (n mod 100))"
    using assms by (simp_all add: show_int_def pos_imp_zdiv_neg_iff)
  have l: "length (show_nat (nat (n mod 100))) \<le> 2" by (rule length_show_nat_2) simp
  have f: "length f = 2" "list_all isAsciiDigit f" "digitsValue f = nat (n mod 100)"
    using l show_nat_digits by (simp_all add: f_def padStart_def si digitsValue_append list_all_iff ball_Un
        set_replicate_conv_if isAsciiDigit_def [of "CHR ''0''"])
  have "f \<noteq> []" using f(1) by auto
  then have "centsToDecimalString n = decimalText w f"
    using assms by (simp add: centsToDecimalString_def decimalText_def w_def f_def Let_def)
  moreover have "decimalShape w f" using f show_nat_digits by (simp add: decimalShape_def w_def si)
  moreover have "decimalCents w f = n" using assms f by (simp add: decimalCents_def w_def si pos_imp_zdiv_nonneg_iff)
  ultimately show ?thesis using that w_def by metis
qed

lemma moneyChars_decimal: "decimalShape w f \<Longrightarrow> moneyChars (decimalText w f) = decimalText w f"
proof -
  assume s: "decimalShape w f"
  have "c \<noteq> CHR ''$'' \<and> c \<noteq> CHR '','' \<and> \<not> isSpace c" if "isAsciiDigit c" for c
    using that by (auto simp: isAsciiDigit_def isSpace_def Let_def)
  moreover have "\<not> isSpace (CHR ''.'')" by (simp add: isSpace_def)
  ultimately show ?thesis using s
    by (auto simp: moneyChars_def decimalShape_def decimalText_def list_all_iff intro!: filter_True)
qed

text \<open>
  C37: A dollar text is accepted exactly when, without dollar signs, commas and blanks, it is digits with at
  most two more behind a point, and its value in cents, computed without rounding, is positive and at most the
  largest safe integer; the printed form of every such amount is accepted and read back as that amount.
\<close>

theorem amount_text_exact:
  "(parseMoneyAmountToCents (Some t) False = Inr n \<longleftrightarrow>
     (\<exists>w f. moneyChars t = decimalText w f \<and> decimalShape w f \<and> n = decimalCents w f \<and> 0 < n \<and> n \<le> 9007199254740991)) \<and>
   (0 < c \<and> c \<le> 9007199254740991 \<longrightarrow> parseMoneyAmountToCents (Some (centsToDecimalString c)) False = Inr c)"
proof (intro conjI impI)
  assume c: "0 < c \<and> c \<le> 9007199254740991"
  then have "0 \<le> c" by simp
  then obtain f where "decimalShape (show_int (c div 100)) f" "decimalCents (show_int (c div 100)) f = c"
    "centsToDecimalString c = decimalText (show_int (c div 100)) f" by (rule decimal_text_of_cents)
  then show "parseMoneyAmountToCents (Some (centsToDecimalString c)) False = Inr c"
    unfolding parseMoneyAmount_iff using c moneyChars_decimal by metis
qed (rule parseMoneyAmount_iff)

text \<open>Witness: 1,234.50 dollars are 123450 cents, both ways.\<close>

lemma amount_text_exact_witness:
  "parseMoneyAmountToCents (Some ''$1,234.5 '') False = Inr 123450 \<and>
   parseMoneyAmountToCents (Some (centsToDecimalString 123450)) False = Inr 123450"
proof
  have "moneyChars ''$1,234.5 '' = decimalText ''1234'' ''5'' \<and> decimalShape ''1234'' ''5'' \<and> 123450 = decimalCents ''1234'' ''5''"
    by (simp add: moneyChars_def decimalText_def decimalShape_def decimalCents_def digitsValue_def isAsciiDigit_def isSpace_def)
  then show "parseMoneyAmountToCents (Some ''$1,234.5 '') False = Inr 123450"
    using amount_text_exact [of "''$1,234.5 ''" 123450 1] by fastforce
  show "parseMoneyAmountToCents (Some (centsToDecimalString 123450)) False = Inr 123450"
    using amount_text_exact [of "[]" 0 123450] by simp
qed

end
