(* ===== verification/Bulk_Theorems.thy ===== *)
theory Bulk_Theorems
  imports Service_Steps Commission_Theorems
begin

text \<open>
  What a bulk confirmation promises: it moves exactly the reviewed sales, records its response under the
  idempotency key, and answers a repetition with that response and no write.
\<close>

section \<open>What one engine step does to the sales\<close>

definition movesSale :: "uuid \<Rightarrow> (sale \<Rightarrow> bool) \<Rightarrow> db \<Rightarrow> db \<Rightarrow> bool" where
  "movesSale i Q s s' \<longleftrightarrow> bulkExecutions s' = bulkExecutions s \<and> (\<forall>j. j \<noteq> i \<longrightarrow> findSale s' j = findSale s j) \<and>
     (\<exists>r. findSale s' i = Some r \<and> Q r)"

lemma findSale_sales: "sales s' = sales s \<Longrightarrow> findSale s' j = findSale s j"
  by (simp add: findSale_def)

lemma updateSale_bulk [simp]: "bulkExecutions (updateSale i f s) = bulkExecutions s"
  by (simp add: updateSale_def)

lemma audit_bulk [simp]: "bulkExecutions (audit t u a i b c s) = bulkExecutions s"
  by (simp add: audit_def)

lemma pinFreeze_sales:
  fixes s sale plan m
  defines "s1 \<equiv> freezeMonth sale m (pinPlan sale plan s)"
  shows "bulkExecutions s1 = bulkExecutions s" "j \<noteq> sa_id sale \<Longrightarrow> findSale s1 j = findSale s j"
    "findSale s (sa_id sale) = Some r \<Longrightarrow> \<exists>r'. findSale s1 (sa_id sale) = Some r' \<and> sa_status r' = sa_status r \<and>
       sa_approvedBy r' = sa_approvedBy r"
  by (auto simp: s1_def freezeMonth_def pinPlan_def findSale_updateSale)

lemma approveSaleInTx_moves:
  assumes ap: "approveSaleInTx E i (Some u) expected s = Inr (x, s')" and bk: "books s"
    and r0: "findSale s i = Some r0" "sa_status r0 = SaleDraft"
  shows "movesSale i (\<lambda>r. sa_status r = SaleApproved \<and> sa_approvedBy r = Some u) s s'"
proof -
  obtain sale where lock: "lockSale i expected s = Inr sale" using ap by (auto simp: approveSaleInTx_def)
  have sale: "sale = r0" "sa_id sale = i" using lockSale_findSale [OF lock bk] r0 by simp_all
  let ?f = "\<lambda>r. r\<lparr>sa_status := SaleApproved, sa_approvedAt := Some (env_now E), sa_approvedBy := Some u\<rparr>"
  let ?t = "\<lambda>s1. audit (sa_tenantId sale) (Some u) ''sale.approve'' i (JObj [(''status'', JStr ''draft'')])
       (JObj [(''status'', JStr ''approved'')]) (updateSale i ?f s1)"
  let ?sale = "sale\<lparr>sa_status := SaleApproved, sa_approvedAt := Some (env_now E)\<rparr>"
  obtain s1 where s1: "separationOfDuties sale (Some u) s = Inr s1" and app: "applyCommissionsInTx E ?sale (?t s1) = Inr (x, s')"
    using ap lock r0(2) sale(1) by (auto simp: approveSaleInTx_def Let_def)
  have q: "findSale s1 j = findSale s j" "bulkExecutions s1 = bulkExecutions s" for j
    using separationOfDuties_Inr [OF s1] by auto
  have t: "bulkExecutions (?t s1) = bulkExecutions s" "j \<noteq> i \<Longrightarrow> findSale (?t s1) j = findSale s j"
    "findSale (?t s1) i = Some (?f r0)" for j
    using q r0(1) by (simp_all add: findSale_updateSale)
  from app show ?thesis
  proof (cases rule: applyCommissionsInTx_cases)
    case (applied tenant plan rawChain lines month)
    let ?p = "freezeMonth ?sale month (pinPlan ?sale plan (?t s1))"
    have "baseOf s' = baseOf ?p" by (rule distribute_spec [OF applied(9)]) (rule posted_base)
    then have "sales s' = sales ?p" "bulkExecutions s' = bulkExecutions ?p" by (rule baseOf_eqD(4), rule baseOf_eqD(10))
    moreover note pinFreeze_sales [where sale = ?sale and m = month and plan = plan and s = "?t s1"]
    ultimately show ?thesis using t sale findSale_sales [of s' ?p] by (fastforce simp: movesSale_def)
  qed (use t in \<open>simp_all add: movesSale_def\<close>)
qed

lemma reverseEntry_base: "reverseEntry E sale month e s = Inr s' \<Longrightarrow> baseOf s' = baseOf s"
proof -
  assume r: "reverseEntry E sale month e s = Inr s'"
  then obtain k s1 where c: "createLedgerEntry E (reversalOf sale e) s = Inr (k, s1)" by (auto simp: reverseEntry_def)
  have "baseOf s' = baseOf s1"
    using r c by (auto simp: reverseEntry_def Let_def baseOf_def createNotification_def drawId_def bumpSummary_def setLedgerStatus_def)
  then show ?thesis using posted_base [OF createLedgerEntry_posted [OF c]] by simp
qed

lemma voidSaleInTx_moves:
  assumes v: "voidSaleInTx E i actor expected s = Inr (x, s')" and bk: "books s"
    and r0: "findSale s i = Some r0" "sa_status r0 \<noteq> SaleVoid"
  shows "movesSale i (\<lambda>r. sa_status r = SaleVoid) s s'"
proof -
  obtain sale where lock: "lockSale i expected s = Inr sale" using v by (auto simp: voidSaleInTx_def)
  have sale: "sale = r0" using lockSale_findSale [OF lock bk] r0 by simp
  let ?f = "\<lambda>r. r\<lparr>sa_status := SaleVoid\<rparr>"
  let ?v = "audit (sa_tenantId sale) actor ''sale.void'' i (JObj [(''status'', JStr (statusText (sa_status sale)))])
                (JObj [(''status'', JStr ''void'')]) (updateSale i ?f s)"
  have "s' = ?v \<or> (\<exists>month. foldRes (reverseEntry E sale month) (voidableEntries s i) ?v = Inr s')"
    using v lock r0(2) sale by (auto simp: voidSaleInTx_def Let_def split: if_splits)
  moreover have "baseOf s' = baseOf ?v" if "foldRes (reverseEntry E sale month) (voidableEntries s i) ?v = Inr s'" for month
    by (rule foldRes_invariant [where P = "\<lambda>t. baseOf t = baseOf ?v", OF that refl]) (simp add: reverseEntry_base)
  ultimately have "baseOf s' = baseOf ?v" by auto
  then have "sales s' = sales ?v" "bulkExecutions s' = bulkExecutions ?v" by (rule baseOf_eqD(4), rule baseOf_eqD(10))
  moreover have "findSale ?v j = (if j = i then Some (?f r0) else findSale s j)" for j
    using r0(1) by (simp add: findSale_updateSale)
  ultimately show ?thesis using findSale_sales [of s' ?v] by (simp add: movesSale_def)
qed

section \<open>A run over the reviewed sales\<close>

definition movedBy :: "actor \<Rightarrow> bulk_action \<Rightarrow> sale \<Rightarrow> bool" where
  "movedBy a action r = (case action of
      BulkApprove \<Rightarrow> sa_status r = SaleApproved \<and> sa_approvedBy r = Some (ac_userId a)
    | BulkVoid \<Rightarrow> sa_status r = SaleVoid)"

definition movable :: "bulk_action \<Rightarrow> sale \<Rightarrow> bool" where
  "movable action r = (case action of BulkApprove \<Rightarrow> sa_status r = SaleDraft | BulkVoid \<Rightarrow> sa_status r \<noteq> SaleVoid)"

lemma movedBy_simps:
  "movedBy a BulkApprove = (\<lambda>r. sa_status r = SaleApproved \<and> sa_approvedBy r = Some (ac_userId a))"
  "movedBy a BulkVoid = (\<lambda>r. sa_status r = SaleVoid)"
  by (simp_all add: movedBy_def fun_eq_iff)

lemma bulkStep_moves:
  "bulkStep (saleCapability E t) a action i s = Inr s' \<Longrightarrow> books s \<Longrightarrow> findSale s i = Some r0 \<Longrightarrow> movable action r0 \<Longrightarrow>
   movesSale i (movedBy a action) s s'"
  by (auto simp: bulkStep_def saleCapability_def movable_def movedBy_simps split: bulk_action.splits
      dest: approveSaleInTx_moves voidSaleInTx_moves)

lemma bulkSteps_move:
  assumes "foldRes (bulkStep (saleCapability E t) a action) ids s = Inr s'" "books s" "distinct ids"
    "\<And>i. i \<in> set ids \<Longrightarrow> \<exists>r. findSale s i = Some r \<and> movable action r"
  shows "bulkExecutions s' = bulkExecutions s \<and> (\<forall>j. j \<notin> set ids \<longrightarrow> findSale s' j = findSale s j) \<and>
    (\<forall>i \<in> set ids. \<exists>r. findSale s' i = Some r \<and> movedBy a action r)"
  using assms
proof (induction ids arbitrary: s)
  case (Cons i ids)
  from Cons.prems(1) obtain s1 where s1: "bulkStep (saleCapability E t) a action i s = Inr s1"
    "foldRes (bulkStep (saleCapability E t) a action) ids s1 = Inr s'" by auto
  obtain r0 where "findSale s i = Some r0" "movable action r0" using Cons.prems(4) by auto
  then have m: "movesSale i (movedBy a action) s s1" by (rule bulkStep_moves [OF s1(1) Cons.prems(2)])
  have other: "findSale s1 j = findSale s j" if "j \<in> set ids" for j
    using m that Cons.prems(3) by (auto simp: movesSale_def)
  have "bulkExecutions s' = bulkExecutions s1 \<and> (\<forall>j. j \<notin> set ids \<longrightarrow> findSale s' j = findSale s1 j) \<and>
    (\<forall>i \<in> set ids. \<exists>r. findSale s' i = Some r \<and> movedBy a action r)"
    using Cons.prems(3,4) other by (intro Cons.IH [OF s1(2) bulkStep_books [OF s1(1) Cons.prems(2)]]) simp_all
  then show ?case using m Cons.prems(3) by (auto simp: movesSale_def)
qed simp

section \<open>The review\<close>

lemma mapRes_list: "mapRes f xs = Inr ys \<Longrightarrow> list_all2 (\<lambda>x y. f x = Inr y) xs ys"
  by (induction xs arbitrary: ys) auto

lemma mapRes_mem: "mapRes f xs = Inr ys \<Longrightarrow> y \<in> set ys \<Longrightarrow> \<exists>x \<in> set xs. f x = Inr y"
  by (induction xs arbitrary: ys) auto

lemma findSale_row: "books s \<Longrightarrow> r \<in> set (sales s) \<Longrightarrow> findSale s (sa_id r) = Some r"
proof -
  assume "books s" "r \<in> set (sales s)"
  then have d: "inj_on sa_id (set (sales s))" by (simp add: books_def idsFresh_def distinct_map)
  show ?thesis
  proof (cases "findSale s (sa_id r)")
    case None
    then show ?thesis using \<open>r \<in> set (sales s)\<close> by (auto simp: findSale_def find_None_iff)
  next
    case (Some x)
    then have "x \<in> set (sales s)" "sa_id x = sa_id r" by (auto simp: findSale_def dest: find_SomeD)
    then show ?thesis using Some d \<open>r \<in> set (sales s)\<close> by (simp add: inj_on_eq_iff)
  qed
qed

lemma distinct_findManyBy: "distinct (map f rows) \<Longrightarrow> distinct (map f (findManyBy key P rows))"
proof -
  assume d: "distinct (map f rows)"
  have "mset (map f (findManyBy key P rows)) = mset (map f (filter P rows))" by (simp add: findManyBy_def)
  moreover have "distinct (map f (filter P rows))" using d by (simp add: distinct_map_filter)
  ultimately show ?thesis using mset_eq_imp_distinct_iff by blast
qed

lemma salesForBulkScope_rows:
  assumes "salesForBulkScope t scope s = Inr rows"
  shows "set rows \<subseteq> {r \<in> set (sales s). sa_tenantId r = t}" "distinct (map sa_id (sales s)) \<Longrightarrow> distinct (map sa_id rows)"
    "scope = BulkSelected ids \<Longrightarrow> length rows = length ids \<and> (\<forall>r \<in> set rows. sa_id r \<in> set ids)"
proof -
  show "set rows \<subseteq> {r \<in> set (sales s). sa_tenantId r = t}"
    using assms by (auto simp: salesForBulkScope_def saleWhereFromFilters_def Let_def split: bulk_scope.splits if_splits dest!: in_set_takeD)
  show "distinct (map sa_id rows)" if "distinct (map sa_id (sales s))"
    using assms distinct_findManyBy [OF that, of sa_id]
    by (auto simp: salesForBulkScope_def Let_def take_map [symmetric] split: bulk_scope.splits if_splits)
  show "length rows = length ids \<and> (\<forall>r \<in> set rows. sa_id r \<in> set ids)" if "scope = BulkSelected ids"
    using assms that by (auto simp: salesForBulkScope_def Let_def split: if_splits)
qed

lemma calculateBulkReview_rows:
  assumes "calculateBulkReview E a action scope s = Inr review"
  obtains tenant rows decided where "tenantOrThrow s (ac_tenantId a) = Inr tenant"
    "salesForBulkScope (ac_tenantId a) scope s = Inr rows" "map fst decided = rows"
    "\<And>r ok m. (r, ok, m) \<in> set decided \<Longrightarrow> \<exists>j. bulkDecision a action tenant r s = Inr (ok, j)"
    "review = reviewOf E action tenant decided"
proof -
  obtain tenant rows decided where h: "tenantOrThrow s (ac_tenantId a) = Inr tenant"
    "salesForBulkScope (ac_tenantId a) scope s = Inr rows" "mapRes (reviewSale a action tenant s) rows = Inr decided"
    "review = reviewOf E action tenant decided"
    using assms by (auto simp: calculateBulkReview_def)
  have l: "list_all2 (\<lambda>r d. reviewSale a action tenant s r = Inr d) rows decided" by (rule mapRes_list [OF h(3)])
  have m: "map fst decided = rows"
    using l by (induction rule: list_all2_induct) (auto simp: reviewSale_def)
  have d: "\<exists>j. bulkDecision a action tenant r s = Inr (ok, j)" if "(r, ok, m) \<in> set decided" for r ok m
  proof -
    have "\<exists>r0 \<in> set rows. reviewSale a action tenant s r0 = Inr (r, ok, m)" by (rule mapRes_mem [OF h(3) that])
    then show ?thesis by (auto simp: reviewSale_def)
  qed
  show ?thesis
  proof (rule that)
    show "tenantOrThrow s (ac_tenantId a) = Inr tenant" by (rule h(1))
    show "salesForBulkScope (ac_tenantId a) scope s = Inr rows" by (rule h(2))
    show "map fst decided = rows" by (rule m)
    show "\<exists>j. bulkDecision a action tenant r s = Inr (ok, j)" if "(r, ok, m) \<in> set decided" for r ok m by (rule d [OF that])
    show "review = reviewOf E action tenant decided" by (rule h(4))
  qed
qed

text \<open>The two id lists split the reviewed rows.\<close>

lemma reviewOf_ids:
  fixes E action tenant decided
  assumes "distinct (map sa_id (map fst decided))"
  defines "v \<equiv> reviewOf E action tenant decided"
  shows "i \<in> set (bv_eligibleIds v) \<longleftrightarrow> (\<exists>r m. (r, True, m) \<in> set decided \<and> sa_id r = i)"
    "i \<in> set (bv_excludedIds v) \<longleftrightarrow> (\<exists>r m. (r, False, m) \<in> set decided \<and> sa_id r = i)"
    "sorted_wrt (<) (bv_eligibleIds v)" "sorted_wrt (<) (bv_excludedIds v)"
    "set (bv_eligibleIds v) \<inter> set (bv_excludedIds v) = {}"
    "bv_eligibleCount v = length (bv_eligibleIds v)" "bv_excludedCount v = length (bv_excludedIds v)"
    "set (bv_eligibleIds v) \<union> set (bv_excludedIds v) = sa_id ` set (map fst decided)"
    "length (bv_eligibleIds v) + length (bv_excludedIds v) = length decided"
proof -
  let ?P = "\<lambda>(r :: sale, ok, m :: json). ok" and ?N = "\<lambda>(r :: sale, ok, m :: json). \<not> ok"
  have ids: "bv_eligibleIds v = sort (map sa_id (map fst (filter ?P decided)))"
    "bv_excludedIds v = sort (map sa_id (map fst (filter ?N decided)))" by (simp_all add: v_def reviewOf_def Let_def)
  show e: "i \<in> set (bv_eligibleIds v) \<longleftrightarrow> (\<exists>r m. (r, True, m) \<in> set decided \<and> sa_id r = i)" for i
    unfolding ids by force
  show x: "i \<in> set (bv_excludedIds v) \<longleftrightarrow> (\<exists>r m. (r, False, m) \<in> set decided \<and> sa_id r = i)" for i
    unfolding ids by force
  have d: "distinct (map (sa_id \<circ> fst) (filter Q decided))" for Q
    using assms(1) by (simp add: distinct_map_filter)
  show "sorted_wrt (<) (bv_eligibleIds v)" "sorted_wrt (<) (bv_excludedIds v)"
    unfolding ids using d by (simp_all add: strict_sorted_iff)
  have inj: "inj_on (sa_id \<circ> fst) (set decided)" using assms(1) by (simp add: distinct_map)
  show "set (bv_eligibleIds v) \<inter> set (bv_excludedIds v) = {}"
  proof (rule ccontr)
    assume "\<not> ?thesis"
    then obtain i r m r' m' where "(r, True, m) \<in> set decided" "(r', False, m') \<in> set decided" "sa_id r = i" "sa_id r' = i"
      using e x by blast
    then show False using inj_onD [OF inj, of "(r, True, m)" "(r', False, m')"] by simp
  qed
  have n: "length (filter ?P decided) + length (filter ?N decided) = length decided"
    using sum_length_filter_compl [of ?P decided] by (simp add: case_prod_unfold)
  show "bv_eligibleCount v = length (bv_eligibleIds v)" "bv_excludedCount v = length (bv_excludedIds v)"
    "length (bv_eligibleIds v) + length (bv_excludedIds v) = length decided"
    using n by (simp_all add: v_def reviewOf_def Let_def)
  show "set (bv_eligibleIds v) \<union> set (bv_excludedIds v) = sa_id ` set (map fst decided)"
  proof -
    have "set (filter ?P decided) \<union> set (filter ?N decided) = set decided" by auto
    then show ?thesis by (simp only: ids set_sort set_map image_Un [symmetric])
  qed
qed

section \<open>A confirmed review\<close>

text \<open>Who may be moved: for an approval a draft another user entered, when the tenant separates the duties.\<close>

definition bulkEligible :: "actor \<Rightarrow> bulk_action \<Rightarrow> db \<Rightarrow> sale \<Rightarrow> bool" where
  "bulkEligible a action s r \<longleftrightarrow> sa_tenantId r = ac_tenantId a \<and> (case action of
      BulkApprove \<Rightarrow> sa_status r = SaleDraft \<and>
        (\<forall>tenant. tenantOrThrow s (ac_tenantId a) = Inr tenant \<and> tn_requireSeparateApprover tenant \<longrightarrow>
           sa_createdBy r \<noteq> Some (ac_userId a)) \<and> (\<exists>inputs. reviewSaleApprovalInputs r s = Inr (Some inputs))
    | BulkVoid \<Rightarrow> sa_status r \<noteq> SaleVoid \<and>
        (\<forall>e \<in> set (ledger s). le_saleId e = Some (sa_id r) \<and> le_type e = Commission \<longrightarrow> le_status e \<noteq> LeProcessing))"

lemma bulkDecision_eligible:
  assumes "bulkDecision a action tenant r s = Inr (True, j)" "tenantOrThrow s (ac_tenantId a) = Inr tenant"
    "sa_tenantId r = ac_tenantId a"
  shows "bulkEligible a action s r"
  using assms by (cases action; cases "sa_status r")
    (auto simp: bulkDecision_def bulkEligible_def commissionsOf_def list_ex_iff Let_def split: if_splits)

lemma bulkEligible_movable: "bulkEligible a action s r \<Longrightarrow> movable action r"
  by (simp add: bulkEligible_def movable_def split: bulk_action.splits)

lemma insertExecution_new:
  "\<not> list_ex (executionKey a k) (bulkExecutions s) \<Longrightarrow> beginBulkExecution a p scope k h s = Inr ((i, rp), s1) \<Longrightarrow>
   rp = None \<and> i = freshId s \<and> s1 = (drawId s)\<lparr>bulkExecutions := bulkExecutions s @
     [\<lparr>bx_id = freshId s, bx_tenantId = ac_tenantId a, bx_actorUserId = ac_userId a, bx_keyHash = k,
       bx_requestHash = h, bx_status = ''processing'', bx_response = None\<rparr>]\<rparr>"
proof -
  assume n: "\<not> list_ex (executionKey a k) (bulkExecutions s)"
  assume b: "beginBulkExecution a p scope k h s = Inr ((i, rp), s1)"
  have f: "filter (executionKey a k) (bulkExecutions s) = []" using n by (auto simp: list_ex_iff filter_empty_conv)
  show ?thesis using b n f by (auto simp: beginBulkExecution_def insertExecution_def executionKey_def)
qed

lemma approvalInputs_frame:
  assumes "tenants s1 = tenants s" "memberships s1 = memberships s" "plans s1 = plans s"
  shows "reviewSaleApprovalInputs r s1 = reviewSaleApprovalInputs r s"
proof -
  have "uplineChain s1 c d = uplineChain s c d" for c d by (rule uplineChain_frame [OF assms(2)])
  moreover have "findPlan t d s1 = findPlan t d s" for t d by (simp add: findPlan_def assms(3))
  moreover have "tenantOrThrow s1 t = tenantOrThrow s t" for t by (simp add: tenantOrThrow_def findTenant_def assms(1))
  ultimately show ?thesis by (simp add: reviewSaleApprovalInputs_def resolveCommissionInputsOrNull_def cong: option.case_cong)
qed

lemma bulkEligible_frame:
  assumes "ledger s1 = ledger s" "tenants s1 = tenants s" "memberships s1 = memberships s" "plans s1 = plans s"
  shows "bulkEligible a action s1 r = bulkEligible a action s r"
proof -
  have "tenantOrThrow s1 t = tenantOrThrow s t" for t by (simp add: tenantOrThrow_def findTenant_def assms(2))
  then show ?thesis using approvalInputs_frame [OF assms(2-4)] by (simp add: bulkEligible_def assms(1) cong: bulk_action.case_cong)
qed

lemma salesForBulkScope_frame:
  assumes "sales s1 = sales s" "memberships s1 = memberships s" "users s1 = users s"
  shows "salesForBulkScope t scope s1 = salesForBulkScope t scope s"
proof -
  have "searchMatches s1 q = searchMatches s q" for q
    by (rule ext) (simp add: searchMatches_def findMembership_def findUser_def assms(2,3) cong: option.case_cong)
  then have "saleWhereFromFilters s1 t f = saleWhereFromFilters s t f" for f
    by (intro ext) (simp add: saleWhereFromFilters_def)
  then show ?thesis by (simp add: salesForBulkScope_def assms(1) cong: bulk_scope.case_cong)
qed

lemma reviewed_run:
  assumes rv: "calculateBulkReview E a action scope s = Inr review" and bk: "books s"
    and run: "foldRes (bulkStep (saleCapability E (ac_tenantId a)) a action) (bv_eligibleIds review) s = Inr s2"
  shows "bulkExecutions s2 = bulkExecutions s" "\<And>j. j \<notin> set (bv_eligibleIds review) \<Longrightarrow> findSale s2 j = findSale s j"
    "\<And>i. i \<in> set (bv_eligibleIds review) \<Longrightarrow>
       \<exists>x y. findSale s i = Some x \<and> bulkEligible a action s x \<and> findSale s2 i = Some y \<and> movedBy a action y"
    "set (bv_eligibleIds review) \<inter> set (bv_excludedIds review) = {}"
    "bv_eligibleCount review = length (bv_eligibleIds review)" "bv_excludedCount review = length (bv_excludedIds review)"
    "\<exists>rows. salesForBulkScope (ac_tenantId a) scope s = Inr rows \<and>
       set (bv_eligibleIds review) \<union> set (bv_excludedIds review) = sa_id ` set rows"
proof -
  obtain tenant rows decided where d: "tenantOrThrow s (ac_tenantId a) = Inr tenant"
    "salesForBulkScope (ac_tenantId a) scope s = Inr rows" "map fst decided = rows"
    "\<And>r ok m. (r, ok, m) \<in> set decided \<Longrightarrow> \<exists>j. bulkDecision a action tenant r s = Inr (ok, j)"
    "review = reviewOf E action tenant decided"
    using calculateBulkReview_rows [OF rv] by metis
  have rows: "set rows \<subseteq> {r \<in> set (sales s). sa_tenantId r = ac_tenantId a}" "distinct (map sa_id rows)"
    using salesForBulkScope_rows(1,2) [OF d(2)] bk by (simp_all add: books_def idsFresh_def)
  then have dd: "distinct (map sa_id (map fst decided))" using d(3) by simp
  note ids = reviewOf_ids [where decided = decided and E = E and action = action and tenant = tenant, OF dd, folded d(5)]
  have el: "\<exists>x. findSale s i = Some x \<and> bulkEligible a action s x" if i: "i \<in> set (bv_eligibleIds review)" for i
  proof -
    obtain x m where x: "(x, True, m) \<in> set decided" "sa_id x = i" using i unfolding ids(1) by blast
    then have "x \<in> set rows" using d(3) by force
    then have x1: "x \<in> set (sales s)" "sa_tenantId x = ac_tenantId a" using rows(1) by auto
    obtain j where "bulkDecision a action tenant x s = Inr (True, j)" using d(4) [OF x(1)] by blast
    then have "bulkEligible a action s x" using d(1) x1(2) by (rule bulkDecision_eligible)
    then show ?thesis using findSale_row [OF bk x1(1)] x(2) by blast
  qed
  have el': "\<exists>x. findSale s i = Some x \<and> movable action x" if "i \<in> set (bv_eligibleIds review)" for i
    using el [OF that] bulkEligible_movable by blast
  have mv: "bulkExecutions s2 = bulkExecutions s \<and> (\<forall>j. j \<notin> set (bv_eligibleIds review) \<longrightarrow> findSale s2 j = findSale s j) \<and>
    (\<forall>i \<in> set (bv_eligibleIds review). \<exists>r. findSale s2 i = Some r \<and> movedBy a action r)"
  proof (rule bulkSteps_move [OF run bk])
    show "distinct (bv_eligibleIds review)" using ids(3) by (simp add: strict_sorted_iff)
  qed (rule el')
  then show "bulkExecutions s2 = bulkExecutions s" "\<And>j. j \<notin> set (bv_eligibleIds review) \<Longrightarrow> findSale s2 j = findSale s j" by simp_all
  show "\<exists>x y. findSale s i = Some x \<and> bulkEligible a action s x \<and> findSale s2 i = Some y \<and> movedBy a action y"
    if "i \<in> set (bv_eligibleIds review)" for i using el [OF that] mv that by blast
  show "set (bv_eligibleIds review) \<inter> set (bv_excludedIds review) = {}"
    "bv_eligibleCount review = length (bv_eligibleIds review)" "bv_excludedCount review = length (bv_excludedIds review)"
    by (fact ids)+
  show "\<exists>rows. salesForBulkScope (ac_tenantId a) scope s = Inr rows \<and>
      set (bv_eligibleIds review) \<union> set (bv_excludedIds review) = sa_id ` set rows"
    using d(2,3) ids(8) by auto
qed

text \<open>
  C8: A confirmation under a key not used before that reports success has reviewed exactly the sales of its
  scope, split into the sales it lists as done and those it lists as not eligible, with the counts of its token;
  every sale it lists as done belonged to the tenant and was eligible, and is now approved by the actor or void;
  every other sale is as it was.
\<close>

theorem bulk_moves_reviewed_sales:
  assumes run: "bulkTx openToken E a p scope k h tok (saleCapability E (ac_tenantId a)) s = Inr (BulkDone r, s')"
    and bk: "books s" and new: "\<not> list_ex (executionKey a k) (bulkExecutions s)"
  shows "(\<exists>rows. salesForBulkScope (ac_tenantId a) scope s = Inr rows \<and>
        set (br_succeededIds r) \<union> set (br_failedIds r) = sa_id ` set rows) \<and>
     set (br_succeededIds r) \<inter> set (br_failedIds r) = {} \<and> br_action r = bk_action p \<and>
     length (br_succeededIds r) = bk_eligibleCount p \<and> length (br_failedIds r) = bk_excludedCount p \<and>
     (\<forall>i \<in> set (br_succeededIds r). \<exists>x y. findSale s i = Some x \<and> bulkEligible a (bk_action p) s x \<and>
        findSale s' i = Some y \<and> movedBy a (bk_action p) y) \<and>
     (\<forall>i. i \<notin> set (br_succeededIds r) \<longrightarrow> findSale s' i = findSale s i)"
  using run
proof (cases rule: bulkTx_cases)
  case (replay i r')
  then show ?thesis using insertExecution_new [OF new replay(1)] by simp
next
  case (run i s1 s2 review)
  note s1 = insertExecution_new [OF new run(1), THEN conjunct2, THEN conjunct2]
  have fr: "sales s1 = sales s" "ledger s1 = ledger s" "tenants s1 = tenants s" "memberships s1 = memberships s"
    "plans s1 = plans s" "users s1 = users s" by (simp_all add: s1 drawId_def)
  have b1: "books s1" using beginBulkExecution_beside [OF run(1)] bk by (simp add: besideLedger_def)
  note rr = reviewed_run [OF run(2) b1 run(5)]
  have r: "r = bulkResponse (bk_action p) review" using run(7) by simp
  have s': "findSale s' j = findSale s2 j" for j
    by (rule findSale_sales) (simp add: completeBulkExecution_beside [OF run(6)])
  have s0: "findSale s1 j = findSale s j" for j by (rule findSale_sales [OF fr(1)])
  have el: "bulkEligible a action s1 x = bulkEligible a action s x" for action x
    by (rule bulkEligible_frame) (fact fr)+
  have "\<forall>i \<in> set (bv_eligibleIds review). \<exists>x y. findSale s i = Some x \<and> bulkEligible a (bk_action p) s x \<and>
        findSale s' i = Some y \<and> movedBy a (bk_action p) y"
    using rr(3) unfolding s' s0 el by blast
  moreover have "\<forall>i. i \<notin> set (bv_eligibleIds review) \<longrightarrow> findSale s' i = findSale s i" using rr(2) by (simp add: s' s0)
  ultimately show ?thesis
    using rr(4-7) run(3) salesForBulkScope_frame [OF fr(1,4,6)] by (simp add: r bulkResponse_def bulkReviewMatchesToken_def)
qed simp

section \<open>Replay\<close>

lemma mapOption_map: "(\<And>x. x \<in> set xs \<Longrightarrow> f (g x) = Some x) \<Longrightarrow> mapOption f (map g xs) = Some xs"
  by (induction xs) auto

lemma sortedUniqueUuidList_ids [simp]: "ascendingUuids ids \<Longrightarrow> sortedUniqueUuidList (Some (JArr (map JId ids))) = Some ids"
  by (simp add: sortedUniqueUuidList_def mapOption_map)

lemma failureId_failureJson [simp]: "uuidPattern i \<Longrightarrow> failureId (failureJson i) = Some i"
  by (simp add: failureId_def failureJson_def guardSome_def hasExactObjectKeys_def)

text \<open>A response that fits its token and its scope is read back as it was written.\<close>

lemma validated_responseJson:
  assumes "br_action r = bk_action p" "ascendingUuids (br_succeededIds r)" "ascendingUuids (br_failedIds r)"
    "length (br_succeededIds r) = bk_eligibleCount p" "length (br_failedIds r) = bk_excludedCount p"
    "set (br_succeededIds r) \<inter> set (br_failedIds r) = {}" "int (length (br_succeededIds r)) \<le> MAX_SAFE_INTEGER"
    "\<And>ids. scope = BulkSelected ids \<Longrightarrow> sort (br_succeededIds r @ br_failedIds r) = ids"
  shows "validatedBulkExecutionResponse (Some (responseJson r)) p scope = Some r"
proof -
  let ?fs = "[(''action'', JStr (actionText (br_action r))), (''succeeded'', JNum (int (length (br_succeededIds r)))),
       (''succeededIds'', JArr (map JId (br_succeededIds r))), (''failed'', JArr (map failureJson (br_failedIds r)))] @
      (if br_failedIds r = [] then []
       else [(''retryScope'', JObj [(''mode'', JStr ''selected''), (''ids'', JArr (map JId (br_failedIds r)))])])"
  have f: "mapOption failureId (map failureJson (br_failedIds r)) = Some (br_failedIds r)"
    using assms(3) by (intro mapOption_map) (simp add: ascendingUuids_def list_all_iff)
  have k: "map_of ?fs ''failed'' = Some (JArr (map failureJson (br_failedIds r)))" "map_of ?fs ''action'' = Some (JStr (actionText (br_action r)))"
    "map_of ?fs ''succeeded'' = Some (JNum (int (length (br_succeededIds r))))"
    "map_of ?fs ''succeededIds'' = Some (JArr (map JId (br_succeededIds r)))" by simp_all
  have keys: "hasExactObjectKeys ?fs ([''action'', ''succeeded'', ''succeededIds'', ''failed''] @
      (if map failureJson (br_failedIds r) \<noteq> [] then [''retryScope''] else []))"
    by (simp add: hasExactObjectKeys_def)
  have retry: "br_failedIds r = [] \<or> retryScopeOk (map_of ?fs ''retryScope'') (br_failedIds r)"
    using assms(3) by (simp add: retryScopeOk_def hasExactObjectKeys_def)
  have sc: "case scope of BulkSelected ids \<Rightarrow> sort (br_succeededIds r @ br_failedIds r) = ids | BulkAllResults x \<Rightarrow> True"
    using assms(8) by (cases scope) simp_all
  have x: "\<not> list_ex (\<lambda>i. i \<in> set (br_succeededIds r)) (br_failedIds r)" "sorted_wrt (<) (br_failedIds r)"
    using assms(3,6) by (auto simp: list_ex_iff ascendingUuids_def)
  have j: "responseJson r = JObj ?fs" by (simp only: responseJson_def)
  show ?thesis
    unfolding validatedBulkExecutionResponse_def j bind.bind_lunit fieldsOf.simps k itemsOf.simps f
    using keys retry sc x assms(1,2,4,5,7) by (simp add: guardSome_def)
qed

lemma beginBulkExecution_replay:
  assumes "beginBulkExecution a p scope k h s = Inr ((i, Some r), s')"
  shows "s' = s" "bulkExecutions t = bulkExecutions s \<Longrightarrow> beginBulkExecution a p scope k h t = Inr ((i, Some r), t)"
    "bulkExecutions t = bulkExecutions s \<Longrightarrow> h2 \<noteq> h \<Longrightarrow> beginBulkExecution a p scope k h2 t = Inl idempotencyConflict"
proof -
  have e: "list_ex (executionKey a k) (bulkExecutions s)"
  proof (rule ccontr)
    assume n: "\<not> list_ex (executionKey a k) (bulkExecutions s)"
    show False using insertExecution_new [OF n assms] by simp
  qed
  then obtain x where x: "filter (executionKey a k) (bulkExecutions s) = [x]" "bx_requestHash x = h" "bx_status x = ''completed''"
    "validatedBulkExecutionResponse (bx_response x) p scope = Some r" "bx_id x = i" "s' = s"
    using assms by (auto simp: beginBulkExecution_def insertExecution_def split: list.splits if_splits option.splits)
  show "s' = s" by (fact x)
  show "beginBulkExecution a p scope k h t = Inr ((i, Some r), t)" if "bulkExecutions t = bulkExecutions s"
    using x e that by (simp add: beginBulkExecution_def insertExecution_def)
  show "beginBulkExecution a p scope k h2 t = Inl idempotencyConflict" if "bulkExecutions t = bulkExecutions s" "h2 \<noteq> h"
    using x e that by (simp add: beginBulkExecution_def insertExecution_def)
qed

lemma filter_updateWhere: "(\<And>x. P (f x) = P x) \<Longrightarrow> filter P (updateWhere Q f xs) = updateWhere Q f (filter P xs)"
  by (induction xs) (simp_all add: updateWhere_def)

text \<open>A completed first run can be replayed.\<close>

lemma completed_replay:
  assumes new: "\<not> list_ex (executionKey a k) (bulkExecutions s)"
    and b: "beginBulkExecution a p scope k h s = Inr ((i, None), s1)" and fr: "bulkExecutions s2 = bulkExecutions s1"
    and c: "completeBulkExecution i r s2 = Inr s'" and v: "validatedBulkExecutionResponse (Some (responseJson r)) p scope = Some r"
  shows "beginBulkExecution a p scope k h s' = Inr ((i, Some r), s')"
proof -
  let ?new = "\<lparr>bx_id = freshId s, bx_tenantId = ac_tenantId a, bx_actorUserId = ac_userId a, bx_keyHash = k,
       bx_requestHash = h, bx_status = ''processing'', bx_response = None\<rparr>"
  let ?f = "\<lambda>x. x\<lparr>bx_status := ''completed'', bx_response := Some (responseJson r)\<rparr>"
  let ?hit = "\<lambda>x. bx_id x = i \<and> bx_status x = ''processing'' \<and> bx_response x = None"
  have s1: "i = freshId s" "bulkExecutions s1 = bulkExecutions s @ [?new]"
    using insertExecution_new [OF new b] by (simp_all add: drawId_def)
  have s': "bulkExecutions s' = updateWhere ?hit ?f (bulkExecutions s1)"
    using c fr by (auto simp: completeBulkExecution_def Let_def split: if_splits)
  have "filter (executionKey a k) (bulkExecutions s) = []" using new by (auto simp: list_ex_iff filter_empty_conv)
  then have "filter (executionKey a k) (bulkExecutions s1) = [?new]" by (simp add: s1 executionKey_def)
  moreover have "filter (executionKey a k) (bulkExecutions s') = updateWhere ?hit ?f (filter (executionKey a k) (bulkExecutions s1))"
    unfolding s' by (rule filter_updateWhere) (simp add: executionKey_def)
  ultimately have one: "filter (executionKey a k) (bulkExecutions s') = [?f ?new]" by (simp add: updateWhere_def s1(1))
  then have "?f ?new \<in> set (filter (executionKey a k) (bulkExecutions s'))" by simp
  then have "list_ex (executionKey a k) (bulkExecutions s')" by (simp only: set_filter mem_Collect_eq list_ex_iff) blast
  then show ?thesis using one v s1(1) by (simp add: beginBulkExecution_def insertExecution_def)
qed

lemma beginBulkExecution_first:
  "beginBulkExecution a p scope k h s = Inr ((i, None), s1) \<Longrightarrow> \<not> list_ex (executionKey a k) (bulkExecutions s)"
  by (auto simp: beginBulkExecution_def insertExecution_def split: list.splits if_splits option.splits)

lemma sorted_ids_unique: "sorted_wrt (<) (xs :: nat list) \<Longrightarrow> sorted_wrt (<) ys \<Longrightarrow> set xs = set ys \<Longrightarrow> xs = ys"
  by (simp add: strict_sorted_iff sorted_distinct_set_unique)

text \<open>The response of a reviewed run fits its token and its scope.\<close>

lemma reviewed_response_valid:
  assumes rv: "calculateBulkReview E a (bk_action p) scope s = Inr review" "bulkReviewMatchesToken review p"
    and bk: "books s" and norm: "scope = normalizeBulkScope sc" and pat: "\<forall>x \<in> set (sales s). uuidPattern (sa_id x)"
    and small: "int (bk_eligibleCount p) \<le> MAX_SAFE_INTEGER"
  shows "validatedBulkExecutionResponse (Some (responseJson (bulkResponse (bk_action p) review))) p scope =
    Some (bulkResponse (bk_action p) review)"
proof -
  obtain tenant rows decided where d: "tenantOrThrow s (ac_tenantId a) = Inr tenant"
    "salesForBulkScope (ac_tenantId a) scope s = Inr rows" "map fst decided = rows"
    "\<And>r ok m. (r, ok, m) \<in> set decided \<Longrightarrow> \<exists>j. bulkDecision a (bk_action p) tenant r s = Inr (ok, j)"
    "review = reviewOf E (bk_action p) tenant decided"
    using calculateBulkReview_rows [OF rv(1)] by metis
  note rows = salesForBulkScope_rows [OF d(2)]
  have dr: "distinct (map sa_id rows)" using rows(2) bk by (simp add: books_def idsFresh_def)
  then have dd: "distinct (map sa_id (map fst decided))" using d(3) by simp
  note ids = reviewOf_ids [where decided = decided and E = E and action = "bk_action p" and tenant = tenant, OF dd, folded d(5)]
  have u: "set (bv_eligibleIds review) \<union> set (bv_excludedIds review) = sa_id ` set rows" using ids(8) d(3) by simp
  have p: "uuidPattern i" if "i \<in> set (bv_eligibleIds review) \<union> set (bv_excludedIds review)" for i
    using that rows(1) pat unfolding u by auto
  have n: "length (bv_eligibleIds review) = bk_eligibleCount p" "length (bv_excludedIds review) = bk_excludedCount p"
    using rv(2) ids(6,7) by (simp_all add: bulkReviewMatchesToken_def)
  have sc: "sort (bv_eligibleIds review @ bv_excludedIds review) = xs" if "scope = BulkSelected xs" for xs
  proof (rule sorted_distinct_set_unique)
    have sd: "sorted xs" "distinct xs" using norm that by (auto simp: normalizeBulkScope_def split: bulk_scope.splits)
    show "sorted xs" "distinct xs" by (fact sd)+
    show "distinct (sort (bv_eligibleIds review @ bv_excludedIds review))"
      using ids(3-5) by (simp add: strict_sorted_iff)
    have "sa_id ` set rows \<subseteq> set xs" "length rows = length xs" using rows(3) [OF that] by auto
    moreover have "card (sa_id ` set rows) = length rows" using distinct_card [OF dr] by simp
    moreover have "card (set xs) = length xs" by (rule distinct_card [OF sd(2)])
    ultimately have "sa_id ` set rows = set xs" by (metis List.finite_set card_subset_eq)
    then show "set (sort (bv_eligibleIds review @ bv_excludedIds review)) = set xs" using u by simp
  qed simp
  show ?thesis
  proof (rule validated_responseJson)
    show "ascendingUuids (br_succeededIds (bulkResponse (bk_action p) review))"
      "ascendingUuids (br_failedIds (bulkResponse (bk_action p) review))"
      using ids(3,4) p by (simp_all add: bulkResponse_def ascendingUuids_def list_all_iff)
  qed (use ids(5) n small sc in \<open>simp_all add: bulkResponse_def\<close>)
qed

text \<open>
  C9: Once a confirmation has been answered, repeating the request with its key at any later time returns the
  same answer and writes nothing, while another request under that key is refused as a conflict.
\<close>

theorem bulk_replays:
  assumes run0: "bulkTx openToken E a p scope k h tok (saleCapability E (ac_tenantId a)) s = Inr (BulkDone r, s')"
    and bk: "books s" and norm: "scope = normalizeBulkScope sc" and pat: "\<forall>x \<in> set (sales s). uuidPattern (sa_id x)"
    and small: "int (bk_eligibleCount p) \<le> MAX_SAFE_INTEGER" and kept: "bulkExecutions t = bulkExecutions s'"
  shows "bulkTx openToken E2 a p scope k h tok2 cap t = Inr (BulkDone r, t) \<and>
    (h2 \<noteq> h \<longrightarrow> bulkTx openToken E2 a p scope k h2 tok2 cap t = Inl idempotencyConflict)"
proof -
  have "\<exists>i. beginBulkExecution a p scope k h s' = Inr ((i, Some r), s')"
    using run0
  proof (cases rule: bulkTx_cases)
    case (replay i r')
    then show ?thesis using beginBulkExecution_replay [OF replay(1)] by auto
  next
    case (run i s1 s2 review)
    note new = beginBulkExecution_first [OF run(1)]
    have s1: "books s1" "sales s1 = sales s"
      using beginBulkExecution_beside [OF run(1)] bk insertExecution_new [OF new run(1)] by (simp_all add: besideLedger_def drawId_def)
    then have v: "validatedBulkExecutionResponse (Some (responseJson (bulkResponse (bk_action p) review))) p scope =
        Some (bulkResponse (bk_action p) review)"
      using pat by (intro reviewed_response_valid [OF run(2,3) s1(1) norm _ small]) simp
    have moved: "bulkExecutions s2 = bulkExecutions s1"
      by (rule reviewed_run(1) [OF run(2) s1(1) run(5)])
    show ?thesis using completed_replay [OF new run(1) moved run(6) v] run(7) by auto
  qed simp
  then obtain i where "beginBulkExecution a p scope k h s' = Inr ((i, Some r), s')" by blast
  then show ?thesis using beginBulkExecution_replay(2,3) [OF _ kept] by (simp add: bulkTx_def)
qed

section \<open>A confirmed bulk void\<close>

definition demo_bulk_env :: env where
  "demo_bulk_env = demo_env\<lparr>env_sha256 := (\<lambda>j. replicate 64 (CHR ''a''))\<rparr>"

definition demo_bulk_db :: db where
  "demo_bulk_db = demo_db\<lparr>uuidGen := (\<lambda>n. n + 400000000000000000000000), sales := [demo_sale\<lparr>sa_id := 302240678275694148452353\<rparr>]\<rparr>"

definition demo_bulk_actor :: actor where
  "demo_bulk_actor = \<lparr>ac_userId = 3, ac_tenantId = 1\<rparr>"

definition demo_bulk_scope :: bulk_scope where
  "demo_bulk_scope = normalizeBulkScope (BulkSelected [302240678275694148452353])"

definition demo_bulk_token :: bulk_token where
  "demo_bulk_token = \<lparr>bk_actorUserId = 3, bk_tenantId = 1, bk_action = BulkVoid, bk_scopeFingerprint = replicate 64 (CHR ''a''),
     bk_eligibleCount = 1, bk_excludedCount = 0, bk_totals = [(''USD'', ''100000'')],
     bk_selectionFingerprint = replicate 64 (CHR ''a''), bk_expiresAt = isoString 1700000300000\<rparr>"

definition demo_bulk_run :: "db \<Rightarrow> (bulk_outcome \<times> db) res" where
  "demo_bulk_run = bulkTx (\<lambda>t. Some demo_bulk_token) demo_bulk_env demo_bulk_actor demo_bulk_token demo_bulk_scope ''key'' ''request''
     ''token'' (saleCapability demo_bulk_env 1)"

lemma demo_bulk_verified:
  "verifyBulkPreviewToken (\<lambda>t. Some demo_bulk_token) ''token'' demo_bulk_actor (Some 1700000000000) = Inr demo_bulk_token"
  by (simp add: verifyBulkPreviewToken_def BULK_PREVIEW_TOKEN_MAX_LENGTH_def demo_bulk_token_def demo_bulk_actor_def sha256Hex_def
      hasCanonicalTotals_def upperCode_def canonicalPositive_def isAsciiDigit_def parseIso_isoString maxTime_def list_all_iff)

lemmas demo_bulk_defs = demo_bulk_db_def demo_bulk_env_def demo_bulk_actor_def demo_bulk_scope_def normalizeBulkScope_def demo_db_def
  demo_sale_def demo_tenant_def

lemma demo_bulk_review:
  "calculateBulkReview demo_bulk_env demo_bulk_actor BulkVoid demo_bulk_scope
     (demo_bulk_db\<lparr>uuidNext := n, bulkExecutions := xs\<rparr>) =
   Inr \<lparr>bv_eligibleIds = [302240678275694148452353], bv_excludedIds = [], bv_eligibleCount = 1, bv_excludedCount = 0,
     bv_totals = [(''USD'', 100000)], bv_selectionFingerprint = replicate 64 (CHR ''a'')\<rparr>"
  by (simp add: calculateBulkReview_def demo_bulk_defs tenantOrThrow_def findTenant_def salesForBulkScope_def findManyBy_def
      reviewSale_def upperCode_def bulkDecision_def commissionsOf_def reviewOf_def totalsByCurrency_def bulkSelectionFingerprint_def
      sumWhere_def del: replicate_Suc)

lemma demo_bulk_void:
  "\<exists>s'. voidSaleInTx demo_bulk_env 302240678275694148452353 (Some 3) (Some 1) (demo_bulk_db\<lparr>uuidNext := n, bulkExecutions := xs\<rparr>) =
     Inr (\<lparr>vo_voided = True, vo_reversalCount = 0\<rparr>, s') \<and> bulkExecutions s' = xs"
  by (simp add: voidSaleInTx_def lockSale_def demo_bulk_defs voidableEntries_def findManyBy_def)

lemma demo_bulk_begin:
  "beginBulkExecution demo_bulk_actor demo_bulk_token demo_bulk_scope ''key'' ''request'' demo_bulk_db =
    Inr ((400000000000000000000000, None), demo_bulk_db\<lparr>uuidNext := 1, bulkExecutions := [\<lparr>bx_id = 400000000000000000000000, bx_tenantId = 1, bx_actorUserId = 3,
      bx_keyHash = ''key'', bx_requestHash = ''request'', bx_status = ''processing'', bx_response = None\<rparr>]\<rparr>)"
  by (simp add: beginBulkExecution_def insertExecution_def executionKey_def demo_bulk_defs drawId_def freshId_def)

lemma bulkTx_run:
  assumes "beginBulkExecution a p scope k h s = Inr ((i, None), s1)"
    "verifyBulkPreviewToken openToken tok a (Some (env_now E)) = Inr q" "bk_scopeFingerprint p = bulkScopeFingerprint E scope"
    "calculateBulkReview E a (bk_action p) scope s1 = Inr review" "bulkReviewMatchesToken review p"
    "sm_lockSales cap (bv_eligibleIds review) s1 = bv_eligibleIds review"
    "foldRes (bulkStep cap a (bk_action p)) (bv_eligibleIds review) s1 = Inr s2"
    "completeBulkExecution i (bulkResponse (bk_action p) review) s2 = Inr s'"
  shows "bulkTx openToken E a p scope k h tok cap s = Inr (BulkDone (bulkResponse (bk_action p) review), s')"
  using assms by (simp add: bulkTx_def)

lemma demo_bulk_done:
  "\<exists>s'. demo_bulk_run demo_bulk_db =
     Inr (BulkDone \<lparr>br_action = BulkVoid, br_succeededIds = [302240678275694148452353], br_failedIds = []\<rparr>, s')"
proof -
  let ?x = "\<lparr>bx_id = 400000000000000000000000, bx_tenantId = 1, bx_actorUserId = 3,
      bx_keyHash = ''key'', bx_requestHash = ''request'', bx_status = ''processing'', bx_response = None\<rparr>"
  let ?s1 = "demo_bulk_db\<lparr>uuidNext := 1, bulkExecutions := [?x]\<rparr>"
  obtain s2 where s2: "voidSaleInTx demo_bulk_env 302240678275694148452353 (Some 3) (Some 1) ?s1 =
     Inr (\<lparr>vo_voided = True, vo_reversalCount = 0\<rparr>, s2)" "bulkExecutions s2 = [?x]"
    using demo_bulk_void [where n = 1 and xs = "[?x]"] by blast
  have a: "bk_action demo_bulk_token = BulkVoid" "bk_scopeFingerprint demo_bulk_token = bulkScopeFingerprint demo_bulk_env demo_bulk_scope"
    "env_now demo_bulk_env = 1700000000000" "ac_userId demo_bulk_actor = 3"
    by (simp_all add: demo_bulk_token_def bulkScopeFingerprint_def demo_bulk_env_def demo_env_def del: replicate_Suc)
      (simp add: demo_bulk_actor_def)
  let ?v = "\<lparr>bv_eligibleIds = [302240678275694148452353], bv_excludedIds = [], bv_eligibleCount = 1,
     bv_excludedCount = 0, bv_totals = [(''USD'', 100000)], bv_selectionFingerprint = replicate 64 (CHR ''a'')\<rparr>"
  have m: "bulkReviewMatchesToken ?v demo_bulk_token"
  proof -
    have "show_int 100000 = ''100000''" by (simp add: show_int_def show_nat.simps char_of_def bit_Suc_0_iff)
    then show ?thesis by (simp add: bulkReviewMatchesToken_def demo_bulk_token_def bulkTotalTexts_def del: replicate_Suc)
  qed
  have l: "sm_lockSales (saleCapability demo_bulk_env 1) (bv_eligibleIds ?v) ?s1 = bv_eligibleIds ?v"
    by (simp add: saleCapability_def lockSalesForTenant_def demo_bulk_defs findManyBy_def)
  have f: "foldRes (bulkStep (saleCapability demo_bulk_env 1) demo_bulk_actor (bk_action demo_bulk_token)) (bv_eligibleIds ?v) ?s1 = Inr s2"
    using s2 by (simp add: bulkStep_def saleCapability_def a)
  obtain s' where c: "completeBulkExecution 400000000000000000000000 (bulkResponse (bk_action demo_bulk_token) ?v) s2 = Inr s'"
    by (simp add: completeBulkExecution_def s2(2) countWhere_def)
  have v: "verifyBulkPreviewToken (\<lambda>t. Some demo_bulk_token) ''token'' demo_bulk_actor (Some (env_now demo_bulk_env)) = Inr demo_bulk_token"
    unfolding a by (rule demo_bulk_verified)
  have r: "calculateBulkReview demo_bulk_env demo_bulk_actor (bk_action demo_bulk_token) demo_bulk_scope ?s1 = Inr ?v"
    unfolding a by (rule demo_bulk_review)
  show ?thesis
    using bulkTx_run [OF demo_bulk_begin v a(2) r m l f c] by (auto simp: demo_bulk_run_def bulkResponse_def a)
qed

lemma demo_bulk_books: "books demo_bulk_db"
proof -
  have "reconciled demo_bulk_db"
    by (simp add: reconciled_def colSum_def summaryRow_def ledgerSum_def demo_bulk_db_def demo_db_def)
  moreover have "linked demo_bulk_db" by (simp add: linked_def demo_bulk_db_def demo_db_def)
  moreover have "idsFresh demo_bulk_db" by (simp add: idsFresh_def demo_bulk_db_def demo_db_def inj_def)
  moreover have "settlementOk demo_bulk_db"
    by (simp add: settlementOk_def settlementLinks_def settlementIds_def demo_bulk_db_def demo_db_def)
  ultimately show ?thesis by (rule booksI)
qed

lemma demo_bulk_pattern: "\<forall>x \<in> set (sales demo_bulk_db). uuidPattern (sa_id x)"
  by (simp add: demo_bulk_db_def uuidPattern_def)

text \<open>Witness: the one draft of the demonstration company is voided.\<close>

lemma bulk_moves_reviewed_sales_witness:
  "\<exists>s' y. demo_bulk_run demo_bulk_db = Inr (BulkDone \<lparr>br_action = BulkVoid, br_succeededIds = [302240678275694148452353], br_failedIds = []\<rparr>, s') \<and>
     findSale s' 302240678275694148452353 = Some y \<and> sa_status y = SaleVoid"
proof -
  obtain s' where s': "demo_bulk_run demo_bulk_db =
     Inr (BulkDone \<lparr>br_action = BulkVoid, br_succeededIds = [302240678275694148452353], br_failedIds = []\<rparr>, s')"
    using demo_bulk_done by blast
  have t: "ac_tenantId demo_bulk_actor = 1" "bk_action demo_bulk_token = BulkVoid" "bulkExecutions demo_bulk_db = []"
    by (simp_all add: demo_bulk_actor_def demo_bulk_token_def demo_bulk_db_def demo_db_def)
  show ?thesis
    using s' bulk_moves_reviewed_sales [OF s' [unfolded demo_bulk_run_def t(1) [symmetric]] demo_bulk_books]
    by (auto simp: t movedBy_simps)
qed

text \<open>Witness: the repetition of that request.\<close>

lemma bulk_replays_witness:
  "\<exists>s' r. demo_bulk_run demo_bulk_db = Inr (BulkDone r, s') \<and> demo_bulk_run s' = Inr (BulkDone r, s')"
proof -
  obtain s' r where s': "demo_bulk_run demo_bulk_db = Inr (BulkDone r, s')" using demo_bulk_done by blast
  have t: "ac_tenantId demo_bulk_actor = 1" "int (bk_eligibleCount demo_bulk_token) \<le> MAX_SAFE_INTEGER"
    by (simp_all add: demo_bulk_actor_def demo_bulk_token_def MAX_SAFE_INTEGER_def)
  show ?thesis
    using s' bulk_replays [OF s' [unfolded demo_bulk_run_def t(1) [symmetric]] demo_bulk_books demo_bulk_scope_def
      demo_bulk_pattern t(2), of s'] t(1) by (auto simp: demo_bulk_run_def)
qed

end
