(* ===== verification/Request_Theorems.thy ===== *)
theory Request_Theorems
  imports Service_Steps Payout_Theorems
begin

text \<open>
  When a member's payout request is filed: the exact condition, and what the filing writes.  The active key of
  a payout is the second unique index of the table; that it names an open payout of its own member is the
  invariant under which a filing cannot meet it.
\<close>

section \<open>Active keys\<close>

definition activeKeysOk :: "db \<Rightarrow> bool" where
  "activeKeysOk s \<longleftrightarrow> (\<forall>p \<in> set (payouts s). \<forall>k. po_activeKey p = Some k \<longrightarrow>
     openPayout p \<and> fst k = po_tenantId p \<and> fst (snd k) = po_membershipId p)"

definition openFor :: "db \<Rightarrow> uuid \<Rightarrow> uuid \<Rightarrow> payout set" where
  "openFor s t m = {p \<in> set (payouts s). po_tenantId p = t \<and> po_membershipId p = m \<and> openPayout p}"

lemma set_openRequests: "set (openRequests s t m) = openFor s t m"
  by (auto simp: openRequests_def openFor_def openPayout_def)

lemma existingRequest_None: "existingRequest (openRequests s t m) = None \<longleftrightarrow> openFor s t m = {}"
proof -
  have "existingRequest xs = None \<longleftrightarrow> xs = []" for xs
    by (auto simp: existingRequest_def find_None_iff split: option.splits list.splits)
  then show ?thesis by (simp add: set_openRequests [symmetric])
qed

lemma existingRequest_Some: "existingRequest (openRequests s t m) = Some p \<Longrightarrow> p \<in> openFor s t m"
  unfolding set_openRequests [symmetric]
  by (auto simp: existingRequest_def split: option.splits list.splits dest: find_SomeD)

lemma requested_index_free:
  assumes "activeKeysOk s" "openFor s t m = {}"
  shows "\<not> payoutIndexTaken (requestedPayout E t m period net s) (payouts s)"
proof -
  have "\<not> (po_activeKey q = Some (t, m, period) \<or> openPayout q \<and> po_tenantId q = t \<and> po_membershipId q = m)"
    if "q \<in> set (payouts s)" for q
    using assms that by (fastforce simp: activeKeysOk_def openFor_def)
  then show ?thesis
    by (auto simp: payoutIndexTaken_def requestedPayout_def newPayout_def payoutActiveKey_def openPayout_def list_ex_iff)
qed

text \<open>What a member must show; the second factor is not asked for here.\<close>

definition readyToRequest :: "env \<Rightarrow> db \<Rightarrow> tenant \<Rightarrow> uuid \<Rightarrow> bool \<Rightarrow> bool" where
  "readyToRequest E s tenant m emailVerified \<longleftrightarrow>
     (let i = requestInput emailVerified (netPayable s (tn_id tenant) m) tenant None (readInput s (tn_id tenant) m)
      in emailVerified \<and> 0 < netPayable s (tn_id tenant) m \<and> tn_payoutMinCents tenant \<le> netPayable s (tn_id tenant) m \<and>
         (\<forall>key. \<exists>d. filter (\<lambda>c. md_key c = key) (rin_manualChecks i) = [d] \<and> controlApproved (env_now E) d) \<and>
         destinationVerified (rin_destination i))"

lemma requestable_readyToRequest:
  "rd_requestable (evaluatePayoutReadiness (env_now E)
     (requestInput v (netPayable s (tn_id tenant) m) tenant None (readInput s (tn_id tenant) m))) \<longleftrightarrow> readyToRequest E s tenant m v"
  by (simp add: requestable_iff readyToRequest_def requestInput_def readinessInput_def Let_def mfaPasses_def)

text \<open>
  C10: A request of a member of the tenant is filed exactly when the compliance controls do not block the member,
  no payout of the member is open, the e-mail address is verified, what is owed is positive and reaches the tenant's
  minimum, every control is approved and the destination verified.  Filing appends one requested payout worth what
  is owed and writes nothing else; otherwise nothing is written, and an answer names an open payout of the member.
\<close>

theorem request_payout_exact:
  assumes keys: "activeKeysOk s" and mem: "requestMembers s t m = at # rest" and ten: "tenantOrThrow s t = Inr tenant"
  shows "((\<exists>r s'. requestPayoutTx E m t s = Inr (r, s') \<and> rq_created r) \<longleftrightarrow>
      runtimePayoutBlock E s t m = None \<and> openFor s t m = {} \<and> readyToRequest E s tenant m (at \<noteq> None)) \<and>
    (\<forall>r s'. requestPayoutTx E m t s = Inr (r, s') \<longrightarrow>
      (if rq_created r
       then s' = (drawId s)\<lparr>payouts := payouts s @ [requestedPayout E t m (env_month E (env_now E) (tn_timezone tenant)) (netPayable s t m) s]\<rparr>
         \<and> rq_requestedCents r = show_int (netPayable s t m)
       else s' = s \<and> (\<exists>p \<in> openFor s t m. rq_id r = po_id p \<and> rq_status r = po_status p)))"
proof -
  have tid: "tn_id tenant = t" using ten by (auto simp: tenantOrThrow_def findTenant_def dest: find_SomeD)
  let ?row = "requestedPayout E t m (env_month E (env_now E) (tn_timezone tenant)) (netPayable s t m) s"
  show ?thesis
  proof (cases "runtimePayoutBlock E s t m")
    case (Some b)
    then show ?thesis using mem by (simp add: requestPayoutTx_def)
  next
    case None
    note free = requested_index_free [OF keys, of t m E]
    have total: "po_totalCents ?row = netPayable s t m" by (simp add: requestedPayout_def)
    show ?thesis
    proof (cases "existingRequest (openRequests s t m)")
      case (Some p)
      then show ?thesis using None mem ten existingRequest_Some [OF Some] by (auto simp: requestPayoutTx_def Let_def)
    next
      case no: None
      then have o: "openFor s t m = {}" by (simp add: existingRequest_None)
      have rd: "rd_requestable (evaluatePayoutReadiness (env_now E)
          (requestInput (at \<noteq> None) (netPayable s t m) tenant None (readInput s t m))) \<longleftrightarrow> readyToRequest E s tenant m (at \<noteq> None)"
        using requestable_readyToRequest [of E "at \<noteq> None" s tenant m] by (simp add: tid)
      show ?thesis
        using None mem ten no rd free [OF o] o total by (auto simp: requestPayoutTx_def Let_def)
    qed
  qed
qed

text \<open>Witness: member 10, ready and owed 50.00, files a request for it.\<close>

lemma request_payout_exact_witness:
  "\<exists>r s'. requestPayoutTx demo_env 10 1 demo_owed = Inr (r, s') \<and> rq_created r \<and> map po_totalCents (payouts s') = [5000]"
proof -
  have keys: "activeKeysOk demo_owed" and free: "openFor demo_owed 1 10 = {}" and none: "payouts demo_owed = []"
    by (simp_all add: activeKeysOk_def openFor_def demo_owed_def demo_ready_def demo_db_def)
  have mem: "requestMembers demo_owed 1 10 = Some 0 # []"
    by (simp add: requestMembers_def recipientsOf_def demo_owed_def demo_ready_def demo_db_def demo_member_def demo_user_def)
  have ten: "tenantOrThrow demo_owed 1 = Inr demo_tenant"
    by (simp add: tenantOrThrow_def findTenant_def demo_owed_def demo_ready_def demo_db_def demo_tenant_def)
  have net: "netPayable demo_owed 1 10 = 5000"
    by (simp add: netPayable_def payableTo_def sumWhere_def demo_owed_def demo_row_def)
  have tid: "tn_id demo_tenant = 1" by (simp add: demo_tenant_def)
  have "requestInput True 5000 demo_tenant None (readInput demo_owed 1 10) = readinessInput True 5000 demo_tenant (readInput demo_owed 1 10)"
    by (simp add: requestInput_def readinessInput_def)
  then have "readyToRequest demo_env demo_owed demo_tenant 10 True"
    using demo_owed_ready requestable_readyToRequest [of demo_env True demo_owed demo_tenant 10] by (simp add: net tid del: One_nat_def)
  then have "\<exists>r s'. requestPayoutTx demo_env 10 1 demo_owed = Inr (r, s') \<and> rq_created r"
    using request_payout_exact [OF keys mem ten, of demo_env] demo_owed_unblocked free by simp
  then obtain r s' where "requestPayoutTx demo_env 10 1 demo_owed = Inr (r, s')" "rq_created r" by blast
  then show ?thesis
    using request_payout_exact [OF keys mem ten, of demo_env] net none by (auto simp: requestedPayout_def)
qed

text \<open>A rejected payout falls through to the last case of \<open>checkStatusOf\<close>.\<close>

lemma rejected_shown_as_paid: "po_status p = PoRejected \<Longrightarrow> checkStatusOf p = ''paid''"
  by (simp add: checkStatusOf_def)

end
