(* ===== verification/Side_Tables.thy ===== *)
theory Side_Tables
  imports Engine_Lifecycle
begin

text \<open>
  What almost every transaction leaves alone: the tenants, the campaigns, and of the payouts their
  identity and their check number.  Only a check run numbers payouts and moves a tenant's counter, and
  only the campaign service writes campaigns; this theory proves so for every step, and the invariants
  of check numbers and of ended campaigns follow.
\<close>

section \<open>The frame\<close>

definition paper :: "payout \<Rightarrow> uuid \<times> uuid \<times> int option" where
  "paper p = (po_id p, po_tenantId p, po_checkNumber p)"

definition sideKeeps :: "db \<Rightarrow> db \<Rightarrow> bool" where
  "sideKeeps s s' \<longleftrightarrow> tenants s' = tenants s \<and> campaigns s' = campaigns s \<and>
     (\<exists>new. map paper (payouts s') = map paper (payouts s) @ new \<and> (\<forall>x \<in> set new. snd (snd x) = None))"

lemma sideKeeps_frame:
  "tenants s' = tenants s \<Longrightarrow> campaigns s' = campaigns s \<Longrightarrow> map paper (payouts s') = map paper (payouts s) \<Longrightarrow> sideKeeps s s'"
  by (simp add: sideKeeps_def)

lemma sideKeeps_refl [simp]: "sideKeeps s s"
  by (rule sideKeeps_frame) simp_all

lemma sideKeeps_trans: "sideKeeps s t \<Longrightarrow> sideKeeps t u \<Longrightarrow> sideKeeps s u"
proof -
  assume a: "sideKeeps s t" "sideKeeps t u"
  then obtain n1 n2 where "map paper (payouts t) = map paper (payouts s) @ n1" "\<forall>x \<in> set n1. snd (snd x) = None"
    "map paper (payouts u) = map paper (payouts t) @ n2" "\<forall>x \<in> set n2. snd (snd x) = None" by (auto simp: sideKeeps_def)
  then show ?thesis using a by (auto simp: sideKeeps_def intro!: exI [of _ "n1 @ n2"])
qed

lemma sideKeeps_base: "baseOf s' = baseOf s \<Longrightarrow> sideKeeps s s'"
  using baseOf_eqD(1,7,11) [of s' s] by (intro sideKeeps_frame) simp_all

lemma sideKeeps_posted: "posted s s' es \<Longrightarrow> sideKeeps s s'"
  by (rule sideKeeps_base) (rule posted_base)

lemma sideKeeps_then:
  "sideKeeps s t \<Longrightarrow> tenants t' = tenants t \<Longrightarrow> campaigns t' = campaigns t \<Longrightarrow> payouts t' = payouts t \<Longrightarrow> sideKeeps s t'"
  by (simp add: sideKeeps_def)

lemma sideKeeps_update:
  assumes "sideKeeps s t" "payouts t' = updateWhere P g (payouts t)" "\<And>x. paper (g x) = paper x"
    "tenants t' = tenants t" "campaigns t' = campaigns t"
  shows "sideKeeps s t'"
  by (rule sideKeeps_trans [OF assms(1) sideKeeps_frame]) (simp_all add: assms map_updateWhere_id)

lemma sideKeeps_append:
  assumes "sideKeeps s t" "payouts t' = payouts t @ [row]" "po_checkNumber row = None" "tenants t' = tenants t" "campaigns t' = campaigns t"
  shows "sideKeeps s t'"
  using assms by (auto simp: sideKeeps_def paper_def)

lemma sideKeeps_fold: "(\<And>x u. sideKeeps (f u) (f (g x u))) \<Longrightarrow> sideKeeps (f t) (f (fold g xs t))"
proof (induction xs arbitrary: t)
  case (Cons x xs)
  show ?case using sideKeeps_trans [OF Cons.prems [of t x] Cons.IH [OF Cons.prems, of "g x t"]] by simp
qed simp

lemma sideKeeps_fold_from: "(\<And>x u. sideKeeps s u \<Longrightarrow> sideKeeps s (g x u)) \<Longrightarrow> sideKeeps s t \<Longrightarrow> sideKeeps s (fold g xs t)"
  by (induction xs arbitrary: t) auto

lemma sideKeeps_foldRes:
  assumes "foldRes f xs t = Inr t'" "sideKeeps s (h t)" "\<And>x u u'. f x u = Inr u' \<Longrightarrow> sideKeeps (h u) (h u')"
  shows "sideKeeps s (h t')"
  by (rule foldRes_invariant [where P = "\<lambda>u. sideKeeps s (h u)", OF assms(1,2)]) (auto intro: sideKeeps_trans assms(3))

lemma sideKeeps_audit: "sideKeeps s t \<Longrightarrow> sideKeeps s (audit a b c d e f t)"
  by (erule sideKeeps_then) (simp_all add: audit_def)

lemma sideKeeps_audits: "sideKeeps s t \<Longrightarrow> sideKeeps s (t\<lparr>audits := xs\<rparr>)"
  by (erule sideKeeps_then) simp_all

lemma sideKeeps_notification: "sideKeeps s t \<Longrightarrow> sideKeeps s (createNotification a b c d e t)"
  by (erule sideKeeps_then) (simp_all add: createNotification_def drawId_def)

lemma sideKeeps_bump: "sideKeeps s t \<Longrightarrow> sideKeeps s (bumpSummary k d t)"
  by (erule sideKeeps_then) (simp_all add: bumpSummary_def)

lemma sideKeeps_applyBuckets: "sideKeeps s t \<Longrightarrow> sideKeeps s (applyBuckets a b c t)"
  unfolding applyBuckets_def by (rule sideKeeps_fold_from) (auto intro: sideKeeps_bump)

lemma sideKeeps_buckets: "sideKeeps s t \<Longrightarrow> sideKeeps s (moveBatchSummary a b c t)"
  unfolding moveBatchSummary_def by (rule sideKeeps_applyBuckets)

lemma sideKeeps_payoutSent: "sideKeeps s t \<Longrightarrow> sideKeeps s (payoutSent p b tn ev x t)"
  unfolding payoutSent_def by (intro sideKeeps_audit sideKeeps_notification)

lemmas side_intros = sideKeeps_audit sideKeeps_audits sideKeeps_notification sideKeeps_bump sideKeeps_buckets
  sideKeeps_payoutSent sideKeeps_fold_from

section \<open>Engine steps\<close>

lemma updateSale_side [simp]: "sideKeeps s (updateSale i f s)"
  by (rule sideKeeps_frame) (simp_all add: updateSale_def)

lemma setLedgerStatus_side [simp]: "sideKeeps s (setLedgerStatus i st s)"
  by (rule sideKeeps_frame) (simp_all add: setLedgerStatus_def)

lemma pinFreeze_side: "sideKeeps s (freezeMonth sale m (pinPlan sale plan s))"
  by (rule sideKeeps_trans [of _ "pinPlan sale plan s"]; rule sideKeeps_frame) (simp_all add: pinPlan_def freezeMonth_def updateSale_def)

lemma applyCommissionsInTx_side: "applyCommissionsInTx E sale s = Inr (r, s') \<Longrightarrow> sideKeeps s s'"
proof (erule applyCommissionsInTx_cases)
  fix tenant plan rawChain lines month
  assume "distribute E sale tenant plan rawChain lines month (freezeMonth sale month (pinPlan sale plan s)) = Inr (r, s')"
  then have "sideKeeps (freezeMonth sale month (pinPlan sale plan s)) s'" by (rule distribute_spec) (rule sideKeeps_posted)
  then show ?thesis by (rule sideKeeps_trans [OF pinFreeze_side])
qed simp_all

lemma separationOfDuties_side: "separationOfDuties sale actor s = Inr s' \<Longrightarrow> sideKeeps s s'"
  by (auto simp: separationOfDuties_def selfApproval_def Let_def split: if_splits option.splits intro!: side_intros)

lemma approveSaleInTx_side:
  assumes "approveSaleInTx E saleId actor expected s = Inr (r, s')"
  shows "sideKeeps s s'"
  using assms
  by (auto simp: approveSaleInTx_def Let_def split: if_splits
      dest!: applyCommissionsInTx_side separationOfDuties_side
      intro: sideKeeps_trans [OF sideKeeps_trans [OF _ sideKeeps_audit [OF updateSale_side]]])

lemma reverseEntry_side: "reverseEntry E sale month e s = Inr s' \<Longrightarrow> sideKeeps s s'"
proof -
  assume r: "reverseEntry E sale month e s = Inr s'"
  then obtain i s1 where c: "createLedgerEntry E (reversalOf sale e) s = Inr (i, s1)" by (auto simp: reverseEntry_def)
  have "sideKeeps s s1" using createLedgerEntry_posted [OF c] by (rule sideKeeps_posted)
  moreover have "sideKeeps s1 s'"
    using r c by (auto simp: reverseEntry_def Let_def intro!: side_intros)
  ultimately show ?thesis by (rule sideKeeps_trans)
qed

lemma voidSaleInTx_side:
  assumes "voidSaleInTx E saleId actor expected s = Inr (r, s')"
  shows "sideKeeps s s'"
proof -
  obtain sale where lock: "lockSale saleId expected s = Inr sale" using assms by (auto simp: voidSaleInTx_def)
  let ?v = "audit (sa_tenantId sale) actor ''sale.void'' saleId (JObj [(''status'', JStr (statusText (sa_status sale)))])
                (JObj [(''status'', JStr ''void'')]) (updateSale saleId (\<lambda>r. r\<lparr>sa_status := SaleVoid\<rparr>) s)"
  have v: "sideKeeps s ?v" by (intro sideKeeps_audit) simp
  have "s' = s \<or> s' = ?v \<or> (\<exists>month. foldRes (reverseEntry E sale month) (voidableEntries s saleId) ?v = Inr s')"
    using assms lock by (auto simp: voidSaleInTx_def Let_def split: if_splits)
  then show ?thesis using v sideKeeps_foldRes [where h = "\<lambda>u. u", OF _ v reverseEntry_side] by fastforce
qed

lemma markDelivered_side: "markDelivered saleId at s = Inr (d, s') \<Longrightarrow> sideKeeps s s'"
  by (auto simp: markDelivered_def updateSale_def Let_def split: if_splits intro: sideKeeps_frame)

lemma matureCommissions_side:
  assumes "matureCommissions E now limit skipped s = Inr (r, s')"
  shows "sideKeeps s s'"
proof -
  have "sideKeeps s (fold matureRow batch s)" for batch
    by (rule sideKeeps_fold_from) (auto simp: matureRow_def intro!: side_intros elim: sideKeeps_trans split: prod.split)
  then show ?thesis using assms by (auto simp: matureCommissions_def Let_def split: if_splits)
qed

lemma awardBonusInTx_side: "awardBonusInTx E p s = Inr (i, s') \<Longrightarrow> sideKeeps s s'"
  by (auto simp: awardBonusInTx_def Let_def dest!: createLedgerEntry_posted sideKeeps_posted intro!: side_intros)

section \<open>Payout batches\<close>

lemma startProcessing_paper [simp]: "paper (startProcessing E p b r x) = paper x"
  by (simp add: paper_def startProcessing_def)

lemma settlePayout_paper [simp]: "paper (settlePayout E p r ev x) = paper x"
  by (simp add: paper_def settlePayout_def)

lemma failPayout_paper [simp]: "paper (failPayout E p r x) = paper x"
  by (simp add: paper_def failPayout_def)

lemma rejectPayout_paper [simp]: "paper (rejectPayout E p r x) = paper x"
  by (simp add: paper_def rejectPayout_def)

lemma newPayout_unnumbered [simp]: "po_checkNumber (newPayout i t m period now) = None"
  by (simp add: newPayout_def)

lemma startProcessing_unnumbered [simp]: "po_checkNumber (startProcessing E p b r x) = po_checkNumber x"
  by (simp add: startProcessing_def)

lemma writePayout_side: "writePayout E p bid r s = Inr (pid, s') \<Longrightarrow> sideKeeps s s'"
  by (auto simp: writePayout_def Let_def drawId_def split: option.splits
      intro: sideKeeps_update [OF sideKeeps_refl, where g = "startProcessing E p bid r"]
        sideKeeps_append [OF sideKeeps_refl, where row = "startProcessing E p bid r
           (newPayout (freshId s) (rp_tenantId p) (rv_membershipId r) (rp_period p) (env_now E))"])

lemma reserveOne_side: "reserveOne E p bid r u = Inr u' \<Longrightarrow> sideKeeps (fst u) (fst u')"
  by (cases u; cases u') (auto simp: reserveOne_def claimRows_def createItems_def Let_def dest!: writePayout_side
      intro!: side_intros elim!: sideKeeps_then)

lemma reservePayoutBatchTx_side:
  assumes "reservePayoutBatchTx E p s = Inr (out, s')"
  shows "sideKeeps s s'"
proof -
  have "s' = s \<or> (\<exists>rs bid ps. commitReservations E p rs s = Inr (bid, ps, s'))"
    using assms by (auto simp: reservePayoutBatchTx_def Let_def split: if_splits)
  moreover have "sideKeeps s s'" if c: "commitReservations E p rs s = Inr (bid, ps, s')" for rs bid ps
  proof -
    obtain s1 s2 where s1: "createBatch E p s = (bid, s1)" and fold: "foldRes (reserveOne E p bid) rs (s1, []) = Inr (s2, ps)"
      and s': "sideKeeps s2 s'"
      using c by (cases "createBatch E p s") (auto simp: commitReservations_def sideKeeps_audit [OF sideKeeps_applyBuckets])
    have "sideKeeps s s1" using s1 by (auto simp: createBatch_def drawId_def intro: sideKeeps_frame)
    then have "sideKeeps s (fst (s2, ps))"
      by (intro sideKeeps_foldRes [where h = fst, OF fold _ reserveOne_side]) simp_all
    then show ?thesis using s' sideKeeps_trans by simp
  qed
  ultimately show ?thesis by auto
qed

lemma dispatchPayoutBatchTx_side: "dispatchPayoutBatchTx E p r ev s = Inr (out, s') \<Longrightarrow> sideKeeps s s'"
  by (auto simp: dispatchPayoutBatchTx_def Let_def split: if_splits intro!: side_intros intro: sideKeeps_frame)

lemma settlePayoutBatchTx_side: "settlePayoutBatchTx E p r ev s = Inr (out, s') \<Longrightarrow> sideKeeps s s'"
  by (auto simp: settlePayoutBatchTx_def Let_def split: if_splits intro!: side_intros
      intro: sideKeeps_update [OF sideKeeps_refl, where g = "settlePayout E p r ev"])

lemma failPayoutBatchTx_side: "failPayoutBatchTx E p r s = Inr (out, s') \<Longrightarrow> sideKeeps s s'"
  by (auto simp: failPayoutBatchTx_def Let_def split: if_splits intro!: side_intros
      intro: sideKeeps_update [OF sideKeeps_refl, where g = "failPayout E p r"])

lemma rejectPayoutRequestTx_side: "rejectPayoutRequestTx E p r s = Inr (i, s') \<Longrightarrow> sideKeeps s s'"
  by (auto simp: rejectPayoutRequestTx_def Let_def intro!: side_intros
      intro: sideKeeps_update [OF sideKeeps_refl, where g = "rejectPayout E p r"])

section \<open>Policy writes\<close>

lemma policy_side:
  "lockPeriod E a period note s = Inr (w, s') \<Longrightarrow> sideKeeps s s'"
  "unlockPeriod a period s = Inr s' \<Longrightarrow> sideKeeps s s'"
  "decideControl ctx E ca m key di s = Inr (c, s') \<Longrightarrow> sideKeeps s s'"
  "replaceDestination ctx ca m dst s = Inr (d, s') \<Longrightarrow> sideKeeps s s'"
  by (rule sideKeeps_frame; auto simp: lockPeriod_def upsertLock_def periodAudit_def unlockPeriod_def decideControl_def
        writeControl_def complianceAudit_def replaceDestination_def retireDestination_def createDestination_def drawId_def
        Let_def split: option.splits if_splits)+

section \<open>Services\<close>

lemma requestPayoutWithMeta_side: "requestPayoutWithMeta ctx E m t s = Inr (r, s') \<Longrightarrow> sideKeeps s s'"
  by (auto simp: requestPayoutWithMeta_def requestPayoutTx_def Let_def requestedPayout_def drawId_def
      split: list.splits option.splits if_splits
      intro: sideKeeps_append [OF sideKeeps_refl])

lemma notifyAutoRequest_side: "sideKeeps s t \<Longrightarrow> sideKeeps s (notifyAutoRequest tn m net period p t)"
  unfolding notifyAutoRequest_def Let_def by (intro sideKeeps_notification)

lemma autoRequestMember_side: "sideKeeps (snd u) (snd (autoRequestMember E t m u))"
  by (cases u) (auto simp: autoRequestMember_def split: sum.splits prod.splits
      dest!: requestPayoutWithMeta_side intro: notifyAutoRequest_side)

lemma autoRequestTenant_side: "sideKeeps (snd u) (snd (autoRequestTenant E g t u))"
  using sideKeeps_fold [of snd "autoRequestMember E (tn_id t)" u, OF autoRequestMember_side]
  by (cases u) (simp add: autoRequestTenant_def)

lemma autoRequestPayouts_side:
  assumes "autoRequestPayouts E g s = (n, s')"
  shows "sideKeeps s s'"
proof -
  let ?st = "(\<lparr>at_created = 0, at_skipped = 0\<rparr>, s)" and ?due = "filter tn_autoRequestPayouts (tenants s)"
  have "snd (fold (autoRequestTenant E g) ?due ?st) = s'"
    using assms by (simp add: autoRequestPayouts_def Let_def split: prod.splits)
  moreover have "sideKeeps (snd ?st) (snd (fold (autoRequestTenant E g) ?due ?st))"
    by (rule sideKeeps_fold) (rule autoRequestTenant_side)
  ultimately show ?thesis by simp
qed

lemma clearPayout_paper [simp]: "paper (clearPayout E a ref x) = paper x"
  by (simp add: paper_def clearPayout_def)

lemma reconcileRow_side: "sideKeeps (rc_db st) (rc_db (reconcileRow E a row st))"
  by (auto simp: reconcileRow_def Let_def split: list.split prod.split
      intro!: sideKeeps_update [OF sideKeeps_refl, where g = "clearPayout E a (br_ref row)"])

lemma reconcile_side: "reconcile E a locked rows s = (r, s') \<Longrightarrow> sideKeeps s s'"
proof -
  assume "reconcile E a locked rows s = (r, s')"
  moreover define st0 where "st0 = \<lparr>rc_buckets = amountBuckets (unclearedPayouts (ac_tenantId a) locked s), rc_db = s, rc_matched = [], rc_unmatched = []\<rparr>"
  moreover have "sideKeeps (rc_db st0) (rc_db (fold (reconcileRow E a) rows st0))"
    by (rule sideKeeps_fold) (rule reconcileRow_side)
  moreover have "rc_db st0 = s" by (simp add: st0_def)
  ultimately show "sideKeeps s s'"
    by (auto simp: reconcile_def Let_def serviceAudit_def intro: sideKeeps_audits)
qed

lemma saleAudit_side: "sideKeeps s t \<Longrightarrow> sideKeeps s (saleAudit a action i after before t)"
  by (simp add: saleAudit_def sideKeeps_audits)

lemma insertSale_side: "insertSale row s = Inr (r, s') \<Longrightarrow> sideKeeps s s'"
  by (auto simp: insertSale_def drawId_def split: if_splits intro: sideKeeps_frame)

lemma createDraftSale_side: "createDraftSale E a i s = Inr (r, s') \<Longrightarrow> sideKeeps s s'"
  by (auto simp: createDraftSale_def Let_def split: sum.splits option.splits if_splits dest: insertSale_side)

lemma createSale_side: "createSale ctx E a i s = Inr (r, s') \<Longrightarrow> sideKeeps s s'"
  by (auto simp: createSale_def Let_def split: option.splits if_splits dest!: createDraftSale_side intro: saleAudit_side)

lemma selfCreate_side: "selfCreate E a m i s = Inr (r, s') \<Longrightarrow> sideKeeps s s'"
  by (auto simp: selfCreate_def dest!: insertSale_side intro: saleAudit_side)

lemma importRow_side: "sideKeeps (im_db st) (im_db (importRow parseDate dbMessage E a currency idx c x st))"
  by (auto simp: importRow_def skipRow_def split: prod.split sum.split option.split dest: createDraftSale_side)

lemma importCsv_side:
  assumes "importCsv parseDate dbMessage ctx E a csv mapping preview s = Inr (r, s')"
  shows "sideKeeps s s'"
proof -
  let ?st0 = "\<lparr>im_created = [], im_skipped = [], im_errors = [], im_db = s\<rparr>"
  have "s' = s \<or> (\<exists>currency idx c body. s' = importAudit a (fold (importRow parseDate dbMessage E a currency idx c) body ?st0))"
    using assms by (fastforce simp: importCsv_def Let_def split: if_splits)
  moreover have "sideKeeps s (importAudit a (fold (importRow parseDate dbMessage E a currency idx c) body ?st0))" for currency idx c body
    using sideKeeps_fold [of im_db "importRow parseDate dbMessage E a currency idx c" ?st0 body, OF importRow_side]
    by (auto simp: importAudit_def intro: saleAudit_side)
  ultimately show ?thesis by auto
qed

lemma removeSale_side: "removeSale ctx a i seen s = Inr s' \<Longrightarrow> sideKeeps s s'"
  by (auto simp: removeSale_def deleteSale_def split: if_splits intro!: saleAudit_side intro: sideKeeps_frame)

lemma insertExecution_side: "insertExecution a k h s = (n, s1) \<Longrightarrow> sideKeeps s s1"
  by (auto simp: insertExecution_def drawId_def split: if_splits intro: sideKeeps_frame)

lemma bulkStep_side: "bulkStep (saleCapability E t) a action i s = Inr s' \<Longrightarrow> sideKeeps s s'"
  by (auto simp: bulkStep_def saleCapability_def split: bulk_action.splits dest: approveSaleInTx_side voidSaleInTx_side)

lemma beginBulkExecution_side: "beginBulkExecution a p scope k h s = Inr (r, s1) \<Longrightarrow> sideKeeps s s1"
  using beginBulkExecution_insert insertExecution_side by blast

lemma completeBulkExecution_side: "completeBulkExecution i r s = Inr s' \<Longrightarrow> sideKeeps s s'"
  by (auto simp: completeBulkExecution_def Let_def split: if_splits intro: sideKeeps_frame)

lemma bulkTx_side:
  assumes "bulkTx openToken E a p scope k h tok (saleCapability E t) s = Inr (out, s')"
  shows "sideKeeps s s'"
  using assms
proof (cases rule: bulkTx_cases)
  case (replay i r)
  then show ?thesis by (intro beginBulkExecution_side)
next
  case (run i s1 s2 review)
  have "sideKeeps s s1" by (rule beginBulkExecution_side [OF run(1)])
  then have "sideKeeps s s2" by (rule sideKeeps_foldRes [where h = "\<lambda>u. u", OF run(5)]) (rule bulkStep_side)
  then show ?thesis using completeBulkExecution_side [OF run(6)] sideKeeps_trans by blast
qed simp

lemma markMailed_side: "markMailed E a ids s = (n, s') \<Longrightarrow> sideKeeps s s'"
  by (auto simp: markMailed_def Let_def serviceAudit_def paper_def intro!: sideKeeps_audits
      intro: sideKeeps_update [OF sideKeeps_refl, where g = "\<lambda>p. p\<lparr>po_mailedAt := Some (env_now E)\<rparr>"])

lemmas steps_side = approveSaleInTx_side voidSaleInTx_side markDelivered_side matureCommissions_side awardBonusInTx_side
  reservePayoutBatchTx_side dispatchPayoutBatchTx_side settlePayoutBatchTx_side failPayoutBatchTx_side rejectPayoutRequestTx_side
  policy_side requestPayoutWithMeta_side autoRequestPayouts_side reconcile_side createSale_side selfCreate_side importCsv_side
  removeSale_side bulkTx_side markMailed_side

section \<open>All steps\<close>

text \<open>Who writes campaigns, and how: by the campaign service.\<close>

inductive campaignStep :: "db \<Rightarrow> db \<Rightarrow> bool" where
  create: "createCampaign E a cn s = Inr (v, s') \<Longrightarrow> campaignStep s s'"
| update: "updateCampaign a i patch sr s = Inr (v, s') \<Longrightarrow> campaignStep s s'"
| remove: "removeCampaign a i sr s = Inr s' \<Longrightarrow> campaignStep s s'"
| finalize: "doFinalize E groupOrder t c actor s = Inr (fz, s') \<Longrightarrow> campaignStep s s'"

lemma awardPrize_side: "awardPrize E t c month actor x s = Inr s' \<Longrightarrow> sideKeeps s s'"
  by (auto simp: awardPrize_def split: if_splits dest: awardBonusInTx_side)

lemma awardPrize_frames:
  assumes "foldRes (awardPrize E t c month actor) xs s = Inr s'"
  shows "payouts s' = payouts s \<and> tenants s' = tenants s \<and> campaigns s' = campaigns s"
proof (rule foldRes_invariant [where P = "\<lambda>u. payouts u = payouts s \<and> tenants u = tenants s \<and> campaigns u = campaigns s", OF assms])
  fix x u u'
  assume "awardPrize E t c month actor x u = Inr u'"
  then have "u' = u \<or> (\<exists>p i. awardBonusInTx E p u = Inr (i, u'))" by (auto simp: awardPrize_def split: if_splits)
  moreover have "baseOf u' = baseOf u" if "awardBonusInTx E p u = Inr (i, u')" for p i
    using that by (auto simp: awardBonusInTx_def Let_def baseOf_def createNotification_def drawId_def bumpSummary_def audit_def
        dest!: createLedgerEntry_posted posted_base)
  ultimately have "baseOf u' = baseOf u" by auto
  then show "payouts u' = payouts s \<and> tenants u' = tenants s \<and> campaigns u' = campaigns s"
    if "payouts u = payouts s \<and> tenants u = tenants s \<and> campaigns u = campaigns s"
    using baseOf_eqD(1,7,11) that by metis
qed simp

lemma campaignStep_frames:
  assumes "campaignStep s s'"
  shows "payouts s' = payouts s" "tenants s' = tenants s"
proof -
  have "payouts s' = payouts s \<and> tenants s' = tenants s"
    using assms
  proof cases
    case (finalize E g t c actor fz)
    then show ?thesis
    proof (rule doFinalize_cases)
      fix tenant s1 s2 x s3
      assume cl: "claimCampaign E t c s = Inr s1" and st: "storeResults (cp_id c) (standings g t c s1) s2 = Inr (x, s3)"
        and f: "foldRes (awardPrize E t c (env_month E (env_now E) (tn_timezone tenant)) actor) (standings g t c s1) s1 = Inr s2"
        and s': "\<exists>au. s' = s3\<lparr>audits := au\<rparr>"
      then show ?thesis using awardPrize_frames [OF f] by (auto simp: claimCampaign_def storeResults_def)
    qed
  qed (auto simp: createCampaign_def updateCampaign_def removeCampaign_def campaignAudit_def serviceAudit_def drawId_def Let_def)
  then show "payouts s' = payouts s" "tenants s' = tenants s" by simp_all
qed

lemma generateRun_campaigns: "generateRun a ids s = Inr (r, s') \<Longrightarrow> campaigns s' = campaigns s"
proof -
  assume "generateRun a ids s = Inr (r, s')"
  then obtain ts st s1 where f: "foldRes numberCheck ts \<lparr>cr_next = lastCheckNumber s (ac_tenantId a), cr_assigned = [], cr_skipped = [], cr_db = s\<rparr> = Inr st"
    and s1: "(if cr_assigned st \<noteq> [] then storeCounter (ac_tenantId a) (cr_next st) (cr_db st) else Inr (cr_db st)) = Inr s1"
    and s': "s' = serviceAudit a ''check.run'' ''payout'' None (checkRunAudit st) s1"
    by (auto simp: generateRun_def)
  have "campaigns (cr_db st) = campaigns s"
    by (rule foldRes_invariant [where P = "\<lambda>u. campaigns (cr_db u) = campaigns s", OF f])
      (auto simp: numberCheck_def assignNumber_def Let_def split: option.splits)
  then show ?thesis using s1 s' by (auto simp: storeCounter_def serviceAudit_def split: if_splits)
qed

lemma engineStep_side:
  assumes "engineStep s s'"
  obtains (kept) "sideKeeps s s'" | (numbered) a ids r where "generateRun a ids s = Inr (r, s')" | (campaign) "campaignStep s s'"
  using assms
  by cases (auto simp: applyCommissions_def dest: applyCommissionsInTx_side steps_side
      campaignStep.intros)

end
