(* ===== verification/Check_Theorems.thy ===== *)
theory Check_Theorems
  imports Side_Tables Sales_Theorems Engine_Theorems
begin

text \<open>
  Checks: the amount on the face of a check reads back, in words and in figures, as the amount of the
  payout; a check run numbers exactly the payouts that can go out, consecutively; and over any run of
  the system no two checks of a tenant share a number, and a number once given stays.
\<close>

section \<open>Reading the amount in words\<close>

text \<open>
  A reader of amounts that shares nothing with the writer: it has its own dictionary, and reads the words,
  separated by blanks or hyphens, into a running group, which a scale word closes.  An unknown word or a
  malformed end makes the text unreadable.
\<close>

definition isSeparator :: "char \<Rightarrow> bool" where
  "isSeparator c \<longleftrightarrow> c = CHR '' '' \<or> c = CHR ''-''"

fun splitWords :: "string \<Rightarrow> string list" where
  "splitWords [] = [[]]"
| "splitWords (c # cs) =
     (if isSeparator c then [] # splitWords cs
      else case splitWords cs of [] \<Rightarrow> [[c]] | w # ws \<Rightarrow> (c # w) # ws)"

definition DICTIONARY :: "(string \<times> nat) list" where
  "DICTIONARY =
     [(''Zero'', 0), (''One'', 1), (''Two'', 2), (''Three'', 3), (''Four'', 4), (''Five'', 5), (''Six'', 6), (''Seven'', 7),
      (''Eight'', 8), (''Nine'', 9), (''Ten'', 10), (''Eleven'', 11), (''Twelve'', 12), (''Thirteen'', 13), (''Fourteen'', 14),
      (''Fifteen'', 15), (''Sixteen'', 16), (''Seventeen'', 17), (''Eighteen'', 18), (''Nineteen'', 19), (''Twenty'', 20),
      (''Thirty'', 30), (''Forty'', 40), (''Fifty'', 50), (''Sixty'', 60), (''Seventy'', 70), (''Eighty'', 80), (''Ninety'', 90)]"

definition scaleOf :: "string \<Rightarrow> nat option" where
  "scaleOf w = (if w = ''Thousand'' then Some 1000 else if w = ''Million'' then Some 1000000
     else if w = ''Billion'' then Some 1000000000 else None)"

text \<open>The amount of the closed groups and the group being read.\<close>

definition readWord :: "string \<Rightarrow> (nat \<times> nat) option \<Rightarrow> (nat \<times> nat) option" where
  "readWord w st = (case st of None \<Rightarrow> None | Some (t, c) \<Rightarrow>
     if w = [] then Some (t, c)
     else if w = ''Hundred'' then Some (t, 100 * c)
     else case scaleOf w of
         Some k \<Rightarrow> Some (t + k * c, 0)
       | None \<Rightarrow> (case map_of DICTIONARY w of Some v \<Rightarrow> Some (t, c + v) | None \<Rightarrow> None))"

abbreviation readText :: "string \<Rightarrow> (nat \<times> nat) option \<Rightarrow> (nat \<times> nat) option" where
  "readText text \<equiv> fold readWord (splitWords text)"

text \<open>Dollars in words, the word \<open>and\<close>, and the cents in two digits over 100.\<close>

definition wordsToCents :: "string \<Rightarrow> int option" where
  "wordsToCents text =
     (let ws = splitWords text; n = length ws - 2; cents = take 2 (List.last ws)
      in if drop n ws = [''and'', cents @ ''/100''] \<and> length cents = 2 \<and> list_all isAsciiDigit cents
         then map_option (\<lambda>(t, c). 100 * int (t + c) + int (digitsValue cents)) (fold readWord (take n ws) (Some (0, 0)))
         else None)"

lemma splitWords_not_Nil [simp]: "splitWords t \<noteq> []"
  by (cases t) (auto split: list.split)

lemma splitWords_append: "isSeparator x \<Longrightarrow> splitWords (a @ x # b) = splitWords a @ splitWords b"
  by (induction a) (auto split: list.split)

lemma splitWords_word: "list_all (\<lambda>c. \<not> isSeparator c) w \<Longrightarrow> splitWords w = [w]"
  by (induction w) auto

lemma readText_append: "isSeparator x \<Longrightarrow> readText (a @ x # b) st = readText b (readText a st)"
  by (simp add: splitWords_append)

lemma separators [simp]: "isSeparator (CHR '' '')" "isSeparator (CHR ''-'')"
  by (simp_all add: isSeparator_def)

lemma readWord_Nil [simp]: "readWord [] st = st"
  by (simp add: readWord_def split: option.split)

text \<open>The words of the writer's tables mean what the dictionary says.\<close>

lemma ones_words:
  "list_all (\<lambda>i. list_all (\<lambda>c. \<not> isSeparator c) (ONES ! i) \<and> scaleOf (ONES ! i) = None \<and> ONES ! i \<noteq> ''Hundred'' \<and> ONES ! i \<noteq> [] \<and>
     map_of DICTIONARY (ONES ! i) = Some i) [1..<20]"
  by code_simp

lemma tens_words:
  "list_all (\<lambda>i. list_all (\<lambda>c. \<not> isSeparator c) (TENS ! i) \<and> scaleOf (TENS ! i) = None \<and> TENS ! i \<noteq> ''Hundred'' \<and> TENS ! i \<noteq> [] \<and>
     map_of DICTIONARY (TENS ! i) = Some (10 * i)) [2..<10]"
  by code_simp

lemma scale_words:
  "list_all (\<lambda>g. list_all (\<lambda>c. \<not> isSeparator c) (groupName g) \<and> scaleOf (groupName g) = Some (1000 ^ g) \<and> groupName g \<noteq> [] \<and>
     groupName g \<noteq> ''Hundred'') [1..<4]"
  by (simp add: upt_rec groupName_def isSeparator_def scaleOf_def)

lemma list_all_upt: "list_all P [a..<b] \<Longrightarrow> a \<le> i \<Longrightarrow> i < b \<Longrightarrow> P i"
  by (simp add: list_all_iff)

lemma ones_word:
  assumes "0 < i" "i < 20"
  shows "list_all (\<lambda>c. \<not> isSeparator c) (ONES ! i)" "scaleOf (ONES ! i) = None" "ONES ! i \<noteq> ''Hundred''" "ONES ! i \<noteq> []"
    "map_of DICTIONARY (ONES ! i) = Some i"
  using list_all_upt [OF ones_words _ assms(2)] assms(1) by simp_all

lemma tens_word:
  assumes "2 \<le> i" "i < 10"
  shows "list_all (\<lambda>c. \<not> isSeparator c) (TENS ! i)" "scaleOf (TENS ! i) = None" "TENS ! i \<noteq> ''Hundred''" "TENS ! i \<noteq> []"
    "map_of DICTIONARY (TENS ! i) = Some (10 * i)"
  using list_all_upt [OF tens_words assms] by simp_all

lemma scale_word:
  assumes "1 \<le> g" "g < 4"
  shows "list_all (\<lambda>c. \<not> isSeparator c) (groupName g)" "scaleOf (groupName g) = Some (1000 ^ g)" "groupName g \<noteq> []"
    "groupName g \<noteq> ''Hundred''"
  using list_all_upt [OF scale_words assms] by simp_all

lemma readText_ones: "i < 20 \<Longrightarrow> readText (ONES ! i) (Some (t, c)) = Some (t, c + i)"
proof (cases "i = 0")
  case True
  then show ?thesis by (simp add: ONES_def)
qed (simp add: splitWords_word ones_word readWord_def)

lemma readText_tens: "2 \<le> i \<Longrightarrow> i < 10 \<Longrightarrow> readText (TENS ! i) (Some (t, c)) = Some (t, c + 10 * i)"
  by (simp add: splitWords_word tens_word readWord_def)

lemma readText_scale: "1 \<le> g \<Longrightarrow> g < 4 \<Longrightarrow> readText (groupName g) (Some (t, c)) = Some (t + 1000 ^ g * c, 0)"
  by (simp add: splitWords_word scale_word readWord_def)

lemma readText_hundred: "readText ''Hundred'' (Some (t, c)) = Some (t, 100 * c)"
  by (simp add: isSeparator_def readWord_def)

lemma readText_twoDigits:
  assumes "n < 100"
  shows "readText (twoDigits n) (Some (t, c)) = Some (t, c + n)"
proof (cases "20 \<le> n")
  case True
  have d: "2 \<le> n div 10" "n div 10 < 10" "n mod 10 < 20" using True assms by (auto simp: div_greater_zero_iff)
  have n: "10 * (n div 10) + n mod 10 = n" by simp
  show ?thesis
  proof (cases "n mod 10 = 0")
    case True
    then show ?thesis using d n \<open>20 \<le> n\<close> by (simp add: twoDigits_def readText_tens)
  next
    case False
    then have "readText (twoDigits n) (Some (t, c)) = readText (ONES ! (n mod 10)) (readText (TENS ! (n div 10)) (Some (t, c)))"
      using True by (simp add: twoDigits_def readText_append)
    then show ?thesis using d n by (simp add: readText_tens readText_ones)
  qed
qed (simp add: twoDigits_def readText_ones)

lemma readText_threeDigits:
  assumes "n < 1000"
  shows "readText (threeDigits n) (Some (t, 0)) = Some (t, n)"
proof (cases "100 \<le> n")
  case True
  have d: "n div 100 < 20" using assms by auto
  have n: "100 * (n div 100) + n mod 100 = n" by simp
  let ?h = "ONES ! (n div 100) @ CHR '' '' # ''Hundred''"
  have h: "readText ?h (Some (t, 0)) = Some (t, 100 * (n div 100))"
    unfolding readText_append [OF separators(1)] readText_ones [OF d] readText_hundred by simp
  show ?thesis
  proof (cases "n mod 100 = 0")
    case True
    have "threeDigits n = ?h" using True \<open>100 \<le> n\<close> by (simp add: threeDigits_def twoDigits_def)
    moreover have "100 * (n div 100) = n" using n True by linarith
    ultimately show ?thesis using h by (simp only:)
  next
    case False
    have "threeDigits n = ?h @ CHR '' '' # twoDigits (n mod 100)" using True False by (simp add: threeDigits_def)
    then have "readText (threeDigits n) (Some (t, 0)) = readText (twoDigits (n mod 100)) (readText ?h (Some (t, 0)))"
      by (simp only: readText_append [OF separators(1)])
    then show ?thesis using n by (simp only: h) (simp add: readText_twoDigits)
  qed
qed (simp add: threeDigits_def readText_twoDigits)

text \<open>The groups are written from the last to the first, in front of what is written already.\<close>

definition means :: "string \<Rightarrow> nat \<Rightarrow> bool" where
  "means out v \<longleftrightarrow> (\<forall>t. \<exists>t' c'. readText out (Some (t, 0)) = Some (t', c') \<and> t' + c' = t + v)"

lemma means_group:
  assumes "means out v" "n < 1000" "g < 4" "g = 0 \<Longrightarrow> out = []"
  shows "means ((threeDigits n @ (if groupName g \<noteq> [] then '' '' @ groupName g else [])) @ (if out \<noteq> [] then '' '' @ out else []))
     (n * 1000 ^ g + v)"
proof (cases "g = 0")
  case True
  then have "out = []" "groupName g = []" using assms(4) by (simp_all add: groupName_def)
  then show ?thesis using assms(1,2) True by (simp add: means_def readText_threeDigits)
next
  case False
  then have g: "1 \<le> g" "g < 4" "groupName g \<noteq> []" using assms(3) scale_word [of g] by simp_all
  let ?p = "threeDigits n @ CHR '' '' # groupName g"
  have p: "readText ?p (Some (t, 0)) = Some (t + n * 1000 ^ g, 0)" for t
    unfolding readText_append [OF separators(1)] readText_threeDigits [OF assms(2)] readText_scale [OF g(1,2)] by simp
  show ?thesis
  proof (cases "out = []")
    case True
    then show ?thesis using assms(1) g(3) p by (simp add: means_def)
  next
    case False
    have "means (?p @ CHR '' '' # out) (n * 1000 ^ g + v)"
      unfolding means_def readText_append [of "CHR '' ''" ?p, OF separators(1)] p
      using spec [OF assms(1) [unfolded means_def]] by (simp add: add.assoc [symmetric])
    then show ?thesis using False g(3) by simp
  qed
qed

lemma means_wordGroups:
  "means out v \<Longrightarrow> n < 1000 ^ (4 - g) \<Longrightarrow> g \<le> 4 \<Longrightarrow> (g = 0 \<Longrightarrow> out = []) \<Longrightarrow> means (wordGroups n g out) (n * 1000 ^ g + v)"
proof (induction n g out arbitrary: v rule: wordGroups.induct)
  case (1 n g out)
  show ?case
  proof (cases "n = 0")
    case True
    then show ?thesis using 1 by (subst wordGroups.simps) simp
  next
    case False
    then have g: "g < 4" using 1(3,4) by (cases "g = 4") auto
    have lt: "n div 1000 < 1000 ^ (4 - Suc g)"
    proof -
      have "(1000::nat) ^ (4 - g) = 1000 * 1000 ^ (4 - Suc g)" using g by (simp add: Suc_diff_Suc flip: power_Suc)
      then show ?thesis using 1(3) by (simp add: less_mult_imp_div_less mult.commute)
    qed
    have eq: "n div 1000 * 1000 ^ Suc g + (n mod 1000 * 1000 ^ g + v) = n * 1000 ^ g + v"
    proof -
      have "n div 1000 * 1000 ^ Suc g + n mod 1000 * 1000 ^ g = (n div 1000 * 1000 + n mod 1000) * 1000 ^ g"
        unfolding power_Suc distrib_right by (simp only: mult.assoc)
      then show ?thesis by (simp only: div_mult_mod_eq add.assoc [symmetric])
    qed
    let ?new = "(threeDigits (n mod 1000) @ (if groupName g \<noteq> [] then '' '' @ groupName g else [])) @ (if out \<noteq> [] then '' '' @ out else [])"
    have m: "means (if n mod 1000 \<noteq> 0 then ?new else out) (n mod 1000 * 1000 ^ g + v)"
      using means_group [OF 1(2) _ g 1(5)] 1(2) by simp
    have "means (wordGroups (n div 1000) (Suc g) (if n mod 1000 \<noteq> 0 then ?new else out)) (n div 1000 * 1000 ^ Suc g + (n mod 1000 * 1000 ^ g + v))"
      by (rule 1(1) [OF False refl m lt]) (use g in auto)
    then show ?thesis unfolding wordGroups.simps [of n g out] Let_def eq if_not_P [OF False] .
  qed
qed

lemma means_intToWords: "0 \<le> n \<Longrightarrow> n < 1000000000000 \<Longrightarrow> means (intToWords n) (nat n)"
proof (cases "n = 0")
  case True
  have "readText ''Zero'' (Some (t, 0)) = Some (t, 0)" for t
    by (simp add: isSeparator_def readWord_def scaleOf_def DICTIONARY_def)
  then show ?thesis using True by (simp add: means_def intToWords_def)
next
  case False
  assume n: "0 \<le> n" "n < 1000000000000"
  then have "nat n < 1000 ^ (4 - 0)" by simp
  then have "means (wordGroups (nat n) 0 []) (nat n * 1000 ^ 0 + 0)"
    by (intro means_wordGroups) (simp_all add: means_def)
  then show ?thesis using False by (simp add: intToWords_def)
qed

section \<open>The face of a check\<close>

lemma moneyChars_Cons:
  "moneyChars (c # cs) = (if c = CHR ''$'' \<or> c = CHR '','' \<or> isSpace c then moneyChars cs else c # moneyChars cs)"
  by (simp add: moneyChars_def)

lemma moneyChars_groupThousands: "moneyChars (groupThousands t) = moneyChars t"
  by (induction t rule: groupThousands.induct) (auto simp: moneyChars_Cons)

lemma moneyChars_append: "moneyChars (a @ b) = moneyChars a @ moneyChars b"
  by (simp add: moneyChars_def)

lemma formatUsd_chars: "0 \<le> c \<Longrightarrow> moneyChars (formatUsd c) = moneyChars (centsToDecimalString c)"
proof -
  assume c: "0 \<le> c"
  then show ?thesis
    by (simp add: formatUsd_def centsToDecimalString_def Let_def moneyChars_append moneyChars_Cons moneyChars_groupThousands)
qed

lemma cents_digits:
  assumes "0 \<le> k" "k < 100"
  shows "list_all isAsciiDigit (padStart 2 (CHR ''0'') (show_int k))" "digitsValue (padStart 2 (CHR ''0'') (show_int k)) = nat k"
    "length (padStart 2 (CHR ''0'') (show_int k)) = 2"
  using assms show_nat_digits length_show_nat_2 [of "nat k"]
  by (auto simp: padStart_def show_int_def digitsValue_append list_all_iff set_replicate_conv_if
      isAsciiDigit_def [of "CHR ''0''"])

lemma no_separator_digit: "isAsciiDigit c \<Longrightarrow> \<not> isSeparator c"
  by (auto simp: isAsciiDigit_def isSeparator_def)

lemma wordsToCents_text:
  assumes "0 \<le> k" "k < 100" "means w n"
  shows "wordsToCents (w @ '' and '' @ padStart 2 (CHR ''0'') (show_int k) @ ''/100'') = Some (100 * int n + k)"
proof -
  define d where "d = padStart 2 (CHR ''0'') (show_int k)"
  note ds = cents_digits [OF assms(1,2), folded d_def]
  have d: "list_all (\<lambda>c. \<not> isSeparator c) (d @ ''/100'')"
    using ds(1) no_separator_digit by (auto simp: list_all_iff isSeparator_def)
  have split: "splitWords (w @ CHR '' '' # ''and'' @ CHR '' '' # (d @ ''/100'')) = splitWords w @ [''and'', d @ ''/100'']"
    unfolding splitWords_append [OF separators(1)] splitWords_word [OF d] by (simp add: isSeparator_def)
  obtain t c where "readText w (Some (0, 0)) = Some (t, c)" "t + c = n"
    using spec [OF assms(3) [unfolded means_def], of 0] by auto
  then show ?thesis using ds assms(1) split unfolding wordsToCents_def d_def [symmetric] by (simp add: Let_def)
qed

text \<open>Figures grouped from the right: a first group of one to three digits, then groups of three behind commas.\<close>

lemma groupThousands_groups:
  "t \<noteq> [] \<Longrightarrow> \<exists>g gs. groupThousands t = g @ concat (map (\<lambda>x. CHR '','' # x) gs) \<and> t = g @ concat gs \<and>
     length g \<in> {1, 2, 3} \<and> (\<forall>x \<in> set gs. length x = 3)"
proof (induction t rule: groupThousands.induct)
  case (2 c)
  show ?case by (intro exI [of _ "[c]"] exI [of _ "[]"]) simp
next
  case (3 c d ds)
  then obtain g gs where g: "groupThousands (d # ds) = g @ concat (map (\<lambda>x. CHR '','' # x) gs)" "d # ds = g @ concat gs"
    "length g \<in> {1, 2, 3}" "\<forall>x \<in> set gs. length x = 3" by (cases "length (d # ds) mod 3 = 0") auto
  have "length (concat gs) = 3 * length gs" using g(4) by (induction gs) auto
  then have m: "length (d # ds) mod 3 = length g mod 3" unfolding g(2) by simp
  show ?case
  proof (cases "length (d # ds) mod 3 = 0")
    case True
    then have "length g = 3" using g(3) m by auto
    have "groupThousands (c # d # ds) = c # CHR '','' # groupThousands (d # ds)" using True by simp
    then show ?thesis using g \<open>length g = 3\<close>
      by (intro exI [of _ "[c]"] exI [of _ "g # gs"]) (simp del: groupThousands.simps)
  next
    case False
    then have "length g \<in> {1, 2}" using g(3) m by auto
    moreover have "groupThousands (c # d # ds) = c # groupThousands (d # ds)" using False by auto
    ultimately show ?thesis using g
      by (intro exI [of _ "c # g"] exI [of _ gs]) (auto simp del: groupThousands.simps)
  qed
qed simp

definition groupedFigures :: "string \<Rightarrow> string \<Rightarrow> bool" where
  "groupedFigures digits text \<longleftrightarrow> (\<exists>g gs. text = g @ concat (map (\<lambda>x. '','' @ x) gs) \<and> digits = g @ concat gs \<and>
     length g \<in> {1, 2, 3} \<and> (\<forall>x \<in> set gs. length x = 3))"

lemma formatUsd_grouped:
  assumes "0 \<le> c"
  shows "\<exists>dollars cents. formatUsd c = ''$'' @ dollars @ ''.'' @ cents \<and> groupedFigures (show_int (c div 100)) dollars \<and>
    length cents = 2 \<and> digitsValue cents = nat (c mod 100)"
proof -
  have "show_int (c div 100) \<noteq> []" using assms show_nat_digits by (simp add: show_int_def)
  from groupThousands_groups [OF this] have "groupedFigures (show_int (c div 100)) (groupThousands (show_int (c div 100)))"
    by (simp add: groupedFigures_def)
  then show ?thesis
    using assms cents_digits [of "c mod 100"]
    by (intro exI [of _ "groupThousands (show_int (c div 100))"] exI [of _ "padStart 2 (CHR ''0'') (show_int (c mod 100))"])
      (simp add: formatUsd_def Let_def)
qed

text \<open>
  C32: The face of a check is unambiguous: for every amount a check may carry, the amount in words, read back
  word by word with a dictionary of its own, and the amount in figures, read back by the importer's parser, are
  both the amount of the payout; the figures are the dollars grouped by commas into threes from the right, and
  two digits of cents.
\<close>

theorem check_face_exact:
  assumes "0 < c" "c \<le> CHECK_AMOUNT_MAX"
  shows "wordsToCents (centsToWords c) = Some c \<and> parseMoneyAmountToCents (Some (formatUsd c)) False = Inr c \<and>
    (\<exists>dollars cents. formatUsd c = ''$'' @ dollars @ ''.'' @ cents \<and> groupedFigures (show_int (c div 100)) dollars \<and>
       length cents = 2 \<and> digitsValue cents = nat (c mod 100))"
proof (intro conjI formatUsd_grouped)
  have q: "c sdiv 100 = c div 100" "c smod 100 = c mod 100"
    using assms(1) by (simp_all add: signed_divide_int_def signed_modulo_int_def minus_div_mult_eq_mod [symmetric])
  have b: "0 \<le> c div 100" "c div 100 < 1000000000000" using assms by (simp_all add: CHECK_AMOUNT_MAX_def pos_imp_zdiv_nonneg_iff)
  show "wordsToCents (centsToWords c) = Some c"
    unfolding centsToWords_def q using wordsToCents_text [OF _ _ means_intToWords [OF b], of "c mod 100"] b by simp
  have "0 \<le> c" using assms(1) by simp
  then obtain f where "decimalShape (show_int (c div 100)) f" "decimalCents (show_int (c div 100)) f = c"
    "centsToDecimalString c = decimalText (show_int (c div 100)) f" by (rule decimal_text_of_cents)
  moreover have "c \<le> 9007199254740991" using assms(2) by (simp add: CHECK_AMOUNT_MAX_def)
  ultimately show "parseMoneyAmountToCents (Some (formatUsd c)) False = Inr c"
    unfolding parseMoneyAmount_iff formatUsd_chars [OF \<open>0 \<le> c\<close>]
    by (intro exI [of _ "show_int (c div 100)"] exI [of _ f]) (simp add: assms(1) moneyChars_decimal)
qed (use assms(1) in simp)

lemma check_face_exact_witness:
  "wordsToCents (centsToWords 123456) = Some 123456 \<and> centsToWords 123456 = ''One Thousand Two Hundred Thirty-Four and 56/100'' \<and>
   formatUsd 123456 = ''$1,234.56''"
proof (intro conjI)
  have "(0::cents) < 123456" "(123456::cents) \<le> CHECK_AMOUNT_MAX" by (simp_all add: CHECK_AMOUNT_MAX_def)
  from check_face_exact [OF this] show "wordsToCents (centsToWords 123456) = Some 123456" by (rule conjunct1)
  have q: "(123456::int) sdiv 100 = 1234" "(123456::int) smod 100 = 56" by (simp_all add: signed_divide_int_def signed_modulo_int_def)
  have n: "show_int 56 = ''56''" by code_simp
  have w: "intToWords 1234 = ''One Thousand Two Hundred Thirty-Four''"
    by (simp add: intToWords_def wordGroups.simps threeDigits_def twoDigits_def groupName_def ONES_def TENS_def Let_def)
  show "centsToWords 123456 = ''One Thousand Two Hundred Thirty-Four and 56/100''"
    unfolding centsToWords_def q w n by (simp add: padStart_def)
  show "formatUsd 123456 = ''$1,234.56''" by code_simp
qed

section \<open>A check run\<close>

text \<open>What a run writes: a number and an address for each payout it marks.\<close>

type_synonym check_mark = "uuid \<times> int \<times> payee_snapshot"

definition stamp :: "check_mark list \<Rightarrow> payout \<Rightarrow> payout" where
  "stamp marks p = (case map_of marks (po_id p) of
       None \<Rightarrow> p
     | Some (n, snap) \<Rightarrow> p\<lparr>po_checkNumber := Some n, po_payeeSnapshot := Some snap\<rparr>)"

fun marksFrom :: "int \<Rightarrow> (payout \<times> membership \<times> user) list \<Rightarrow> check_mark list" where
  "marksFrom n [] = []"
| "marksFrom n ((p, m, u) # ts) =
     (if skipReason p m = None then (po_id p, n + 1, payeeOf m u) # marksFrom (n + 1) ts else marksFrom n ts)"

lemma marksFrom_ids: "fst ` set (marksFrom n ts) \<subseteq> (\<lambda>t. po_id (fst t)) ` set ts"
  by (induction n ts rule: marksFrom.induct) (auto split: if_splits)

lemma marksFrom_spec:
  "map (\<lambda>(i, n, x). (i, n)) (marksFrom n ts) =
     zip (map (\<lambda>t. po_id (fst t)) (filter (\<lambda>(p, m, u). skipReason p m = None) ts)) [n + 1..n + int (length (marksFrom n ts))]"
proof (induction n ts rule: marksFrom.induct)
  case (2 n p m u ts)
  show ?case
  proof (cases "skipReason p m = None")
    case True
    have "[n + 1..n + int (length (marksFrom n ((p, m, u) # ts)))] = (n + 1) # [n + 1 + 1..n + 1 + int (length (marksFrom (n + 1) ts))]"
      using True by (subst upto_rec1) (simp_all add: algebra_simps)
    then show ?thesis using 2 True by simp
  next
    case False
    then show ?thesis using 2(2) [OF False] by (simp only: marksFrom.simps if_False list.map filter.simps prod.case)
  qed
qed simp

lemma marksFrom_length: "length (marksFrom n ts) = length (filter (\<lambda>(p, m, u). skipReason p m = None) ts)"
  by (induction n ts rule: marksFrom.induct) auto

lemma stamp_Cons: "i \<notin> fst ` set marks \<Longrightarrow>
    stamp ((i, n, x) # marks) p = stamp marks (if po_id p = i then p\<lparr>po_checkNumber := Some n, po_payeeSnapshot := Some x\<rparr> else p)"
  by (auto simp: stamp_def map_of_eq_None_iff [symmetric])

lemma numberChecks:
  assumes "foldRes numberCheck ts st = Inr st'" "distinct (map (\<lambda>t. po_id (fst t)) ts)"
  shows "cr_db st' = (cr_db st)\<lparr>payouts := map (stamp (marksFrom (cr_next st) ts)) (payouts (cr_db st))\<rparr> \<and>
    cr_next st' = cr_next st + int (length (marksFrom (cr_next st) ts)) \<and>
    map (\<lambda>k. (ak_payoutId k, ak_checkNumber k)) (cr_assigned st') =
      map (\<lambda>k. (ak_payoutId k, ak_checkNumber k)) (cr_assigned st) @ map (\<lambda>(i, n, x). (i, n)) (marksFrom (cr_next st) ts) \<and>
    map sk_payoutId (cr_skipped st') = map sk_payoutId (cr_skipped st) @
      map (\<lambda>t. po_id (fst t)) (filter (\<lambda>(p, m, u). skipReason p m \<noteq> None) ts)"
  using assms
proof (induction ts arbitrary: st)
  case Nil
  have "map (stamp []) ps = ps" for ps by (rule map_idI) (simp add: stamp_def)
  then show ?case using Nil by simp
next
  case (Cons x ts)
  obtain p m u where x: "x = (p, m, u)" by (cases x)
  obtain st1 where s1: "numberCheck (p, m, u) st = Inr st1" and f: "foldRes numberCheck ts st1 = Inr st'"
    using Cons.prems(1) by (auto simp: x)
  have d: "distinct (map (\<lambda>t. po_id (fst t)) ts)" "po_id p \<notin> (\<lambda>t. po_id (fst t)) ` set ts" using Cons.prems(2) by (auto simp: x)
  note IH = Cons.IH [OF f d(1)]
  show ?case
  proof (cases "skipReason p m")
    case None
    let ?g = "\<lambda>q. q\<lparr>po_checkNumber := Some (cr_next st + 1), po_payeeSnapshot := Some (payeeOf m u)\<rparr>"
    have st1: "cr_next st1 = cr_next st + 1" "cr_skipped st1 = cr_skipped st"
      "cr_db st1 = (cr_db st)\<lparr>payouts := updateWhere (\<lambda>q. po_id q = po_id p) ?g (payouts (cr_db st))\<rparr>"
      "map (\<lambda>k. (ak_payoutId k, ak_checkNumber k)) (cr_assigned st1) =
        map (\<lambda>k. (ak_payoutId k, ak_checkNumber k)) (cr_assigned st) @ [(po_id p, cr_next st + 1)]"
      using s1 None by (auto simp: numberCheck_def assignNumber_def Let_def)
    have new: "po_id p \<notin> fst ` set (marksFrom (cr_next st + 1) ts)" using d(2) marksFrom_ids by blast
    have "map (stamp (marksFrom (cr_next st + 1) ts)) (updateWhere (\<lambda>q. po_id q = po_id p) ?g ps) =
        map (stamp ((po_id p, cr_next st + 1, payeeOf m u) # marksFrom (cr_next st + 1) ts)) ps" for ps
      by (simp add: updateWhere_def stamp_Cons [OF new])
    then show ?thesis using IH None by (simp add: x st1)
  next
    case (Some reason)
    have "st1 = st\<lparr>cr_skipped := cr_skipped st @ [\<lparr>sk_payoutId = po_id p, sk_name = us_fullName u, sk_reason = reason\<rparr>]\<rparr>"
      using s1 Some by (simp add: numberCheck_def)
    then show ?thesis using IH Some by (simp add: x)
  qed
qed

text \<open>
  The run as it is meant, over the rows alone: the payouts that wait for a check, oldest payment first;
  those that can go out, to a complete address and for 0.01 to 99,999,999.99; the address written.
\<close>

definition waitingChecks :: "uuid \<Rightarrow> uuid list option \<Rightarrow> db \<Rightarrow> payout list" where
  "waitingChecks tenantId ids s =
     sort_key (\<lambda>p. (case po_paidAt p of None \<Rightarrow> (1 :: nat, 0) | Some t \<Rightarrow> (0, t), po_createdAt p))
       [p \<leftarrow> payouts s. po_tenantId p = tenantId \<and> po_method p = MethodCheck \<and> po_status p = PoPaid \<and> po_checkNumber p = None \<and>
          (case ids of None \<Rightarrow> True | Some [] \<Rightarrow> True | Some l \<Rightarrow> po_id p \<in> set l)]"

definition given :: "string option \<Rightarrow> bool" where
  "given v = (case v of Some (c # cs) \<Rightarrow> True | _ \<Rightarrow> False)"

definition completeAddress :: "mailing \<Rightarrow> bool" where
  "completeAddress a \<longleftrightarrow> given (ma_name a) \<and> given (ma_line1 a) \<and> given (ma_city a) \<and> given (ma_state a) \<and> given (ma_postal a)"

definition goesOut :: "db \<Rightarrow> payout \<Rightarrow> bool" where
  "goesOut s p \<longleftrightarrow> 1 \<le> po_totalCents p \<and> po_totalCents p \<le> 9999999999 \<and>
     (case find (\<lambda>m. mb_id m = po_membershipId p) (memberships s) of None \<Rightarrow> False | Some m \<Rightarrow> completeAddress (mb_mailing m))"

definition postedTo :: "mailing \<Rightarrow> payee_snapshot" where
  "postedTo a = \<lparr>py_name = the (ma_name a), py_line1 = the (ma_line1 a), py_line2 = ma_line2 a, py_city = the (ma_city a),
     py_state = the (ma_state a), py_postal = the (ma_postal a),
     py_country = (case ma_country a of None \<Rightarrow> ''US'' | Some c \<Rightarrow> c)\<rparr>"

definition numberedIn :: "assigned_check list \<Rightarrow> db \<Rightarrow> payout \<Rightarrow> payout" where
  "numberedIn ks s p = (case find (\<lambda>k. ak_payoutId k = po_id p) ks of
       None \<Rightarrow> p
     | Some k \<Rightarrow> p\<lparr>po_checkNumber := Some (ak_checkNumber k),
         po_payeeSnapshot := map_option (postedTo \<circ> mb_mailing) (find (\<lambda>m. mb_id m = po_membershipId p) (memberships s))\<rparr>)"

lemma checkTargets_waiting: "checkTargets t ids s = waitingChecks t ids s"
proof -
  have "nullsLast x = (case x of None \<Rightarrow> (1, 0) | Some t \<Rightarrow> (0, t))" for x by (simp add: nullsLast_def)
  moreover have "unnumberedCheck t ids = (\<lambda>p. po_tenantId p = t \<and> po_method p = MethodCheck \<and> po_status p = PoPaid \<and>
      po_checkNumber p = None \<and> (case ids of None \<Rightarrow> True | Some [] \<Rightarrow> True | Some l \<Rightarrow> po_id p \<in> set l))"
    by (auto simp: fun_eq_iff unnumberedCheck_def isCheck_def chosenBy_def split: option.split list.split)
  ultimately show ?thesis by (simp add: checkTargets_def waitingChecks_def findManyBy_def)
qed

lemma skipReason_None: "skipReason p m = None \<longleftrightarrow>
    1 \<le> po_totalCents p \<and> po_totalCents p \<le> 9999999999 \<and> completeAddress (mb_mailing m)"
proof -
  have "filled v \<longleftrightarrow> given v" for v by (auto simp: filled_def given_def split: option.split list.split)
  then show ?thesis by (auto simp: skipReason_def mailingAddressComplete_def completeAddress_def CHECK_AMOUNT_MAX_def)
qed

lemma payeeOf_posted: "skipReason p m = None \<Longrightarrow> payeeOf m u = postedTo (mb_mailing m)"
  by (auto simp: skipReason_None completeAddress_def given_def payeeOf_def postedTo_def orText_def Let_def split: option.splits)

text \<open>The payouts of a run that can go out, joined with their members.\<close>

definition checkable :: "db \<Rightarrow> payout \<Rightarrow> bool" where
  "checkable s p \<longleftrightarrow> (\<exists>m u. payoutMember s p = Inr (m, u) \<and> skipReason p m = None)"

lemma targets_members:
  assumes "mapRes (\<lambda>p. andThen (payoutMember s p) (\<lambda>mu. Inr (p, mu))) ps = Inr ts"
  shows "map fst ts = ps" "\<forall>(p, m, u) \<in> set ts. payoutMember s p = Inr (m, u)"
    "map (\<lambda>t. po_id (fst t)) (filter (\<lambda>(p, m, u). skipReason p m = None) ts) = map po_id (filter (checkable s) ps)"
    "map (\<lambda>t. po_id (fst t)) (filter (\<lambda>(p, m, u). skipReason p m \<noteq> None) ts) = map po_id (filter (\<lambda>p. \<not> checkable s p) ps)"
  using assms by (induction ps arbitrary: ts) (auto simp: checkable_def)

lemma checkable_goesOut:
  assumes "mapRes (\<lambda>p. andThen (payoutMember s p) (\<lambda>mu. Inr (p, mu))) ps = Inr ts"
  shows "filter (checkable s) ps = filter (goesOut s) ps" "filter (\<lambda>p. \<not> checkable s p) ps = filter (\<lambda>p. \<not> goesOut s p) ps"
proof -
  have "checkable s p \<longleftrightarrow> goesOut s p" if "p \<in> set ps" for p
  proof -
    have "p \<in> fst ` set ts" using that targets_members(1) [OF assms] by (metis image_set)
    then obtain m u where "payoutMember s p = Inr (m, u)" using targets_members(2) [OF assms] by fastforce
    then show ?thesis
      by (auto simp: checkable_def goesOut_def skipReason_None payoutMember_def findMembership_def split: option.splits)
  qed
  then show "filter (checkable s) ps = filter (goesOut s) ps" "filter (\<lambda>p. \<not> checkable s p) ps = filter (\<lambda>p. \<not> goesOut s p) ps"
    by (auto intro: filter_cong)
qed

lemma find_map_of: "map_of (map (\<lambda>k. (f k, g k)) ks) i = map_option g (find (\<lambda>k. f k = i) ks)"
  by (induction ks) auto

lemma marks_lookup:
  "map_of (map (\<lambda>(i, n, x). (i, n)) marks) i = map_option fst (map_of marks i)"
  by (induction marks) auto

lemma generateRun_cases:
  assumes "generateRun a ids s = Inr ((assigned, skipped), s')" "distinct (map po_id (payouts s))"
  obtains ts where "map fst ts = checkTargets (ac_tenantId a) ids s" "\<forall>(p, m, u) \<in> set ts. payoutMember s p = Inr (m, u)"
    "payouts s' = map (stamp (marksFrom (lastCheckNumber s (ac_tenantId a)) ts)) (payouts s)"
    "map (\<lambda>k. (ak_payoutId k, ak_checkNumber k)) assigned = map (\<lambda>(i, n, x). (i, n)) (marksFrom (lastCheckNumber s (ac_tenantId a)) ts)"
    "map (\<lambda>k. (ak_payoutId k, ak_checkNumber k)) assigned =
       zip (map po_id (filter (goesOut s) (waitingChecks (ac_tenantId a) ids s)))
         [lastCheckNumber s (ac_tenantId a) + 1..lastCheckNumber s (ac_tenantId a) + int (length assigned)]"
    "map sk_payoutId skipped = map po_id (filter (\<lambda>p. \<not> goesOut s p) (waitingChecks (ac_tenantId a) ids s))"
    "lastCheckNumber s' (ac_tenantId a) = lastCheckNumber s (ac_tenantId a) + int (length assigned)"
    "\<forall>t. t \<noteq> ac_tenantId a \<longrightarrow> lastCheckNumber s' t = lastCheckNumber s t" "campaigns s' = campaigns s"
proof -
  let ?t = "ac_tenantId a" and ?n = "lastCheckNumber s (ac_tenantId a)"
  let ?st0 = "\<lparr>cr_next = ?n, cr_assigned = [], cr_skipped = [], cr_db = s\<rparr>"
  obtain ts st s1 where ts: "mapRes (\<lambda>p. andThen (payoutMember s p) (\<lambda>mu. Inr (p, mu))) (checkTargets ?t ids s) = Inr ts"
    and fold: "foldRes numberCheck ts ?st0 = Inr st"
    and s1: "(if cr_assigned st \<noteq> [] then storeCounter ?t (cr_next st) (cr_db st) else Inr (cr_db st)) = Inr s1"
    and out: "assigned = cr_assigned st" "skipped = cr_skipped st" "s' = serviceAudit a ''check.run'' ''payout'' None (checkRunAudit st) s1"
    using assms(1) by (auto simp: generateRun_def)
  note tm = targets_members [OF ts]
  have "distinct (map po_id (checkTargets ?t ids s))"
    using assms(2) by (simp add: checkTargets_def findManyBy_def distinct_map_sort_key distinct_map_filter)
  then have "distinct (map (\<lambda>t. po_id (fst t)) ts)" by (simp flip: tm(1) add: comp_def)
  note run = numberChecks [OF fold this, simplified]
  have len: "length assigned = length (marksFrom ?n ts)"
    using map_eq_imp_length_eq [OF conjunct1 [OF conjunct2 [OF conjunct2 [OF run]]]] unfolding out(1) .
  have sp: "map (\<lambda>k. (ak_payoutId k, ak_checkNumber k)) assigned = map (\<lambda>(i, n, x). (i, n)) (marksFrom ?n ts)" using run out by simp
  have db1: "payouts s1 = payouts (cr_db st)" "campaigns s1 = campaigns (cr_db st)"
    using s1 by (auto simp: storeCounter_def split: if_splits)
  have tn: "tenants (cr_db st) = tenants s" using run by simp
  have find: "find (\<lambda>t. tn_id t = i) (updateWhere (\<lambda>t. tn_id t = ?t) (\<lambda>t. t\<lparr>tn_lastCheckNumber := k\<rparr>) xs) =
      map_option (\<lambda>t. if tn_id t = ?t then t\<lparr>tn_lastCheckNumber := k\<rparr> else t) (find (\<lambda>t. tn_id t = i) xs)" for i k xs
    by (induction xs) (auto simp: updateWhere_def)
  have counter: "lastCheckNumber s1 i = (if i = ?t then ?n + int (length assigned) else lastCheckNumber s i)" for i
  proof (cases "assigned = []")
    case True
    then have "s1 = cr_db st" using s1 out(1) by simp
    then show ?thesis using True tn by (simp add: lastCheckNumber_def findTenant_def)
  next
    case False
    then have "storeCounter ?t (cr_next st) (cr_db st) = Inr s1" using s1 out(1) by simp
    then have "findTenant (cr_db st) ?t \<noteq> None"
      "tenants s1 = updateWhere (\<lambda>t. tn_id t = ?t) (\<lambda>t. t\<lparr>tn_lastCheckNumber := cr_next st\<rparr>) (tenants (cr_db st))"
      by (auto simp: storeCounter_def)
    moreover have "cr_next st = ?n + int (length assigned)" using run len by simp
    ultimately show ?thesis using tn
      by (auto simp: lastCheckNumber_def findTenant_def find split: option.split dest: find_SomeD)
  qed
  show ?thesis
  proof (rule that)
    show "map (\<lambda>k. (ak_payoutId k, ak_checkNumber k)) assigned = zip (map po_id (filter (goesOut s) (waitingChecks ?t ids s))) [?n + 1..?n + int (length assigned)]"
      unfolding sp marksFrom_spec len tm(3) checkable_goesOut(1) [OF ts] by (simp only: checkTargets_waiting)
    show "map sk_payoutId skipped = map po_id (filter (\<lambda>p. \<not> goesOut s p) (waitingChecks ?t ids s))"
      using run out tm(4) checkable_goesOut(2) [OF ts, unfolded checkTargets_waiting] by (simp add: checkTargets_waiting)
    show "payouts s' = map (stamp (marksFrom ?n ts)) (payouts s)" "campaigns s' = campaigns s" using run out(3) db1 by (simp_all add: serviceAudit_def)
    show "lastCheckNumber s' ?t = ?n + int (length assigned)" "\<forall>t. t \<noteq> ?t \<longrightarrow> lastCheckNumber s' t = lastCheckNumber s t"
      using counter out(3) by (simp_all add: serviceAudit_def lastCheckNumber_def findTenant_def)
  qed (use tm(1,2) sp in simp_all)
qed

lemma marksFrom_member: "(i, n, x) \<in> set (marksFrom k ts) \<Longrightarrow> \<exists>p m u. (p, m, u) \<in> set ts \<and> i = po_id p \<and> x = postedTo (mb_mailing m)"
  by (induction k ts rule: marksFrom.induct) (auto split: if_splits simp: payeeOf_posted)

text \<open>
  C22: A check run numbers exactly the chosen payouts of the tenant that were paid by check, have no number yet, go to a member
  whose name, street, city, state and postal code are given, and amount to 0.01 to 99,999,999.99, oldest payment first, with
  the numbers that follow the tenant's counter, and stores the address of each; every other waiting payout is reported as
  skipped, in order, no other payout changes, and the counter moves by the number of checks.
\<close>

theorem check_run_exact:
  assumes "generateRun a ids s = Inr ((assigned, skipped), s')" "books s"
  shows "map (\<lambda>k. (ak_payoutId k, ak_checkNumber k)) assigned =
       zip (map po_id (filter (goesOut s) (waitingChecks (ac_tenantId a) ids s)))
         [lastCheckNumber s (ac_tenantId a) + 1..lastCheckNumber s (ac_tenantId a) + int (length assigned)] \<and>
     map sk_payoutId skipped = map po_id (filter (\<lambda>p. \<not> goesOut s p) (waitingChecks (ac_tenantId a) ids s)) \<and>
     payouts s' = map (numberedIn assigned s) (payouts s) \<and>
     lastCheckNumber s' (ac_tenantId a) = lastCheckNumber s (ac_tenantId a) + int (length assigned)"
proof -
  let ?n = "lastCheckNumber s (ac_tenantId a)"
  have d: "distinct (map po_id (payouts s))" using assms(2) by (simp add: books_def settlementOk_def settlementLinks_def settlementIds_def)
  from assms(1) d obtain ts where ts: "map fst ts = checkTargets (ac_tenantId a) ids s" "\<forall>(p, m, u) \<in> set ts. payoutMember s p = Inr (m, u)"
    and pay: "payouts s' = map (stamp (marksFrom ?n ts)) (payouts s)"
    and sp: "map (\<lambda>k. (ak_payoutId k, ak_checkNumber k)) assigned = map (\<lambda>(i, n, x). (i, n)) (marksFrom ?n ts)"
    and rest: "map (\<lambda>k. (ak_payoutId k, ak_checkNumber k)) assigned =
         zip (map po_id (filter (goesOut s) (waitingChecks (ac_tenantId a) ids s))) [?n + 1..?n + int (length assigned)]"
      "map sk_payoutId skipped = map po_id (filter (\<lambda>p. \<not> goesOut s p) (waitingChecks (ac_tenantId a) ids s))"
      "lastCheckNumber s' (ac_tenantId a) = ?n + int (length assigned)"
    by (rule generateRun_cases)
  have "stamp (marksFrom ?n ts) p = numberedIn assigned s p" if p: "p \<in> set (payouts s)" for p
  proof (cases "map_of (marksFrom ?n ts) (po_id p)")
    case None
    then have "map_of (map (\<lambda>k. (ak_payoutId k, ak_checkNumber k)) assigned) (po_id p) = None" by (simp add: sp marks_lookup)
    then show ?thesis using None by (simp add: stamp_def numberedIn_def find_map_of)
  next
    case (Some nx)
    obtain n x where nx: "nx = (n, x)" by (cases nx)
    then obtain q m u where q: "(q, m, u) \<in> set ts" "po_id p = po_id q" "x = postedTo (mb_mailing m)"
      using marksFrom_member [OF map_of_SomeD [OF Some [unfolded nx]]] by blast
    have "q \<in> set (map fst ts)" using q(1) by force
    then have "q \<in> set (payouts s)" unfolding ts(1) by (simp add: checkTargets_def)
    then have "q = p" using q(2) p d inj_onD [of po_id "set (payouts s)" q p] by (simp add: distinct_map)
    then have "payoutMember s p = Inr (m, u)" using bspec [OF ts(2) q(1)] by simp
    then have m: "find (\<lambda>m. mb_id m = po_membershipId p) (memberships s) = Some m"
      by (auto simp: payoutMember_def findMembership_def split: option.splits)
    have "map_of (map (\<lambda>k. (ak_payoutId k, ak_checkNumber k)) assigned) (po_id p) = Some n" by (simp add: sp marks_lookup Some nx)
    then obtain k where "find (\<lambda>k. ak_payoutId k = po_id p) assigned = Some k" "ak_checkNumber k = n" by (auto simp: find_map_of)
    then show ?thesis using m by (simp add: stamp_def numberedIn_def Some nx q(3))
  qed
  then have "payouts s' = map (numberedIn assigned s) (payouts s)" unfolding pay by simp
  then show ?thesis using rest by simp
qed

text \<open>Witness: member 10, with an address, was paid 50.00 by check.\<close>

definition demo_checks :: db where
  "demo_checks = demo_db\<lparr>ledger := [demo_row\<lparr>le_status := LePaid\<rparr>], batches := [demo_batch\<lparr>ba_status := BaSettled\<rparr>],
     batchItems := [demo_item], summaries := [\<lparr>ms_key = (1, 10, ''2023-10'', 0), ms_cents = noDelta\<lparr>d_paid := 5000\<rparr>\<rparr>],
     payouts := [demo_payout\<lparr>po_method := MethodCheck, po_status := PoPaid, po_paidAt := Some 0\<rparr>],
     memberships := [(demo_member 10 None [10])\<lparr>mb_mailing := \<lparr>ma_name = Some ''Ada'', ma_line1 = Some ''1 Main St'', ma_line2 = None,
       ma_city = Some ''Reno'', ma_state = Some ''NV'', ma_postal = Some ''89501'', ma_country = None\<rparr>\<rparr>]\<rparr>"

lemma demo_paid_column: "x \<noteq> LeReversed \<Longrightarrow> statusPart x (noDelta\<lparr>d_paid := 5000\<rparr>) = (if x = LePaid then 5000 else 0)"
  by (cases x) (simp_all add: noDelta_def)

lemma demo_checks_books: "books demo_checks"
  by (rule demo_stage_books [where st = LePaid and bst = BaSettled and d = "noDelta\<lparr>d_paid := 5000\<rparr>"
        and p = "demo_payout\<lparr>po_method := MethodCheck, po_status := PoPaid, po_paidAt := Some 0\<rparr>"])
    (use demo_paid_column in \<open>simp_all add: demo_checks_def demo_payout_def newPayout_def demo_db_def noDelta_def\<close>)

lemma demo_counter: "lastCheckNumber demo_checks 1 = 1000"
  by (simp add: lastCheckNumber_def findTenant_def demo_checks_def demo_db_def demo_tenant_def)

lemma demo_check_run:
  "\<exists>s'. generateRun \<lparr>ac_userId = 2, ac_tenantId = 1\<rparr> None demo_checks =
     Inr (([\<lparr>ak_payoutId = 300, ak_checkNumber = 1001, ak_payeeName = ''Ada'', ak_totalCents = ''5000'', ak_period = ''2023-11''\<rparr>], []), s')"
proof -
  let ?p = "demo_payout\<lparr>po_method := MethodCheck, po_status := PoPaid, po_paidAt := Some 0\<rparr>"
  have t: "checkTargets 1 None demo_checks = [?p]"
    by (simp add: checkTargets_def findManyBy_def unnumberedCheck_def isCheck_def chosenBy_def demo_checks_def demo_payout_def newPayout_def)
  note n = demo_counter
  let ?m = "hd (memberships demo_checks)"
  have m: "payoutMember demo_checks ?p = Inr (?m, demo_user 10)"
    by (simp add: payoutMember_def findMembership_def findUser_def demo_checks_def demo_payout_def newPayout_def demo_db_def demo_member_def demo_user_def)
  have sk: "skipReason ?p ?m = None" "py_name (payeeOf ?m (demo_user 10)) = ''Ada''"
    by (simp_all add: skipReason_def mailingAddressComplete_def filled_def CHECK_AMOUNT_MAX_def payeeOf_def orText_def Let_def
        demo_checks_def demo_payout_def newPayout_def)
  have p: "po_id ?p = 300" "show_int (po_totalCents ?p) = ''5000''" "po_period ?p = ''2023-11''"
    by (simp add: demo_payout_def newPayout_def, code_simp, simp add: demo_payout_def newPayout_def)
  have f: "findTenant (demo_checks\<lparr>payouts := x\<rparr>) 1 \<noteq> None" for x
    by (simp add: findTenant_def demo_checks_def demo_db_def demo_tenant_def)
  define st where "st = \<lparr>cr_next = 1000, cr_assigned = [], cr_skipped = [], cr_db = demo_checks\<rparr>"
  have "\<exists>x. numberCheck (?p, ?m, demo_user 10) st = Inr \<lparr>cr_next = 1001,
      cr_assigned = [\<lparr>ak_payoutId = 300, ak_checkNumber = 1001, ak_payeeName = ''Ada'', ak_totalCents = ''5000'', ak_period = ''2023-11''\<rparr>],
      cr_skipped = [], cr_db = demo_checks\<lparr>payouts := x\<rparr>\<rparr>"
    unfolding numberCheck_def prod.case sk option.case Let_def p assignNumber_def by (simp add: st_def) (rule exI, rule refl)
  then obtain x where x: "numberCheck (?p, ?m, demo_user 10) st = Inr \<lparr>cr_next = 1001,
      cr_assigned = [\<lparr>ak_payoutId = 300, ak_checkNumber = 1001, ak_payeeName = ''Ada'', ak_totalCents = ''5000'', ak_period = ''2023-11''\<rparr>],
      cr_skipped = [], cr_db = demo_checks\<lparr>payouts := x\<rparr>\<rparr>" by blast
  show ?thesis
    unfolding generateRun_def actor.select_convs t n mapRes.simps m andThen.simps st_def [symmetric] foldRes.simps x
      check_run.select_convs storeCounter_def
    using f [of x] by (simp del: One_nat_def)
qed

lemma check_run_exact_witness:
  "\<exists>r s'. generateRun \<lparr>ac_userId = 2, ac_tenantId = 1\<rparr> None demo_checks = Inr (r, s') \<and> lastCheckNumber s' 1 = 1001"
proof -
  obtain r s' where s': "generateRun \<lparr>ac_userId = 2, ac_tenantId = 1\<rparr> None demo_checks = Inr ((r, []), s')" "length r = 1"
    using demo_check_run by force
  then show ?thesis using check_run_exact [OF s'(1) demo_checks_books] demo_counter by auto
qed

section \<open>Check numbers over runs\<close>

text \<open>The numbered checks among the identities of the payouts, below the counters, no two of a tenant alike.\<close>

definition numbersIn :: "(uuid \<Rightarrow> int) \<Rightarrow> (uuid \<times> uuid \<times> int option) set \<Rightarrow> bool" where
  "numbersIn counter P \<longleftrightarrow> (\<forall>i t n. (i, t, Some n) \<in> P \<longrightarrow> n \<le> counter t) \<and>
     (\<forall>i j t n. (i, t, Some n) \<in> P \<longrightarrow> (j, t, Some n) \<in> P \<longrightarrow> i = j)"

definition checkNumbersOk :: "db \<Rightarrow> bool" where
  "checkNumbersOk s \<longleftrightarrow> numbersIn (lastCheckNumber s) (paper ` set (payouts s))"

definition numbersKept :: "db \<Rightarrow> db \<Rightarrow> bool" where
  "numbersKept s s' \<longleftrightarrow> (\<forall>i t n. (i, t, Some n) \<in> paper ` set (payouts s) \<longrightarrow> (i, t, Some n) \<in> paper ` set (payouts s'))"

lemma side_papers:
  assumes "sideKeeps s s'"
  obtains new where "paper ` set (payouts s') = paper ` set (payouts s) \<union> new" "\<And>i t n. (i, t, Some n) \<notin> new"
    "\<And>t. lastCheckNumber s' t = lastCheckNumber s t"
proof -
  obtain new where "map paper (payouts s') = map paper (payouts s) @ new" "\<forall>x \<in> set new. snd (snd x) = None" "tenants s' = tenants s"
    using assms by (auto simp: sideKeeps_def)
  moreover from this(1) have "paper ` set (payouts s') = paper ` set (payouts s) \<union> set new" by (metis list.set_map set_append)
  ultimately show ?thesis by (intro that [of "set new"]) (auto simp: lastCheckNumber_def findTenant_def)
qed

lemma checkNumbersOk_side: "sideKeeps s s' \<Longrightarrow> checkNumbersOk s \<Longrightarrow> checkNumbersOk s'"
  by (erule side_papers) (simp add: checkNumbersOk_def numbersIn_def)

lemma numbersKept_side: "sideKeeps s s' \<Longrightarrow> numbersKept s s'"
  by (erule side_papers) (simp add: numbersKept_def)

lemma marks_number:
  assumes "map_of (map (\<lambda>(i, n, x). (i, n)) (marksFrom k ts)) i = Some n"
  shows "k < n" "n \<le> k + int (length (marksFrom k ts))"
    "map_of (map (\<lambda>(i, n, x). (i, n)) (marksFrom k ts)) j = Some n \<Longrightarrow> i = j"
proof -
  let ?ids = "map (\<lambda>t. po_id (fst t)) (filter (\<lambda>(p, m, u). skipReason p m = None) ts)"
  let ?ns = "[k + 1..k + int (length (marksFrom k ts))]"
  have z: "\<exists>a < length (marksFrom k ts). i' = ?ids ! a \<and> n = ?ns ! a"
    if "map_of (map (\<lambda>(i, n, x). (i, n)) (marksFrom k ts)) i' = Some n" for i'
    using map_of_SomeD [OF that] unfolding marksFrom_spec in_set_zip by auto
  have at: "?ns ! a = k + 1 + int a" if "a < length (marksFrom k ts)" for a using that by simp
  obtain a where a: "a < length (marksFrom k ts)" "i = ?ids ! a" "n = ?ns ! a" using z [OF assms] by blast
  then show "k < n" "n \<le> k + int (length (marksFrom k ts))" using at by simp_all
  assume "map_of (map (\<lambda>(i, n, x). (i, n)) (marksFrom k ts)) j = Some n"
  then obtain b where b: "b < length (marksFrom k ts)" "j = ?ids ! b" "n = ?ns ! b" using z by blast
  then have "a = b" using a at by simp
  then show "i = j" using a b by simp
qed

lemma stamp_paper:
  "paper (stamp marks p) = (po_id p, po_tenantId p, case map_of marks (po_id p) of None \<Rightarrow> po_checkNumber p | Some (n, x) \<Rightarrow> Some n)"
  by (simp add: stamp_def paper_def split: option.split)

text \<open>A run only numbers payouts of its tenant that had no number, with numbers above the counter.\<close>

lemma generateRun_papers:
  assumes "generateRun a ids s = Inr (r, s')" "books s"
  obtains f where "paper ` set (payouts s') = (\<lambda>p. (po_id p, po_tenantId p, case f (po_id p) of None \<Rightarrow> po_checkNumber p | Some n \<Rightarrow> Some n)) ` set (payouts s)"
    "\<forall>p \<in> set (payouts s). \<forall>n. f (po_id p) = Some n \<longrightarrow> po_tenantId p = ac_tenantId a \<and> po_checkNumber p = None"
    "\<forall>i n. f i = Some n \<longrightarrow> lastCheckNumber s (ac_tenantId a) < n \<and> n \<le> lastCheckNumber s' (ac_tenantId a)"
    "\<forall>i j n. f i = Some n \<longrightarrow> f j = Some n \<longrightarrow> i = j"
    "\<forall>t. lastCheckNumber s t \<le> lastCheckNumber s' t" "\<forall>t. t \<noteq> ac_tenantId a \<longrightarrow> lastCheckNumber s' t = lastCheckNumber s t"
    "campaigns s' = campaigns s"
proof -
  let ?n = "lastCheckNumber s (ac_tenantId a)"
  have d: "distinct (map po_id (payouts s))" using assms(2) by (simp add: books_def settlementOk_def settlementLinks_def settlementIds_def)
  obtain assigned skipped where r: "r = (assigned, skipped)" by (cases r)
  from assms(1) [unfolded r] d obtain ts where ts: "map fst ts = checkTargets (ac_tenantId a) ids s"
    and pay: "payouts s' = map (stamp (marksFrom ?n ts)) (payouts s)"
    and sp: "map (\<lambda>k. (ak_payoutId k, ak_checkNumber k)) assigned = map (\<lambda>(i, n, x). (i, n)) (marksFrom ?n ts)"
    and cnt: "lastCheckNumber s' (ac_tenantId a) = ?n + int (length assigned)"
      "\<forall>t. t \<noteq> ac_tenantId a \<longrightarrow> lastCheckNumber s' t = lastCheckNumber s t" "campaigns s' = campaigns s"
    by (rule generateRun_cases)
  have len: "length assigned = length (marksFrom ?n ts)" using map_eq_imp_length_eq [OF sp] .
  define f where "f = map_of (map (\<lambda>(i, n, x). (i, n)) (marksFrom ?n ts))"
  have f: "f i = map_option fst (map_of (marksFrom ?n ts) i)" for i unfolding f_def by (rule marks_lookup)
  show ?thesis
  proof (rule that [of f])
    show "paper ` set (payouts s') = (\<lambda>p. (po_id p, po_tenantId p, case f (po_id p) of None \<Rightarrow> po_checkNumber p | Some n \<Rightarrow> Some n)) ` set (payouts s)"
      unfolding pay set_map image_image stamp_paper f by (rule image_cong) (auto split: option.split)
    show "\<forall>p \<in> set (payouts s). \<forall>n. f (po_id p) = Some n \<longrightarrow> po_tenantId p = ac_tenantId a \<and> po_checkNumber p = None"
    proof (intro ballI allI impI)
      fix p n assume p: "p \<in> set (payouts s)" "f (po_id p) = Some n"
      obtain x where "(po_id p, n, x) \<in> set (marksFrom ?n ts)" using p(2) unfolding f by (auto dest: map_of_SomeD)
      then obtain q m u where q: "(q, m, u) \<in> set ts" "po_id p = po_id q" using marksFrom_member by blast
      have "q \<in> set (map fst ts)" using q(1) by force
      then have qs: "q \<in> set (payouts s)" "unnumberedCheck (ac_tenantId a) ids q" unfolding ts by (simp_all add: checkTargets_def)
      then have "q = p" using q(2) p(1) d inj_onD [of po_id "set (payouts s)" q p] by (simp add: distinct_map)
      then show "po_tenantId p = ac_tenantId a \<and> po_checkNumber p = None" using qs(2) by (simp add: unnumberedCheck_def isCheck_def)
    qed
    show "\<forall>i n. f i = Some n \<longrightarrow> ?n < n \<and> n \<le> lastCheckNumber s' (ac_tenantId a)"
      unfolding f_def using marks_number(1,2) by (simp add: cnt(1) len)
    show "\<forall>i j n. f i = Some n \<longrightarrow> f j = Some n \<longrightarrow> i = j"
      unfolding f_def by (intro allI impI) (rule marks_number(3))
    show "\<forall>t. lastCheckNumber s t \<le> lastCheckNumber s' t"
    proof
      show "lastCheckNumber s t \<le> lastCheckNumber s' t" for t using cnt(1,2) by (cases "t = ac_tenantId a") simp_all
    qed
  qed (use cnt in simp_all)
qed

lemma checkNumbersOk_run:
  assumes "generateRun a ids s = Inr (r, s')" "books s" "checkNumbersOk s"
  shows "checkNumbersOk s' \<and> numbersKept s s'"
proof -
  from assms(1,2) obtain f where P: "paper ` set (payouts s') = (\<lambda>p. (po_id p, po_tenantId p, case f (po_id p) of None \<Rightarrow> po_checkNumber p | Some n \<Rightarrow> Some n)) ` set (payouts s)"
    and f: "\<forall>p \<in> set (payouts s). \<forall>n. f (po_id p) = Some n \<longrightarrow> po_tenantId p = ac_tenantId a \<and> po_checkNumber p = None"
      "\<forall>i n. f i = Some n \<longrightarrow> lastCheckNumber s (ac_tenantId a) < n \<and> n \<le> lastCheckNumber s' (ac_tenantId a)"
      "\<forall>i j n. f i = Some n \<longrightarrow> f j = Some n \<longrightarrow> i = j"
    and c: "\<forall>t. lastCheckNumber s t \<le> lastCheckNumber s' t"
    by (rule generateRun_papers)
  note f = f(1) [rule_format] f(2) [rule_format] f(3) [rule_format] and c = c [rule_format]
  have at: "(po_id p, po_tenantId p, Some n) \<in> paper ` set (payouts s)" if "p \<in> set (payouts s)" "po_checkNumber p = Some n" for p n
    by (rule image_eqI [OF _ that(1)]) (simp add: paper_def that(2))
  have bound: "(i, t, Some n) \<in> paper ` set (payouts s) \<Longrightarrow> n \<le> lastCheckNumber s t"
    and uniq: "(i, t, Some n) \<in> paper ` set (payouts s) \<Longrightarrow> (j, t, Some n) \<in> paper ` set (payouts s) \<Longrightarrow> i = j" for i j t n
    using assms(3) unfolding checkNumbersOk_def numbersIn_def by blast+
  have mem: "(i, t, Some n) \<in> paper ` set (payouts s') \<longleftrightarrow>
      (\<exists>p \<in> set (payouts s). i = po_id p \<and> t = po_tenantId p \<and> (f (po_id p) = Some n \<or> f (po_id p) = None \<and> po_checkNumber p = Some n))" for i t n
    unfolding P by (auto split: option.splits)
  have old: "n \<le> lastCheckNumber s (po_tenantId p)" if "p \<in> set (payouts s)" "po_checkNumber p = Some n" for p n
    by (rule bound [OF at [OF that]])
  have "n \<le> lastCheckNumber s' t" if x: "(i, t, Some n) \<in> paper ` set (payouts s')" for i t n
  proof -
    obtain p where p: "p \<in> set (payouts s)" "t = po_tenantId p" "f (po_id p) = Some n \<or> f (po_id p) = None \<and> po_checkNumber p = Some n"
      using x unfolding mem by blast
    show ?thesis using p(3)
    proof
      assume h: "f (po_id p) = Some n"
      then show ?thesis using f(1) [OF p(1) h] f(2) [OF h] p(2) by simp
    next
      assume "f (po_id p) = None \<and> po_checkNumber p = Some n"
      then show ?thesis using old [OF p(1)] c [of t] p(2) by fastforce
    qed
  qed
  moreover have "i = j" if x: "(i, t, Some n) \<in> paper ` set (payouts s')" "(j, t, Some n) \<in> paper ` set (payouts s')" for i j t n
  proof -
    obtain p where p: "p \<in> set (payouts s)" "i = po_id p" "t = po_tenantId p" "f (po_id p) = Some n \<or> f (po_id p) = None \<and> po_checkNumber p = Some n"
      using x(1) unfolding mem by blast
    obtain q where q: "q \<in> set (payouts s)" "j = po_id q" "t = po_tenantId q" "f (po_id q) = Some n \<or> f (po_id q) = None \<and> po_checkNumber q = Some n"
      using x(2) unfolding mem by blast
    have mixed: False if "x \<in> set (payouts s)" "y \<in> set (payouts s)" "po_tenantId x = po_tenantId y" "f (po_id x) = Some n" "po_checkNumber y = Some n" for x y
      using f(1) [OF that(1,4)] f(2) [OF that(4)] old [OF that(2,5)] that(3) by simp
    have t: "po_tenantId p = po_tenantId q" using p(3) q(3) by simp
    have "po_id p = po_id q"
    proof (cases "f (po_id p) = Some n")
      case True
      then have "f (po_id q) = Some n" using q(4) mixed [OF p(1) q(1) t] by blast
      then show ?thesis by (rule f(3) [OF True])
    next
      case False
      then have n: "po_checkNumber p = Some n" using p(4) by blast
      then have "po_checkNumber q = Some n" using q(4) mixed [OF q(1) p(1) t [symmetric]] by blast
      then show ?thesis using uniq [OF at [OF p(1) n]] at [OF q(1)] t by simp
    qed
    then show ?thesis using p(2) q(2) by simp
  qed
  ultimately have "checkNumbersOk s'" by (auto simp: checkNumbersOk_def numbersIn_def)
  moreover have "numbersKept s s'"
    unfolding numbersKept_def mem using f(1) by (fastforce simp: paper_def)
  ultimately show ?thesis by simp
qed

lemma engineStep_numbers:
  assumes "engineStep s s'" "books s" "checkNumbersOk s"
  shows "checkNumbersOk s' \<and> numbersKept s s'"
  using assms(1)
proof (cases rule: engineStep_side)
  case kept
  then show ?thesis using assms(3) checkNumbersOk_side numbersKept_side by blast
next
  case (numbered a ids r)
  then show ?thesis by (rule checkNumbersOk_run [OF _ assms(2,3)])
next
  case campaign
  then have "payouts s' = payouts s" "tenants s' = tenants s" by (simp_all add: campaignStep_frames)
  then show ?thesis using assms(3) by (simp add: checkNumbersOk_def numbersKept_def lastCheckNumber_def [abs_def] findTenant_def)
qed

interpretation num: recorded engineStep "\<lambda>s. books s \<and> checkNumbersOk s" numbersKept
proof
  show "books s' \<and> checkNumbersOk s'" if "engineStep s s'" "books s \<and> checkNumbersOk s" for s s'
    using that engineStep_books engineStep_numbers by blast
  show "numbersKept s s'" if "engineStep s s'" "books s \<and> checkNumbersOk s" for s s'
    using that engineStep_numbers by blast
qed (simp_all add: numbersKept_def)

text \<open>
  C21: Over any run no two checks of a tenant carry the same number, although no index of the database says so,
  and a payout never loses or changes the number it was given.
\<close>

theorem check_numbers_unique:
  assumes "engineStep\<^sup>*\<^sup>* s s'" "books s" "checkNumbersOk s"
  shows "(\<forall>p \<in> set (payouts s'). \<forall>q \<in> set (payouts s'). po_tenantId p = po_tenantId q \<and> po_checkNumber p = po_checkNumber q \<and>
       po_checkNumber p \<noteq> None \<longrightarrow> p = q) \<and>
     (\<forall>p \<in> set (payouts s). po_checkNumber p \<noteq> None \<longrightarrow>
       (\<exists>p' \<in> set (payouts s'). po_id p' = po_id p \<and> po_checkNumber p' = po_checkNumber p))"
proof (intro conjI ballI impI)
  have inv: "books s'" "checkNumbersOk s'" and rel: "numbersKept s s'"
    using num.always [OF assms(1)] num.over_run [OF assms(1)] assms(2,3) by simp_all
  fix p q assume pq: "p \<in> set (payouts s')" "q \<in> set (payouts s')"
    and same: "po_tenantId p = po_tenantId q \<and> po_checkNumber p = po_checkNumber q \<and> po_checkNumber p \<noteq> None"
  have "\<exists>n. po_checkNumber p = Some n" using conjunct2 [OF conjunct2 [OF same]] by simp
  then obtain n where "po_checkNumber p = Some n" by blast
  then have "paper p = (po_id p, po_tenantId q, Some n)" "paper q = (po_id q, po_tenantId q, Some n)"
    using same by (simp_all add: paper_def)
  then have "(po_id p, po_tenantId q, Some n) \<in> paper ` set (payouts s')" "(po_id q, po_tenantId q, Some n) \<in> paper ` set (payouts s')"
    using pq by (metis imageI)+
  then have "po_id p = po_id q" using inv(2) unfolding checkNumbersOk_def numbersIn_def by blast
  moreover have "distinct (map po_id (payouts s'))" using inv(1) by (simp add: books_def settlementOk_def settlementLinks_def settlementIds_def)
  ultimately show "p = q" using pq inj_onD [of po_id "set (payouts s')" p q] by (simp add: distinct_map)
next
  have rel: "numbersKept s s'" using num.over_run [OF assms(1)] assms(2,3) by simp
  fix p assume p: "p \<in> set (payouts s)" "po_checkNumber p \<noteq> None"
  then obtain n where n: "po_checkNumber p = Some n" by blast
  have "(po_id p, po_tenantId p, Some n) \<in> paper ` set (payouts s)"
    by (rule image_eqI [OF _ p(1)]) (simp add: paper_def n)
  then have "(po_id p, po_tenantId p, Some n) \<in> paper ` set (payouts s')" using rel by (simp add: numbersKept_def)
  then show "\<exists>p' \<in> set (payouts s'). po_id p' = po_id p \<and> po_checkNumber p' = po_checkNumber p" using n by (auto simp: paper_def)
qed

lemma check_numbers_unique_witness:
  "\<exists>s'. engineStep\<^sup>*\<^sup>* demo_checks s' \<and> s' \<noteq> demo_checks \<and> \<not> (\<exists>p \<in> set (payouts s'). \<exists>q \<in> set (payouts s'). p \<noteq> q \<and>
     po_tenantId p = po_tenantId q \<and> po_checkNumber p = po_checkNumber q \<and> po_checkNumber p \<noteq> None)"
proof -
  obtain r s' where s': "generateRun \<lparr>ac_userId = 2, ac_tenantId = 1\<rparr> None demo_checks = Inr ((r, []), s')" "length r = 1"
    using demo_check_run by force
  have "distinct (map po_id (payouts demo_checks))" by (simp add: demo_checks_def)
  with s'(1) have "lastCheckNumber s' 1 = 1001" by (rule generateRun_cases) (simp add: s'(2) demo_counter del: One_nat_def)
  then have ne: "s' \<noteq> demo_checks" using demo_counter by auto
  have run: "engineStep\<^sup>*\<^sup>* demo_checks s'" using check_run_step [OF s'(1)] by blast
  have "checkNumbersOk demo_checks"
    by (simp add: checkNumbersOk_def numbersIn_def paper_def demo_checks_def demo_payout_def newPayout_def)
  from check_numbers_unique [OF run demo_checks_books this] show ?thesis using run ne by blast
qed

end
