(* ===== verification/Campaign_Theorems.thy ===== *)
theory Campaign_Theorems
  imports Side_Tables Engine_Theorems
begin

text \<open>
  The end of a campaign: the ranking it freezes, the bonus rows it posts, and that it happens once - over any
  run after it in which no edit of a campaign was overtaken, by hand or by the hourly job, no second end of the
  same campaign succeeds.  An edit overtaken by the end reopens the campaign, and it pays again: the last lemma
  runs that race.
\<close>

section \<open>The ranking\<close>

lemma standings_list:
  "standings g t c s = map (\<lambda>i. standingAt c s (Suc i) (scored g t c s ! i)) [0..<length (scored g t c s)]"
  by (rule nth_equalityI) (simp_all add: standings_def nth_enumerate_eq)

lemma standings_frame:
  "sales s' = sales s \<Longrightarrow> memberships s' = memberships s \<Longrightarrow> users s' = users s \<Longrightarrow> invites s' = invites s \<Longrightarrow>
   standings g t c s' = standings g t c s"
  by (simp add: standings_def scored_def metricRows_def standingAt_def findMembership_def findUser_def Let_def cong: campaign_metric.case_cong)

lemma scored_sorted: "sorted_wrt (\<lambda>x y. snd y \<le> snd x) (scored g t c s)"
proof -
  have "sorted (map (\<lambda>x. - snd x) (sort_key (\<lambda>x. - snd x) xs))" for xs :: "(uuid \<times> int) list" by (rule sorted_sort_key)
  then have "sorted_wrt (\<lambda>x y. snd y \<le> snd x) (sort_key (\<lambda>x. - snd x) xs)" for xs :: "(uuid \<times> int) list"
    by (simp add: sorted_map)
  then show ?thesis unfolding scored_def Let_def by (rule sorted_wrt_take)
qed

lemma standings_ranked:
  "map st_rank (standings g t c s) = [1..<Suc (length (standings g t c s))]" "length (standings g t c s) \<le> MAX_STANDINGS"
  "sorted_wrt (\<lambda>x y. st_score y \<le> st_score x) (standings g t c s)"
  "x \<in> set (standings g t c s) \<Longrightarrow> 0 < st_score x \<and> st_bonusCents x = bonusOfRank (cp_prizes c) (st_rank x)"
proof -
  have at: "st_rank (standingAt c s k y) = k" "st_score (standingAt c s k y) = snd y" "st_bonusCents (standingAt c s k y) = bonusOfRank (cp_prizes c) k" for k y
    by (cases y; simp add: standingAt_def Let_def)+
  have len: "length (standings g t c s) = length (scored g t c s)" by (simp add: standings_list)
  show "map st_rank (standings g t c s) = [1..<Suc (length (standings g t c s))]"
    unfolding len unfolding standings_list by (simp add: comp_def at map_Suc_upt)
  show "length (standings g t c s) \<le> MAX_STANDINGS" by (simp add: len scored_def Let_def)
  show "sorted_wrt (\<lambda>x y. st_score y \<le> st_score x) (standings g t c s)"
    using scored_sorted [of g t c s] unfolding standings_list by (simp add: sorted_wrt_iff_nth_less at)
  assume "x \<in> set (standings g t c s)"
  then obtain i where i: "i < length (scored g t c s)" "x = standingAt c s (Suc i) (scored g t c s ! i)" by (auto simp: standings_list)
  have "scored g t c s ! i \<in> set (scored g t c s)" using i(1) by simp
  then have "0 < snd (scored g t c s ! i)" by (auto simp: scored_def Let_def dest: in_set_takeD)
  then show "0 < st_score x \<and> st_bonusCents x = bonusOfRank (cp_prizes c) (st_rank x)" by (simp add: i(2) at)
qed

section \<open>The rows\<close>

definition prizeRow :: "uuid \<Rightarrow> string \<Rightarrow> standing \<Rightarrow> ledger_entry" where
  "prizeRow t month x = stripRow (newEntry t None (st_membershipId x) 0 0 (st_bonusCents x) Adjustment LePayable None (Some month))"

lemma awardPrize_posted:
  assumes "awardPrize E t c month actor x s = Inr s'"
  shows "posted s s' (if 0 < st_bonusCents x then [prizeRow t month x] else [])"
proof (cases "0 < st_bonusCents x")
  case True
  then obtain i where "awardBonusInTx E (prizeBonus t c month actor x) s = Inr (i, s')" using assms by (auto simp: awardPrize_def)
  from awardBonusInTx_posted [OF this] show ?thesis using True by (simp add: prizeRow_def prizeBonus_def)
qed (use assms in \<open>simp add: awardPrize_def\<close>)

lemma awardPrizes_posted:
  "foldRes (awardPrize E t c month actor) xs s = Inr s' \<Longrightarrow> posted s s' (map (prizeRow t month) (filter (\<lambda>x. 0 < st_bonusCents x) xs))"
proof (induction xs arbitrary: s)
  case (Cons x xs)
  then obtain u where u: "awardPrize E t c month actor x s = Inr u" "foldRes (awardPrize E t c month actor) xs u = Inr s'" by auto
  show ?case using posted_trans [OF awardPrize_posted [OF u(1)] Cons.IH [OF u(2)]] by (cases "0 < st_bonusCents x") simp_all
qed simp

section \<open>Runs without an overtaken edit\<close>

text \<open>
  An edit reads the campaign in \<open>sr\<close> and writes it in \<open>s\<close>.  It was not overtaken if the row it read is
  still the row it would read; this is asked of the removals and of the edits that set a status, every other
  write may interleave at will.
\<close>

definition readAgain :: "actor \<Rightarrow> uuid \<Rightarrow> db \<Rightarrow> db \<Rightarrow> bool" where
  "readAgain a i sr s \<longleftrightarrow> requireCampaign (ac_tenantId a) i sr = requireCampaign (ac_tenantId a) i s"

inductive orderlyStep :: "db \<Rightarrow> db \<Rightarrow> bool" where
  elsewhere: "engineStep s s' \<Longrightarrow> campaigns s' = campaigns s \<Longrightarrow> orderlyStep s s'"
| created: "createCampaign E a cn s = Inr (v, s') \<Longrightarrow> orderlyStep s s'"
| edited: "updateCampaign a i patch sr s = Inr (v, s') \<Longrightarrow> cu_status patch = None \<or> readAgain a i sr s \<Longrightarrow> orderlyStep s s'"
| removed: "removeCampaign a i sr s = Inr s' \<Longrightarrow> readAgain a i sr s \<Longrightarrow> orderlyStep s s'"
| finished: "doFinalize E groupOrder t c actor s = Inr (fz, s') \<Longrightarrow> orderlyStep s s'"

lemma orderly_engine: "orderlyStep s s' \<Longrightarrow> engineStep s s'"
  by (induction rule: orderlyStep.induct) (auto intro: engineStep.intros)

text \<open>Every step that is not a write of the campaign service is orderly.\<close>

lemma engine_orderly: "engineStep s s' \<Longrightarrow> \<not> campaignStep s s' \<Longrightarrow> books s \<Longrightarrow> orderlyStep s s'"
  by (cases rule: engineStep_side, assumption) (auto simp: sideKeeps_def dest: generateRun_campaigns intro: orderlyStep.elsewhere)

section \<open>An ended campaign stays ended\<close>

definition campaignKeys :: "db \<Rightarrow> bool" where
  "campaignKeys s \<longleftrightarrow> distinct (map cp_id (campaigns s))"

definition endedKept :: "db \<Rightarrow> db \<Rightarrow> bool" where
  "endedKept s s' \<longleftrightarrow> (\<forall>c \<in> set (campaigns s). cp_status c = CampaignEnded \<longrightarrow>
     (\<exists>c' \<in> set (campaigns s'). cp_id c' = cp_id c \<and> cp_status c' = CampaignEnded \<and> cp_results c' = cp_results c))"

lemma campaign_by_id:
  "campaignKeys s \<Longrightarrow> x \<in> set (campaigns s) \<Longrightarrow> y \<in> set (campaigns s) \<Longrightarrow> cp_id x = cp_id y \<Longrightarrow> x = y"
  using inj_onD [of cp_id "set (campaigns s)" x y] by (simp add: campaignKeys_def distinct_map)

lemma endedKept_update:
  assumes "campaigns s' = updateWhere P f (campaigns s)"
    "\<And>x. x \<in> set (campaigns s) \<Longrightarrow> P x \<Longrightarrow> cp_status x = CampaignEnded \<Longrightarrow>
       cp_id (f x) = cp_id x \<and> cp_status (f x) = CampaignEnded \<and> cp_results (f x) = cp_results x"
  shows "endedKept s s'"
  unfolding endedKept_def
proof (intro ballI impI)
  fix c assume c: "c \<in> set (campaigns s)" "cp_status c = CampaignEnded"
  then have "(if P c then f c else c) \<in> set (campaigns s')" by (auto simp: assms(1) updateWhere_def)
  then show "\<exists>c' \<in> set (campaigns s'). cp_id c' = cp_id c \<and> cp_status c' = CampaignEnded \<and> cp_results c' = cp_results c"
    by (rule bexI [rotated]) (use assms(2) c in auto)
qed

text \<open>A write that spares ended campaigns, and keeps the keys.\<close>

lemma spared:
  assumes "campaigns s' = updateWhere P f (campaigns s)" "\<And>x. x \<in> set (campaigns s) \<Longrightarrow> P x \<Longrightarrow> cp_status x \<noteq> CampaignEnded"
    "\<And>x. cp_id (f x) = cp_id x" "campaignKeys s"
  shows "campaignKeys s' \<and> endedKept s s'"
proof -
  have "map cp_id (campaigns s') = map cp_id (campaigns s)" unfolding assms(1) by (rule map_updateWhere_id) (rule assms(3))
  moreover have "endedKept s s'" by (rule endedKept_update [OF assms(1)]) (use assms(2) in blast)
  ultimately show ?thesis using assms(4) by (simp add: campaignKeys_def)
qed

lemma endedKept_trans: "endedKept s t \<Longrightarrow> endedKept t u \<Longrightarrow> endedKept s u"
  unfolding endedKept_def by metis

lemma requireCampaignD: "requireCampaign t i s = Inr c \<Longrightarrow> c \<in> set (campaigns s) \<and> cp_id c = i"
  by (auto simp: requireCampaign_def dest: find_SomeD)

lemma createCampaign_ended:
  "createCampaign E a cn s = Inr (v, s') \<Longrightarrow> campaignKeys s \<Longrightarrow> campaignKeys s' \<and> endedKept s s'"
  by (auto simp: createCampaign_def campaignAudit_def serviceAudit_def drawId_def Let_def campaignKeys_def endedKept_def)

lemma updateCampaign_ended:
  assumes "updateCampaign a i patch sr s = Inr (v, s')" "cu_status patch = None \<or> readAgain a i sr s" "campaignKeys s"
  shows "campaignKeys s' \<and> endedKept s s'"
proof -
  obtain c where c: "requireCampaign (ac_tenantId a) i sr = Inr c" "cp_status c \<noteq> CampaignEnded"
    "campaigns s' = updateWhere (\<lambda>x. cp_id x = cp_id c) (patched patch) (campaigns s)"
    using assms(1) by (auto simp: updateCampaign_def campaignAudit_def serviceAudit_def Let_def)
  show ?thesis
  proof (cases "cu_status patch")
    case None
    have "map cp_id (campaigns s') = map cp_id (campaigns s)" unfolding c(3) by (rule map_updateWhere_id) (simp add: patched_def)
    moreover have "endedKept s s'" by (rule endedKept_update [OF c(3)]) (simp add: patched_def orKeep_def None)
    ultimately show ?thesis using assms(3) by (simp add: campaignKeys_def)
  next
    case (Some st)
    then have "c \<in> set (campaigns s)" using assms(2) c(1) requireCampaignD by (simp add: readAgain_def)
    then have "cp_status x \<noteq> CampaignEnded" if "x \<in> set (campaigns s)" "cp_id x = cp_id c" for x
      using campaign_by_id [OF assms(3) that(1) _ that(2)] c(2) by blast
    then show ?thesis by (intro spared [OF c(3) _ _ assms(3)]) (simp_all add: patched_def)
  qed
qed

lemma removeCampaign_ended:
  assumes "removeCampaign a i sr s = Inr s'" "readAgain a i sr s" "campaignKeys s"
  shows "campaignKeys s' \<and> endedKept s s'"
proof -
  obtain c where c: "requireCampaign (ac_tenantId a) i s = Inr c" "cp_status c = CampaignDraft"
    "campaigns s' = filter (\<lambda>x. cp_id x \<noteq> cp_id c) (campaigns s)"
    using assms(1,2) by (auto simp: removeCampaign_def readAgain_def campaignAudit_def serviceAudit_def)
  have "x = c" if "x \<in> set (campaigns s)" "cp_id x = cp_id c" for x
    using campaign_by_id [OF assms(3) that(1) _ that(2)] requireCampaignD [OF c(1)] by blast
  then have "cp_id x \<noteq> cp_id c" if "x \<in> set (campaigns s)" "cp_status x = CampaignEnded" for x using that c(2) by fastforce
  then show ?thesis using assms(3) by (auto simp: campaignKeys_def endedKept_def c(3) distinct_map_filter)
qed

text \<open>After its end a campaign is in the table, ended, with the ranking as its results.\<close>

lemma doFinalize_ended:
  assumes "doFinalize E g t c actor s = Inr (r, s')" "campaignKeys s"
  shows "campaignKeys s' \<and> endedKept s s' \<and> (\<exists>x \<in> set (campaigns s'). cp_id x = cp_id c \<and> cp_status x = CampaignEnded \<and>
     cp_results x = Some (fz_standings r))"
  using assms(1)
proof (rule doFinalize_cases)
  fix tenant s1 s2 x s3
  let ?P = "claimable_campaign t c" and ?st = "standings g t c s1"
  assume cl: "claimCampaign E t c s = Inr s1" and st: "storeResults (cp_id c) ?st s2 = Inr (x, s3)"
    and f: "foldRes (awardPrize E t c (env_month E (env_now E) (tn_timezone tenant)) actor) ?st s1 = Inr s2"
    and s': "\<exists>au. s' = s3\<lparr>audits := au\<rparr>" and r: "r = \<lparr>fz_campaign = serialize x, fz_standings = ?st,
       fz_awardedCount = length (filter (\<lambda>x. 0 < st_bonusCents x) ?st)\<rparr>"
  let ?f = "\<lambda>x. x\<lparr>cp_status := CampaignEnded, cp_finalizedAt := Some (env_now E)\<rparr>"
  have c1: "countWhere ?P (campaigns s) = 1" "campaigns s1 = updateWhere ?P ?f (campaigns s)"
    using cl by (auto simp: claimCampaign_def)
  have "filter ?P (campaigns s) \<noteq> []" using c1(1) by (auto simp: countWhere_def)
  then obtain y where y: "y \<in> set (campaigns s)" "?P y" by (auto simp: filter_empty_conv)
  have sp: "?P z \<Longrightarrow> cp_status z \<noteq> CampaignEnded" for z by (auto simp: claimable_campaign_def)
  have k1: "campaignKeys s1 \<and> endedKept s s1" by (rule spared [OF c1(2) _ _ assms(2)]) (simp_all add: sp)
  have y1: "?f y \<in> set (campaigns s1)" unfolding c1(2) set_updateWhere using y by force
  have c3: "campaigns s' = updateWhere (\<lambda>z. cp_id z = cp_id c) (\<lambda>z. z\<lparr>cp_results := Some ?st\<rparr>) (campaigns s1)"
    using st s' awardPrize_frames [OF f] by (auto simp: storeResults_def)
  have yid: "cp_id y = cp_id c" using y(2) by (simp add: claimable_campaign_def)
  have "map cp_id (campaigns s') = map cp_id (campaigns s1)" unfolding c3 by (rule map_updateWhere_id) simp
  then have "campaignKeys s'" using k1 by (simp add: campaignKeys_def)
  moreover have "z \<in> set (campaigns s')" if z: "z \<in> set (campaigns s)" "cp_status z = CampaignEnded" for z
  proof -
    have "z \<noteq> y" using z(2) sp [OF y(2)] by auto
    then have "cp_id z \<noteq> cp_id c" using campaign_by_id [OF assms(2) z(1) y(1)] yid by auto
    moreover have "\<not> ?P z" using z(2) sp by blast
    then have "z \<in> set (campaigns s1)" unfolding c1(2) set_updateWhere using z(1) by force
    ultimately show ?thesis unfolding c3 set_updateWhere by force
  qed
  then have "endedKept s s'" by (auto simp: endedKept_def)
  moreover have "(?f y)\<lparr>cp_results := Some ?st\<rparr> \<in> set (campaigns s')"
    unfolding c3 set_updateWhere using y1 yid by (intro image_eqI [OF _ y1]) simp
  ultimately show ?thesis using yid r by (intro conjI bexI [of _ "(?f y)\<lparr>cp_results := Some ?st\<rparr>"]) simp_all
qed

lemma orderlyStep_ended:
  assumes "orderlyStep s s'" "campaignKeys s"
  shows "campaignKeys s' \<and> endedKept s s'"
  using assms(1)
proof cases
  case elsewhere
  then show ?thesis using assms(2) by (auto simp: campaignKeys_def endedKept_def)
next
  case created
  then show ?thesis by (rule createCampaign_ended [OF _ assms(2)])
next
  case edited
  then show ?thesis by (rule updateCampaign_ended [OF _ _ assms(2)])
next
  case removed
  then show ?thesis by (rule removeCampaign_ended [OF _ _ assms(2)])
next
  case finished
  then show ?thesis using doFinalize_ended [OF _ assms(2)] by blast
qed

interpretation ends: recorded orderlyStep "\<lambda>s. books s \<and> campaignKeys s" endedKept
proof
  show "books s' \<and> campaignKeys s'" if "orderlyStep s s'" "books s \<and> campaignKeys s" for s s'
    using that engineStep_books [OF orderly_engine] orderlyStep_ended by blast
  show "endedKept s s'" if "orderlyStep s s'" "books s \<and> campaignKeys s" for s s'
    using that orderlyStep_ended by blast
  show "endedKept s u" if "endedKept s t" "endedKept t u" for s t u using that by (rule endedKept_trans)
qed (auto simp: endedKept_def)

section \<open>A campaign ends once\<close>

lemma finalize_ended_fails:
  assumes "campaignKeys s" "x \<in> set (campaigns s)" "cp_id x = cp_id c" "cp_status x = CampaignEnded"
  shows "\<exists>e. doFinalize E g t c actor s = Inl e"
proof -
  have "\<not> claimable_campaign t c y" if "y \<in> set (campaigns s)" for y
    using campaign_by_id [OF assms(1) that assms(2)] assms(3,4) by (auto simp: claimable_campaign_def)
  then have "countWhere (claimable_campaign t c) (campaigns s) = 0" by (simp add: countWhere_def filter_empty_conv)
  then have "claimCampaign E t c s = Inl (Conflict ''kampanya zaten bitirilmis'')" by (simp add: claimCampaign_def)
  then show ?thesis by (simp add: doFinalize_def require_def Let_def) (cases "tenantOrThrow s t"; simp)
qed

text \<open>
  C20: Ending a campaign freezes its ranking - at most fifty members by falling score - and appends exactly one
  payable row per ranked member with a prize, of that prize; and it happens once: over any run after it in which
  no removal and no edit of a status was overtaken between its read and its write, whatever copy of the campaign
  a caller of the end has read before, by hand or by the hourly job, no end of the same campaign succeeds, and
  the campaign stays ended with its results.
\<close>

theorem campaign_pays_once:
  assumes "doFinalize E g t c actor s = Inr (r, s1)" "books s" "campaignKeys s" "orderlyStep\<^sup>*\<^sup>* s1 s2"
  shows "fz_standings r = standings g t c s \<and> (\<exists>rows month. ledger s1 = ledger s @ rows \<and>
       map stripRow rows = map (prizeRow t month) (filter (\<lambda>x. 0 < st_bonusCents x) (fz_standings r))) \<and>
     map st_rank (fz_standings r) = [1..<Suc (length (fz_standings r))] \<and> length (fz_standings r) \<le> 50 \<and>
     sorted_wrt (\<lambda>x y. st_score y \<le> st_score x) (fz_standings r) \<and>
     (\<forall>x \<in> set (fz_standings r). 0 < st_score x \<and> st_bonusCents x = bonusOfRank (cp_prizes c) (st_rank x)) \<and>
     (\<exists>x \<in> set (campaigns s2). cp_id x = cp_id c \<and> cp_status x = CampaignEnded \<and> cp_results x = Some (fz_standings r)) \<and>
     (cp_id c2 = cp_id c \<longrightarrow> (\<exists>e. doFinalize E2 g2 t2 c2 actor2 s2 = Inl e))"
proof -
  note en = doFinalize_ended [OF assms(1,3)]
  have inv1: "books s1 \<and> campaignKeys s1" using doFinalize_books [OF assms(1,2)] en by simp
  then have inv2: "campaignKeys s2" and kept: "endedKept s1 s2" using ends.always [OF assms(4)] ends.over_run [OF assms(4)] by simp_all
  have stays: "\<exists>x \<in> set (campaigns s2). cp_id x = cp_id c \<and> cp_status x = CampaignEnded \<and> cp_results x = Some (fz_standings r)"
    using en kept unfolding endedKept_def by metis
  then have once: "\<exists>e. doFinalize E2 g2 t2 c2 actor2 s2 = Inl e" if "cp_id c2 = cp_id c"
    using finalize_ended_fails [OF inv2] that by metis
  have "fz_standings r = standings g t c s \<and> (\<exists>rows month. ledger s1 = ledger s @ rows \<and>
       map stripRow rows = map (prizeRow t month) (filter (\<lambda>x. 0 < st_bonusCents x) (fz_standings r)))"
    using assms(1)
  proof (rule doFinalize_cases)
    fix tenant u u2 x u3
    assume cl: "claimCampaign E t c s = Inr u" and st: "storeResults (cp_id c) (standings g t c u) u2 = Inr (x, u3)"
      and f: "foldRes (awardPrize E t c (env_month E (env_now E) (tn_timezone tenant)) actor) (standings g t c u) u = Inr u2"
      and s1: "\<exists>au. s1 = u3\<lparr>audits := au\<rparr>" and r: "r = \<lparr>fz_campaign = serialize x, fz_standings = standings g t c u,
         fz_awardedCount = length (filter (\<lambda>x. 0 < st_bonusCents x) (standings g t c u))\<rparr>"
    have l: "ledger u = ledger s" "ledger s1 = ledger u2" using cl st s1 by (auto simp: claimCampaign_def storeResults_def)
    have "standings g t c u = standings g t c s" using cl by (intro standings_frame) (auto simp: claimCampaign_def)
    then show ?thesis using awardPrizes_posted [OF f] l r by (auto simp: posted_def)
  qed
  then have eq: "fz_standings r = standings g t c s" and post: "\<exists>rows month. ledger s1 = ledger s @ rows \<and>
       map stripRow rows = map (prizeRow t month) (filter (\<lambda>x. 0 < st_bonusCents x) (fz_standings r))" by blast+
  note rk = standings_ranked [where g = g and t = t and c = c and s = s, folded eq, unfolded MAX_STANDINGS_def]
  show ?thesis using eq post rk stays once by blast
qed

text \<open>Witness: a contest for new recruits, with a prize of 50.00 for the first rank.\<close>

definition demo_campaign :: campaign where
  "demo_campaign = \<lparr>cp_id = 500, cp_tenantId = 1, cp_name = ''Autumn'', cp_description = None, cp_metric = MetricNewRecruits,
     cp_startsAt = 1690000000000, cp_endsAt = 1699500000000, cp_status = CampaignActive,
     cp_prizes = [\<lparr>pz_rank = 1, pz_bonusCents = 5000\<rparr>], cp_results = None, cp_createdBy = Some 2, cp_finalizedAt = None,
     cp_createdAt = 0\<rparr>"

definition demo_contest :: db where
  "demo_contest = demo_db\<lparr>campaigns := [demo_campaign]\<rparr>"

lemma demo_ranking: "map (\<lambda>x. (st_membershipId x, st_bonusCents x)) (standings (\<lambda>ms. ms) 1 demo_campaign demo_contest) = [(12, 5000), (11, 0)]"
  by code_simp

lemma awardBonus_open:
  "periodLocks s = [] \<Longrightarrow> \<exists>i s'. awardBonusInTx E p s = Inr (i, s') \<and> periodLocks s' = []"
  by (simp add: awardBonusInTx_def assertPeriodsOpen_def createLedgerEntry_def ledgerKeyTaken_def newEntry_def Let_def
      audit_def createNotification_def bumpSummary_def drawId_def)

lemma awardPrizes_open: "periodLocks s = [] \<Longrightarrow> \<exists>s'. foldRes (awardPrize E t c month actor) xs s = Inr s'"
proof (induction xs arbitrary: s)
  case (Cons x xs)
  have "\<exists>u. awardPrize E t c month actor x s = Inr u \<and> periodLocks u = []"
    using awardBonus_open [OF Cons.prems, of E "prizeBonus t c month actor x"] Cons.prems by (auto simp: awardPrize_def)
  then show ?case using Cons.IH by auto
qed simp

text \<open>Where no month is locked, the end of the only campaign succeeds and changes nothing the ranking reads.\<close>

definition contestView :: "db \<Rightarrow> sale list \<times> membership list \<times> user list \<times> invite list \<times> tenant list \<times> period_lock list" where
  "contestView s = (sales s, memberships s, users s, invites s, tenants s, periodLocks s)"

lemma awardPrize_view: "awardPrize E t c month actor x s = Inr s' \<Longrightarrow> contestView s' = contestView s"
  by (auto simp: awardPrize_def awardBonusInTx_def createLedgerEntry_Inr contestView_def Let_def audit_def createNotification_def
      bumpSummary_def drawId_def split: if_splits)

lemma standings_view:
  assumes "contestView s' = contestView s" "cp_metric c' = cp_metric c" "cp_startsAt c' = cp_startsAt c"
    "cp_endsAt c' = cp_endsAt c" "cp_prizes c' = cp_prizes c"
  shows "standings g t c' s' = standings g t c s"
proof -
  have "standings g t c' s' = standings g t c s'"
    using assms(2-5) by (simp add: standings_def scored_def metricRows_def inWindow_def standingAt_def cong: campaign_metric.case_cong)
  also have "\<dots> = standings g t c s" using assms(1) by (intro standings_frame) (simp_all add: contestView_def)
  finally show ?thesis .
qed

lemma only_campaign_ends:
  assumes "campaigns s = [x]" "claimable_campaign t c x" "cp_status c \<noteq> CampaignEnded" "findTenant s t = Some tenant" "periodLocks s = []"
  obtains r s1 rows month where "doFinalize E g t c actor s = Inr (r, s1)" "contestView s1 = contestView s"
    "campaigns s1 = [x\<lparr>cp_status := CampaignEnded, cp_finalizedAt := Some (env_now E), cp_results := Some (fz_standings r)\<rparr>]"
    "ledger s1 = ledger s @ rows" "map stripRow rows = map (prizeRow t month) (filter (\<lambda>y. 0 < st_bonusCents y) (standings g t c s))"
proof -
  let ?m = "env_month E (env_now E) (tn_timezone tenant)"
  define u where "u = s\<lparr>campaigns := [x\<lparr>cp_status := CampaignEnded, cp_finalizedAt := Some (env_now E)\<rparr>]\<rparr>"
  have cl: "claimCampaign E t c s = Inr u"
    using assms(1,2) by (simp add: claimCampaign_def countWhere_def updateWhere_def u_def)
  have v: "contestView u = contestView s" "ledger u = ledger s" by (simp_all add: u_def contestView_def)
  note st = standings_view [where g = g and t = t and c = c and c' = c, OF v(1) refl refl refl refl]
  have "periodLocks u = []" using assms(5) by (simp add: u_def)
  from awardPrizes_open [OF this] obtain u2 where u2: "foldRes (awardPrize E t c ?m actor) (standings g t c s) u = Inr u2" by blast
  have w: "contestView u2 = contestView u"
    by (rule foldRes_invariant [where P = "\<lambda>w. contestView w = contestView u", OF u2]) (use awardPrize_view in force)+
  obtain rows where rows: "ledger u2 = ledger s @ rows"
    "map stripRow rows = map (prizeRow t ?m) (filter (\<lambda>y. 0 < st_bonusCents y) (standings g t c s))"
    using awardPrizes_posted [OF u2] v(2) by (auto simp: posted_def)
  let ?y = "x\<lparr>cp_status := CampaignEnded, cp_finalizedAt := Some (env_now E), cp_results := Some (standings g t c s)\<rparr>"
  have sr: "storeResults (cp_id c) (standings g t c s) u2 = Inr (?y, u2\<lparr>campaigns := [?y]\<rparr>)"
    using awardPrize_frames [OF u2] assms(2) by (simp add: storeResults_def updateWhere_def u_def claimable_campaign_def)
  let ?r = "\<lparr>fz_campaign = serialize ?y, fz_standings = standings g t c s,
    fz_awardedCount = length (filter (\<lambda>y. 0 < st_bonusCents y) (standings g t c s))\<rparr>"
  have "\<exists>au. doFinalize E g t c actor s = Inr (?r, u2\<lparr>campaigns := [?y], audits := au\<rparr>)"
    using assms(3,4) cl u2 sr
    by (simp add: doFinalize_def tenantOrThrow_def Let_def st) (intro conjI impI exI, (rule refl)+)
  then obtain au where "doFinalize E g t c actor s = Inr (?r, u2\<lparr>campaigns := [?y], audits := au\<rparr>)" by blast
  then show ?thesis by (rule that [OF _ _ _ _ rows(2)]) (use w v(1) rows(1) in \<open>simp_all add: contestView_def\<close>)
qed

lemma demo_contest_end:
  "campaigns demo_contest = [demo_campaign]" "claimable_campaign 1 demo_campaign demo_campaign"
  "cp_status demo_campaign \<noteq> CampaignEnded" "findTenant demo_contest 1 = Some demo_tenant" "periodLocks demo_contest = []"
  by (simp_all add: demo_contest_def claimable_campaign_def demo_campaign_def findTenant_def demo_db_def demo_tenant_def)

lemma demo_contest_ends:
  "\<exists>r s1. doFinalize demo_env (\<lambda>ms. ms) 1 demo_campaign (Some 2) demo_contest = Inr (r, s1)"
  by (rule only_campaign_ends [OF demo_contest_end, where E = demo_env and g = "\<lambda>ms. ms" and actor = "Some 2"]) blast

lemma campaign_pays_once_witness:
  "\<exists>r s1. doFinalize demo_env (\<lambda>ms. ms) 1 demo_campaign (Some 2) demo_contest = Inr (r, s1) \<and> length (ledger s1) = 1 \<and>
     (\<exists>e. doFinalize demo_env (\<lambda>ms. ms) 1 demo_campaign None s1 = Inl e)"
proof -
  obtain r s1 where r: "doFinalize demo_env (\<lambda>ms. ms) 1 demo_campaign (Some 2) demo_contest = Inr (r, s1)"
    using demo_contest_ends by (elim exE)
  have bk: "books demo_contest" by (rule books_frame [OF demo_books]) (auto simp: demo_contest_def intro: saleBooking_frame)
  have k: "campaignKeys demo_contest" by (simp add: campaignKeys_def demo_contest_def)
  note once = campaign_pays_once [OF r bk k rtranclp.rtrancl_refl, of demo_campaign demo_env "\<lambda>ms. ms" 1 None]
  have "map st_bonusCents (fz_standings r) = [5000, 0]"
    using arg_cong [OF demo_ranking, of "map snd"] conjunct1 [OF once] by (simp add: comp_def)
  then have "length (filter (\<lambda>b. 0 < b) (map st_bonusCents (fz_standings r))) = 1" by simp
  then have "length (filter (\<lambda>x. 0 < st_bonusCents x) (fz_standings r)) = 1" by (simp add: filter_map comp_def)
  moreover obtain rows month where "ledger s1 = ledger demo_contest @ rows"
    "map stripRow rows = map (prizeRow 1 month) (filter (\<lambda>x. 0 < st_bonusCents x) (fz_standings r))" using once by blast
  ultimately have "length (ledger s1) = 1" using map_eq_imp_length_eq by (fastforce simp: demo_contest_def demo_db_def)
  then show ?thesis using r once by blast
qed

section \<open>The race of an edit with the end\<close>

text \<open>
  Two requests: one sets the campaign active, which it is; the other ends it between the read and the
  write of the first.  The first then writes its status back, the campaign is active again, and its
  second end pays the first rank a second time.
\<close>

definition demo_activate :: campaign_update where
  "demo_activate = \<lparr>cu_name = None, cu_description = None, cu_metric = None, cu_startsAt = None, cu_endsAt = None,
     cu_prizes = None, cu_status = Some CampaignActive\<rparr>"

lemma overtaken_edit_pays_twice:
  fixes g :: "uuid list \<Rightarrow> uuid list"
  defines "g \<equiv> \<lambda>ms. ms"
  shows "\<exists>r s1 v s2 r' s3. doFinalize demo_env g 1 demo_campaign (Some 2) demo_contest = Inr (r, s1) \<and>
    updateCampaign \<lparr>ac_userId = 3, ac_tenantId = 1\<rparr> 500 demo_activate demo_contest s1 = Inr (v, s2) \<and>
    finalizeCampaign demo_env g \<lparr>ac_userId = 2, ac_tenantId = 1\<rparr> 500 s2 = Inr (r', s3) \<and>
    map (\<lambda>e. (le_beneficiary e, le_amountCents e)) (ledger s3) = [(12, 5000), (12, 5000)]"
proof -
  obtain r s1 rows month where s1: "doFinalize demo_env g 1 demo_campaign (Some 2) demo_contest = Inr (r, s1)"
    "contestView s1 = contestView demo_contest" "campaigns s1 = [demo_campaign\<lparr>cp_status := CampaignEnded,
       cp_finalizedAt := Some (env_now demo_env), cp_results := Some (fz_standings r)\<rparr>]"
    "ledger s1 = ledger demo_contest @ rows"
    "map stripRow rows = map (prizeRow 1 month) (filter (\<lambda>y. 0 < st_bonusCents y) (standings g 1 demo_campaign demo_contest))"
    by (rule only_campaign_ends [OF demo_contest_end])
  let ?c = "demo_campaign\<lparr>cp_finalizedAt := Some (env_now demo_env), cp_results := Some (fz_standings r)\<rparr>"
  obtain v s2 where s2: "updateCampaign \<lparr>ac_userId = 3, ac_tenantId = 1\<rparr> 500 demo_activate demo_contest s1 = Inr (v, s2)"
    "campaigns s2 = [?c]" "contestView s2 = contestView s1" "ledger s2 = ledger s1"
    by (simp add: updateCampaign_def requireCampaign_def s1(3) demo_contest_end(1) campaignAudit_def serviceAudit_def
        updateWhere_def patched_def orKeep_def restrictedPatch_def contestView_def)
      (simp add: demo_campaign_def demo_activate_def patched_def orKeep_def)
  have ready: "claimable_campaign 1 ?c ?c" "cp_status ?c \<noteq> CampaignEnded" by (simp_all add: claimable_campaign_def demo_campaign_def)
  have open2: "findTenant s2 1 = Some demo_tenant" "periodLocks s2 = []"
    using s2(3) s1(2) demo_contest_end(4,5) by (simp_all add: contestView_def findTenant_def)
  obtain r' s3 rows' month' where s3: "doFinalize demo_env g 1 ?c (Some 2) s2 = Inr (r', s3)" "ledger s3 = ledger s2 @ rows'"
    "map stripRow rows' = map (prizeRow 1 month') (filter (\<lambda>y. 0 < st_bonusCents y) (standings g 1 ?c s2))"
    by (rule only_campaign_ends [OF s2(2) ready open2])
  have "standings g 1 ?c s2 = standings g 1 demo_campaign demo_contest"
    using s2(3) s1(2) by (intro standings_view) simp_all
  moreover have paid: "map (\<lambda>y. (st_membershipId y, st_bonusCents y))
      (filter (\<lambda>y. 0 < st_bonusCents y) (standings g 1 demo_campaign demo_contest)) = [(12, 5000)]"
    using arg_cong [OF demo_ranking, of "filter (\<lambda>x. 0 < snd x)"] by (simp add: filter_map comp_def g_def)
  moreover have "map (\<lambda>e. (le_beneficiary e, le_amountCents e)) es = map (\<lambda>y. (st_membershipId y, st_bonusCents y)) ys"
    if "map stripRow es = map (prizeRow 1 m) ys" for es m ys
    using arg_cong [OF that, of "map (\<lambda>e. (le_beneficiary e, le_amountCents e))"]
    by (simp add: comp_def prizeRow_def newEntry_def)
  ultimately have "map (\<lambda>e. (le_beneficiary e, le_amountCents e)) (ledger s3) = [(12, 5000), (12, 5000)]"
    using s1(4,5) s2(4) s3(2,3) by (simp add: demo_contest_def demo_db_def)
  moreover have "finalizeCampaign demo_env g \<lparr>ac_userId = 2, ac_tenantId = 1\<rparr> 500 s2 = Inr (r', s3)"
    using s3(1) by (simp add: finalizeCampaign_def requireCampaign_def s2(2)) (simp add: demo_campaign_def)
  ultimately show ?thesis using s1(1) s2(1)
    by - (rule exI [of _ r], rule exI [of _ s1], rule exI [of _ v], rule exI [of _ s2], rule exI [of _ r'], rule exI [of _ s3], simp)
qed

end
