(* ===== verification/Reports.thy ===== *)
theory Reports
  imports Payout_Requests
begin

text \<open>
  \<open>ReportsService\<close>: the financial audit that compares payouts and summaries with the ledger, the tax and
  claw-back reports, the dashboards, and the digest schedule.  What a \<open>GROUP BY\<close> without an order returns first
  is the parameter \<open>groupOrder\<close>; percentages computed in floating point are left out of the records.
\<close>

section \<open>Months\<close>

text \<open>\<open>anchor.split('-').map(Number)\<close>, and \<open>Date.UTC\<close>, which reads a year below 100 as one of the twentieth century.\<close>

definition parseMonth :: "string \<Rightarrow> (int \<times> int) option" where
  "parseMonth anchor =
     (let y = takeWhile (\<lambda>c. c \<noteq> CHR ''-'') anchor; m = takeWhile (\<lambda>c. c \<noteq> CHR ''-'') (drop (Suc (length y)) anchor)
      in Option.bind (readDigits 0 y) (\<lambda>a. map_option (\<lambda>b. (int a, int b)) (readDigits 0 m)))"

definition monthIndex :: "int \<times> int \<Rightarrow> int" where
  "monthIndex = (\<lambda>(y, m). (if 0 \<le> y \<and> y \<le> 99 then 1900 + y else y) * 12 + (m - 1))"

definition monthText :: "int \<Rightarrow> string" where
  "monthText k = show_int (k div 12) @ ''-'' @ digitsW 2 (nat (k mod 12 + 1))"

text \<open>The keys of \<open>n\<close> months from the oldest to the newest, the newest \<open>skip\<close> months before the anchor.\<close>

definition monthsBack :: "int \<times> int \<Rightarrow> nat \<Rightarrow> nat \<Rightarrow> string list" where
  "monthsBack anchor n skip = map (\<lambda>i. monthText (monthIndex anchor - int i)) (rev [skip..<n + skip])"

section \<open>The financial audit\<close>

record payout_mismatch =
  px_id :: uuid
  px_total :: cents
  px_lineSum :: cents

definition lineSum :: "db \<Rightarrow> uuid \<Rightarrow> cents" where
  "lineSum s payoutId = sumWhere (\<lambda>e. le_payoutId e = Some payoutId) le_amountCents (ledger s)"

text \<open>The query groups by the primary key, so each paid payout is one group.\<close>

definition payoutMismatches :: "uuid \<Rightarrow> db \<Rightarrow> payout_mismatch list" where
  "payoutMismatches tenantId s =
     map (\<lambda>p. \<lparr>px_id = po_id p, px_total = po_totalCents p, px_lineSum = lineSum s (po_id p)\<rparr>)
       (filter (\<lambda>p. po_tenantId p = tenantId \<and> po_status p = PoPaid \<and> po_totalCents p \<noteq> lineSum s (po_id p)) (payouts s))"

text \<open>\<open>sBy\<close> and \<open>lBy\<close>: a member without a group reads as zero.\<close>

definition summaryTotal :: "db \<Rightarrow> uuid \<Rightarrow> uuid \<Rightarrow> (summary_delta \<Rightarrow> cents) \<Rightarrow> cents" where
  "summaryTotal s tenantId m column =
     sumWhere (\<lambda>r. fst (ms_key r) = tenantId \<and> fst (snd (ms_key r)) = m) (\<lambda>r. column (ms_cents r)) (summaries s)"

definition ledgerTotal :: "db \<Rightarrow> uuid \<Rightarrow> uuid \<Rightarrow> ledger_status \<Rightarrow> cents" where
  "ledgerTotal s tenantId m st =
     sumWhere (\<lambda>e. le_tenantId e = tenantId \<and> le_beneficiary e = m \<and> le_status e = st) le_amountCents (ledger s)"

text \<open>A \<open>Set\<close> keeps the first of equal values.\<close>

definition firsts :: "'a list \<Rightarrow> 'a list" where
  "firsts xs = rev (remdups (rev xs))"

definition auditedMembers :: "(uuid list \<Rightarrow> uuid list) \<Rightarrow> uuid \<Rightarrow> db \<Rightarrow> uuid list" where
  "auditedMembers groupOrder tenantId s =
     firsts (groupOrder (remdups (map (\<lambda>r. fst (snd (ms_key r))) (filter (\<lambda>r. fst (ms_key r) = tenantId) (summaries s)))) @
             groupOrder (remdups (map le_beneficiary (filter (\<lambda>e. le_tenantId e = tenantId) (ledger s)))))"

record summary_mismatch =
  sx_membershipId :: uuid
  sx_field :: string
  sx_summary :: cents
  sx_ledger :: cents

definition memberChecks :: "db \<Rightarrow> uuid \<Rightarrow> uuid \<Rightarrow> summary_mismatch list" where
  "memberChecks s tenantId m =
     map (\<lambda>(field, column, st). \<lparr>sx_membershipId = m, sx_field = field, sx_summary = summaryTotal s tenantId m column,
            sx_ledger = ledgerTotal s tenantId m st\<rparr>)
       [(''pending'', d_pending, LePending), (''payable'', d_payable, LePayable),
        (''processing'', d_processing, LeProcessing), (''paid'', d_paid, LePaid)]"

definition summaryMismatches :: "(uuid list \<Rightarrow> uuid list) \<Rightarrow> uuid \<Rightarrow> db \<Rightarrow> summary_mismatch list" where
  "summaryMismatches groupOrder tenantId s =
     filter (\<lambda>x. sx_summary x \<noteq> sx_ledger x) (concat (map (memberChecks s tenantId) (auditedMembers groupOrder tenantId s)))"

record financial_report =
  fr_ok :: bool
  fr_payoutMismatches :: "payout_mismatch list"
  fr_summaryMismatches :: "summary_mismatch list"

definition verifyFinancials :: "(uuid list \<Rightarrow> uuid list) \<Rightarrow> uuid \<Rightarrow> db \<Rightarrow> financial_report" where
  "verifyFinancials groupOrder tenantId s =
     (let pm = payoutMismatches tenantId s; sm = summaryMismatches groupOrder tenantId s
      in \<lparr>fr_ok = (pm = [] \<and> sm = []), fr_payoutMismatches = pm, fr_summaryMismatches = take 50 sm\<rparr>)"

definition verifyAllFinancials :: "(uuid list \<Rightarrow> uuid list) \<Rightarrow> db \<Rightarrow> nat \<times> nat" where
  "verifyAllFinancials groupOrder s =
     (length (tenants s), countWhere (\<lambda>t. \<not> fr_ok (verifyFinancials groupOrder (tn_id t) s)) (tenants s))"

section \<open>Claw-backs\<close>

record clawback =
  cb_membershipId :: uuid
  cb_name :: string
  cb_referralCode :: string
  cb_owedCents :: cents
  cb_since :: time

definition owing :: "uuid \<Rightarrow> uuid \<Rightarrow> ledger_entry \<Rightarrow> bool" where
  "owing tenantId m e \<longleftrightarrow> le_tenantId e = tenantId \<and> le_beneficiary e = m \<and> (le_status e = LePayable \<or> le_status e = LePending)"

definition netOpen :: "db \<Rightarrow> uuid \<Rightarrow> uuid \<Rightarrow> cents" where
  "netOpen s tenantId m = sumWhere (owing tenantId m) le_amountCents (ledger s)"

definition memberName :: "db \<Rightarrow> uuid \<Rightarrow> string" where
  "memberName s m = (case Option.bind (findMembership s m) (\<lambda>b. findUser s (mb_userId b)) of None \<Rightarrow> emDash | Some u \<Rightarrow> us_fullName u)"

definition memberCode :: "db \<Rightarrow> uuid \<Rightarrow> string" where
  "memberCode s m = (case findMembership s m of None \<Rightarrow> [] | Some b \<Rightarrow> mb_referralCode b)"

definition clawbacks :: "(uuid list \<Rightarrow> uuid list) \<Rightarrow> uuid \<Rightarrow> db \<Rightarrow> cents \<times> clawback list" where
  "clawbacks groupOrder tenantId s =
     (let groups = groupOrder (remdups (map le_beneficiary (filter (\<lambda>e. owing tenantId (le_beneficiary e) e) (ledger s))));
          rows = sort_key (netOpen s tenantId) (filter (\<lambda>m. netOpen s tenantId m < 0) groups);
          list = map (\<lambda>m. \<lparr>cb_membershipId = m, cb_name = memberName s m, cb_referralCode = memberCode s m,
                   cb_owedCents = - netOpen s tenantId m,
                   cb_since = Min (le_createdAt ` set (filter (owing tenantId m) (ledger s)))\<rparr>) rows
      in (sum_list (map cb_owedCents list), list))"

section \<open>Tax report\<close>

definition THRESHOLD_1099 :: cents where
  "THRESHOLD_1099 = 60000"

record tax_row =
  tx_membershipId :: uuid
  tx_name :: string
  tx_referralCode :: string
  tx_legalName :: "string option"
  tx_taxIdType :: "string option"
  tx_taxIdLast4 :: "string option"
  tx_hasTaxId :: bool
  tx_paidCents :: cents
  tx_reportable :: bool

definition yearStart :: "int \<Rightarrow> time" where
  "yearStart y = daysOfCivil y 1 1 * 86400000"

definition paidInYear :: "uuid \<Rightarrow> int \<Rightarrow> payout \<Rightarrow> bool" where
  "paidInYear tenantId year p \<longleftrightarrow> po_tenantId p = tenantId \<and> po_status p = PoPaid \<and>
     (case po_paidAt p of None \<Rightarrow> False | Some t \<Rightarrow> yearStart year \<le> t \<and> t < yearStart (year + 1))"

definition taxRow :: "uuid \<Rightarrow> int \<Rightarrow> db \<Rightarrow> uuid \<Rightarrow> tax_row" where
  "taxRow tenantId year s m =
     (let paid = sumWhere (\<lambda>p. paidInYear tenantId year p \<and> po_membershipId p = m) po_totalCents (payouts s);
          profile = find (\<lambda>q. pp_membershipId q = m) (payoutProfiles s)
      in \<lparr>tx_membershipId = m, tx_name = memberName s m, tx_referralCode = memberCode s m,
          tx_legalName = map_option pp_legalName profile, tx_taxIdType = map_option pp_taxIdType profile,
          tx_taxIdLast4 = map_option pp_taxIdLast4 profile, tx_hasTaxId = (profile \<noteq> None),
          tx_paidCents = paid, tx_reportable = (THRESHOLD_1099 \<le> paid)\<rparr>)"

record tax_report =
  tr_year :: int
  tr_reportableCount :: nat
  tr_missingTaxId :: nat
  tr_members :: "tax_row list"

definition tax1099 :: "(uuid list \<Rightarrow> uuid list) \<Rightarrow> uuid \<Rightarrow> int \<Rightarrow> db \<Rightarrow> tax_report" where
  "tax1099 groupOrder tenantId year s =
     (let groups = groupOrder (remdups (map po_membershipId (filter (paidInYear tenantId year) (payouts s))));
          list = sort_key (\<lambda>r. - tx_paidCents r) (map (taxRow tenantId year s) groups)
      in \<lparr>tr_year = year, tr_reportableCount = countWhere tx_reportable list,
          tr_missingTaxId = countWhere (\<lambda>r. tx_reportable r \<and> \<not> tx_hasTaxId r) list, tr_members = list\<rparr>)"

definition taxCells :: "tax_row \<Rightarrow> string list" where
  "taxCells r = (let orEmpty = (\<lambda>x. case x of None \<Rightarrow> [] | Some t \<Rightarrow> t)
     in [csvCell (orEmpty (tx_legalName r)), csvCell (tx_name r), csvCell (tx_referralCode r), csvCell (orEmpty (tx_taxIdType r)),
         csvCell (orEmpty (tx_taxIdLast4 r)), centsToDecimalString (tx_paidCents r), if tx_reportable r then ''yes'' else ''no''])"

definition tax1099Csv :: "(uuid list \<Rightarrow> uuid list) \<Rightarrow> uuid \<Rightarrow> int \<Rightarrow> db \<Rightarrow> string" where
  "tax1099Csv groupOrder tenantId year s =
     joinText [lfChar] (''legal_name,full_name,referral_code,tax_id_type,tax_id_last4,paid_amount,reportable'' #
       map (\<lambda>r. joinText [commaChar] (taxCells r)) (tr_members (tax1099 groupOrder tenantId year s))) @ [lfChar]"

section \<open>Dashboards\<close>

definition monthCommission :: "(uuid \<Rightarrow> bool) \<Rightarrow> uuid \<Rightarrow> (string \<Rightarrow> bool) \<Rightarrow> db \<Rightarrow> cents" where
  "monthCommission member tenantId hit s =
     sumWhere (\<lambda>r. case ms_key r of (t, m, month, _) \<Rightarrow> t = tenantId \<and> member m \<and> hit month)
       (\<lambda>r. d_pending (ms_cents r) + d_payable (ms_cents r) + d_processing (ms_cents r) + d_paid (ms_cents r)) (summaries s)"

definition approvedIn :: "uuid \<Rightarrow> (string \<Rightarrow> bool) \<Rightarrow> sale \<Rightarrow> bool" where
  "approvedIn tenantId hit r \<longleftrightarrow> sa_tenantId r = tenantId \<and> sa_status r = SaleApproved \<and>
     (case sa_summaryMonth r of None \<Rightarrow> False | Some m \<Rightarrow> hit m)"

definition revenueIn :: "uuid \<Rightarrow> (string \<Rightarrow> bool) \<Rightarrow> db \<Rightarrow> cents" where
  "revenueIn tenantId hit s = sumWhere (approvedIn tenantId hit) sa_amountCents (sales s)"

definition tenantLedger :: "uuid \<Rightarrow> ledger_status \<Rightarrow> db \<Rightarrow> cents" where
  "tenantLedger tenantId st s = sumWhere (\<lambda>e. le_tenantId e = tenantId \<and> le_status e = st) le_amountCents (ledger s)"

text \<open>BigInt division truncates towards zero.\<close>

definition truncDiv :: "int \<Rightarrow> int \<Rightarrow> int" where
  "truncDiv a b = sgn a * sgn b * (\<bar>a\<bar> div \<bar>b\<bar>)"

definition effectiveRateBps :: "cents \<Rightarrow> cents \<Rightarrow> int" where
  "effectiveRateBps commission revenue = (if 0 < revenue then truncDiv (commission * 10000) revenue else 0)"

record top_earner =
  te_membershipId :: uuid
  te_fullName :: string
  te_referralCode :: string
  te_cents :: cents

text \<open>
  The comparison function \<open>b > a ? 1 : -1\<close> of the top earners is not a consistent order on equal amounts; the model
  keeps equal amounts in the order of their groups.
\<close>

definition topEarners :: "(uuid list \<Rightarrow> uuid list) \<Rightarrow> uuid \<Rightarrow> string \<Rightarrow> db \<Rightarrow> top_earner list" where
  "topEarners groupOrder tenantId month s =
     (let groups = groupOrder (remdups (map (\<lambda>r. fst (snd (ms_key r)))
            (filter (\<lambda>r. fst (ms_key r) = tenantId \<and> fst (snd (snd (ms_key r))) = month) (summaries s))));
          earned = map (\<lambda>m. (m, monthCommission (\<lambda>x. x = m) tenantId (\<lambda>x. x = month) s)) groups
      in map (\<lambda>(m, c). \<lparr>te_membershipId = m, te_fullName = memberName s m, te_referralCode = memberCode s m, te_cents = c\<rparr>)
           (take 8 (sort_key (\<lambda>x. - snd x) (filter (\<lambda>x. 0 < snd x) earned))))"

record dashboard =
  db_month :: string
  db_currency :: string
  db_members :: nat
  db_activeMembers :: nat
  db_approvedSales :: nat
  db_revenue :: cents
  db_commission :: cents
  db_effectiveRateBps :: int
  db_pending :: cents
  db_payable :: cents
  db_inPayout :: cents
  db_topEarners :: "top_earner list"
  db_pendingRequests :: nat

definition adminDashboard ::
  "tenant_context option \<Rightarrow> env \<Rightarrow> (uuid list \<Rightarrow> uuid list) \<Rightarrow> uuid \<Rightarrow> string option \<Rightarrow> db \<Rightarrow> dashboard res" where
  "adminDashboard ctx E groupOrder tenantId month s =
     andThen (assertTenant ctx tenantId) (\<lambda>_.
     andThen (tenantOrThrow s tenantId) (\<lambda>tenant.
     let target = (case month of Some m \<Rightarrow> m | None \<Rightarrow> env_month E (env_now E) (tn_timezone tenant));
         revenue = revenueIn tenantId (\<lambda>m. m = target) s;
         commission = monthCommission (\<lambda>_. True) tenantId (\<lambda>m. m = target) s
     in Inr \<lparr>db_month = target, db_currency = tn_currency tenant,
          db_members = countWhere (\<lambda>m. mb_tenantId m = tenantId) (memberships s),
          db_activeMembers = countWhere (\<lambda>m. mb_tenantId m = tenantId \<and> mb_status m = MemberActive) (memberships s),
          db_approvedSales = countWhere (approvedIn tenantId (\<lambda>m. m = target)) (sales s),
          db_revenue = revenue, db_commission = commission, db_effectiveRateBps = effectiveRateBps commission revenue,
          db_pending = tenantLedger tenantId LePending s, db_payable = tenantLedger tenantId LePayable s,
          db_inPayout = sumWhere (\<lambda>p. po_tenantId p = tenantId \<and> openPayout p) po_totalCents (payouts s),
          db_topEarners = topEarners groupOrder tenantId target s,
          db_pendingRequests = countWhere (\<lambda>p. po_tenantId p = tenantId \<and> po_status p = PoRequested) (payouts s)\<rparr>))"

record month_point =
  mp_month :: string
  mp_revenue :: cents
  mp_commission :: cents
  mp_approvedSales :: nat

record performer =
  pf_membershipId :: uuid
  pf_fullName :: string
  pf_referralCode :: string
  pf_revenue :: cents
  pf_salesCount :: nat

record analytics =
  an_currency :: string
  an_series :: "month_point list"
  an_revenue :: cents
  an_commission :: cents
  an_approvedSales :: nat
  an_effectiveRateBps :: int
  an_prevRevenue :: cents
  an_prevCommission :: cents
  an_prevSales :: nat
  an_funnel :: "sale_status \<Rightarrow> nat \<times> cents"
  an_topPerformers :: "performer list"

text \<open>\<open>groupBy\<close> ordered by the sum, the first eight.\<close>

definition topPerformers :: "(uuid list \<Rightarrow> uuid list) \<Rightarrow> uuid \<Rightarrow> string list \<Rightarrow> db \<Rightarrow> performer list" where
  "topPerformers groupOrder tenantId window s =
     (let hit = approvedIn tenantId (\<lambda>m. m \<in> set window);
          sold = (\<lambda>m. sumWhere (\<lambda>r. hit r \<and> sa_sellerMembershipId r = m) sa_amountCents (sales s));
          groups = take 8 (sort_key (\<lambda>m. - sold m) (groupOrder (remdups (map sa_sellerMembershipId (filter hit (sales s))))))
      in map (\<lambda>m. \<lparr>pf_membershipId = m,
             pf_fullName = (case Option.bind (findMembership s m) (\<lambda>b. findUser s (mb_userId b)) of None \<Rightarrow> ''-'' | Some u \<Rightarrow> us_fullName u),
             pf_referralCode = memberCode s m, pf_revenue = sold m,
             pf_salesCount = countWhere (\<lambda>r. hit r \<and> sa_sellerMembershipId r = m) (sales s)\<rparr>) groups)"

definition monthPoint :: "uuid \<Rightarrow> db \<Rightarrow> string \<Rightarrow> month_point" where
  "monthPoint tenantId s m = \<lparr>mp_month = m, mp_revenue = revenueIn tenantId (\<lambda>x. x = m) s,
     mp_commission = monthCommission (\<lambda>_. True) tenantId (\<lambda>x. x = m) s,
     mp_approvedSales = countWhere (approvedIn tenantId (\<lambda>x. x = m)) (sales s)\<rparr>"

text \<open>The first month of the window starts the funnel; the month comes from \<open>Intl\<close> and is always well formed.\<close>

definition analyticsOf ::
  "tenant_context option \<Rightarrow> env \<Rightarrow> (uuid list \<Rightarrow> uuid list) \<Rightarrow> uuid \<Rightarrow> nat \<Rightarrow> db \<Rightarrow> analytics res" where
  "analyticsOf ctx E groupOrder tenantId months s =
     andThen (assertTenant ctx tenantId) (\<lambda>_.
     andThen (tenantOrThrow s tenantId) (\<lambda>tenant.
     andThen (from_option (RangeError ''Invalid time value'') (parseMonth (env_month E (env_now E) (tn_timezone tenant)))) (\<lambda>anchor.
     let window = monthsBack anchor months 0; before = monthsBack anchor months months;
         series = map (monthPoint tenantId s) window;
         revenue = sum_list (map mp_revenue series); commission = sum_list (map mp_commission series);
         first = monthIndex anchor - (int months - 1);
         start = daysOfCivil (first div 12) (first mod 12 + 1) 1 * 86400000;
         inWindow = (\<lambda>st r. sa_tenantId r = tenantId \<and> start \<le> sa_saleDate r \<and> sa_status r = st)
     in Inr \<lparr>an_currency = tn_currency tenant, an_series = series, an_revenue = revenue, an_commission = commission,
          an_approvedSales = sum_list (map mp_approvedSales series),
          an_effectiveRateBps = effectiveRateBps commission revenue,
          an_prevRevenue = revenueIn tenantId (\<lambda>m. m \<in> set before) s,
          an_prevCommission = monthCommission (\<lambda>_. True) tenantId (\<lambda>m. m \<in> set before) s,
          an_prevSales = countWhere (approvedIn tenantId (\<lambda>m. m \<in> set before)) (sales s),
          an_funnel = (\<lambda>st. (countWhere (inWindow st) (sales s), sumWhere (inWindow st) sa_amountCents (sales s))),
          an_topPerformers = topPerformers groupOrder tenantId window s\<rparr>)))"

section \<open>To do\<close>

record todo_access =
  ta_salesApproval :: bool
  ta_payoutProcessing :: bool
  ta_complianceReview :: bool

record todo_item =
  td_key :: string
  td_label :: string
  td_count :: nat
  td_href :: string

definition todoList :: "uuid \<Rightarrow> todo_access \<Rightarrow> db \<Rightarrow> todo_item list \<times> nat" where
  "todoList tenantId access s =
     (let drafts = (if ta_salesApproval access then countWhere (\<lambda>r. sa_tenantId r = tenantId \<and> sa_status r = SaleDraft) (sales s) else 0);
          requested = (if ta_payoutProcessing access then countWhere (\<lambda>p. po_tenantId p = tenantId \<and> openPayout p) (payouts s) else 0);
          checks = (if ta_payoutProcessing access
            then countWhere (\<lambda>p. po_tenantId p = tenantId \<and> po_method p = MethodCheck \<and> po_status p = PoPaid \<and> po_mailedAt p = None) (payouts s)
            else 0);
          fraud = (if ta_complianceReview access
            then countWhere (\<lambda>f. ff_tenantId f = tenantId \<and> ff_status f = FraudOpen \<and> FRAUD_BLOCK_SCORE \<le> ff_score f) (fraudFlags s) else 0);
          items = [\<lparr>td_key = ''sales_approval'', td_label = ''Sales awaiting approval'', td_count = drafts, td_href = ''/admin/sales''\<rparr>,
            \<lparr>td_key = ''payout_requests'', td_label = ''Payout requests to review'', td_count = requested, td_href = ''/admin/payouts''\<rparr>,
            \<lparr>td_key = ''checks_to_process'', td_label = ''Checks to print & mail'', td_count = checks, td_href = ''/admin/checks''\<rparr>,
            \<lparr>td_key = ''fraud_review'', td_label = ''Members flagged for review'', td_count = fraud, td_href = ''/admin/payouts''\<rparr>]
      in (filter (\<lambda>i. 0 < td_count i) items, sum_list (map td_count items)))"

section \<open>Digests\<close>

record report_subscription =
  rs_tenantId :: uuid
  rs_frequency :: string
  rs_recipients :: "string list"
  rs_lastSentAt :: "time option"

text \<open>\<open>days >= 28\<close> of a quotient by a day's milliseconds is a comparison of the milliseconds.\<close>

definition isDue :: "string \<Rightarrow> time option \<Rightarrow> time \<Rightarrow> bool" where
  "isDue frequency lastSentAt now = (case lastSentAt of None \<Rightarrow> True
     | Some t \<Rightarrow> (if frequency = ''monthly'' then 28 else 7) * 86400000 \<le> now - t)"

definition digestDue :: "time \<Rightarrow> report_subscription \<Rightarrow> bool" where
  "digestDue now r \<longleftrightarrow> rs_recipients r \<noteq> [] \<and> isDue (rs_frequency r) (rs_lastSentAt r) now"

text \<open>The subscriptions after a run, and the digests sent; delivery itself never fails the run.\<close>

definition runDueDigests :: "time \<Rightarrow> report_subscription list \<Rightarrow> nat \<times> report_subscription list" where
  "runDueDigests now subs =
     (countWhere (digestDue now) subs, updateWhere (digestDue now) (\<lambda>r. r\<lparr>rs_lastSentAt := Some now\<rparr>) subs)"

definition setSubscription :: "uuid \<Rightarrow> string \<Rightarrow> string list \<Rightarrow> report_subscription list \<Rightarrow> report_subscription list" where
  "setSubscription tenantId frequency recipients subs =
     (if list_ex (\<lambda>r. rs_tenantId r = tenantId) subs
      then updateWhere (\<lambda>r. rs_tenantId r = tenantId) (\<lambda>r. r\<lparr>rs_frequency := frequency, rs_recipients := recipients\<rparr>) subs
      else subs @ [\<lparr>rs_tenantId = tenantId, rs_frequency = frequency, rs_recipients = recipients, rs_lastSentAt = None\<rparr>])"

definition getSubscription :: "uuid \<Rightarrow> report_subscription list \<Rightarrow> string \<times> string list \<times> time option" where
  "getSubscription tenantId subs = (case find (\<lambda>r. rs_tenantId r = tenantId) subs of
      None \<Rightarrow> (''weekly'', [], None) | Some r \<Rightarrow> (rs_frequency r, rs_recipients r, rs_lastSentAt r))"

end
