(* ===== verification/Financial_Audit.thy ===== *)
theory Financial_Audit
  imports Engine_Lifecycle Reports
begin

text \<open>
  Why the nightly audit finds nothing: the pointers from ledger rows to payouts agree with the items of
  the batches, and the summary table keeps its unique index.  Almost every step leaves both alone, which
  is the frame of the first section; reserving and failing a batch move the pointers with the items.
\<close>

section \<open>The frame\<close>

definition pointer :: "ledger_entry \<Rightarrow> uuid \<times> uuid option \<times> uuid option" where
  "pointer e = (le_id e, le_payoutId e, le_payoutBatchId e)"

definition liveBatch :: "db \<Rightarrow> uuid \<Rightarrow> bool" where
  "liveBatch s bid \<longleftrightarrow> (\<exists>b \<in> set (batches s). ba_id b = bid \<and> ba_status b \<noteq> BaFailed)"

definition auditKeeps :: "db \<Rightarrow> db \<Rightarrow> bool" where
  "auditKeeps s s' \<longleftrightarrow> keysKept s s' \<and> batchItems s' = batchItems s \<and> (\<forall>b. liveBatch s' b \<longrightarrow> liveBatch s b) \<and>
     (\<exists>new. map pointer (ledger s') = map pointer (ledger s) @ new \<and> (\<forall>x \<in> set new. fst (snd x) = None))"

lemma auditKeeps_frame:
  "summaries s' = summaries s \<Longrightarrow> batchItems s' = batchItems s \<Longrightarrow> batches s' = batches s \<Longrightarrow>
   map pointer (ledger s') = map pointer (ledger s) \<Longrightarrow> auditKeeps s s'"
  by (simp add: auditKeeps_def keysKept_frame liveBatch_def)

lemma auditKeeps_refl [simp]: "auditKeeps s s"
  by (rule auditKeeps_frame) simp_all

lemma auditKeeps_trans: "auditKeeps s t \<Longrightarrow> auditKeeps t u \<Longrightarrow> auditKeeps s u"
proof -
  assume a: "auditKeeps s t" "auditKeeps t u"
  then obtain n1 n2 where "map pointer (ledger t) = map pointer (ledger s) @ n1" "\<forall>x \<in> set n1. fst (snd x) = None"
    "map pointer (ledger u) = map pointer (ledger t) @ n2" "\<forall>x \<in> set n2. fst (snd x) = None" by (auto simp: auditKeeps_def)
  then have "map pointer (ledger u) = map pointer (ledger s) @ n1 @ n2 \<and> (\<forall>x \<in> set (n1 @ n2). fst (snd x) = None)" by auto
  moreover have "keysKept s u" using a keysKept_trans by (auto simp: auditKeeps_def)
  ultimately show ?thesis using a unfolding auditKeeps_def by metis
qed

lemma auditKeeps_then:
  "auditKeeps s t \<Longrightarrow> summaries t' = summaries t \<Longrightarrow> batchItems t' = batchItems t \<Longrightarrow> batches t' = batches t \<Longrightarrow>
   ledger t' = ledger t \<Longrightarrow> auditKeeps s t'"
  by (erule auditKeeps_trans) (rule auditKeeps_frame; simp)

lemma auditKeeps_audit: "auditKeeps s t \<Longrightarrow> auditKeeps s (audit a b c d e f t)"
  by (erule auditKeeps_then) (simp_all add: audit_def)

lemma auditKeeps_notification: "auditKeeps s t \<Longrightarrow> auditKeeps s (createNotification a b c d e t)"
  by (erule auditKeeps_then) (simp_all add: createNotification_def drawId_def)

lemma auditKeeps_bump: "auditKeeps s t \<Longrightarrow> auditKeeps s (bumpSummary k d t)"
proof (erule auditKeeps_trans)
  have "batches (bumpSummary k d t) = batches t" "batchItems (bumpSummary k d t) = batchItems t" "ledger (bumpSummary k d t) = ledger t"
    by (simp_all add: bumpSummary_def)
  then show "auditKeeps t (bumpSummary k d t)" by (simp add: auditKeeps_def keysKept_bump liveBatch_def)
qed

lemma auditKeeps_fold: "(\<And>x u. auditKeeps s u \<Longrightarrow> auditKeeps s (g x u)) \<Longrightarrow> auditKeeps s t \<Longrightarrow> auditKeeps s (fold g xs t)"
  by (induction xs arbitrary: t) auto

lemma auditKeeps_foldRes:
  assumes "foldRes f xs t = Inr t'" "auditKeeps s t" "\<And>x u u'. f x u = Inr u' \<Longrightarrow> auditKeeps u u'"
  shows "auditKeeps s t'"
  by (rule foldRes_invariant [where P = "auditKeeps s", OF assms(1,2)]) (auto intro: auditKeeps_trans assms(3))

lemma auditKeeps_applyBuckets: "auditKeeps s t \<Longrightarrow> auditKeeps s (applyBuckets a b c t)"
  unfolding applyBuckets_def by (rule auditKeeps_fold) (auto intro: auditKeeps_bump)

lemma auditKeeps_buckets: "auditKeeps s t \<Longrightarrow> auditKeeps s (moveBatchSummary a b c t)"
  unfolding moveBatchSummary_def by (rule auditKeeps_applyBuckets)

lemma auditKeeps_payoutSent: "auditKeeps s t \<Longrightarrow> auditKeeps s (payoutSent p b tn ev x t)"
  unfolding payoutSent_def by (intro auditKeeps_audit auditKeeps_notification)

lemmas audit_intros = auditKeeps_audit auditKeeps_notification auditKeeps_bump auditKeeps_buckets auditKeeps_payoutSent
  auditKeeps_fold

lemma auditKeeps_beside: "besideLedger s s' \<Longrightarrow> auditKeeps s s'"
  by (rule auditKeeps_frame) (simp_all add: besideLedger_def)

lemma auditKeeps_sameMoney: "sameMoney s s' \<Longrightarrow> auditKeeps s s'"
  by (rule auditKeeps_frame) (simp_all add: sameMoney_def)

lemma auditKeeps_rows:
  assumes "auditKeeps s t" "ledger t' = updateWhere P f (ledger t)" "\<And>e. pointer (f e) = pointer e"
    "summaries t' = summaries t" "batchItems t' = batchItems t" "batches t' = batches t"
  shows "auditKeeps s t'"
  by (rule auditKeeps_trans [OF assms(1) auditKeeps_frame]) (simp_all add: assms map_updateWhere_id)

lemma auditKeeps_posted:
  assumes "posted s s' es" "\<forall>e \<in> set es. le_payoutId e = None"
  shows "auditKeeps s s'"
proof -
  obtain xs where xs: "ledger s' = ledger s @ xs" "map stripRow xs = es" using assms(1) by (auto simp: posted_def)
  have "le_payoutId x = None" if "x \<in> set xs" for x
  proof -
    have "stripRow x \<in> set es" using that unfolding xs(2) [symmetric] by simp
    then have "le_payoutId (stripRow x) = None" using assms(2) by blast
    then show ?thesis by (simp add: stripRow_def)
  qed
  then have "\<forall>x \<in> set (map pointer xs). fst (snd x) = None" by (auto simp: pointer_def)
  moreover have "keysKept s s'" "batchItems s' = batchItems s" "batches s' = batches s"
    using assms(1) baseOf_eqD(8,9) [OF posted_base [OF assms(1)]] by (simp_all add: posted_def)
  ultimately show ?thesis using xs(1) by (auto simp: auditKeeps_def liveBatch_def)
qed

section \<open>Engine steps\<close>

lemma commissionEntry_pointer [simp]: "le_payoutId (commissionEntry sale st b l r amount) = None"
  by (simp add: commissionEntry_def newEntry_def)

lemma distributionRows_pointer: "e \<in> set (distributionRows sale st plan sponsor lines due ov) \<Longrightarrow> le_payoutId e = None"
  by (auto simp: distributionRows_def sponsorRows_def overrideRows_def bonusRow_def lineEntry_def split: option.splits list.splits if_splits)

lemma pinFreeze_audit: "auditKeeps s (freezeMonth sale m (pinPlan sale plan s))"
  by (rule auditKeeps_trans [of _ "pinPlan sale plan s"]; rule auditKeeps_frame) (simp_all add: pinPlan_def freezeMonth_def updateSale_def)

lemma applyCommissionsInTx_audit: "applyCommissionsInTx E sale s = Inr (r, s') \<Longrightarrow> auditKeeps s s'"
proof (erule applyCommissionsInTx_cases)
  fix tenant plan rawChain lines month
  assume "distribute E sale tenant plan rawChain lines month (freezeMonth sale month (pinPlan sale plan s)) = Inr (r, s')"
  then have "auditKeeps (freezeMonth sale month (pinPlan sale plan s)) s'"
    by (rule distribute_spec) (auto intro: auditKeeps_posted dest: distributionRows_pointer)
  then show ?thesis by (rule auditKeeps_trans [OF pinFreeze_audit])
qed simp_all

lemma separationOfDuties_audit: "separationOfDuties sale actor s = Inr s' \<Longrightarrow> auditKeeps s s'"
  using separationOfDuties_Inr [of sale actor s s'] by (auto intro: auditKeeps_audit)

lemma updateSale_audit [simp]: "auditKeeps s (updateSale i f s)"
  by (rule auditKeeps_frame) (simp_all add: updateSale_def)

lemma approveSaleInTx_audit:
  assumes "approveSaleInTx E saleId actor expected s = Inr (r, s')"
  shows "auditKeeps s s'"
  using assms
  by (auto simp: approveSaleInTx_def Let_def split: if_splits
      dest!: applyCommissionsInTx_audit separationOfDuties_audit
      intro: auditKeeps_trans [OF auditKeeps_trans [OF _ auditKeeps_audit [OF updateSale_audit]]])

lemma setLedgerStatus_audit: "auditKeeps s t \<Longrightarrow> auditKeeps s (setLedgerStatus i st t)"
  by (rule auditKeeps_rows [where t = t and f = "\<lambda>r. r\<lparr>le_status := st\<rparr>" and P = "\<lambda>r. le_id r = i"])
    (simp_all add: setLedgerStatus_def pointer_def)

lemma reverseEntry_audit: "reverseEntry E sale month e s = Inr s' \<Longrightarrow> auditKeeps s s'"
proof -
  assume r: "reverseEntry E sale month e s = Inr s'"
  then obtain i s1 where c: "createLedgerEntry E (reversalOf sale e) s = Inr (i, s1)" by (auto simp: reverseEntry_def)
  have "auditKeeps s s1"
    using createLedgerEntry_posted [OF c] by (rule auditKeeps_posted) (simp add: reversalOf_def newEntry_def stripRow_def)
  then show "auditKeeps s s'"
    using r c by (auto simp: reverseEntry_def Let_def intro!: audit_intros setLedgerStatus_audit)
qed

lemma voidSaleInTx_audit:
  assumes "voidSaleInTx E saleId actor expected s = Inr (r, s')"
  shows "auditKeeps s s'"
proof -
  obtain sale where lock: "lockSale saleId expected s = Inr sale" using assms by (auto simp: voidSaleInTx_def)
  let ?v = "audit (sa_tenantId sale) actor ''sale.void'' saleId (JObj [(''status'', JStr (statusText (sa_status sale)))])
                (JObj [(''status'', JStr ''void'')]) (updateSale saleId (\<lambda>r. r\<lparr>sa_status := SaleVoid\<rparr>) s)"
  have v: "auditKeeps s ?v" by (intro auditKeeps_audit) simp
  have "s' = s \<or> s' = ?v \<or> (\<exists>month. foldRes (reverseEntry E sale month) (voidableEntries s saleId) ?v = Inr s')"
    using assms lock by (auto simp: voidSaleInTx_def Let_def split: if_splits)
  then show ?thesis using v auditKeeps_foldRes [OF _ v reverseEntry_audit] by fastforce
qed

lemma markDelivered_audit: "markDelivered saleId at s = Inr (d, s') \<Longrightarrow> auditKeeps s s'"
  by (auto simp: markDelivered_def updateSale_def Let_def pointer_def split: if_splits
      intro!: auditKeeps_rows [OF auditKeeps_refl])

lemma matureCommissions_audit:
  assumes "matureCommissions E now limit skipped s = Inr (r, s')"
  shows "auditKeeps s s'"
proof -
  have "auditKeeps s (fold matureRow batch s)" for batch
    by (rule auditKeeps_fold) (auto simp: matureRow_def intro!: audit_intros setLedgerStatus_audit split: prod.split)
  then show ?thesis using assms by (auto simp: matureCommissions_def Let_def split: if_splits)
qed

lemma awardBonusInTx_audit: "awardBonusInTx E p s = Inr (i, s') \<Longrightarrow> auditKeeps s s'"
  by (drule awardBonusInTx_posted) (erule auditKeeps_posted, simp add: newEntry_def stripRow_def)

lemma dispatchPayoutBatchTx_audit:
  assumes "dispatchPayoutBatchTx E p r ev s = Inr (out, s')"
  shows "auditKeeps s s'"
proof -
  have live: "auditKeeps s (s\<lparr>batches := updateWhere (\<lambda>b. ba_id b = i \<and> ba_status b = BaProcessing) f (batches s)\<rparr>)"
    if "\<And>b. ba_id (f b) = ba_id b" for i f
    using that by (auto simp: auditKeeps_def keysKept_frame liveBatch_def set_updateWhere)
  show ?thesis
    using assms by (auto simp: dispatchPayoutBatchTx_def Let_def split: if_splits intro!: audit_intros live)
qed

lemma settlePayoutBatchTx_audit:
  assumes "settlePayoutBatchTx E p r ev s = Inr (out, s')"
  shows "auditKeeps s s'"
proof -
  have base: "auditKeeps s (s\<lparr>payouts := ps, ledger := updateWhere P (\<lambda>e. e\<lparr>le_status := LePaid\<rparr>) (ledger s),
       batches := updateWhere (\<lambda>b. ba_id b = i) (settleBatch E p r ev) (batches s)\<rparr>)"
    if "\<And>b. b \<in> set (batches s) \<Longrightarrow> ba_id b = i \<Longrightarrow> liveBatch s i" for ps P i
  proof -
    have "map pointer (updateWhere P (\<lambda>e. e\<lparr>le_status := LePaid\<rparr>) (ledger s)) = map pointer (ledger s)"
      by (rule map_updateWhere_id) (simp add: pointer_def)
    then show ?thesis
      using that by (auto simp: auditKeeps_def keysKept_frame liveBatch_def set_updateWhere settleBatch_def)
  qed
  have live: "liveBatch s (ba_id b)" if "tenantBatch s t i = Some b" "ba_status b = BaDispatched" for t i b
    using that by (auto simp: liveBatch_def tenantBatch_def dest!: find_SomeD)
  show ?thesis
    using assms by (auto simp: settlePayoutBatchTx_def Let_def split: if_splits intro!: audit_intros base live)
qed

lemma rejectPayoutRequestTx_audit: "rejectPayoutRequestTx E p r s = Inr (i, s') \<Longrightarrow> auditKeeps s s'"
  by (auto simp: rejectPayoutRequestTx_def intro!: auditKeeps_audit auditKeeps_frame)

lemma bulkTx_audit:
  assumes "bulkTx openToken E a p scope k h tok (saleCapability E t) s = Inr (out, s')"
  shows "auditKeeps s s'"
  using assms
proof (cases rule: bulkTx_cases)
  case (replay i r)
  then show ?thesis by (intro auditKeeps_beside beginBulkExecution_beside)
next
  case (run i s1 s2 review)
  have "auditKeeps s s1" by (rule auditKeeps_beside [OF beginBulkExecution_beside [OF run(1)]])
  then have "auditKeeps s s2"
    by (rule auditKeeps_foldRes [OF run(5)])
      (auto simp: bulkStep_def saleCapability_def split: bulk_action.splits dest: approveSaleInTx_audit voidSaleInTx_audit)
  then show ?thesis using auditKeeps_beside completeBulkExecution_beside [OF run(6)] auditKeeps_trans by blast
qed simp

lemma doFinalize_audit:
  assumes "doFinalize E g t c actor s = Inr (r, s')"
  shows "auditKeeps s s'"
  using assms
proof (rule doFinalize_cases)
  fix tenant s1 s2 x s3
  assume cl: "claimCampaign E t c s = Inr s1" and st: "storeResults (cp_id c) (standings g t c s1) s2 = Inr (x, s3)"
    and f: "foldRes (awardPrize E t c (env_month E (env_now E) (tn_timezone tenant)) actor) (standings g t c s1) s1 = Inr s2"
    and s': "\<exists>au. s' = s3\<lparr>audits := au\<rparr>"
  have "auditKeeps s s1" by (rule auditKeeps_beside [OF claimCampaign_beside [OF cl]])
  then have "auditKeeps s s2"
    by (rule auditKeeps_foldRes [OF f]) (auto simp: awardPrize_def split: if_splits dest: awardBonusInTx_audit)
  then have "auditKeeps s s3" using auditKeeps_beside [OF storeResults_beside [OF st]] auditKeeps_trans by blast
  then show ?thesis using s' auditKeeps_then [of s s3 s'] by auto
qed

section \<open>Pointers and items\<close>

text \<open>
  A row that names a payout is listed by an item of that payout in the row's batch; a row listed by an item of a
  batch that has not failed names the item's payout.
\<close>

definition pointed :: "db \<Rightarrow> bool" where
  "pointed s \<longleftrightarrow>
     (\<forall>e \<in> set (ledger s). \<forall>pid. le_payoutId e = Some pid \<longrightarrow>
        (\<exists>i \<in> set (batchItems s). bi_payoutId i = pid \<and> bi_ledgerEntryId i = le_id e \<and> le_payoutBatchId e = Some (bi_batchId i))) \<and>
     (\<forall>i \<in> set (batchItems s). liveBatch s (bi_batchId i) \<longrightarrow>
        (\<forall>e \<in> set (ledger s). le_id e = bi_ledgerEntryId i \<longrightarrow> le_payoutId e = Some (bi_payoutId i)))"

lemma pointedD1: "pointed s \<Longrightarrow> e \<in> set (ledger s) \<Longrightarrow> le_payoutId e = Some pid \<Longrightarrow>
    \<exists>i \<in> set (batchItems s). bi_payoutId i = pid \<and> bi_ledgerEntryId i = le_id e \<and> le_payoutBatchId e = Some (bi_batchId i)"
  by (auto simp: pointed_def)

lemma pointedD2: "pointed s \<Longrightarrow> i \<in> set (batchItems s) \<Longrightarrow> liveBatch s (bi_batchId i) \<Longrightarrow> e \<in> set (ledger s) \<Longrightarrow>
    le_id e = bi_ledgerEntryId i \<Longrightarrow> le_payoutId e = Some (bi_payoutId i)"
  by (auto simp: pointed_def)

lemma books_parts:
  assumes "books s"
  shows "settlementLinks s" "distinct (map le_id (ledger s))" "distinct (map ba_id (batches s))" "distinct (map po_id (payouts s))"
  using assms by (auto simp: books_def settlementOk_def settlementLinks_def settlementIds_def idsFresh_def)

lemma same_row: "distinct (map le_id rows) \<Longrightarrow> e \<in> set rows \<Longrightarrow> x \<in> set rows \<Longrightarrow> le_id x = le_id e \<Longrightarrow> x = e"
  using inj_onD [of le_id "set rows" x e] by (simp add: distinct_map)

lemma auditKeeps_pointed:
  assumes k: "auditKeeps s s'" and b: "books s" "books s'" and p: "pointed s"
  shows "pointed s'"
proof -
  obtain new where led: "map pointer (ledger s') = map pointer (ledger s) @ new" "\<forall>x \<in> set new. fst (snd x) = None"
    and its: "batchItems s' = batchItems s" and live: "\<And>i. liveBatch s' i \<Longrightarrow> liveBatch s i"
    using k by (auto simp: auditKeeps_def)
  have old: "(\<exists>x \<in> set (ledger s). pointer x = pointer e) \<or> pointer e \<in> set new" if "e \<in> set (ledger s')" for e
  proof -
    have "pointer e \<in> set (map pointer (ledger s'))" using that by simp
    then show ?thesis unfolding led(1) by (auto simp: image_iff)
  qed
  have "map le_id (ledger s') = map fst (map pointer (ledger s'))" by (simp add: pointer_def comp_def)
  then have "map le_id (ledger s') = map le_id (ledger s) @ map fst new" unfolding led(1) by (simp add: pointer_def comp_def)
  then have fresh: "le_id x \<notin> fst ` set new" if "x \<in> set (ledger s)" for x
    using books_parts(2) [OF b(2)] that by auto
  have "\<exists>i \<in> set (batchItems s'). bi_payoutId i = pid \<and> bi_ledgerEntryId i = le_id e \<and> le_payoutBatchId e = Some (bi_batchId i)"
    if e: "e \<in> set (ledger s')" "le_payoutId e = Some pid" for e pid
  proof -
    have "pointer e \<notin> set new" using led(2) e(2) by (force simp: pointer_def)
    then obtain x where "x \<in> set (ledger s)" "pointer x = pointer e" using old [OF e(1)] by blast
    then show ?thesis using pointedD1 [OF p, of x pid] e(2) its by (simp add: pointer_def)
  qed
  moreover have "le_payoutId e = Some (bi_payoutId i)"
    if i: "i \<in> set (batchItems s')" "liveBatch s' (bi_batchId i)" and e: "e \<in> set (ledger s')" "le_id e = bi_ledgerEntryId i" for i e
  proof -
    have "itemOk s i" using books_parts(1) [OF b(1)] i(1) its by (simp add: settlementLinks_def)
    then obtain y where y: "y \<in> set (ledger s)" "le_id y = bi_ledgerEntryId i" by (auto simp: itemOk_def itemOf_def)
    have "pointer e \<notin> set new" using fresh [OF y(1)] y(2) e(2) by (force simp: pointer_def)
    then obtain x where "x \<in> set (ledger s)" "pointer x = pointer e" using old [OF e(1)] by blast
    then show ?thesis using pointedD2 [OF p, of i x] i live [OF i(2)] its e(2) by (simp add: pointer_def)
  qed
  ultimately show ?thesis unfolding pointed_def by blast
qed

subsection \<open>Reserving\<close>

lemma round_pointed:
  assumes rd: "roundDone E tid bid r pid row s s'" and snd: "sound s" and ready: "readyFor tid s r" and p: "pointed s"
  shows "pointed s'"
proof -
  let ?f = "\<lambda>e. e\<lparr>le_status := LeProcessing, le_payoutId := Some pid, le_payoutBatchId := Some bid\<rparr>"
  let ?C = "claimable (rv_rows r)"
  have led: "ledger s' = updateWhere ?C ?f (ledger s)" and fr: "batches s' = batches s"
    and its: "batchItems s' = batchItems s @ map (itemFor E bid pid r) (rv_rows r)"
    and n: "countWhere ?C (ledger s) = length (rv_rows r)" using rd by (auto simp: roundDone_def)
  have dl: "distinct (map le_id (ledger s))" and dr: "distinct (map pr_id (rv_rows r))"
    using snd ready by (auto simp: sound_def idsFresh_def readyFor_def)
  have origin: "\<exists>x \<in> set (ledger s). e = (if ?C x then ?f x else x)" if "e \<in> set (ledger s')" for e
    using that unfolding led set_updateWhere by blast
  have "\<exists>i \<in> set (batchItems s'). bi_payoutId i = q \<and> bi_ledgerEntryId i = le_id e \<and> le_payoutBatchId e = Some (bi_batchId i)"
    if e: "e \<in> set (ledger s')" "le_payoutId e = Some q" for e q
  proof -
    obtain x where x: "x \<in> set (ledger s)" "e = (if ?C x then ?f x else x)" using origin [OF e(1)] by blast
    show ?thesis
    proof (cases "?C x")
      case True
      then obtain y where y: "y \<in> set (rv_rows r)" "pr_id y = le_id x" by (auto simp: claimable_def)
      then have "itemFor E bid pid r y \<in> set (batchItems s')" unfolding its by simp
      moreover have "bi_payoutId (itemFor E bid pid r y) = q \<and> bi_ledgerEntryId (itemFor E bid pid r y) = le_id e \<and>
          le_payoutBatchId e = Some (bi_batchId (itemFor E bid pid r y))" using x(2) True e(2) y(2) by (simp add: itemFor_def)
      ultimately show ?thesis by blast
    next
      case False
      then show ?thesis using pointedD1 [OF p x(1)] x(2) e(2) its by auto
    qed
  qed
  moreover have "le_payoutId e = Some (bi_payoutId i)"
    if i: "i \<in> set (batchItems s')" "liveBatch s' (bi_batchId i)" and e: "e \<in> set (ledger s')" "le_id e = bi_ledgerEntryId i" for i e
  proof -
    obtain x where x: "x \<in> set (ledger s)" "e = (if ?C x then ?f x else x)" using origin [OF e(1)] by blast
    consider (old) "i \<in> set (batchItems s)" | (new) y where "y \<in> set (rv_rows r)" "i = itemFor E bid pid r y" using i(1) its by auto
    then show ?thesis
    proof cases
      case old
      have "liveBatch s (bi_batchId i)" using i(2) fr by (simp add: liveBatch_def)
      moreover have "le_id x = bi_ledgerEntryId i" using x(2) e(2) by (auto split: if_splits)
      ultimately have "le_payoutId x = Some (bi_payoutId i)" using pointedD2 [OF p old _ x(1)] by blast
      then show ?thesis using x(2) by (auto simp: claimable_def)
    next
      case new
      obtain z where "z \<in> set (ledger s)" "?C z" "le_id z = pr_id y" using claim_all [OF dl dr n new(1)] by blast
      moreover have "le_id x = pr_id y" using x(2) e(2) new(2) by (auto simp: itemFor_def split: if_splits)
      ultimately have "?C x" using same_row [OF dl x(1)] by metis
      then show ?thesis using x(2) new(2) by (simp add: itemFor_def)
    qed
  qed
  ultimately show ?thesis unfolding pointed_def by blast
qed

lemma reserve_loop_pointed:
  assumes "foldRes (reserveOne E p bid) rs (s, ps) = Inr (s', ps')" "pointed s"
    "sound s" "\<And>r. r \<in> set rs \<Longrightarrow> readyFor (rp_tenantId p) s r" "distinct (map rv_membershipId rs)"
    "b \<in> set (batches s)" "ba_id b = bid" "ba_status b = BaProcessing" "ba_tenantId b = rp_tenantId p"
  shows "pointed s' \<and> summaries s' = summaries s"
  using assms
proof (induction rs arbitrary: s ps)
  case (Cons r rs)
  obtain t qs where one: "reserveOne E p bid r (s, ps) = Inr (t, qs)" and rest: "foldRes (reserveOne E p bid) rs (t, qs) = Inr (s', ps')"
    using Cons.prems(1) by auto
  have ids: "settlementIds s" "inj (uuidGen s)" using Cons.prems(3) by (auto simp: sound_def settlementLinks_def idsFresh_def)
  have ready: "readyFor (rp_tenantId p) s r" using Cons.prems(4) by simp
  obtain pid row where rd: "roundDone E (rp_tenantId p) bid r pid row s t" using reserveOne_round [OF ids ready one] by blast
  have t: "batches t = batches s" "summaries t = summaries s" using rd by (auto simp: roundDone_def)
  have q: "readyFor (rp_tenantId p) t q" if "q \<in> set rs" for q
    using round_ready [OF rd ids(1)] Cons.prems(4,5) that by (force simp: image_iff)
  have "pointed s' \<and> summaries s' = summaries t"
    by (rule Cons.IH [OF rest round_pointed [OF rd Cons.prems(3) ready Cons.prems(2)] round_sound [OF rd Cons.prems(3) ready Cons.prems(6-9)] q])
      (use Cons.prems(5-9) t in simp_all)
  then show ?case using t(2) by simp
qed simp

lemma pointed_frame:
  "pointed s \<Longrightarrow> ledger s' = ledger s \<Longrightarrow> batchItems s' = batchItems s \<Longrightarrow> (\<And>b. liveBatch s' b \<Longrightarrow> liveBatch s b) \<Longrightarrow> pointed s'"
  unfolding pointed_def by simp

text \<open>A new batch has no items: no old item names its fresh id.\<close>

lemma createBatch_pointed:
  assumes "books s" "createBatch E p s = (bid, s1)" "pointed s"
  shows "pointed s1"
proof -
  have s1: "ledger s1 = ledger s" "batchItems s1 = batchItems s" "bid = freshId s"
    and b: "\<exists>b. batches s1 = batches s @ [b] \<and> ba_id b = bid" using assms(2) by (auto simp: createBatch_def drawId_def)
  have "bi_batchId i \<noteq> bid" if "i \<in> set (batchItems s)" for i
  proof -
    have "itemOk s i" using books_parts(1) [OF assms(1)] that by (simp add: settlementLinks_def)
    then obtain x where "x \<in> set (batches s)" "ba_id x = bi_batchId i" by (auto simp: itemOk_def itemOf_def)
    then show ?thesis using books_parts(1) [OF assms(1)] s1(3)
      by (auto simp: settlementLinks_def settlementIds_def freshId_def)
  qed
  moreover obtain x where x: "batches s1 = batches s @ [x]" "ba_id x = bid" using b by blast
  ultimately have "liveBatch s1 (bi_batchId i) = liveBatch s (bi_batchId i)" if "i \<in> set (batchItems s)" for i
    using that unfolding liveBatch_def x(1) by (auto simp: x(2) dest: sym)
  then show ?thesis using assms(3) s1(1,2) unfolding pointed_def by simp
qed

lemma reservePayoutBatchTx_pointed:
  assumes bk: "books s" and r: "reservePayoutBatchTx E p s = Inr (out, s')" and pt: "pointed s"
  shows "pointed s' \<and> keysKept s s'"
proof -
  obtain tenant ts ds where t: "tenantOrThrow s (rp_tenantId p) = Inr tenant" "batchTargets E p tenant s = Inr ts"
    "mapRes (decideMember E p tenant s) ts = Inr ds"
    using r unfolding reservePayoutBatchTx_def andThen_Inr_iff by blast
  have tid: "tn_id tenant = rp_tenantId p" using t(1) by (auto simp: tenantOrThrow_def findTenant_def dest: find_SomeD)
  let ?rs = "reservationsOf ds"
  have d: "distinct (map rv_membershipId ?rs)" by (rule reservations_distinct [OF t(3) batchTargets_distinct [OF t(2)]])
  have ready: "readyFor (rp_tenantId p) s q" if "q \<in> set ?rs" for q
    using reservations_from [OF t(3) that] reservation_ready [OF bk tid] by blast
  have "s' = s \<or> (\<exists>bid ps. commitReservations E p ?rs s = Inr (bid, ps, s'))"
    using r t by (auto simp: reservePayoutBatchTx_def Let_def split: if_splits)
  moreover have "pointed s' \<and> keysKept s s'" if c: "commitReservations E p ?rs s = Inr (bid, ps, s')" for bid ps
  proof -
    obtain s1 s2 where s1: "createBatch E p s = (bid, s1)" and loop: "foldRes (reserveOne E p bid) ?rs (s1, []) = Inr (s2, ps)"
      and s': "auditKeeps s2 s'"
      using c by (cases "createBatch E p s") (auto simp: commitReservations_def auditKeeps_audit [OF auditKeeps_applyBuckets])
    have fr: "ledger s' = ledger s2" "batchItems s' = batchItems s2" "batches s' = batches s2"
      using c s1 loop by (auto simp: commitReservations_def)
    note cb = createBatch_sound [OF bk s1]
    obtain b where b: "b \<in> set (batches s1)" "ba_id b = bid" "ba_status b = BaProcessing" "ba_tenantId b = rp_tenantId p" using cb(2) by blast
    have rdy: "readyFor (rp_tenantId p) s1 q" if "q \<in> set ?rs" for q using readyFor_frame [OF ready [OF that] cb(5,4,6)] .
    have "pointed s2" "summaries s2 = summaries s1"
      using reserve_loop_pointed [OF loop createBatch_pointed [OF bk s1 pt] cb(1) rdy d b] by blast+
    moreover have "summaries s1 = summaries s" using s1 by (auto simp: createBatch_def drawId_def)
    ultimately show ?thesis
      using s' pointed_frame [of s2 s'] fr keysKept_frame [of s2 s] keysKept_trans by (auto simp: auditKeeps_def liveBatch_def)
  qed
  ultimately show ?thesis using pt keysKept_frame [of s s] by auto
qed

subsection \<open>Failing\<close>

lemma failPayoutBatchTx_cases:
  assumes "failPayoutBatchTx E p reason s = Inr (out, s')"
  obtains (same) "s' = s"
  | (failed) b s1 where "b \<in> set (batches s)" "s1 = s\<lparr>ledger := updateWhere (inFlightRow (ba_id b) (lockPayoutBatchItems s (ba_id b)))
         (\<lambda>e. e\<lparr>le_status := LePayable, le_payoutId := None, le_payoutBatchId := None\<rparr>) (ledger s), payouts := payouts s1,
         batches := updateWhere (\<lambda>x. ba_id x = ba_id b) (failBatch E p reason) (batches s)\<rparr>" "auditKeeps s1 s'"
    "ledger s' = ledger s1" "batches s' = batches s1"
proof -
  obtain b where b: "tenantBatch s (fp_tenantId p) (fp_batchId p) = Some b" using assms by (auto simp: failPayoutBatchTx_def)
  then have mem: "b \<in> set (batches s)" by (auto simp: tenantBatch_def dest: find_SomeD)
  let ?pays = "findManyBy po_id (\<lambda>x. po_batchId x = Some (ba_id b)) (payouts s)"
  let ?s1 = "s\<lparr>ledger := updateWhere (inFlightRow (ba_id b) (lockPayoutBatchItems s (ba_id b)))
         (\<lambda>e. e\<lparr>le_status := LePayable, le_payoutId := None, le_payoutBatchId := None\<rparr>) (ledger s),
         payouts := updateWhere (inFlightPayout (ba_id b) ?pays) (failPayout E p reason) (payouts s),
         batches := updateWhere (\<lambda>x. ba_id x = ba_id b) (failBatch E p reason) (batches s)\<rparr>"
  show ?thesis
  proof (cases "ba_status b = BaFailed")
    case True
    then show ?thesis using assms b same by (simp add: failPayoutBatchTx_def)
  next
    case False
    have f: "ledger (fold (\<lambda>x. audit t a c (po_id x) d (j x)) ps u) = ledger u \<and> batches (fold (\<lambda>x. audit t a c (po_id x) d (j x)) ps u) = batches u"
      for t a c d j ps u by (induction ps arbitrary: u) simp_all
    have "auditKeeps ?s1 s' \<and> ledger s' = ledger ?s1 \<and> batches s' = batches ?s1"
      using assms b False by (auto simp: failPayoutBatchTx_def Let_def f moveBatchSummary_def intro!: audit_intros auditKeeps_applyBuckets)
    then show ?thesis using failed [of b ?s1] mem by simp
  qed
qed

lemma failPayoutBatchTx_pointed:
  assumes bk: "books s" and r: "failPayoutBatchTx E p reason s = Inr (out, s')" and pt: "pointed s"
  shows "pointed s' \<and> keysKept s s'"
  using r
proof (cases rule: failPayoutBatchTx_cases)
  case same
  then show ?thesis using pt keysKept_frame by simp
next
  case (failed b s1)
  let ?P = "inFlightRow (ba_id b) (lockPayoutBatchItems s (ba_id b))"
  let ?f = "\<lambda>e. e\<lparr>le_status := LePayable, le_payoutId := None, le_payoutBatchId := None\<rparr>"
  have s1: "ledger s1 = updateWhere ?P ?f (ledger s)" "batches s1 = updateWhere (\<lambda>x. ba_id x = ba_id b) (failBatch E p reason) (batches s)"
    "batchItems s1 = batchItems s" "summaries s1 = summaries s" by (subst failed(2), simp)+
  note parts = books_parts [OF bk]
  have its: "batchItems s' = batchItems s" using failed(3) s1(3) by (simp add: auditKeeps_def)
  have origin: "\<exists>x \<in> set (ledger s). e = (if ?P x then ?f x else x)" if "e \<in> set (ledger s')" for e
    using that unfolding failed(4) s1(1) set_updateWhere by blast
  have "\<exists>i \<in> set (batchItems s'). bi_payoutId i = q \<and> bi_ledgerEntryId i = le_id e \<and> le_payoutBatchId e = Some (bi_batchId i)"
    if e: "e \<in> set (ledger s')" "le_payoutId e = Some q" for e q
    using origin [OF e(1)] pointedD1 [OF pt] e(2) its by (auto split: if_splits)
  moreover have "le_payoutId e = Some (bi_payoutId i)"
    if i: "i \<in> set (batchItems s')" "liveBatch s' (bi_batchId i)" and e: "e \<in> set (ledger s')" "le_id e = bi_ledgerEntryId i" for i e
  proof -
    obtain x where x: "x \<in> set (ledger s)" "e = (if ?P x then ?f x else x)" using origin [OF e(1)] by blast
    have xi: "le_id x = bi_ledgerEntryId i" using x(2) e(2) by (auto split: if_splits)
    obtain c where c: "c \<in> set (batches s)" "ba_id c = bi_batchId i" "ba_status c \<noteq> BaFailed" "ba_id c \<noteq> ba_id b"
      using i(2) unfolding liveBatch_def failed(5) s1(2) set_updateWhere by (auto simp: failBatch_def split: if_splits)
    have "i \<in> set (batchItems s)" using i(1) its by simp
    then obtain y where y: "y \<in> set (ledger s)" "itemOf s c i y" using item_row [OF parts(1,3) c(1)] c(2) by auto
    then have "y = x" using same_row [OF parts(2) x(1) y(1)] xi by (simp add: itemOf_def)
    then have "le_payoutBatchId x = Some (ba_id c)" using y(2) c(3) by (cases "ba_status c") (auto simp: itemOf_def ownedBy_def)
    then have "\<not> ?P x" using c(4) by (auto simp: inFlightRow_def)
    moreover have "le_payoutId x = Some (bi_payoutId i)"
      using pointedD2 [OF pt _ _ x(1) xi] i(1) its c by (auto simp: liveBatch_def)
    ultimately show ?thesis using x(2) by simp
  qed
  moreover have "keysKept s s'" using failed(3) keysKept_trans [OF keysKept_frame [OF s1(4)]] by (simp add: auditKeeps_def)
  ultimately show ?thesis unfolding pointed_def by blast
qed

section \<open>Every step\<close>

definition auditable :: "db \<Rightarrow> bool" where
  "auditable s \<longleftrightarrow> books s \<and> pointed s \<and> distinct (map ms_key (summaries s))"

lemmas steps_audit = applyCommissionsInTx_audit approveSaleInTx_audit voidSaleInTx_audit markDelivered_audit matureCommissions_audit
  awardBonusInTx_audit dispatchPayoutBatchTx_audit settlePayoutBatchTx_audit rejectPayoutRequestTx_audit bulkTx_audit doFinalize_audit

lemma engineStep_audit:
  assumes "engineStep s s'"
  obtains (kept) "auditKeeps s s'" | (reserved) E p out where "reservePayoutBatchTx E p s = Inr (out, s')"
    | (failed) E p reason out where "failPayoutBatchTx E p reason s = Inr (out, s')"
  using assms
proof cases
  case apply_step
  then show thesis using kept applyCommissionsInTx_audit by (auto simp: applyCommissions_def)
next
  case (reserve_step E p)
  then show thesis by (rule reserved)
next
  case (fail_step E p reason)
  then show thesis by (rule failed)
next
  case lock_step
  then show thesis by (intro kept auditKeeps_sameMoney lockPeriod_sameMoney)
next
  case unlock_step
  then show thesis by (intro kept auditKeeps_sameMoney unlockPeriod_sameMoney)
next
  case control_step
  then show thesis by (intro kept auditKeeps_sameMoney decideControl_sameMoney)
next
  case destination_step
  then show thesis by (intro kept auditKeeps_sameMoney replaceDestination_sameMoney)
qed (blast intro: kept dest: steps_audit auditKeeps_beside [OF services_beside(1)] auditKeeps_beside [OF services_beside(2)]
   auditKeeps_beside [OF services_beside(3)] auditKeeps_beside [OF services_beside(4)] auditKeeps_beside [OF services_beside(5)]
   auditKeeps_beside [OF services_beside(6)] auditKeeps_beside [OF services_beside(7)] auditKeeps_beside [OF services_beside(8)]
   auditKeeps_beside [OF services_beside(9)] auditKeeps_beside [OF services_beside(10)] auditKeeps_beside [OF services_beside(11)]
   auditKeeps_beside [OF services_beside(12)])+

lemma engineStep_auditable:
  assumes "engineStep s s'" "auditable s"
  shows "auditable s'"
proof -
  have b: "books s" "books s'" using assms engineStep_books by (auto simp: auditable_def)
  have "pointed s' \<and> keysKept s s'"
    using assms(1)
  proof (cases rule: engineStep_audit)
    case kept
    then show ?thesis using auditKeeps_pointed [OF kept b] assms(2) by (simp add: auditable_def auditKeeps_def)
  next
    case (reserved E p out)
    then show ?thesis using reservePayoutBatchTx_pointed [OF b(1)] assms(2) by (simp add: auditable_def)
  next
    case (failed E p reason out)
    then show ?thesis using failPayoutBatchTx_pointed [OF b(1)] assms(2) by (simp add: auditable_def)
  qed
  then show ?thesis using b(2) assms(2) by (simp add: auditable_def keysKept_def)
qed

interpretation aud: maintained engineStep auditable
  by unfold_locales (rule engineStep_auditable)

end
