(* ===== verification/Report_Theorems.thy ===== *)
theory Report_Theorems
  imports Financial_Audit Engine_Theorems Sales_Theorems
begin

text \<open>
  The properties of the reports: the nightly financial audit reports exactly the two equalities it is there
  for, it is healthy after any run of the engine, and the comparison window of the analytics is the one that
  ends where the shown window begins.
\<close>

section \<open>Summaries and ledger, per member\<close>

lemma sumWhere_keys:
  fixes f :: "'a \<Rightarrow> int"
  assumes "finite K" "\<And>x k. x \<in> set xs \<Longrightarrow> key x = Some k \<Longrightarrow> Q k \<Longrightarrow> k \<in> K"
  shows "(\<Sum>k \<in> {k \<in> K. Q k}. sumWhere (\<lambda>x. P x \<and> key x = Some k) f xs) = sumWhere (\<lambda>x. P x \<and> (\<exists>k. key x = Some k \<and> Q k)) f xs"
  using assms(2)
proof (induction xs)
  case (Cons x xs)
  have fin: "finite {k \<in> K. Q k}" using assms(1) by simp
  have one: "(\<Sum>k \<in> {k \<in> K. Q k}. if P x \<and> key x = Some k then f x else 0) =
     (if P x \<and> (\<exists>k. key x = Some k \<and> Q k) then f x else 0)"
  proof (cases "P x \<and> (\<exists>k. key x = Some k \<and> Q k)")
    case True
    then obtain k where k: "key x = Some k" "Q k" "k \<in> K" "P x" using Cons.prems [of x] by auto
    have "(\<Sum>j \<in> {k \<in> K. Q k}. if P x \<and> key x = Some j then f x else 0) = (\<Sum>j \<in> {k \<in> K. Q k}. if k = j then f x else 0)"
      by (rule sum.cong) (use k in auto)
    also have "\<dots> = f x" using fin k by simp
    finally show ?thesis using k by auto
  next
    case False
    then have "(\<Sum>k \<in> {k \<in> K. Q k}. if P x \<and> key x = Some k then f x else 0) = 0" by (intro sum.neutral) auto
    then show ?thesis using False by auto
  qed
  have ih: "(\<Sum>k \<in> {k \<in> K. Q k}. sumWhere (\<lambda>x. P x \<and> key x = Some k) f xs) = sumWhere (\<lambda>x. P x \<and> (\<exists>k. key x = Some k \<and> Q k)) f xs"
    by (rule Cons.IH) (use Cons.prems in auto)
  show ?case using ih one by (simp add: sum.distrib)
qed simp

lemma summary_rows:
  assumes "distinct (map ms_key (summaries s))"
  shows "sumWhere (\<lambda>r. Q (ms_key r)) (\<lambda>r. statusPart st (ms_cents r)) (summaries s) =
     (\<Sum>k \<in> {k \<in> ms_key ` set (summaries s). Q k}. colSum st s k)"
proof -
  have d: "distinct (summaries s)" "inj_on ms_key (set (summaries s))" using assms by (auto simp: distinct_map)
  have row: "summaryRow s (ms_key r) = Some r" if r: "r \<in> set (summaries s)" for r
  proof (cases "summaryRow s (ms_key r)")
    case None
    then show ?thesis using r by (auto simp: summaryRow_def find_None_iff)
  next
    case (Some x)
    then have "x \<in> set (summaries s)" "ms_key x = ms_key r" by (auto simp: summaryRow_def dest: find_SomeD)
    then show ?thesis using Some d(2) r by (simp add: inj_on_eq_iff)
  qed
  have "sumWhere (\<lambda>r. Q (ms_key r)) (\<lambda>r. statusPart st (ms_cents r)) (summaries s) =
     (\<Sum>r \<in> {r \<in> set (summaries s). Q (ms_key r)}. statusPart st (ms_cents r))"
    unfolding sumWhere_def using d(1) by (simp add: sum_list_distinct_conv_sum_set)
  also have "\<dots> = (\<Sum>r \<in> {r \<in> set (summaries s). Q (ms_key r)}. colSum st s (ms_key r))"
    by (rule sum.cong) (auto simp: colSum_def row)
  also have "\<dots> = (\<Sum>k \<in> ms_key ` {r \<in> set (summaries s). Q (ms_key r)}. colSum st s k)"
    by (rule sum.reindex_cong [symmetric]) (use d(2) in \<open>auto simp: inj_on_def\<close>)
  also have "ms_key ` {r \<in> set (summaries s). Q (ms_key r)} = {k \<in> ms_key ` set (summaries s). Q k}" by auto
  finally show ?thesis .
qed

lemma totals_agree:
  assumes rec: "reconciled s" "linked s" and d: "distinct (map ms_key (summaries s))" and st: "st \<noteq> LeReversed"
  shows "summaryTotal s t m (statusPart st) = ledgerTotal s t m st"
proof -
  define Q :: "summary_key \<Rightarrow> bool" where "Q k \<longleftrightarrow> fst k = t \<and> fst (snd k) = m" for k
  define K where "K = ms_key ` set (summaries s) \<union> {k. \<exists>e \<in> set (ledger s). ledgerKey s e = Some k}"
  have fk: "{k. \<exists>e \<in> set (ledger s). ledgerKey s e = Some k} \<subseteq> (\<lambda>e. the (ledgerKey s e)) ` set (ledger s)" by force
  have fin: "finite K" unfolding K_def using finite_subset [OF fk] by simp
  have "summaryTotal s t m (statusPart st) = (\<Sum>k \<in> {k \<in> ms_key ` set (summaries s). Q k}. colSum st s k)"
    using summary_rows [OF d, of Q st] by (simp add: summaryTotal_def Q_def)
  also have "\<dots> = (\<Sum>k \<in> {k \<in> K. Q k}. colSum st s k)"
  proof (rule sum.mono_neutral_left)
    show "\<forall>k \<in> {k \<in> K. Q k} - {k \<in> ms_key ` set (summaries s). Q k}. colSum st s k = 0"
    proof
      fix k assume "k \<in> {k \<in> K. Q k} - {k \<in> ms_key ` set (summaries s). Q k}"
      then have "k \<notin> ms_key ` set (summaries s)" by blast
      then have "summaryRow s k = None" by (auto simp: summaryRow_def find_None_iff)
      then show "colSum st s k = 0" by (simp add: colSum_def)
    qed
  qed (use fin in \<open>auto simp: K_def\<close>)
  also have "\<dots> = (\<Sum>k \<in> {k \<in> K. Q k}. ledgerSum st s k)" using rec(1) st by (intro sum.cong) (auto simp: reconciled_def)
  also have "\<dots> = sumWhere (\<lambda>e. le_status e = st \<and> (\<exists>k. ledgerKey s e = Some k \<and> Q k)) le_amountCents (ledger s)"
    unfolding ledgerSum_def by (rule sumWhere_keys [OF fin]) (auto simp: K_def)
  also have "\<dots> = ledgerTotal s t m st"
    unfolding ledgerTotal_def
  proof (rule sumWhere_cong)
    fix e assume "e \<in> set (ledger s)"
    then obtain mo where "bucketMonth s e = Some mo" using linked_bucket [OF rec(2)] by blast
    then show "(le_status e = st \<and> (\<exists>k. ledgerKey s e = Some k \<and> Q k)) = (le_tenantId e = t \<and> le_beneficiary e = m \<and> le_status e = st)"
      by (auto simp: ledgerKey_def Q_def)
  qed simp
  finally show ?thesis .
qed

lemma memberChecks_ok: "auditable s \<Longrightarrow> x \<in> set (memberChecks s t m) \<Longrightarrow> sx_summary x = sx_ledger x"
proof -
  assume a: "auditable s" "x \<in> set (memberChecks s t m)"
  then have b: "reconciled s" "linked s" "distinct (map ms_key (summaries s))" by (auto simp: auditable_def books_def)
  have p: "statusPart LePending = d_pending" "statusPart LePayable = d_payable" "statusPart LeProcessing = d_processing"
    "statusPart LePaid = d_paid" by (rule ext, simp)+
  show ?thesis
    using a(2) totals_agree [OF b, of LePending t m] totals_agree [OF b, of LePayable t m] totals_agree [OF b, of LeProcessing t m]
      totals_agree [OF b, of LePaid t m] by (auto simp: memberChecks_def p)
qed

section \<open>Payouts and ledger\<close>

lemma paid_lines:
  assumes a: "auditable s" and p: "p \<in> set (payouts s)" "po_status p = PoPaid"
  shows "po_totalCents p = lineSum s (po_id p)"
proof -
  have bk: "books s" and pt: "pointed s" using a by (auto simp: auditable_def)
  note parts = books_parts [OF bk]
  have ok: "payoutOk (batches s) (batchItems s) p" using parts(1) p(1) by (simp add: settlementLinks_def)
  then obtain bid where bid: "po_batchId p = Some bid" using p(2) by (auto simp: payoutOk_def split: option.splits)
  obtain b where b: "b \<in> set (batches s)" "ba_id b = bid" "po_status p = batchPayoutStatus (ba_status b)"
    and tot: "po_totalCents p = sumWhere (\<lambda>i. bi_batchId i = bid \<and> bi_payoutId i = po_id p) bi_amountCents (batchItems s)"
    using ok bid by (auto simp: payoutOk_def)
  have live: "liveBatch s bid" using b p(2) by (cases "ba_status b") (auto simp: liveBatch_def)
  let ?I = "filter (\<lambda>i. bi_batchId i = bid \<and> bi_payoutId i = po_id p) (batchItems s)"
  have iff: "le_payoutId e = Some (po_id p) \<longleftrightarrow> le_id e \<in> bi_ledgerEntryId ` set ?I" if e: "e \<in> set (ledger s)" for e
  proof
    assume "le_payoutId e = Some (po_id p)"
    then obtain i where i: "i \<in> set (batchItems s)" "bi_payoutId i = po_id p" "bi_ledgerEntryId i = le_id e"
      using pointedD1 [OF pt e] by blast
    then obtain q where "q \<in> set (payouts s)" "po_id q = po_id p" "po_batchId q = Some (bi_batchId i)"
      using parts(1) by (auto simp: settlementLinks_def itemOk_def)
    then have "bi_batchId i = bid" using parts(4) p(1) bid inj_onD [of po_id "set (payouts s)" q p] by (auto simp: distinct_map)
    then show "le_id e \<in> bi_ledgerEntryId ` set ?I" using i by force
  next
    assume "le_id e \<in> bi_ledgerEntryId ` set ?I"
    then show "le_payoutId e = Some (po_id p)" using pointedD2 [OF pt _ _ e] live by auto
  qed
  have "distinct (map (\<lambda>i. (bi_batchId i, bi_ledgerEntryId i)) (batchItems s))"
    using parts(1) by (simp add: settlementLinks_def settlementIds_def)
  then have dI: "distinct (map bi_ledgerEntryId ?I)" by (auto simp: distinct_map inj_on_def dest: distinct_filter)
  have "lineSum s (po_id p) = sum_list (map le_amountCents (filter (\<lambda>e. le_id e \<in> bi_ledgerEntryId ` set ?I) (ledger s)))"
    unfolding lineSum_def sumWhere_def by (rule arg_cong [where f = "\<lambda>xs. sum_list (map _ xs)"], rule filter_cong) (use iff in auto)
  also have "\<dots> = sum_list (map bi_amountCents ?I)"
  proof (rule sum_list_join [OF dI parts(2)])
    fix i assume "i \<in> set ?I"
    then have "i \<in> set (batchItems s)" by simp
    then show "\<exists>e \<in> set (ledger s). le_id e = bi_ledgerEntryId i \<and> le_amountCents e = bi_amountCents i"
      using parts(1) by (auto simp: settlementLinks_def itemOk_def itemOf_def)
  qed
  finally show ?thesis using tot by (simp add: sumWhere_def)
qed

lemma auditable_healthy:
  assumes "auditable s"
  shows "fr_ok (verifyFinancials g t s)" "verifyAllFinancials g s = (length (tenants s), 0)"
proof -
  have "payoutMismatches t s = []" for t using paid_lines [OF assms] by (auto simp: payoutMismatches_def filter_empty_conv)
  moreover have "summaryMismatches g t s = []" for t
    using memberChecks_ok [OF assms] by (auto simp: summaryMismatches_def filter_empty_conv)
  ultimately have ok: "fr_ok (verifyFinancials g t s)" for t by (simp add: verifyFinancials_def Let_def)
  then show "fr_ok (verifyFinancials g t s)" "verifyAllFinancials g s = (length (tenants s), 0)"
    by (simp_all add: verifyAllFinancials_def countWhere_def)
qed

section \<open>The nightly audit\<close>

lemma firsts_set [simp]: "set (firsts xs) = set xs"
  by (simp add: firsts_def)

lemma unaudited_zero:
  assumes "\<And>xs. set (g xs) = set xs" "m \<notin> set (auditedMembers g t s)"
  shows "summaryTotal s t m c = 0" "ledgerTotal s t m st = 0"
proof -
  have out: "m \<notin> (\<lambda>r. fst (snd (ms_key r))) ` {r \<in> set (summaries s). fst (ms_key r) = t}"
    "m \<notin> le_beneficiary ` {e \<in> set (ledger s). le_tenantId e = t}"
    using assms(2) by (simp_all add: auditedMembers_def assms(1))
  have "summaryTotal s t m c = 0" unfolding summaryTotal_def by (rule sumWhere_zero) (use out(1) in force)
  then show "summaryTotal s t m c = 0" .
  have "ledgerTotal s t m st = 0" unfolding ledgerTotal_def by (rule sumWhere_zero) (use out(2) in force)
  then show "ledgerTotal s t m st = 0" .
qed

lemma memberChecks_all: "(\<forall>x \<in> set (memberChecks s t m). sx_summary x = sx_ledger x) \<longleftrightarrow>
    summaryTotal s t m d_pending = ledgerTotal s t m LePending \<and> summaryTotal s t m d_payable = ledgerTotal s t m LePayable \<and>
    summaryTotal s t m d_processing = ledgerTotal s t m LeProcessing \<and> summaryTotal s t m d_paid = ledgerTotal s t m LePaid"
  by (simp add: memberChecks_def)

text \<open>
  The financial audit reports a tenant as healthy exactly when every paid payout of the tenant equals the ledger rows
  linked to it and, for every member, each of the four summary columns added over all months and levels equals the
  ledger rows of that status: a mismatch of any member is found, and nothing else raises the alarm.\<close>

theorem audit_reports_exactly:
  assumes "\<And>xs. set (g xs) = set xs"
  shows "fr_ok (verifyFinancials g t s) \<longleftrightarrow>
    (\<forall>p \<in> set (payouts s). po_tenantId p = t \<and> po_status p = PoPaid \<longrightarrow> po_totalCents p = lineSum s (po_id p)) \<and>
    (\<forall>m. summaryTotal s t m d_pending = ledgerTotal s t m LePending \<and> summaryTotal s t m d_payable = ledgerTotal s t m LePayable \<and>
       summaryTotal s t m d_processing = ledgerTotal s t m LeProcessing \<and> summaryTotal s t m d_paid = ledgerTotal s t m LePaid)"
proof -
  have "summaryMismatches g t s = [] \<longleftrightarrow> (\<forall>m \<in> set (auditedMembers g t s). \<forall>x \<in> set (memberChecks s t m). sx_summary x = sx_ledger x)"
    by (auto simp: summaryMismatches_def filter_empty_conv)
  also have "\<dots> \<longleftrightarrow> (\<forall>m. \<forall>x \<in> set (memberChecks s t m). sx_summary x = sx_ledger x)"
    using unaudited_zero [OF assms] by (metis memberChecks_all)
  finally show ?thesis
    by (auto simp: verifyFinancials_def Let_def payoutMismatches_def filter_empty_conv memberChecks_all)
qed

theorem audit_reports_exactly_witness:
  "\<not> fr_ok (verifyFinancials id 1 (demo_sent\<lparr>summaries := []\<rparr>))"
proof -
  have "\<not> (summaryTotal (demo_sent\<lparr>summaries := []\<rparr>) 1 10 d_processing = ledgerTotal (demo_sent\<lparr>summaries := []\<rparr>) 1 10 LeProcessing)"
    by (simp add: summaryTotal_def ledgerTotal_def demo_sent_defs)
  then show ?thesis using audit_reports_exactly [of id 1 "demo_sent\<lparr>summaries := []\<rparr>"] by auto
qed

text \<open>
  C13: The nightly financial audit never raises an alarm: after any run of the engine and the services, for every tenant, each
  paid payout equals the ledger rows linked to it and each member's summaries equal the ledger, so the audit
  counts no unhealthy tenant.\<close>

theorem audit_always_healthy:
  assumes "engineStep\<^sup>*\<^sup>* s s'" "auditable s"
  shows "fr_ok (verifyFinancials g t s') \<and> verifyAllFinancials g s' = (length (tenants s'), 0)"
  using auditable_healthy [OF aud.always [OF assms]] by blast

lemma demo_sent_auditable: "auditable demo_sent"
proof -
  have "pointed demo_sent" by (simp add: pointed_def demo_sent_defs)
  moreover have "distinct (map ms_key (summaries demo_sent))" by (simp add: demo_sent_defs)
  ultimately show ?thesis using demo_sent_books by (simp add: auditable_def)
qed

theorem audit_always_healthy_witness:
  "\<exists>s'. engineStep\<^sup>*\<^sup>* demo_sent s' \<and> (\<exists>e \<in> set (ledger s'). le_status e = LePaid) \<and> verifyAllFinancials id s' = (length (tenants s'), 0)"
proof -
  obtain s' where s': "engineStep demo_sent s'" "\<exists>e \<in> set (ledger s'). le_status e = LePaid" using demo_settles by blast
  have "engineStep\<^sup>*\<^sup>* demo_sent s'" using s'(1) by blast
  with audit_always_healthy [OF this demo_sent_auditable, of id] s'(2) show ?thesis by auto
qed

section \<open>Windows\<close>

lemma show_nat_inj: "show_nat a = show_nat b \<Longrightarrow> a = b"
  by (metis digitsValue_show_nat)

lemma show_nat_no_minus: "show_nat k \<noteq> ''-'' @ v"
  using show_nat_digits [of k] by (auto simp: isAsciiDigit_def)

lemma show_int_inj: "show_int a = show_int b \<Longrightarrow> a = b"
  using show_nat_no_minus show_nat_no_minus [symmetric] by (auto simp: show_int_def split: if_splits dest!: show_nat_inj)

lemma monthText_inj: "monthText a = monthText b \<Longrightarrow> a = b"
proof -
  assume t: "monthText a = monthText b"
  have eq: "show_int (a div 12) = show_int (b div 12) \<and> digitsW 2 (nat (a mod 12 + 1)) = digitsW 2 (nat (b mod 12 + 1))"
    using t by (simp add: monthText_def append_eq_append_conv2 [symmetric] append_eq_append_conv)
  have "readDigits 0 (digitsW 2 (nat (k mod 12 + 1))) = Some (nat (k mod 12 + 1))" for k :: int
  proof (rule readDigits_digitsW)
    have "k mod 12 < 12" by simp
    then show "nat (k mod 12 + 1) < 10 ^ 2" by simp
  qed
  then have "nat (a mod 12 + 1) = nat (b mod 12 + 1)" using eq by (metis option.inject)
  moreover have "0 \<le> a mod 12" "0 \<le> b mod 12" by simp_all
  ultimately have "a mod 12 = b mod 12" by (simp add: eq_nat_nat_iff)
  moreover have "a div 12 = b div 12" using eq show_int_inj by blast
  ultimately show "a = b" by (metis div_mult_mod_eq)
qed

text \<open>
  The analytics compare like with like: the window of the last \<open>n\<close> months and the window before it are, in this
  order, the last \<open>2 n\<close> months; each has \<open>n\<close> months, no month is in both or twice, and the shown window ends with
  the anchor month.\<close>

theorem windows_adjacent:
  "monthsBack a n n @ monthsBack a n 0 = monthsBack a (n + n) 0 \<and> length (monthsBack a n n) = n \<and>
   distinct (monthsBack a n n @ monthsBack a n 0) \<and> last (monthsBack a (Suc n) 0) = monthText (monthIndex a)"
proof -
  have "rev [n..<n + n] @ rev [0..<n] = rev [0..<n + n]"
    using upt_add_eq_append [of 0 n n] by (simp add: rev_append [symmetric] del: rev_append)
  then have two: "monthsBack a n n @ monthsBack a n 0 = monthsBack a (n + n) 0"
    by (simp add: monthsBack_def map_append [symmetric] del: map_append)
  have "distinct (monthsBack a k 0)" for k
    by (simp add: monthsBack_def distinct_map inj_on_def) (use monthText_inj in fastforce)
  then have "distinct (monthsBack a n n @ monthsBack a n 0)" unfolding two .
  moreover have "last (monthsBack a (Suc n) 0) = monthText (monthIndex a)"
    by (simp add: monthsBack_def last_map last_rev del: upt_Suc)
  moreover have "length (monthsBack a n n) = n" by (simp add: monthsBack_def)
  ultimately show ?thesis using two by blast
qed

end
