(* ===== verification/Access.thy ===== *)
theory Access
  imports Payout_Requests
begin

text \<open>
  Who may do what: the permission catalogue (\<open>permissions.ts\<close>), the roles of a tenant, their assignment and their
  seeding at start-up (\<open>rbac.service.ts\<close>).  Names are ASCII; the listings that answer a write are left out.
\<close>

section \<open>The catalogue\<close>

definition PERMISSION_GROUPS :: "(string \<times> string list) list" where
  "PERMISSION_GROUPS =
     [(''dashboard'', [''dashboard.view'']),
      (''sales'', [''sales.view'', ''sales.create'', ''sales.approve'', ''sales.void'', ''sales.import'', ''sales.export'']),
      (''members'', [''members.view'', ''members.manage'', ''members.suspend'', ''network.view'', ''network.financials.view'']),
      (''invites'', [''invites.create'', ''invites.revoke'']),
      (''payouts'', [''payouts.view'', ''payouts.process'', ''payouts.export'']),
      (''compliance'', [''compliance.view'', ''compliance.review'']),
      (''reports'', [''reports.view'', ''reports.export'']),
      (''audit'', [''audit.view'']),
      (''settings'', [''settings.view'', ''settings.general'', ''settings.plan'', ''settings.branding'', ''settings.payments'',
        ''settings.roles'', ''settings.security'', ''settings.notifications'', ''settings.data''])]"

definition ALL_PERMISSIONS :: "string list" where
  "ALL_PERMISSIONS = concat (map snd PERMISSION_GROUPS)"

definition godTier :: "role \<Rightarrow> bool" where
  "godTier r \<longleftrightarrow> r = PlatformAdmin \<or> r = TenantOwner"

definition hasEffectivePermission :: "role option \<Rightarrow> string list option \<Rightarrow> string \<Rightarrow> bool" where
  "hasEffectivePermission r perms permission \<longleftrightarrow>
     (case r of Some x \<Rightarrow> godTier x | None \<Rightarrow> False) \<or> (case perms of Some ps \<Rightarrow> permission \<in> set ps | None \<Rightarrow> False)"

definition allExcept :: "string list \<Rightarrow> string list" where
  "allExcept omit = filter (\<lambda>p. p \<notin> set omit) ALL_PERMISSIONS"

definition endsWith :: "string \<Rightarrow> string \<Rightarrow> bool" where
  "endsWith suffix v \<longleftrightarrow> length suffix \<le> length v \<and> drop (length v - length suffix) v = suffix"

definition viewOnly :: "string list" where
  "viewOnly = filter (\<lambda>p. endsWith ''.view'' p \<and> p \<noteq> ''compliance.view'' \<and> p \<noteq> ''network.financials.view'') ALL_PERMISSIONS"

record role_seed =
  rs_key :: string
  rs_name :: string
  rs_description :: string
  rs_color :: string
  rs_permissions :: "string list"

definition SYSTEM_ROLES :: "role_seed list" where
  "SYSTEM_ROLES =
     [\<lparr>rs_key = ''owner'', rs_name = ''Owner'', rs_description = ''Full access to everything, including roles and billing.'',
        rs_color = ''#D4AF37'', rs_permissions = ALL_PERMISSIONS\<rparr>,
      \<lparr>rs_key = ''admin'', rs_name = ''Administrator'',
        rs_description = ''Manage the whole workspace except destructive role deletion.'',
        rs_color = ''#5B7CFA'', rs_permissions = allExcept [''settings.data'']\<rparr>,
      \<lparr>rs_key = ''finance'', rs_name = ''Finance'', rs_description = ''Approve sales, run payouts and reporting.'',
        rs_color = ''#23A981'',
        rs_permissions = [''dashboard.view'', ''sales.view'', ''sales.approve'', ''sales.void'', ''sales.export'', ''members.view'',
          ''payouts.view'', ''payouts.process'', ''payouts.export'', ''reports.view'', ''reports.export'', ''audit.view'',
          ''settings.view'']\<rparr>,
      \<lparr>rs_key = ''support'', rs_name = ''Support'', rs_description = ''Help members, record sales and manage invitations.'',
        rs_color = ''#C98A2B'',
        rs_permissions = [''dashboard.view'', ''sales.view'', ''sales.create'', ''members.view'', ''members.manage'',
          ''network.view'', ''invites.create'', ''invites.revoke'', ''reports.view'']\<rparr>,
      \<lparr>rs_key = ''analyst'', rs_name = ''Analyst'', rs_description = ''Read-only access to data and reports.'',
        rs_color = ''#8A93A6'', rs_permissions = viewOnly @ [''reports.export'']\<rparr>]"

definition seedOf :: "string \<Rightarrow> role_seed option" where
  "seedOf key = find (\<lambda>r. rs_key r = key) SYSTEM_ROLES"

fun defaultPermissionsForTier :: "role \<Rightarrow> string list" where
  "defaultPermissionsForTier PlatformAdmin = ALL_PERMISSIONS"
| "defaultPermissionsForTier TenantOwner = ALL_PERMISSIONS"
| "defaultPermissionsForTier TenantAdmin = allExcept [''settings.data'']"
| "defaultPermissionsForTier TenantStaff = (case seedOf ''support'' of None \<Rightarrow> [] | Some r \<Rightarrow> rs_permissions r)"
| "defaultPermissionsForTier PlainMember = []"

fun tierToSystemRole :: "role \<Rightarrow> string option" where
  "tierToSystemRole TenantOwner = Some ''owner''"
| "tierToSystemRole TenantAdmin = Some ''admin''"
| "tierToSystemRole TenantStaff = Some ''support''"
| "tierToSystemRole _ = None"

section \<open>Effective permissions\<close>

definition roleRef :: "db \<Rightarrow> membership \<Rightarrow> tenant_role option" where
  "roleRef s m = Option.bind (mb_roleId m) (\<lambda>i. find (\<lambda>r. ro_id r = i) (roles s))"

definition roleControls :: "role \<Rightarrow> bool" where
  "roleControls r \<longleftrightarrow> r = TenantAdmin \<or> r = TenantStaff"

text \<open>\<open>permissionsFor\<close>, which the guard and \<open>resolveRoleChangeAuthority\<close> repeat.\<close>

definition permissionsFor :: "db \<Rightarrow> membership \<Rightarrow> string list" where
  "permissionsFor s m =
     (if roleControls (mb_role m)
      then case roleRef s m of Some r \<Rightarrow> ro_permissions r | None \<Rightarrow> defaultPermissionsForTier (mb_role m)
      else defaultPermissionsForTier (mb_role m))"

section \<open>Roles\<close>

definition sepBy :: "string \<Rightarrow> string list \<Rightarrow> string" where
  "sepBy sep xs = (case xs of [] \<Rightarrow> [] | x # rest \<Rightarrow> x @ concat (map (\<lambda>y. sep @ y) rest))"

definition assertGrantable :: "string list \<Rightarrow> string list \<Rightarrow> unit res" where
  "assertGrantable held requested =
     (let escalating = filter (\<lambda>p. p \<notin> set held) requested
      in require (escalating = []) (Forbidden (''you cannot grant permissions you do not have: '' @ sepBy '', '' escalating)))"

definition rbacAudit :: "actor \<Rightarrow> string \<Rightarrow> uuid \<Rightarrow> json \<Rightarrow> json \<Rightarrow> db \<Rightarrow> db" where
  "rbacAudit a action entityId before after s = s\<lparr>audits := audits s @
     [\<lparr>au_tenantId = ac_tenantId a, au_actorUserId = Some (ac_userId a), au_action = action, au_entity = ''rbac'',
       au_entityId = Some entityId, au_before = Some before, au_after = after\<rparr>]\<rparr>"

definition roleOfKey :: "db \<Rightarrow> uuid \<Rightarrow> string \<Rightarrow> tenant_role option" where
  "roleOfKey s tenantId key = find (\<lambda>r. ro_tenantId r = tenantId \<and> ro_key r = key) (roles s)"

definition roleOfTenant :: "db \<Rightarrow> uuid \<Rightarrow> uuid \<Rightarrow> tenant_role option" where
  "roleOfTenant s tenantId i = find (\<lambda>r. ro_id r = i \<and> ro_tenantId r = tenantId) (roles s)"

definition isKeyChar :: "char \<Rightarrow> bool" where
  "isKeyChar c \<longleftrightarrow> (CHR ''a'' \<le> c \<and> c \<le> CHR ''z'') \<or> (CHR ''0'' \<le> c \<and> c \<le> CHR ''9'')"

text \<open>\<open>replace(/[^a-z0-9]+/g, '_')\<close>: the flag says that the run being replaced has its underscore already.\<close>

fun underscored :: "bool \<Rightarrow> string \<Rightarrow> string" where
  "underscored inRun [] = []"
| "underscored inRun (c # cs) =
     (if isKeyChar c then c # underscored False cs
      else if inRun then underscored True cs else CHR ''_'' # underscored True cs)"

definition stripUnderscores :: "string \<Rightarrow> string" where
  "stripUnderscores v = (let f = dropWhile (\<lambda>c. c = CHR ''_'') in rev (f (rev (f v))))"

definition baseKey :: "string \<Rightarrow> string" where
  "baseKey name = (let k = take 40 (stripUnderscores (underscored False (map lowerChar name))) in if k = [] then ''role'' else k)"

definition keyNumbered :: "string \<Rightarrow> nat \<Rightarrow> string" where
  "keyNumbered base i = (if i = 0 then base else base @ ''_'' @ show_nat i)"

text \<open>The \<open>while\<close> of \<open>uniqueKey\<close>: one round more than there are roles is enough.\<close>

fun firstFreeKey :: "db \<Rightarrow> uuid \<Rightarrow> string \<Rightarrow> nat \<Rightarrow> nat \<Rightarrow> string option" where
  "firstFreeKey s tenantId base i 0 = None"
| "firstFreeKey s tenantId base i (Suc fuel) =
     (if roleOfKey s tenantId (keyNumbered base i) = None then Some (keyNumbered base i)
      else firstFreeKey s tenantId base (Suc i) fuel)"

definition uniqueKey :: "db \<Rightarrow> uuid \<Rightarrow> string \<Rightarrow> string option" where
  "uniqueKey s tenantId name = firstFreeKey s tenantId (baseKey name) 0 (Suc (length (roles s)))"

record role_input =
  rn_name :: string
  rn_description :: "string option"
  rn_color :: "string option"
  rn_permissions :: "string list"

definition roleJson :: "string \<Rightarrow> string list \<Rightarrow> json" where
  "roleJson name permissions = JObj [(''name'', JStr name), (''permissions'', JArr (map JStr permissions))]"

definition createRole :: "tenant_context option \<Rightarrow> actor \<Rightarrow> role_input \<Rightarrow> string list \<Rightarrow> db \<Rightarrow> (tenant_role \<times> db) res" where
  "createRole ctx a i actorPerms s =
     andThen (assertActor ctx a) (\<lambda>_.
     andThen (assertGrantable actorPerms (rn_permissions i)) (\<lambda>_.
     andThen (from_option (InternalError ''unreachable'') (uniqueKey s (ac_tenantId a) (rn_name i))) (\<lambda>key.
     let row = \<lparr>ro_id = freshId s, ro_tenantId = ac_tenantId a, ro_key = key, ro_name = rn_name i,
           ro_description = rn_description i, ro_color = rn_color i, ro_isSystem = False, ro_permissions = rn_permissions i\<rparr>
     in andThen (require (\<not> list_ex (\<lambda>r. ro_id r = ro_id row) (roles s)) (DbError ''P2002'')) (\<lambda>_.
        Inr (row, rbacAudit a ''role.create'' (ro_id row) JNull (roleJson (rn_name i) (rn_permissions i))
          ((drawId s)\<lparr>roles := roles s @ [row]\<rparr>))))))"

text \<open>A patch: \<open>None\<close> is an absent key, \<open>Some None\<close> an explicit \<open>null\<close>.\<close>

record role_patch =
  rp_name :: "string option"
  rp_description :: "string option option"
  rp_color :: "string option option"
  rp_permissions :: "string list option"

definition patchRole :: "role_patch \<Rightarrow> tenant_role \<Rightarrow> tenant_role" where
  "patchRole p r = r\<lparr>
     ro_name := (if ro_isSystem r then ro_name r else case rp_name p of None \<Rightarrow> ro_name r | Some n \<Rightarrow> n),
     ro_description := (case rp_description p of None \<Rightarrow> ro_description r | Some d \<Rightarrow> d),
     ro_color := (case rp_color p of None \<Rightarrow> ro_color r | Some c \<Rightarrow> c),
     ro_permissions := (case rp_permissions p of None \<Rightarrow> ro_permissions r | Some ps \<Rightarrow> ps)\<rparr>"

definition updateRole ::
  "tenant_context option \<Rightarrow> actor \<Rightarrow> uuid \<Rightarrow> role_patch \<Rightarrow> string list \<Rightarrow> db \<Rightarrow> (tenant_role \<times> db) res" where
  "updateRole ctx a roleId p actorPerms s =
     andThen (assertActor ctx a) (\<lambda>_.
     andThen (case rp_permissions p of None \<Rightarrow> Inr () | Some ps \<Rightarrow> assertGrantable actorPerms ps) (\<lambda>_.
     andThen (from_option (NotFound ''role not found'') (roleOfTenant s (ac_tenantId a) roleId)) (\<lambda>r.
     andThen (require (\<not> (ro_isSystem r \<and> ro_key r = ''owner'')) (BadRequest ''owner role cannot be changed'')) (\<lambda>_.
     let r' = patchRole p r
     in Inr (r', rbacAudit a ''role.update'' roleId (roleJson (ro_name r) (ro_permissions r)) (roleJson (ro_name r') (ro_permissions r'))
          (s\<lparr>roles := updateWhere (\<lambda>x. ro_id x = roleId) (patchRole p) (roles s)\<rparr>))))))"

definition deleteRole :: "tenant_context option \<Rightarrow> actor \<Rightarrow> uuid \<Rightarrow> db \<Rightarrow> db res" where
  "deleteRole ctx a roleId s =
     andThen (assertActor ctx a) (\<lambda>_.
     andThen (from_option (NotFound ''role not found'') (roleOfTenant s (ac_tenantId a) roleId)) (\<lambda>r.
     andThen (require (\<not> ro_isSystem r) (BadRequest ''system role cannot be deleted'')) (\<lambda>_.
     andThen (require (\<not> 0 < countWhere (\<lambda>m. mb_roleId m = Some roleId) (memberships s))
       (Conflict ''members are assigned to this role; move them to another role first'')) (\<lambda>_.
     Inr (rbacAudit a ''role.delete'' roleId (JObj [(''name'', JStr (ro_name r))]) JNull
       (s\<lparr>roles := filter (\<lambda>x. ro_id x \<noteq> roleId) (roles s)\<rparr>))))))"

record assign_input =
  as_tier :: "role option"
  as_roleId :: "uuid option option"

text \<open>What \<open>effectiveAssignmentPermissions\<close> returns, as a set in the order of the sources.\<close>

definition effectiveAssignmentPermissions ::
  "db \<Rightarrow> uuid \<Rightarrow> role \<Rightarrow> uuid option option \<Rightarrow> string list option \<Rightarrow> string list res" where
  "effectiveAssignmentPermissions s tenantId tier roleId existing =
     (if tier = PlainMember then Inr []
      else andThen (case roleId of
             None \<Rightarrow> Inr (case existing of None \<Rightarrow> [] | Some ps \<Rightarrow> ps)
           | Some None \<Rightarrow> Inr []
           | Some (Some i) \<Rightarrow> andThen (from_option (BadRequest ''role does not belong to this business'') (roleOfTenant s tenantId i))
               (\<lambda>r. Inr (ro_permissions r)))
        (\<lambda>assigned. Inr (remdups (defaultPermissionsForTier tier @ assigned))))"

definition nextRoleIdOf :: "db \<Rightarrow> uuid \<Rightarrow> role \<Rightarrow> assign_input \<Rightarrow> uuid option option" where
  "nextRoleIdOf s tenantId nextTier i =
     (if nextTier = PlainMember then Some None
      else if as_tier i \<noteq> None \<and> as_roleId i = None
      then case tierToSystemRole nextTier of
             None \<Rightarrow> as_roleId i
           | Some key \<Rightarrow> Some (map_option ro_id (roleOfKey s tenantId key))
      else as_roleId i)"

definition tierJson :: "role \<Rightarrow> uuid option \<Rightarrow> json" where
  "tierJson r roleId = JObj [(''tier'', JStr (case r of PlatformAdmin \<Rightarrow> ''platform_admin'' | TenantOwner \<Rightarrow> ''tenant_owner''
       | TenantAdmin \<Rightarrow> ''tenant_admin'' | TenantStaff \<Rightarrow> ''tenant_staff'' | PlainMember \<Rightarrow> ''member'')),
     (''roleId'', case roleId of None \<Rightarrow> JNull | Some i \<Rightarrow> JId i)]"

definition writeRole :: "uuid \<Rightarrow> role \<Rightarrow> uuid option \<Rightarrow> db \<Rightarrow> db" where
  "writeRole membershipId r roleId s =
     s\<lparr>memberships := updateWhere (\<lambda>m. mb_id m = membershipId) (\<lambda>m. m\<lparr>mb_role := r, mb_roleId := roleId\<rparr>) (memberships s)\<rparr>"

definition assignRole ::
  "tenant_context option \<Rightarrow> actor \<Rightarrow> uuid \<Rightarrow> assign_input \<Rightarrow> string list \<Rightarrow> uuid option \<Rightarrow> db \<Rightarrow> db res" where
  "assignRole ctx a membershipId i actorPerms actorMembershipId s =
     andThen (assertActor ctx a) (\<lambda>_.
     andThen (require (actorMembershipId \<noteq> Some membershipId) (Forbidden ''you cannot change your own role from this screen'')) (\<lambda>_.
     andThen (from_option (NotFound ''membership not found'')
       (find (\<lambda>m. mb_id m = membershipId \<and> mb_tenantId m = ac_tenantId a) (memberships s))) (\<lambda>m.
     andThen (require (mb_role m \<noteq> TenantOwner) (BadRequest ''owner membership role cannot be changed from this screen'')) (\<lambda>_.
     andThen (case as_tier i of None \<Rightarrow> Inr () | Some t \<Rightarrow> assertGrantable actorPerms (defaultPermissionsForTier t)) (\<lambda>_.
     andThen (case as_roleId i of
         Some (Some rid) \<Rightarrow>
           andThen (from_option (BadRequest ''role does not belong to this business'') (roleOfTenant s (ac_tenantId a) rid))
             (\<lambda>r. assertGrantable actorPerms (ro_permissions r))
       | _ \<Rightarrow> Inr ()) (\<lambda>_.
     andThen (case as_tier i of
         Some t \<Rightarrow> if t \<noteq> PlainMember then assertGrantable actorPerms (defaultPermissionsForTier t) else Inr ()
       | None \<Rightarrow> Inr ()) (\<lambda>_.
     let nextTier = (case as_tier i of Some t \<Rightarrow> t | None \<Rightarrow> mb_role m)
     in andThen (if as_tier i = Some TenantAdmin then assertGrantable actorPerms ALL_PERMISSIONS else Inr ()) (\<lambda>_.
        let nextRoleId = nextRoleIdOf s (ac_tenantId a) nextTier i
        in andThen (if as_tier i \<noteq> None \<or> as_roleId i \<noteq> None
             then andThen (effectiveAssignmentPermissions s (ac_tenantId a) nextTier nextRoleId (map_option ro_permissions (roleRef s m)))
                    (\<lambda>effective. assertGrantable actorPerms effective)
             else Inr ()) (\<lambda>_.
           let roleId = (case nextRoleId of None \<Rightarrow> mb_roleId m | Some x \<Rightarrow> x)
           in Inr (rbacAudit a ''membership.assign_role'' membershipId (tierJson (mb_role m) (mb_roleId m)) (tierJson nextTier roleId)
                (writeRole membershipId nextTier roleId s)))))))))))"

text \<open>The roles every tenant is seeded with at start-up, and the members without a role.\<close>

definition upsertSystemRole :: "uuid \<Rightarrow> role_seed \<Rightarrow> db \<Rightarrow> db" where
  "upsertSystemRole tenantId seed s =
     (case roleOfKey s tenantId (rs_key seed) of
        Some r \<Rightarrow> s\<lparr>roles := updateWhere (\<lambda>x. ro_tenantId x = tenantId \<and> ro_key x = rs_key seed)
          (\<lambda>x. x\<lparr>ro_name := rs_name seed, ro_description := Some (rs_description seed), ro_color := Some (rs_color seed),
             ro_permissions := rs_permissions seed\<rparr>) (roles s)\<rparr>
      | None \<Rightarrow> (drawId s)\<lparr>roles := roles s @
          [\<lparr>ro_id = freshId s, ro_tenantId = tenantId, ro_key = rs_key seed, ro_name = rs_name seed,
            ro_description = Some (rs_description seed), ro_color = Some (rs_color seed), ro_isSystem = True,
            ro_permissions = rs_permissions seed\<rparr>]\<rparr>)"

definition ensureSystemRoles :: "uuid \<Rightarrow> db \<Rightarrow> db" where
  "ensureSystemRoles tenantId s = fold (upsertSystemRole tenantId) SYSTEM_ROLES s"

definition backfillTier :: "uuid \<Rightarrow> db \<Rightarrow> role \<Rightarrow> db \<Rightarrow> db" where
  "backfillTier tenantId s0 tier s =
     (case Option.bind (tierToSystemRole tier) (\<lambda>key. find (\<lambda>r. ro_tenantId r = tenantId \<and> ro_isSystem r \<and> ro_key r = key) (rev (roles s0))) of
        None \<Rightarrow> s
      | Some r \<Rightarrow> s\<lparr>memberships := updateWhere (\<lambda>m. mb_tenantId m = tenantId \<and> mb_role m = tier \<and> mb_roleId m = None)
          (\<lambda>m. m\<lparr>mb_roleId := Some (ro_id r)\<rparr>) (memberships s)\<rparr>)"

definition backfillMembershipRoles :: "uuid \<Rightarrow> db \<Rightarrow> db" where
  "backfillMembershipRoles tenantId s = fold (backfillTier tenantId s) [TenantOwner, TenantAdmin, TenantStaff] s"

definition bootRoles :: "db \<Rightarrow> db" where
  "bootRoles s = fold (\<lambda>t u. backfillMembershipRoles (tn_id t) (ensureSystemRoles (tn_id t) u)) (tenants s) s"

end
