(* ===== verification/Guard.thy ===== *)
theory Guard
  imports Access
begin

text \<open>
  \<open>AccessTokenGuard.canActivate\<close> (\<open>auth.guard.ts\<close>), the guard of every route, with the API keys it accepts
  (\<open>apikeys.service.ts\<close>).  \<open>verify\<close> is the signature and expiry check of \<open>JwtService\<close>, \<open>mfaRoles\<close> the roles configured to
  need a second factor.  Numeric claims are integers; log lines, the version hints of a
  token (\<open>mver\<close>, \<open>rver\<close>) and the time stamp of a key's last use, written without
  being awaited and read by no decision, are left out.
\<close>

section \<open>Principals and routes\<close>

text \<open>The claims of an access token that a decision reads.\<close>

record token =
  tk_sub :: uuid
  tk_mid :: "uuid option"
  tk_tid :: "uuid option"
  tk_role :: "role option"
  tk_perms :: "string list option"
  tk_authGeneration :: "int option"
  tk_mfa :: bool
  tk_mfaAt :: "int option"
  tk_mfaEpoch :: "int option"
  tk_plat :: bool
  tk_imp :: "uuid option"

record route =
  rt_public :: bool
  rt_requireMembership :: bool
  rt_roles :: "role list"
  rt_platformOnly :: bool
  rt_permissions :: "string list"
  rt_mfaExempt :: bool
  rt_accountSessionOnly :: bool

record request =
  rq_isGet :: bool
  rq_apiKey :: string
  rq_bearer :: "string option"

definition apiKeyPrincipal :: "env \<Rightarrow> string \<Rightarrow> db \<Rightarrow> token res" where
  "apiKeyPrincipal E raw s =
     andThen (from_option (Unauthorized ''gecersiz api anahtari'') (find (\<lambda>k. ak_keyHash k = env_sha256Text E raw) (apiKeys s))) (\<lambda>k.
     andThen (require (ak_revokedAt k = None \<and> (case ak_expiresAt k of None \<Rightarrow> True | Some t \<Rightarrow> env_now E < t))
       (Unauthorized ''gecersiz api anahtari'')) (\<lambda>_.
     andThen (from_option (Unauthorized ''inconsistent query result'')
       (Option.bind (findMembership s (ak_membershipId k)) (\<lambda>m. map_option (Pair m) (findTenant s (mb_tenantId m))))) (\<lambda>(m, tenant).
     andThen (require (mb_status m = MemberActive \<and> tn_status tenant = TenantActive) (Unauthorized ''gecersiz api anahtari'')) (\<lambda>_.
     Inr \<lparr>tk_sub = ak_createdByUserId k, tk_mid = Some (ak_membershipId k), tk_tid = Some (ak_tenantId k),
        tk_role = Some (mb_role m), tk_perms = None, tk_authGeneration = None, tk_mfa = False, tk_mfaAt = None,
        tk_mfaEpoch = None, tk_plat = False, tk_imp = None\<rparr>))))"

definition MAX_SAFE_INT :: int where
  "MAX_SAFE_INT = 2 ^ 53 - 1"

definition hasCurrentAuthGeneration :: "token \<Rightarrow> int \<Rightarrow> bool" where
  "hasCurrentAuthGeneration t generation \<longleftrightarrow>
     (case tk_authGeneration t of None \<Rightarrow> False | Some g \<Rightarrow> \<bar>g\<bar> \<le> MAX_SAFE_INT \<and> 0 < g \<and> g = generation)"

definition hasCurrentMfaAssurance :: "token \<Rightarrow> time option \<Rightarrow> bool" where
  "hasCurrentMfaAssurance t mfaEpoch \<longleftrightarrow>
     (case (mfaEpoch, tk_mfaAt t, tk_mfaEpoch t) of
        (Some now, Some at, Some epoch) \<Rightarrow> tk_mfa t \<and> epoch \<le> at \<and> epoch = now
      | _ \<Rightarrow> False)"

text \<open>The credential of a request: an API key when the header is there, else a bearer token of a live session.\<close>

definition principalOf ::
  "(string \<Rightarrow> token option) \<Rightarrow> env \<Rightarrow> request \<Rightarrow> db \<Rightarrow> (token \<times> user option) res" where
  "principalOf verify E rq s =
     (if rq_apiKey rq \<noteq> [] then andThen (apiKeyPrincipal E (rq_apiKey rq) s) (\<lambda>t. Inr (t, None))
      else
        andThen (from_option (Unauthorized ''erisim tokeni gerekli'') (rq_bearer rq)) (\<lambda>raw.
        andThen (from_option (Unauthorized ''erisim tokeni gecersiz veya suresi dolmus'') (verify raw)) (\<lambda>t.
        andThen (from_option (Unauthorized ''session is no longer active'')
          (case findUser s (tk_sub t) of
             None \<Rightarrow> None
           | Some u \<Rightarrow> if hasCurrentAuthGeneration t (us_authGeneration u) then Some u else None)) (\<lambda>u.
        Inr (t, Some u)))))"

section \<open>The checks, in the order of the guard\<close>

definition forAccount :: "route \<Rightarrow> token \<Rightarrow> token" where
  "forAccount r t =
     (if rt_accountSessionOnly r then t\<lparr>tk_mid := None, tk_tid := None, tk_role := None, tk_perms := None, tk_plat := False\<rparr> else t)"

definition isPlatformUser :: "user option \<Rightarrow> bool" where
  "isPlatformUser u \<longleftrightarrow> (case u of None \<Rightarrow> False | Some x \<Rightarrow> us_isPlatformAdmin x)"

definition livePlatform :: "user option \<Rightarrow> token \<Rightarrow> token" where
  "livePlatform u t = (if tk_plat t \<and> \<not> isPlatformUser u then t\<lparr>tk_plat := False\<rparr> else t)"

definition tenantIsActive :: "db \<Rightarrow> uuid \<Rightarrow> bool" where
  "tenantIsActive s tenantId \<longleftrightarrow> map_option tn_status (findTenant s tenantId) = Some TenantActive"

text \<open>Writes look at the live membership first; the role of the token gives way to it.\<close>

definition freshWriter :: "request \<Rightarrow> user option \<Rightarrow> token \<Rightarrow> db \<Rightarrow> token res" where
  "freshWriter rq u t s =
     (if u \<noteq> None \<and> \<not> rq_isGet rq
      then case tk_mid t of
             Some mid \<Rightarrow>
               (case findMembership s mid of
                  None \<Rightarrow> Inl (Forbidden ''uyelik veya kiraci artik aktif degil'')
                | Some m \<Rightarrow> andThen (require (mb_status m = MemberActive \<and> tenantIsActive s (mb_tenantId m))
                    (Forbidden ''uyelik veya kiraci artik aktif degil'')) (\<lambda>_. Inr (t\<lparr>tk_role := Some (mb_role m)\<rparr>)))
           | None \<Rightarrow>
               (case tk_tid t of
                  Some tid \<Rightarrow>
                    if tk_plat t
                    then andThen (require (tenantIsActive s tid \<and> isPlatformUser (findUser s (tk_sub t)))
                      (Forbidden ''act-as: tenant askida veya platform yetkisi yok'')) (\<lambda>_. Inr t)
                    else Inr t
                | None \<Rightarrow> Inr t)
      else Inr t)"

definition actingAsTenant :: "token \<Rightarrow> bool" where
  "actingAsTenant t \<longleftrightarrow> tk_plat t \<and> tk_tid t \<noteq> None"

definition principalMembership :: "token \<Rightarrow> uuid \<Rightarrow> db \<Rightarrow> membership option" where
  "principalMembership t mid s =
     find (\<lambda>m. mb_id m = mid \<and> mb_userId m = tk_sub t \<and> (case tk_tid t of None \<Rightarrow> True | Some tid \<Rightarrow> mb_tenantId m = tid)) (memberships s)"

text \<open>Role and permissions are read from the rows at every request.\<close>

definition rehydrate :: "token \<Rightarrow> db \<Rightarrow> token res" where
  "rehydrate t s =
     (case tk_mid t of
        None \<Rightarrow> Inr t
      | Some mid \<Rightarrow>
          (case principalMembership t mid s of
             None \<Rightarrow> Inl (Forbidden ''active membership not found'')
           | Some m \<Rightarrow> andThen (require (mb_status m = MemberActive \<and> tenantIsActive s (mb_tenantId m))
               (Forbidden ''active membership not found''))
               (\<lambda>_. Inr (t\<lparr>tk_role := Some (mb_role m), tk_perms := Some (permissionsFor s m)\<rparr>))))"

definition roleAllowed :: "route \<Rightarrow> token \<Rightarrow> bool" where
  "roleAllowed r t \<longleftrightarrow> rt_roles r = [] \<or> (case tk_role t of None \<Rightarrow> False | Some x \<Rightarrow> x \<in> set (rt_roles r))"

definition assured :: "user option \<Rightarrow> token \<Rightarrow> token" where
  "assured u t =
     (if Option.bind u us_totpEnabledAt = None \<or> \<not> hasCurrentMfaAssurance t (Option.bind u us_totpEnabledAt)
      then t\<lparr>tk_mfa := False, tk_mfaAt := None, tk_mfaEpoch := None\<rparr> else t)"

definition enforceMfa :: "role list \<Rightarrow> token \<Rightarrow> user \<Rightarrow> unit res" where
  "enforceMfa mfaRoles t u =
     (let needed = (case tk_role t of None \<Rightarrow> False | Some r \<Rightarrow> r \<in> set mfaRoles) \<or> (tk_plat t \<and> PlatformAdmin \<in> set mfaRoles)
      in andThen (require (\<not> (needed \<and> us_totpEnabledAt u = None)) (Forbidden ''2FA required for this account'')) (\<lambda>_.
         require (\<not> needed \<or> hasCurrentMfaAssurance t (us_totpEnabledAt u)) (Forbidden ''2FA verification is required for this session'')))"

definition permissionAllowed :: "route \<Rightarrow> token \<Rightarrow> bool" where
  "permissionAllowed r t \<longleftrightarrow> rt_permissions r = [] \<or> (case tk_role t of None \<Rightarrow> False | Some x \<Rightarrow> godTier x) \<or>
     list_all (\<lambda>p. case tk_perms t of None \<Rightarrow> False | Some ps \<Rightarrow> p \<in> set ps) (rt_permissions r)"

definition canActivate ::
  "(string \<Rightarrow> token option) \<Rightarrow> role list \<Rightarrow> env \<Rightarrow> route \<Rightarrow> request \<Rightarrow> db \<Rightarrow> token option res" where
  "canActivate verify mfaRoles E r rq s =
     (if rt_public r then Inr None
      else
        andThen (principalOf verify E rq s) (\<lambda>(t0, u).
        let t1 = livePlatform u (forAccount r t0)
        in andThen (require (\<not> (tk_imp t1 \<noteq> None \<and> \<not> rq_isGet rq)) (Forbidden ''impersonation oturumu salt-okunurdur'')) (\<lambda>_.
           andThen (freshWriter rq u t1 s) (\<lambda>t2.
           andThen (require (\<not> (rt_requireMembership r \<and> tk_mid t2 = None \<and> \<not> actingAsTenant t2))
             (Forbidden ''aktif uyelik secimi gerekli (switch-tenant)'')) (\<lambda>_.
           andThen (rehydrate t2 s) (\<lambda>t3.
           andThen (require (roleAllowed r t3) (Forbidden ''you do not have permission for this action'')) (\<lambda>_.
           andThen (require (\<not> rt_platformOnly r \<or> (tk_plat t3 \<and> isPlatformUser u)) (Forbidden ''platform permission required'')) (\<lambda>_.
           let t4 = assured u t3
           in andThen (case u of Some x \<Rightarrow> if rt_mfaExempt r then Inr () else enforceMfa mfaRoles t4 x | None \<Rightarrow> Inr ()) (\<lambda>_.
              andThen (require (permissionAllowed r t4) (Forbidden ''you do not have permission for this action'')) (\<lambda>_.
              Inr (Some t4)))))))))))"

text \<open>What a controller hands to \<open>rbac.service.ts\<close> as the permissions of the actor.\<close>

definition actorPerms :: "token \<Rightarrow> string list" where
  "actorPerms t = (if (case tk_role t of None \<Rightarrow> False | Some x \<Rightarrow> godTier x) then ALL_PERMISSIONS
     else case tk_perms t of None \<Rightarrow> [] | Some ps \<Rightarrow> ps)"

section \<open>API keys\<close>

definition keyAudit :: "uuid \<Rightarrow> uuid \<Rightarrow> string \<Rightarrow> uuid \<Rightarrow> json \<Rightarrow> db \<Rightarrow> db" where
  "keyAudit tenantId userId action entityId after s = s\<lparr>audits := audits s @
     [\<lparr>au_tenantId = tenantId, au_actorUserId = Some userId, au_action = action, au_entity = ''apikey'',
       au_entityId = Some entityId, au_before = None, au_after = after\<rparr>]\<rparr>"

text \<open>The raw key is returned once; the row keeps its hash.  \<open>raw\<close> is \<open>rfk_\<close> and a random token.\<close>

definition createApiKey :: "env \<Rightarrow> string \<Rightarrow> uuid \<Rightarrow> uuid \<Rightarrow> uuid \<Rightarrow> role \<Rightarrow> string \<Rightarrow> db \<Rightarrow> (api_key \<times> string \<times> db) res" where
  "createApiKey E raw tenantId membershipId userId r name s =
     andThen (require (\<not> list_ex (\<lambda>k. ak_keyHash k = env_sha256Text E raw) (apiKeys s)) (DbError ''P2002'')) (\<lambda>_.
     let k = \<lparr>ak_id = freshId s, ak_tenantId = tenantId, ak_membershipId = membershipId, ak_createdByUserId = userId,
              ak_role = r, ak_name = name, ak_prefix = take 12 raw, ak_keyHash = env_sha256Text E raw, ak_expiresAt = None, ak_revokedAt = None\<rparr>
     in Inr (k, raw, keyAudit tenantId userId ''apikey.create'' (ak_id k) (JObj [(''name'', JStr name)])
          ((drawId s)\<lparr>apiKeys := apiKeys s @ [k]\<rparr>)))"

definition revokeApiKey :: "env \<Rightarrow> uuid \<Rightarrow> uuid \<Rightarrow> uuid \<Rightarrow> db \<Rightarrow> db res" where
  "revokeApiKey E tenantId userId keyId s =
     andThen (from_option (NotFound ''api anahtari bulunamadi'')
       (find (\<lambda>k. ak_id k = keyId \<and> ak_tenantId k = tenantId) (apiKeys s))) (\<lambda>_.
     Inr (keyAudit tenantId userId ''apikey.revoke'' keyId (JObj [])
       (s\<lparr>apiKeys := updateWhere (\<lambda>k. ak_id k = keyId) (\<lambda>k. k\<lparr>ak_revokedAt := Some (env_now E)\<rparr>) (apiKeys s)\<rparr>)))"

end
