(* ===== verification/Network.thy ===== *)
theory Network
  imports Payout_Requests
begin

text \<open>
  How the sponsorship tree grows: \<open>memberships.service.ts\<close>, \<open>invites.service.ts\<close>, \<open>invite-consent.ts\<close>, and
  the two transactions of \<open>auth.service.ts\<close> that turn an invite into a membership.  Text is UTF-8.  Random codes
  are a sequence, one per attempt; passwords, tokens and sessions are not modelled.
\<close>

definition utf8 :: "nat list \<Rightarrow> string" where
  "utf8 bytes = map char_of bytes"

section \<open>Placing a member\<close>

text \<open>The unique indexes of \<open>memberships\<close>, in the order they were created; the first one violated is reported.\<close>

datatype membership_index = IndexId | IndexTenantUser | IndexReferralCode

definition violatedIndex :: "membership \<Rightarrow> membership list \<Rightarrow> membership_index option" where
  "violatedIndex row rows =
     (if list_ex (\<lambda>m. mb_id m = mb_id row) rows then Some IndexId
      else if list_ex (\<lambda>m. mb_tenantId m = mb_tenantId row \<and> mb_userId m = mb_userId row) rows then Some IndexTenantUser
      else if list_ex (\<lambda>m. mb_tenantId m = mb_tenantId row \<and> mb_referralCode m = mb_referralCode row) rows then Some IndexReferralCode
      else None)"

text \<open>
  The retry loop of \<open>createUnder\<close> and \<open>createRoot\<close>.  The loop runs inside the caller's transaction, and Postgres refuses
  every statement after a failed one (\<open>25P02\<close>), which is not the error the loop retries.
\<close>

fun insertMembership ::
  "error \<Rightarrow> (nat \<Rightarrow> membership) \<Rightarrow> nat \<Rightarrow> nat \<Rightarrow> bool \<Rightarrow> db \<Rightarrow> (membership \<times> db) res" where
  "insertMembership gaveUp row attempt 0 aborted s = Inl gaveUp"
| "insertMembership gaveUp row attempt (Suc left) aborted s =
     (if aborted then Inl (RawDbError ''25P02'')
      else case violatedIndex (row attempt) (memberships s) of
             None \<Rightarrow> Inr (row attempt, s\<lparr>memberships := memberships s @ [row attempt]\<rparr>)
           | Some IndexReferralCode \<Rightarrow> insertMembership gaveUp row (Suc attempt) left True s
           | Some _ \<Rightarrow> Inl (DbError ''P2002''))"

definition newMember ::
  "env \<Rightarrow> uuid \<Rightarrow> uuid \<Rightarrow> uuid \<Rightarrow> uuid option \<Rightarrow> string \<Rightarrow> uuid list \<Rightarrow> int \<Rightarrow> role \<Rightarrow> bool \<Rightarrow> membership" where
  "newMember E i tenantId userId sponsor code path depth r leader =
     \<lparr>mb_id = i, mb_tenantId = tenantId, mb_userId = userId, mb_sponsorMembershipId = sponsor, mb_referralCode = code,
      mb_path = path, mb_status = MemberActive, mb_signupIp = None, mb_lastRankSortOrder = None, mb_joinedAt = env_now E,
      mb_mailing = \<lparr>ma_name = None, ma_line1 = None, ma_line2 = None, ma_city = None, ma_state = None, ma_postal = None,
        ma_country = Some ''US''\<rparr>,
      mb_role = r, mb_depth = depth, mb_isTeamLeader = leader, mb_inviteMessage = None, mb_roleId = None,
      mb_disclaimerAcceptedAt = None, mb_disclaimerVersion = None\<rparr>"

definition createUnder ::
  "env \<Rightarrow> (nat \<Rightarrow> string) \<Rightarrow> uuid \<Rightarrow> uuid \<Rightarrow> membership \<Rightarrow> role \<Rightarrow> db \<Rightarrow> (membership \<times> db) res" where
  "createUnder E codes tenantId userId sponsor r s =
     andThen (require (mb_tenantId sponsor = tenantId) (Conflict ''sponsor belongs to another tenant'')) (\<lambda>_.
     let i = freshId s
     in insertMembership (Conflict ''could not generate referral code'')
          (\<lambda>k. newMember E i tenantId userId (Some (mb_id sponsor)) (codes k) (mb_path sponsor @ [i]) (mb_depth sponsor + 1) r False)
          0 5 False (drawId s))"

definition createUnderWithInviteConsent ::
  "env \<Rightarrow> (nat \<Rightarrow> string) \<Rightarrow> uuid \<Rightarrow> uuid \<Rightarrow> membership \<Rightarrow> uuid \<Rightarrow> consent_snapshot \<Rightarrow> db \<Rightarrow> (membership \<times> db) res" where
  "createUnderWithInviteConsent E codes tenantId userId sponsor inviteId consent s =
     andThen (createUnder E codes tenantId userId sponsor PlainMember s) (\<lambda>(m, s1).
     andThen (require (\<not> list_ex (\<lambda>c. xc_inviteId c = inviteId \<and> xc_userId c = mb_userId m) (consents s1)) (DbError ''P2002'')) (\<lambda>_.
     Inr (m, s1\<lparr>consents := consents s1 @
       [\<lparr>xc_inviteId = inviteId, xc_tenantId = mb_tenantId m, xc_userId = mb_userId m, xc_membershipId = mb_id m,
         xc_snapshot = consent\<rparr>]\<rparr>)))"

definition createRoot :: "env \<Rightarrow> (nat \<Rightarrow> string) \<Rightarrow> uuid \<Rightarrow> uuid \<Rightarrow> role \<Rightarrow> bool \<Rightarrow> db \<Rightarrow> (membership \<times> db) res" where
  "createRoot E codes tenantId userId r leader s =
     (let i = freshId s
      in insertMembership (Conflict ''referral kodu uretilemedi'')
           (\<lambda>k. newMember E i tenantId userId None (codes k) [i] 0 r leader) 0 5 False (drawId s))"

section \<open>Consent\<close>

definition INVITE_DISCLAIMER_VERSION :: string where
  "INVITE_DISCLAIMER_VERSION = ''2026-07-16''"

definition disclaimerBody :: "string \<Rightarrow> string \<Rightarrow> string option" where
  "disclaimerBody version locale =
     (if version \<noteq> INVITE_DISCLAIMER_VERSION then None
      else if locale = ''en'' then Some (
         ''Earnings are not guaranteed. Commissions are calculated only from eligible, verified sales under the current program rules.'')
      else if locale = ''tr'' then Some (''Kazan'' @ utf8 [195, 167] @ '' garanti edilmez. Komisyonlar yaln'' @ utf8 [196, 177] @ ''zca g'' @ 
         utf8 [195, 188] @ ''ncel program kurallar'' @ utf8 [196, 177] @ '' kapsam'' @ utf8 [196, 177] @ 
         ''ndaki uygun ve do'' @ utf8 [196, 159] @ ''rulanm'' @ utf8 [196, 177] @ utf8 [197, 159] @ '' sat'' @ 
         utf8 [196, 177] @ utf8 [197, 159] @ ''lar '' @ utf8 [195, 188] @ ''zerinden hesaplan'' @ 
         utf8 [196, 177] @ ''r.'')
      else None)"

text \<open>The number of a rate in percent: no trailing zeros.\<close>

definition formatBasisPoints :: "int \<Rightarrow> string" where
  "formatBasisPoints rate =
     (let sign = (if rate < 0 then ''-'' else ''''); absolute = \<bar>rate\<bar>; whole = absolute div 100; remainder = absolute mod 100
      in if remainder = 0 then sign @ show_int whole
         else if remainder mod 10 = 0 then sign @ show_int whole @ ''.'' @ show_int (remainder div 10)
         else sign @ show_int whole @ ''.'' @ padStart 2 (CHR ''0'') (show_int remainder))"

definition programSummary :: "string \<Rightarrow> string \<Rightarrow> commission_plan \<Rightarrow> string" where
  "programSummary locale displayName plan =
     (let percent = formatBasisPoints (pl_poolRateBps plan); levels = show_nat (pl_depth plan);
          intro = displayName @ '' '' @ utf8 [194, 183] @ '' '' @ pl_name plan
      in if locale = ''en''
         then intro @ '': eligible, verified sales can reward up to '' @ levels @ '' referral levels within a '' @ percent @
                ''% commission pool.''
         else intro @ '': uygun ve do'' @ utf8 [196, 159] @ ''rulanm'' @ utf8 [196, 177] @ utf8 [197, 159] @ '' sat'' @ 
         utf8 [196, 177] @ utf8 [197, 159] @ ''lar, %'' @ percent @ '' komisyon havuzu i'' @ utf8 [195, 167] @ ''inde en fazla '' @ levels @ '' referans seviyesini '' @ utf8 [195, 182] @ ''d'' @ utf8 [195, 188] @ ''llendirebilir.'')"

definition createInviteConsentSnapshot ::
  "env \<Rightarrow> string \<Rightarrow> string \<Rightarrow> string \<Rightarrow> commission_plan \<Rightarrow> consent_snapshot res" where
  "createInviteConsentSnapshot E version locale displayName plan =
     andThen (from_option (InternalError ''unsupported invite disclaimer'') (disclaimerBody version locale)) (\<lambda>body.
     let summary = programSummary locale displayName plan
     in Inr \<lparr>cs_disclaimerVersion = version, cs_locale = locale, cs_disclaimerContentHash = env_sha256Text E body,
          cs_tenantDisplayName = displayName, cs_programSummary = summary,
          cs_programSummaryHash = env_sha256Text E summary, cs_acceptedAt = env_now E\<rparr>)"

text \<open>A staged snapshot, each column possibly missing.\<close>

record stored_consent =
  sn_disclaimerVersion :: "string option"
  sn_locale :: "string option"
  sn_disclaimerContentHash :: "string option"
  sn_tenantDisplayName :: "string option"
  sn_programSummary :: "string option"
  sn_programSummaryHash :: "string option"
  sn_acceptedAt :: "time option"

definition presentText :: "string option \<Rightarrow> bool" where
  "presentText v = (case v of None \<Rightarrow> False | Some t \<Rightarrow> trimText t \<noteq> [])"

definition verifyStoredInviteConsentSnapshot :: "env \<Rightarrow> stored_consent \<Rightarrow> consent_snapshot option" where
  "verifyStoredInviteConsentSnapshot E c =
     (if \<not> (list_all presentText [sn_disclaimerVersion c, sn_locale c, sn_disclaimerContentHash c, sn_tenantDisplayName c,
             sn_programSummary c, sn_programSummaryHash c] \<and> sn_acceptedAt c \<noteq> None) then None
      else case disclaimerBody (the (sn_disclaimerVersion c)) (the (sn_locale c)) of
             None \<Rightarrow> None
           | Some body \<Rightarrow>
               if env_sha256Text E body \<noteq> the (sn_disclaimerContentHash c) \<or>
                  env_sha256Text E (the (sn_programSummary c)) \<noteq> the (sn_programSummaryHash c) then None
               else Some \<lparr>cs_disclaimerVersion = the (sn_disclaimerVersion c), cs_locale = the (sn_locale c),
                      cs_disclaimerContentHash = the (sn_disclaimerContentHash c),
                      cs_tenantDisplayName = the (sn_tenantDisplayName c), cs_programSummary = the (sn_programSummary c),
                      cs_programSummaryHash = the (sn_programSummaryHash c), cs_acceptedAt = the (sn_acceptedAt c)\<rparr>)"

section \<open>Invites\<close>

definition MAX_ACTIVE_INVITES :: nat where
  "MAX_ACTIVE_INVITES = 50"

definition MAX_INVITES_PER_DAY :: nat where
  "MAX_INVITES_PER_DAY = 20"

definition INVITE_TTL_MS :: int where
  "INVITE_TTL_MS = 14 * 24 * 60 * 60 * 1000"

text \<open>\<open>email?.trim().toLowerCase() || undefined\<close>; the addresses are ASCII.\<close>

definition orNone :: "string \<Rightarrow> string option" where
  "orNone v = (if v = [] then None else Some v)"

definition normalEmail :: "string option \<Rightarrow> string option" where
  "normalEmail email = Option.bind email (\<lambda>e. orNone (map lowerChar (trimText e)))"

definition inviteKeyHash :: "env \<Rightarrow> string option \<Rightarrow> string option" where
  "inviteKeyHash E key = Option.bind (Option.bind key orNone) (\<lambda>k. Some (env_sha256Text E (''invite-idempotency:v1:'' @ trimText k)))"

definition expireInvites :: "env \<Rightarrow> uuid \<Rightarrow> db \<Rightarrow> db" where
  "expireInvites E inviter s = s\<lparr>invites := updateWhere
     (\<lambda>i. iv_inviterMembershipId i = inviter \<and> iv_status i = InviteActive \<and> iv_expiresAt i \<le> env_now E)
     (\<lambda>i. i\<lparr>iv_status := InviteExpired\<rparr>) (invites s)\<rparr>"

definition inviteOfKey :: "uuid \<Rightarrow> string option \<Rightarrow> db \<Rightarrow> invite option" where
  "inviteOfKey inviter keyHash s = (case keyHash of None \<Rightarrow> None
     | Some h \<Rightarrow> find (\<lambda>i. iv_inviterMembershipId i = inviter \<and> iv_keyHash i = Some h) (invites s))"

text \<open>A replay of the key returns the stored invite, when it was issued to the same address.\<close>

definition replayInvite :: "string option \<Rightarrow> invite \<Rightarrow> db \<Rightarrow> (invite \<times> db) res" where
  "replayInvite email existing s =
     andThen (require (iv_email existing = email) (Conflict ''Idempotency-Key was already used with a different invite email''))
       (\<lambda>_. Inr (existing, s))"

text \<open>\<open>INSERT \<dots> ON CONFLICT DO NOTHING\<close> over the primary key, the code, and the inviter's key.\<close>

definition inviteTaken :: "invite \<Rightarrow> invite list \<Rightarrow> bool" where
  "inviteTaken row rows = list_ex (\<lambda>i. iv_id i = iv_id row \<or> iv_code i = iv_code row \<or>
     (iv_keyHash row \<noteq> None \<and> iv_inviterMembershipId i = iv_inviterMembershipId row \<and> iv_keyHash i = iv_keyHash row)) rows"

definition newInvite :: "env \<Rightarrow> membership \<Rightarrow> string option \<Rightarrow> string option \<Rightarrow> string \<Rightarrow> uuid \<Rightarrow> invite" where
  "newInvite E inviter email keyHash code i =
     \<lparr>iv_id = i, iv_tenantId = mb_tenantId inviter, iv_inviterMembershipId = mb_id inviter, iv_createdAt = env_now E,
      iv_code = code, iv_email = email, iv_expiresAt = env_now E + INVITE_TTL_MS, iv_usedByMembershipId = None,
      iv_keyHash = keyHash, iv_status = InviteActive\<rparr>"

fun insertInvite ::
  "env \<Rightarrow> (nat \<Rightarrow> string) \<Rightarrow> membership \<Rightarrow> string option \<Rightarrow> string option \<Rightarrow> nat \<Rightarrow> nat \<Rightarrow> db \<Rightarrow> (invite \<times> db) res" where
  "insertInvite E codes inviter email keyHash attempt 0 s = Inl (BadRequest ''could not generate invite code'')"
| "insertInvite E codes inviter email keyHash attempt (Suc left) s =
     (let row = newInvite E inviter email keyHash (codes attempt) (freshId s); s1 = drawId s
      in if \<not> inviteTaken row (invites s) then Inr (row, s1\<lparr>invites := invites s1 @ [row]\<rparr>)
         else case inviteOfKey (mb_id inviter) keyHash s1 of
                Some existing \<Rightarrow> replayInvite email existing s1
              | None \<Rightarrow> insertInvite E codes inviter email keyHash (Suc attempt) left s1)"

definition openInvite :: "env \<Rightarrow> uuid \<Rightarrow> invite \<Rightarrow> bool" where
  "openInvite E inviter i \<longleftrightarrow> iv_inviterMembershipId i = inviter \<and> iv_status i = InviteActive \<and> env_now E < iv_expiresAt i"

definition recentInvite :: "env \<Rightarrow> uuid \<Rightarrow> invite \<Rightarrow> bool" where
  "recentInvite E inviter i \<longleftrightarrow> iv_inviterMembershipId i = inviter \<and> env_now E - 24 * 60 * 60 * 1000 \<le> iv_createdAt i"

definition issueInvite ::
  "env \<Rightarrow> (nat \<Rightarrow> string) \<Rightarrow> uuid \<Rightarrow> string option \<Rightarrow> string option \<Rightarrow> uuid option \<Rightarrow> db \<Rightarrow> (invite \<times> db) res" where
  "issueInvite E codes inviterId emailInput idempotencyKey expectedTenantId s =
     (let email = normalEmail emailInput; keyHash = inviteKeyHash E idempotencyKey
      in andThen (from_option (BadRequest ''active membership required'')
           (Option.bind (findMembership s inviterId) (\<lambda>m. map_option (Pair m) (findTenant s (mb_tenantId m))))) (\<lambda>(inviter, tenant).
         andThen (require (mb_status inviter = MemberActive) (BadRequest ''active membership required'')) (\<lambda>_.
         andThen (require (case expectedTenantId of None \<Rightarrow> True | Some t \<Rightarrow> mb_tenantId inviter = t)
           (Forbidden ''inviter membership context mismatch'')) (\<lambda>_.
         andThen (require (tn_status tenant = TenantActive) (BadRequest ''business is not active'')) (\<lambda>_.
         let s1 = expireInvites E (mb_id inviter) s
         in case inviteOfKey (mb_id inviter) keyHash s1 of
              Some existing \<Rightarrow> replayInvite email existing s1
            | None \<Rightarrow>
                andThen (require (countWhere (openInvite E (mb_id inviter)) (invites s1) < MAX_ACTIVE_INVITES)
                  (BadRequest (''you can have at most '' @ show_nat MAX_ACTIVE_INVITES @ '' active invites''))) (\<lambda>_.
                andThen (require (countWhere (recentInvite E (mb_id inviter)) (invites s1) < MAX_INVITES_PER_DAY)
                  (BadRequest (''daily invite limit reached ('' @ show_nat MAX_INVITES_PER_DAY @ '')''))) (\<lambda>_.
                insertInvite E codes inviter email keyHash 0 8 s1)))))))"

definition createInvite ::
  "tenant_context option \<Rightarrow> env \<Rightarrow> (nat \<Rightarrow> string) \<Rightarrow> uuid \<Rightarrow> string option \<Rightarrow> string option \<Rightarrow> db \<Rightarrow> (invite \<times> db) res" where
  "createInvite ctx E codes inviterId email key s =
     andThen (assertMembership ctx inviterId) (\<lambda>_. issueInvite E codes inviterId email key None s)"

definition createInviteForAdmin ::
  "tenant_context option \<Rightarrow> env \<Rightarrow> (nat \<Rightarrow> string) \<Rightarrow> actor \<Rightarrow> uuid \<Rightarrow> string option \<Rightarrow> string option \<Rightarrow> db \<Rightarrow> (invite \<times> db) res" where
  "createInviteForAdmin ctx E codes a inviterId email key s =
     andThen (assertActor ctx a) (\<lambda>_. issueInvite E codes inviterId email key (Some (ac_tenantId a)) s)"

definition shownStatus :: "env \<Rightarrow> invite \<Rightarrow> invite_status" where
  "shownStatus E i = (if iv_status i = InviteActive \<and> iv_expiresAt i < env_now E then InviteExpired else iv_status i)"

definition listMyInvites :: "tenant_context option \<Rightarrow> env \<Rightarrow> uuid \<Rightarrow> db \<Rightarrow> (invite \<times> invite_status) list res" where
  "listMyInvites ctx E inviterId s =
     andThen (assertMembership ctx inviterId) (\<lambda>_.
     Inr (map (\<lambda>i. (i, shownStatus E i)) (take 100 (findManyBy (\<lambda>i. - iv_createdAt i) (\<lambda>i. iv_inviterMembershipId i = inviterId) (invites s)))))"

definition getMessage :: "uuid \<Rightarrow> db \<Rightarrow> string option" where
  "getMessage membershipId s = Option.bind (findMembership s membershipId) mb_inviteMessage"

definition setMessage :: "uuid \<Rightarrow> string option \<Rightarrow> db \<Rightarrow> (string option \<times> db) res" where
  "setMessage membershipId message s =
     (let normalized = Option.bind message (\<lambda>m. orNone (trimText m))
      in andThen (from_option (DbError ''P2025'') (findMembership s membershipId)) (\<lambda>_.
         Inr (normalized, s\<lparr>memberships := updateWhere (\<lambda>m. mb_id m = membershipId) (\<lambda>m. m\<lparr>mb_inviteMessage := normalized\<rparr>) (memberships s)\<rparr>)))"

subsection \<open>The public page\<close>

text \<open>What is before and after the last occurrence of a character.\<close>

definition splitLast :: "char \<Rightarrow> string \<Rightarrow> (string \<times> string) option" where
  "splitLast c v = (if c \<in> set v
     then let after = rev (takeWhile (\<lambda>x. x \<noteq> c) (rev v)) in Some (take (length v - Suc (length after)) v, after)
     else None)"

definition maskInviteEmail :: "string \<Rightarrow> string option" where
  "maskInviteEmail email = (case splitLast (CHR ''@'') email of
      None \<Rightarrow> None
    | Some (l, domain) \<Rightarrow>
        if l = [] \<or> domain = [] then None
        else let (label, suffix) = (case splitLast (CHR ''.'') domain of
                   None \<Rightarrow> (domain, [])
                 | Some (x, y) \<Rightarrow> if x = [] then (domain, []) else (x, CHR ''.'' # y))
             in if label = [] then None else Some ([hd l] @ ''***@'' @ [hd label] @ ''***'' @ suffix))"

text \<open>The plan whose summary a joining member accepts: the newest one in effect.\<close>

definition consentPlan :: "uuid \<Rightarrow> time \<Rightarrow> db \<Rightarrow> commission_plan option" where
  "consentPlan tenantId now s =
     findFirstBy (\<lambda>p. (- pl_effectiveFrom p, - pl_createdAt p, - int (pl_id p)))
       (\<lambda>p. pl_tenantId p = tenantId \<and> pl_effectiveFrom p \<le> now) (plans s)"

record valid_invite =
  vi_displayName :: string
  vi_lockedEmailHint :: "string option"
  vi_programSummary :: string
  vi_disclaimer :: string
  vi_expiresAt :: string

datatype invite_page = PageInvalid | PageUsed | PageRevoked | PageExpired | PageSuspended | PageValid valid_invite

definition resolveInvite :: "env \<Rightarrow> string \<Rightarrow> db \<Rightarrow> invite_page res" where
  "resolveInvite E code s = (case find (\<lambda>i. iv_code i = code) (invites s) of
      None \<Rightarrow> Inr PageInvalid
    | Some i \<Rightarrow>
        if iv_status i = InviteUsed then Inr PageUsed
        else if iv_status i = InviteRevoked then Inr PageRevoked
        else if iv_status i = InviteExpired \<or> (iv_status i = InviteActive \<and> iv_expiresAt i \<le> env_now E) then Inr PageExpired
        else
          andThen (from_option (InternalError ''Inconsistent query result'') (findTenant s (iv_tenantId i))) (\<lambda>tenant.
          andThen (from_option (InternalError ''Inconsistent query result'') (findMembership s (iv_inviterMembershipId i))) (\<lambda>inviter.
          if tn_status tenant = TenantSuspended then Inr PageSuspended
          else if mb_status inviter \<noteq> MemberActive then Inr PageInvalid
          else case consentPlan (iv_tenantId i) (env_now E) s of
                 None \<Rightarrow> Inr PageInvalid
               | Some plan \<Rightarrow>
                   andThen (createInviteConsentSnapshot E INVITE_DISCLAIMER_VERSION ''en'' (tn_name tenant) plan) (\<lambda>consent.
                   Inr (PageValid \<lparr>vi_displayName = tn_name tenant,
                     vi_lockedEmailHint = Option.bind (Option.bind (iv_email i) orNone) maskInviteEmail,
                     vi_programSummary = cs_programSummary consent,
                     vi_disclaimer = the (disclaimerBody INVITE_DISCLAIMER_VERSION ''en''),
                     vi_expiresAt = isoString (iv_expiresAt i)\<rparr>)))))"

definition continuation :: "string \<Rightarrow> uuid \<Rightarrow> db \<Rightarrow> uuid option" where
  "continuation code userId s =
     Option.bind (find (\<lambda>i. iv_code i = code) (invites s)) (\<lambda>i.
     if iv_status i \<noteq> InviteUsed then None
     else Option.bind (iv_usedByMembershipId i) (\<lambda>mid.
       map_option mb_id (find (\<lambda>m. mb_id m = mid \<and> mb_tenantId m = iv_tenantId i \<and> mb_userId m = userId \<and> mb_status m = MemberActive \<and>
         map_option tn_status (findTenant s (mb_tenantId m)) = Some TenantActive) (memberships s))))"

section \<open>Joining\<close>

definition lockedInvite :: "uuid \<Rightarrow> db \<Rightarrow> (invite \<times> membership \<times> tenant) res" where
  "lockedInvite inviteId s =
     andThen (from_option (BadRequest ''invite code is invalid'') (find (\<lambda>i. iv_id i = inviteId) (invites s))) (\<lambda>i.
     andThen (from_option (InternalError ''Inconsistent query result'') (findMembership s (iv_inviterMembershipId i))) (\<lambda>inviter.
     andThen (from_option (InternalError ''Inconsistent query result'') (findTenant s (iv_tenantId i))) (\<lambda>tenant.
     Inr (i, inviter, tenant))))"

definition joinable :: "env \<Rightarrow> invite \<Rightarrow> membership \<Rightarrow> tenant \<Rightarrow> unit res" where
  "joinable E i inviter tenant =
     andThen (require (iv_status i = InviteActive) (BadRequest ''invite code is invalid'')) (\<lambda>_.
     andThen (require (\<not> iv_expiresAt i < env_now E) (BadRequest ''invite has expired'')) (\<lambda>_.
     andThen (require (tn_status tenant = TenantActive) (BadRequest ''this business is not accepting registrations right now'')) (\<lambda>_.
     require (mb_status inviter = MemberActive) (BadRequest ''the inviting membership is not active''))))"

text \<open>\<open>updateMany\<close> over the invite while it is active and unexpired; zero rows abort the transaction.\<close>

definition consumeInvite :: "env \<Rightarrow> uuid \<Rightarrow> uuid \<Rightarrow> db \<Rightarrow> db res" where
  "consumeInvite E inviteId membershipId s =
     (let hit = (\<lambda>i. iv_id i = inviteId \<and> iv_status i = InviteActive \<and> env_now E < iv_expiresAt i)
      in andThen (require (countWhere hit (invites s) \<noteq> 0) (BadRequest ''invite code is invalid or expired'')) (\<lambda>_.
         Inr (s\<lparr>invites := updateWhere hit (\<lambda>i. i\<lparr>iv_status := InviteUsed, iv_usedByMembershipId := Some membershipId\<rparr>) (invites s)\<rparr>)))"

definition joinedPayload :: "tenant \<Rightarrow> user \<Rightarrow> json" where
  "joinedPayload tenant u = JObj (if tn_notifyNewMemberName tenant then [(''memberName'', JStr (us_fullName u))] else [])"

text \<open>What both transactions do once they hold the invite: place the member, consume the invite, remember the choice, notify.\<close>

definition joinByInvite ::
  "env \<Rightarrow> (nat \<Rightarrow> string) \<Rightarrow> user \<Rightarrow> invite \<Rightarrow> membership \<Rightarrow> tenant \<Rightarrow> consent_snapshot \<Rightarrow> (membership \<Rightarrow> membership) \<Rightarrow> db \<Rightarrow>
   (membership \<times> db) res" where
  "joinByInvite E codes u i inviter tenant consent note s =
     andThen (createUnderWithInviteConsent E codes (iv_tenantId i) (us_id u) inviter (iv_id i) consent s) (\<lambda>(m, s1).
     let s2 = s1\<lparr>memberships := updateWhere (\<lambda>x. mb_id x = mb_id m) note (memberships s1)\<rparr>
     in andThen (consumeInvite E (iv_id i) (mb_id m) s2) (\<lambda>s3.
        let s4 = s3\<lparr>users := updateWhere (\<lambda>x. us_id x = us_id u) (\<lambda>x. x\<lparr>us_lastMembershipId := Some (mb_id m)\<rparr>) (users s3)\<rparr>
        in Inr (m, createNotification (iv_tenantId i) (iv_inviterMembershipId i) ChPush ''team_member_joined''
             (joinedPayload tenant u) s4)))"

definition joinAudit :: "invite \<Rightarrow> user \<Rightarrow> membership \<Rightarrow> (string \<times> json) list \<Rightarrow> db \<Rightarrow> db" where
  "joinAudit i u m ipFingerprint s = s\<lparr>audits := audits s @
     [\<lparr>au_tenantId = iv_tenantId i, au_actorUserId = Some (us_id u), au_action = ''membership.register_by_invite'',
       au_entity = ''membership'', au_entityId = Some (mb_id m), au_before = None,
       au_after = JObj ([(''sponsorMembershipId'', JId (iv_inviterMembershipId i)), (''inviteId'', JId (iv_id i))] @ ipFingerprint)\<rparr>]\<rparr>"

record register_input =
  ri_inviteCode :: string
  ri_email :: "string option"
  ri_fullName :: string
  ri_disclaimerVersion :: string
  ri_disclaimerLocale :: string
  ri_ip :: "string option"

definition createUser :: "string \<Rightarrow> string \<Rightarrow> db \<Rightarrow> (user \<times> db) res" where
  "createUser email fullName s =
     andThen (require (\<not> list_ex (\<lambda>u. us_email u = email \<or> us_id u = freshId s) (users s)) (DbError ''P2002'')) (\<lambda>_.
     let u = \<lparr>us_id = freshId s, us_fullName = fullName, us_email = email, us_emailVerifiedAt = None, us_totpEnabledAt = None,
              us_lastMembershipId = None, us_isPlatformAdmin = False, us_authGeneration = 1\<rparr>
     in Inr (u, (drawId s)\<lparr>users := users s @ [u]\<rparr>))"

text \<open>
  The effective address: the one the invite is locked to, else the client's.  An empty text is falsy, but it is not
  \<open>null\<close> for the \<open>??\<close> that chooses.
\<close>

definition truthyText :: "string option \<Rightarrow> bool" where
  "truthyText v \<longleftrightarrow> v \<noteq> None \<and> v \<noteq> Some []"

definition effectiveEmail :: "string option \<Rightarrow> string option \<Rightarrow> string res" where
  "effectiveEmail locked client =
     andThen (require (\<not> (truthyText locked \<and> truthyText client \<and> locked \<noteq> client))
       (BadRequest ''this invite was issued for a different email address'')) (\<lambda>_.
     from_option (BadRequest ''email is required for an open invite'')
       (let chosen = (case locked of Some e \<Rightarrow> Some e | None \<Rightarrow> client) in if truthyText chosen then chosen else None))"

datatype registration = Joined membership bool | MfaRequired uuid uuid consent_snapshot

text \<open>
  The transaction of \<open>registerByInvite\<close>.  \<open>passwordOk\<close> is the outcome of both verifications of an existing account's
  password, \<open>verifyPayload\<close> the encrypted token a new account is mailed; its token row and the rows of an MFA challenge
  are not modelled.
\<close>

definition existingUser :: "(user \<Rightarrow> bool) \<Rightarrow> string \<Rightarrow> db \<Rightarrow> user option res" where
  "existingUser passwordOk email s = (case find (\<lambda>u. us_email u = email) (users s) of
      None \<Rightarrow> Inr None
    | Some u \<Rightarrow> if passwordOk u then Inr (Some u)
                else Inl (Conflict ''this email is already registered; verify with the existing account password''))"

definition DISCLAIMER_VERSION :: string where
  "DISCLAIMER_VERSION = ''v1''"

definition noteRegistration :: "env \<Rightarrow> string option \<Rightarrow> membership \<Rightarrow> membership" where
  "noteRegistration E ip m = m\<lparr>
     mb_signupIp := (case Option.bind ip orNone of None \<Rightarrow> mb_signupIp m | Some x \<Rightarrow> Some x),
     mb_disclaimerAcceptedAt := Some (env_now E), mb_disclaimerVersion := Some DISCLAIMER_VERSION\<rparr>"

definition registerInTransaction ::
  "env \<Rightarrow> (nat \<Rightarrow> string) \<Rightarrow> (user \<Rightarrow> bool) \<Rightarrow> (string option \<Rightarrow> (string \<times> json) list) \<Rightarrow> json \<Rightarrow> register_input \<Rightarrow> db \<Rightarrow>
   (registration \<times> db) res" where
  "registerInTransaction E codes passwordOk ipFingerprint verifyPayload r s =
     andThen (from_option (BadRequest ''invite code is invalid'') (find (\<lambda>i. iv_code i = ri_inviteCode r) (invites s))) (\<lambda>initial.
     let client = map_option (\<lambda>e. map lowerChar (trimText e)) (ri_email r);
         locked = map_option (\<lambda>e. map lowerChar (trimText e)) (iv_email initial)
     in andThen (effectiveEmail locked client) (\<lambda>email.
        andThen (existingUser passwordOk email s) (\<lambda>known.
        andThen (lockedInvite (iv_id initial) s) (\<lambda>(i, inviter, tenant).
        andThen (joinable E i inviter tenant) (\<lambda>_.
        andThen (from_option (BadRequest ''this business has no effective commission plan'') (consentPlan (iv_tenantId i) (env_now E) s)) (\<lambda>plan.
        andThen (createInviteConsentSnapshot E (ri_disclaimerVersion r) (ri_disclaimerLocale r) (tn_name tenant) plan) (\<lambda>consent.
        andThen (case known of Some u \<Rightarrow> Inr (u, s) | None \<Rightarrow> createUser email (ri_fullName r) s) (\<lambda>(u, s1).
        andThen (require (\<not> list_ex (\<lambda>m. mb_tenantId m = iv_tenantId i \<and> mb_userId m = us_id u) (memberships s1))
          (Conflict ''you already have a membership in this business'')) (\<lambda>_.
        if known \<noteq> None \<and> us_totpEnabledAt u \<noteq> None then Inr (MfaRequired (iv_id i) (us_id u) consent, s1)
        else andThen (joinByInvite E codes u i inviter tenant consent
               (noteRegistration E (ri_ip r)) s1) (\<lambda>(m, s2).
             let s3 = (if known = None then createNotification (iv_tenantId i) (mb_id m) ChEmail ''verify_email'' verifyPayload s2 else s2)
             in Inr (Joined m (known = None), joinAudit i u m (ipFingerprint (ri_ip r)) s3)))))))))))"

text \<open>
  An invite found expired is marked before the transaction opens, so that the refusal does not roll the mark back:
  the database is a result of its own, beside the answer.
\<close>

definition registerByInvite ::
  "env \<Rightarrow> (nat \<Rightarrow> string) \<Rightarrow> (user \<Rightarrow> bool) \<Rightarrow> (string option \<Rightarrow> (string \<times> json) list) \<Rightarrow> json \<Rightarrow> register_input \<Rightarrow> db \<Rightarrow>
   registration res \<times> db" where
  "registerByInvite E codes passwordOk ipFingerprint verifyPayload r s =
     (case Option.bind (find (\<lambda>i. iv_code i = ri_inviteCode r) (invites s))
             (\<lambda>i. if iv_status i = InviteActive \<and> iv_expiresAt i < env_now E then Some i else None) of
        Some pre \<Rightarrow> (Inl (BadRequest ''invite has expired''),
          s\<lparr>invites := updateWhere (\<lambda>i. iv_id i = iv_id pre) (\<lambda>i. i\<lparr>iv_status := InviteExpired\<rparr>) (invites s)\<rparr>)
      | None \<Rightarrow> (case registerInTransaction E codes passwordOk ipFingerprint verifyPayload r s of
                   Inl e \<Rightarrow> (Inl e, s)
                 | Inr (out, s') \<Rightarrow> (Inr out, s')))"

record pending_acceptance =
  pa_userId :: uuid
  pa_inviteId :: uuid
  pa_tenantId :: "uuid option"
  pa_consent :: stored_consent
  pa_completed :: bool

definition completePendingInviteAcceptance ::
  "env \<Rightarrow> (nat \<Rightarrow> string) \<Rightarrow> (string \<times> json) list \<Rightarrow> pending_acceptance \<Rightarrow> user \<Rightarrow> db \<Rightarrow>
   (membership \<times> pending_acceptance \<times> db) res" where
  "completePendingInviteAcceptance E codes ipFingerprint pending u s =
     andThen (require (pa_userId pending = us_id u \<and> \<not> pa_completed pending) (Unauthorized ''2FA session is invalid or expired'')) (\<lambda>_.
     andThen (from_option (BadRequest ''invite acceptance consent is invalid; start a new invite acceptance'')
       (Option.bind (pa_tenantId pending) (\<lambda>t. map_option (Pair t) (verifyStoredInviteConsentSnapshot E (pa_consent pending))))) (\<lambda>(t, consent).
     andThen (lockedInvite (pa_inviteId pending) s) (\<lambda>(i, inviter, tenant).
     andThen (require (t = iv_tenantId i) (BadRequest ''invite acceptance consent is invalid; start a new invite acceptance'')) (\<lambda>_.
     andThen (joinable E i inviter tenant) (\<lambda>_.
     andThen (require (case Option.bind (iv_email i) orNone of None \<Rightarrow> True | Some e \<Rightarrow> map lowerChar e = us_email u)
       (BadRequest ''this invite was issued for a different email address'')) (\<lambda>_.
     andThen (require (\<not> list_ex (\<lambda>m. mb_tenantId m = iv_tenantId i \<and> mb_userId m = us_id u) (memberships s))
       (Conflict ''you already have a membership in this business'')) (\<lambda>_.
     andThen (joinByInvite E codes u i inviter tenant consent (\<lambda>m. m) s) (\<lambda>(m, s1).
     Inr (m, pending\<lparr>pa_completed := True\<rparr>, joinAudit i u m ipFingerprint s1)))))))))"

end
