(* ===== verification/Members.thy ===== *)
theory Members
  imports Guard Network Sales Reports
begin

text \<open>
  \<open>members.admin.service.ts\<close>: placing members and inviting on their behalf, their state, their role and leader flag, one
  by one and in bulk, with the authority the actor's own row gives.  A temporary password is drawn outside the model, a
  token is its claims, and a raw error's text is the parameter \<open>dbMessage\<close> as in the imports.
\<close>

section \<open>Authority\<close>

definition ASSIGNABLE_ROLES :: "role list" where
  "ASSIGNABLE_ROLES = [TenantAdmin, TenantStaff, PlainMember]"

record role_authority =
  ra_membershipId :: "uuid option"
  ra_permissions :: "string list"

record tier_assignment =
  ta_roleId :: "uuid option"
  ta_permissions :: "string list"

definition memberInTenant :: "db \<Rightarrow> uuid \<Rightarrow> uuid \<Rightarrow> membership res" where
  "memberInTenant s tenantId membershipId =
     from_option (NotFound ''membership was not found in this business'')
       (find (\<lambda>m. mb_id m = membershipId \<and> mb_tenantId m = tenantId) (memberships s))"

text \<open>
  The third argument is absent (\<open>undefined\<close>), \<open>null\<close> for a platform administrator acting as the tenant, or the
  membership of the session.
\<close>

definition resolveRoleChangeAuthority :: "actor \<Rightarrow> uuid option option \<Rightarrow> db \<Rightarrow> role_authority res" where
  "resolveRoleChangeAuthority a actorMembershipId s =
     (if actorMembershipId = Some None
      then andThen (require (isPlatformUser (findUser s (ac_userId a))) (Forbidden ''active membership not found''))
             (\<lambda>_. Inr \<lparr>ra_membershipId = None, ra_permissions = ALL_PERMISSIONS\<rparr>)
      else
        andThen (from_option (Forbidden ''active membership not found'')
          (find (\<lambda>m. mb_tenantId m = ac_tenantId a \<and> mb_userId m = ac_userId a \<and>
               (case actorMembershipId of Some (Some i) \<Rightarrow> mb_id m = i | _ \<Rightarrow> True)) (memberships s))) (\<lambda>m.
        andThen (require (mb_status m = MemberActive) (Forbidden ''active membership not found'')) (\<lambda>_.
        Inr \<lparr>ra_membershipId = Some (mb_id m),
          ra_permissions = (if godTier (mb_role m) then ALL_PERMISSIONS else permissionsFor s m)\<rparr>)))"

definition tierRoleAssignmentFor :: "db \<Rightarrow> uuid \<Rightarrow> role \<Rightarrow> tier_assignment" where
  "tierRoleAssignmentFor s tenantId r =
     (if r = PlainMember then \<lparr>ta_roleId = None, ta_permissions = []\<rparr>
      else case tierToSystemRole r of
             None \<Rightarrow> \<lparr>ta_roleId = None, ta_permissions = defaultPermissionsForTier r\<rparr>
           | Some key \<Rightarrow>
               let systemRole = roleOfKey s tenantId key
               in \<lparr>ta_roleId = map_option ro_id systemRole,
                   ta_permissions = remdups (defaultPermissionsForTier r @
                     (case systemRole of None \<Rightarrow> [] | Some x \<Rightarrow> ro_permissions x))\<rparr>)"

definition assertRoleChangeAllowed :: "role_authority \<Rightarrow> membership \<Rightarrow> tier_assignment \<Rightarrow> unit res" where
  "assertRoleChangeAllowed authority m t =
     andThen (require (ra_membershipId authority \<noteq> Some (mb_id m)) (Forbidden ''you cannot change your own role from this screen'')) (\<lambda>_.
     andThen (require (mb_role m \<noteq> TenantOwner) (BadRequest ''owner rolu bu uctan degistirilemez'')) (\<lambda>_.
     assertGrantable (ra_permissions authority) (ta_permissions t)))"

definition memberAudit :: "actor \<Rightarrow> string \<Rightarrow> uuid \<Rightarrow> json \<Rightarrow> db \<Rightarrow> db" where
  "memberAudit a action entityId after s = serviceAudit a action (takeWhile (\<lambda>c. c \<noteq> CHR ''.'') action) (Some entityId) after s"

definition roleText :: "role \<Rightarrow> string" where
  "roleText r = (case r of PlatformAdmin \<Rightarrow> ''platform_admin'' | TenantOwner \<Rightarrow> ''tenant_owner''
     | TenantAdmin \<Rightarrow> ''tenant_admin'' | TenantStaff \<Rightarrow> ''tenant_staff'' | PlainMember \<Rightarrow> ''member'')"

definition memberStatusText :: "membership_status \<Rightarrow> string" where
  "memberStatusText st = (case st of MemberActive \<Rightarrow> ''active'' | MemberInactive \<Rightarrow> ''inactive'')"

text \<open>The live API keys of a membership, revoked with the change that took its access away.\<close>

definition revokeKeysOf :: "env \<Rightarrow> actor \<Rightarrow> uuid \<Rightarrow> (string \<times> json) list \<Rightarrow> db \<Rightarrow> db" where
  "revokeKeysOf E a membershipId why s =
     (let live = (\<lambda>k. ak_tenantId k = ac_tenantId a \<and> ak_membershipId k = membershipId \<and> ak_revokedAt k = None);
          n = countWhere live (apiKeys s);
          s1 = s\<lparr>apiKeys := updateWhere live (\<lambda>k. k\<lparr>ak_revokedAt := Some (env_now E)\<rparr>) (apiKeys s)\<rparr>
      in if 0 < n then memberAudit a ''apikey.revoke_cascade'' membershipId (JObj (why @ [(''count'', JNum (int n))])) s1 else s1)"

section \<open>Role, state and leader flag\<close>

definition setRole ::
  "tenant_context option \<Rightarrow> env \<Rightarrow> actor \<Rightarrow> uuid \<Rightarrow> role \<Rightarrow> uuid option option \<Rightarrow> role_authority option \<Rightarrow> tier_assignment option \<Rightarrow>
   db \<Rightarrow> db res" where
  "setRole ctx E a membershipId r actorMembershipId authority assignment s =
     andThen (assertActor ctx a) (\<lambda>_.
     andThen (require (r \<in> set ASSIGNABLE_ROLES) (BadRequest ''bu rol bu uctan atanamaz'')) (\<lambda>_.
     andThen (case authority of Some x \<Rightarrow> Inr x | None \<Rightarrow> resolveRoleChangeAuthority a actorMembershipId s) (\<lambda>au.
     let t = (case assignment of Some x \<Rightarrow> x | None \<Rightarrow> tierRoleAssignmentFor s (ac_tenantId a) r)
     in andThen (memberInTenant s (ac_tenantId a) membershipId) (\<lambda>m.
        andThen (assertRoleChangeAllowed au m t) (\<lambda>_.
        let s1 = writeRole membershipId r (ta_roleId t) s;
            s2 = (if r \<noteq> mb_role m \<or> ta_roleId t \<noteq> mb_roleId m
                  then revokeKeysOf E a membershipId [(''reason'', JStr ''role_change''), (''from'', JStr (roleText (mb_role m))),
                         (''to'', JStr (roleText r))] s1
                  else s1)
        in Inr (memberAudit a ''membership.set_role'' membershipId (JObj [(''from'', JStr (roleText (mb_role m))),
             (''to'', JStr (roleText r)), (''fromRoleId'', case mb_roleId m of None \<Rightarrow> JNull | Some i \<Rightarrow> JId i),
             (''toRoleId'', case ta_roleId t of None \<Rightarrow> JNull | Some i \<Rightarrow> JId i)]) s2))))))"

definition writeMemberStatus :: "uuid \<Rightarrow> membership_status \<Rightarrow> db \<Rightarrow> db" where
  "writeMemberStatus membershipId st s =
     s\<lparr>memberships := updateWhere (\<lambda>m. mb_id m = membershipId) (\<lambda>m. m\<lparr>mb_status := st\<rparr>) (memberships s)\<rparr>"

definition setStatus :: "tenant_context option \<Rightarrow> env \<Rightarrow> actor \<Rightarrow> uuid \<Rightarrow> membership_status \<Rightarrow> db \<Rightarrow> db res" where
  "setStatus ctx E a membershipId st s =
     andThen (assertActor ctx a) (\<lambda>_.
     andThen (memberInTenant s (ac_tenantId a) membershipId) (\<lambda>m.
     andThen (require (\<not> (mb_role m = TenantOwner \<and> st = MemberInactive)) (BadRequest ''owner membership cannot be deactivated'')) (\<lambda>_.
     if mb_status m = st then Inr s
     else let s1 = writeMemberStatus membershipId st s;
              s2 = (if st = MemberInactive then revokeKeysOf E a membershipId [(''reason'', JStr ''deactivate'')] s1 else s1)
          in Inr (memberAudit a (if st = MemberInactive then ''membership.deactivate'' else ''membership.activate'') membershipId
               (JObj [(''from'', JStr (memberStatusText (mb_status m))), (''to'', JStr (memberStatusText st))]) s2))))"

definition setLeader :: "actor \<Rightarrow> uuid \<Rightarrow> bool \<Rightarrow> db \<Rightarrow> db res" where
  "setLeader a membershipId leader s =
     andThen (memberInTenant s (ac_tenantId a) membershipId) (\<lambda>m.
     andThen (require (\<not> (leader \<and> (mb_role m = TenantOwner \<or> mb_role m = TenantAdmin)))
       (BadRequest ''owner/admin takim lideri olarak isaretlenemez'')) (\<lambda>_.
     if mb_isTeamLeader m = leader then Inr s
     else Inr (memberAudit a (if leader then ''membership.set_leader'' else ''membership.unset_leader'') membershipId
            (JObj [(''isTeamLeader'', JBool leader)])
            (s\<lparr>memberships := updateWhere (\<lambda>x. mb_id x = membershipId) (\<lambda>x. x\<lparr>mb_isTeamLeader := leader\<rparr>) (memberships s)\<rparr>))))"

section \<open>Bulk changes\<close>

datatype member_action = Activate | Deactivate | SetRole

record member_bulk =
  mk_action :: member_action
  mk_ids :: "uuid list"
  mk_role :: "role option"
  mk_preview :: bool

record member_preview =
  mv_willChange :: nat
  mv_skipped :: "(uuid \<times> string) list"
  mv_openPayoutRequests :: nat

datatype member_answer = MemberPreview member_preview | MemberApplied nat "(uuid \<times> string) list"

definition targetStatus :: "member_action \<Rightarrow> membership_status" where
  "targetStatus action = (if action = Activate then MemberActive else MemberInactive)"

text \<open>Why an id would be skipped; \<open>None\<close> for one that would change.\<close>

definition skipReason ::
  "(error \<Rightarrow> string) \<Rightarrow> member_bulk \<Rightarrow> role_authority option \<Rightarrow> tier_assignment option \<Rightarrow> uuid \<Rightarrow> uuid \<Rightarrow> db \<Rightarrow> string option" where
  "skipReason dbMessage b authority assignment tenantId i s =
     (case find (\<lambda>m. mb_id m = i \<and> mb_tenantId m = tenantId) (memberships s) of
        None \<Rightarrow> Some ''bulunamadi''
      | Some m \<Rightarrow>
          if mk_action b = SetRole
          then (case (authority, assignment) of
                  (Some au, Some t) \<Rightarrow>
                    (case assertRoleChangeAllowed au m t of
                       Inl e \<Rightarrow> Some (errorMessage dbMessage e)
                     | Inr _ \<Rightarrow> if Some (mb_role m) = mk_role b \<and> mb_roleId m = ta_roleId t then Some ''zaten bu rolde'' else None)
                | _ \<Rightarrow> None)
          else if mb_role m = TenantOwner \<and> targetStatus (mk_action b) = MemberInactive then Some ''owner pasife alinamaz''
          else if mb_status m = targetStatus (mk_action b) then Some ''zaten bu durumda''
          else None)"

definition previewMembers ::
  "(error \<Rightarrow> string) \<Rightarrow> member_bulk \<Rightarrow> role_authority option \<Rightarrow> tier_assignment option \<Rightarrow> uuid \<Rightarrow> db \<Rightarrow> member_preview" where
  "previewMembers dbMessage b authority assignment tenantId s =
     (let reason = (\<lambda>i. skipReason dbMessage b authority assignment tenantId i s)
      in \<lparr>mv_willChange = countWhere (\<lambda>i. reason i = None) (mk_ids b),
          mv_skipped = List.map_filter (\<lambda>i. map_option (Pair i) (reason i)) (mk_ids b),
          mv_openPayoutRequests = (if mk_action b = Deactivate
            then countWhere (\<lambda>p. po_tenantId p = tenantId \<and> po_membershipId p \<in> set (mk_ids b) \<and> po_status p = PoRequested) (payouts s)
            else 0)\<rparr>)"

definition applyMember ::
  "(error \<Rightarrow> string) \<Rightarrow> tenant_context option \<Rightarrow> env \<Rightarrow> actor \<Rightarrow> member_bulk \<Rightarrow> role_authority option \<Rightarrow> tier_assignment option \<Rightarrow>
   uuid option option \<Rightarrow> uuid \<Rightarrow> nat \<times> (uuid \<times> string) list \<times> db \<Rightarrow> nat \<times> (uuid \<times> string) list \<times> db" where
  "applyMember dbMessage ctx E a b authority assignment actorMembershipId i = (\<lambda>(n, failed, s).
     case (if mk_action b = SetRole
           then (case mk_role b of None \<Rightarrow> Inl (BadRequest ''rol gerekli'')
                 | Some r \<Rightarrow> setRole ctx E a i r actorMembershipId authority assignment s)
           else setStatus ctx E a i (targetStatus (mk_action b)) s) of
       Inl e \<Rightarrow> (n, failed @ [(i, errorMessage dbMessage e)], s)
     | Inr s' \<Rightarrow> (Suc n, failed, s'))"

definition bulkMembers ::
  "(error \<Rightarrow> string) \<Rightarrow> tenant_context option \<Rightarrow> env \<Rightarrow> actor \<Rightarrow> member_bulk \<Rightarrow> uuid option option \<Rightarrow> db \<Rightarrow> (member_answer \<times> db) res" where
  "bulkMembers dbMessage ctx E a b actorMembershipId s =
     andThen (assertActor ctx a) (\<lambda>_.
     andThen (require (\<not> (mk_action b = SetRole \<and> mk_role b = None)) (BadRequest ''rol gerekli'')) (\<lambda>_.
     andThen (require (case mk_role b of None \<Rightarrow> True | Some r \<Rightarrow> r \<in> set ASSIGNABLE_ROLES) (BadRequest ''bu rol bu uctan atanamaz'')) (\<lambda>_.
     andThen (if mk_action b = SetRole then map_sum id Some (resolveRoleChangeAuthority a actorMembershipId s) else Inr None) (\<lambda>authority.
     let assignment = (if mk_action b = SetRole then map_option (tierRoleAssignmentFor s (ac_tenantId a)) (mk_role b) else None)
     in if mk_preview b then Inr (MemberPreview (previewMembers dbMessage b authority assignment (ac_tenantId a) s), s)
        else let (n, failed, s') = fold (applyMember dbMessage ctx E a b authority assignment actorMembershipId) (mk_ids b) (0, [], s)
             in Inr (MemberApplied n failed, s')))))"

section \<open>Placing and inviting\<close>

text \<open>A platform administrator acting as the tenant has no membership: the owner sponsors.\<close>

definition resolveActorSponsor :: "db \<Rightarrow> uuid \<Rightarrow> uuid option \<Rightarrow> uuid res" where
  "resolveActorSponsor s tenantId actorMembershipId =
     (case actorMembershipId of
        Some i \<Rightarrow> Inr i
      | None \<Rightarrow> andThen (from_option (BadRequest ''uye davet icin sponsor gerekli'')
          (find (\<lambda>m. mb_tenantId m = tenantId \<and> mb_role m = TenantOwner) (memberships s))) (\<lambda>m. Inr (mb_id m)))"

text \<open>The sponsor named by id or by referral code, the id first.\<close>

definition namedSponsor :: "string \<Rightarrow> string \<Rightarrow> uuid \<Rightarrow> uuid option \<Rightarrow> string option \<Rightarrow> uuid \<Rightarrow> db \<Rightarrow> uuid res" where
  "namedSponsor missing inactive tenantId sponsorId sponsorCode fallback s =
     (if sponsorId = None \<and> Option.bind sponsorCode orNone = None then Inr fallback
      else andThen (from_option (NotFound missing)
             (find (\<lambda>m. mb_tenantId m = tenantId \<and>
                 (case sponsorId of Some i \<Rightarrow> mb_id m = i | None \<Rightarrow> Some (mb_referralCode m) = sponsorCode)) (memberships s))) (\<lambda>m.
           andThen (require (mb_status m = MemberActive) (BadRequest inactive)) (\<lambda>_. Inr (mb_id m))))"

record invite_input =
  ii_sponsorReferralCode :: "string option"
  ii_sponsorMembershipId :: "uuid option"
  ii_email :: "string option"

definition inviteForAdmin ::
  "tenant_context option \<Rightarrow> env \<Rightarrow> (nat \<Rightarrow> string) \<Rightarrow> (string option \<Rightarrow> (string \<times> json) list) \<Rightarrow> actor \<Rightarrow> uuid option \<Rightarrow> invite_input \<Rightarrow>
   string option \<Rightarrow> db \<Rightarrow> (invite \<times> db) res" where
  "inviteForAdmin ctx E codes emailFingerprint a actorMembershipId i key s =
     andThen (assertActor ctx a) (\<lambda>_.
     andThen (resolveActorSponsor s (ac_tenantId a) actorMembershipId) (\<lambda>own.
     andThen (namedSponsor ''sponsor membership was not found in this business'' ''sponsor is not active'' (ac_tenantId a)
       (ii_sponsorMembershipId i) (ii_sponsorReferralCode i) own s) (\<lambda>sponsorId.
     andThen (createInviteForAdmin ctx E codes a sponsorId (ii_email i) key s) (\<lambda>(invite, s1).
     Inr (invite, memberAudit a ''invite.create'' (iv_id invite)
       (JObj ([(''sponsorId'', JId sponsorId)] @ emailFingerprint (iv_email invite))) s1)))))"

record manual_input =
  mi_fullName :: string
  mi_email :: string
  mi_sponsorReferralCode :: "string option"
  mi_sponsorMembershipId :: "uuid option"
  mi_role :: "role option"
  mi_asLeader :: bool

definition manualRole :: "manual_input \<Rightarrow> role" where
  "manualRole i = (case mi_role i of Some r \<Rightarrow> if r \<in> set ASSIGNABLE_ROLES then r else PlainMember | None \<Rightarrow> PlainMember)"

definition manualUser :: "env \<Rightarrow> uuid \<Rightarrow> manual_input \<Rightarrow> db \<Rightarrow> (user \<times> bool \<times> db) res" where
  "manualUser E tenantId i s =
     (let email = map lowerChar (trimText (mi_email i))
      in case find (\<lambda>u. us_email u = email) (users s) of
           None \<Rightarrow> andThen (createUser email (trimText (mi_fullName i)) s) (\<lambda>(u, s1).
             Inr (u\<lparr>us_emailVerifiedAt := Some (env_now E)\<rparr>, True,
               s1\<lparr>users := updateWhere (\<lambda>x. us_id x = us_id u) (\<lambda>x. x\<lparr>us_emailVerifiedAt := Some (env_now E)\<rparr>) (users s1)\<rparr>))
         | Some u \<Rightarrow> andThen (require (\<not> list_ex (\<lambda>m. mb_tenantId m = tenantId \<and> mb_userId m = us_id u) (memberships s))
             (Conflict ''bu e-postali kullanici zaten bu isletmede uye'')) (\<lambda>_. Inr (u, False, s)))"

text \<open>A leader without a named sponsor starts a tree of its own.\<close>

definition manualAsRoot :: "manual_input \<Rightarrow> bool" where
  "manualAsRoot i \<longleftrightarrow> mi_asLeader i \<and> mi_sponsorMembershipId i = None \<and> Option.bind (mi_sponsorReferralCode i) orNone = None"

definition manualSponsor :: "uuid \<Rightarrow> uuid option \<Rightarrow> manual_input \<Rightarrow> db \<Rightarrow> membership option res" where
  "manualSponsor tenantId actorMembershipId i s =
     (if manualAsRoot i then Inr None
      else andThen (resolveActorSponsor s tenantId actorMembershipId) (\<lambda>own.
           andThen (namedSponsor ''sponsor uyeligi bu isletmede bulunamadi'' ''sponsor aktif degil'' tenantId
             (mi_sponsorMembershipId i) (mi_sponsorReferralCode i) own s) (\<lambda>sponsorId.
           andThen (from_option (DbError ''P2025'') (findMembership s sponsorId)) (\<lambda>m. Inr (Some m)))))"

definition manualGrantable :: "actor \<Rightarrow> uuid option \<Rightarrow> manual_input \<Rightarrow> db \<Rightarrow> unit res" where
  "manualGrantable a actorMembershipId i s =
     (if manualRole i \<noteq> PlainMember
      then andThen (resolveRoleChangeAuthority a (Some actorMembershipId) s) (\<lambda>au.
           assertGrantable (ra_permissions au) (ta_permissions (tierRoleAssignmentFor s (ac_tenantId a) (manualRole i))))
      else Inr ())"

definition createManual ::
  "env \<Rightarrow> (nat \<Rightarrow> string) \<Rightarrow> actor \<Rightarrow> uuid option \<Rightarrow> manual_input \<Rightarrow> db \<Rightarrow> (membership \<times> db) res" where
  "createManual E codes a actorMembershipId i s =
     andThen (from_option (DbError ''P2025'') (findTenant s (ac_tenantId a))) (\<lambda>tenant.
     andThen (require (tn_status tenant = TenantActive) (BadRequest ''isletme aktif degil'')) (\<lambda>_.
     andThen (manualGrantable a actorMembershipId i s) (\<lambda>_.
     andThen (manualSponsor (ac_tenantId a) actorMembershipId i s) (\<lambda>sponsor.
     andThen (manualUser E (ac_tenantId a) i s) (\<lambda>(u, newUser, s1).
     let r = manualRole i; t = tierRoleAssignmentFor s (ac_tenantId a) r
     in andThen (case sponsor of
            None \<Rightarrow> createRoot E codes (ac_tenantId a) (us_id u) r True s1
          | Some sp \<Rightarrow> createUnder E codes (ac_tenantId a) (us_id u) sp r s1) (\<lambda>(m, s2).
        let s3 = (if mb_roleId m = ta_roleId t then s2 else writeRole (mb_id m) (mb_role m) (ta_roleId t) s2)
        in Inr (m\<lparr>mb_roleId := ta_roleId t\<rparr>, memberAudit a ''membership.create_manual'' (mb_id m)
             (JObj [(''email'', JStr (map lowerChar (trimText (mi_email i)))),
               (''sponsorId'', case sponsor of None \<Rightarrow> JNull | Some sp \<Rightarrow> JId (mb_id sp)), (''role'', JStr (roleText r)),
               (''roleId'', case ta_roleId t of None \<Rightarrow> JNull | Some x \<Rightarrow> JId x), (''newUser'', JBool newUser),
               (''asLeader'', JBool (manualAsRoot i))]) s3)))))))"

section \<open>Profile and impersonation\<close>

definition updateProfile :: "actor \<Rightarrow> uuid \<Rightarrow> string option \<Rightarrow> string option \<Rightarrow> db \<Rightarrow> db res" where
  "updateProfile a membershipId fullName email s =
     andThen (from_option (NotFound ''uyelik bu isletmede bulunamadi'')
       (Option.bind (find (\<lambda>m. mb_id m = membershipId \<and> mb_tenantId m = ac_tenantId a) (memberships s))
          (\<lambda>m. map_option (Pair m) (findUser s (mb_userId m))))) (\<lambda>(m, u).
     let wanted = Option.bind (map_option (\<lambda>e. map lowerChar (trimText e)) email) orNone;
         changed = (wanted \<noteq> None \<and> wanted \<noteq> Some (us_email u))
     in andThen (require (\<not> (changed \<and> list_ex (\<lambda>x. Some (us_email x) = wanted \<and> us_id x \<noteq> mb_userId m) (users s)))
          (Conflict ''bu e-posta baska bir hesapta kullaniliyor'')) (\<lambda>_.
        Inr (memberAudit a ''membership.update_profile'' membershipId
          (JObj ((case fullName of None \<Rightarrow> [] | Some n \<Rightarrow> [(''fullName'', JStr n)]) @ [(''emailChanged'', JBool changed)]))
          (s\<lparr>users := updateWhere (\<lambda>x. us_id x = mb_userId m)
             (\<lambda>x. x\<lparr>us_fullName := (case fullName of None \<Rightarrow> us_fullName x | Some n \<Rightarrow> trimText n),
                us_email := (if changed then the wanted else us_email x),
                us_emailVerifiedAt := (if changed then None else us_emailVerifiedAt x)\<rparr>) (users s)\<rparr>))))"

definition impersonate :: "actor \<Rightarrow> uuid \<Rightarrow> db \<Rightarrow> (token \<times> db) res" where
  "impersonate a membershipId s =
     andThen (from_option (NotFound ''uyelik bu isletmede bulunamadi'')
       (Option.bind (find (\<lambda>m. mb_id m = membershipId \<and> mb_tenantId m = ac_tenantId a) (memberships s))
          (\<lambda>m. map_option (Pair m) (findUser s (mb_userId m))))) (\<lambda>(m, u).
     andThen (require (\<not> (mb_role m = TenantOwner \<or> mb_role m = TenantAdmin)) (BadRequest ''admin/owner impersonate edilemez'')) (\<lambda>_.
     andThen (require (mb_status m = MemberActive) (BadRequest ''pasif uye impersonate edilemez'')) (\<lambda>_.
     Inr (\<lparr>tk_sub = us_id u, tk_mid = Some (mb_id m), tk_tid = Some (ac_tenantId a), tk_role = Some (mb_role m), tk_perms = None,
        tk_authGeneration = Some (us_authGeneration u), tk_mfa = False, tk_mfaAt = None, tk_mfaEpoch = None, tk_plat = False,
        tk_imp = Some (ac_userId a)\<rparr>,
       memberAudit a ''security.impersonate_start'' membershipId (JObj [(''targetUserId'', JId (us_id u))]) s))))"

definition impersonateEnd :: "actor \<Rightarrow> uuid \<Rightarrow> db \<Rightarrow> db" where
  "impersonateEnd a membershipId s = memberAudit a ''security.impersonate_end'' membershipId (JObj []) s"

end
