(* ===== verification/Network_Tree.thy ===== *)
theory Network_Tree
  imports Members Ranks
begin

text \<open>
  The sponsorship tree: what a well-placed member is, how the materialized path, the chain of sponsors the engine pays and
  the subtree the ranks count relate, and that every write to \<open>memberships\<close> keeps the members where they are.
\<close>

section \<open>What a placement writes\<close>

lemma insertMembership_Inr:
  assumes "insertMembership gaveUp row k n aborted s = Inr (m, s')"
  shows "m = row k \<and> violatedIndex (row k) (memberships s) = None \<and> s' = s\<lparr>memberships := memberships s @ [row k]\<rparr>"
proof (cases n)
  case (Suc n')
  show ?thesis
  proof (cases "violatedIndex (row k) (memberships s)")
    case (Some i)
    then show ?thesis using assms Suc by (cases n'; cases i) (auto split: if_splits)
  qed (use assms Suc in \<open>auto split: if_splits\<close>)
qed (use assms in simp)

lemma createUnder_Inr:
  assumes "createUnder E codes t u sp r s = Inr (m, s')"
  shows "mb_tenantId sp = t"
    "m = newMember E (freshId s) t u (Some (mb_id sp)) (codes 0) (mb_path sp @ [freshId s]) (mb_depth sp + 1) r False"
    "violatedIndex m (memberships s) = None" "s' = (drawId s)\<lparr>memberships := memberships s @ [m]\<rparr>"
  using assms by (auto simp: createUnder_def Let_def drawId_def dest!: insertMembership_Inr)

lemma createRoot_Inr:
  assumes "createRoot E codes t u r leader s = Inr (m, s')"
  shows "m = newMember E (freshId s) t u None (codes 0) [freshId s] 0 r leader"
    "violatedIndex m (memberships s) = None" "s' = (drawId s)\<lparr>memberships := memberships s @ [m]\<rparr>"
  using assms by (auto simp: createRoot_def Let_def drawId_def dest!: insertMembership_Inr)

lemma violatedIndex_id: "violatedIndex m ms = None \<Longrightarrow> mb_id m \<notin> mb_id ` set ms"
  by (auto simp: violatedIndex_def list_ex_iff split: if_splits)

lemma updateWhere_new:
  "mb_id m \<notin> mb_id ` set ms \<Longrightarrow> updateWhere (\<lambda>x. mb_id x = mb_id m) f (ms @ [m]) = ms @ [f m]"
  by (induction ms) (auto simp: updateWhere_def)

text \<open>A join appends one plain member, placed under the inviter.\<close>

lemma joinByInvite_Inr:
  assumes "joinByInvite E codes u i inviter tenant consent g s = Inr (m, s')" "\<And>x. mb_id (g x) = mb_id x"
  shows "m = newMember E (freshId s) (iv_tenantId i) (us_id u) (Some (mb_id inviter)) (codes 0) (mb_path inviter @ [freshId s])
      (mb_depth inviter + 1) PlainMember False"
    "mb_tenantId inviter = iv_tenantId i" "violatedIndex m (memberships s) = None"
    "memberships s' = memberships s @ [g m]" "roles s' = roles s"
proof -
  obtain s1 where c: "createUnderWithInviteConsent E codes (iv_tenantId i) (us_id u) inviter (iv_id i) consent s = Inr (m, s1)"
    and j: "memberships s' = updateWhere (\<lambda>x. mb_id x = mb_id m) g (memberships s1)" "roles s' = roles s1"
    using assms(1) by (auto simp: joinByInvite_def consumeInvite_def createNotification_def drawId_def Let_def)
  then obtain s0 where c0: "createUnder E codes (iv_tenantId i) (us_id u) inviter PlainMember s = Inr (m, s0)"
    and s1: "memberships s1 = memberships s0" "roles s1 = roles s0"
    by (auto simp: createUnderWithInviteConsent_def)
  note u = createUnder_Inr [OF c0]
  show "m = newMember E (freshId s) (iv_tenantId i) (us_id u) (Some (mb_id inviter)) (codes 0) (mb_path inviter @ [freshId s])
      (mb_depth inviter + 1) PlainMember False" by (rule u(2))
  show "mb_tenantId inviter = iv_tenantId i" by (rule u(1))
  show "violatedIndex m (memberships s) = None" by (rule u(3))
  show "memberships s' = memberships s @ [g m]"
    using j(1) s1(1) u(4) updateWhere_new [OF violatedIndex_id [OF u(3)], of g] by simp
  show "roles s' = roles s" using j(2) s1(2) u(4) by (simp add: drawId_def)
qed


section \<open>Well-placed members\<close>

definition placed :: "membership list \<Rightarrow> membership \<Rightarrow> bool" where
  "placed ms m \<longleftrightarrow> mb_depth m = int (length (mb_path m)) - 1 \<and>
     (case mb_sponsorMembershipId m of
        None \<Rightarrow> mb_path m = [mb_id m]
      | Some sp \<Rightarrow> \<exists>p \<in> set ms. mb_id p = sp \<and> mb_tenantId p = mb_tenantId m \<and> mb_path m = mb_path p @ [mb_id m])"

definition treeOk :: "db \<Rightarrow> bool" where
  "treeOk s \<longleftrightarrow> distinct (map mb_id (memberships s)) \<and> (\<forall>m \<in> set (memberships s). placed (memberships s) m)"

definition placement :: "membership \<Rightarrow> uuid \<times> uuid \<times> uuid option \<times> uuid list \<times> int" where
  "placement m = (mb_id m, mb_tenantId m, mb_sponsorMembershipId m, mb_path m, mb_depth m)"

lemma treeOk_distinct: "treeOk s \<Longrightarrow> distinct (map mb_id (memberships s))"
  by (simp add: treeOk_def)

lemma findMembership_member:
  "distinct (map mb_id (memberships s)) \<Longrightarrow> m \<in> set (memberships s) \<Longrightarrow> findMembership s (mb_id m) = Some m"
proof -
  have "distinct (map mb_id ms) \<Longrightarrow> m \<in> set ms \<Longrightarrow> find (\<lambda>x. mb_id x = mb_id m) ms = Some m" for ms
    by (induction ms) auto
  then show "distinct (map mb_id (memberships s)) \<Longrightarrow> m \<in> set (memberships s) \<Longrightarrow> ?thesis"
    by (simp add: findMembership_def)
qed

lemma same_member: "distinct (map mb_id ms) \<Longrightarrow> x \<in> set ms \<Longrightarrow> y \<in> set ms \<Longrightarrow> mb_id x = mb_id y \<Longrightarrow> x = y"
  by (meson distinct_map inj_onD)

lemma placedD:
  assumes "treeOk s" "m \<in> set (memberships s)"
  shows "mb_depth m = int (length (mb_path m)) - 1"
    "mb_sponsorMembershipId m = None \<Longrightarrow> mb_path m = [mb_id m]"
    "mb_sponsorMembershipId m = Some sp \<Longrightarrow>
       \<exists>p \<in> set (memberships s). mb_id p = sp \<and> mb_tenantId p = mb_tenantId m \<and> mb_path m = mb_path p @ [mb_id m]"
proof -
  have "placed (memberships s) m" using assms by (simp add: treeOk_def)
  then show "mb_depth m = int (length (mb_path m)) - 1"
    and "mb_sponsorMembershipId m = None \<Longrightarrow> mb_path m = [mb_id m]"
    and "mb_sponsorMembershipId m = Some sp \<Longrightarrow>
       \<exists>p \<in> set (memberships s). mb_id p = sp \<and> mb_tenantId p = mb_tenantId m \<and> mb_path m = mb_path p @ [mb_id m]"
    by (simp_all add: placed_def)
qed

text \<open>The path ends with the member, and what is before it is the path of the sponsor.\<close>

lemma path_snoc:
  assumes "treeOk s" "m \<in> set (memberships s)"
  shows "mb_path m = butlast (mb_path m) @ [mb_id m]"
  by (cases "mb_sponsorMembershipId m") (use placedD [OF assms] in \<open>force+\<close>)

lemma path_induct [consumes 2, case_names root child]:
  assumes ok: "treeOk s" and "m \<in> set (memberships s)"
    and root: "\<And>m. m \<in> set (memberships s) \<Longrightarrow> mb_sponsorMembershipId m = None \<Longrightarrow> mb_path m = [mb_id m] \<Longrightarrow> P m"
    and child: "\<And>m p. m \<in> set (memberships s) \<Longrightarrow> p \<in> set (memberships s) \<Longrightarrow> mb_sponsorMembershipId m = Some (mb_id p) \<Longrightarrow>
      mb_tenantId p = mb_tenantId m \<Longrightarrow> mb_path m = mb_path p @ [mb_id m] \<Longrightarrow> P p \<Longrightarrow> P m"
  shows "P m"
  using assms(2)
proof (induction "length (mb_path m)" arbitrary: m rule: less_induct)
  case less
  show ?case
  proof (cases "mb_sponsorMembershipId m")
    case None
    then show ?thesis using root [OF less.prems] placedD(2) [OF ok less.prems] by blast
  next
    case (Some sp)
    then obtain p where p: "p \<in> set (memberships s)" "mb_id p = sp" "mb_tenantId p = mb_tenantId m" "mb_path m = mb_path p @ [mb_id m]"
      using placedD(3) [OF ok less.prems] by blast
    then have "P p" using less.hyps [of p] by simp
    then show ?thesis using child [OF less.prems p(1)] p Some by simp
  qed
qed

text \<open>The path of a member is the chain of its sponsors, from the root down: walking up never fails.\<close>

definition statusIn :: "db \<Rightarrow> uuid \<Rightarrow> membership_status" where
  "statusIn s i = (case findMembership s i of Some m \<Rightarrow> mb_status m | None \<Rightarrow> MemberInactive)"

lemma uplineChain_path:
  assumes "treeOk s" "m \<in> set (memberships s)"
  shows "uplineChain s (Some (mb_id m)) depth = Inr (map (\<lambda>i. (i, statusIn s i)) (take depth (rev (mb_path m))))"
  using assms
proof (induction m arbitrary: depth rule: path_induct)
  case (root m)
  then show ?case using findMembership_member [OF treeOk_distinct [OF assms(1)] root(1)]
    by (cases depth; cases "depth - 1") (simp_all add: statusIn_def)
next
  case (child m p)
  then show ?case using findMembership_member [OF treeOk_distinct [OF assms(1)] child.hyps(1)]
    by (cases depth) (simp_all add: statusIn_def)
qed

section \<open>Subtrees\<close>

definition sponsorship :: "db \<Rightarrow> (uuid \<times> uuid) set" where
  "sponsorship s = {(mb_id m, p) | m p. m \<in> set (memberships s) \<and> mb_sponsorMembershipId m = Some p}"

lemma sponsorship_from:
  assumes "treeOk s" "m \<in> set (memberships s)"
  shows "(mb_id m, i) \<in> sponsorship s \<longleftrightarrow> mb_sponsorMembershipId m = Some i"
  using assms same_member [OF treeOk_distinct [OF assms(1)]] unfolding sponsorship_def by blast

lemma rtrancl_first: "(a, i) \<in> R\<^sup>* \<longleftrightarrow> a = i \<or> (\<exists>j. (a, j) \<in> R \<and> (j, i) \<in> R\<^sup>*)"
  by (meson converse_rtranclE converse_rtrancl_into_rtrancl rtrancl.rtrancl_refl)

lemma path_upward:
  assumes "treeOk s" "m \<in> set (memberships s)"
  shows "i \<in> set (mb_path m) \<longleftrightarrow> (mb_id m, i) \<in> (sponsorship s)\<^sup>*"
  using assms
proof (induction m rule: path_induct)
  case (root m)
  have "(mb_id m, i) \<in> (sponsorship s)\<^sup>* \<longleftrightarrow> i = mb_id m"
    using sponsorship_from [OF assms(1) root(1)] root(2) rtrancl_first [of "mb_id m" i "sponsorship s"] by auto
  then show ?case using root(3) by simp
next
  case (child m p)
  have "(mb_id m, i) \<in> (sponsorship s)\<^sup>* \<longleftrightarrow> i = mb_id m \<or> (mb_id p, i) \<in> (sponsorship s)\<^sup>*"
    using sponsorship_from [OF assms(1) child.hyps(1)] child.hyps(3) rtrancl_first [of "mb_id m" i "sponsorship s"] by auto
  then show ?case using child.IH child.hyps(5) by auto
qed

lemma pathBelow_refl [simp]: "pathBelow p p"
  by (simp add: pathBelow_def)

lemma pathBelow_snoc: "pathBelow (p @ [x]) r \<longleftrightarrow> pathBelow p r \<or> p @ [x] = r"
proof (cases "length r \<le> length p")
  case True
  then have "p @ [x] \<noteq> r" by auto
  then show ?thesis using True by (simp add: pathBelow_def)
next
  case False
  then have "take (length r) p \<noteq> r" by (metis length_take min.cobounded1 min_def)
  then show ?thesis using False by (simp add: pathBelow_def)
qed

lemma pathBelow_path:
  assumes "treeOk s" "x \<in> set (memberships s)" "m \<in> set (memberships s)"
  shows "pathBelow (mb_path x) (mb_path m) \<longleftrightarrow> mb_id m \<in> set (mb_path x)"
proof
  assume "pathBelow (mb_path x) (mb_path m)"
  moreover have "mb_id m \<in> set (mb_path m)" using path_snoc [OF assms(1,3)] by (metis in_set_conv_decomp)
  ultimately show "mb_id m \<in> set (mb_path x)" by (metis in_set_takeD pathBelow_def)
next
  show "mb_id m \<in> set (mb_path x) \<Longrightarrow> pathBelow (mb_path x) (mb_path m)"
    using assms(1,2)
  proof (induction x rule: path_induct)
    case (root x)
    then have "m = x" using same_member [OF treeOk_distinct [OF assms(1)] assms(3) root(1)] by simp
    then show ?case by simp
  next
    case (child x p)
    show ?case
    proof (cases "mb_id m = mb_id x")
      case True
      then show ?thesis using same_member [OF treeOk_distinct [OF assms(1)] assms(3) child.hyps(1)] by simp
    qed (use child in \<open>simp add: pathBelow_snoc\<close>)
  qed
qed

text \<open>The subtree by path is the subtree by sponsorship, and it never leaves the tenant.\<close>

lemma subtree_below:
  assumes "treeOk s" "x \<in> set (memberships s)" "m \<in> set (memberships s)"
  shows "pathBelow (mb_path x) (mb_path m) \<longleftrightarrow> (mb_id x, mb_id m) \<in> (sponsorship s)\<^sup>*"
  using pathBelow_path [OF assms] path_upward [OF assms(1,2)] by simp

lemma below_tenant:
  assumes "treeOk s" "x \<in> set (memberships s)" "m \<in> set (memberships s)" "mb_id m \<in> set (mb_path x)"
  shows "mb_tenantId x = mb_tenantId m"
  using assms(1,2,4)
proof (induction x rule: path_induct)
  case (root x)
  then show ?case using same_member [OF treeOk_distinct [OF assms(1)] assms(3) root(1)] by simp
next
  case (child x p)
  show ?case
  proof (cases "mb_id m = mb_id x")
    case True
    then show ?thesis using same_member [OF treeOk_distinct [OF assms(1)] assms(3) child.hyps(1)] by simp
  qed (use child in simp)
qed

lemma countWhere_card: "distinct (map f xs) \<Longrightarrow> countWhere P xs = card (f ` {x \<in> set xs. P x})"
proof -
  assume d: "distinct (map f xs)"
  then have "distinct (map f (filter P xs))" by (simp add: distinct_map inj_on_def)
  then show ?thesis using distinct_card [of "map f (filter P xs)"] by (simp add: countWhere_def)
qed

section \<open>Keeping the tree\<close>

definition rowPlaced :: "(uuid \<times> uuid \<times> uuid option \<times> uuid list \<times> int) set \<Rightarrow> uuid \<times> uuid \<times> uuid option \<times> uuid list \<times> int \<Rightarrow> bool" where
  "rowPlaced rows r \<longleftrightarrow> (case r of (i, t, sp, path, depth) \<Rightarrow> depth = int (length path) - 1 \<and>
     (case sp of None \<Rightarrow> path = [i] | Some j \<Rightarrow> \<exists>sp' path' depth'. (j, t, sp', path', depth') \<in> rows \<and> path = path' @ [i]))"

lemma placed_rows: "placed ms m \<longleftrightarrow> rowPlaced (placement ` set ms) (placement m)"
  by (auto simp: placed_def rowPlaced_def placement_def split: option.splits; force)

lemma treeOk_rows:
  "treeOk s \<longleftrightarrow> distinct (map fst (map placement (memberships s))) \<and>
     (\<forall>r \<in> set (map placement (memberships s)). rowPlaced (set (map placement (memberships s))) r)"
  by (simp add: treeOk_def placed_rows o_def placement_def [abs_def] del: set_map) (simp add: placed_rows placement_def [abs_def])

definition treeGrows :: "db \<Rightarrow> db \<Rightarrow> bool" where
  "treeGrows s s' \<longleftrightarrow> (\<exists>new. map placement (memberships s') = map placement (memberships s) @ new)"

end
