(* ===== verification/Member_Steps.thy ===== *)
theory Member_Steps
  imports Network_Tree Engine_Lifecycle
begin

text \<open>
  Every write to members and roles as one step relation, labelled with the permissions the actor's own row gives (the
  empty list where the code asks for none).  Two relations over its runs: the tree only grows, and nobody comes to hold a
  permission through actors who do not hold it.
\<close>

section \<open>The steps\<close>

inductive memberStep :: "string list \<Rightarrow> db \<Rightarrow> db \<Rightarrow> bool" where
  create_role_step: "createRole ctx a i A s = Inr (r, s') \<Longrightarrow> memberStep A s s'"
| update_role_step: "updateRole ctx a roleId p A s = Inr (r, s') \<Longrightarrow> memberStep A s s'"
| delete_role_step: "deleteRole ctx a roleId s = Inr s' \<Longrightarrow> memberStep [] s s'"
| assign_role_step: "assignRole ctx a mid i A own s = Inr s' \<Longrightarrow> as_tier i \<noteq> Some TenantOwner \<Longrightarrow> as_tier i \<noteq> Some PlatformAdmin \<Longrightarrow>
    memberStep A s s'"
| set_role_step: "resolveRoleChangeAuthority a own s = Inr au \<Longrightarrow> setRole ctx E a mid r own None None s = Inr s' \<Longrightarrow>
    memberStep (ra_permissions au) s s'"
| bulk_roles_step: "resolveRoleChangeAuthority a own s = Inr au \<Longrightarrow> bulkMembers dbMessage ctx E a b own s = Inr (ans, s') \<Longrightarrow>
    mk_action b = SetRole \<Longrightarrow> memberStep (ra_permissions au) s s'"
| bulk_status_step: "bulkMembers dbMessage ctx E a b own s = Inr (ans, s') \<Longrightarrow> mk_action b \<noteq> SetRole \<Longrightarrow> memberStep [] s s'"
| manual_role_step: "resolveRoleChangeAuthority a (Some own) s = Inr au \<Longrightarrow> createManual E codes a own i s = Inr (m, s') \<Longrightarrow>
    memberStep (ra_permissions au) s s'"
| manual_member_step: "createManual E codes a own i s = Inr (m, s') \<Longrightarrow> manualRole i = PlainMember \<Longrightarrow> memberStep [] s s'"
| status_step: "setStatus ctx E a mid st s = Inr s' \<Longrightarrow> memberStep [] s s'"
| leader_step: "setLeader a mid leader s = Inr s' \<Longrightarrow> memberStep [] s s'"
| profile_step: "updateProfile a mid name email s = Inr s' \<Longrightarrow> memberStep [] s s'"
| message_step: "setMessage mid message s = Inr (msg, s') \<Longrightarrow> memberStep [] s s'"
| key_step: "createApiKey E raw t mid u r name s = Inr (k, raw', s') \<Longrightarrow> memberStep [] s s'"
| revoke_key_step: "revokeApiKey E t u k s = Inr s' \<Longrightarrow> memberStep [] s s'"
| invite_step: "createInvite ctx E codes mid email key s = Inr (ivt, s') \<Longrightarrow> memberStep [] s s'"
| admin_invite_step: "inviteForAdmin ctx E codes fp a own ii key s = Inr (ivt, s') \<Longrightarrow> memberStep [] s s'"
| register_step: "registerByInvite E codes pw fp vp ri s = (out, s') \<Longrightarrow> memberStep [] s s'"
| accept_step: "completePendingInviteAcceptance E codes fp' pa u s = Inr (m, pa', s') \<Longrightarrow> memberStep [] s s'"
| impersonate_step: "impersonate a mid s = Inr (t, s') \<Longrightarrow> memberStep [] s s'"

section \<open>Frames\<close>

definition memberRow :: "membership \<Rightarrow> (uuid \<times> uuid \<times> uuid option \<times> uuid list \<times> int) \<times> role \<times> uuid option" where
  "memberRow m = (placement m, mb_role m, mb_roleId m)"

definition sameMembers :: "db \<Rightarrow> db \<Rightarrow> bool" where
  "sameMembers s s' \<longleftrightarrow> map memberRow (memberships s') = map memberRow (memberships s) \<and> roles s' = roles s"

lemma sameMembers_refl [simp]: "sameMembers s s"
  by (simp add: sameMembers_def)

lemma sameMembers_trans: "sameMembers s t \<Longrightarrow> sameMembers t u \<Longrightarrow> sameMembers s u"
  by (simp add: sameMembers_def)

lemma sameMembers_frame: "memberships s' = memberships s \<Longrightarrow> roles s' = roles s \<Longrightarrow> sameMembers s s'"
  by (simp add: sameMembers_def)

lemma sameMembers_update:
  "memberships s' = updateWhere P f (memberships s) \<Longrightarrow> roles s' = roles s \<Longrightarrow> (\<And>m. memberRow (f m) = memberRow m) \<Longrightarrow> sameMembers s s'"
  by (simp add: sameMembers_def updateWhere_def)

lemma revokeKeysOf_frames [simp]:
  "memberships (revokeKeysOf E a m why s) = memberships s" "roles (revokeKeysOf E a m why s) = roles s"
  by (simp_all add: revokeKeysOf_def Let_def memberAudit_def serviceAudit_def)

lemma memberAudit_frames [simp]:
  "memberships (memberAudit a action i after s) = memberships s" "roles (memberAudit a action i after s) = roles s"
  by (simp_all add: memberAudit_def serviceAudit_def)

lemma sameMembers_audit: "sameMembers s t \<Longrightarrow> sameMembers s (memberAudit a action i after t)"
  by (simp add: sameMembers_def)

lemma setStatus_same:
  assumes "setStatus ctx E a mid st s = Inr s'"
  shows "sameMembers s s'"
proof -
  have "s' = s \<or> memberships s' = updateWhere (\<lambda>m. mb_id m = mid) (\<lambda>m. m\<lparr>mb_status := st\<rparr>) (memberships s) \<and>
      roles s' = roles s"
    using assms by (auto simp: setStatus_def writeMemberStatus_def Let_def split: if_splits)
  then show ?thesis by (auto simp: memberRow_def placement_def intro: sameMembers_update)
qed

lemma setLeader_same:
  assumes "setLeader a mid leader s = Inr s'"
  shows "sameMembers s s'"
proof -
  have "s' = s \<or> memberships s' = updateWhere (\<lambda>m. mb_id m = mid) (\<lambda>m. m\<lparr>mb_isTeamLeader := leader\<rparr>) (memberships s) \<and>
      roles s' = roles s"
    using assms by (auto simp: setLeader_def split: if_splits)
  then show ?thesis by (auto simp: memberRow_def placement_def intro: sameMembers_update)
qed

lemma updateProfile_same: "updateProfile a mid name email s = Inr s' \<Longrightarrow> sameMembers s s'"
  by (auto simp: updateProfile_def Let_def intro: sameMembers_frame)

lemma setMessage_same: "setMessage mid message s = Inr (msg, s') \<Longrightarrow> sameMembers s s'"
  by (auto simp: setMessage_def Let_def memberRow_def placement_def
      intro!: sameMembers_update [where P = "\<lambda>m. mb_id m = mid" and f = "\<lambda>m. m\<lparr>mb_inviteMessage := msg\<rparr>"])

lemma createApiKey_same: "createApiKey E raw t mid u r name s = Inr (k, raw', s') \<Longrightarrow> sameMembers s s'"
  by (auto simp: createApiKey_def keyAudit_def drawId_def Let_def intro: sameMembers_frame)

lemma revokeApiKey_same: "revokeApiKey E t u k s = Inr s' \<Longrightarrow> sameMembers s s'"
  by (auto simp: revokeApiKey_def keyAudit_def intro: sameMembers_frame)

lemma impersonate_same: "impersonate a mid s = Inr (t, s') \<Longrightarrow> sameMembers s s'"
  by (auto simp: impersonate_def intro: sameMembers_frame)

lemma insertInvite_same: "insertInvite E codes inviter email h k n s = Inr (i, s') \<Longrightarrow> sameMembers s s'"
proof (induction n arbitrary: k s)
  case (Suc n)
  have d: "sameMembers s (drawId s)" by (rule sameMembers_frame) (simp_all add: drawId_def)
  show ?case using Suc.prems Suc.IH [of "Suc k" "drawId s"] d
    by (auto simp: Let_def drawId_def replayInvite_def split: if_splits option.splits intro: sameMembers_frame sameMembers_trans)
qed simp

lemma insertInvite_after: "sameMembers s t \<Longrightarrow> insertInvite E codes inviter email h k n t = Inr (i, s') \<Longrightarrow> sameMembers s s'"
  by (rule sameMembers_trans [OF _ insertInvite_same])

lemma issueInvite_same: "issueInvite E codes i email key t s = Inr (ivt, s') \<Longrightarrow> sameMembers s s'"
proof -
  assume a: "issueInvite E codes i email key t s = Inr (ivt, s')"
  have "sameMembers s (expireInvites E j s)" for j by (rule sameMembers_frame) (simp_all add: expireInvites_def)
  with a show ?thesis
    by (auto simp: issueInvite_def Let_def replayInvite_def split: option.splits intro: insertInvite_after)
qed

lemma createInvite_same: "createInvite ctx E codes mid email key s = Inr (ivt, s') \<Longrightarrow> sameMembers s s'"
  by (auto simp: createInvite_def intro: issueInvite_same)

lemma inviteForAdmin_same: "inviteForAdmin ctx E codes fp a own ii key s = Inr (ivt, s') \<Longrightarrow> sameMembers s s'"
  by (auto simp: inviteForAdmin_def createInviteForAdmin_def dest!: issueInvite_same intro: sameMembers_audit)

text \<open>A join: nothing but plain members is added, at the end, below a member of the same tenant.\<close>

definition joins :: "db \<Rightarrow> db \<Rightarrow> bool" where
  "joins s s' \<longleftrightarrow> (\<exists>m sp. memberships s' = memberships s @ [m] \<and> roles s' = roles s \<and> mb_role m = PlainMember \<and>
     mb_id m \<notin> mb_id ` set (memberships s) \<and> sp \<in> set (memberships s) \<and> mb_tenantId sp = mb_tenantId m \<and>
     mb_sponsorMembershipId m = Some (mb_id sp) \<and> mb_path m = mb_path sp @ [mb_id m] \<and> mb_depth m = mb_depth sp + 1)"

section \<open>Who may use a permission\<close>

definition mayUse :: "db \<Rightarrow> string \<Rightarrow> membership \<Rightarrow> bool" where
  "mayUse s q m \<longleftrightarrow> hasEffectivePermission (Some (mb_role m)) (Some (permissionsFor s m)) q"

definition keyed :: "db \<Rightarrow> bool" where
  "keyed s \<longleftrightarrow> distinct (map mb_id (memberships s)) \<and> distinct (map ro_id (roles s))"

text \<open>Nobody comes to hold \<open>q\<close> who did not.\<close>

definition spared :: "string \<Rightarrow> db \<Rightarrow> db \<Rightarrow> bool" where
  "spared q s s' \<longleftrightarrow> (\<forall>m' \<in> set (memberships s'). mayUse s' q m' \<longrightarrow> (\<exists>m \<in> set (memberships s). mb_id m = mb_id m' \<and> mayUse s q m))"

lemma spared_refl [simp]: "spared q s s"
  by (auto simp: spared_def)

lemma spared_trans: "spared q s t \<Longrightarrow> spared q t u \<Longrightarrow> spared q s u"
  unfolding spared_def by metis

lemma mayUse_cases: "mayUse s q m \<longleftrightarrow> godTier (mb_role m) \<or> q \<in> set (permissionsFor s m)"
  by (simp add: mayUse_def hasEffectivePermission_def)

lemma mayUse_cong:
  "roles s = roles s' \<Longrightarrow> mb_role m = mb_role m' \<Longrightarrow> mb_roleId m = mb_roleId m' \<Longrightarrow> mayUse s q m = mayUse s' q m'"
  by (simp add: mayUse_cases permissionsFor_def roleRef_def cong: option.case_cong)

lemma mayUse_plain: "mb_role m = PlainMember \<Longrightarrow> \<not> mayUse s q m"
  by (simp add: mayUse_cases permissionsFor_def roleControls_def godTier_def)

lemma rows_same: "map f ys = map f xs \<Longrightarrow> y \<in> set ys \<Longrightarrow> \<exists>x \<in> set xs. f x = f y"
proof -
  assume a: "map f ys = map f xs" "y \<in> set ys"
  from a(2) have "f y \<in> set (map f ys)" by simp
  then show ?thesis unfolding a(1) by auto
qed

lemma sameMembers_spared: "sameMembers s s' \<Longrightarrow> spared q s s'"
  unfolding spared_def
proof (intro ballI impI)
  fix m' assume a: "sameMembers s s'" "m' \<in> set (memberships s')" "mayUse s' q m'"
  then obtain m where m: "m \<in> set (memberships s)" "memberRow m = memberRow m'"
    using rows_same [of memberRow "memberships s'" "memberships s" m'] by (auto simp: sameMembers_def)
  then have "mayUse s q m = mayUse s' q m'" using a(1) by (intro mayUse_cong) (auto simp: sameMembers_def memberRow_def)
  moreover have "mb_id m = mb_id m'" using m(2) by (simp add: memberRow_def placement_def)
  ultimately show "\<exists>m \<in> set (memberships s). mb_id m = mb_id m' \<and> mayUse s q m" using a(3) m(1) by blast
qed

lemma spared_roles: "memberships s' = memberships s \<Longrightarrow> (\<And>m. m \<in> set (memberships s) \<Longrightarrow> mayUse s' q m \<Longrightarrow> mayUse s q m) \<Longrightarrow> spared q s s'"
  by (auto simp: spared_def)

lemma spared_append:
  "memberships s' = memberships s @ [m] \<Longrightarrow> roles s' = roles s \<Longrightarrow> \<not> mayUse s' q m \<Longrightarrow> spared q s s'"
  unfolding spared_def by (auto simp: mayUse_cong [of s' s])

lemma spared_writeRole:
  assumes "distinct (map mb_id (memberships s))" "m \<in> set (memberships s)" "mb_id m = mid"
    "mayUse s q (m\<lparr>mb_role := r, mb_roleId := i\<rparr>) \<Longrightarrow> mayUse s q m"
  shows "spared q s (writeRole mid r i s)"
  unfolding spared_def
proof (intro ballI impI)
  let ?s' = "writeRole mid r i s"
  fix m' assume a: "m' \<in> set (memberships ?s')" "mayUse ?s' q m'"
  then obtain x where x: "x \<in> set (memberships s)" "m' = (if mb_id x = mid then x\<lparr>mb_role := r, mb_roleId := i\<rparr> else x)"
    by (auto simp: writeRole_def updateWhere_def)
  have use: "mayUse s q m'" using a(2) mayUse_cong [of s ?s' m' m' q] by (simp add: writeRole_def)
  have "mayUse s q x"
  proof (cases "mb_id x = mid")
    case True
    then have "x = m" using same_member [OF assms(1) x(1) assms(2)] assms(3) by simp
    then show ?thesis using x(2) True use assms(4) by simp
  qed (use x(2) use in simp)
  moreover have "mb_id x = mb_id m'" using x(2) by simp
  ultimately show "\<exists>m \<in> set (memberships s). mb_id m = mb_id m' \<and> mayUse s q m" using x(1) by blast
qed

lemma assertGrantable_Inr [simp]: "assertGrantable held requested = Inr u \<longleftrightarrow> set requested \<subseteq> set held"
  by (auto simp: assertGrantable_def require_def filter_empty_conv)

lemma roleOf_found:
  assumes "distinct (map ro_id (roles s))" "r \<in> set (roles s)" "mb_roleId m = Some (ro_id r)"
  shows "roleRef s m = Some r"
proof -
  have "distinct (map ro_id rs) \<Longrightarrow> r \<in> set rs \<Longrightarrow> find (\<lambda>x. ro_id x = ro_id r) rs = Some r" for rs
    by (induction rs) auto
  then show ?thesis using assms by (simp add: roleRef_def)
qed

text \<open>A member put in an assignable tier with the role the tier stands for holds only what was checked.\<close>

lemma tier_covers:
  assumes "distinct (map ro_id (roles s))" "r \<in> set ASSIGNABLE_ROLES" "mb_role m = r"
    "mb_roleId m = ta_roleId (tierRoleAssignmentFor s tenantId r)" "q \<notin> set (ta_permissions (tierRoleAssignmentFor s tenantId r))"
  shows "\<not> mayUse s q m"
proof (cases "r = PlainMember")
  case True
  then show ?thesis using assms(3) by (simp add: mayUse_plain)
next
  case False
  then obtain key where key: "tierToSystemRole r = Some key" "\<not> godTier r" "roleControls r"
    using assms(2) by (auto simp: ASSIGNABLE_ROLES_def godTier_def roleControls_def)
  show ?thesis
  proof (cases "roleOfKey s tenantId key")
    case None
    then show ?thesis using assms False key by (simp add: tierRoleAssignmentFor_def mayUse_cases permissionsFor_def roleRef_def)
  next
    case (Some x)
    then have "x \<in> set (roles s)" by (auto simp: roleOfKey_def dest: find_SomeD)
    then have "roleRef s m = Some x" using Some assms False key by (intro roleOf_found) (simp_all add: tierRoleAssignmentFor_def)
    then show ?thesis using Some assms False key by (simp add: tierRoleAssignmentFor_def mayUse_cases permissionsFor_def)
  qed
qed

section \<open>The two relations, operation by operation\<close>

lemma placements_same: "sameMembers s s' \<Longrightarrow> map placement (memberships s') = map placement (memberships s)"
  unfolding sameMembers_def memberRow_def by (metis (no_types, lifting) fst_conv list.map_comp map_eq_conv comp_apply)

lemma ids_of_placements: "map placement xs = map placement ys \<Longrightarrow> map mb_id xs = map mb_id ys"
  by (metis (no_types, lifting) comp_apply fst_conv list.map_comp map_eq_conv placement_def)

lemma keyed_placements: "map placement (memberships s') = map placement (memberships s) \<Longrightarrow> roles s' = roles s \<Longrightarrow> keyed s' = keyed s"
  using ids_of_placements by (metis keyed_def)

lemma treeOk_placements:
  assumes "map placement (memberships s') = map placement (memberships s)" "treeOk s"
  shows "treeOk s'" "treeGrows s s'"
  using assms by (simp_all add: treeOk_rows treeGrows_def del: set_map)

lemma treeGrows_trans: "treeGrows s t \<Longrightarrow> treeGrows t u \<Longrightarrow> treeGrows s u"
  by (auto simp: treeGrows_def)

lemma treeOk_append:
  assumes "treeOk s" "memberships s' = memberships s @ [m]" "mb_id m \<notin> mb_id ` set (memberships s)" "placed (memberships s') m"
  shows "treeOk s'" "treeGrows s s'"
proof -
  have "placed (memberships s') x" if "x \<in> set (memberships s)" for x
    using that assms(1,2) by (auto simp: treeOk_def placed_def split: option.splits)
  then show "treeOk s'" using assms by (auto simp: treeOk_def)
  show "treeGrows s s'" using assms(2) by (simp add: treeGrows_def)
qed

lemma writeRole_frames [simp]:
  "map placement (memberships (writeRole mid r i s)) = map placement (memberships s)" "roles (writeRole mid r i s) = roles s"
  by (simp_all add: writeRole_def updateWhere_def placement_def)

lemma spared_cong: "memberships t' = memberships t \<Longrightarrow> roles t' = roles t \<Longrightarrow> spared q s t' = spared q s t"
  unfolding spared_def using mayUse_cong [of t' t] by simp

lemma setRole_cases:
  assumes "setRole ctx E a mid r own authority assignment s = Inr s'"
  obtains au m where "(case authority of Some x \<Rightarrow> Inr x | None \<Rightarrow> resolveRoleChangeAuthority a own s) = Inr au"
    "memberInTenant s (ac_tenantId a) mid = Inr m" "mb_role m \<noteq> TenantOwner" "ra_membershipId au \<noteq> Some mid" "r \<in> set ASSIGNABLE_ROLES"
    "set (ta_permissions (case assignment of Some x \<Rightarrow> x | None \<Rightarrow> tierRoleAssignmentFor s (ac_tenantId a) r)) \<subseteq> set (ra_permissions au)"
    "memberships s' = memberships (writeRole mid r
       (ta_roleId (case assignment of Some x \<Rightarrow> x | None \<Rightarrow> tierRoleAssignmentFor s (ac_tenantId a) r)) s)" "roles s' = roles s"
proof -
  obtain au where au: "(case authority of Some x \<Rightarrow> Inr x | None \<Rightarrow> resolveRoleChangeAuthority a own s) = Inr au"
    using assms by (auto simp: setRole_def)
  obtain m where m: "memberInTenant s (ac_tenantId a) mid = Inr m" using assms au by (auto simp: setRole_def Let_def)
  then have id: "mb_id m = mid" by (auto simp: memberInTenant_def dest: find_SomeD)
  show ?thesis by (rule that [OF au]) (use assms au m id in \<open>auto simp: setRole_def Let_def assertRoleChangeAllowed_def\<close>)
qed

lemma tierRoleAssignmentFor_roles: "roles s = roles t \<Longrightarrow> tierRoleAssignmentFor s = tierRoleAssignmentFor t"
  by (intro ext) (simp add: tierRoleAssignmentFor_def roleOfKey_def cong: option.case_cong)

lemma setRole_step:
  assumes "setRole ctx E a mid r own authority assignment s = Inr s'" "(case authority of Some x \<Rightarrow> Inr x | None \<Rightarrow> resolveRoleChangeAuthority a own s) = Inr au"
    "assignment = None \<or> assignment = Some (tierRoleAssignmentFor s (ac_tenantId a) r)"
    "q \<notin> set (ra_permissions au)" "keyed s"
  shows "keyed s' \<and> spared q s s' \<and> map placement (memberships s') = map placement (memberships s) \<and> roles s' = roles s"
proof -
  let ?t = "tierRoleAssignmentFor s (ac_tenantId a) r"
  obtain au' m where c: "(case authority of Some x \<Rightarrow> Inr x | None \<Rightarrow> resolveRoleChangeAuthority a own s) = Inr au'"
    "memberInTenant s (ac_tenantId a) mid = Inr m" "r \<in> set ASSIGNABLE_ROLES"
    "set (ta_permissions (case assignment of Some x \<Rightarrow> x | None \<Rightarrow> ?t)) \<subseteq> set (ra_permissions au')"
    "memberships s' = memberships (writeRole mid r (ta_roleId (case assignment of Some x \<Rightarrow> x | None \<Rightarrow> ?t)) s)" "roles s' = roles s"
    using assms(1) by (rule setRole_cases)
  have t: "(case assignment of Some x \<Rightarrow> x | None \<Rightarrow> ?t) = ?t" using assms(3) by auto
  have "au' = au" using c(1) assms(2) by simp
  then have q: "q \<notin> set (ta_permissions ?t)" using c(4) assms(4) t by auto
  have m: "m \<in> set (memberships s)" "mb_id m = mid" using c(2) by (auto simp: memberInTenant_def dest: find_SomeD)
  have "\<not> mayUse s q (m\<lparr>mb_role := r, mb_roleId := ta_roleId ?t\<rparr>)"
    using assms(5) c(3) q by (intro tier_covers [where tenantId = "ac_tenantId a"]) (simp_all add: keyed_def)
  then have "spared q s (writeRole mid r (ta_roleId ?t) s)"
    using assms(5) m by (intro spared_writeRole [where m = m]) (auto simp: keyed_def)
  then have "spared q s s'" using c(5,6) t spared_cong [of s' "writeRole mid r (ta_roleId ?t) s" q s] by simp
  then show ?thesis using c(5,6) t assms(5) keyed_placements [of s' s] by simp
qed

lemma applyMember_roles:
  assumes "mk_action b = SetRole" "q \<notin> set (ra_permissions au)" "keyed s" "mk_role b = Some r"
    "assignment = Some (tierRoleAssignmentFor s (ac_tenantId a) r)"
  shows "keyed (snd (snd (fold (applyMember dbMessage ctx E a b (Some au) assignment own) ids (n, failed, s)))) \<and>
    spared q s (snd (snd (fold (applyMember dbMessage ctx E a b (Some au) assignment own) ids (n, failed, s)))) \<and>
    map placement (memberships (snd (snd (fold (applyMember dbMessage ctx E a b (Some au) assignment own) ids (n, failed, s))))) =
      map placement (memberships s)"
  using assms
proof (induction ids arbitrary: n failed s)
  case (Cons i ids)
  show ?case
  proof (cases "setRole ctx E a i r own (Some au) assignment s")
    case (Inl e)
    then show ?thesis using Cons.IH [OF Cons.prems, of n "failed @ [(i, errorMessage dbMessage e)]"] Cons.prems(1,4)
      by (simp add: applyMember_def)
  next
    case (Inr t)
    have o: "keyed t" "spared q s t" "map placement (memberships t) = map placement (memberships s)" "roles t = roles s"
      using setRole_step [OF Inr, of au q] Cons.prems(2,3,5) by auto
    then have "assignment = Some (tierRoleAssignmentFor t (ac_tenantId a) r)"
      using Cons.prems(5) tierRoleAssignmentFor_roles [OF o(4)] by simp
    note ih = Cons.IH [OF Cons.prems(1,2) o(1) Cons.prems(4) this, of "Suc n" failed]
    show ?thesis using ih o(2,3) Inr Cons.prems(1,4) by (auto simp: applyMember_def intro: spared_trans)
  qed
qed simp

lemma applyMember_status:
  assumes "mk_action b \<noteq> SetRole"
  shows "sameMembers s (snd (snd (fold (applyMember dbMessage ctx E a b authority assignment own) ids (n, failed, s))))"
proof (induction ids arbitrary: n failed s)
  case (Cons i ids)
  show ?case
  proof (cases "setStatus ctx E a i (targetStatus (mk_action b)) s")
    case (Inr t)
    then show ?thesis using Cons.IH [of t "Suc n" failed] setStatus_same [OF Inr] assms
      by (auto simp: applyMember_def intro: sameMembers_trans)
  qed (use Cons.IH assms in \<open>simp add: applyMember_def\<close>)
qed simp

lemma bulkMembers_roles:
  assumes "bulkMembers dbMessage ctx E a b own s = Inr (ans, s')" "mk_action b = SetRole" "resolveRoleChangeAuthority a own s = Inr au"
    "q \<notin> set (ra_permissions au)" "keyed s"
  shows "keyed s' \<and> spared q s s' \<and> map placement (memberships s') = map placement (memberships s)"
proof -
  obtain r where r: "mk_role b = Some r" using assms(1,2) by (cases "mk_role b") (auto simp: bulkMembers_def)
  show ?thesis
  proof (cases "mk_preview b")
    case True
    then show ?thesis using assms r by (auto simp: bulkMembers_def Let_def)
  next
    case False
    let ?w = "fold (applyMember dbMessage ctx E a b (Some au) (Some (tierRoleAssignmentFor s (ac_tenantId a) r)) own) (mk_ids b) (0, [], s)"
    have "s' = snd (snd ?w)" using assms(1-3) False r by (auto simp: bulkMembers_def Let_def split: prod.splits)
    then show ?thesis using applyMember_roles [OF assms(2,4,5) r refl] by simp
  qed
qed

lemma bulkMembers_status:
  assumes "bulkMembers dbMessage ctx E a b own s = Inr (ans, s')" "mk_action b \<noteq> SetRole"
  shows "sameMembers s s'"
proof (cases "mk_preview b")
  case False
  let ?w = "fold (applyMember dbMessage ctx E a b None None own) (mk_ids b) (0, [], s)"
  have "s' = snd (snd ?w)" using assms False by (auto simp: bulkMembers_def Let_def split: prod.splits)
  then show ?thesis using applyMember_status [OF assms(2)] by simp
qed (use assms in \<open>auto simp: bulkMembers_def Let_def\<close>)

text \<open>An assignment checks what the member will hold: the tier's defaults and the role's permissions.\<close>

lemma roleOfTenant_D: "roleOfTenant s t i = Some r \<Longrightarrow> r \<in> set (roles s) \<and> ro_id r = i"
  by (auto simp: roleOfTenant_def dest: find_SomeD)

lemma assignRole_cases:
  assumes "assignRole ctx a mid i A own s = Inr s'"
  obtains m nt rid where "m \<in> set (memberships s)" "mb_id m = mid" "nt = (case as_tier i of Some t \<Rightarrow> t | None \<Rightarrow> mb_role m)"
    "rid = nextRoleIdOf s (ac_tenantId a) nt i"
    "as_tier i \<noteq> None \<or> as_roleId i \<noteq> None \<longrightarrow> (\<exists>ps. effectiveAssignmentPermissions s (ac_tenantId a) nt rid
       (map_option ro_permissions (roleRef s m)) = Inr ps \<and> set ps \<subseteq> set A)"
    "memberships s' = memberships (writeRole mid nt (case rid of None \<Rightarrow> mb_roleId m | Some x \<Rightarrow> x) s)" "roles s' = roles s"
proof -
  obtain m where m: "find (\<lambda>m. mb_id m = mid \<and> mb_tenantId m = ac_tenantId a) (memberships s) = Some m"
    using assms by (auto simp: assignRole_def)
  then have "m \<in> set (memberships s)" "mb_id m = mid" by (auto dest: find_SomeD)
  then show ?thesis by (rule that [OF _ _ refl refl]) (use assms m in \<open>auto simp: assignRole_def Let_def rbacAudit_def split: if_splits\<close>)
qed

lemma assignRole_step:
  assumes "assignRole ctx a mid i A own s = Inr s'" "q \<notin> set A" "q \<in> set ALL_PERMISSIONS" "keyed s"
  shows "keyed s' \<and> spared q s s' \<and> map placement (memberships s') = map placement (memberships s)"
proof -
  obtain m nt rid where c: "m \<in> set (memberships s)" "mb_id m = mid" "nt = (case as_tier i of Some t \<Rightarrow> t | None \<Rightarrow> mb_role m)"
    "rid = nextRoleIdOf s (ac_tenantId a) nt i"
    "as_tier i \<noteq> None \<or> as_roleId i \<noteq> None \<longrightarrow> (\<exists>ps. effectiveAssignmentPermissions s (ac_tenantId a) nt rid
       (map_option ro_permissions (roleRef s m)) = Inr ps \<and> set ps \<subseteq> set A)"
    "memberships s' = memberships (writeRole mid nt (case rid of None \<Rightarrow> mb_roleId m | Some x \<Rightarrow> x) s)" "roles s' = roles s"
    using assms(1) by (rule assignRole_cases)
  let ?rid = "case rid of None \<Rightarrow> mb_roleId m | Some x \<Rightarrow> x"
  let ?m = "m\<lparr>mb_role := nt, mb_roleId := ?rid\<rparr>"
  have "mayUse s q m" if use: "mayUse s q ?m"
  proof (cases "as_tier i \<noteq> None \<or> as_roleId i \<noteq> None")
    case False
    then have "?m = m \<or> nt = PlainMember" using c(3,4) by (auto simp: nextRoleIdOf_def)
    then show ?thesis using use mayUse_plain [of ?m] by auto
  next
    case True
    then obtain ps where ps: "effectiveAssignmentPermissions s (ac_tenantId a) nt rid (map_option ro_permissions (roleRef s m)) = Inr ps"
      "q \<notin> set ps" using c(5) assms(2) by auto
    have "nt \<noteq> PlainMember" using use mayUse_plain [of ?m] by auto
    moreover then have d: "q \<notin> set (defaultPermissionsForTier nt)"
      using ps by (auto simp: effectiveAssignmentPermissions_def split: option.splits)
    moreover then have "\<not> godTier nt" using assms(3) by (auto simp: godTier_def)
    ultimately have nt: "nt = TenantAdmin \<or> nt = TenantStaff" by (cases nt) (auto simp: godTier_def)
    then have "q \<in> set (permissionsFor s ?m)" using use by (auto simp: mayUse_cases godTier_def)
    then obtain r where r: "roleRef s ?m = Some r" "q \<in> set (ro_permissions r)"
      using d nt by (auto simp: permissionsFor_def roleControls_def split: option.splits)
    have "rid \<noteq> None" using True nt c(4) by (auto simp: nextRoleIdOf_def)
    then obtain j where j: "rid = Some (Some j)" using r(1) by (cases rid; cases "the rid") (auto simp: roleRef_def)
    then obtain x where x: "roleOfTenant s (ac_tenantId a) j = Some x" "q \<notin> set (ro_permissions x)"
      using ps nt by (auto simp: effectiveAssignmentPermissions_def split: option.splits)
    then have "roleRef s ?m = Some x" using roleOfTenant_D [OF x(1)] j assms(4) by (intro roleOf_found) (auto simp: keyed_def)
    then show ?thesis using r x(2) by simp
  qed
  then have "spared q s (writeRole mid nt ?rid s)"
    using assms(4) c(1,2) by (intro spared_writeRole [where m = m]) (auto simp: keyed_def)
  then have "spared q s s'" using c(6,7) spared_cong [of s' "writeRole mid nt ?rid s" q s] by simp
  then show ?thesis using c(6,7) assms(4) keyed_placements [of s' s] by simp
qed

text \<open>The rows of the roles themselves.\<close>

lemma mayUse_roles:
  assumes "mayUse s' q m" "\<And>r'. roleRef s' m = Some r' \<Longrightarrow> q \<in> set (ro_permissions r') \<Longrightarrow>
      \<exists>r. roleRef s m = Some r \<and> q \<in> set (ro_permissions r)" "roleRef s' m = None \<Longrightarrow> roleRef s m = None"
  shows "mayUse s q m"
  using assms by (cases "roleRef s' m") (auto simp: mayUse_cases permissionsFor_def split: if_splits)

lemma createRole_step:
  assumes "createRole ctx a i A s = Inr (r, s')" "q \<notin> set A" "keyed s"
  shows "keyed s' \<and> spared q s s' \<and> memberships s' = memberships s"
proof -
  have c: "roles s' = roles s @ [r]" "memberships s' = memberships s" "q \<notin> set (ro_permissions r)" "ro_id r \<notin> ro_id ` set (roles s)"
    using assms(1,2) by (auto simp: createRole_def Let_def rbacAudit_def drawId_def list_ex_iff)
  have "mayUse s q m" if "mayUse s' q m" for m
    using that
  proof (rule mayUse_roles)
    show "roleRef s' m = Some r' \<Longrightarrow> q \<in> set (ro_permissions r') \<Longrightarrow> \<exists>r. roleRef s m = Some r \<and> q \<in> set (ro_permissions r)" for r'
      using c(1,3) by (cases "mb_roleId m") (auto simp: roleRef_def find_append split: option.splits if_splits)
    show "roleRef s' m = None \<Longrightarrow> roleRef s m = None"
      using c(1) by (cases "mb_roleId m") (auto simp: roleRef_def find_append split: option.splits)
  qed
  then show ?thesis using c assms(3) spared_roles [of s' s q] by (auto simp: keyed_def)
qed

lemma updateRole_step:
  assumes "updateRole ctx a roleId p A s = Inr (r, s')" "q \<notin> set A" "keyed s"
  shows "keyed s' \<and> spared q s s' \<and> memberships s' = memberships s"
proof -
  have c: "roles s' = updateWhere (\<lambda>x. ro_id x = roleId) (patchRole p) (roles s)" "memberships s' = memberships s"
    "rp_permissions p = None \<or> (\<exists>ps. rp_permissions p = Some ps \<and> q \<notin> set ps)"
    using assms(1,2) by (auto simp: updateRole_def Let_def rbacAudit_def split: option.splits)
  have id: "ro_id (patchRole p x) = ro_id x" for x by (simp add: patchRole_def)
  have f: "find (\<lambda>x. ro_id x = j) (updateWhere (\<lambda>x. ro_id x = roleId) (patchRole p) rs) =
      map_option (\<lambda>x. if ro_id x = roleId then patchRole p x else x) (find (\<lambda>x. ro_id x = j) rs)" for j rs
    by (induction rs) (auto simp: updateWhere_def id)
  have "mayUse s q m" if "mayUse s' q m" for m
    using that
  proof (rule mayUse_roles)
    show "roleRef s' m = Some r' \<Longrightarrow> q \<in> set (ro_permissions r') \<Longrightarrow> \<exists>r. roleRef s m = Some r \<and> q \<in> set (ro_permissions r)" for r'
      using c(1,3) by (cases "mb_roleId m") (auto simp: roleRef_def f patchRole_def split: if_splits option.splits)
    show "roleRef s' m = None \<Longrightarrow> roleRef s m = None" using c(1) by (cases "mb_roleId m") (auto simp: roleRef_def f)
  qed
  moreover have "map ro_id (roles s') = map ro_id (roles s)" using c(1) by (simp add: updateWhere_def id)
  ultimately show ?thesis using c(2) assms(3) spared_roles [of s' s q] by (auto simp: keyed_def)
qed

lemma find_filter_kept: "(\<And>x. P x \<Longrightarrow> Q x) \<Longrightarrow> find P (filter Q xs) = find P xs"
  by (induction xs) auto

lemma deleteRole_step:
  assumes "deleteRole ctx a roleId s = Inr s'" "keyed s"
  shows "keyed s' \<and> spared q s s' \<and> memberships s' = memberships s"
proof -
  have c: "roles s' = filter (\<lambda>x. ro_id x \<noteq> roleId) (roles s)" "memberships s' = memberships s"
    "\<forall>m \<in> set (memberships s). mb_roleId m \<noteq> Some roleId"
    using assms(1) by (auto simp: deleteRole_def rbacAudit_def countWhere_def filter_empty_conv)
  have "mayUse s q m" if "mayUse s' q m" "m \<in> set (memberships s)" for m
  proof -
    have "roleRef s' m = roleRef s m"
      using c(1,3) that(2) find_filter_kept [of "\<lambda>x. ro_id x = the (mb_roleId m)" "\<lambda>x. ro_id x \<noteq> roleId" "roles s"]
      by (cases "mb_roleId m") (auto simp: roleRef_def)
    then show ?thesis using that(1) by (auto simp: mayUse_cases permissionsFor_def)
  qed
  then show ?thesis using c(1,2) assms(2) spared_roles [of s' s q] by (auto simp: keyed_def distinct_map inj_on_def)
qed

text \<open>Joining.\<close>

lemma createUser_frames: "createUser email name s = Inr (u, s') \<Longrightarrow> memberships s' = memberships s \<and> roles s' = roles s"
  by (auto simp: createUser_def drawId_def Let_def)

lemma joins_of:
  assumes "joinByInvite E codes u i inviter tenant consent g s = Inr (m, s')" "\<And>x. memberRow (g x) = memberRow x"
    "inviter \<in> set (memberships s)"
  shows "joins s s'"
proof -
  have g: "mb_id (g x) = mb_id x" "mb_tenantId (g x) = mb_tenantId x" "mb_sponsorMembershipId (g x) = mb_sponsorMembershipId x"
    "mb_path (g x) = mb_path x" "mb_depth (g x) = mb_depth x" "mb_role (g x) = mb_role x" for x
    using assms(2) [of x] by (auto simp: memberRow_def placement_def)
  note j = joinByInvite_Inr [OF assms(1) g(1)]
  show ?thesis unfolding joins_def
    using j assms(3) violatedIndex_id [OF j(3)]
    by (intro exI [of _ "g m"] exI [of _ inviter]) (simp add: g newMember_def)
qed

lemma joins_after: "memberships t = memberships s \<Longrightarrow> roles t = roles s \<Longrightarrow> joins t u \<Longrightarrow> memberships v = memberships u \<Longrightarrow>
   roles v = roles u \<Longrightarrow> joins s v"
  by (simp add: joins_def)

lemma lockedInvite_inviter: "lockedInvite k s = Inr (i, inviter, tenant) \<Longrightarrow> inviter \<in> set (memberships s)"
  by (auto simp: lockedInvite_def findMembership_def dest: find_SomeD)

lemma registerInTransaction_joins:
  assumes "registerInTransaction E codes pw fp vp ri s = Inr (out, s')"
  shows "sameMembers s s' \<or> joins s s'"
proof -
  let ?g = "noteRegistration E (ri_ip ri)"
  obtain k email known i inviter tenant consent u s1 where l: "lockedInvite k s = Inr (i, inviter, tenant)"
    and us: "(case known of Some u \<Rightarrow> Inr (u, s) | None \<Rightarrow> createUser email (ri_fullName ri) s) = Inr (u, s1)"
    and r: "(if known \<noteq> None \<and> us_totpEnabledAt u \<noteq> None then Inr (MfaRequired (iv_id i) (us_id u) consent, s1)
        else andThen (joinByInvite E codes u i inviter tenant consent ?g s1) (\<lambda>(m, s2).
             let s3 = (if known = None then createNotification (iv_tenantId i) (mb_id m) ChEmail ''verify_email'' vp s2 else s2)
             in Inr (Joined m (known = None), joinAudit i u m (fp (ri_ip ri)) s3))) = Inr (out, s')"
    using assms unfolding registerInTransaction_def Let_def by auto
  have s1: "memberships s1 = memberships s" "roles s1 = roles s" using us createUser_frames by (auto split: option.splits)
  have g: "memberRow (?g x) = memberRow x" for x by (simp add: memberRow_def placement_def noteRegistration_def)
  show ?thesis
  proof (cases "known \<noteq> None \<and> us_totpEnabledAt u \<noteq> None")
    case True
    then show ?thesis using r s1 by (auto intro: sameMembers_frame)
  next
    case False
    then obtain m s2 where j: "joinByInvite E codes u i inviter tenant consent ?g s1 = Inr (m, s2)"
      and f: "memberships s' = memberships s2" "roles s' = roles s2"
      using r by (auto simp: Let_def joinAudit_def createNotification_def drawId_def split: if_splits)
    have "joins s1 s2" using lockedInvite_inviter [OF l] s1(1) by (intro joins_of [OF j g]) simp
    then show ?thesis using joins_after [OF s1] f by blast
  qed
qed

lemma registerByInvite_joins:
  assumes "registerByInvite E codes pw fp vp ri s = (out, s')"
  shows "sameMembers s s' \<or> joins s s'"
proof -
  have "memberships s' = memberships s \<and> roles s' = roles s \<or> (\<exists>o1. registerInTransaction E codes pw fp vp ri s = Inr (o1, s'))"
    using assms by (auto simp: registerByInvite_def split: option.splits sum.splits)
  then show ?thesis using registerInTransaction_joins sameMembers_frame by blast
qed

lemma accept_joins:
  assumes "completePendingInviteAcceptance E codes fp pa u s = Inr (m, pa', s')"
  shows "joins s s'"
proof -
  obtain k i inviter tenant consent s1 where l: "lockedInvite k s = Inr (i, inviter, tenant)"
    and j: "joinByInvite E codes u i inviter tenant consent (\<lambda>m. m) s = Inr (m, s1)" and "s' = joinAudit i u m fp s1"
    using assms unfolding completePendingInviteAcceptance_def by auto
  moreover have "joins s s1" using lockedInvite_inviter [OF l] by (intro joins_of [OF j]) simp_all
  ultimately show ?thesis using joins_after [of s s s1 s'] by (simp add: joinAudit_def)
qed

lemma joins_step:
  assumes "joins s s'"
  shows "keyed s \<Longrightarrow> keyed s'" "spared q s s'" "treeOk s \<Longrightarrow> treeOk s'" "treeGrows s s'"
proof -
  obtain m sp where m: "memberships s' = memberships s @ [m]" "roles s' = roles s" "mb_role m = PlainMember"
    "mb_id m \<notin> mb_id ` set (memberships s)" "sp \<in> set (memberships s)" "mb_tenantId sp = mb_tenantId m"
    "mb_sponsorMembershipId m = Some (mb_id sp)" "mb_path m = mb_path sp @ [mb_id m]" "mb_depth m = mb_depth sp + 1"
    using assms by (auto simp: joins_def)
  show "keyed s \<Longrightarrow> keyed s'" using m(1,2,4) by (auto simp: keyed_def)
  show "spared q s s'" by (rule spared_append [OF m(1,2) mayUse_plain [OF m(3)]])
  show "treeGrows s s'" using m(1) by (simp add: treeGrows_def)
  assume ok: "treeOk s"
  have "placed (memberships s') m" using m placedD(1) [OF ok m(5)] by (auto simp: placed_def)
  then show "treeOk s'" by (rule treeOk_append(1) [OF ok m(1,4)])
qed

text \<open>Placing by hand: one member, at the end, with the role its tier stands for.\<close>

lemma manualUser_frames: "manualUser E t i s = Inr (u, b, s') \<Longrightarrow> memberships s' = memberships s \<and> roles s' = roles s"
  by (auto simp: manualUser_def Let_def dest!: createUser_frames split: option.splits)

lemma createManual_cases:
  assumes "createManual E codes a own i s = Inr (m0, s')"
  obtains m sponsor where "memberships s' = memberships s @ [m]" "roles s' = roles s" "mb_id m \<notin> mb_id ` set (memberships s)"
    "mb_role m = manualRole i" "mb_roleId m = ta_roleId (tierRoleAssignmentFor s (ac_tenantId a) (manualRole i))"
    "manualRole i \<noteq> PlainMember \<longrightarrow> (\<exists>au. resolveRoleChangeAuthority a (Some own) s = Inr au \<and>
       set (ta_permissions (tierRoleAssignmentFor s (ac_tenantId a) (manualRole i))) \<subseteq> set (ra_permissions au))"
    "case sponsor of None \<Rightarrow> mb_sponsorMembershipId m = None \<and> mb_path m = [mb_id m] \<and> mb_depth m = 0
     | Some sp \<Rightarrow> sp \<in> set (memberships s) \<and> mb_tenantId sp = mb_tenantId m \<and> mb_sponsorMembershipId m = Some (mb_id sp) \<and>
         mb_path m = mb_path sp @ [mb_id m] \<and> mb_depth m = mb_depth sp + 1"
proof -
  let ?t = "tierRoleAssignmentFor s (ac_tenantId a) (manualRole i)"
  obtain sponsor u newUser s1 m s2 where g: "manualGrantable a own i s = Inr ()" and p: "manualSponsor (ac_tenantId a) own i s = Inr sponsor"
    and u: "manualUser E (ac_tenantId a) i s = Inr (u, newUser, s1)"
    and c: "(case sponsor of None \<Rightarrow> createRoot E codes (ac_tenantId a) (us_id u) (manualRole i) True s1
             | Some sp \<Rightarrow> createUnder E codes (ac_tenantId a) (us_id u) sp (manualRole i) s1) = Inr (m, s2)"
    and s': "memberships s' = memberships (if mb_roleId m = ta_roleId ?t then s2 else writeRole (mb_id m) (mb_role m) (ta_roleId ?t) s2)"
      "roles s' = roles s2"
    using assms unfolding createManual_def Let_def by auto
  have au: "manualRole i \<noteq> PlainMember \<longrightarrow> (\<exists>au. resolveRoleChangeAuthority a (Some own) s = Inr au \<and>
       set (ta_permissions ?t) \<subseteq> set (ra_permissions au))"
    using g by (auto simp: manualGrantable_def)
  have sp: "case sponsor of None \<Rightarrow> True | Some sp \<Rightarrow> sp \<in> set (memberships s)"
    using p by (auto simp: manualSponsor_def findMembership_def split: if_splits dest: find_SomeD)
  have s1: "memberships s1 = memberships s" "roles s1 = roles s" using manualUser_frames [OF u] by simp_all
  have m: "violatedIndex m (memberships s) = None \<and> memberships s2 = memberships s @ [m] \<and> roles s2 = roles s \<and>
      mb_role m = manualRole i \<and> mb_roleId m = None \<and>
      (case sponsor of None \<Rightarrow> mb_sponsorMembershipId m = None \<and> mb_path m = [mb_id m] \<and> mb_depth m = 0
       | Some sp \<Rightarrow> sp \<in> set (memberships s) \<and> mb_tenantId sp = mb_tenantId m \<and> mb_sponsorMembershipId m = Some (mb_id sp) \<and>
           mb_path m = mb_path sp @ [mb_id m] \<and> mb_depth m = mb_depth sp + 1)"
  proof (cases sponsor)
    case None
    then have "createRoot E codes (ac_tenantId a) (us_id u) (manualRole i) True s1 = Inr (m, s2)" using c by simp
    note r = createRoot_Inr [OF this]
    have "mb_role m = manualRole i" "mb_roleId m = None" "mb_sponsorMembershipId m = None" "mb_path m = [mb_id m]" "mb_depth m = 0"
      by (simp_all add: r(1) newMember_def)
    then show ?thesis using r(2,3) s1 None by (simp add: drawId_def)
  next
    case (Some p)
    then have "createUnder E codes (ac_tenantId a) (us_id u) p (manualRole i) s1 = Inr (m, s2)" using c by simp
    note r = createUnder_Inr [OF this]
    have "mb_tenantId m = ac_tenantId a" "mb_role m = manualRole i" "mb_roleId m = None" "mb_sponsorMembershipId m = Some (mb_id p)"
      "mb_path m = mb_path p @ [mb_id m]" "mb_depth m = mb_depth p + 1" by (simp_all add: r(2) newMember_def)
    then show ?thesis using r(1,3,4) s1 Some sp by (simp add: drawId_def)
  qed
  then have new: "mb_id m \<notin> mb_id ` set (memberships s)" by (blast dest: violatedIndex_id)
  let ?m = "m\<lparr>mb_roleId := ta_roleId ?t\<rparr>"
  have "memberships s' = memberships s @ [?m]"
  proof (cases "mb_roleId m = ta_roleId ?t")
    case True
    then have "?m = m" by simp
    then show ?thesis using s'(1) m True by simp
  next
    case False
    then show ?thesis using s'(1) m updateWhere_new [OF new, of "\<lambda>x. x\<lparr>mb_role := mb_role m, mb_roleId := ta_roleId ?t\<rparr>"]
      by (simp add: writeRole_def)
  qed
  then show ?thesis
    by (rule that [of ?m sponsor]) (use s'(2) m new au in \<open>simp_all split: option.splits\<close>)
qed

text \<open>Roles never move anyone.\<close>

lemma setRole_placements:
  "setRole ctx E a mid r own authority assignment s = Inr s' \<Longrightarrow> map placement (memberships s') = map placement (memberships s)"
  by (erule setRole_cases) simp

lemma applyMember_placements:
  "map placement (memberships (snd (snd (fold (applyMember dbMessage ctx E a b authority assignment own) ids (n, failed, s))))) =
     map placement (memberships s)"
proof (induction ids arbitrary: n failed s)
  case (Cons i ids)
  have "map placement (memberships (snd (snd (applyMember dbMessage ctx E a b authority assignment own i (n, failed, s))))) =
      map placement (memberships s)"
    by (auto simp: applyMember_def split: sum.split option.split dest: setRole_placements setStatus_same placements_same)
  then show ?case using Cons.IH by (simp add: prod.case_eq_if) (metis prod.collapse)
qed simp

lemma applyMember_result:
  "fold (applyMember dbMessage ctx E a b authority assignment own) ids (n, failed, s) = (n', failed', s') \<Longrightarrow>
   map placement (memberships s') = map placement (memberships s)"
  using applyMember_placements [of dbMessage ctx E a b authority assignment own ids n failed s] by simp

lemma bulkMembers_placements:
  "bulkMembers dbMessage ctx E a b own s = Inr (ans, s') \<Longrightarrow> map placement (memberships s') = map placement (memberships s)"
  by (auto simp: bulkMembers_def Let_def split: if_splits prod.splits dest: applyMember_result)

lemma assignRole_placements:
  "assignRole ctx a mid i A own s = Inr s' \<Longrightarrow> map placement (memberships s') = map placement (memberships s)"
  by (erule assignRole_cases) simp

lemma role_rows_placements:
  "createRole ctx a ri A s = Inr (r, s') \<Longrightarrow> memberships s' = memberships s"
  "updateRole ctx a roleId p A s = Inr (r, s') \<Longrightarrow> memberships s' = memberships s"
  "deleteRole ctx a roleId s = Inr s' \<Longrightarrow> memberships s' = memberships s"
  by (auto simp: createRole_def updateRole_def deleteRole_def rbacAudit_def drawId_def Let_def)

lemma createManual_tree:
  assumes "createManual E codes a own i s = Inr (m0, s')" "treeOk s"
  shows "treeOk s' \<and> treeGrows s s'"
proof -
  obtain m sponsor where m: "memberships s' = memberships s @ [m]" "mb_id m \<notin> mb_id ` set (memberships s)"
    "case sponsor of None \<Rightarrow> mb_sponsorMembershipId m = None \<and> mb_path m = [mb_id m] \<and> mb_depth m = 0
     | Some sp \<Rightarrow> sp \<in> set (memberships s) \<and> mb_tenantId sp = mb_tenantId m \<and> mb_sponsorMembershipId m = Some (mb_id sp) \<and>
         mb_path m = mb_path sp @ [mb_id m] \<and> mb_depth m = mb_depth sp + 1"
    using assms(1) by (rule createManual_cases)
  have "placed (memberships s') m"
    using m placedD(1) [OF assms(2)] by (auto simp: placed_def split: option.splits)
  then show ?thesis using treeOk_append [OF assms(2) m(1,2)] by simp
qed

lemma memberStep_tree: "memberStep A s s' \<Longrightarrow> treeOk s \<Longrightarrow> treeOk s' \<and> treeGrows s s'"
proof (induction rule: memberStep.induct)
  case (create_role_step ctx a i A s r s')
  then show ?case using role_rows_placements(1) treeOk_placements by metis
next
  case (update_role_step ctx a roleId p A s r s')
  then show ?case using role_rows_placements(2) treeOk_placements by metis
next
  case (delete_role_step ctx a roleId s s')
  then show ?case using role_rows_placements(3) treeOk_placements by metis
next
  case (assign_role_step ctx a mid i A own s s')
  then show ?case using assignRole_placements treeOk_placements by metis
next
  case (set_role_step a own s au ctx E mid r s')
  then show ?case using setRole_placements treeOk_placements by metis
next
  case (bulk_roles_step a own s au dbMessage ctx E b ans s')
  then show ?case using bulkMembers_placements treeOk_placements by metis
next
  case (bulk_status_step dbMessage ctx E a b own s ans s')
  then show ?case using bulkMembers_placements treeOk_placements by metis
next
  case (manual_role_step a own s au E codes i m s')
  then show ?case using createManual_tree by blast
next
  case (manual_member_step E codes a own i s m s')
  then show ?case using createManual_tree by blast
next
  case (register_step E codes pw fp vp ri s out s')
  then show ?case using registerByInvite_joins joins_step(3,4) placements_same treeOk_placements by metis
next
  case (accept_step E codes fp' pa u s m pa' s')
  then show ?case using accept_joins joins_step(3,4) by metis
qed (metis placements_same treeOk_placements setStatus_same setLeader_same updateProfile_same setMessage_same createApiKey_same
    revokeApiKey_same createInvite_same inviteForAdmin_same impersonate_same)+

lemma createManual_spared:
  assumes "createManual E codes a own i s = Inr (m0, s')" "keyed s"
    "\<And>au. resolveRoleChangeAuthority a (Some own) s = Inr au \<Longrightarrow> q \<notin> set (ra_permissions au) \<or> manualRole i = PlainMember"
  shows "keyed s' \<and> spared q s s'"
proof -
  let ?t = "tierRoleAssignmentFor s (ac_tenantId a) (manualRole i)"
  obtain m sponsor where m: "memberships s' = memberships s @ [m]" "roles s' = roles s" "mb_id m \<notin> mb_id ` set (memberships s)"
    "mb_role m = manualRole i" "mb_roleId m = ta_roleId ?t"
    "manualRole i \<noteq> PlainMember \<longrightarrow> (\<exists>au. resolveRoleChangeAuthority a (Some own) s = Inr au \<and>
       set (ta_permissions ?t) \<subseteq> set (ra_permissions au))"
    using assms(1) by (rule createManual_cases)
  have "\<not> mayUse s' q m"
  proof (cases "manualRole i = PlainMember")
    case True
    then show ?thesis using m(4) mayUse_plain by simp
  next
    case False
    then have "q \<notin> set (ta_permissions ?t)" using m(6) assms(3) by blast
    moreover have "manualRole i \<in> set ASSIGNABLE_ROLES" by (auto simp: manualRole_def ASSIGNABLE_ROLES_def split: option.splits)
    ultimately have "\<not> mayUse s q m" using assms(2) m(4,5) by (intro tier_covers [of s "manualRole i"]) (auto simp: keyed_def)
    then show ?thesis using mayUse_cong [of s s' m m q] m(2) by simp
  qed
  then show ?thesis using spared_append [OF m(1,2)] m(1-3) assms(2) by (auto simp: keyed_def)
qed

lemma sameMembers_keyed: "sameMembers s s' \<Longrightarrow> keyed s \<Longrightarrow> keyed s' \<and> spared q s s'"
proof -
  assume a: "sameMembers s s'" "keyed s"
  have "roles s' = roles s" using a(1) by (simp add: sameMembers_def)
  then have "keyed s' = keyed s" by (rule keyed_placements [OF placements_same [OF a(1)]])
  then show ?thesis using a(2) sameMembers_spared [OF a(1)] by simp
qed

lemma memberStep_spared: "memberStep A s s' \<Longrightarrow> q \<notin> set A \<Longrightarrow> q \<in> set ALL_PERMISSIONS \<Longrightarrow> keyed s \<Longrightarrow> keyed s' \<and> spared q s s'"
proof (induction rule: memberStep.induct)
  case (create_role_step ctx a i A s r s')
  then show ?case using createRole_step by blast
next
  case (update_role_step ctx a roleId p A s r s')
  then show ?case using updateRole_step by blast
next
  case (delete_role_step ctx a roleId s s')
  then show ?case using deleteRole_step by blast
next
  case (assign_role_step ctx a mid i A own s s')
  then show ?case using assignRole_step by blast
next
  case (set_role_step a own s au ctx E mid r s')
  then show ?case using setRole_step [of ctx E a mid r own None None s s' au q] by simp
next
  case (bulk_roles_step a own s au dbMessage ctx E b ans s')
  then show ?case using bulkMembers_roles by blast
next
  case (bulk_status_step dbMessage ctx E a b own s ans s')
  then show ?case using bulkMembers_status sameMembers_keyed by blast
next
  case (manual_role_step a own s au E codes i m s')
  then show ?case by (intro createManual_spared [of E codes a own i s m s']) auto
next
  case (manual_member_step E codes a own i s m s')
  then show ?case by (intro createManual_spared [of E codes a own i s m s']) auto
next
  case (register_step E codes pw fp vp ri s out s')
  then show ?case using registerByInvite_joins [OF register_step.hyps] joins_step(1,2) sameMembers_keyed by blast
next
  case (accept_step E codes fp' pa u s m pa' s')
  then show ?case using joins_step(1,2) [OF accept_joins [OF accept_step.hyps]] by blast
qed (rule sameMembers_keyed, erule setStatus_same setLeader_same updateProfile_same setMessage_same createApiKey_same
    revokeApiKey_same createInvite_same inviteForAdmin_same impersonate_same, assumption)+

section \<open>Runs\<close>

definition anyMemberStep :: "db \<Rightarrow> db \<Rightarrow> bool" where
  "anyMemberStep s s' \<longleftrightarrow> (\<exists>A. memberStep A s s')"

text \<open>A step whose actor does not hold \<open>q\<close>.\<close>

definition stepWithout :: "string \<Rightarrow> db \<Rightarrow> db \<Rightarrow> bool" where
  "stepWithout q s s' \<longleftrightarrow> q \<in> set ALL_PERMISSIONS \<and> (\<exists>A. memberStep A s s' \<and> q \<notin> set A)"

interpretation tree: recorded anyMemberStep treeOk treeGrows
proof unfold_locales
  fix s s' t u
  show "anyMemberStep s s' \<Longrightarrow> treeOk s \<Longrightarrow> treeOk s'" using memberStep_tree by (auto simp: anyMemberStep_def)
  show "anyMemberStep s s' \<Longrightarrow> treeOk s \<Longrightarrow> treeGrows s s'" using memberStep_tree by (auto simp: anyMemberStep_def)
  show "treeGrows s s" by (simp add: treeGrows_def)
  show "treeGrows s t \<Longrightarrow> treeGrows t u \<Longrightarrow> treeGrows s u" by (rule treeGrows_trans)
qed

interpretation lacking: recorded "stepWithout q" keyed "spared q" for q
proof unfold_locales
  fix s s' t u
  show "stepWithout q s s' \<Longrightarrow> keyed s \<Longrightarrow> keyed s'" using memberStep_spared by (auto simp: stepWithout_def)
  show "stepWithout q s s' \<Longrightarrow> keyed s \<Longrightarrow> spared q s s'" using memberStep_spared by (auto simp: stepWithout_def)
  show "spared q s s" by simp
  show "spared q s t \<Longrightarrow> spared q t u \<Longrightarrow> spared q s u" by (rule spared_trans)
qed

end
