(* ===== verification/Member_Theorems.thy ===== *)
theory Member_Theorems
  imports Member_Steps Report_Theorems
begin

text \<open>
  Members, roles, invites and the guard: what a run of their operations keeps, and what a request that passes the guard
  may rely on.
\<close>

section \<open>What the guard lets through\<close>

lemma freshWriter_Inr:
  assumes "freshWriter rq u t s = Inr t'"
  shows "tk_sub t' = tk_sub t" "tk_mid t' = tk_mid t" "tk_plat t' = tk_plat t" "tk_imp t' = tk_imp t" "tk_tid t' = tk_tid t"
  using assms by (auto simp: freshWriter_def split: if_splits option.splits)

lemma freshWriter_platform:
  "freshWriter rq (Some y) t s = Inr t' \<Longrightarrow> \<not> rq_isGet rq \<Longrightarrow> tk_mid t = None \<Longrightarrow> tk_tid t = Some tid \<Longrightarrow> tk_plat t \<Longrightarrow>
   tenantIsActive s tid"
  by (simp add: freshWriter_def)

lemma rehydrate_Inr:
  assumes "rehydrate t s = Inr t'"
  shows "tk_sub t' = tk_sub t" "tk_mid t' = tk_mid t" "tk_plat t' = tk_plat t" "tk_imp t' = tk_imp t"
    "tk_mid t = Some mid \<Longrightarrow> \<exists>m \<in> set (memberships s). mb_id m = mid \<and> mb_userId m = tk_sub t \<and> mb_status m = MemberActive \<and>
       tenantIsActive s (mb_tenantId m) \<and> tk_role t' = Some (mb_role m) \<and> tk_perms t' = Some (permissionsFor s m)"
  using assms by (auto simp: rehydrate_def principalMembership_def split: option.splits dest!: find_SomeD)

lemma assured_fields [simp]:
  "tk_sub (assured u t) = tk_sub t" "tk_mid (assured u t) = tk_mid t" "tk_plat (assured u t) = tk_plat t" "tk_imp (assured u t) = tk_imp t"
  "tk_role (assured u t) = tk_role t" "tk_perms (assured u t) = tk_perms t"
  by (simp_all add: assured_def)

lemma guard_sub [simp]: "tk_sub (livePlatform u (forAccount r t)) = tk_sub t"
  by (simp add: livePlatform_def forAccount_def)

lemma livePlatform_user: "tk_plat (livePlatform u t) \<Longrightarrow> isPlatformUser u"
  by (simp add: livePlatform_def split: if_splits)

lemma principalOf_user: "principalOf verify E rq s = Inr (t, Some u) \<Longrightarrow> findUser s (tk_sub t) = Some u"
  by (auto simp: principalOf_def split: if_splits option.splits)

lemma principalOf_bearer: "principalOf verify E rq s = Inr (t, u) \<Longrightarrow> rq_apiKey rq = [] \<Longrightarrow> u \<noteq> None"
  by (auto simp: principalOf_def)

text \<open>The tokens a request goes through on its way.\<close>

lemma canActivate_Inr:
  assumes "canActivate verify mfaRoles E r rq s = Inr (Some p)"
  obtains t u t2 t3 where "principalOf verify E rq s = Inr (t, u)" "freshWriter rq u (livePlatform u (forAccount r t)) s = Inr t2"
    "rt_requireMembership r \<longrightarrow> tk_mid t2 \<noteq> None \<or> actingAsTenant t2" "rehydrate t2 s = Inr t3" "roleAllowed r t3" "p = assured u t3"
    "permissionAllowed r p" "tk_imp (livePlatform u (forAccount r t)) = None \<or> rq_isGet rq"
    "u \<noteq> None \<and> \<not> rt_mfaExempt r \<longrightarrow> enforceMfa mfaRoles p (the u) = Inr ()"
    "rt_platformOnly r \<longrightarrow> isPlatformUser u"
proof -
  obtain t u where pr: "principalOf verify E rq s = Inr (t, u)"
    using assms by (auto simp: canActivate_def split: if_splits)
  obtain t2 where w: "freshWriter rq u (livePlatform u (forAccount r t)) s = Inr t2"
    using assms pr by (auto simp: canActivate_def Let_def split: if_splits)
  obtain t3 where h: "rehydrate t2 s = Inr t3"
    using assms pr w by (auto simp: canActivate_def Let_def split: if_splits)
  show ?thesis
    by (rule that [OF pr w _ h]) (use assms pr w h in \<open>auto simp: canActivate_def Let_def split: if_splits option.splits\<close>)
qed

text \<open>The member a request acts for: live, with the role and every permission the route asks for.\<close>

definition actsAs :: "db \<Rightarrow> route \<Rightarrow> token \<Rightarrow> membership \<Rightarrow> bool" where
  "actsAs s r p m \<longleftrightarrow> m \<in> set (memberships s) \<and> tk_mid p = Some (mb_id m) \<and> mb_userId m = tk_sub p \<and> mb_status m = MemberActive \<and>
     tenantIsActive s (mb_tenantId m) \<and> list_all (\<lambda>q. mayUse s q m) (rt_permissions r) \<and>
     (rt_roles r = [] \<or> mb_role m \<in> set (rt_roles r)) \<and>
     actorPerms p = (if godTier (mb_role m) then ALL_PERMISSIONS else permissionsFor s m)"

definition actsAsPlatform :: "db \<Rightarrow> token \<Rightarrow> bool" where
  "actsAsPlatform s p \<longleftrightarrow> tk_mid p = None \<and> (\<exists>u \<in> set (users s). us_id u = tk_sub p \<and> us_isPlatformAdmin u)"

text \<open>A second factor given for the session, no earlier than the user enrolled the one it has now.\<close>

definition secondFactor :: "db \<Rightarrow> token \<Rightarrow> bool" where
  "secondFactor s p \<longleftrightarrow> (\<exists>u epoch at. findUser s (tk_sub p) = Some u \<and> us_totpEnabledAt u = Some epoch \<and> tk_mfa p \<and>
     tk_mfaEpoch p = Some epoch \<and> tk_mfaAt p = Some at \<and> epoch \<le> at)"

text \<open>
  C15: On a route that requires a membership, whoever passes the guard acts as an active membership of an active business
  whose current rows grant every permission and role the route asks for, or is a platform administrator today, who writes
  only for a business that is active; the claims of the token decide neither.  A platform route is passed by platform
  administrators only.  Where the role, or the platform claim, is configured to need a second factor, one was given in this
  session under the current enrolment; and an impersonation never writes.
\<close>

theorem guard_reads_live_rows:
  assumes "canActivate verify mfaRoles E r rq s = Inr (Some p)" "rt_requireMembership r"
  shows "((\<exists>m. actsAs s r p m) \<or> actsAsPlatform s p \<and>
       (rq_isGet rq \<or> (\<exists>tid. tk_tid p = Some tid \<and> map_option tn_status (findTenant s tid) = Some TenantActive))) \<and>
     (tk_imp p = None \<or> rq_isGet rq) \<and>
     (rt_platformOnly r \<longrightarrow> (\<exists>u. findUser s (tk_sub p) = Some u \<and> us_isPlatformAdmin u)) \<and>
     (rq_apiKey rq \<noteq> [] \<or> rt_mfaExempt r \<or> secondFactor s p \<or>
       tk_role p \<notin> Some ` set mfaRoles \<and> \<not> (tk_plat p \<and> PlatformAdmin \<in> set mfaRoles))"
proof -
  obtain t u t2 t3 where c: "principalOf verify E rq s = Inr (t, u)" "freshWriter rq u (livePlatform u (forAccount r t)) s = Inr t2"
    "rt_requireMembership r \<longrightarrow> tk_mid t2 \<noteq> None \<or> actingAsTenant t2" "rehydrate t2 s = Inr t3" "roleAllowed r t3" "p = assured u t3"
    "permissionAllowed r p" "tk_imp (livePlatform u (forAccount r t)) = None \<or> rq_isGet rq"
    "u \<noteq> None \<and> \<not> rt_mfaExempt r \<longrightarrow> enforceMfa mfaRoles p (the u) = Inr ()"
    "rt_platformOnly r \<longrightarrow> isPlatformUser u"
    using assms(1) by (rule canActivate_Inr)
  note w = freshWriter_Inr [OF c(2)] and h = rehydrate_Inr [OF c(4)]
  have user: "findUser s (tk_sub p) = Some y" if "u = Some y" for y
    using that principalOf_user c(1,6) w(1) h(1) by simp
  have "tk_imp p = None \<or> rq_isGet rq" using c(6,8) w h by auto
  moreover have "rt_platformOnly r \<longrightarrow> (\<exists>u. findUser s (tk_sub p) = Some u \<and> us_isPlatformAdmin u)"
    using c(10) user by (auto simp: isPlatformUser_def split: option.splits)
  moreover have "secondFactor s p"
    if n: "rq_apiKey rq = []" "\<not> rt_mfaExempt r" "tk_role p \<in> Some ` set mfaRoles \<or> tk_plat p \<and> PlatformAdmin \<in> set mfaRoles"
  proof -
    obtain y where y: "u = Some y" using principalOf_bearer [OF c(1) n(1)] by blast
    then have "enforceMfa mfaRoles p y = Inr ()" using c(9) n(2) by simp
    then have "hasCurrentMfaAssurance p (us_totpEnabledAt y)" using n(3) by (auto simp: enforceMfa_def Let_def)
    then show ?thesis using user [OF y] by (auto simp: secondFactor_def hasCurrentMfaAssurance_def split: option.splits)
  qed
  moreover have "(\<exists>m. actsAs s r p m) \<or> actsAsPlatform s p \<and>
       (rq_isGet rq \<or> (\<exists>tid. tk_tid p = Some tid \<and> map_option tn_status (findTenant s tid) = Some TenantActive))"
  proof (cases "tk_mid t2")
    case None
    then have t2: "tk_plat t2" "tk_tid t2 \<noteq> None" using c(3) assms(2) by (auto simp: actingAsTenant_def)
    then have "isPlatformUser u" using w(3) livePlatform_user [of u "forAccount r t"] by simp
    then obtain y where y: "u = Some y" "us_isPlatformAdmin y" by (auto simp: isPlatformUser_def split: option.splits)
    then have "y \<in> set (users s) \<and> us_id y = tk_sub p" using user by (auto simp: findUser_def dest: find_SomeD)
    then have "actsAsPlatform s p" using y(2) None c(6) h(2) by (auto simp: actsAsPlatform_def)
    moreover have "rq_isGet rq \<or> (\<exists>tid. tk_tid p = Some tid \<and> map_option tn_status (findTenant s tid) = Some TenantActive)"
    proof -
      obtain tid where tid: "tk_tid t2 = Some tid" using t2(2) by blast
      have "tk_tid p = Some tid" using tid c(4,6) None by (simp add: rehydrate_def assured_def)
      moreover have "tenantIsActive s tid" if "\<not> rq_isGet rq"
        by (rule freshWriter_platform [OF c(2) [unfolded y(1)] that]) (use y(1) w tid t2(1) None in simp_all)
      ultimately show ?thesis by (auto simp: tenantIsActive_def)
    qed
    ultimately show ?thesis by simp
  next
    case (Some mid)
    then obtain m where m: "m \<in> set (memberships s)" "mb_id m = mid" "mb_userId m = tk_sub t2" "mb_status m = MemberActive"
      "tenantIsActive s (mb_tenantId m)" "tk_role t3 = Some (mb_role m)" "tk_perms t3 = Some (permissionsFor s m)"
      using h(5) by blast
    have "list_all (\<lambda>q. mayUse s q m) (rt_permissions r)"
      using c(6,7) m(6,7) by (auto simp: permissionAllowed_def mayUse_cases list_all_iff)
    moreover have "rt_roles r = [] \<or> mb_role m \<in> set (rt_roles r)" using c(5) m(6) by (auto simp: roleAllowed_def)
    moreover have "actorPerms p = (if godTier (mb_role m) then ALL_PERMISSIONS else permissionsFor s m)"
      using c(6) m(6,7) by (simp add: actorPerms_def)
    ultimately have "actsAs s r p m" using m Some c(6) h(1,2) by (auto simp: actsAs_def)
    then show ?thesis by blast
  qed
  ultimately show ?thesis by blast
qed

definition demo_token :: token where
  "demo_token = \<lparr>tk_sub = 10, tk_mid = Some 10, tk_tid = Some 1, tk_role = Some TenantOwner, tk_perms = Some [''payouts.process''],
     tk_authGeneration = Some 1, tk_mfa = False, tk_mfaAt = None, tk_mfaEpoch = None, tk_plat = False, tk_imp = None\<rparr>"

definition demo_route :: route where
  "demo_route = \<lparr>rt_public = False, rt_requireMembership = True, rt_roles = [PlainMember], rt_platformOnly = False,
     rt_permissions = [], rt_mfaExempt = False, rt_accountSessionOnly = False\<rparr>"

definition demo_request :: request where
  "demo_request = \<lparr>rq_isGet = False, rq_apiKey = [], rq_bearer = Some ''t''\<rparr>"

lemma demo_guard:
  "canActivate (\<lambda>_. Some demo_token) [] demo_env demo_route demo_request demo_db =
     Inr (Some (demo_token\<lparr>tk_role := Some PlainMember, tk_perms := Some []\<rparr>))"
  by code_simp

theorem guard_reads_live_rows_witness:
  "(\<exists>m. actsAs demo_db demo_route (demo_token\<lparr>tk_role := Some PlainMember, tk_perms := Some []\<rparr>) m) \<or>
   actsAsPlatform demo_db (demo_token\<lparr>tk_role := Some PlainMember, tk_perms := Some []\<rparr>)"
proof -
  have "rt_requireMembership demo_route" by (simp add: demo_route_def)
  from guard_reads_live_rows [OF demo_guard this] show ?thesis by blast
qed

lemma reclaimed:
  "t\<lparr>tk_role := x, tk_perms := y, tk_role := a, tk_perms := b\<rparr> = t\<lparr>tk_role := a, tk_perms := b\<rparr>"
  "t\<lparr>tk_role := x, tk_perms := y, tk_role := a\<rparr> = t\<lparr>tk_role := a, tk_perms := y\<rparr>"
  for t :: token
  by (cases t; simp)+

lemma rehydrate_claims: "tk_mid t = Some mid \<Longrightarrow> rehydrate (t\<lparr>tk_role := x, tk_perms := y\<rparr>) s = rehydrate t s"
  by (simp add: rehydrate_def principalMembership_def reclaimed split: option.split)

text \<open>What comes after the credential gives the same answer whatever role and permissions the token claims.\<close>

definition afterPrincipal :: "request \<Rightarrow> route \<Rightarrow> user option \<Rightarrow> (token \<Rightarrow> 'a res) \<Rightarrow> token \<Rightarrow> db \<Rightarrow> 'a res" where
  "afterPrincipal rq r u k t s =
     (let t1 = livePlatform u (forAccount r t)
      in andThen (require (\<not> (tk_imp t1 \<noteq> None \<and> \<not> rq_isGet rq)) (Forbidden ''impersonation oturumu salt-okunurdur'')) (\<lambda>_.
         andThen (freshWriter rq u t1 s) (\<lambda>t2.
         andThen (require (\<not> (rt_requireMembership r \<and> tk_mid t2 = None \<and> \<not> actingAsTenant t2))
           (Forbidden ''aktif uyelik secimi gerekli (switch-tenant)'')) (\<lambda>_.
         andThen (rehydrate t2 s) k))))"

lemma canActivate_after:
  "canActivate verify mfaRoles E r rq s =
     (if rt_public r then Inr None
      else andThen (principalOf verify E rq s) (\<lambda>(t0, u). afterPrincipal rq r u (\<lambda>t3.
           andThen (require (roleAllowed r t3) (Forbidden ''you do not have permission for this action'')) (\<lambda>_.
           andThen (require (\<not> rt_platformOnly r \<or> (tk_plat t3 \<and> isPlatformUser u)) (Forbidden ''platform permission required'')) (\<lambda>_.
           let t4 = assured u t3
           in andThen (case u of Some x \<Rightarrow> if rt_mfaExempt r then Inr () else enforceMfa mfaRoles t4 x | None \<Rightarrow> Inr ()) (\<lambda>_.
              andThen (require (permissionAllowed r t4) (Forbidden ''you do not have permission for this action'')) (\<lambda>_.
              Inr (Some t4)))))) t0 s))"
  by (simp add: canActivate_def afterPrincipal_def Let_def)

lemma afterPrincipal_claims:
  assumes "tk_mid t = Some mid"
  shows "afterPrincipal rq r u k (t\<lparr>tk_role := x, tk_perms := y\<rparr>) s = afterPrincipal rq r u k t s"
proof (cases "rt_accountSessionOnly r")
  case True
  then have "forAccount r (t\<lparr>tk_role := x, tk_perms := y\<rparr>) = forAccount r t" by (simp add: forAccount_def)
  then show ?thesis by (simp add: afterPrincipal_def)
next
  case False
  let ?t = "livePlatform u t"
  have f: "livePlatform u (forAccount r (t\<lparr>tk_role := x, tk_perms := y\<rparr>)) = ?t\<lparr>tk_role := x, tk_perms := y\<rparr>"
    "livePlatform u (forAccount r t) = ?t" using False by (simp_all add: forAccount_def livePlatform_def)
  have m: "tk_mid ?t = Some mid" using assms by (simp add: livePlatform_def)
  have h: "rehydrate (?t\<lparr>tk_role := a, tk_perms := b\<rparr>) s = rehydrate ?t s" "rehydrate (?t\<lparr>tk_role := a\<rparr>) s = rehydrate ?t s" for a b
    using rehydrate_claims [OF m, where x = a and y = b and s = s] rehydrate_claims [OF m, where x = a and y = "tk_perms ?t" and s = s]
    by simp_all
  show ?thesis
  proof (cases "u \<noteq> None \<and> \<not> rq_isGet rq")
    case True
    then show ?thesis using m by (cases "findMembership s mid") (simp_all add: afterPrincipal_def Let_def f freshWriter_def require_def h reclaimed actingAsTenant_def)
  next
    case False
    then have w: "freshWriter rq u ?t s = Inr ?t" "freshWriter rq u (?t\<lparr>tk_role := x, tk_perms := y\<rparr>) s = Inr (?t\<lparr>tk_role := x, tk_perms := y\<rparr>)"
      by (auto simp: freshWriter_def)
    show ?thesis using m by (simp add: afterPrincipal_def Let_def f w h require_def)
  qed
qed

text \<open>
  C33: The role and the permissions a token carries are never believed: of two verifiers that differ in nothing but these
  claims, for sessions that chose a membership, the guard decides every request alike and passes on the same principal.
\<close>

theorem stale_claims_ignored:
  assumes "\<forall>raw. case verify raw of None \<Rightarrow> True | Some t \<Rightarrow> tk_mid t \<noteq> None"
  shows "canActivate (\<lambda>raw. map_option (\<lambda>t. t\<lparr>tk_role := x, tk_perms := y\<rparr>) (verify raw)) mfaRoles E r rq s =
     canActivate verify mfaRoles E r rq s"
proof -
  let ?f = "\<lambda>t. t\<lparr>tk_role := x, tk_perms := y\<rparr>"
  have "andThen (principalOf (\<lambda>raw. map_option ?f (verify raw)) E rq s) (\<lambda>(t, u). afterPrincipal rq r u (k u) t s) =
      andThen (principalOf verify E rq s) (\<lambda>(t, u). afterPrincipal rq r u (k u) t s)" for k :: "user option \<Rightarrow> token \<Rightarrow> token option res"
  proof (cases "rq_apiKey rq = [] \<and> rq_bearer rq \<noteq> None \<and> verify (the (rq_bearer rq)) \<noteq> None")
    case True
    then obtain raw t where b: "rq_apiKey rq = []" "rq_bearer rq = Some raw" "verify raw = Some t" by auto
    then obtain mid where "tk_mid t = Some mid" using assms by (auto split: option.splits dest: spec [where x = raw])
    then show ?thesis using b afterPrincipal_claims by (auto simp: principalOf_def from_option_def hasCurrentAuthGeneration_def split: option.split)
  next
    case False
    then have "principalOf (\<lambda>raw. map_option ?f (verify raw)) E rq s = principalOf verify E rq s"
      by (auto simp: principalOf_def from_option_def split: option.split)
    then show ?thesis by simp
  qed
  then show ?thesis unfolding canActivate_after by simp
qed

theorem stale_claims_ignored_witness:
  "canActivate (\<lambda>raw. map_option (\<lambda>t. t\<lparr>tk_role := Some TenantOwner, tk_perms := Some ALL_PERMISSIONS\<rparr>) (Some demo_token)) []
     demo_env demo_route demo_request demo_db = canActivate (\<lambda>raw. Some demo_token) [] demo_env demo_route demo_request demo_db"
  by (rule stale_claims_ignored) (simp add: demo_token_def)

text \<open>
  C25: A deactivated member is out at once: no request, by session or by API key, passes the guard as that membership.
\<close>

theorem deactivated_locked_out:
  assumes "setStatus ctx E a mid MemberInactive s = Inr s'" "distinct (map mb_id (memberships s))" "tk_mid p = Some mid"
  shows "canActivate verify mfaRoles E' r rq s' \<noteq> Inr (Some p)"
proof
  assume g: "canActivate verify mfaRoles E' r rq s' = Inr (Some p)"
  obtain t u t2 t3 where c: "freshWriter rq u (livePlatform u (forAccount r t)) s' = Inr t2" "rehydrate t2 s' = Inr t3" "p = assured u t3"
    using g by (rule canActivate_Inr) blast
  have "tk_mid t2 = Some mid" using c(3) assms(3) rehydrate_Inr(2) [OF c(2)] by simp
  then obtain m where m: "m \<in> set (memberships s')" "mb_id m = mid" "mb_status m = MemberActive"
    using rehydrate_Inr(5) [OF c(2)] by blast
  obtain x where mi: "memberInTenant s (ac_tenantId a) mid = Inr x" using assms(1) by (auto simp: setStatus_def)
  then have x: "x \<in> set (memberships s)" "mb_id x = mid" by (auto simp: memberInTenant_def dest: find_SomeD)
  show False
  proof (cases "mb_status x = MemberInactive")
    case True
    then have "s' = s" using assms(1) mi by (auto simp: setStatus_def)
    then show False using m True x same_member [OF assms(2) x(1), of m] by simp
  next
    case False
    then have "memberships s' = updateWhere (\<lambda>m. mb_id m = mid) (\<lambda>m. m\<lparr>mb_status := MemberInactive\<rparr>) (memberships s)"
      using assms(1) mi by (auto simp: setStatus_def writeMemberStatus_def Let_def)
    then have "m \<in> (\<lambda>y. if mb_id y = mid then y\<lparr>mb_status := MemberInactive\<rparr> else y) ` set (memberships s)"
      using m(1) by (simp add: updateWhere_def)
    then obtain y where "m = (if mb_id y = mid then y\<lparr>mb_status := MemberInactive\<rparr> else y)" by blast
    then show False using m(2,3) by (cases "mb_id y = mid") simp_all
  qed
qed

theorem deactivated_locked_out_witness:
  "canActivate (\<lambda>_. Some demo_token) [] demo_env demo_route demo_request
     (case setStatus None demo_env \<lparr>ac_userId = 3, ac_tenantId = 1\<rparr> 10 MemberInactive demo_db of Inr s' \<Rightarrow> s' | Inl _ \<Rightarrow> demo_db)
   \<noteq> Inr (Some demo_token)"
proof -
  obtain s' where s': "setStatus None demo_env \<lparr>ac_userId = 3, ac_tenantId = 1\<rparr> 10 MemberInactive demo_db = Inr s'"
    by (simp add: setStatus_def assertActor_def memberInTenant_def demo_db_def demo_member_def)
  then show ?thesis
    using deactivated_locked_out [OF s', of demo_token] by (simp add: demo_db_def demo_member_def demo_token_def)
qed

section \<open>Roles\<close>

text \<open>
  C14: Over any run of role, membership, invite and API key operations in which every actor lacks a permission, nobody
  comes to hold it who did not hold it before: no sequence of role edits, assignments, bulk changes and placements
  escalates.
\<close>

theorem no_escalation:
  assumes "(stepWithout q)\<^sup>*\<^sup>* s s'" "keyed s" "m' \<in> set (memberships s')" "mayUse s' q m'"
  shows "\<exists>m \<in> set (memberships s). mb_id m = mb_id m' \<and> mayUse s q m"
  using lacking.over_run [OF assms(1,2)] assms(3,4) by (simp add: spared_def)

definition owned_db :: db where
  "owned_db = demo_db\<lparr>memberships := [(demo_member 12 None [12])\<lparr>mb_role := TenantOwner\<rparr>,
     (demo_member 11 (Some 12) [12, 11])\<lparr>mb_role := TenantStaff\<rparr>]\<rparr>"

definition demo_role_input :: role_input where
  "demo_role_input = \<lparr>rn_name = ''Auditors'', rn_description = None, rn_color = None, rn_permissions = [''sales.view'']\<rparr>"

lemma demo_createRole:
  obtains r s' where "createRole None \<lparr>ac_userId = 11, ac_tenantId = 1\<rparr> demo_role_input [''sales.view''] owned_db = Inr (r, s')"
proof -
  have "case createRole None \<lparr>ac_userId = 11, ac_tenantId = 1\<rparr> demo_role_input [''sales.view''] owned_db of Inl _ \<Rightarrow> False | Inr _ \<Rightarrow> True"
    by code_simp
  then show ?thesis using that by (auto split: sum.splits)
qed

theorem no_escalation_witness: "\<exists>m \<in> set (memberships owned_db). mb_id m = 12 \<and> mayUse owned_db ''settings.data'' m"
proof -
  obtain r s' where c: "createRole None \<lparr>ac_userId = 11, ac_tenantId = 1\<rparr> demo_role_input [''sales.view''] owned_db = Inr (r, s')"
    by (rule demo_createRole)
  have "memberStep [''sales.view''] owned_db s'" by (rule create_role_step [OF c])
  then have "stepWithout ''settings.data'' owned_db s'" by (auto simp: stepWithout_def ALL_PERMISSIONS_def PERMISSION_GROUPS_def)
  moreover have "keyed owned_db" by (simp add: keyed_def owned_db_def demo_db_def demo_member_def)
  moreover have "(demo_member 12 None [12])\<lparr>mb_role := TenantOwner\<rparr> \<in> set (memberships s')"
    using role_rows_placements(1) [OF c] by (simp add: owned_db_def)
  ultimately have "\<exists>m \<in> set (memberships owned_db). mb_id m = mb_id ((demo_member 12 None [12])\<lparr>mb_role := TenantOwner\<rparr>) \<and>
      mayUse owned_db ''settings.data'' m"
    by (intro no_escalation [OF r_into_rtranclp]) (simp_all add: mayUse_cases godTier_def)
  then show ?thesis by (simp add: demo_member_def)
qed

section \<open>The tree\<close>

text \<open>
  C16: Over any run of member operations the tree only grows: no member is ever removed, moved to another sponsor, tenant
  or depth, and the paths stay those of the sponsors.
\<close>

theorem tree_only_grows:
  assumes "anyMemberStep\<^sup>*\<^sup>* s s'" "treeOk s"
  shows "treeOk s' \<and> treeGrows s s'"
  using tree.always [OF assms] tree.over_run [OF assms] by simp

lemma demo_tree: "treeOk demo_db"
  by (simp add: treeOk_def placed_def demo_db_def demo_member_def)

definition demo_manual :: manual_input where
  "demo_manual = \<lparr>mi_fullName = ''New'', mi_email = ''new@x'', mi_sponsorReferralCode = None, mi_sponsorMembershipId = Some 10,
     mi_role = None, mi_asLeader = False\<rparr>"

lemma demo_createManual:
  obtains m s' where "createManual demo_env (\<lambda>_. ''NEW'') \<lparr>ac_userId = 3, ac_tenantId = 1\<rparr> (Some 12) demo_manual demo_db = Inr (m, s')"
proof -
  have "case createManual demo_env (\<lambda>_. ''NEW'') \<lparr>ac_userId = 3, ac_tenantId = 1\<rparr> (Some 12) demo_manual demo_db of
      Inl _ \<Rightarrow> False | Inr _ \<Rightarrow> True"
    by code_simp
  then show ?thesis using that by (auto split: sum.splits)
qed

theorem tree_only_grows_witness: "\<exists>s'. anyMemberStep demo_db s' \<and> treeOk s' \<and> treeGrows demo_db s'"
proof -
  obtain m s' where c: "createManual demo_env (\<lambda>_. ''NEW'') \<lparr>ac_userId = 3, ac_tenantId = 1\<rparr> (Some 12) demo_manual demo_db = Inr (m, s')"
    by (rule demo_createManual)
  have "memberStep [] demo_db s'" by (rule manual_member_step [OF c]) (simp add: manualRole_def demo_manual_def)
  then have "anyMemberStep demo_db s'" by (auto simp: anyMemberStep_def)
  then show ?thesis using tree_only_grows [OF r_into_rtranclp demo_tree, of s'] by blast
qed

text \<open>
  C24: On a well-placed tree the three views of it agree: the chain of sponsors the commission engine walks is the
  materialized path read backwards, to any depth and without failing, and the team a rank counts by path prefix is the set
  of members who reach the member through their sponsors.
\<close>

theorem upline_is_path:
  assumes "treeOk s" "m \<in> set (memberships s)"
  shows "uplineChain s (Some (mb_id m)) depth = Inr (map (\<lambda>i. (i, statusIn s i)) (take depth (rev (mb_path m)))) \<and>
     teamSize s (mb_tenantId m) m =
       card {mb_id x | x. x \<in> set (memberships s) \<and> mb_id x \<noteq> mb_id m \<and> (mb_id x, mb_id m) \<in> (sponsorship s)\<^sup>*}"
proof
  show "uplineChain s (Some (mb_id m)) depth = Inr (map (\<lambda>i. (i, statusIn s i)) (take depth (rev (mb_path m))))"
    by (rule uplineChain_path [OF assms])
  have "mb_tenantId x = mb_tenantId m \<and> pathBelow (mb_path x) (mb_path m) \<and> mb_id x \<noteq> mb_id m \<longleftrightarrow>
      mb_id x \<noteq> mb_id m \<and> (mb_id x, mb_id m) \<in> (sponsorship s)\<^sup>*" if "x \<in> set (memberships s)" for x
    using subtree_below [OF assms(1) that assms(2)] pathBelow_path [OF assms(1) that assms(2)] below_tenant [OF assms(1) that assms(2)]
    by blast
  then have "{x \<in> set (memberships s). mb_tenantId x = mb_tenantId m \<and> pathBelow (mb_path x) (mb_path m) \<and> mb_id x \<noteq> mb_id m} =
      {x \<in> set (memberships s). mb_id x \<noteq> mb_id m \<and> (mb_id x, mb_id m) \<in> (sponsorship s)\<^sup>*}" by blast
  then have "teamSize s (mb_tenantId m) m = card (mb_id ` {x \<in> set (memberships s). mb_id x \<noteq> mb_id m \<and> (mb_id x, mb_id m) \<in> (sponsorship s)\<^sup>*})"
    unfolding teamSize_def countWhere_card [OF treeOk_distinct [OF assms(1)]] by simp
  moreover have "mb_id ` {x \<in> set (memberships s). mb_id x \<noteq> mb_id m \<and> (mb_id x, mb_id m) \<in> (sponsorship s)\<^sup>*} =
      {mb_id x | x. x \<in> set (memberships s) \<and> mb_id x \<noteq> mb_id m \<and> (mb_id x, mb_id m) \<in> (sponsorship s)\<^sup>*}" by blast
  ultimately show "teamSize s (mb_tenantId m) m =
      card {mb_id x | x. x \<in> set (memberships s) \<and> mb_id x \<noteq> mb_id m \<and> (mb_id x, mb_id m) \<in> (sponsorship s)\<^sup>*}" by simp
qed

theorem upline_is_path_witness:
  "uplineChain demo_db (Some 10) 2 = Inr [(10, MemberActive), (11, MemberActive)] \<and>
   teamSize demo_db 1 (demo_member 12 None [12]) = card {mb_id x | x. x \<in> set (memberships demo_db) \<and> mb_id x \<noteq> 12 \<and>
     (mb_id x, 12) \<in> (sponsorship demo_db)\<^sup>*}"
  using upline_is_path [OF demo_tree, of "demo_member 10 (Some 11) [12, 11, 10]" 2]
    upline_is_path [OF demo_tree, of "demo_member 12 None [12]" 2]
  by (simp add: demo_db_def demo_member_def statusIn_def findMembership_def)

section \<open>Invites\<close>

lemma find_updated:
  "(\<And>x. P (f x) = P x) \<Longrightarrow> find P (map f xs) = map_option f (find P xs)"
  by (induction xs) auto

lemma consumeInvite_Inr:
  assumes "consumeInvite E k m s = Inr s'"
  shows "invites s' = updateWhere (\<lambda>i. iv_id i = k \<and> iv_status i = InviteActive \<and> env_now E < iv_expiresAt i)
      (\<lambda>i. i\<lparr>iv_status := InviteUsed, iv_usedByMembershipId := Some m\<rparr>) (invites s)"
    "\<exists>i \<in> set (invites s). iv_id i = k \<and> iv_status i = InviteActive \<and> env_now E < iv_expiresAt i"
  using assms by (auto simp: consumeInvite_def Let_def countWhere_def filter_empty_conv)

lemma createUnder_invites: "createUnder E codes t u sp r s = Inr (m, s') \<Longrightarrow> invites s' = invites s"
  by (frule createUnder_Inr(4)) (simp add: drawId_def)

lemma joinByInvite_consumes:
  assumes "joinByInvite E codes u i inviter tenant consent g s = Inr (m, s')"
  shows "\<exists>s1 s2. invites s1 = invites s \<and> consumeInvite E (iv_id i) (mb_id m) s1 = Inr s2 \<and> invites s' = invites s2"
proof -
  obtain s0 where c: "createUnderWithInviteConsent E codes (iv_tenantId i) (us_id u) inviter (iv_id i) consent s = Inr (m, s0)"
    and j: "\<exists>s2. consumeInvite E (iv_id i) (mb_id m) (s0\<lparr>memberships := updateWhere (\<lambda>x. mb_id x = mb_id m) g (memberships s0)\<rparr>) = Inr s2 \<and>
      invites s' = invites s2"
    using assms by (auto simp: joinByInvite_def createNotification_def drawId_def Let_def)
  have "invites s0 = invites s"
    using c by (auto simp: createUnderWithInviteConsent_def dest: createUnder_invites)
  moreover obtain s2 where "consumeInvite E (iv_id i) (mb_id m) (s0\<lparr>memberships := updateWhere (\<lambda>x. mb_id x = mb_id m) g (memberships s0)\<rparr>) =
      Inr s2" "invites s' = invites s2" using j by blast
  ultimately show ?thesis
    by (intro exI [of _ "s0\<lparr>memberships := updateWhere (\<lambda>x. mb_id x = mb_id m) g (memberships s0)\<rparr>"] exI [of _ s2]) simp
qed

text \<open>A registration that made a member found an open invite under its code, and left it used.\<close>

lemma registration_consumes:
  assumes "registerByInvite E codes pw fp vp ri s = (Inr (Joined m isNew), s')" "distinct (map iv_id (invites s))"
  obtains i where "find (\<lambda>x. iv_code x = ri_inviteCode ri) (invites s) = Some i" "iv_status i = InviteActive" "env_now E < iv_expiresAt i"
    "mb_sponsorMembershipId m = Some (iv_inviterMembershipId i)" "mb_tenantId m = iv_tenantId i" "mb_role m = PlainMember"
    "invites s' = map (\<lambda>x. if iv_id x = iv_id i then x\<lparr>iv_status := InviteUsed, iv_usedByMembershipId := Some (mb_id m)\<rparr> else x) (invites s)"
proof -
  let ?g = "noteRegistration E (ri_ip ri)"
  have t: "registerInTransaction E codes pw fp vp ri s = Inr (Joined m isNew, s')"
    using assms(1) by (auto simp: registerByInvite_def split: option.splits sum.splits)
  obtain i0 email known i inviter tenant consent u s1 where f: "find (\<lambda>i. iv_code i = ri_inviteCode ri) (invites s) = Some i0"
    and l: "lockedInvite (iv_id i0) s = Inr (i, inviter, tenant)" and jo: "joinable E i inviter tenant = Inr ()"
    and us: "(case known of Some u \<Rightarrow> Inr (u, s) | None \<Rightarrow> createUser email (ri_fullName ri) s) = Inr (u, s1)"
    and r: "(if known \<noteq> None \<and> us_totpEnabledAt u \<noteq> None then Inr (MfaRequired (iv_id i) (us_id u) consent, s1)
        else andThen (joinByInvite E codes u i inviter tenant consent ?g s1) (\<lambda>(m, s2).
             let s3 = (if known = None then createNotification (iv_tenantId i) (mb_id m) ChEmail ''verify_email'' vp s2 else s2)
             in Inr (Joined m (known = None), joinAudit i u m (fp (ri_ip ri)) s3))) = Inr (Joined m isNew, s')"
    using t unfolding registerInTransaction_def Let_def by auto
  obtain s2 where j: "joinByInvite E codes u i inviter tenant consent ?g s1 = Inr (m, s2)" and inv2: "invites s' = invites s2"
    using r by (auto simp: Let_def joinAudit_def createNotification_def drawId_def split: if_splits)
  have gid: "mb_id (?g x) = mb_id x" for x by (simp add: noteRegistration_def)
  note jm = joinByInvite_Inr(1) [OF j gid]
  have s1: "invites s1 = invites s" using us by (auto simp: createUser_def drawId_def Let_def split: option.splits)
  have i: "i \<in> set (invites s)" "iv_id i = iv_id i0" "iv_inviterMembershipId i = mb_id inviter"
    using l by (auto simp: lockedInvite_def findMembership_def dest: find_SomeD)
  have i0: "i0 \<in> set (invites s)" using f by (auto dest: find_SomeD)
  have same: "x = y" if "x \<in> set (invites s)" "y \<in> set (invites s)" "iv_id x = iv_id y" for x y
    using assms(2) that by (meson distinct_map inj_onD)
  have eq: "i = i0" using same i i0 by blast
  obtain s3 s4 where c: "invites s3 = invites s1" "consumeInvite E (iv_id i) (mb_id m) s3 = Inr s4" "invites s2 = invites s4"
    using joinByInvite_consumes [OF j] by blast
  note ci = consumeInvite_Inr [OF c(2)]
  obtain x where "x \<in> set (invites s)" "iv_id x = iv_id i" "iv_status x = InviteActive" "env_now E < iv_expiresAt x"
    using ci(2) c(1) s1 by auto
  then have act: "iv_status i = InviteActive" "env_now E < iv_expiresAt i" using same i(1) by blast+
  have "invites s' = map (\<lambda>x. if iv_id x = iv_id i then x\<lparr>iv_status := InviteUsed, iv_usedByMembershipId := Some (mb_id m)\<rparr> else x) (invites s)"
    unfolding inv2 c(3) ci(1) c(1) s1 updateWhere_def using same i(1) act by (intro map_cong refl) metis
  moreover have "mb_sponsorMembershipId m = Some (iv_inviterMembershipId i)" "mb_tenantId m = iv_tenantId i" "mb_role m = PlainMember"
    by (simp_all add: jm newMember_def i(3))
  ultimately show ?thesis using that [OF f] act eq by blast
qed

text \<open>
  C23: An invite makes one member: a registration that joins found the invite open, placed a plain member under its
  inviter, in its business, and spent it; whatever is tried with the code afterwards is refused and changes nothing.
\<close>

theorem invite_single_use:
  assumes "registerByInvite E codes pw fp vp ri s = (Inr (Joined m isNew), s')" "distinct (map iv_id (invites s))"
    "ri_inviteCode ri2 = ri_inviteCode ri"
  shows "(\<exists>i \<in> set (invites s). iv_code i = ri_inviteCode ri \<and> iv_status i = InviteActive \<and> env_now E < iv_expiresAt i \<and>
       mb_sponsorMembershipId m = Some (iv_inviterMembershipId i) \<and> mb_tenantId m = iv_tenantId i \<and> mb_role m = PlainMember) \<and>
     (\<exists>e. registerByInvite E2 codes2 pw2 fp2 vp2 ri2 s' = (Inl e, s'))"
proof -
  obtain i where i: "find (\<lambda>x. iv_code x = ri_inviteCode ri) (invites s) = Some i" "iv_status i = InviteActive" "env_now E < iv_expiresAt i"
    "mb_sponsorMembershipId m = Some (iv_inviterMembershipId i)" "mb_tenantId m = iv_tenantId i" "mb_role m = PlainMember"
    "invites s' = map (\<lambda>x. if iv_id x = iv_id i then x\<lparr>iv_status := InviteUsed, iv_usedByMembershipId := Some (mb_id m)\<rparr> else x) (invites s)"
    using assms(1,2) by (rule registration_consumes)
  let ?i = "i\<lparr>iv_status := InviteUsed, iv_usedByMembershipId := Some (mb_id m)\<rparr>"
  let ?f = "\<lambda>x. if iv_id x = iv_id i then x\<lparr>iv_status := InviteUsed, iv_usedByMembershipId := Some (mb_id m)\<rparr> else x"
  have "find (\<lambda>x. iv_code x = ri_inviteCode ri) (map ?f (invites s)) = map_option ?f (find (\<lambda>x. iv_code x = ri_inviteCode ri) (invites s))"
    by (rule find_updated) simp
  then have code: "find (\<lambda>x. iv_code x = ri_inviteCode ri) (invites s') = Some ?i" using i(1,7) by simp
  have "i \<in> set (invites s)" "iv_code i = ri_inviteCode ri" using i(1) by (auto dest: find_SomeD)
  moreover have "find (\<lambda>x. iv_id x = iv_id i) (invites s) = Some i"
  proof -
    have "distinct (map iv_id xs) \<Longrightarrow> i \<in> set xs \<Longrightarrow> find (\<lambda>x. iv_id x = iv_id i) xs = Some i" for xs by (induction xs) auto
    then show ?thesis using assms(2) calculation(1) by blast
  qed
  moreover have "find (\<lambda>x. iv_id x = iv_id i) (map ?f (invites s)) = map_option ?f (find (\<lambda>x. iv_id x = iv_id i) (invites s))"
    by (rule find_updated) simp
  ultimately have id: "find (\<lambda>x. iv_id x = iv_id ?i) (invites s') = Some ?i" using i(7) by simp
  have "registerInTransaction E2 codes2 pw2 fp2 vp2 ri2 s' \<noteq> Inr z" for z
  proof
    assume "registerInTransaction E2 codes2 pw2 fp2 vp2 ri2 s' = Inr z"
    then obtain j inviter tenant where "lockedInvite (iv_id ?i) s' = Inr (j, inviter, tenant)" "joinable E2 j inviter tenant = Inr ()"
      using code assms(3) by (cases z) (auto simp: registerInTransaction_def Let_def)
    then show False using id by (auto simp: lockedInvite_def joinable_def)
  qed
  then obtain e where "registerInTransaction E2 codes2 pw2 fp2 vp2 ri2 s' = Inl e" by (metis sum.exhaust)
  then have "registerByInvite E2 codes2 pw2 fp2 vp2 ri2 s' = (Inl e, s')" using code assms(3) by (simp add: registerByInvite_def)
  then show ?thesis using i \<open>i \<in> set (invites s)\<close> \<open>iv_code i = ri_inviteCode ri\<close> by blast
qed

definition demo_invite :: invite where
  "demo_invite = \<lparr>iv_id = 70, iv_tenantId = 1, iv_inviterMembershipId = 10, iv_createdAt = 1699900000000, iv_code = ''JOIN'',
     iv_email = None, iv_expiresAt = 1900000000000, iv_usedByMembershipId = None, iv_keyHash = None, iv_status = InviteActive\<rparr>"

definition invited_db :: db where
  "invited_db = demo_db\<lparr>invites := [demo_invite]\<rparr>"

definition demo_registration :: register_input where
  "demo_registration = \<lparr>ri_inviteCode = ''JOIN'', ri_email = Some ''New@x'', ri_fullName = ''New'',
     ri_disclaimerVersion = ''2026-07-16'', ri_disclaimerLocale = ''en'', ri_ip = None\<rparr>"

lemma demo_registers:
  obtains m s' where "registerByInvite demo_env (\<lambda>_. ''NEW'') (\<lambda>_. True) (\<lambda>_. []) JNull demo_registration invited_db =
    (Inr (Joined m True), s')"
proof -
  have "case fst (registerByInvite demo_env (\<lambda>_. ''NEW'') (\<lambda>_. True) (\<lambda>_. []) JNull demo_registration invited_db) of
      Inr (Joined m True) \<Rightarrow> True | _ \<Rightarrow> False"
    by code_simp
  then show ?thesis using that by (cases "registerByInvite demo_env (\<lambda>_. ''NEW'') (\<lambda>_. True) (\<lambda>_. []) JNull demo_registration invited_db")
    (auto split: sum.splits registration.splits bool.splits)
qed

theorem invite_single_use_witness:
  "\<exists>e s'. registerByInvite demo_env (\<lambda>_. ''NEW2'') (\<lambda>_. True) (\<lambda>_. []) JNull demo_registration
     (snd (registerByInvite demo_env (\<lambda>_. ''NEW'') (\<lambda>_. True) (\<lambda>_. []) JNull demo_registration invited_db)) = (Inl e, s')"
proof -
  obtain m s' where r: "registerByInvite demo_env (\<lambda>_. ''NEW'') (\<lambda>_. True) (\<lambda>_. []) JNull demo_registration invited_db =
    (Inr (Joined m True), s')"
    by (rule demo_registers)
  have "distinct (map iv_id (invites invited_db))" by (simp add: invited_db_def)
  then show ?thesis
    using invite_single_use [OF r _ refl, where ?E2.0 = demo_env and ?codes2.0 = "\<lambda>_. ''NEW2''" and ?pw2.0 = "\<lambda>_. True" and ?fp2.0 = "\<lambda>_. []"
        and ?vp2.0 = JNull] r by auto
qed

lemma insertInvite_cases:
  assumes "insertInvite E codes inviter email h k n s = Inr (i, s')"
  shows "(i \<in> set (invites s) \<and> iv_inviterMembershipId i = mb_id inviter \<and> invites s' = invites s) \<or>
     (invites s' = invites s @ [i] \<and> iv_inviterMembershipId i = mb_id inviter \<and> iv_createdAt i = env_now E)"
  using assms
proof (induction n arbitrary: k s)
  case (Suc n)
  have key: "e \<in> set (invites s) \<and> iv_inviterMembershipId e = mb_id inviter" if "inviteOfKey (mb_id inviter) h (drawId s) = Some e" for e
    using that by (auto simp: inviteOfKey_def drawId_def split: option.splits dest: find_SomeD)
  show ?case
  proof (cases "inviteTaken (newInvite E inviter email h (codes k) (freshId s)) (invites s)")
    case False
    then show ?thesis using Suc.prems by (auto simp: Let_def drawId_def newInvite_def)
  next
    case True
    then show ?thesis using Suc.prems Suc.IH [of "Suc k" "drawId s"] key
      by (auto simp: Let_def replayInvite_def drawId_def split: option.splits)
  qed
qed simp

text \<open>
  C34: Issuing an invite either returns one the member already has, adding nothing, or adds one, after which the member has
  at most fifty open invites and at most twenty of the last day.
\<close>

theorem invite_quota:
  assumes "issueInvite E codes inviterId email key tenantId s = Inr (i, s')"
  shows "i \<in> set (invites s') \<and> iv_inviterMembershipId i = inviterId \<and>
     (length (invites s') = length (invites s) \<or>
      (length (invites s') = Suc (length (invites s)) \<and> countWhere (openInvite E inviterId) (invites s') \<le> 50 \<and>
       countWhere (recentInvite E inviterId) (invites s') \<le> 20))"
proof -
  obtain m tn where m: "findMembership s inviterId = Some m" "findTenant s (mb_tenantId m) = Some tn"
    using assms by (auto simp: issueInvite_def Let_def bind_eq_Some_conv)
  then have id: "mb_id m = inviterId" by (auto simp: findMembership_def dest: find_SomeD)
  let ?s = "expireInvites E inviterId s"
  have len: "length (invites ?s) = length (invites s)" by (simp add: expireInvites_def updateWhere_def)
  show ?thesis
  proof (cases "inviteOfKey inviterId (inviteKeyHash E key) ?s")
    case (Some e)
    then have "i = e" "s' = ?s" using assms m id by (auto simp: issueInvite_def Let_def replayInvite_def)
    moreover have "e \<in> set (invites ?s)" "iv_inviterMembershipId e = inviterId"
      using Some by (auto simp: inviteOfKey_def split: option.splits dest: find_SomeD)
    ultimately show ?thesis using len by simp
  next
    case None
    then have q: "countWhere (openInvite E inviterId) (invites ?s) < 50" "countWhere (recentInvite E inviterId) (invites ?s) < 20"
      and "insertInvite E codes m (normalEmail email) (inviteKeyHash E key) 0 8 ?s = Inr (i, s')"
      using assms m id by (auto simp: issueInvite_def Let_def MAX_ACTIVE_INVITES_def MAX_INVITES_PER_DAY_def)
    then show ?thesis using insertInvite_cases [of E codes m "normalEmail email" "inviteKeyHash E key" 0 8 ?s i s'] id len
      by (auto simp: countWhere_def)
  qed
qed

theorem invite_quota_witness:
  "\<exists>i s'. issueInvite demo_env (\<lambda>_. ''NEW'') 10 None None None invited_db = Inr (i, s') \<and>
     countWhere (openInvite demo_env 10) (invites s') \<le> 50"
proof -
  have "case issueInvite demo_env (\<lambda>_. ''NEW'') 10 None None None invited_db of
      Inr (i, s') \<Rightarrow> length (invites s') = 2 | Inl _ \<Rightarrow> False"
    by code_simp
  then obtain i s' where i: "issueInvite demo_env (\<lambda>_. ''NEW'') 10 None None None invited_db = Inr (i, s')" "length (invites s') = 2"
    by (auto split: sum.splits)
  then show ?thesis using invite_quota [OF i(1)] by (auto simp: invited_db_def)
qed


section \<open>Role keys\<close>

lemma keyNumbered_inj: "keyNumbered base i = keyNumbered base j \<Longrightarrow> i = j"
  by (auto simp: keyNumbered_def split: if_splits dest: show_nat_inj)

lemma roleOfKey_taken: "roleOfKey s t k \<noteq> None \<Longrightarrow> k \<in> ro_key ` set (roles s)"
  by (auto simp: roleOfKey_def dest: find_SomeD)

lemma firstFreeKey_spec:
  assumes "i \<le> n" "roleOfKey s t (keyNumbered base n) = None" "\<And>j. i \<le> j \<Longrightarrow> j < n \<Longrightarrow> roleOfKey s t (keyNumbered base j) \<noteq> None" "n < i + fuel"
  shows "firstFreeKey s t base i fuel = Some (keyNumbered base n)"
  using assms
proof (induction fuel arbitrary: i)
  case (Suc fuel)
  show ?case
  proof (cases "i = n")
    case False
    then have "firstFreeKey s t base (Suc i) fuel = Some (keyNumbered base n)" using Suc.prems by (intro Suc.IH) auto
    moreover have "roleOfKey s t (keyNumbered base i) \<noteq> None" using False Suc.prems(1) by (intro Suc.prems(3)) auto
    ultimately show ?thesis by auto
  qed (use Suc.prems in simp)
qed simp

lemma free_key_exists: "\<exists>i \<le> length (roles s). roleOfKey s t (keyNumbered base i) = None"
proof (rule ccontr)
  assume "\<not> ?thesis"
  then have "keyNumbered base ` {..length (roles s)} \<subseteq> ro_key ` set (roles s)" using roleOfKey_taken by blast
  then have "card (keyNumbered base ` {..length (roles s)}) \<le> card (ro_key ` set (roles s))" by (intro card_mono) simp_all
  also have "\<dots> \<le> length (roles s)" using card_image_le [of "set (roles s)" ro_key] card_length [of "roles s"] by simp
  finally show False using keyNumbered_inj [of base] by (simp add: card_image inj_on_def)
qed

text \<open>The loop for a role's key always ends, with the first number that is free.\<close>

lemma uniqueKey_first_free:
  obtains i where "i \<le> length (roles s)" "uniqueKey s t name = Some (keyNumbered (baseKey name) i)"
    "roleOfKey s t (keyNumbered (baseKey name) i) = None" "\<And>j. j < i \<Longrightarrow> roleOfKey s t (keyNumbered (baseKey name) j) \<noteq> None"
proof -
  define free where "free = (\<lambda>i. roleOfKey s t (keyNumbered (baseKey name) i) = None)"
  obtain n where n: "n \<le> length (roles s)" "free n" using free_key_exists [of s t "baseKey name"] by (auto simp: free_def)
  have "free (Least free)" "Least free \<le> n" "\<And>j. j < Least free \<Longrightarrow> \<not> free j"
    using n(2) by (auto intro: LeastI Least_le dest: not_less_Least)
  moreover from this have "uniqueKey s t name = Some (keyNumbered (baseKey name) (Least free))"
    using n(1) unfolding uniqueKey_def by (intro firstFreeKey_spec) (auto simp: free_def)
  ultimately show ?thesis using n(1) by (intro that [of "Least free"]) (auto simp: free_def)
qed

lemma createRole_fresh_key:
  assumes "createRole ctx a i A s = Inr (r, s')"
  shows "ro_tenantId r = ac_tenantId a \<and> roleOfKey s (ac_tenantId a) (ro_key r) = None \<and> set (ro_permissions r) \<subseteq> set A \<and> roles s' = roles s @ [r]"
proof -
  obtain k where k: "uniqueKey s (ac_tenantId a) (rn_name i) = Some k" "roleOfKey s (ac_tenantId a) k = None"
    using uniqueKey_first_free by metis
  then show ?thesis using assms
    by (auto simp: createRole_def assertGrantable_def rbacAudit_def drawId_def Let_def require_def from_option_def filter_empty_conv split: if_splits)
qed

end
