(* ===== verification/Spec2Isabelle.thy ===== *)
theory Spec2Isabelle
  imports Policy_Theorems Commission_Theorems Compliance_Theorems Engine_Theorems Payout_Theorems
    Sales_Theorems Bulk_Theorems Request_Theorems Check_Theorems Campaign_Theorems
    Report_Theorems Member_Theorems
begin

text \<open>
  A model of the money and the access rules of a multi-tenant referral-commission platform (a NestJS API over
  PostgreSQL, \<open>src/apps/api\<close>, with the shared arithmetic in \<open>src/packages/shared\<close>).

  The program.  A tenant's members form a sponsorship tree.  An approved sale pays commissions along
  the seller's upline by the plan in force, plus sponsor bonuses and a rank override; each becomes a
  row of an append-only ledger, pending until it matures, then payable.  A payout batch reserves the
  payable rows of members that pass the risk and compliance checks, is dispatched, and is settled, or
  failed before dispatch.  Monthly summaries are kept beside the ledger and must always agree with it.  Members join by invite
  under a sponsor; what a request may do is decided by a guard over the membership's role rows.

  Theories, in the order of their imports:
  Earn_Prelude: errors as values, \<open>andThen\<close>, loops over fallible bodies, JSON, row queries.
  Money: \<open>money.ts\<close>, \<open>commission.ts\<close>, \<open>plan.ts\<close>.
  JsDate: instants, their ISO text, civil dates (the language's \<open>Date\<close>).
  Store: the rows of \<open>schema.prisma\<close> as records, the database as a record of tables, and the writes
  several services share (ledger insert with its unique index, summary upsert, audit, notification).
  Summaries: what balanced books are, well-linked settlement rows, and the lemmas every writer uses.
  Periods, Plans, Ranks: \<open>periods.service.ts\<close>, \<open>plans.service.ts\<close>, \<open>ranks.service.ts\<close>.
  Commission_Engine and Payout_Engine: the two halves of \<open>engine.service.ts\<close>.
  Risk: \<open>sanctions.service.ts\<close>, \<open>kyc.service.ts\<close>, \<open>fraud.service.ts\<close> and their types.
  Readiness and Compliance: \<open>payout-readiness.ts\<close>, \<open>payout-compliance.service.ts\<close>.
  Csv, Nacha: \<open>sales/csv.ts\<close>, \<open>common/csv.ts\<close>, \<open>nacha.ts\<close>.
  Payout_Requests: \<open>payouts.service.ts\<close>.  Sales, Sales_Bulk: \<open>sales.service.ts\<close>, \<open>bulk-scope.ts\<close>.
  Checks: \<open>checks.service.ts\<close> and the texts of \<open>checks.pdf.ts\<close>.  Campaigns: \<open>campaigns.service.ts\<close>.
  Reports: the audit, tax, claw-back and dashboard figures of \<open>reports.service.ts\<close>.
  Network: \<open>memberships.service.ts\<close>, \<open>invites.service.ts\<close>, \<open>invite-consent.ts\<close>, and registration by invite
  in \<open>auth.service.ts\<close>.  Access: \<open>permissions.ts\<close>, \<open>rbac.service.ts\<close>.  Guard: \<open>auth.guard.ts\<close>,
  \<open>apikeys.service.ts\<close>.  Members: \<open>members.admin.service.ts\<close>.
  Service_Books, Service_Steps: the service calls leave ledger and settlement rows alone, or reach them
  through the engine's own transactions.
  Payout_Books, Payout_Reserve: the payout transactions keep balanced books.
  Engine_Lifecycle: the engine and its callers as one step relation, with locales for what runs keep
  and record.  Side_Tables: which steps write the check counter, checks, prizes and campaigns.
  Financial_Audit: what a database must satisfy for the audit to find nothing, kept by every engine step.
  Network_Tree: well-placed trees, the sponsor chain against the path.  Member_Steps: every write to
  members and roles as one step relation, labelled with the permissions of its actor.
  Samples: one small company for the concrete inputs.  Commission_Spec: what a sale pays and what a void
  reverses, stated over the rows alone, and that the engine's definitions meet it.
  Policy_, Commission_, Compliance_, Engine_, Payout_, Sales_, Bulk_, Request_, Check_, Campaign_, Report_
  and Member_Theorems: the properties.

  State and effects.  A transaction is a function from the database record to an error or a result
  with the new database; an error is a value of \<open>error\<close>, one per exception class, and aborts the
  transaction.  A table is the list of its rows in insertion order; Prisma's \<open>orderBy\<close> is a stable
  sort.  Amounts are \<open>int\<close> (the code uses \<open>bigint\<close>), uuids are numbers drawn from an arbitrary sequence
  kept in the state, instants are milliseconds.  Row locks serialize transactions, so each runs alone;
  what two transactions do to each other is their order.  A call outside a transaction that reads a row and
  then writes by its id is taken as one step as well, except where the gap matters to a property: the
  campaign edits (\<open>updateCampaign\<close>, \<open>removeCampaign\<close>) and the deletion of a draft sale (\<open>removeSale\<close>) take
  what they read apart from the database they write.  The retry wrapper \<open>engineTx\<close> takes the fault
  and the database each attempt meets as parameters; its five attempts are the bound of the code.

  Parameters (record \<open>env\<close> and arguments): the clock, the month of an instant in a time zone (\<open>Intl\<close>),
  SHA-256 and MD5, the presence of the optional rank and compliance services, rows locked by others,
  zod's message texts, account encryption, the signing and opening of preview tokens, the parser of
  imported dates, the message text of a database error, the order of a \<open>GROUP BY\<close>, the American
  date text of a check, the verification of a token's signature, random codes (a sequence, one per
  attempt), the outcome of a password check, the fingerprints and the encrypted token an audit row or a
  mail carries.  No law is assumed of them, except that a \<open>GROUP BY\<close> returns each group where a
  property says so.

  What the lemmas show.  \<open>engine_keeps_books\<close>: the summary columns equal the ledger sums after any run.
  The operations' own lemmas (\<open>..._books\<close>, \<open>..._history\<close>) prove the steps; the locales \<open>maintained\<close> and
  \<open>recorded\<close> of Engine_Lifecycle lift them to runs.  Commission_Theorems shows that a distribution
  posts, and a void reverses, exactly the rows of Commission_Spec, and that a distribution is total; Payout_Theorems the effect of each batch
  transaction; Compliance_Theorems who may be paid; Policy_Theorems plans, periods, ranks and dates; Check_Theorems
  which checks a run numbers, that check numbers are never used twice, and that both texts of the amount read
  back; Campaign_Theorems that a campaign pays its prizes once unless an edit of it was overtaken by its end,
  and the run in which that pays twice;
  Report_Theorems that the nightly audit never raises an alarm; Member_Theorems that the guard decides by
  the live rows, that no run of member operations grants a permission its actors lack, that the tree only
  grows and agrees with its paths, and that an invite is used once.

  Bounds.  The search for a free start instant (\<open>nextImmediateEffectiveFrom\<close>) terminates by the finitely
  many plan rows; the upline walk recurses on the plan's depth; the search for a free role key (\<open>uniqueKey\<close>) runs one round more
  than there are roles, so a numbered key is free (\<open>uniqueKey_first_free\<close>); invite and referral codes are drawn at most
  eight and five times, the bounds of the code.

  Not modelled: HTTP, sessions and password, token and second-factor cryptography, notification delivery
  and webhooks, the list, search, tree and wallet screens, the user interfaces, floating-point figures,
  the audit hash chain, the drawing of a check on its page.
\<close>

end
